(* ===== verification/Mail_Prelude.thy ===== *)
theory Mail_Prelude
  imports Main "HOL-Library.Char_ord" "HOL-Library.List_Lexorder" "HOL-Library.AList" "HOL-Library.Multiset" "HOL-Library.Product_Lexorder" "HOL-Library.Monad_Syntax"
begin

text \<open>
  What every component shares: the value types of the Python source, the operations on
  strings, decimal numbers and dictionaries it uses, and the named collections that carry
  the component proofs.

  A Python \<open>str\<close> and a Python \<open>bytes\<close> are both a list of HOL characters, which are bytes; a
  \<open>str\<close> stands for its UTF-8 encoding, so \<open>encode\<close> and \<open>decode\<close> are the identity.
  The order on strings is the lexicographic order of the byte values, which is the order of
  DynamoDB sort keys, of SQLite TEXT columns and (for UTF-8) of Python strings.
\<close>

type_synonym bytes = "char list"

named_theorems table_simps \<open>reading a key of the single table after a write\<close>
named_theorems frame_simps \<open>what an operation leaves unchanged\<close>

section \<open>Errors\<close>

text \<open>The exceptions the modelled code raises, as values.\<close>

datatype exc =
    KeyError string
  | ValueError string
  | TTLViolation string
  | RuntimeError string
  | TypeError string
  | AttributeError string
  | HTTPException int string
  | PackAlreadyExists string
  | SendOutcomeUnknown string
  | TokenExpired string
  | TokenInvalid string
  | TokenError string

definition bindE :: "'e + 'a \<Rightarrow> ('a \<Rightarrow> 'e + 'b) \<Rightarrow> 'e + 'b" where
  "bindE r f = (case r of Inl e \<Rightarrow> Inl e | Inr x \<Rightarrow> f x)"

lemma bindE_simps [simp]:
  "bindE (Inl e) f = Inl e" "bindE (Inr x) f = f x"
  by (simp_all add: bindE_def)

lemma bindE_Inr_iff: "bindE r f = Inr y \<longleftrightarrow> (\<exists>x. r = Inr x \<and> f x = Inr y)"
  by (cases r) (auto simp: bindE_def)

section \<open>Python expressions\<close>

text \<open>\<open>a or b\<close> on strings: the empty string is false.\<close>

definition py_or :: "string \<Rightarrow> string \<Rightarrow> string" where
  "py_or a b = (if a = [] then b else a)"

text \<open>\<open>a or b\<close> where \<open>a\<close> may be \<open>None\<close>.\<close>

definition opt_or :: "string option \<Rightarrow> string \<Rightarrow> string" where
  "opt_or a b = (case a of None \<Rightarrow> b | Some s \<Rightarrow> py_or s b)"

definition truthy :: "string option \<Rightarrow> bool" where
  "truthy a = (case a of None \<Rightarrow> False | Some s \<Rightarrow> s \<noteq> [])"

fun starts_with :: "string \<Rightarrow> string \<Rightarrow> bool" where
  "starts_with s [] = True"
| "starts_with [] (p # ps) = False"
| "starts_with (c # s) (p # ps) = (c = p \<and> starts_with s ps)"

lemma starts_with_iff: "starts_with s p \<longleftrightarrow> (\<exists>r. s = p @ r)"
  by (induction s p rule: starts_with.induct) auto

text \<open>\<open>s.partition(c)\<close>: the text before the first \<open>c\<close>, whether there is one, and the rest.\<close>

fun partition_at :: "char \<Rightarrow> string \<Rightarrow> string \<times> bool \<times> string" where
  "partition_at c [] = ([], False, [])"
| "partition_at c (x # xs) =
     (if x = c then ([], True, xs)
      else (case partition_at c xs of (a, f, b) \<Rightarrow> (x # a, f, b)))"

lemma partition_at_append: "c \<notin> set a \<Longrightarrow> partition_at c (a @ c # b) = (a, True, b)"
  by (induction a) auto

lemma partition_at_none: "c \<notin> set a \<Longrightarrow> partition_at c a = (a, False, [])"
  by (induction a) auto

text \<open>\<open>str.lower\<close> on ASCII letters; other characters are left alone.\<close>

definition lower_char :: "char \<Rightarrow> char" where
  "lower_char c = (let n = (of_char c :: nat) in if 65 \<le> n \<and> n \<le> 90 then char_of (n + 32) else c)"

definition lower :: "string \<Rightarrow> string" where
  "lower s = map lower_char s"

lemma of_char_less_256: "(of_char c :: nat) < 256"
  by (metis char_of_char nat_of_char_less_256)

lemma lower_char_idem [simp]: "lower_char (lower_char c) = lower_char c"
  by (auto simp: lower_char_def Let_def)

lemma lower_idem [simp]: "lower (lower s) = lower s"
  by (simp add: lower_def)

lemma length_lower [simp]: "length (lower s) = length s"
  by (simp add: lower_def)

text \<open>\<open>str.strip()\<close> of ASCII whitespace.\<close>

definition is_space :: "char \<Rightarrow> bool" where
  "is_space c \<longleftrightarrow> (let n = (of_char c :: nat) in 9 \<le> n \<and> n \<le> 13 \<or> 28 \<le> n \<and> n \<le> 32)"

definition strip :: "string \<Rightarrow> string" where
  "strip s = rev (dropWhile is_space (rev (dropWhile is_space s)))"

text \<open>\<open>int(s)\<close> of a string: whitespace, a sign, digits with single underscores between them.\<close>

fun digits_val :: "nat \<Rightarrow> bool \<Rightarrow> string \<Rightarrow> nat option" where
  "digits_val a d [] = (if d then Some a else None)"
| "digits_val a d (c # cs) =
     (let n = (of_char c :: nat) in
      if 48 \<le> n \<and> n \<le> 57 then digits_val (a * 10 + (n - 48)) True cs
      else if c = CHR ''_'' \<and> d then digits_val a False cs
      else None)"

definition int_of_str :: "string \<Rightarrow> int option" where
  "int_of_str s =
     (case strip s of
        [] \<Rightarrow> None
      | c # cs \<Rightarrow>
          if c = CHR ''-'' then map_option (\<lambda>n. - int n) (digits_val 0 False cs)
          else if c = CHR ''+'' then map_option int (digits_val 0 False cs)
          else map_option int (digits_val 0 False (c # cs)))"

section \<open>Decimal numbers\<close>

definition digit :: "nat \<Rightarrow> char" where
  "digit n = char_of (48 + n)"

text \<open>\<open>str(n)\<close> for \<open>n \<ge> 0\<close>.\<close>

fun dec :: "nat \<Rightarrow> string" where
  "dec n = (if n < 10 then [digit n] else dec (n div 10) @ [digit (n mod 10)])"

declare dec.simps [simp del]

text \<open>The format \<open>0wd\<close>: padded with zeros on the left to at least \<open>w\<close> digits.\<close>

definition pad :: "nat \<Rightarrow> nat \<Rightarrow> string" where
  "pad w n = replicate (w - length (dec n)) (digit 0) @ dec n"

definition dec_int :: "int \<Rightarrow> string" where
  "dec_int i = (if i < 0 then CHR ''-'' # dec (nat (- i)) else dec (nat i))"

lemma of_char_digit: "n < 10 \<Longrightarrow> (of_char (digit n) :: nat) = 48 + n"
  by (simp add: digit_def)

lemma digit_less_iff: "a < 10 \<Longrightarrow> b < 10 \<Longrightarrow> digit a < digit b \<longleftrightarrow> a < b"
  by (simp add: less_char_def of_char_digit)

lemma digit_eq_iff: "a < 10 \<Longrightarrow> b < 10 \<Longrightarrow> digit a = digit b \<longleftrightarrow> a = b"
  using of_char_digit by (metis add_left_cancel)

lemma dec_nonempty [simp]: "dec n \<noteq> []"
  by (subst dec.simps) simp

lemma set_dec: "set (dec n) \<subseteq> digit ` {..<10}"
proof (induction n rule: dec.induct)
  case (1 n)
  then show ?case by (subst dec.simps) auto
qed

lemma digit_not_colon: "n < 10 \<Longrightarrow> digit n \<noteq> CHR '':''"
  using of_char_digit [of n] by auto

lemma digit_not_hash: "n < 10 \<Longrightarrow> digit n \<noteq> CHR ''#''"
  using of_char_digit [of n] by auto

lemma colon_notin_dec: "CHR '':'' \<notin> set (dec n)"
  using set_dec [of n] digit_not_colon by fastforce

lemma hash_notin_dec: "CHR ''#'' \<notin> set (dec n)"
  using set_dec [of n] digit_not_hash by fastforce

text \<open>The fixed-width digits of a number, most significant first.\<close>

primrec digs :: "nat \<Rightarrow> nat \<Rightarrow> string" where
  "digs 0 n = []"
| "digs (Suc w) n = digs w (n div 10) @ [digit (n mod 10)]"

lemma length_digs [simp]: "length (digs w n) = w"
  by (induction w arbitrary: n) auto

lemma digs_zero: "digs w 0 = replicate w (digit 0)"
  by (induction w) (auto simp: replicate_append_same)

lemma pad_Suc: "n \<ge> 10 \<Longrightarrow> pad (Suc w) n = pad w (n div 10) @ [digit (n mod 10)]"
  by (simp add: pad_def dec.simps [of n])

lemma pad_digs: "0 < w \<Longrightarrow> n < 10 ^ w \<Longrightarrow> pad w n = digs w n"
proof (induction w arbitrary: n)
  case 0
  then show ?case by simp
next
  case (Suc w)
  show ?case
  proof (cases "n < 10")
    case True
    then show ?thesis by (simp add: pad_def dec.simps [of n] digs_zero)
  next
    case False
    with Suc.prems have "0 < w" by (cases w) auto
    moreover from Suc.prems have "n div 10 < 10 ^ w" by (simp add: div_less_iff_less_mult mult.commute)
    ultimately have "pad w (n div 10) = digs w (n div 10)" by (rule Suc.IH)
    with False show ?thesis by (simp add: pad_Suc)
  qed
qed

lemma append_less_append_same_length:
  fixes xs ys :: "'a::linorder list"
  shows "length xs = length ys \<Longrightarrow> xs @ us < ys @ vs \<longleftrightarrow> xs < ys \<or> xs = ys \<and> us < vs"
  by (induction xs ys rule: list_induct2) auto

lemma digs_eq_iff: "a < 10 ^ w \<Longrightarrow> b < 10 ^ w \<Longrightarrow> digs w a = digs w b \<longleftrightarrow> a = b"
proof (induction w arbitrary: a b)
  case 0
  then show ?case by simp
next
  case (Suc w)
  have "a div 10 < 10 ^ w" "b div 10 < 10 ^ w"
    using Suc.prems by (simp_all add: div_less_iff_less_mult mult.commute)
  then have "digs w (a div 10) = digs w (b div 10) \<longleftrightarrow> a div 10 = b div 10" by (rule Suc.IH)
  moreover have "a = b \<longleftrightarrow> a div 10 = b div 10 \<and> a mod 10 = b mod 10"
    by (metis div_mult_mod_eq)
  ultimately show ?case by (simp add: digit_eq_iff)
qed

lemma digs_less_iff: "a < 10 ^ w \<Longrightarrow> b < 10 ^ w \<Longrightarrow> digs w a < digs w b \<longleftrightarrow> a < b"
proof (induction w arbitrary: a b)
  case 0
  then show ?case by simp
next
  case (Suc w)
  have ab: "a div 10 < 10 ^ w" "b div 10 < 10 ^ w"
    using Suc.prems by (simp_all add: div_less_iff_less_mult mult.commute)
  have "digs (Suc w) a < digs (Suc w) b \<longleftrightarrow>
      a div 10 < b div 10 \<or> a div 10 = b div 10 \<and> a mod 10 < b mod 10"
    using Suc.IH [OF ab] digs_eq_iff [OF ab]
    by (simp add: append_less_append_same_length digit_less_iff)
  also have "\<dots> \<longleftrightarrow> 10 * (a div 10) + a mod 10 < 10 * (b div 10) + b mod 10"
    using mod_less_divisor [of 10 a] mod_less_divisor [of 10 b] by linarith
  also have "\<dots> \<longleftrightarrow> a < b" by simp
  finally show ?case .
qed

text \<open>Zero-padded numbers of one width compare as text the way they compare as numbers.\<close>

lemma pad_less_iff: "0 < w \<Longrightarrow> a < 10 ^ w \<Longrightarrow> b < 10 ^ w \<Longrightarrow> pad w a < pad w b \<longleftrightarrow> a < b"
  by (simp add: pad_digs digs_less_iff)

lemma pad_eq_iff: "0 < w \<Longrightarrow> a < 10 ^ w \<Longrightarrow> b < 10 ^ w \<Longrightarrow> pad w a = pad w b \<longleftrightarrow> a = b"
  by (simp add: pad_digs digs_eq_iff)

lemma length_pad: "0 < w \<Longrightarrow> n < 10 ^ w \<Longrightarrow> length (pad w n) = w"
  by (simp add: pad_digs)

lemma pad_le_iff: "0 < w \<Longrightarrow> a < 10 ^ w \<Longrightarrow> b < 10 ^ w \<Longrightarrow> pad w a \<le> pad w b \<longleftrightarrow> a \<le> b"
  using pad_less_iff [of w b a] by (simp add: not_less [symmetric])

lemma dec_inj: "dec a = dec b \<Longrightarrow> a = b"
proof (induction a arbitrary: b rule: dec.induct)
  case (1 a)
  from "1.prems" show ?case
    by (subst (asm) (1 2) dec.simps)
       (auto split: if_splits simp: digit_eq_iff dest: "1.IH" arg_cong [of _ _ length]; metis "1.IH" div_mult_mod_eq)
qed

lemma strip_no_space: "\<forall>c\<in>set s. \<not> is_space c \<Longrightarrow> strip s = s"
proof -
  assume s: "\<forall>c\<in>set s. \<not> is_space c"
  then have d: "dropWhile is_space s = s" by (cases s) auto
  have "dropWhile is_space (rev s) = rev s" using s by (cases "rev s") (auto simp: rev_eq_Cons_iff)
  with d show ?thesis by (simp add: strip_def)
qed

text \<open>\<open>int(str(n)) = n\<close>.\<close>

lemma digits_val_dec:
  "digits_val a d (dec n @ s) = digits_val (a * 10 ^ length (dec n) + n) True s"
proof (induction n arbitrary: s rule: dec.induct)
  case (1 n)
  show ?case
  proof (cases "n < 10")
    case True
    then show ?thesis by (simp add: dec.simps [of n] of_char_digit)
  next
    case False
    have m: "n mod 10 < 10" "n mod 10 \<le> 9" using mod_less_divisor [of 10 n] by linarith+
    from False have "digits_val a d (dec n @ s) = digits_val a d (dec (n div 10) @ digit (n mod 10) # s)"
      by (simp add: dec.simps [of n])
    also have "\<dots> = digits_val ((a * 10 ^ length (dec (n div 10)) + n div 10) * 10 + n mod 10) True s"
      unfolding "1.IH" [OF False] by (subst digits_val.simps) (simp add: of_char_digit m)
    also have "(a * 10 ^ length (dec (n div 10)) + n div 10) * 10 + n mod 10 = a * 10 ^ length (dec n) + n"
      using False by (simp add: dec.simps [of n] algebra_simps)
    finally show ?thesis .
  qed
qed

lemma dec_no_space: "c \<in> set (dec n) \<Longrightarrow> \<not> is_space c \<and> c \<noteq> CHR ''-'' \<and> c \<noteq> CHR ''+''"
proof -
  assume "c \<in> set (dec n)"
  then obtain i where "i < 10" "c = digit i" using set_dec [of n] by auto
  then show ?thesis using of_char_digit [of i] by (auto simp: is_space_def)
qed

lemma int_of_str_dec_int: "0 \<le> i \<Longrightarrow> int_of_str (dec_int i) = Some i"
proof -
  assume i: "0 \<le> i"
  let ?s = "dec (nat i)"
  obtain c cs where s: "?s = c # cs" by (cases ?s) auto
  have "strip ?s = ?s" using dec_no_space by (intro strip_no_space) blast
  moreover have "digits_val 0 False ?s = Some (nat i)" using digits_val_dec [of 0 False "nat i" "[]"] by simp
  moreover have "c \<noteq> CHR ''-'' \<and> c \<noteq> CHR ''+''" using dec_no_space [of c "nat i"] s by simp
  ultimately show ?thesis using i s by (simp add: int_of_str_def dec_int_def)
qed

section \<open>Lists of results\<close>

lemma find_append: "find P (xs @ ys) = (case find P xs of Some x \<Rightarrow> Some x | None \<Rightarrow> find P ys)"
  by (induction xs) auto

lemma those_map_Some: "\<forall>x\<in>set xs. f x \<noteq> None \<Longrightarrow> those (map f xs) = Some (map (the \<circ> f) xs)"
  by (induction xs) auto

end
