(* ===== verification/Iso_Time.thy ===== *)
theory Iso_Time
  imports Mail_Prelude
begin

text \<open>
  The text form of time. The program stores and compares times as text of the form
  \<open>YYYY-MM-DDTHH:MM:SSZ\<close> (\<open>_now\<close> and \<open>_iso_ago\<close> of cloud/dynamo.py, \<open>_fmt\<close> of
  terminal/send_schedule.py, \<open>_pack_send_at\<close> of terminal/launch.py), so that due packs, cursors
  and stale claims are found by comparing strings. A clock reading is an integer number of
  seconds since 1970-01-01 UTC and \<open>iso\<close> is \<open>datetime.strftime\<close> on it, by the proleptic
  Gregorian calendar of Python's \<open>datetime\<close>. The main lemma \<open>iso_less_iff\<close> says that from
  1970 to 9999 the text order is the order of time.
\<close>

section \<open>The calendar\<close>

definition leap :: "int \<Rightarrow> bool" where
  "leap y \<longleftrightarrow> y mod 4 = 0 \<and> (y mod 100 \<noteq> 0 \<or> y mod 400 = 0)"

definition ylen :: "int \<Rightarrow> int" where
  "ylen y = (if leap y then 366 else 365)"

text \<open>The number of days before January 1st of year \<open>y\<close>.\<close>

definition days_before_year :: "int \<Rightarrow> int" where
  "days_before_year y = 365 * (y - 1) + (y - 1) div 4 - (y - 1) div 100 + (y - 1) div 400"

text \<open>The year and the day of the year (from 0) of day \<open>n\<close>, day 0 being 0001-01-01.\<close>

definition year_day :: "int \<Rightarrow> int \<times> int" where
  "year_day n =
     (let n400 = n div 146097; r400 = n mod 146097;
          n100 = r400 div 36524; r100 = r400 mod 36524;
          n4 = r100 div 1461; r4 = r100 mod 1461;
          n1 = r4 div 365; r1 = r4 mod 365;
          y = 400 * n400 + 100 * n100 + 4 * n4 + n1 + 1
      in if n1 = 4 \<or> n100 = 4 then (y - 1, 365) else (y, r1))"

definition month_lens :: "int \<Rightarrow> int list" where
  "month_lens y = [31, if leap y then 29 else 28, 31, 30, 31, 30, 31, 31, 30, 31, 30, 31]"

fun month_day :: "int list \<Rightarrow> int \<Rightarrow> int \<Rightarrow> int \<times> int" where
  "month_day [] m k = (m, k + 1)"
| "month_day (l # ls) m k = (if k < l then (m, k + 1) else month_day ls (m + 1) (k - l))"

section \<open>The text\<close>

definition stamp :: "int \<Rightarrow> int \<Rightarrow> int \<Rightarrow> int \<Rightarrow> string" where
  "stamp y m d s =
     pad 4 (nat y) @ CHR ''-'' # pad 2 (nat m) @ CHR ''-'' # pad 2 (nat d) @ CHR ''T'' #
     pad 2 (nat (s div 3600)) @ CHR '':'' # pad 2 (nat (s mod 3600 div 60)) @ CHR '':'' #
     pad 2 (nat (s mod 60)) @ ''Z''"

text \<open>Day 719162 is 1970-01-01.\<close>

definition iso :: "int \<Rightarrow> string" where
  "iso t =
     (case year_day (t div 86400 + 719162) of (y, k) \<Rightarrow>
      (case month_day (month_lens y) 1 k of (m, d) \<Rightarrow> stamp y m d (t mod 86400)))"

section \<open>Text order is time order\<close>

lemma div_pred:
  assumes "0 < k"
  shows "y div k = (y - 1) div k + (if y mod k = 0 then 1 else (0::int))"
proof -
  define q where "q = (y - 1) div k"
  define r where "r = (y - 1) mod k"
  have y: "y = k * q + (r + 1)" by (simp add: q_def r_def)
  have r: "0 \<le> r" "r < k" using assms by (simp_all add: r_def)
  show ?thesis
  proof (cases "r + 1 < k")
    case True
    then have "y div k = q" "y mod k = r + 1"
      using y r by (simp_all add: int_div_pos_eq int_mod_pos_eq)
    with r show ?thesis by (simp add: q_def)
  next
    case False
    with r have "y = k * (q + 1) + 0" using y by (simp add: algebra_simps)
    with assms have "y div k = q + 1" "y mod k = 0"
      by (simp_all add: int_div_pos_eq int_mod_pos_eq)
    then show ?thesis by (simp add: q_def)
  qed
qed

lemma mod_dvd: "(y::int) mod 100 = 0 \<Longrightarrow> y mod 4 = 0" "(y::int) mod 400 = 0 \<Longrightarrow> y mod 100 = 0"
  using dvd_trans [of 4 100 y] dvd_trans [of 100 400 y] by (simp_all add: mod_eq_0_iff_dvd)

lemma leap_count:
  "(B \<Longrightarrow> A) \<Longrightarrow> (C \<Longrightarrow> B) \<Longrightarrow>
   d + 365 + (if A then 1 else 0) - (if B then 1 else 0) + (if C then 1 else 0) =
   d + (if A \<and> (\<not> B \<or> C) then 366 else (365::int))"
  by (cases A; cases B; cases C) auto

lemma year_step: "days_before_year (y + 1) = days_before_year y + ylen y"
proof -
  have "days_before_year (y + 1) = 365 * y + y div 4 - y div 100 + y div 400"
    by (simp add: days_before_year_def)
  also have "\<dots> = days_before_year y + 365 + (if y mod 4 = 0 then 1 else 0)
      - (if y mod 100 = 0 then 1 else 0) + (if y mod 400 = 0 then 1 else 0)"
    by (simp only: days_before_year_def div_pred [of 4 y] div_pred [of 100 y] div_pred [of 400 y]
          zero_less_numeral) (simp only: algebra_simps)
  also have "\<dots> = days_before_year y + ylen y"
    unfolding ylen_def leap_def by (rule leap_count [OF mod_dvd])
  finally show ?thesis .
qed

lemma ylen_pos: "0 < ylen y"
  by (simp add: ylen_def)

lemma days_before_year_mono_Suc: "days_before_year y \<le> days_before_year (y + int k)"
proof (induction k)
  case 0
  then show ?case by simp
next
  case (Suc k)
  have "days_before_year (y + int (Suc k)) = days_before_year (y + int k) + ylen (y + int k)"
    using year_step [of "y + int k"] by (simp add: algebra_simps)
  with Suc ylen_pos [of "y + int k"] show ?case by linarith
qed

lemma days_before_year_less: "y < z \<Longrightarrow> days_before_year y + ylen y \<le> days_before_year z"
  using days_before_year_mono_Suc [of "y + 1" "nat (z - (y + 1))"] year_step [of y] by simp

lemma year_day_decode:
  assumes "year_day n = (y, k)"
  shows "days_before_year y + k = n \<and> 0 \<le> k \<and> k < ylen y"
proof -
  define a where "a = n div 146097"
  define r where "r = n mod 146097"
  define b where "b = r div 36524"
  define s where "s = r mod 36524"
  define c where "c = s div 1461"
  define u where "u = s mod 1461"
  define d where "d = u div 365"
  define e where "e = u mod 365"
  have n: "n = 146097 * a + 36524 * b + 1461 * c + 365 * d + e"
    by (simp add: a_def r_def b_def s_def c_def u_def d_def e_def)
  have r: "r = 36524 * b + s" and s: "s = 1461 * c + u" and u: "u = 365 * d + e"
    by (simp_all add: b_def s_def c_def u_def d_def e_def)
  have r_b: "0 \<le> r" "r < 146097" and s_b: "0 \<le> s" "s < 36524" and u_b: "0 \<le> u" "u < 1461"
    and e_b: "0 \<le> e" "e < 365"
    by (simp_all add: r_def s_def u_def e_def)
  have b_b: "0 \<le> b" "b \<le> 4" and c_b: "0 \<le> c" "c \<le> 24" and d_b: "0 \<le> d" "d \<le> 4"
    using r r_b s_b s u u_b e_b by linarith+
  have last: "b = 4 \<Longrightarrow> s = 0" "d = 4 \<Longrightarrow> e = 0" "c = 24 \<Longrightarrow> d < 4"
    using r r_b s_b s u u_b e_b by linarith+
  define z where "z = 400 * a + 100 * b + 4 * c + d"
  have yk: "(y, k) = (if d = 4 \<or> b = 4 then (z, 365) else (z + 1, e))"
    using assms unfolding year_day_def Let_def a_def r_def b_def s_def c_def u_def d_def e_def z_def
    by (auto split: if_splits)
  show ?thesis
  proof (cases "d = 4 \<or> b = 4")
    case False
    have "z = 4 * (100 * a + 25 * b + c) + d" "z = 100 * (4 * a + b) + (4 * c + d)"
      "z = 400 * a + (100 * b + 4 * c + d)"
      by (simp_all add: z_def)
    moreover have "d < 4" "4 * c + d < 100" "100 * b + 4 * c + d < 400"
      using False b_b c_b d_b by auto
    ultimately have "z div 4 = 100 * a + 25 * b + c" "z div 100 = 4 * a + b" "z div 400 = a"
      using b_b c_b d_b by (simp_all add: int_div_pos_eq)
    with False yk n e_b show ?thesis
      by (auto simp: days_before_year_def ylen_def z_def)
  next
    case True
    then have y: "y = z" and k: "k = 365" using yk by auto
    have "(b = 4 \<and> c = 0 \<and> d = 0 \<and> e = 0) \<or> (d = 4 \<and> e = 0 \<and> b < 4 \<and> c < 24)"
    proof (cases "b = 4")
      case True
      with last have "s = 0" by simp
      with s u c_b d_b e_b u_b have "c = 0" "d = 0" "e = 0" by linarith+
      with True show ?thesis by simp
    next
      case False
      with True have "d = 4" by simp
      moreover from this last have "e = 0" "c \<noteq> 24" by auto
      ultimately show ?thesis using False b_b c_b by simp
    qed
    then show ?thesis
    proof
      assume h: "b = 4 \<and> c = 0 \<and> d = 0 \<and> e = 0"
      then have "z - 1 = 4 * (100 * a + 99) + 3" "z - 1 = 100 * (4 * a + 3) + 99" "z - 1 = 400 * a + 399"
        and z4: "z = 4 * (100 * a + 100) + 0" "z = 400 * (a + 1) + 0"
        by (simp_all add: z_def)
      then have "(z - 1) div 4 = 100 * a + 99" "(z - 1) div 100 = 4 * a + 3" "(z - 1) div 400 = a"
        by (simp_all add: int_div_pos_eq)
      moreover have "leap z"
        using int_mod_pos_eq [OF z4(1)] int_mod_pos_eq [OF z4(2)] by (simp add: leap_def)
      ultimately have "(z - 1) div 4 = 100 * a + 99" "(z - 1) div 100 = 4 * a + 3" "(z - 1) div 400 = a"
        and "leap z" by simp_all
      with h y k n show ?thesis by (simp add: days_before_year_def ylen_def z_def)
    next
      assume h: "d = 4 \<and> e = 0 \<and> b < 4 \<and> c < 24"
      then have z1: "z - 1 = 4 * (100 * a + 25 * b + c) + 3" "z - 1 = 100 * (4 * a + b) + (4 * c + 3)"
          "z - 1 = 400 * a + (100 * b + 4 * c + 3)"
        and z4: "z = 4 * (100 * a + 25 * b + c + 1) + 0" "z = 100 * (4 * a + b) + (4 * c + 4)"
        by (simp_all add: z_def)
      have "4 * c + 4 < 100" "0 \<le> 4 * c" "100 * b + 4 * c + 3 < 400" using h b_b c_b by auto
      then have "(z - 1) div 4 = 100 * a + 25 * b + c" "(z - 1) div 100 = 4 * a + b" "(z - 1) div 400 = a"
        and "z mod 100 \<noteq> 0"
        using b_b c_b int_div_pos_eq [OF z1(1)] int_div_pos_eq [OF z1(2)] int_div_pos_eq [OF z1(3)]
          int_mod_pos_eq [OF z4(2)] by auto
      moreover have "leap z"
        using int_mod_pos_eq [OF z4(1)] calculation(4) by (simp add: leap_def)
      ultimately show ?thesis using h y k n by (simp add: days_before_year_def ylen_def z_def)
    qed
  qed
qed

lemma month_day_ge: "m \<le> fst (month_day ls m k)"
  by (induction ls m k rule: month_day.induct) (auto intro: order_trans [rotated])

lemma month_day_bounds:
  "0 \<le> k \<Longrightarrow> k < sum_list ls \<Longrightarrow> \<forall>l\<in>set ls. l \<le> 31 \<Longrightarrow>
   fst (month_day ls m k) < m + int (length ls) \<and> 1 \<le> snd (month_day ls m k) \<and> snd (month_day ls m k) \<le> 31"
  by (induction ls m k rule: month_day.induct) auto

lemma month_day_mono:
  "k < k' \<Longrightarrow> fst (month_day ls m k) < fst (month_day ls m k') \<or>
     fst (month_day ls m k) = fst (month_day ls m k') \<and> snd (month_day ls m k) < snd (month_day ls m k')"
proof (induction ls arbitrary: m k k')
  case Nil
  then show ?case by simp
next
  case (Cons l ls)
  then show ?case
    using month_day_ge [of "m + 1" ls "k' - l"] by (cases "k' < l") auto
qed

lemma sum_month_lens: "sum_list (month_lens y) = ylen y"
  by (simp add: month_lens_def ylen_def)

lemma pad_step_less:
  assumes "0 < w" "a < 10 ^ w" "b < 10 ^ w"
  shows "pad w a @ c # us < pad w b @ c # vs \<longleftrightarrow> a < b \<or> a = b \<and> us < (vs :: string)"
  using assms by (auto simp: append_less_append_same_length length_pad pad_less_iff pad_eq_iff)

lemma zdiv_less:
  assumes "0 < k" "s < n * k"
  shows "s div k < (n::int)"
proof (rule ccontr)
  assume "\<not> s div k < n"
  then have "n * k \<le> s div k * k" using assms(1) by simp
  moreover have "s div k * k \<le> s" using assms(1) pos_mod_sign [of k s] by (simp add: minus_mod_eq_div_mult [symmetric])
  ultimately show False using assms(2) by linarith
qed

lemma divmod_less:
  assumes "0 < k" "t < u"
  shows "t div k < u div k \<or> t div k = u div k \<and> t mod k < u mod (k::int)"
proof -
  have "t div k \<le> u div k" using assms by (simp add: zdiv_mono1)
  moreover have "t mod k < u mod k" if "t div k = u div k"
    using assms(2) that minus_mult_div_eq_mod [of t k] minus_mult_div_eq_mod [of u k] by simp
  ultimately show ?thesis by auto
qed

lemma sec_bounds:
  assumes "0 \<le> s" "s < 86400"
  shows "0 \<le> s div 3600" "s div 3600 < 100" "0 \<le> s mod 3600 div 60" "s mod 3600 div 60 < 100"
    "0 \<le> s mod 60" "s mod 60 < (100::int)"
proof -
  show "0 \<le> s div 3600" using assms by (simp add: pos_imp_zdiv_nonneg_iff)
  have "s < 100 * 3600" using assms by simp
  then show "s div 3600 < 100" by (intro zdiv_less) simp_all
  have r: "0 \<le> s mod 3600" "s mod 3600 < 3600" by simp_all
  then show "0 \<le> s mod 3600 div 60" by (simp add: pos_imp_zdiv_nonneg_iff)
  have "s mod 3600 < 100 * 60" using r by linarith
  then show "s mod 3600 div 60 < 100" by (intro zdiv_less) simp_all
  show "0 \<le> s mod 60" by simp
  have "s mod 60 < 60" by simp
  then show "s mod 60 < 100" by linarith
qed

lemma field_less:
  assumes "0 \<le> a" "a < 10 ^ w" "0 \<le> b" "b < 10 ^ w" "0 < w"
    and "a < b \<or> a = b \<and> us < (vs :: string)"
  shows "pad w (nat a) @ c # us < pad w (nat b) @ c # vs"
proof -
  have "nat a < 10 ^ w" "nat b < 10 ^ w" using assms(1-4) by (simp_all add: nat_less_iff)
  then show ?thesis using assms(1,3,5,6) by (auto simp: pad_step_less)
qed

text \<open>The fields of the text, least significant first.\<close>

lemma hms_less:
  assumes H: "0 \<le> H" "H < 100" "0 \<le> H'" "H' < 100" and M: "0 \<le> M" "M < 100" "0 \<le> M'" "M' < 100"
    and S: "0 \<le> S" "S < 100" "0 \<le> S'" "S' < 100"
    and lt: "H < H' \<or> H = H' \<and> (M < M' \<or> M = M' \<and> S < S')"
  shows "pad 2 (nat H) @ CHR '':'' # pad 2 (nat M) @ CHR '':'' # pad 2 (nat S) @ ''Z''
    < pad 2 (nat H') @ CHR '':'' # pad 2 (nat M') @ CHR '':'' # pad 2 (nat S') @ ''Z''"
proof -
  have s: "S < S' \<Longrightarrow> pad 2 (nat S) @ ''Z'' < pad 2 (nat S') @ ''Z''"
    using S by (intro field_less) auto
  have m: "M < M' \<or> M = M' \<and> S < S' \<Longrightarrow>
      pad 2 (nat M) @ CHR '':'' # pad 2 (nat S) @ ''Z'' < pad 2 (nat M') @ CHR '':'' # pad 2 (nat S') @ ''Z''"
    using M s by (intro field_less) auto
  show ?thesis using H m lt by (intro field_less) auto
qed

lemma clock_less:
  assumes "0 \<le> s" "s < 86400" "0 \<le> s'" "s' < 86400" "s < s'"
  shows "pad 2 (nat (s div 3600)) @ CHR '':'' # pad 2 (nat (s mod 3600 div 60)) @ CHR '':'' # pad 2 (nat (s mod 60)) @ ''Z''
    < pad 2 (nat (s' div 3600)) @ CHR '':'' # pad 2 (nat (s' mod 3600 div 60)) @ CHR '':'' # pad 2 (nat (s' mod 60)) @ ''Z''"
proof (rule hms_less [OF sec_bounds(1,2) sec_bounds(1,2) sec_bounds(3,4) sec_bounds(3,4) sec_bounds(5,6) sec_bounds(5,6),
      OF assms(1,2) assms(1,2) assms(3,4) assms(3,4) assms(1,2) assms(1,2) assms(3,4) assms(3,4)
        assms(1,2) assms(1,2) assms(3,4) assms(3,4)])
  have "s mod 3600 mod 60 = s mod 60" for s :: int by (rule mod_mod_cancel) simp
  with divmod_less [of 3600 s s'] divmod_less [of 60 "s mod 3600" "s' mod 3600"] assms(5)
  show "s div 3600 < s' div 3600 \<or> s div 3600 = s' div 3600 \<and>
      (s mod 3600 div 60 < s' mod 3600 div 60 \<or> s mod 3600 div 60 = s' mod 3600 div 60 \<and> s mod 60 < s' mod 60)"
    by (metis zero_less_numeral)
qed

lemma stamp_less:
  assumes y: "0 \<le> y" "y < 10000" "0 \<le> y'" "y' < 10000"
    and m: "0 \<le> m" "m < 100" "0 \<le> m'" "m' < 100" and d: "0 \<le> d" "d < 100" "0 \<le> d'" "d' < 100"
    and s: "0 \<le> s" "s < 86400" "0 \<le> s'" "s' < 86400"
    and lt: "y < y' \<or> y = y' \<and> (m < m' \<or> m = m' \<and> (d < d' \<or> d = d' \<and> s < s'))"
  shows "stamp y m d s < stamp y' m' d' s'"
  unfolding stamp_def
proof (intro field_less)
  show "y < y' \<or> y = y' \<and>
      pad 2 (nat m) @ CHR ''-'' # pad 2 (nat d) @ CHR ''T'' # pad 2 (nat (s div 3600)) @ CHR '':'' #
      pad 2 (nat (s mod 3600 div 60)) @ CHR '':'' # pad 2 (nat (s mod 60)) @ ''Z''
    < pad 2 (nat m') @ CHR ''-'' # pad 2 (nat d') @ CHR ''T'' # pad 2 (nat (s' div 3600)) @ CHR '':'' #
      pad 2 (nat (s' mod 3600 div 60)) @ CHR '':'' # pad 2 (nat (s' mod 60)) @ ''Z''"
    (is "_ \<or> _ \<and> ?l < ?r")
  proof (cases "y < y'")
    case False
    with lt have lt2: "m < m' \<or> m = m' \<and> (d < d' \<or> d = d' \<and> s < s')" and "y = y'" by auto
    have D: "d < d' \<or> d = d' \<and> s < s' \<Longrightarrow>
        pad 2 (nat d) @ CHR ''T'' # pad 2 (nat (s div 3600)) @ CHR '':'' #
        pad 2 (nat (s mod 3600 div 60)) @ CHR '':'' # pad 2 (nat (s mod 60)) @ ''Z''
      < pad 2 (nat d') @ CHR ''T'' # pad 2 (nat (s' div 3600)) @ CHR '':'' #
        pad 2 (nat (s' mod 3600 div 60)) @ CHR '':'' # pad 2 (nat (s' mod 60)) @ ''Z''"
      using d clock_less [OF s] by (intro field_less) auto
    have "?l < ?r" using m lt2 D by (intro field_less) auto
    with \<open>y = y'\<close> show ?thesis by simp
  qed simp
qed (use y in simp_all)

lemma year_day_bounds:
  assumes "year_day n = (y, k)" "0 \<le> n" "n < 3652059"
  shows "1 \<le> y \<and> y < 10000"
proof -
  have dec: "days_before_year y + k = n" "0 \<le> k" "k < ylen y"
    using year_day_decode [OF assms(1)] by simp_all
  have "\<not> y < 1"
    using days_before_year_less [of y 1] dec assms(2) by (auto simp: days_before_year_def)
  moreover have "\<not> 10000 \<le> y"
  proof
    assume "10000 \<le> y"
    then have "days_before_year 10000 \<le> days_before_year y"
      using days_before_year_less [of 10000 y] ylen_pos [of 10000] by (cases "y = 10000") auto
    with dec assms(3) show False by (simp add: days_before_year_def)
  qed
  ultimately show ?thesis by simp
qed

lemma year_day_mono:
  assumes "year_day n = (y, k)" "year_day n' = (y', k')" "n < n'"
  shows "y < y' \<or> y = y' \<and> k < k'"
  using year_day_decode [OF assms(1)] year_day_decode [OF assms(2)] assms(3)
    days_before_year_less [of y' y] by (cases y y' rule: linorder_cases) auto

definition max_time :: int where
  "max_time = 253402300800"

lemma iso_mono:
  assumes "0 \<le> t" "t < u" "u < max_time"
  shows "iso t < iso u"
proof -
  obtain y k where yk: "year_day (t div 86400 + 719162) = (y, k)" by fastforce
  obtain y' k' where yk': "year_day (u div 86400 + 719162) = (y', k')" by fastforce
  obtain m d where md: "month_day (month_lens y) 1 k = (m, d)" by fastforce
  obtain m' d' where md': "month_day (month_lens y') 1 k' = (m', d')" by fastforce
  have days: "0 \<le> t div 86400" "t div 86400 \<le> u div 86400" "u div 86400 < 2932897"
    using assms by (auto simp: max_time_def intro: zdiv_mono1)
  have y: "1 \<le> y" "y < 10000" "1 \<le> y'" "y' < 10000"
    using year_day_bounds [OF yk] year_day_bounds [OF yk'] days by auto
  have "\<forall>l\<in>set (month_lens z). l \<le> 31" "length (month_lens z) = 12" for z
    by (auto simp: month_lens_def)
  then have b: "1 \<le> m" "m < 13" "1 \<le> d" "d \<le> 31" "1 \<le> m'" "m' < 13" "1 \<le> d'" "d' \<le> 31"
    using month_day_bounds [of k "month_lens y" 1] month_day_bounds [of k' "month_lens y'" 1]
      month_day_ge [of 1 "month_lens y" k] month_day_ge [of 1 "month_lens y'" k']
      year_day_decode [OF yk] year_day_decode [OF yk'] md md' by (auto simp: sum_month_lens)
  have split: "t div 86400 < u div 86400 \<or> t div 86400 = u div 86400 \<and> t mod 86400 < u mod 86400"
    using assms(2) by (intro divmod_less) auto
  have lt: "y < y' \<or> y = y' \<and> (m < m' \<or> m = m' \<and> (d < d' \<or> d = d' \<and> t mod 86400 < u mod 86400))"
  proof (cases "t div 86400 < u div 86400")
    case True
    then have "y < y' \<or> y = y' \<and> k < k'" using year_day_mono [OF yk yk'] by simp
    then show ?thesis using month_day_mono [of k k' "month_lens y" 1] md md' by auto
  next
    case False
    with split yk yk' md md' show ?thesis by auto
  qed
  show ?thesis
    unfolding iso_def yk yk' prod.case md md' using y b lt
    by (intro stamp_less) auto
qed

lemma iso_less_iff:
  "0 \<le> t \<Longrightarrow> t < max_time \<Longrightarrow> 0 \<le> u \<Longrightarrow> u < max_time \<Longrightarrow> iso t < iso u \<longleftrightarrow> t < u"
  using iso_mono [of t u] iso_mono [of u t] by (cases t u rule: linorder_cases) auto

lemma iso_le_iff:
  "0 \<le> t \<Longrightarrow> t < max_time \<Longrightarrow> 0 \<le> u \<Longrightarrow> u < max_time \<Longrightarrow> iso t \<le> iso u \<longleftrightarrow> t \<le> u"
  using iso_less_iff [of u t] by (simp add: not_less [symmetric])

lemma iso_example: "iso 1761955199 = ''2025-10-31T23:59:59Z''"
  by code_simp

lemma length_pad_int: "0 < w \<Longrightarrow> i < 10 ^ w \<Longrightarrow> length (pad w (nat i)) = w"
  by (rule length_pad) (simp_all add: nat_less_iff)

lemma length_pad2: "i < 100 \<Longrightarrow> length (pad 2 (nat i)) = 2"
  by (rule length_pad_int) simp_all

lemma length_stamp:
  assumes "y < 10000" "m < 100" "d < 100" "0 \<le> s" "s < 86400"
  shows "length (stamp y m d s) = 20"
proof -
  have "length (pad 4 (nat y)) = 4" "length (pad 2 (nat m)) = 2" "length (pad 2 (nat d)) = 2"
    using assms by (simp_all add: length_pad_int)
  moreover have "length (pad 2 (nat (s div 3600))) = 2" "length (pad 2 (nat (s mod 3600 div 60))) = 2"
    "length (pad 2 (nat (s mod 60))) = 2"
    using length_pad2 [OF sec_bounds(2) [OF assms(4,5)]] length_pad2 [OF sec_bounds(4) [OF assms(4,5)]]
      length_pad2 [OF sec_bounds(6) [OF assms(4,5)]] by blast+
  ultimately show ?thesis unfolding stamp_def by (simp only: length_append list.size)
qed

lemma length_iso:
  assumes "0 \<le> t" "t < max_time"
  shows "length (iso t) = 20"
proof -
  obtain y k where yk: "year_day (t div 86400 + 719162) = (y, k)" by fastforce
  obtain m d where md: "month_day (month_lens y) 1 k = (m, d)" by fastforce
  have days: "0 \<le> t div 86400" "t div 86400 < 2932897" "0 \<le> t mod 86400" "t mod 86400 < 86400"
    using assms by (auto simp: max_time_def)
  have y: "1 \<le> y" "y < 10000" using year_day_bounds [OF yk] days by auto
  have "\<forall>l\<in>set (month_lens y). l \<le> 31" "length (month_lens y) = 12"
    by (auto simp: month_lens_def)
  then have b: "1 \<le> m" "m < 13" "1 \<le> d" "d \<le> 31"
    using month_day_bounds [of k "month_lens y" 1] month_day_ge [of 1 "month_lens y" k]
      year_day_decode [OF yk] md by (auto simp: sum_month_lens)
  have "m < 100" "d < 100" using b by simp_all
  then show ?thesis
    unfolding iso_def yk prod.case md
    using y b days(3,4) by (intro length_stamp) simp_all
qed

end
