(* ===== verification/Dynamo_Table.thy ===== *)
theory Dynamo_Table
  imports Iso_Time
begin

text \<open>
  The state of the cloud: one DynamoDB table, keyed by the pair (pk, sk), and the requests
  cloud/dynamo.py makes of it. The table is data of the program, a list of key/item
  pairs with distinct keys; an item is its list of attributes (the key attributes pk and sk
  are the key and are not repeated). A conditional write answers \<open>None\<close> where the
  service answers \<open>ConditionalCheckFailedException\<close>. A query returns the items of a partition in
  the order of the sort key.

  The two secondary indexes are eventually consistent, so every query of an index takes the
  table the index reflects as an argument of its own, which may lag behind the table the
  writes go to.
\<close>

datatype attr = AStr string | AInt int | ABytes bytes | ABool bool | ANull

type_synonym item = "(string \<times> attr) list"
type_synonym key = "string \<times> string"
type_synonym table = "(key \<times> item) list"

section \<open>Requests\<close>

definition get_item :: "table \<Rightarrow> string \<Rightarrow> string \<Rightarrow> item option" where
  "get_item t pk sk = map_of t (pk, sk)"

definition put_item :: "string \<Rightarrow> string \<Rightarrow> item \<Rightarrow> table \<Rightarrow> table" where
  "put_item pk sk it t = AList.update (pk, sk) it t"

definition delete_item :: "string \<Rightarrow> string \<Rightarrow> table \<Rightarrow> table" where
  "delete_item pk sk t = AList.delete (pk, sk) t"

definition set_attrs :: "item \<Rightarrow> (string \<times> attr) list \<Rightarrow> item" where
  "set_attrs it sets = fold (\<lambda>(k, v) it. AList.update k v it) sets it"

text \<open>\<open>update_item\<close> with a SET expression creates the item when there is none.\<close>

definition item_or_new :: "item option \<Rightarrow> item" where
  "item_or_new io = (case io of None \<Rightarrow> [] | Some it \<Rightarrow> it)"

definition update_item :: "string \<Rightarrow> string \<Rightarrow> (string \<times> attr) list \<Rightarrow> table \<Rightarrow> table" where
  "update_item pk sk sets t = put_item pk sk (set_attrs (item_or_new (get_item t pk sk)) sets) t"

text \<open>\<open>ADD a n\<close>, returning the new value (\<open>UPDATED_NEW\<close>).\<close>

definition add_item :: "string \<Rightarrow> string \<Rightarrow> string \<Rightarrow> int \<Rightarrow> table \<Rightarrow> table \<times> int" where
  "add_item pk sk a n t =
     (let v = (case map_of (item_or_new (get_item t pk sk)) a of Some (AInt i) \<Rightarrow> i | _ \<Rightarrow> 0) + n
      in (update_item pk sk [(a, AInt v)] t, v))"

text \<open>Conditions look at the stored item, if any.\<close>

definition attr_of :: "string \<Rightarrow> item option \<Rightarrow> attr option" where
  "attr_of a io = (case io of None \<Rightarrow> None | Some it \<Rightarrow> map_of it a)"

definition attr_exists :: "string \<Rightarrow> item option \<Rightarrow> bool" where
  "attr_exists a io \<longleftrightarrow> attr_of a io \<noteq> None"

definition attr_eq :: "string \<Rightarrow> attr \<Rightarrow> item option \<Rightarrow> bool" where
  "attr_eq a v io \<longleftrightarrow> attr_of a io = Some v"

definition put_item_if :: "(item option \<Rightarrow> bool) \<Rightarrow> string \<Rightarrow> string \<Rightarrow> item \<Rightarrow> table \<Rightarrow> table option" where
  "put_item_if c pk sk it t = (if c (get_item t pk sk) then Some (put_item pk sk it t) else None)"

definition update_item_if ::
  "(item option \<Rightarrow> bool) \<Rightarrow> string \<Rightarrow> string \<Rightarrow> (string \<times> attr) list \<Rightarrow> table \<Rightarrow> table option" where
  "update_item_if c pk sk sets t = (if c (get_item t pk sk) then Some (update_item pk sk sets t) else None)"

definition partition_items :: "string \<Rightarrow> table \<Rightarrow> (string \<times> item) list" where
  "partition_items pk t = map (\<lambda>((p, s), it). (s, it)) (filter (\<lambda>((p, s), it). p = pk) t)"

text \<open>A query of one partition: the sort keys that satisfy the condition, ascending.\<close>

definition query :: "string \<Rightarrow> (string \<Rightarrow> bool) \<Rightarrow> table \<Rightarrow> (string \<times> item) list" where
  "query pk c t = sort_key fst (filter (\<lambda>(s, it). c s) (partition_items pk t))"

text \<open>
  The status index (hash \<open>status\<close>, range \<open>send_at\<close>) and the row index (hash \<open>row_key\<close>,
  range \<open>sk\<close>), over the table \<open>g\<close> the index reflects; an item without the index's
  attributes is not in it.
\<close>

definition str_attr :: "string \<Rightarrow> item \<Rightarrow> string option" where
  "str_attr a it = (case map_of it a of Some (AStr s) \<Rightarrow> Some s | _ \<Rightarrow> None)"

definition query_status :: "string \<Rightarrow> (string \<Rightarrow> bool) \<Rightarrow> table \<Rightarrow> item list" where
  "query_status st c g =
     map snd (sort_key fst (List.map_filter
       (\<lambda>(k, it). if str_attr ''status'' it = Some st
                  then (case str_attr ''send_at'' it of
                          Some r \<Rightarrow> if c r then Some (r, it) else None
                        | None \<Rightarrow> None)
                  else None) g))"

definition query_row_key :: "string \<Rightarrow> (string \<Rightarrow> bool) \<Rightarrow> table \<Rightarrow> item list" where
  "query_row_key rk c g =
     map snd (sort_key fst (List.map_filter
       (\<lambda>((p, s), it). if str_attr ''row_key'' it = Some rk \<and> c s then Some (s, it) else None) g))"

section \<open>Reading an attribute of an item\<close>

text \<open>\<open>item[a]\<close>: a missing attribute is a \<open>KeyError\<close>, here \<open>None\<close>.\<close>

definition int_attr :: "string \<Rightarrow> item \<Rightarrow> int option" where
  "int_attr a it = (case map_of it a of Some (AInt i) \<Rightarrow> Some i | _ \<Rightarrow> None)"

definition bytes_attr :: "string \<Rightarrow> item \<Rightarrow> bytes option" where
  "bytes_attr a it = (case map_of it a of Some (ABytes b) \<Rightarrow> Some b | _ \<Rightarrow> None)"

text \<open>\<open>item.get(a, d)\<close> where the stored attribute is a string.\<close>

definition str_attr_or :: "string \<Rightarrow> string \<Rightarrow> item \<Rightarrow> string" where
  "str_attr_or a d it = (case str_attr a it of Some s \<Rightarrow> s | None \<Rightarrow> d)"

section \<open>Laws\<close>

definition wf_table :: "table \<Rightarrow> bool" where
  "wf_table t \<longleftrightarrow> distinct (map fst t)"

lemma get_put [table_simps]:
  "get_item (put_item p s it t) p' s' = (if p' = p \<and> s' = s then Some it else get_item t p' s')"
  by (auto simp: get_item_def put_item_def update_conv)

lemma get_delete [table_simps]:
  "get_item (delete_item p s t) p' s' = (if p' = p \<and> s' = s then None else get_item t p' s')"
  by (auto simp: get_item_def delete_item_def delete_conv)

lemma get_update [table_simps]:
  "get_item (update_item p s sets t) p' s' =
     (if p' = p \<and> s' = s then Some (set_attrs (item_or_new (get_item t p s)) sets) else get_item t p' s')"
  by (simp add: update_item_def get_put)

lemma get_add [table_simps]:
  "get_item (fst (add_item p s a n t)) p' s' =
     (if p' = p \<and> s' = s then Some (set_attrs (item_or_new (get_item t p s)) [(a, AInt (snd (add_item p s a n t)))])
      else get_item t p' s')"
  by (simp add: add_item_def Let_def get_update)

lemma get_put_if [table_simps]:
  "put_item_if c p s it t = Some t' \<Longrightarrow>
   get_item t' p' s' = (if p' = p \<and> s' = s then Some it else get_item t p' s')"
  by (auto simp: put_item_if_def get_put split: if_splits)

lemma get_update_if [table_simps]:
  "update_item_if c p s sets t = Some t' \<Longrightarrow>
   get_item t' p' s' =
     (if p' = p \<and> s' = s then Some (set_attrs (item_or_new (get_item t p s)) sets) else get_item t p' s')"
  by (auto simp: update_item_if_def get_update split: if_splits)

lemma set_attrs_Nil [simp]: "set_attrs it [] = it"
  by (simp add: set_attrs_def)

lemma set_attrs_Cons [simp]: "set_attrs it ((k, v) # sets) = set_attrs (AList.update k v it) sets"
  by (simp add: set_attrs_def)

lemma map_of_set_attrs:
  "map_of (set_attrs it sets) a = (case map_of (rev sets) a of Some v \<Rightarrow> Some v | None \<Rightarrow> map_of it a)"
  by (induction sets arbitrary: it) (auto simp: update_conv map_add_def split: option.splits)

lemma map_of_update_attr [simp]:
  "map_of (AList.update k v it) a = (if a = k then Some v else map_of it a)"
  by (simp add: update_conv)

lemma wf_put [intro, simp]: "wf_table t \<Longrightarrow> wf_table (put_item p s it t)"
  by (simp add: wf_table_def put_item_def distinct_update)

lemma wf_update [intro, simp]: "wf_table t \<Longrightarrow> wf_table (update_item p s sets t)"
  by (simp add: update_item_def)

lemma wf_delete [intro, simp]: "wf_table t \<Longrightarrow> wf_table (delete_item p s t)"
  by (simp add: wf_table_def delete_item_def distinct_delete)

lemma wf_add [intro, simp]: "wf_table t \<Longrightarrow> wf_table (fst (add_item p s a n t))"
  by (simp add: add_item_def Let_def)

lemma wf_put_if: "put_item_if c p s it t = Some t' \<Longrightarrow> wf_table t \<Longrightarrow> wf_table t'"
  by (auto simp: put_item_if_def split: if_splits)

lemma wf_update_if: "update_item_if c p s sets t = Some t' \<Longrightarrow> wf_table t \<Longrightarrow> wf_table t'"
  by (auto simp: update_item_if_def split: if_splits)

lemma partition_items_iff:
  "wf_table t \<Longrightarrow> (s, it) \<in> set (partition_items pk t) \<longleftrightarrow> get_item t pk s = Some it"
  by (force simp: partition_items_def get_item_def wf_table_def intro: map_of_is_SomeI dest: map_of_SomeD)

lemma distinct_partition: "wf_table t \<Longrightarrow> distinct (map fst (partition_items pk t))"
  by (induction t) (auto simp: wf_table_def partition_items_def, force)

lemma partition_put_other: "pk \<noteq> p \<Longrightarrow> partition_items pk (put_item p s it t) = partition_items pk t"
  by (induction t) (auto simp: partition_items_def put_item_def)

lemma partition_update_other: "pk \<noteq> p \<Longrightarrow> partition_items pk (update_item p s sets t) = partition_items pk t"
  by (simp add: update_item_def partition_put_other)

lemma partition_delete_other: "pk \<noteq> p \<Longrightarrow> partition_items pk (delete_item p s t) = partition_items pk t"
  by (induction t) (auto simp: partition_items_def delete_item_def)

lemma partition_put_new:
  "get_item t p s = None \<Longrightarrow> partition_items p (put_item p s it t) = partition_items p t @ [(s, it)]"
  by (induction t) (auto simp: partition_items_def put_item_def get_item_def split: if_splits)

section \<open>Sorting\<close>

lemma sort_key_snoc:
  assumes "\<forall>y\<in>set xs. f y < f x"
  shows "sort_key f (xs @ [x]) = sort_key f xs @ [x]"
proof (rule properties_for_sort_key)
  show "sorted (map f (sort_key f xs @ [x]))"
    using assms by (auto simp: sorted_append less_imp_le)
next
  fix k
  assume "k \<in> set (sort_key f xs @ [x])"
  then show "filter (\<lambda>z. f k = f z) (sort_key f xs @ [x]) = filter (\<lambda>z. f k = f z) (xs @ [x])"
    using sort_key_stable [of f "f k" xs] by (auto simp: eq_commute [of "f k"])
qed simp

lemma sorted_query: "sorted (map fst (query pk c t))"
  by (simp add: query_def)

lemma set_query:
  "wf_table t \<Longrightarrow> (s, it) \<in> set (query pk c t) \<longleftrightarrow> get_item t pk s = Some it \<and> c s"
  by (auto simp: query_def partition_items_iff)

lemma distinct_map_filter_fst: "distinct (map fst xs) \<Longrightarrow> distinct (map fst (filter P xs))"
  by (induction xs) auto

lemma distinct_query: "wf_table t \<Longrightarrow> distinct (map fst (query pk c t))"
  by (simp add: query_def distinct_map_filter_fst distinct_partition distinct_map)
     (use distinct_map_filter_fst [OF distinct_partition] in \<open>auto simp: distinct_map\<close>)

lemma query_filter: "query pk c t = filter (\<lambda>(s, it). c s) (query pk (\<lambda>_. True) t)"
  by (simp add: query_def filter_sort)

lemma query_put_other: "pk \<noteq> p \<Longrightarrow> query pk c (put_item p s it t) = query pk c t"
  by (simp add: query_def partition_put_other)

lemma query_update_other: "pk \<noteq> p \<Longrightarrow> query pk c (update_item p s sets t) = query pk c t"
  by (simp add: query_def partition_update_other)

lemma query_delete_other: "pk \<noteq> p \<Longrightarrow> query pk c (delete_item p s t) = query pk c t"
  by (simp add: query_def partition_delete_other)

lemmas query_other = query_put_other query_update_other query_delete_other

end
