(* ===== verification/Cursor_Feed.thy ===== *)
theory Cursor_Feed
  imports Dynamo_Table
begin

text \<open>
  The contract of a cursor: the terminal asks for what is past its cursor, gets a bounded
  batch in order, and takes the key of the last element as its next cursor. Three parts
  of the program work this way (sync events, the unsubscribe log and pack outcomes); each
  interprets \<open>cursor_feed\<close> on its own query. The lemmas say that pulling loses nothing
  and repeats nothing, and that enough pulls return everything.
\<close>

definition next_cursor :: "('r \<Rightarrow> 'k) \<Rightarrow> 'k \<Rightarrow> 'r list \<Rightarrow> 'k" where
  "next_cursor key c b = (if b = [] then c else key (last b))"

text \<open>A number of pulls in a row: everything received, and the cursor reached.\<close>

primrec pulls :: "('k \<Rightarrow> 'r list) \<Rightarrow> ('r \<Rightarrow> 'k) \<Rightarrow> nat \<Rightarrow> 'k \<Rightarrow> 'r list \<times> 'k" where
  "pulls f key 0 c = ([], c)"
| "pulls f key (Suc k) c =
     (let b = f c; r = pulls f key k (next_cursor key c b) in (b @ fst r, snd r))"

lemma sorted_wrt_filter_gt_last:
  fixes key :: "'r \<Rightarrow> 'k::linorder"
  assumes "sorted_wrt (<) (map key xs)" "xs = ys @ zs" "ys \<noteq> []"
  shows "filter (\<lambda>r. key (last ys) < key r) xs = zs"
proof -
  obtain us u where ys: "ys = us @ [u]" using assms(3) by (cases ys rule: rev_cases) auto
  have "\<forall>y\<in>set us. key y < key u" using assms(1,2) ys by (simp add: sorted_wrt_append)
  then have "\<forall>y\<in>set ys. key y \<le> key (last ys)" using ys by (auto simp: less_imp_le)
  then have "filter (\<lambda>r. key (last ys) < key r) ys = []"
    by (auto simp: filter_empty_conv not_less)
  moreover have "\<forall>z\<in>set zs. key (last ys) < key z"
    using assms by (simp add: sorted_wrt_append)
  then have "filter (\<lambda>r. key (last ys) < key r) zs = zs" by simp
  ultimately show ?thesis using assms(2) by simp
qed

lemma sorted_wrt_map_filter: "sorted_wrt R (map f xs) \<Longrightarrow> sorted_wrt R (map f (filter P xs))"
  by (induction xs) auto

locale cursor_feed =
  fixes log :: "'s \<Rightarrow> 'r list"
    and key :: "'r \<Rightarrow> 'k::linorder"
    and feed :: "'k \<Rightarrow> nat \<Rightarrow> 's \<Rightarrow> 'r list"
    and wf :: "'s \<Rightarrow> bool"
    and cur :: "'k \<Rightarrow> bool"
  assumes log_sorted: "wf s \<Longrightarrow> sorted_wrt (<) (map key (log s))"
    and feed_eq: "wf s \<Longrightarrow> cur c \<Longrightarrow> feed c n s = take n (filter (\<lambda>r. c < key r) (log s))"
    and cur_key: "wf s \<Longrightarrow> r \<in> set (log s) \<Longrightarrow> cur (key r)"
begin

lemma feed_subset: "wf s \<Longrightarrow> cur c \<Longrightarrow> r \<in> set (feed c n s) \<Longrightarrow> r \<in> set (log s) \<and> c < key r"
  by (auto simp: feed_eq dest: in_set_takeD)

lemma next_cursor_ok: "wf s \<Longrightarrow> cur c \<Longrightarrow> cur (next_cursor key c (feed c n s))"
  using feed_subset [of s c "last (feed c n s)" n]
  by (auto simp: next_cursor_def intro: cur_key)

lemma cursor_monotone: "wf s \<Longrightarrow> cur c \<Longrightarrow> c \<le> next_cursor key c (feed c n s)"
  using feed_subset [of s c "last (feed c n s)" n] by (auto simp: next_cursor_def)

text \<open>A batch and what the next cursor still selects are together what the cursor selected.\<close>

lemma batch_then_rest:
  assumes "wf s" "cur c"
  shows "filter (\<lambda>r. c < key r) (log s) =
     feed c n s @ filter (\<lambda>r. next_cursor key c (feed c n s) < key r) (log s)"
proof (cases "feed c n s = []")
  case True
  then show ?thesis by (simp add: next_cursor_def)
next
  case False
  let ?new = "filter (\<lambda>r. c < key r) (log s)" and ?k = "key (last (feed c n s))"
  have split: "?new = feed c n s @ drop n ?new" using assms by (simp add: feed_eq)
  have "sorted_wrt (<) (map key ?new)" using assms by (simp add: log_sorted sorted_wrt_map_filter)
  from sorted_wrt_filter_gt_last [OF this split False]
  have "filter (\<lambda>r. ?k < key r) ?new = drop n ?new" .
  moreover have "c < ?k" using feed_subset [OF assms last_in_set [OF False]] by simp
  then have "filter (\<lambda>r. ?k < key r) ?new = filter (\<lambda>r. ?k < key r) (log s)"
    by (auto intro!: filter_cong)
  ultimately show ?thesis using split False by (simp add: next_cursor_def)
qed

lemma pulls_then_rest:
  "wf s \<Longrightarrow> cur c \<Longrightarrow>
   filter (\<lambda>r. c < key r) (log s) =
     fst (pulls (\<lambda>c. feed c n s) key k c) @
     filter (\<lambda>r. snd (pulls (\<lambda>c. feed c n s) key k c) < key r) (log s)"
proof (induction k arbitrary: c)
  case 0
  then show ?case by simp
next
  case (Suc k)
  from Suc.IH [OF Suc.prems(1) next_cursor_ok [OF Suc.prems]] batch_then_rest [OF Suc.prems, of n]
  show ?case by (simp add: Let_def)
qed

text \<open>Enough pulls of a positive batch size return exactly what was past the cursor.\<close>

lemma pulls_complete:
  "wf s \<Longrightarrow> cur c \<Longrightarrow> 0 < n \<Longrightarrow> length (filter (\<lambda>r. c < key r) (log s)) \<le> k * n \<Longrightarrow>
   fst (pulls (\<lambda>c. feed c n s) key k c) = filter (\<lambda>r. c < key r) (log s)"
proof (induction k arbitrary: c)
  case 0
  then show ?case by simp
next
  case (Suc k)
  let ?c' = "next_cursor key c (feed c n s)" and ?new = "filter (\<lambda>r. c < key r) (log s)"
  have "?new = feed c n s @ filter (\<lambda>r. ?c' < key r) (log s)"
    using batch_then_rest Suc.prems by blast
  moreover have "feed c n s = take n ?new" using Suc.prems by (simp add: feed_eq)
  ultimately have rest: "filter (\<lambda>r. ?c' < key r) (log s) = drop n ?new"
    by (metis append_take_drop_id same_append_eq)
  then have "length (filter (\<lambda>r. ?c' < key r) (log s)) \<le> k * n" using Suc.prems by simp
  from Suc.IH [OF Suc.prems(1) next_cursor_ok [OF Suc.prems(1,2)] Suc.prems(3) this] rest
  show ?case using Suc.prems by (simp add: Let_def feed_eq)
qed

text \<open>The log may grow between two pulls: nothing written after the first pull is passed over.\<close>

lemma pull_while_growing:
  assumes s: "wf s" "cur c" and s': "wf s'" "log s' = log s @ new"
    and c': "c' = next_cursor key c (feed c n s)" and past: "\<forall>r\<in>set new. c < key r"
  shows "filter (\<lambda>r. c < key r) (log s') = feed c n s @ filter (\<lambda>r. c' < key r) (log s')"
proof (cases "feed c n s = []")
  case True
  then show ?thesis by (simp add: c' next_cursor_def)
next
  case False
  let ?f = "\<lambda>r. c < key r"
  have split: "filter ?f (log s') = feed c n s @ (drop n (filter ?f (log s)) @ new)"
    using past s s' by (simp add: feed_eq)
  have "sorted_wrt (<) (map key (filter ?f (log s')))"
    using s' by (intro sorted_wrt_map_filter log_sorted) 
  from sorted_wrt_filter_gt_last [OF this split False]
  have "filter (\<lambda>r. c' < key r) (filter ?f (log s')) = drop n (filter ?f (log s)) @ new" using False c' by (simp add: next_cursor_def)
  moreover have "c < c'" using feed_subset [OF s last_in_set [OF False]] False c' by (simp add: next_cursor_def)
  then have "filter (\<lambda>r. c' < key r) (filter ?f (log s')) = filter (\<lambda>r. c' < key r) (log s')"
    by (auto intro!: filter_cong)
  ultimately show ?thesis using split by simp
qed

end

end
