(* ===== verification/Dynamo_Events.thy ===== *)
theory Dynamo_Events
  imports Cursor_Feed
begin

text \<open>
  The event log and the near-conflict log of cloud/dynamo.py: the atomic counter, the
  append, and the queries behind GET /sync/pull. \<open>events\<close> is the abstract log; \<open>put_event\<close>
  appends to it and \<open>query_events_since\<close> returns the first events past the cursor.
  Clock readings are arguments (\<open>now\<close>, in seconds).
\<close>

section \<open>Counters\<close>

definition next_id :: "string \<Rightarrow> table \<Rightarrow> table \<times> int" where
  "next_id name t = add_item ''COUNTER'' name ''seq'' 1 t"

definition counter :: "string \<Rightarrow> table \<Rightarrow> int" where
  "counter name t =
     (case map_of (item_or_new (get_item t ''COUNTER'' name)) ''seq'' of Some (AInt i) \<Rightarrow> i | _ \<Rightarrow> 0)"

text \<open>The sort key of an id: ten digits, as \<open>:010d\<close> writes a non-negative integer.\<close>

definition id_key :: "int \<Rightarrow> string" where
  "id_key i = pad 10 (nat i)"

section \<open>Events\<close>

record event =
  event_id :: int
  ev_table_name :: string
  ev_row_id :: string
  ev_revision :: int
  ev_actor :: string
  ev_modified_at :: string
  ev_key_id :: string
  ev_payload :: "bytes option"
  ev_deleted :: int
  ev_received_at :: string

definition event_item :: "event \<Rightarrow> item" where
  "event_item e =
     [(''event_id'', AInt (event_id e)), (''table_name'', AStr (ev_table_name e)),
      (''row_id'', AStr (ev_row_id e)), (''revision'', AInt (ev_revision e)),
      (''actor'', AStr (ev_actor e)), (''modified_at'', AStr (ev_modified_at e)),
      (''key_id'', AStr (ev_key_id e)), (''deleted'', AInt (ev_deleted e)),
      (''received_at'', AStr (ev_received_at e)),
      (''row_key'', AStr (ev_table_name e @ ''#'' @ ev_row_id e))] @
     (case ev_payload e of None \<Rightarrow> [] | Some p \<Rightarrow> [(''encrypted_payload'', ABytes p)])"

definition put_event ::
  "int \<Rightarrow> string \<Rightarrow> string \<Rightarrow> int \<Rightarrow> string \<Rightarrow> string \<Rightarrow> string \<Rightarrow> bytes option \<Rightarrow> bool \<Rightarrow> table \<Rightarrow> table \<times> int" where
  "put_event now table_name row_id revision actor modified_at key_id payload deleted t =
     (let (t1, i) = next_id ''event_log'' t in
      (put_item ''EVENT'' (id_key i)
         (event_item \<lparr>event_id = i, ev_table_name = table_name, ev_row_id = row_id,
            ev_revision = revision, ev_actor = actor, ev_modified_at = modified_at,
            ev_key_id = key_id, ev_payload = payload, ev_deleted = (if deleted then 1 else 0),
            ev_received_at = iso now\<rparr>) t1, i))"

text \<open>\<open>_coerce_event\<close>; \<open>None\<close> is the \<open>KeyError\<close> of a missing attribute.\<close>

definition coerce_event :: "item \<Rightarrow> event option" where
  "coerce_event it =
     do {
       i \<leftarrow> int_attr ''event_id'' it;
       tn \<leftarrow> str_attr ''table_name'' it;
       r \<leftarrow> str_attr ''row_id'' it;
       rv \<leftarrow> int_attr ''revision'' it;
       a \<leftarrow> str_attr ''actor'' it;
       m \<leftarrow> str_attr ''modified_at'' it;
       k \<leftarrow> str_attr ''key_id'' it;
       Some \<lparr>event_id = i, ev_table_name = tn, ev_row_id = r, ev_revision = rv, ev_actor = a,
         ev_modified_at = m, ev_key_id = k, ev_payload = bytes_attr ''encrypted_payload'' it,
         ev_deleted = (case int_attr ''deleted'' it of Some d \<Rightarrow> d | None \<Rightarrow> 0),
         ev_received_at = str_attr_or ''received_at'' [] it\<rparr>
     }"

definition query_events_since :: "int \<Rightarrow> nat \<Rightarrow> table \<Rightarrow> event list option" where
  "query_events_since since limit t =
     those (map (coerce_event \<circ> snd) (take limit (query ''EVENT'' (\<lambda>s. id_key since < s) t)))"

definition query_latest_event_for_row :: "table \<Rightarrow> string \<Rightarrow> string \<Rightarrow> int \<Rightarrow> event option option" where
  "query_latest_event_for_row g table_name row_id before =
     (case rev (query_row_key (table_name @ ''#'' @ row_id) (\<lambda>s. s < id_key before) g) of
        [] \<Rightarrow> Some None
      | it # _ \<Rightarrow> map_option Some (coerce_event it))"

section \<open>Near conflicts\<close>

record conflict =
  conflict_id :: int
  cf_table_name :: string
  cf_row_id :: string
  cf_event_a :: int
  cf_event_b :: int
  cf_actor_a :: string
  cf_actor_b :: string
  cf_modified_a :: string
  cf_modified_b :: string
  cf_delta :: string
  cf_detected_at :: string
  cf_acked_at :: "string option"
  cf_acked_by :: "string option"

definition put_near_conflict ::
  "int \<Rightarrow> string \<Rightarrow> string \<Rightarrow> int \<Rightarrow> int \<Rightarrow> string \<Rightarrow> string \<Rightarrow> string \<Rightarrow> string \<Rightarrow> string \<Rightarrow> table \<Rightarrow> table \<times> int" where
  "put_near_conflict now table_name row_id ea eb actor_a actor_b mod_a mod_b delta t =
     (let (t1, i) = next_id ''near_conflict'' t in
      (put_item ''CONFLICT'' (id_key i)
         [(''conflict_id'', AInt i), (''table_name'', AStr table_name), (''row_id'', AStr row_id),
          (''event_id_a'', AInt ea), (''event_id_b'', AInt eb), (''actor_a'', AStr actor_a),
          (''actor_b'', AStr actor_b), (''modified_at_a'', AStr mod_a), (''modified_at_b'', AStr mod_b),
          (''delta_seconds'', AStr delta), (''detected_at'', AStr (iso now))] t1, i))"

definition coerce_conflict :: "item \<Rightarrow> conflict option" where
  "coerce_conflict it =
     do {
       i \<leftarrow> int_attr ''conflict_id'' it;
       tn \<leftarrow> str_attr ''table_name'' it;
       r \<leftarrow> str_attr ''row_id'' it;
       ea \<leftarrow> int_attr ''event_id_a'' it;
       eb \<leftarrow> int_attr ''event_id_b'' it;
       aa \<leftarrow> str_attr ''actor_a'' it;
       ab \<leftarrow> str_attr ''actor_b'' it;
       ma \<leftarrow> str_attr ''modified_at_a'' it;
       mb \<leftarrow> str_attr ''modified_at_b'' it;
       d \<leftarrow> str_attr ''delta_seconds'' it;
       dt \<leftarrow> str_attr ''detected_at'' it;
       Some \<lparr>conflict_id = i, cf_table_name = tn, cf_row_id = r, cf_event_a = ea, cf_event_b = eb,
         cf_actor_a = aa, cf_actor_b = ab, cf_modified_a = ma, cf_modified_b = mb, cf_delta = d,
         cf_detected_at = dt, cf_acked_at = str_attr ''acknowledged_at'' it,
         cf_acked_by = str_attr ''acknowledged_by'' it\<rparr>
     }"

definition list_near_conflicts :: "bool \<Rightarrow> nat \<Rightarrow> table \<Rightarrow> conflict list option" where
  "list_near_conflicts unacked_only limit t =
     map_option (\<lambda>cs. if unacked_only then filter (\<lambda>c. \<not> truthy (cf_acked_at c)) cs else cs)
       (those (map (coerce_conflict \<circ> snd) (take limit (rev (query ''CONFLICT'' (\<lambda>_. True) t)))))"

definition ack_near_conflict :: "int \<Rightarrow> int \<Rightarrow> string \<Rightarrow> table \<Rightarrow> table \<times> bool" where
  "ack_near_conflict now i actor t =
     (case update_item_if (attr_exists ''conflict_id'') ''CONFLICT'' (id_key i)
             [(''acknowledged_at'', AStr (iso now)), (''acknowledged_by'', AStr actor)] t of
        Some t' \<Rightarrow> (t', True)
      | None \<Rightarrow> (t, False))"

section \<open>The log as a sequence\<close>

text \<open>
  The event invariant: the stored events are exactly well-formed items whose key is the
  ten-digit form of their id, and every id is at most the counter.
\<close>

definition event_inv :: "table \<Rightarrow> bool" where
  "event_inv t \<longleftrightarrow> wf_table t \<and> 0 \<le> counter ''event_log'' t \<and>
     (\<forall>s it. get_item t ''EVENT'' s = Some it \<longrightarrow>
        (\<exists>e. coerce_event it = Some e \<and> s = id_key (event_id e) \<and>
             1 \<le> event_id e \<and> event_id e \<le> counter ''event_log'' t))"

definition events :: "table \<Rightarrow> event list" where
  "events t = map (the \<circ> coerce_event \<circ> snd) (query ''EVENT'' (\<lambda>_. True) t)"

text \<open>The ids a ten-digit key can hold.\<close>

definition id_space :: int where
  "id_space = 10000000000"

lemma id_key_less_iff:
  "0 \<le> i \<Longrightarrow> i < id_space \<Longrightarrow> 0 \<le> j \<Longrightarrow> j < id_space \<Longrightarrow> id_key i < id_key j \<longleftrightarrow> i < j"
  by (auto simp: id_key_def id_space_def pad_less_iff nat_less_iff)

lemma id_key_eq_iff:
  "0 \<le> i \<Longrightarrow> i < id_space \<Longrightarrow> 0 \<le> j \<Longrightarrow> j < id_space \<Longrightarrow> id_key i = id_key j \<longleftrightarrow> i = j"
  by (auto simp: id_key_def id_space_def pad_eq_iff nat_less_iff)

lemma next_id_snd: "snd (next_id name t) = counter name t + 1"
  by (simp add: next_id_def add_item_def counter_def Let_def)

lemma counter_update_other:
  "p \<noteq> ''COUNTER'' \<or> s \<noteq> name \<Longrightarrow> counter name (put_item p s it t) = counter name t"
  by (auto simp: counter_def get_put)

lemma counter_next_id:
  "counter name' (fst (next_id name t)) = (if name' = name then counter name t + 1 else counter name' t)"
  by (auto simp: next_id_def counter_def add_item_def Let_def item_or_new_def get_update)

lemma get_next_id: "p \<noteq> ''COUNTER'' \<Longrightarrow> get_item (fst (next_id name t)) p s = get_item t p s"
  by (simp add: next_id_def get_add)

lemma query_next_id: "p \<noteq> ''COUNTER'' \<Longrightarrow> query p c (fst (next_id name t)) = query p c t"
  by (simp add: next_id_def add_item_def Let_def query_update_other)

lemma wf_next_id [simp]: "wf_table t \<Longrightarrow> wf_table (fst (next_id name t))"
  by (simp add: next_id_def)

lemma coerce_event_item [simp]: "coerce_event (event_item e) = Some e"
  by (cases "ev_payload e")
    (simp_all add: coerce_event_def event_item_def int_attr_def str_attr_def bytes_attr_def str_attr_or_def)

lemma query_snoc:
  assumes "get_item t p s = None" "\<forall>y\<in>set (query p (\<lambda>_. True) t). fst y < s"
  shows "query p (\<lambda>_. True) (put_item p s it t) = query p (\<lambda>_. True) t @ [(s, it)]"
  using assms by (simp add: query_def partition_put_new sort_key_snoc)

lemma event_inv_keys:
  assumes "event_inv t" "y \<in> set (query ''EVENT'' c t)"
  shows "\<exists>e. coerce_event (snd y) = Some e \<and> fst y = id_key (event_id e) \<and> 1 \<le> event_id e \<and>
    event_id e \<le> counter ''event_log'' t"
  using assms by (cases y) (auto simp: event_inv_def set_query)

lemma put_event_parts:
  "put_event now tn r rv a m k p d t = (t', i) \<Longrightarrow>
     i = counter ''event_log'' t + 1 \<and>
     t' = put_item ''EVENT'' (id_key i) (event_item \<lparr>event_id = i, ev_table_name = tn, ev_row_id = r,
        ev_revision = rv, ev_actor = a, ev_modified_at = m, ev_key_id = k, ev_payload = p,
        ev_deleted = (if d then 1 else 0), ev_received_at = iso now\<rparr>) (fst (next_id ''event_log'' t))"
  using next_id_snd [of "''event_log''" t] by (auto simp: put_event_def Let_def split: prod.splits)

text \<open>Appending keeps the invariant and extends the abstract log by the new event.\<close>

lemma put_event_log:
  assumes inv: "event_inv t" and room: "counter ''event_log'' t + 1 < id_space"
    and put: "put_event now tn r rv a m k p d t = (t', i)"
  shows "event_inv t'" and "counter ''event_log'' t' = i" and "i = counter ''event_log'' t + 1"
    and "events t' = events t @ [\<lparr>event_id = i, ev_table_name = tn, ev_row_id = r,
        ev_revision = rv, ev_actor = a, ev_modified_at = m, ev_key_id = k, ev_payload = p,
        ev_deleted = (if d then 1 else 0), ev_received_at = iso now\<rparr>]" (is "_ = _ @ [?e]")
proof -
  let ?c = "counter ''event_log''" and ?t1 = "fst (next_id ''event_log'' t)"
  have i: "i = ?c t + 1" and t': "t' = put_item ''EVENT'' (id_key i) (event_item ?e) ?t1"
    using put_event_parts [OF put] by simp_all
  then show "i = ?c t + 1" by simp
  have c0: "0 \<le> ?c t" using inv by (simp add: event_inv_def)
  show c': "?c t' = i" by (simp add: t' i counter_update_other counter_next_id)
  have less: "\<forall>y\<in>set (query ''EVENT'' (\<lambda>_. True) t). fst y < id_key i"
  proof
    fix y assume y: "y \<in> set (query ''EVENT'' (\<lambda>_. True) t)"
    from event_inv_keys [OF inv this]
    obtain e :: event where "fst y = id_key (event_id e)" "1 \<le> event_id e" "event_id e \<le> ?c t"
      by blast
    then show "fst y < id_key i" using i room c0 by (simp add: id_key_less_iff)
  qed
  have wf: "wf_table t" using inv by (simp add: event_inv_def)
  have none: "get_item ?t1 ''EVENT'' (id_key i) = None"
  proof (cases "get_item t ''EVENT'' (id_key i)")
    case (Some it)
    then have "(id_key i, it) \<in> set (query ''EVENT'' (\<lambda>_. True) t)" using wf by (simp add: set_query)
    with less show ?thesis by fastforce
  qed (simp add: get_next_id)
  have q: "query ''EVENT'' (\<lambda>_. True) t' = query ''EVENT'' (\<lambda>_. True) t @ [(id_key i, event_item ?e)]"
    unfolding t' using less by (subst query_snoc [OF none]) (simp_all add: query_next_id)
  then show "events t' = events t @ [?e]" by (simp add: events_def)
  show "event_inv t'"
    unfolding event_inv_def c'
  proof (intro conjI allI impI)
    fix s it assume "get_item t' ''EVENT'' s = Some it"
    moreover have "get_item t' ''EVENT'' s = (if s = id_key i then Some (event_item ?e) else get_item t ''EVENT'' s)"
      unfolding t' by (simp add: get_put get_next_id)
    ultimately consider "s = id_key i" "it = event_item ?e" | "get_item t ''EVENT'' s = Some it"
      by (cases "s = id_key i") simp_all
    then show "\<exists>e. coerce_event it = Some e \<and> s = id_key (event_id e) \<and> 1 \<le> event_id e \<and> event_id e \<le> i"
    proof cases
      case 1
      then show ?thesis using c0 i by (intro exI [of _ ?e]) simp
    next
      case 2
      then obtain e :: event where "coerce_event it = Some e" "s = id_key (event_id e)" "1 \<le> event_id e"
        "event_id e \<le> ?c t" using inv unfolding event_inv_def by blast
      then show ?thesis using i by (intro exI [of _ e]) simp
    qed
  qed (use wf c0 i in \<open>simp_all add: t'\<close>)
qed

lemma events_sorted:
  assumes "event_inv t" "counter ''event_log'' t < id_space"
  shows "sorted_wrt (<) (map event_id (events t))"
proof -
  let ?q = "query ''EVENT'' (\<lambda>_. True) t"
  have key: "id_key (event_id (the (coerce_event (snd y)))) = fst y \<and> 0 \<le> event_id (the (coerce_event (snd y)))
      \<and> event_id (the (coerce_event (snd y))) < id_space" if "y \<in> set ?q" for y
    using event_inv_keys [OF assms(1) that] assms(2) by auto
  have "wf_table t" using assms(1) by (simp add: event_inv_def)
  then have "sorted_wrt (<) (map fst ?q)"
    by (simp add: strict_sorted_iff sorted_query distinct_query)
  then have "sorted_wrt (\<lambda>x y. fst x < fst y) ?q" by (simp add: sorted_wrt_map)
  then have "sorted_wrt (\<lambda>x y. event_id (the (coerce_event (snd x))) < event_id (the (coerce_event (snd y)))) ?q"
    by (rule sorted_wrt_mono_rel [rotated]) (metis key id_key_less_iff)
  then show ?thesis by (simp add: events_def sorted_wrt_map)
qed

lemma query_events_since_eq:
  assumes inv: "event_inv t" "counter ''event_log'' t < id_space" and c: "0 \<le> since" "since < id_space"
  shows "query_events_since since n t = Some (take n (filter (\<lambda>e. since < event_id e) (events t)))"
proof -
  let ?q = "query ''EVENT'' (\<lambda>_. True) t"
  have sub: "take n (query ''EVENT'' (\<lambda>s. id_key since < s) t) = take n (filter (\<lambda>(s, it). id_key since < s) ?q)"
    by (subst query_filter) simp
  have "\<forall>y\<in>set (take n (filter (\<lambda>(s, it). id_key since < s) ?q)). (coerce_event \<circ> snd) y \<noteq> None"
    by (auto dest!: in_set_takeD event_inv_keys [OF inv(1)])
  then have "query_events_since since n t =
      Some (map (the \<circ> (coerce_event \<circ> snd)) (take n (filter (\<lambda>(s, it). id_key since < s) ?q)))"
    by (simp add: query_events_since_def sub those_map_Some)
  also have "filter (\<lambda>(s, it). id_key since < s) ?q = filter (\<lambda>y. since < event_id (the (coerce_event (snd y)))) ?q"
    using inv(2) c by (auto intro!: filter_cong dest!: event_inv_keys [OF inv(1)] simp: id_key_less_iff)
  finally show ?thesis by (simp add: events_def take_map filter_map o_def)
qed

interpretation ev: cursor_feed events event_id "\<lambda>c n t. the (query_events_since c n t)"
  "\<lambda>t. event_inv t \<and> counter ''event_log'' t < id_space" "\<lambda>c. 0 \<le> c \<and> c < id_space"
proof unfold_locales
  fix t r
  assume t: "event_inv t \<and> counter ''event_log'' t < id_space" and r: "r \<in> set (events t)"
  then obtain y where y: "y \<in> set (query ''EVENT'' (\<lambda>_. True) t)" "r = the (coerce_event (snd y))"
    by (auto simp: events_def)
  from t have "event_inv t" by simp
  from event_inv_keys [OF this y(1)] t y(2) show "0 \<le> event_id r \<and> event_id r < id_space"
    by auto
qed (auto simp: events_sorted query_events_since_eq)

section \<open>Two writers at once\<close>

text \<open>
  \<open>put_event\<close> is two requests, the counter and the item. Between them another writer can take
  the next id and store its event first.
\<close>

definition mk_event ::
  "int \<Rightarrow> int \<Rightarrow> string \<Rightarrow> string \<Rightarrow> int \<Rightarrow> string \<Rightarrow> string \<Rightarrow> string \<Rightarrow> bytes option \<Rightarrow> bool \<Rightarrow> event" where
  "mk_event now i tn r rv a m k p d =
     \<lparr>event_id = i, ev_table_name = tn, ev_row_id = r, ev_revision = rv, ev_actor = a, ev_modified_at = m,
      ev_key_id = k, ev_payload = p, ev_deleted = (if d then 1 else 0), ev_received_at = iso now\<rparr>"

definition write_event :: "event \<Rightarrow> table \<Rightarrow> table" where
  "write_event e t = put_item ''EVENT'' (id_key (event_id e)) (event_item e) t"

lemma put_event_two_requests:
  "put_event now tn r rv a m k p d t =
     (let (t1, i) = next_id ''event_log'' t in (write_event (mk_event now i tn r rv a m k p d) t1, i))"
  by (simp add: put_event_def write_event_def mk_event_def Let_def split: prod.splits)

lemma event_inv_next_id: "event_inv t \<Longrightarrow> event_inv (fst (next_id ''event_log'' t))"
  unfolding event_inv_def by (simp add: get_next_id counter_next_id) force

lemma event_inv_write:
  assumes "event_inv t" "1 \<le> event_id e" "event_id e \<le> counter ''event_log'' t"
  shows "event_inv (write_event e t)" and "counter ''event_log'' (write_event e t) = counter ''event_log'' t"
proof -
  show c: "counter ''event_log'' (write_event e t) = counter ''event_log'' t"
    by (simp add: write_event_def counter_update_other)
  show "event_inv (write_event e t)"
    using assms unfolding event_inv_def c
    by (auto simp: write_event_def get_put split: if_splits)
qed

lemma events_write_iff:
  assumes "event_inv (write_event e t)" shows "e \<in> set (events (write_event e t))"
proof -
  have "(id_key (event_id e), event_item e) \<in> set (query ''EVENT'' (\<lambda>_. True) (write_event e t))"
    using assms by (simp add: set_query event_inv_def) (simp add: write_event_def get_put)
  then show ?thesis by (force simp: events_def)
qed

text \<open>An event whose writer was overtaken between taking its id and storing it can be passed over
  for good: once a terminal has pulled the overtaking event, the earlier one is in the log
  when its write lands, but no pull from that cursor, however large, returns it.\<close>

theorem overtaken_event_is_skipped:
  assumes inv: "event_inv t" and room: "counter ''event_log'' t + 2 < id_space"
    and a: "next_id ''event_log'' t = (t1, i)"
    and b: "put_event now tn r rv ac m k p d t1 = (t2, j)"
    and e: "event_id e = i"
  shows "query_events_since i 1 t2 = Some [mk_event now j tn r rv ac m k p d] \<and>
     e \<in> set (events (write_event e t2)) \<and>
     (\<forall>n us. query_events_since j n (write_event e t2) = Some us \<longrightarrow> e \<notin> set us)"
proof -
  let ?c = "counter ''event_log''"
  have i: "i = ?c t + 1" and c1: "?c t1 = i" and inv1: "event_inv t1"
    using a next_id_snd [of "''event_log''" t] counter_next_id [of "''event_log''" "''event_log''" t]
      event_inv_next_id [OF inv] by auto
  have room1: "?c t1 + 1 < id_space" using c1 i room by simp
  note pe = put_event_log [OF inv1 room1 b]
  have c0: "0 \<le> ?c t" using inv by (simp add: event_inv_def)
  have j: "j = i + 1" using pe(3) c1 by simp
  have r2: "?c t2 < id_space" using pe(2) j i room by simp
  have "query_events_since i 1 t2 = Some (take 1 (filter (\<lambda>e. i < event_id e) (events t2)))"
    using pe(1) r2 c0 i room by (intro query_events_since_eq) auto
  moreover have "filter (\<lambda>e. i < event_id e) (events t1) = []"
    using inv1 c1 event_inv_keys [OF inv1] by (auto simp: events_def filter_empty_conv) fastforce
  ultimately have "query_events_since i 1 t2 = Some [mk_event now j tn r rv ac m k p d]"
    using pe(4) j by (simp add: mk_event_def)
  moreover have inv3: "event_inv (write_event e t2)" and c3: "?c (write_event e t2) = ?c t2"
    using event_inv_write [OF pe(1), of e] pe(2) e i j c0 by simp_all
  moreover have "e \<notin> set us" if "query_events_since j n (write_event e t2) = Some us" for n us
    using that query_events_since_eq [OF inv3, of j n] c3 r2 j i c0 room e by (auto dest: in_set_takeD)
  ultimately show ?thesis using events_write_iff by blast
qed

theorem overtaken_event_is_skipped_witness:
  "\<exists>e t2 j. e \<in> set (events (write_event e t2)) \<and>
     (\<forall>n us. query_events_since j n (write_event e t2) = Some us \<longrightarrow> e \<notin> set us)"
proof -
  have "event_inv []" "counter ''event_log'' [] = 0"
    by (simp_all add: event_inv_def wf_table_def counter_def get_item_def item_or_new_def)
  moreover obtain t1 i where "next_id ''event_log'' [] = (t1, i)" by fastforce
  moreover obtain t2 j where "put_event 5 ''contact'' ''7'' 1 ''client'' ''m'' ''K_op+K_cl'' None False t1 = (t2, j)" by fastforce
  ultimately show ?thesis
    using overtaken_event_is_skipped [of "[]" t1 i 5 "''contact''" "''7''" 1 "''client''" "''m''" "''K_op+K_cl''" None False t2 j
        "mk_event 5 i ''contact'' ''7'' 1 ''operator'' ''m'' ''K_op+K_cl'' None False"]
    by (auto simp: id_space_def mk_event_def)
qed

end
