(* ===== verification/Dynamo_Packs.thy ===== *)
theory Dynamo_Packs
  imports Dynamo_Events
begin

text \<open>
  The packs of cloud/dynamo.py: one item per encrypted send job, whose \<open>status\<close> goes from
  pending to claimed to an outcome, or from pending to cancelled. Every write of the status
  that races with another process is a conditional write. The queries on the status index
  take the table \<open>g\<close> the index reflects, which may lag behind the table \<open>t\<close>; how the service
  cuts a long answer into pages is the argument \<open>paging\<close>.
\<close>

section \<open>Packs and their items\<close>

record pack =
  pk_id :: string
  pk_campaign :: int
  pk_recipient_hash :: string
  pk_content_hash :: string
  pk_send_at :: string
  pk_key_id :: string
  pk_payload :: "bytes option"
  pk_status :: string
  pk_enqueued_at :: string
  pk_pushed_by :: string
  pk_claimed_at :: "string option"
  pk_sent_at :: "string option"
  pk_message_id :: "string option"
  pk_failure :: "string option"
  pk_resolved_at :: "string option"

definition pack_key :: "string \<Rightarrow> string" where
  "pack_key pid = ''PACK#'' @ pid"

definition get_pack_item :: "table \<Rightarrow> string \<Rightarrow> item option" where
  "get_pack_item t pid = get_item t (pack_key pid) (pack_key pid)"

text \<open>\<open>_coerce_pack\<close>; \<open>None\<close> is the \<open>KeyError\<close> of a missing attribute.\<close>

definition coerce_pack :: "item \<Rightarrow> pack option" where
  "coerce_pack it =
     do {
       pid \<leftarrow> str_attr ''pack_id'' it;
       c \<leftarrow> int_attr ''campaign_id'' it;
       rh \<leftarrow> str_attr ''recipient_hash'' it;
       ch \<leftarrow> str_attr ''content_hash'' it;
       sa \<leftarrow> str_attr ''send_at'' it;
       k \<leftarrow> str_attr ''key_id'' it;
       st \<leftarrow> str_attr ''status'' it;
       Some \<lparr>pk_id = pid, pk_campaign = c, pk_recipient_hash = rh, pk_content_hash = ch, pk_send_at = sa,
         pk_key_id = k, pk_payload = bytes_attr ''encrypted_payload'' it, pk_status = st,
         pk_enqueued_at = str_attr_or ''enqueued_at'' [] it, pk_pushed_by = str_attr_or ''pushed_by'' [] it,
         pk_claimed_at = str_attr ''claimed_at'' it, pk_sent_at = str_attr ''sent_at'' it,
         pk_message_id = str_attr ''resend_message_id'' it, pk_failure = str_attr ''failure_reason'' it,
         pk_resolved_at = str_attr ''resolved_at'' it\<rparr>
     }"

definition new_pack_item ::
  "int \<Rightarrow> string \<Rightarrow> int \<Rightarrow> string \<Rightarrow> string \<Rightarrow> string \<Rightarrow> string \<Rightarrow> bytes \<Rightarrow> string \<Rightarrow> item" where
  "new_pack_item now pid c rh ch send_at k payload pushed_by =
     [(''pack_id'', AStr pid), (''campaign_id'', AInt c), (''recipient_hash'', AStr rh),
      (''content_hash'', AStr ch), (''send_at'', AStr send_at), (''key_id'', AStr k),
      (''encrypted_payload'', ABytes payload), (''status'', AStr ''pending''),
      (''enqueued_at'', AStr (iso now)), (''pushed_by'', AStr pushed_by), (''claimed_at'', ANull),
      (''sent_at'', ANull), (''resend_message_id'', ANull), (''failure_reason'', ANull)]"

text \<open>\<open>None\<close> is \<open>PackAlreadyExists\<close>.\<close>

definition put_pack ::
  "int \<Rightarrow> string \<Rightarrow> int \<Rightarrow> string \<Rightarrow> string \<Rightarrow> string \<Rightarrow> string \<Rightarrow> bytes \<Rightarrow> string \<Rightarrow> table \<Rightarrow> table option" where
  "put_pack now pid c rh ch send_at k payload pushed_by t =
     put_item_if (\<lambda>io. \<not> attr_exists ''pack_id'' io) (pack_key pid) (pack_key pid)
       (new_pack_item now pid c rh ch send_at k payload pushed_by) t"

text \<open>The inner \<open>None\<close> is a missing pack, the outer one an exception.\<close>

definition get_pack :: "table \<Rightarrow> string \<Rightarrow> pack option option" where
  "get_pack t pid =
     (case get_pack_item t pid of None \<Rightarrow> Some None | Some it \<Rightarrow> map_option Some (coerce_pack it))"

definition claim_pack :: "int \<Rightarrow> string \<Rightarrow> table \<Rightarrow> table \<times> bool" where
  "claim_pack now pid t =
     (case update_item_if (attr_eq ''status'' (AStr ''pending'')) (pack_key pid) (pack_key pid)
             [(''status'', AStr ''claimed''), (''claimed_at'', AStr (iso now))] t of
        Some t' \<Rightarrow> (t', True)
      | None \<Rightarrow> (t, False))"

definition resolved_statuses :: "string list" where
  "resolved_statuses = [''sent'', ''failed'', ''stuck_no_key'', ''cancelled'', ''unknown'']"

definition settle_s :: int where
  "settle_s = 10"

definition iso_ago :: "int \<Rightarrow> int \<Rightarrow> string" where
  "iso_ago now s = iso (now - s)"

definition stamp_resolved :: "int \<Rightarrow> (string \<times> attr) list \<Rightarrow> (string \<times> attr) list" where
  "stamp_resolved now flds =
     (if (\<exists>s\<in>set resolved_statuses. map_of flds ''status'' = Some (AStr s)) \<and>
         map_of flds ''resolved_at'' = None
      then flds @ [(''resolved_at'', AStr (iso now))] else flds)"

definition update_pack :: "int \<Rightarrow> string \<Rightarrow> (string \<times> attr) list \<Rightarrow> table \<Rightarrow> table" where
  "update_pack now pid flds t =
     (let fs = stamp_resolved now flds in
      if fs = [] then t else update_item (pack_key pid) (pack_key pid) fs t)"

definition cancel_pack :: "int \<Rightarrow> string \<Rightarrow> table \<Rightarrow> table \<times> bool" where
  "cancel_pack now pid t =
     (case update_item_if (attr_eq ''status'' (AStr ''pending'')) (pack_key pid) (pack_key pid)
             [(''status'', AStr ''cancelled''), (''encrypted_payload'', ANull),
              (''resolved_at'', AStr (iso now))] t of
        Some t' \<Rightarrow> (t', True)
      | None \<Rightarrow> (t, False))"

definition list_pending_packs :: "int \<Rightarrow> nat \<Rightarrow> table \<Rightarrow> pack list option" where
  "list_pending_packs now limit g =
     those (map coerce_pack (take limit (query_status ''pending'' (\<lambda>s. s \<le> iso now) g)))"

text \<open>The loop of \<open>cancel_pending_for_campaign\<close> over the listed items; \<open>None\<close> is a \<open>KeyError\<close>.\<close>

fun cancel_each :: "int \<Rightarrow> item list \<Rightarrow> table \<Rightarrow> nat \<Rightarrow> table \<times> nat option" where
  "cancel_each now [] t n = (t, Some n)"
| "cancel_each now (it # its) t n =
     (case str_attr ''pack_id'' it of
        None \<Rightarrow> (t, None)
      | Some pid \<Rightarrow>
          (case cancel_pack now pid t of
             (t', ok) \<Rightarrow> cancel_each now its t' (if ok then Suc n else n)))"

definition cancel_pending_for_campaign :: "int \<Rightarrow> int \<Rightarrow> table \<Rightarrow> table \<Rightarrow> table \<times> nat option" where
  "cancel_pending_for_campaign now c g t =
     cancel_each now (filter (\<lambda>it. map_of it ''campaign_id'' = Some (AInt c)) (query_status ''pending'' (\<lambda>_. True) g)) t 0"

section \<open>Stale claims\<close>

definition stale_reason :: "string \<Rightarrow> string" where
  "stale_reason claimed_at = ''dispatcher stopped after claiming it at '' @ claimed_at"

definition expire_claim :: "int \<Rightarrow> string \<Rightarrow> string \<Rightarrow> table \<Rightarrow> table option" where
  "expire_claim now pid claimed_at t =
     update_item_if (\<lambda>io. attr_eq ''status'' (AStr ''claimed'') io \<and> attr_eq ''claimed_at'' (AStr claimed_at) io)
       (pack_key pid) (pack_key pid)
       [(''status'', AStr ''unknown''), (''failure_reason'', AStr (stale_reason claimed_at)),
        (''encrypted_payload'', ANull), (''resolved_at'', AStr (iso now))] t"

fun expire_each :: "int \<Rightarrow> nat \<Rightarrow> item list \<Rightarrow> table \<Rightarrow> nat \<Rightarrow> table \<times> nat option" where
  "expire_each now limit [] t n = (t, Some n)"
| "expire_each now limit (it # its) t n =
     (if limit \<le> n then (t, Some n)
      else case (str_attr ''pack_id'' it, str_attr ''claimed_at'' it) of
        (Some pid, Some ca) \<Rightarrow>
          (case expire_claim now pid ca t of
             Some t' \<Rightarrow> expire_each now limit its t' (Suc n)
           | None \<Rightarrow> expire_each now limit its t n)
      | _ \<Rightarrow> (t, None))"

definition expire_stale_claims :: "int \<Rightarrow> int \<Rightarrow> nat \<Rightarrow> table \<Rightarrow> table \<Rightarrow> table \<times> nat option" where
  "expire_stale_claims now older_than_s limit g t =
     expire_each now limit
       (filter (\<lambda>it. case str_attr ''claimed_at'' it of Some ca \<Rightarrow> ca \<le> iso_ago now older_than_s | None \<Rightarrow> False)
          (query_status ''claimed'' (\<lambda>_. True) g)) t 0"

section \<open>Outcomes and their cursor\<close>

text \<open>\<open>row.get("resolved_at") or row["enqueued_at"]\<close>, then the pack id.\<close>

definition outcome_key :: "pack \<Rightarrow> string \<times> string" where
  "outcome_key r = (opt_or (pk_resolved_at r) (pk_enqueued_at r), pk_id r)"

definition outcome_cursor :: "pack \<Rightarrow> string" where
  "outcome_cursor r = fst (outcome_key r) @ ''#'' @ snd (outcome_key r)"

definition after_cursor :: "string \<times> string \<Rightarrow> string \<Rightarrow> string option \<Rightarrow> string option \<Rightarrow> bool" where
  "after_cursor key since_t since_pid upper \<longleftrightarrow>
     (if (case upper of Some u \<Rightarrow> u < fst key | None \<Rightarrow> False) then False
      else if since_t = [] then True
      else case since_pid of None \<Rightarrow> since_t < fst key | Some p \<Rightarrow> (since_t, p) < key)"

text \<open>
  Reading one status partition page by page: the rows of each page that pass the filter,
  until the last page or until \<open>work_cap\<close> items have been scanned.
\<close>

fun read_pages :: "(item \<Rightarrow> bool) \<Rightarrow> nat \<Rightarrow> item list list \<Rightarrow> nat \<Rightarrow> item list" where
  "read_pages f cap [] scanned = []"
| "read_pages f cap (p # ps) scanned =
     filter f p @
     (if ps = [] \<or> cap \<le> scanned + length p then [] else read_pages f cap ps (scanned + length p))"

definition since_filter :: "string \<Rightarrow> item \<Rightarrow> bool" where
  "since_filter since_t it \<longleftrightarrow>
     since_t = [] \<or>
     (case str_attr ''resolved_at'' it of Some s \<Rightarrow> since_t \<le> s | None \<Rightarrow> False) \<or>
     (case str_attr ''enqueued_at'' it of Some s \<Rightarrow> since_t \<le> s | None \<Rightarrow> False)"

definition list_resolved_packs ::
  "(item list \<Rightarrow> item list list) \<Rightarrow> string \<Rightarrow> nat \<Rightarrow> int \<Rightarrow> int \<Rightarrow> table \<Rightarrow> pack list option" where
  "list_resolved_packs paging since limit settle now g =
     (let (since_t, sep, since_pid) = partition_at CHR ''#'' since;
          upper = (if 0 < settle then Some (iso_ago now settle) else None);
          work_cap = max (limit * 4) 2000;
          its = concat (map (\<lambda>st. read_pages (since_filter since_t) work_cap
                              (paging (query_status st (\<lambda>_. True) g)) 0) resolved_statuses)
      in map_option
           (\<lambda>rows. take limit (sort_key outcome_key
              (filter (\<lambda>r. after_cursor (outcome_key r) since_t (if sep then Some since_pid else None) upper) rows)))
           (those (map coerce_pack its)))"

end
