(* ===== verification/Lifecycle.thy ===== *)
theory Lifecycle
  imports Mail_Prelude
begin

text \<open>
  Two contracts several components share. \<open>invariant_ops\<close>: operations that keep an invariant
  keep it over any sequence. \<open>lifecycle\<close>: each operation moves the abstract state of every
  object along the transitions of a specification, so a final state is never left.
\<close>

definition run :: "('op \<Rightarrow> 's \<Rightarrow> 's) \<Rightarrow> 'op list \<Rightarrow> 's \<Rightarrow> 's" where
  "run exec ops s = fold exec ops s"

lemma run_simps [simp]: "run exec [] s = s" "run exec (op # ops) s = run exec ops (exec op s)"
  by (simp_all add: run_def)

lemma run_append: "run exec (xs @ ys) s = run exec ys (run exec xs s)"
  by (simp add: run_def)

text \<open>Each operation is permitted in the state it is executed in.\<close>

primrec permitted :: "('op \<Rightarrow> 's \<Rightarrow> 's) \<Rightarrow> ('op \<Rightarrow> 's \<Rightarrow> bool) \<Rightarrow> 'op list \<Rightarrow> 's \<Rightarrow> bool" where
  "permitted exec ok [] s = True"
| "permitted exec ok (op # ops) s = (ok op s \<and> permitted exec ok ops (exec op s))"

lemma permitted_always [simp]: "permitted exec (\<lambda>_ _. True) ops s"
  by (induction ops arbitrary: s) auto

locale invariant_ops =
  fixes exec :: "'op \<Rightarrow> 's \<Rightarrow> 's"
    and ok :: "'op \<Rightarrow> 's \<Rightarrow> bool"
    and inv :: "'s \<Rightarrow> bool"
  assumes inv_exec: "inv s \<Longrightarrow> ok op s \<Longrightarrow> inv (exec op s)"
begin

lemma inv_run: "inv s \<Longrightarrow> permitted exec ok ops s \<Longrightarrow> inv (run exec ops s)"
  by (induction ops arbitrary: s) (auto intro: inv_exec)

end

locale lifecycle = invariant_ops exec ok inv
  for exec :: "'op \<Rightarrow> 's \<Rightarrow> 's" and ok :: "'op \<Rightarrow> 's \<Rightarrow> bool" and inv :: "'s \<Rightarrow> bool" +
  fixes view :: "'s \<Rightarrow> 'k \<Rightarrow> 'a"
    and step :: "'a \<Rightarrow> 'a \<Rightarrow> bool"
  assumes exec_refines: "inv s \<Longrightarrow> ok op s \<Longrightarrow> rtranclp step (view s k) (view (exec op s) k)"
begin

lemma run_refines:
  "inv s \<Longrightarrow> permitted exec ok ops s \<Longrightarrow> rtranclp step (view s k) (view (run exec ops s) k)"
proof (induction ops arbitrary: s)
  case Nil
  then show ?case by simp
next
  case (Cons op ops)
  then have "rtranclp step (view s k) (view (exec op s) k)"
    and "rtranclp step (view (exec op s) k) (view (run exec (op # ops) s) k)"
    by (auto intro: exec_refines inv_exec)
  then show ?case by (rule rtranclp_trans)
qed

lemma final_stays:
  assumes "inv s" "permitted exec ok ops s" and final: "\<And>b. \<not> step (view s k) b"
  shows "view (run exec ops s) k = view s k"
  using run_refines [OF assms(1,2), of k] final by (auto elim: converse_rtranclpE)

text \<open>A set of abstract states closed under the transitions is never left.\<close>

lemma closed_stays:
  assumes "inv s" "permitted exec ok ops s" and "view s k \<in> A" and closed: "\<And>a b. a \<in> A \<Longrightarrow> step a b \<Longrightarrow> b \<in> A"
  shows "view (run exec ops s) k \<in> A"
  using run_refines [OF assms(1,2), of k] assms(3)
  by (induction rule: rtranclp_induct) (auto dest: closed)

end

end
