(* ===== verification/Pack_Lifecycle.thy ===== *)
theory Pack_Lifecycle
  imports Dynamo_Packs Lifecycle
begin

text \<open>
  The abstract life of a pack and the proof that every operation of Dynamo_Packs follows
  it. An operation acts on the table as a whole; \<open>pstate_of\<close> reads the abstract state of
  one pack, and \<open>pack_step\<close> is the specification: enqueue, claim, cancel, outcome, and the late
  outcome a slow dispatcher writes over an expired claim.
\<close>

section \<open>Specification\<close>

datatype pstate = Absent | Pending | Claimed | Resolved string

definition outcomes :: "string set" where
  "outcomes = {''sent'', ''failed'', ''stuck_no_key'', ''unknown''}"

inductive pack_step :: "pstate \<Rightarrow> pstate \<Rightarrow> bool" where
  enqueue: "pack_step Absent Pending"
| claim: "pack_step Pending Claimed"
| cancel: "pack_step Pending (Resolved ''cancelled'')"
| outcome: "s \<in> outcomes \<Longrightarrow> pack_step Claimed (Resolved s)"
| late: "s \<in> outcomes \<Longrightarrow> pack_step (Resolved ''unknown'') (Resolved s)"

inductive_simps pack_step_from [simp]:
  "pack_step Absent b" "pack_step Pending b" "pack_step Claimed b" "pack_step (Resolved s) b"

definition classify :: "string \<Rightarrow> pstate" where
  "classify s = (if s = ''pending'' then Pending else if s = ''claimed'' then Claimed else Resolved s)"

definition pstate_of :: "table \<Rightarrow> string \<Rightarrow> pstate" where
  "pstate_of t pid =
     (case get_pack_item t pid of None \<Rightarrow> Absent
      | Some it \<Rightarrow> (case str_attr ''status'' it of None \<Rightarrow> Absent | Some s \<Rightarrow> classify s))"

section \<open>Well-formed packs\<close>

definition pack_ok :: "string \<Rightarrow> item \<Rightarrow> bool" where
  "pack_ok pid it \<longleftrightarrow>
     coerce_pack it \<noteq> None \<and> str_attr ''pack_id'' it = Some pid \<and>
     (\<exists>s \<in> set (''pending'' # ''claimed'' # resolved_statuses). str_attr ''status'' it = Some s)"

definition pack_inv :: "table \<Rightarrow> bool" where
  "pack_inv t \<longleftrightarrow> wf_table t \<and> (\<forall>pid it. get_pack_item t pid = Some it \<longrightarrow> pack_ok pid it)"

text \<open>The attributes that make an item a pack; no update of a pack touches them.\<close>

definition base_attrs :: "string list" where
  "base_attrs = [''pack_id'', ''campaign_id'', ''recipient_hash'', ''content_hash'', ''send_at'', ''key_id'', ''enqueued_at'']"

lemma pack_key_inject [simp]: "pack_key a = pack_key b \<longleftrightarrow> a = b"
  by (simp add: pack_key_def)

lemma coerce_pack_iff:
  "coerce_pack it \<noteq> None \<longleftrightarrow>
     str_attr ''pack_id'' it \<noteq> None \<and> int_attr ''campaign_id'' it \<noteq> None \<and>
     str_attr ''recipient_hash'' it \<noteq> None \<and> str_attr ''content_hash'' it \<noteq> None \<and>
     str_attr ''send_at'' it \<noteq> None \<and> str_attr ''key_id'' it \<noteq> None \<and> str_attr ''status'' it \<noteq> None"
  by (auto simp: coerce_pack_def split: Option.bind_splits)

lemma coerce_pack_Some:
  "coerce_pack it = Some p \<Longrightarrow> str_attr ''pack_id'' it = Some (pk_id p) \<and> str_attr ''status'' it = Some (pk_status p)
     \<and> str_attr ''send_at'' it = Some (pk_send_at p) \<and> pk_payload p = bytes_attr ''encrypted_payload'' it
     \<and> pk_resolved_at p = str_attr ''resolved_at'' it \<and> pk_enqueued_at p = str_attr_or ''enqueued_at'' [] it
     \<and> pk_claimed_at p = str_attr ''claimed_at'' it"
  by (auto simp: coerce_pack_def split: Option.bind_splits)

lemma status_updated:
  "str_attr a (set_attrs it sets) =
     (case map_of (rev sets) a of None \<Rightarrow> str_attr a it | Some (AStr s) \<Rightarrow> Some s | Some _ \<Rightarrow> None)"
  by (simp add: str_attr_def map_of_set_attrs split: option.splits attr.splits)

lemma int_updated:
  "int_attr a (set_attrs it sets) =
     (case map_of (rev sets) a of None \<Rightarrow> int_attr a it | Some (AInt s) \<Rightarrow> Some s | Some _ \<Rightarrow> None)"
  by (simp add: int_attr_def map_of_set_attrs split: option.splits attr.splits)

text \<open>An update that leaves the base attributes alone and sets a known status keeps a pack a pack.\<close>

lemma pack_ok_update:
  assumes "pack_ok pid it" "\<forall>a\<in>set base_attrs. a \<notin> fst ` set sets"
    and "map_of (rev sets) ''status'' = Some (AStr s)" "s \<in> set (''pending'' # ''claimed'' # resolved_statuses)"
  shows "pack_ok pid (set_attrs it sets)"
proof -
  have "\<forall>a\<in>set base_attrs. map_of (rev sets) a = None"
    using assms(2) by (simp add: map_of_eq_None_iff)
  then show ?thesis
    using assms unfolding pack_ok_def coerce_pack_iff
    by (simp add: status_updated int_updated base_attrs_def)
qed

section \<open>What each operation does to each pack\<close>

lemma put_pack_item:
  "put_pack now pid c rh ch sa k p pb t = Some t' \<Longrightarrow>
   get_pack_item t' q = (if q = pid then Some (new_pack_item now pid c rh ch sa k p pb) else get_pack_item t q)"
  by (auto simp: put_pack_def get_pack_item_def get_put_if)

lemma put_pack_fresh:
  "put_pack now pid c rh ch sa k p pb t = Some t' \<Longrightarrow> attr_of ''pack_id'' (get_pack_item t pid) = None"
  by (auto simp: put_pack_def put_item_if_def attr_exists_def get_pack_item_def split: if_splits)

lemma claim_pack_item:
  "claim_pack now pid t = (t', ok) \<Longrightarrow>
   get_pack_item t' q =
     (if q = pid \<and> ok
      then Some (set_attrs (item_or_new (get_pack_item t pid)) [(''status'', AStr ''claimed''), (''claimed_at'', AStr (iso now))])
      else get_pack_item t q)"
  by (auto simp: claim_pack_def get_pack_item_def get_update_if split: option.splits)

lemma claim_pack_ok:
  "claim_pack now pid t = (t', ok) \<Longrightarrow> ok \<longleftrightarrow> attr_eq ''status'' (AStr ''pending'') (get_pack_item t pid)"
  by (auto simp: claim_pack_def update_item_if_def get_pack_item_def split: option.splits if_splits)

lemma cancel_pack_item:
  "cancel_pack now pid t = (t', ok) \<Longrightarrow>
   get_pack_item t' q =
     (if q = pid \<and> ok
      then Some (set_attrs (item_or_new (get_pack_item t pid))
             [(''status'', AStr ''cancelled''), (''encrypted_payload'', ANull), (''resolved_at'', AStr (iso now))])
      else get_pack_item t q)"
  by (auto simp: cancel_pack_def get_pack_item_def get_update_if split: option.splits)

lemma cancel_pack_ok:
  "cancel_pack now pid t = (t', ok) \<Longrightarrow> ok \<longleftrightarrow> attr_eq ''status'' (AStr ''pending'') (get_pack_item t pid)"
  by (auto simp: cancel_pack_def update_item_if_def get_pack_item_def split: option.splits if_splits)

lemma expire_claim_item:
  "expire_claim now pid ca t = Some t' \<Longrightarrow>
   get_pack_item t' q =
     (if q = pid
      then Some (set_attrs (item_or_new (get_pack_item t pid))
             [(''status'', AStr ''unknown''), (''failure_reason'', AStr (stale_reason ca)),
              (''encrypted_payload'', ANull), (''resolved_at'', AStr (iso now))])
      else get_pack_item t q)"
  by (auto simp: expire_claim_def get_pack_item_def get_update_if)

lemma expire_claim_ok:
  "expire_claim now pid ca t = Some t' \<Longrightarrow>
   attr_eq ''status'' (AStr ''claimed'') (get_pack_item t pid) \<and> attr_eq ''claimed_at'' (AStr ca) (get_pack_item t pid)"
  by (auto simp: expire_claim_def update_item_if_def get_pack_item_def split: if_splits)

lemma update_pack_item:
  "get_pack_item (update_pack now pid flds t) q =
     (if q = pid \<and> stamp_resolved now flds \<noteq> []
      then Some (set_attrs (item_or_new (get_pack_item t pid)) (stamp_resolved now flds))
      else get_pack_item t q)"
  by (auto simp: update_pack_def get_pack_item_def get_update Let_def)

lemma wf_packs:
  "put_pack now pid c rh ch sa k p pb t = Some t' \<Longrightarrow> wf_table t \<Longrightarrow> wf_table t'"
  "claim_pack now pid t = (t', ok) \<Longrightarrow> wf_table t \<Longrightarrow> wf_table t'"
  "cancel_pack now pid t = (t', ok) \<Longrightarrow> wf_table t \<Longrightarrow> wf_table t'"
  "expire_claim now pid ca t = Some t' \<Longrightarrow> wf_table t \<Longrightarrow> wf_table t'"
  "wf_table t \<Longrightarrow> wf_table (update_pack now pid flds t)"
  by (auto simp: put_pack_def claim_pack_def cancel_pack_def expire_claim_def update_pack_def Let_def
      split: option.splits intro: wf_put_if wf_update_if)

lemmas pack_items = put_pack_item claim_pack_item cancel_pack_item expire_claim_item update_pack_item

section \<open>The operations as one type\<close>

datatype pack_op =
    Put int string int string string string string bytes string
  | Claim int string
  | Cancel int string
  | Finish int string "(string \<times> attr) list"
  | CancelAll int int table
  | Expire int int nat table

fun exec_pack :: "pack_op \<Rightarrow> table \<Rightarrow> table" where
  "exec_pack (Put now pid c rh ch sa k p pb) t =
     (case put_pack now pid c rh ch sa k p pb t of Some t' \<Rightarrow> t' | None \<Rightarrow> t)"
| "exec_pack (Claim now pid) t = fst (claim_pack now pid t)"
| "exec_pack (Cancel now pid) t = fst (cancel_pack now pid t)"
| "exec_pack (Finish now pid flds) t = update_pack now pid flds t"
| "exec_pack (CancelAll now c g) t = fst (cancel_pending_for_campaign now c g t)"
| "exec_pack (Expire now older limit g) t = fst (expire_stale_claims now older limit g t)"

text \<open>
  What the callers of \<open>update_pack\<close> observe: only a dispatcher that has claimed the pack calls
  it, with an outcome status; its claim may have expired meanwhile. The other operations
  need no permission, their conditions are in the request itself.
\<close>

definition outcome_fields :: "(string \<times> attr) list \<Rightarrow> bool" where
  "outcome_fields flds \<longleftrightarrow> distinct (map fst flds) \<and>
     (\<forall>a\<in>set base_attrs. a \<notin> fst ` set flds) \<and> ''resolved_at'' \<notin> fst ` set flds \<and>
     (\<exists>s\<in>outcomes. map_of flds ''status'' = Some (AStr s))"

fun pack_op_ok :: "pack_op \<Rightarrow> table \<Rightarrow> bool" where
  "pack_op_ok (Finish now pid flds) t =
     (pstate_of t pid \<in> {Claimed, Resolved ''unknown''} \<and> outcome_fields flds)"
| "pack_op_ok _ t = True"

lemma map_of_rev: "distinct (map fst xs) \<Longrightarrow> map_of (rev xs) = map_of xs"
  by (simp add: map_of_inject_set rev_map [symmetric])

lemma outcomes_resolved: "s \<in> outcomes \<Longrightarrow> s \<in> set resolved_statuses"
  by (auto simp: outcomes_def resolved_statuses_def)

lemma classify_outcome: "s \<in> outcomes \<Longrightarrow> classify s = Resolved s"
  by (auto simp: outcomes_def classify_def)

lemma classify_simps [simp]:
  "classify ''pending'' = Pending" "classify ''claimed'' = Claimed"
  "classify ''cancelled'' = Resolved ''cancelled''" "classify ''unknown'' = Resolved ''unknown''"
  by (simp_all add: classify_def)

lemma classify_eq: "classify s = Pending \<longleftrightarrow> s = ''pending''" "classify s = Claimed \<longleftrightarrow> s = ''claimed''"
  "classify s \<noteq> Absent" "classify s = Resolved r \<Longrightarrow> s = r"
  by (auto simp: classify_def split: if_splits)

lemma pstate_pending:
  "pack_inv t \<Longrightarrow> attr_eq ''status'' (AStr ''pending'') (get_pack_item t pid) \<longleftrightarrow> pstate_of t pid = Pending"
  by (auto simp: attr_eq_def attr_of_def pstate_of_def str_attr_def classify_eq split: option.splits attr.splits)

lemma pstate_claimed:
  "attr_eq ''status'' (AStr ''claimed'') (get_pack_item t pid) \<longleftrightarrow> pstate_of t pid = Claimed"
  by (auto simp: attr_eq_def attr_of_def pstate_of_def str_attr_def classify_eq split: option.splits attr.splits)

lemma pstate_absent: "pack_inv t \<Longrightarrow> pstate_of t pid = Absent \<longleftrightarrow> get_pack_item t pid = None"
  by (fastforce simp: pstate_of_def pack_inv_def pack_ok_def classify_eq split: option.splits)

lemma pack_inv_item: "pack_inv t \<Longrightarrow> get_pack_item t pid = Some it \<Longrightarrow> pack_ok pid it"
  by (simp add: pack_inv_def)

lemma pack_invI:
  "pack_inv t \<Longrightarrow> wf_table t' \<Longrightarrow> (\<And>q. q \<noteq> pid \<Longrightarrow> get_pack_item t' q = get_pack_item t q) \<Longrightarrow>
   (\<And>it. get_pack_item t' pid = Some it \<Longrightarrow> pack_ok pid it) \<Longrightarrow> pack_inv t'"
  by (metis pack_inv_def)

lemma pstate_other: "get_pack_item t' q = get_pack_item t q \<Longrightarrow> pstate_of t' q = pstate_of t q"
  by (simp add: pstate_of_def)

section \<open>Each operation keeps the invariant and follows the specification\<close>

lemma update_step:
  assumes inv: "pack_inv t" and wf: "wf_table t'"
    and items: "\<And>q. get_pack_item t' q =
      (if q = pid then Some (set_attrs (item_or_new (get_pack_item t pid)) sets) else get_pack_item t q)"
    and there: "get_pack_item t pid \<noteq> None"
    and base: "\<forall>a\<in>set base_attrs. a \<notin> fst ` set sets"
    and st: "map_of (rev sets) ''status'' = Some (AStr s)" "s \<in> set (''pending'' # ''claimed'' # resolved_statuses)"
  shows "pack_inv t'" and "pstate_of t' q = (if q = pid then classify s else pstate_of t q)"
proof -
  obtain it where it: "get_pack_item t pid = Some it" using there by auto
  have ok: "pack_ok pid (set_attrs it sets)"
    using pack_inv_item [OF inv it] base st by (rule pack_ok_update)
  show "pack_inv t'"
    using inv wf by (rule pack_invI [of _ _ pid]) (auto simp: items it item_or_new_def ok)
  show "pstate_of t' q = (if q = pid then classify s else pstate_of t q)"
    using st by (simp add: pstate_of_def items it item_or_new_def status_updated)
qed

lemma put_step:
  assumes inv: "pack_inv t" and put: "put_pack now pid c rh ch sa k p pb t = Some t'"
  shows "pack_inv t'" and "pstate_of t' q = (if q = pid then Pending else pstate_of t q)"
    and "pstate_of t pid = Absent"
proof -
  have new: "pack_ok pid (new_pack_item now pid c rh ch sa k p pb)"
    unfolding pack_ok_def coerce_pack_iff
    by (simp add: new_pack_item_def str_attr_def int_attr_def)
  show "pack_inv t'"
    using inv wf_packs(1) [OF put] by (rule pack_invI [of _ _ pid]) (use inv new in \<open>auto simp: put_pack_item [OF put] pack_inv_def\<close>)
  show "pstate_of t' q = (if q = pid then Pending else pstate_of t q)"
    by (simp add: pstate_of_def put_pack_item [OF put] new_pack_item_def str_attr_def)
  have "get_pack_item t pid = None"
    using put_pack_fresh [OF put] pack_inv_item [OF inv, of pid]
    by (cases "get_pack_item t pid") (auto simp: attr_of_def pack_ok_def str_attr_def)
  then show "pstate_of t pid = Absent" by (simp add: pstate_of_def)
qed

lemma put_refused:
  "pack_inv t \<Longrightarrow> put_pack now pid c rh ch sa k p pb t = None \<longleftrightarrow> pstate_of t pid \<noteq> Absent"
proof -
  assume inv: "pack_inv t"
  have "put_pack now pid c rh ch sa k p pb t = None \<longleftrightarrow> attr_of ''pack_id'' (get_pack_item t pid) \<noteq> None"
    by (simp add: put_pack_def put_item_if_def attr_exists_def get_pack_item_def)
  also have "\<dots> \<longleftrightarrow> get_pack_item t pid \<noteq> None"
    using pack_inv_item [OF inv, of pid]
    by (cases "get_pack_item t pid") (auto simp: attr_of_def pack_ok_def str_attr_def split: option.splits)
  finally show ?thesis using pstate_absent [OF inv] by simp
qed

lemma pstate_present: "pstate_of t pid = Pending \<or> pstate_of t pid = Claimed \<or> pstate_of t pid = Resolved s \<Longrightarrow> get_pack_item t pid \<noteq> None"
  by (auto simp: pstate_of_def split: option.splits)

lemma claim_step:
  assumes inv: "pack_inv t" and op: "claim_pack now pid t = (t', ok)"
  shows "pack_inv t'" and "pstate_of t' q = (if q = pid \<and> ok then Claimed else pstate_of t q)"
    and "ok \<longleftrightarrow> pstate_of t pid = Pending"
proof -
  show ok: "ok \<longleftrightarrow> pstate_of t pid = Pending"
    using claim_pack_ok [OF op] pstate_pending [OF inv] by simp
  have wf: "wf_table t'" using inv wf_packs(2) [OF op] by (simp add: pack_inv_def)
  have "pack_inv t' \<and> pstate_of t' q = (if q = pid \<and> ok then Claimed else pstate_of t q)"
  proof (cases ok)
    case False
    then have same: "get_pack_item t' q = get_pack_item t q" for q using claim_pack_item [OF op] by simp
    with False inv wf show ?thesis by (simp add: pack_inv_def pstate_of_def)
  next
    case True
    with ok have "get_pack_item t pid \<noteq> None" by (simp add: pstate_present)
    note st = update_step [OF inv wf _ this, where s = "''claimed''" and
        sets = "[(''status'', AStr ''claimed''), (''claimed_at'', AStr (iso now))]"]
    show ?thesis
      using True claim_pack_item [OF op] st(1) st(2) [of q] by (simp add: base_attrs_def)
  qed
  then show "pack_inv t'" and "pstate_of t' q = (if q = pid \<and> ok then Claimed else pstate_of t q)"
    by simp_all
qed

lemma cancel_step:
  assumes inv: "pack_inv t" and op: "cancel_pack now pid t = (t', ok)"
  shows "pack_inv t'" and "pstate_of t' q = (if q = pid \<and> ok then Resolved ''cancelled'' else pstate_of t q)"
    and "ok \<longleftrightarrow> pstate_of t pid = Pending"
proof -
  show ok: "ok \<longleftrightarrow> pstate_of t pid = Pending"
    using cancel_pack_ok [OF op] pstate_pending [OF inv] by simp
  have wf: "wf_table t'" using inv wf_packs(3) [OF op] by (simp add: pack_inv_def)
  have "pack_inv t' \<and> pstate_of t' q = (if q = pid \<and> ok then Resolved ''cancelled'' else pstate_of t q)"
  proof (cases ok)
    case False
    then have same: "get_pack_item t' q = get_pack_item t q" for q using cancel_pack_item [OF op] by simp
    with False inv wf show ?thesis by (simp add: pack_inv_def pstate_of_def)
  next
    case True
    with ok have "get_pack_item t pid \<noteq> None" by (simp add: pstate_present)
    note st = update_step [OF inv wf _ this, where s = "''cancelled''" and
        sets = "[(''status'', AStr ''cancelled''), (''encrypted_payload'', ANull), (''resolved_at'', AStr (iso now))]"]
    show ?thesis
      using True cancel_pack_item [OF op] st(1) st(2) [of q] by (simp add: base_attrs_def resolved_statuses_def)
  qed
  then show "pack_inv t'" and "pstate_of t' q = (if q = pid \<and> ok then Resolved ''cancelled'' else pstate_of t q)"
    by simp_all
qed

lemma expire_step:
  assumes inv: "pack_inv t" and op: "expire_claim now pid ca t = Some t'"
  shows "pack_inv t'" and "pstate_of t' q = (if q = pid then Resolved ''unknown'' else pstate_of t q)"
    and "pstate_of t pid = Claimed"
proof -
  show cl: "pstate_of t pid = Claimed" using expire_claim_ok [OF op] by (simp add: pstate_claimed)
  have wf: "wf_table t'" using inv wf_packs(4) [OF op] by (simp add: pack_inv_def)
  from cl have "get_pack_item t pid \<noteq> None" by (simp add: pstate_present)
  note st = update_step [OF inv wf expire_claim_item [OF op] this, where s = "''unknown''"]
  show "pack_inv t'" by (rule st(1)) (auto simp: base_attrs_def resolved_statuses_def)
  show "pstate_of t' q = (if q = pid then Resolved ''unknown'' else pstate_of t q)"
    using st(2) [of q] by (simp add: base_attrs_def resolved_statuses_def)
qed

lemma finish_step:
  assumes inv: "pack_inv t" and ok: "pack_op_ok (Finish now pid flds) t"
    and s: "map_of flds ''status'' = Some (AStr s)"
  shows "pack_inv (update_pack now pid flds t)"
    and "pstate_of (update_pack now pid flds t) q = (if q = pid then Resolved s else pstate_of t q)"
    and "s \<in> outcomes"
proof -
  show so: "s \<in> outcomes" using ok s by (auto simp: outcome_fields_def)
  have flds: "distinct (map fst flds)" "\<forall>a\<in>set base_attrs. a \<notin> fst ` set flds" "''resolved_at'' \<notin> fst ` set flds"
    using ok by (auto simp: outcome_fields_def)
  then have stamp: "stamp_resolved now flds = flds @ [(''resolved_at'', AStr (iso now))]"
    using s outcomes_resolved [OF so] by (auto simp: stamp_resolved_def map_of_eq_None_iff)
  have "map_of (rev (stamp_resolved now flds)) ''status'' = Some (AStr s)"
    using flds s by (simp add: stamp map_of_rev)
  moreover have "get_pack_item t pid \<noteq> None" using ok pstate_present [of t pid "''unknown''"] by auto
  moreover have "\<forall>a\<in>set base_attrs. a \<notin> fst ` set (stamp_resolved now flds)"
    using flds by (simp add: stamp base_attrs_def)
  moreover have "wf_table (update_pack now pid flds t)" using inv by (simp add: pack_inv_def wf_packs)
  moreover have "get_pack_item (update_pack now pid flds t) q =
      (if q = pid then Some (set_attrs (item_or_new (get_pack_item t pid)) (stamp_resolved now flds)) else get_pack_item t q)" for q
    by (simp add: update_pack_item stamp)
  ultimately show "pack_inv (update_pack now pid flds t)"
    and "pstate_of (update_pack now pid flds t) q = (if q = pid then Resolved s else pstate_of t q)"
    using update_step [OF inv, of "update_pack now pid flds t" pid "stamp_resolved now flds" s]
      outcomes_resolved [OF so] classify_outcome [OF so] by auto
qed

definition newly :: "pstate \<Rightarrow> pstate \<Rightarrow> table \<Rightarrow> table \<Rightarrow> string set" where
  "newly a b t t' = {q. pstate_of t q = a \<and> pstate_of t' q = b}"

lemma newly_refl [simp]: "a \<noteq> b \<Longrightarrow> newly a b t t = {}"
  by (auto simp: newly_def)

lemma step_or_same: "b = a \<or> r a b \<Longrightarrow> rtranclp r a b"
  by auto

text \<open>A loop of conditional writes: other packs are unchanged and the count is exact.\<close>

lemma cancel_each_step:
  "pack_inv t \<Longrightarrow> cancel_each now its t n = (t', r) \<Longrightarrow>
   pack_inv t' \<and>
   (\<forall>q. pstate_of t' q = pstate_of t q \<or> pstate_of t q = Pending \<and> pstate_of t' q = Resolved ''cancelled'') \<and>
   finite (newly Pending (Resolved ''cancelled'') t t') \<and>
   (\<forall>m. r = Some m \<longrightarrow> m = n + card (newly Pending (Resolved ''cancelled'') t t') \<and>
      (\<forall>it\<in>set its. \<forall>pid. str_attr ''pack_id'' it = Some pid \<longrightarrow> pstate_of t' pid \<noteq> Pending))"
proof (induction its arbitrary: t n)
  case Nil
  then show ?case by auto
next
  case (Cons it its)
  show ?case
  proof (cases "str_attr ''pack_id'' it")
    case None
    with Cons.prems show ?thesis by auto
  next
    case (Some pid)
    obtain t1 ok where c: "cancel_pack now pid t = (t1, ok)" by fastforce
    note st = cancel_step [OF Cons.prems(1) c]
    have "cancel_each now its t1 (if ok then Suc n else n) = (t', r)"
      using Cons.prems(2) Some c by simp
    note IH = Cons.IH [OF st(1) this]
    let ?N = "newly Pending (Resolved ''cancelled'')"
    have split: "?N t t' = (if ok then insert pid (?N t1 t') else ?N t1 t')"
      using IH st(2,3) by (auto simp: newly_def split: if_splits)
    have "pid \<notin> ?N t1 t'" if ok using that st(2) by (simp add: newly_def)
    moreover have "pstate_of t' pid \<noteq> Pending"
    proof -
      have "pstate_of t1 pid \<noteq> Pending" using st(2,3) by (cases ok) simp_all
      with IH show ?thesis by metis
    qed
    ultimately show ?thesis using IH st(2,3) Some unfolding split by (auto split: if_splits; metis)
  qed
qed

lemma expire_each_step:
  "pack_inv t \<Longrightarrow> expire_each now limit its t n = (t', r) \<Longrightarrow>
   pack_inv t' \<and>
   (\<forall>q. pstate_of t' q = pstate_of t q \<or> pstate_of t q = Claimed \<and> pstate_of t' q = Resolved ''unknown'')"
proof (induction its arbitrary: t n)
  case Nil
  then show ?case by simp
next
  case (Cons it its)
  show ?case
  proof (cases "limit \<le> n \<or> str_attr ''pack_id'' it = None \<or> str_attr ''claimed_at'' it = None")
    case True
    with Cons.prems show ?thesis by (auto split: option.splits if_splits)
  next
    case False
    then obtain pid ca where pc: "str_attr ''pack_id'' it = Some pid" "str_attr ''claimed_at'' it = Some ca" "\<not> limit \<le> n"
      by auto
    show ?thesis
    proof (cases "expire_claim now pid ca t")
      case None
      with Cons pc show ?thesis by simp
    next
      case (Some t1)
      note st = expire_step [OF Cons.prems(1) Some]
      from Cons.prems(2) pc Some have "expire_each now limit its t1 (Suc n) = (t', r)" by simp
      note IH = Cons.IH [OF st(1) this]
      then show ?thesis using st(2,3) by (metis pstate.distinct(9))
    qed
  qed
qed

text \<open>The life of every pack, over any sequence of permitted operations.\<close>

interpretation packs: lifecycle exec_pack pack_op_ok pack_inv pstate_of pack_step
proof unfold_locales
  fix t op
  assume inv: "pack_inv t" and ok: "pack_op_ok op t"
  have "pack_inv (exec_pack op t) \<and> (\<forall>k. rtranclp pack_step (pstate_of t k) (pstate_of (exec_pack op t) k))"
  proof (cases op)
    case (Put now pid c rh ch sa k p pb)
    then show ?thesis
      using inv put_step [OF inv, of now pid c rh ch sa k p pb]
      by (cases "put_pack now pid c rh ch sa k p pb t") (auto intro: pack_step.intros)
  next
    case (Claim now pid)
    obtain t' ok where c: "claim_pack now pid t = (t', ok)" by fastforce
    note st = claim_step [OF inv c]
    have "pstate_of t' k = pstate_of t k \<or> pack_step (pstate_of t k) (pstate_of t' k)" for k
      using st(2) [of k] st(3) by auto
    then show ?thesis using Claim c st(1) by (auto intro: step_or_same)
  next
    case (Cancel now pid)
    obtain t' ok where c: "cancel_pack now pid t = (t', ok)" by fastforce
    note st = cancel_step [OF inv c]
    have "pstate_of t' k = pstate_of t k \<or> pack_step (pstate_of t k) (pstate_of t' k)" for k
      using st(2) [of k] st(3) by auto
    then show ?thesis using Cancel c st(1) by (auto intro: step_or_same)
  next
    case (Finish now pid flds)
    with ok obtain s where s: "map_of flds ''status'' = Some (AStr s)" "s \<in> outcomes"
      and st: "pstate_of t pid = Claimed \<or> pstate_of t pid = Resolved ''unknown''"
      by (auto simp: outcome_fields_def)
    then have "pack_step (pstate_of t pid) (Resolved s)" by auto
    with Finish finish_step [OF inv, of now pid flds s] ok s show ?thesis by auto
  next
    case (CancelAll now c g)
    show ?thesis
    proof (cases "cancel_pending_for_campaign now c g t")
      case (Pair t' r)
      note st = cancel_each_step [OF inv Pair [unfolded cancel_pending_for_campaign_def]]
      then have "pstate_of t' k = pstate_of t k \<or> pack_step (pstate_of t k) (pstate_of t' k)" for k
        by (metis pack_step.cancel)
      then show ?thesis using CancelAll Pair st by (auto intro: step_or_same)
    qed
  next
    case (Expire now older limit g)
    show ?thesis
    proof (cases "expire_stale_claims now older limit g t")
      case (Pair t' r)
      note st = expire_each_step [OF inv Pair [unfolded expire_stale_claims_def]]
      have "''unknown'' \<in> outcomes" by (simp add: outcomes_def)
      with st have "pstate_of t' k = pstate_of t k \<or> pack_step (pstate_of t k) (pstate_of t' k)" for k
        by (metis pack_step.outcome)
      then show ?thesis using Expire Pair st by (auto intro: step_or_same)
    qed
  qed
  then show "pack_inv (exec_pack op t)"
    and "rtranclp pack_step (pstate_of t k) (pstate_of (exec_pack op t) k)" for k
    by simp_all
qed

section \<open>The order of the states\<close>

text \<open>What can follow what is a partial order: the library's order automation applies to the states of a pack.\<close>

definition pstate_rank :: "pstate \<Rightarrow> nat" where
  "pstate_rank s =
     (case s of Absent \<Rightarrow> 0 | Pending \<Rightarrow> 1 | Claimed \<Rightarrow> 2 | Resolved r \<Rightarrow> if r = ''unknown'' then 3 else 4)"

lemma pack_path_rank: "rtranclp pack_step a b \<Longrightarrow> a = b \<or> pstate_rank a < pstate_rank b"
proof (induction rule: rtranclp_induct)
  case (step b c)
  then have "b = c \<or> pstate_rank b < pstate_rank c" by (auto simp: pstate_rank_def elim!: pack_step.cases split: if_splits)
  with step.IH show ?case by auto
qed simp

instantiation pstate :: order
begin

definition less_eq_pstate :: "pstate \<Rightarrow> pstate \<Rightarrow> bool" where
  "less_eq_pstate a b \<longleftrightarrow> rtranclp pack_step a b"

definition less_pstate :: "pstate \<Rightarrow> pstate \<Rightarrow> bool" where
  "less_pstate a b \<longleftrightarrow> a \<le> b \<and> a \<noteq> b"

instance
proof
  fix a b c :: pstate
  show antisym: "a \<le> b \<Longrightarrow> b \<le> a \<Longrightarrow> a = b"
    using pack_path_rank [of a b] pack_path_rank [of b a] by (auto simp: less_eq_pstate_def)
  show "a \<le> a" by (simp add: less_eq_pstate_def)
  show "a \<le> b \<Longrightarrow> b \<le> c \<Longrightarrow> a \<le> c" by (simp add: less_eq_pstate_def)
  show "a < b \<longleftrightarrow> a \<le> b \<and> \<not> b \<le> a"
    using pack_path_rank [of a b] pack_path_rank [of b a] by (auto simp: less_pstate_def less_eq_pstate_def)
qed

end

lemma packs_ascend:
  "pack_inv t \<Longrightarrow> permitted exec_pack pack_op_ok ops t \<Longrightarrow> pstate_of t pid \<le> pstate_of (run exec_pack ops t) pid"
  by (simp add: less_eq_pstate_def packs.run_refines)

text \<open>A pack that ends in a state it once was in never left it in between: no operation takes a claim, a cancellation or an
  outcome back.\<close>

theorem pack_never_returns:
  assumes "pack_inv t" "permitted exec_pack pack_op_ok (ops1 @ ops2) t"
    and "pstate_of (run exec_pack (ops1 @ ops2) t) pid = pstate_of t pid"
  shows "pstate_of (run exec_pack ops1 t) pid = pstate_of t pid"
proof -
  have "permitted exec_pack pack_op_ok ops1 t" "permitted exec_pack pack_op_ok ops2 (run exec_pack ops1 t)"
    using assms(2) by (induction ops1 arbitrary: t) auto
  then have "pstate_of t pid \<le> pstate_of (run exec_pack ops1 t) pid"
    "pstate_of (run exec_pack ops1 t) pid \<le> pstate_of (run exec_pack (ops1 @ ops2) t) pid"
    using packs_ascend packs.inv_run assms(1) by (auto simp: run_append)
  then show ?thesis using assms(3) by (simp add: order.antisym)
qed

end
