(* ===== verification/Cloud_Keys.thy ===== *)
theory Cloud_Keys
  imports Dynamo_Table
begin

text \<open>
  The life of the temporary key (cloud/keys_dynamo.py): one item per key under its id, an
  active pointer, and an expiry that every read checks. The hash that names a key is the
  argument \<open>sha\<close> (\<open>hashlib.sha256(k).hexdigest()\<close>); clock readings are arguments.
  \<open>None\<close> where a result has type \<open>_ option option\<close> on the outside is the \<open>KeyError\<close> of a
  stored item without its attributes.
\<close>

definition valid_ttls :: "int list" where
  "valid_ttls = [3600, 86400, 604800]"

definition key_id_of :: "(bytes \<Rightarrow> string) \<Rightarrow> bytes \<Rightarrow> string" where
  "key_id_of sha k = take 8 (sha k)"

definition ktemp_key :: "string \<Rightarrow> string" where
  "ktemp_key kid = ''KTEMP#'' @ kid"

definition active_pointer :: "table \<Rightarrow> item option" where
  "active_pointer t = get_item t ''KTEMP_ACTIVE'' ''KTEMP_ACTIVE''"

text \<open>The pointer's key id, where it is present and not empty.\<close>

definition active_id :: "table \<Rightarrow> string option" where
  "active_id t =
     (case active_pointer t of None \<Rightarrow> None
      | Some ptr \<Rightarrow> (case str_attr ''key_id'' ptr of None \<Rightarrow> None
                    | Some kid \<Rightarrow> if kid = [] then None else Some kid))"

definition wipe_k_temp :: "table \<Rightarrow> table" where
  "wipe_k_temp t =
     delete_item ''KTEMP_ACTIVE'' ''KTEMP_ACTIVE''
       (case active_id t of Some kid \<Rightarrow> delete_item (ktemp_key kid) (ktemp_key kid) t | None \<Rightarrow> t)"

definition fetch_ktemp :: "int \<Rightarrow> string \<Rightarrow> table \<Rightarrow> table \<times> bytes option option" where
  "fetch_ktemp now kid t =
     (case get_item t (ktemp_key kid) (ktemp_key kid) of
        None \<Rightarrow> (t, Some None)
      | Some it \<Rightarrow>
          (case int_attr ''expires_at'' it of
             None \<Rightarrow> (t, None)
           | Some e \<Rightarrow>
               if e < now then (wipe_k_temp t, Some None)
               else (case bytes_attr ''key_bytes'' it of None \<Rightarrow> (t, None) | Some k \<Rightarrow> (t, Some (Some k)))))"

definition get_active_k_temp :: "int \<Rightarrow> table \<Rightarrow> table \<times> bytes option option" where
  "get_active_k_temp now t =
     (case active_id t of None \<Rightarrow> (t, Some None) | Some kid \<Rightarrow> fetch_ktemp now kid t)"

record key_meta =
  km_key_id :: string
  km_set_at :: int
  km_set_by :: string
  km_expires_at :: int
  km_ttl_seconds :: int

definition set_k_temp ::
  "(bytes \<Rightarrow> string) \<Rightarrow> int \<Rightarrow> bytes \<Rightarrow> int \<Rightarrow> string \<Rightarrow> table \<Rightarrow> exc + (table \<times> key_meta)" where
  "set_k_temp sha now k ttl set_by t =
     (if length k \<noteq> 32 then Inl (ValueError ''K_temp must be 32 bytes'')
      else if ttl \<notin> set valid_ttls then Inl (TTLViolation ''ttl_seconds'')
      else if set_by \<noteq> ''operator'' \<and> set_by \<noteq> ''client'' then Inl (ValueError ''set_by must be operator or client'')
      else
        (let kid = key_id_of sha k;
             t1 = put_item (ktemp_key kid) (ktemp_key kid)
                    [(''key_id'', AStr kid), (''key_bytes'', ABytes k), (''expires_at'', AInt (now + ttl)),
                     (''ttl'', AInt (now + ttl)), (''set_at'', AInt now), (''set_by'', AStr set_by),
                     (''ttl_seconds'', AInt ttl)] t;
             t2 = put_item ''KTEMP_ACTIVE'' ''KTEMP_ACTIVE''
                    [(''key_id'', AStr kid), (''set_at'', AStr (iso now))] t1
         in Inr (t2, \<lparr>km_key_id = kid, km_set_at = now, km_set_by = set_by,
                     km_expires_at = now + ttl, km_ttl_seconds = ttl\<rparr>)))"

record key_status =
  ks_key_id :: string
  ks_set_by :: "string option"
  ks_set_at :: "int option"
  ks_expires_at :: int
  ks_remaining :: int
  ks_ttl_seconds :: int

text \<open>\<open>Some None\<close> is \<open>{"present": False}\<close>.\<close>

definition k_temp_status :: "int \<Rightarrow> table \<Rightarrow> key_status option option" where
  "k_temp_status now t =
     (case active_id t of None \<Rightarrow> Some None
      | Some kid \<Rightarrow>
          (case get_item t (ktemp_key kid) (ktemp_key kid) of None \<Rightarrow> Some None
           | Some it \<Rightarrow>
               (case int_attr ''expires_at'' it of None \<Rightarrow> None
                | Some e \<Rightarrow>
                    if e < now then Some None
                    else (case str_attr ''key_id'' it of None \<Rightarrow> None
                          | Some k \<Rightarrow>
                              Some (Some \<lparr>ks_key_id = k, ks_set_by = str_attr ''set_by'' it,
                                ks_set_at = int_attr ''set_at'' it, ks_expires_at = e,
                                ks_remaining = max 0 (e - now),
                                ks_ttl_seconds = (case int_attr ''ttl_seconds'' it of Some s \<Rightarrow> s | None \<Rightarrow> 0)\<rparr>)))))"

section \<open>Lemmas\<close>

lemma ktemp_key_neq [simp]: "ktemp_key kid \<noteq> ''KTEMP_ACTIVE''" "''KTEMP_ACTIVE'' \<noteq> ktemp_key kid"
  by (simp_all add: ktemp_key_def)

lemma ktemp_key_inject [simp]: "ktemp_key a = ktemp_key b \<longleftrightarrow> a = b"
  by (simp add: ktemp_key_def)

lemma set_k_temp_cases:
  assumes "set_k_temp sha now k ttl sb t = Inr (t', m)"
  shows "length k = 32" "ttl \<in> set valid_ttls" "sb \<in> {''operator'', ''client''}"
    and "active_pointer t' = Some [(''key_id'', AStr (key_id_of sha k)), (''set_at'', AStr (iso now))]"
    and "get_item t' (ktemp_key (key_id_of sha k)) (ktemp_key (key_id_of sha k)) =
      Some [(''key_id'', AStr (key_id_of sha k)), (''key_bytes'', ABytes k), (''expires_at'', AInt (now + ttl)),
            (''ttl'', AInt (now + ttl)), (''set_at'', AInt now), (''set_by'', AStr sb), (''ttl_seconds'', AInt ttl)]"
    and "m = \<lparr>km_key_id = key_id_of sha k, km_set_at = now, km_set_by = sb, km_expires_at = now + ttl, km_ttl_seconds = ttl\<rparr>"
  using assms
  by (auto simp: set_k_temp_def Let_def active_pointer_def get_put split: if_splits)

lemma wipe_clears: "active_id (wipe_k_temp t) = None"
  by (simp add: wipe_k_temp_def active_id_def active_pointer_def get_delete)

lemma wipe_deletes_key:
  "active_id t = Some kid \<Longrightarrow> get_item (wipe_k_temp t) (ktemp_key kid) (ktemp_key kid) = None"
  by (simp add: wipe_k_temp_def get_delete)

lemma wipe_other:
  "p \<noteq> ''KTEMP_ACTIVE'' \<Longrightarrow> \<forall>kid. p \<noteq> ktemp_key kid \<Longrightarrow> get_item (wipe_k_temp t) p s = get_item t p s"
  by (simp add: wipe_k_temp_def get_delete split: option.splits)

lemma get_active_no_pointer [simp]: "active_id t = None \<Longrightarrow> get_active_k_temp now t = (t, Some None)"
  by (simp add: get_active_k_temp_def)

lemma active_after_set:
  assumes "set_k_temp sha now k ttl sb t = Inr (t', m)" "sha k \<noteq> []"
  shows "active_id t' = Some (key_id_of sha k)"
  using set_k_temp_cases [OF assms(1)] assms(2)
  by (simp add: active_id_def str_attr_def key_id_of_def)

lemma get_active_frame:
  "get_active_k_temp now t = (t', r) \<Longrightarrow> p \<noteq> ''KTEMP_ACTIVE'' \<Longrightarrow> \<forall>kid. p \<noteq> ktemp_key kid \<Longrightarrow>
   get_item t' p s = get_item t p s"
  by (auto simp: get_active_k_temp_def fetch_ktemp_def wipe_other split: option.splits if_splits)

lemma wf_wipe [simp]: "wf_table t \<Longrightarrow> wf_table (wipe_k_temp t)"
  by (simp add: wipe_k_temp_def split: option.splits)

lemma wf_get_active: "get_active_k_temp now t = (t', r) \<Longrightarrow> wf_table t \<Longrightarrow> wf_table t'"
  by (auto simp: get_active_k_temp_def fetch_ktemp_def split: option.splits if_splits)

section \<open>Properties\<close>

text \<open>C9: A key stored with a time to live is returned by every read up to and including the
  second it expires and by none after it: past the expiry the read answers \<open>None\<close>, deletes
  the key and its pointer, and every later read answers \<open>None\<close> too.\<close>

theorem k_temp_window:
  assumes set: "set_k_temp sha now k ttl sb t = Inr (t', m)" and id: "sha k \<noteq> []"
  shows "(if later \<le> now + ttl then get_active_k_temp later t' = (t', Some (Some k))
          else snd (get_active_k_temp later t') = Some None \<and>
            get_item (fst (get_active_k_temp later t')) (ktemp_key (km_key_id m)) (ktemp_key (km_key_id m)) = None \<and>
            get_active_k_temp later2 (fst (get_active_k_temp later t')) = (fst (get_active_k_temp later t'), Some None))"
proof -
  note c = set_k_temp_cases [OF set] and a = active_after_set [OF set id]
  have "get_active_k_temp later t' = (if later \<le> now + ttl then (t', Some (Some k)) else (wipe_k_temp t', Some None))"
    using c(5) a by (simp add: get_active_k_temp_def fetch_ktemp_def int_attr_def bytes_attr_def)
  then show ?thesis using a c(6) by (auto simp: wipe_clears wipe_deletes_key)
qed

theorem k_temp_window_witness:
  "snd (get_active_k_temp 1003600 (fst (projr (set_k_temp (\<lambda>_. ''0123456789abcdef'') 1000000 (replicate 32 CHR ''k'') 3600 ''operator'' []))))
     = Some (Some (replicate 32 CHR ''k''))
   \<and> snd (get_active_k_temp 1003601 (fst (projr (set_k_temp (\<lambda>_. ''0123456789abcdef'') 1000000 (replicate 32 CHR ''k'') 3600 ''operator'' []))))
     = Some None"
proof -
  let ?r = "set_k_temp (\<lambda>_. ''0123456789abcdef'') 1000000 (replicate 32 CHR ''k'') 3600 ''operator'' []"
  have "?r = Inr (fst (projr ?r), snd (projr ?r))"
    by (simp add: set_k_temp_def valid_ttls_def Let_def)
  from k_temp_window [OF this, of 1003600] k_temp_window [OF this, of 1003601]
  show ?thesis by simp
qed

text \<open>The status request and the dispatcher's read agree on whether there is a key: whenever
  the status reports one present at some second, a read in that second returns a key, and
  the remaining time it reports is not negative and ends at the expiry.\<close>

theorem status_agrees_with_read:
  assumes "set_k_temp sha now k ttl sb t = Inr (t', m)" and "sha k \<noteq> []"
  shows "(\<exists>s. k_temp_status later t' = Some (Some s) \<and> ks_key_id s = km_key_id m \<and>
            0 \<le> ks_remaining s \<and> later + ks_remaining s = km_expires_at m) =
         (snd (get_active_k_temp later t') = Some (Some k))"
  using set_k_temp_cases(5,6) [OF assms(1)] active_after_set [OF assms]
  by (auto simp: k_temp_status_def get_active_k_temp_def fetch_ktemp_def int_attr_def bytes_attr_def str_attr_def)

theorem status_agrees_with_read_witness:
  "snd (get_active_k_temp 1000001 (fst (projr (set_k_temp (\<lambda>_. ''0123456789abcdef'') 1000000 (replicate 32 CHR ''k'') 3600 ''client'' []))))
     = Some (Some (replicate 32 CHR ''k''))"
proof -
  let ?r = "set_k_temp (\<lambda>_. ''0123456789abcdef'') 1000000 (replicate 32 CHR ''k'') 3600 ''client'' []"
  have r: "?r = Inr (fst (projr ?r), snd (projr ?r))"
    by (simp add: set_k_temp_def valid_ttls_def Let_def)
  have "k_temp_status 1000001 (fst (projr ?r)) = Some (Some \<lparr>ks_key_id = ''01234567'', ks_set_by = Some ''client'',
      ks_set_at = Some 1000000, ks_expires_at = 1003600, ks_remaining = 3599, ks_ttl_seconds = 3600\<rparr>)"
    by (simp add: set_k_temp_def valid_ttls_def Let_def k_temp_status_def active_id_def active_pointer_def
        get_put key_id_of_def str_attr_def int_attr_def)
  moreover have "km_key_id (snd (projr ?r)) = ''01234567''" "km_expires_at (snd (projr ?r)) = 1003600"
    by (simp_all add: set_k_temp_def valid_ttls_def Let_def key_id_of_def)
  ultimately show ?thesis using status_agrees_with_read [OF r, of 1000001] by simp
qed

end
