(* ===== verification/Base64.thy ===== *)
theory Base64
  imports Mail_Prelude
begin

text \<open>
  The \<open>base64\<close> functions of the Python standard library, as the source uses them:
  \<open>b64encode\<close>, \<open>b64decode\<close> without validation (characters outside the alphabet are
  skipped, missing padding is an error), and the unpadded URL-safe form that
  compliance_tokens.py builds from them. \<open>None\<close> is \<open>binascii.Error\<close>.
\<close>

section \<open>Encoding\<close>

definition b64_alphabet :: string where
  "b64_alphabet = ''ABCDEFGHIJKLMNOPQRSTUVWXYZabcdefghijklmnopqrstuvwxyz0123456789+/''"

definition b64_char :: "nat \<Rightarrow> char" where
  "b64_char n = b64_alphabet ! n"

definition b64_val :: "char \<Rightarrow> nat option" where
  "b64_val c = map_of (zip b64_alphabet [0..<64]) c"

definition byte :: "char \<Rightarrow> nat" where
  "byte c = of_char c"

fun b64encode :: "bytes \<Rightarrow> string" where
  "b64encode [] = []"
| "b64encode [a] = [b64_char (byte a div 4), b64_char (byte a mod 4 * 16), CHR ''='', CHR ''='']"
| "b64encode [a, b] =
     [b64_char (byte a div 4), b64_char (byte a mod 4 * 16 + byte b div 16), b64_char (byte b mod 16 * 4), CHR ''='']"
| "b64encode (a # b # c # r) =
     b64_char (byte a div 4) # b64_char (byte a mod 4 * 16 + byte b div 16) #
     b64_char (byte b mod 16 * 4 + byte c div 64) # b64_char (byte c mod 64) # b64encode r"

section \<open>Decoding\<close>

text \<open>The state of the decoder: the position in the group of four, the bits left over, the padding seen.\<close>

fun b64_scan :: "nat \<Rightarrow> nat \<Rightarrow> nat \<Rightarrow> string \<Rightarrow> bytes option" where
  "b64_scan q l p [] = (if q = 0 then Some [] else None)"
| "b64_scan q l p (c # cs) =
     (if c = CHR ''='' then
        (if 2 \<le> q then (if 4 \<le> q + Suc p then Some [] else b64_scan q l (Suc p) cs) else b64_scan q l p cs)
      else
        (case b64_val c of
           None \<Rightarrow> b64_scan q l p cs
         | Some v \<Rightarrow>
             if q = 0 then b64_scan 1 v 0 cs
             else if q = 1 then map_option (Cons (char_of (l * 4 + v div 16))) (b64_scan 2 (v mod 16) 0 cs)
             else if q = 2 then map_option (Cons (char_of (l * 16 + v div 4))) (b64_scan 3 (v mod 4) 0 cs)
             else map_option (Cons (char_of (l * 64 + v))) (b64_scan 0 0 0 cs)))"

definition b64decode :: "string \<Rightarrow> bytes option" where
  "b64decode s = b64_scan 0 0 0 s"

section \<open>The unpadded URL-safe form\<close>

definition to_urlsafe :: "char \<Rightarrow> char" where
  "to_urlsafe c = (if c = CHR ''+'' then CHR ''-'' else if c = CHR ''/'' then CHR ''_'' else c)"

definition from_urlsafe :: "char \<Rightarrow> char" where
  "from_urlsafe c = (if c = CHR ''-'' then CHR ''+'' else if c = CHR ''_'' then CHR ''/'' else c)"

definition rstrip_eq :: "string \<Rightarrow> string" where
  "rstrip_eq s = rev (dropWhile (\<lambda>c. c = CHR ''='') (rev s))"

definition b64u_encode :: "bytes \<Rightarrow> string" where
  "b64u_encode b = rstrip_eq (map to_urlsafe (b64encode b))"

definition b64u_decode :: "string \<Rightarrow> bytes option" where
  "b64u_decode s = b64decode (map from_urlsafe (s @ replicate (nat ((- int (length s)) mod 4)) CHR ''=''))"

section \<open>Round trips\<close>

lemma all_below_64: "(\<forall>n\<in>set [0..<64]. P n) \<Longrightarrow> n < 64 \<Longrightarrow> P n"
  by simp

lemma b64_val_char [simp]: "n < 64 \<Longrightarrow> b64_val (b64_char n) = Some n"
  by (rule all_below_64 [of "\<lambda>n. b64_val (b64_char n) = Some n"], code_simp)

lemma b64_char_neq [simp]: "n < 64 \<Longrightarrow> b64_char n \<noteq> CHR ''=''"
  by (rule all_below_64 [of "\<lambda>n. b64_char n \<noteq> CHR ''=''"], code_simp)

lemma urlsafe_b64_char [simp]: "n < 64 \<Longrightarrow> from_urlsafe (to_urlsafe (b64_char n)) = b64_char n"
  by (rule all_below_64 [of "\<lambda>n. from_urlsafe (to_urlsafe (b64_char n)) = b64_char n"], code_simp)

lemma urlsafe_alphabet [simp]:
  "n < 64 \<Longrightarrow> to_urlsafe (b64_char n) \<noteq> CHR ''='' \<and> to_urlsafe (b64_char n) \<noteq> CHR ''.''"
  by (rule all_below_64 [of "\<lambda>n. to_urlsafe (b64_char n) \<noteq> CHR ''='' \<and> to_urlsafe (b64_char n) \<noteq> CHR ''.''"], code_simp)

lemma byte_less [simp]: "byte c < 256"
  by (simp add: byte_def of_char_less_256)

lemma char_of_byte [simp]: "char_of (byte c) = c"
  by (simp add: byte_def)

lemma six_bits:
  "byte a div 4 < 64" "byte a mod 4 * 16 < 64" "byte a mod 4 * 16 + byte b div 16 < 64"
  "byte b mod 16 * 4 < 64" "byte b mod 16 * 4 + byte c div 64 < 64" "byte c mod 64 < 64"
proof -
  have "byte a < 64 * 4" "byte b < 16 * 16" "byte c < 4 * 64" using byte_less [of a] byte_less [of b] byte_less [of c] by simp_all
  then have d: "byte a div 4 < 64" "byte b div 16 < 16" "byte c div 64 < 4"
    by (simp_all only: less_mult_imp_div_less)
  have m: "byte a mod 4 < 4" "byte b mod 16 < 16" by simp_all
  show "byte a div 4 < 64" "byte c mod 64 < 64" using d by simp_all
  show "byte a mod 4 * 16 < 64" "byte a mod 4 * 16 + byte b div 16 < 64" using d m by linarith+
  show "byte b mod 16 * 4 < 64" "byte b mod 16 * 4 + byte c div 64 < 64" using d m by linarith+
qed

lemma joins:
  "byte a div 4 * 4 + (byte a mod 4 * 16 + x) div 16 = byte a" if "x < 16"
  using that by simp

lemma scan_char [simp]:
  "n < 64 \<Longrightarrow> b64_scan 0 l p (b64_char n # cs) = b64_scan 1 n 0 cs"
  "n < 64 \<Longrightarrow> b64_scan (Suc 0) l p (b64_char n # cs) = map_option (Cons (char_of (l * 4 + n div 16))) (b64_scan 2 (n mod 16) 0 cs)"
  "n < 64 \<Longrightarrow> b64_scan 2 l p (b64_char n # cs) = map_option (Cons (char_of (l * 16 + n div 4))) (b64_scan 3 (n mod 4) 0 cs)"
  "n < 64 \<Longrightarrow> b64_scan 3 l p (b64_char n # cs) = map_option (Cons (char_of (l * 64 + n))) (b64_scan 0 0 0 cs)"
  by simp_all

lemma div16: "byte b div 16 < 16" and div64: "byte c div 64 < 4"
  using less_mult_imp_div_less [of "byte b" 16 16] less_mult_imp_div_less [of "byte c" 4 64] by simp_all

theorem b64decode_encode: "b64decode (b64encode b) = Some b"
proof -
  have "b64_scan 0 l p (b64encode b) = Some b" for l p
  proof (induction b arbitrary: l p rule: b64encode.induct)
    case (4 a b c r)
    have "byte a div 4 * 4 + (byte a mod 4 * 16 + byte b div 16) div 16 = byte a"
      "(byte a mod 4 * 16 + byte b div 16) mod 16 * 16 + (byte b mod 16 * 4 + byte c div 64) div 4 = byte b"
      "(byte b mod 16 * 4 + byte c div 64) mod 4 * 64 + byte c mod 64 = byte c"
      using div16 [of b] div64 [of c] by simp_all
    with 4 show ?case by (simp add: six_bits del: b64_scan.simps)
  next
    case (3 a b)
    have "byte a div 4 * 4 + (byte a mod 4 * 16 + byte b div 16) div 16 = byte a"
      "(byte a mod 4 * 16 + byte b div 16) mod 16 * 16 + (byte b mod 16 * 4) div 4 = byte b"
      using div16 [of b] by simp_all
    then show ?case by (simp add: six_bits del: b64_scan.simps(2)) simp
  next
    case (2 a)
    have "byte a div 4 * 4 + (byte a mod 4 * 16) div 16 = byte a" by simp
    then show ?case by (simp add: six_bits del: b64_scan.simps(2)) simp
  qed simp
  then show ?thesis by (simp add: b64decode_def)
qed

text \<open>An encoding is a run of alphabet characters and the padding that completes the group of four.\<close>

lemma below_64_Cons:
  "w < 64 \<Longrightarrow> x < 64 \<Longrightarrow> y < 64 \<Longrightarrow> z < (64::nat) \<Longrightarrow> \<forall>n\<in>set u. n < 64 \<Longrightarrow> \<forall>n\<in>set ([w, x, y, z] @ u). n < 64"
  by simp

lemma b64encode_split:
  "\<exists>u k. b64encode b = map b64_char u @ replicate k CHR ''='' \<and> (\<forall>n\<in>set u. n < 64) \<and> k < 4 \<and>
     (length u + k) mod 4 = 0"
proof (induction b rule: b64encode.induct)
  case 1
  then show ?case by (intro exI [of _ "[]"] exI [of _ 0]) simp
next
  case (2 a)
  show ?case
    by (rule exI [of _ "[byte a div 4, byte a mod 4 * 16]"], rule exI [of _ 2])
       (simp add: six_bits numeral_2_eq_2)
next
  case (3 a b)
  show ?case
    by (rule exI [of _ "[byte a div 4, byte a mod 4 * 16 + byte b div 16, byte b mod 16 * 4]"], rule exI [of _ 1])
       (simp add: six_bits)
next
  case (4 a b c r)
  then obtain u k where u: "b64encode r = map b64_char u @ replicate k CHR ''=''" "\<forall>n\<in>set u. n < 64" "k < 4"
    "(length u + k) mod 4 = 0" by (elim exE conjE) (rule that)
  let ?w = "[byte a div 4, byte a mod 4 * 16 + byte b div 16, byte b mod 16 * 4 + byte c div 64, byte c mod 64]"
  have "b64encode (a # b # c # r) = map b64_char (?w @ u) @ replicate k CHR ''=''" by (simp add: u(1))
  moreover have "\<forall>n\<in>set (?w @ u). n < 64"
    using six_bits(1) six_bits(3) six_bits(5) six_bits(6) u(2) by (rule below_64_Cons)
  moreover have "length (?w @ u) + k = length u + k + 4" by (simp only: length_append list.size)
  then have "(length (?w @ u) + k) mod 4 = 0" using u(4) by (simp only: mod_add_self2)
  ultimately show ?case using u(3) by (intro exI conjI)
qed

lemma rstrip_replicate:
  "(\<forall>c\<in>set u. c \<noteq> CHR ''='') \<Longrightarrow> rstrip_eq (u @ replicate k CHR ''='') = u"
proof (induction k)
  case 0
  then show ?case by (cases u rule: rev_cases) (auto simp: rstrip_eq_def)
next
  case (Suc k)
  have "rstrip_eq (xs @ [CHR ''='']) = rstrip_eq xs" for xs by (simp add: rstrip_eq_def)
  from this [of "u @ replicate k CHR ''=''"] Suc show ?case by (simp add: replicate_append_same)
qed

lemma b64u_encode_split:
  "\<exists>u k. b64encode b = map b64_char u @ replicate k CHR ''='' \<and> (\<forall>n\<in>set u. n < 64) \<and> k < 4 \<and>
     (length u + k) mod 4 = 0 \<and> b64u_encode b = map (\<lambda>n. to_urlsafe (b64_char n)) u"
proof -
  obtain u k where u: "b64encode b = map b64_char u @ replicate k CHR ''=''" "\<forall>n\<in>set u. n < 64" "k < 4"
    "(length u + k) mod 4 = 0" using b64encode_split [of b] by (elim exE conjE) (rule that)
  have "to_urlsafe CHR ''='' = CHR ''=''" by (simp add: to_urlsafe_def)
  then have "map to_urlsafe (b64encode b) = map (\<lambda>n. to_urlsafe (b64_char n)) u @ replicate k CHR ''=''"
    using u(1) by simp
  moreover have "\<forall>c\<in>set (map (\<lambda>n. to_urlsafe (b64_char n)) u). c \<noteq> CHR ''=''"
    using u(2) by auto
  ultimately have "b64u_encode b = map (\<lambda>n. to_urlsafe (b64_char n)) u"
    by (simp only: b64u_encode_def rstrip_replicate)
  with u show ?thesis by (intro exI conjI)
qed

lemma b64u_no_dot: "CHR ''.'' \<notin> set (b64u_encode b)"
proof -
  obtain u where "b64u_encode b = map (\<lambda>n. to_urlsafe (b64_char n)) u" "\<forall>n\<in>set u. n < 64"
    using b64u_encode_split [of b] by (elim exE conjE) (rule that)
  then show ?thesis using urlsafe_alphabet by (simp only: set_map) (blast dest: sym)
qed

lemma pad_length: "(l + k) mod 4 = 0 \<Longrightarrow> k < 4 \<Longrightarrow> nat ((- int l) mod 4) = k"
proof -
  assume "(l + k) mod 4 = 0" and k: "k < 4"
  then obtain q where "l + k = 4 * q" by (auto simp: mod_eq_0_iff_dvd dvd_def)
  then have "- int l = int k + 4 * (- int q)" by linarith
  then have "(- int l) mod 4 = int k mod 4" by (simp only: mod_mult_self2)
  then show ?thesis using k by simp
qed

theorem b64u_decode_encode: "b64u_decode (b64u_encode b) = Some b"
proof -
  obtain u k where u: "b64encode b = map b64_char u @ replicate k CHR ''=''" "\<forall>n\<in>set u. n < 64" "k < 4"
    "(length u + k) mod 4 = 0" "b64u_encode b = map (\<lambda>n. to_urlsafe (b64_char n)) u"
    using b64u_encode_split [of b] by (elim exE conjE) (rule that)
  have m: "map from_urlsafe (b64u_encode b) = map b64_char u"
    using u(2) by (simp add: u(5))
  have "from_urlsafe CHR ''='' = CHR ''=''" by (simp add: from_urlsafe_def)
  then have "b64u_decode (b64u_encode b) = b64decode (map b64_char u @ replicate k CHR ''='')"
    using pad_length [OF u(4,3)] u(5) by (simp only: b64u_decode_def map_append m [unfolded u(5)] map_replicate length_map)
  then show ?thesis using b64decode_encode [of b] by (simp only: u(1))
qed

end
