(* ===== verification/Envelopes.thy ===== *)
theory Envelopes
  imports Complex_Main Base64
begin

text \<open>
  The two encryption envelopes (cloud/encryption_cloud.py, terminal/encryption.py). The
  ciphers, the hash and the JSON text codec are arguments, bundled in a record:
  \<open>aes_enc k n p\<close> and \<open>aes_dec k n c\<close> are \<open>AESGCM(k).encrypt/decrypt\<close> (\<open>None\<close> is \<open>InvalidTag\<close>),
  \<open>seal pub r m\<close> is \<open>SealedBox(pub).encrypt(m)\<close> with the ephemeral randomness \<open>r\<close>, \<open>unseal\<close>
  its decryption, \<open>pub_of\<close> the public key of a private one, \<open>sha256_hex\<close> the hex digest,
  and \<open>json_dumps\<close>/\<open>json_loads\<close> the text of a JSON value. What a proof needs of them is a named
  hypothesis. JSON values are data of the program; numbers with a fraction are exact.
\<close>

datatype json =
    JNull
  | JBool bool
  | JInt int
  | JFloat rat
  | JStr string
  | JArr "json list"
  | JObj "(string \<times> json) list"

record crypto =
  json_loads :: "bytes \<Rightarrow> json option"
  json_dumps :: "json \<Rightarrow> bytes"
  aes_enc :: "bytes \<Rightarrow> bytes \<Rightarrow> bytes \<Rightarrow> bytes"
  aes_dec :: "bytes \<Rightarrow> bytes \<Rightarrow> bytes \<Rightarrow> bytes option"
  seal :: "bytes \<Rightarrow> bytes \<Rightarrow> bytes \<Rightarrow> bytes"
  unseal :: "bytes \<Rightarrow> bytes \<Rightarrow> bytes option"
  pub_of :: "bytes \<Rightarrow> bytes"
  sha256_hex :: "bytes \<Rightarrow> string"

section \<open>JSON values\<close>

text \<open>\<open>d.get(k)\<close> on a dictionary (a missing key is \<open>None\<close>, as is a null); \<open>None\<close> on other values is the \<open>AttributeError\<close>.\<close>

definition jget :: "string \<Rightarrow> json \<Rightarrow> json option" where
  "jget k j = (case j of JObj kvs \<Rightarrow> Some (case map_of kvs k of Some v \<Rightarrow> v | None \<Rightarrow> JNull) | _ \<Rightarrow> None)"

definition jget_or :: "string \<Rightarrow> json \<Rightarrow> json \<Rightarrow> json option" where
  "jget_or k d j = (case j of JObj kvs \<Rightarrow> Some (case map_of kvs k of Some v \<Rightarrow> v | None \<Rightarrow> d) | _ \<Rightarrow> None)"

text \<open>\<open>d[k]\<close>: a missing key is an error.\<close>

definition jitem :: "string \<Rightarrow> json \<Rightarrow> json option" where
  "jitem k j = (case j of JObj kvs \<Rightarrow> map_of kvs k | _ \<Rightarrow> None)"

text \<open>The truth value of a JSON value.\<close>

fun jtrue :: "json \<Rightarrow> bool" where
  "jtrue JNull = False"
| "jtrue (JBool b) = b"
| "jtrue (JInt i) = (i \<noteq> 0)"
| "jtrue (JFloat r) = (r \<noteq> 0)"
| "jtrue (JStr s) = (s \<noteq> [])"
| "jtrue (JArr xs) = (xs \<noteq> [])"
| "jtrue (JObj kvs) = (kvs \<noteq> [])"

definition jor :: "json \<Rightarrow> json \<Rightarrow> json" where
  "jor a b = (if jtrue a then a else b)"

fun jnum :: "json \<Rightarrow> rat option" where
  "jnum (JInt i) = Some (of_int i)"
| "jnum (JFloat r) = Some r"
| "jnum (JBool b) = Some (if b then 1 else 0)"
| "jnum _ = None"

text \<open>Base64 of a string value; a decoded non-string is a \<open>TypeError\<close>.\<close>

definition jb64 :: "json option \<Rightarrow> bytes option" where
  "jb64 j = (case j of Some (JStr s) \<Rightarrow> b64decode s | _ \<Rightarrow> None)"

section \<open>The K_temp envelope\<close>

definition temp_envelope :: "crypto \<Rightarrow> bytes \<Rightarrow> bytes \<Rightarrow> bytes \<Rightarrow> json" where
  "temp_envelope cr nonce plaintext k =
     JObj [(''v'', JInt 1), (''mode'', JStr ''K_temp''), (''nonce'', JStr (b64encode nonce)),
           (''ct'', JStr (b64encode (aes_enc cr k nonce plaintext)))]"

definition encrypt_with_temp :: "crypto \<Rightarrow> bytes \<Rightarrow> bytes \<Rightarrow> bytes \<Rightarrow> exc + bytes" where
  "encrypt_with_temp cr nonce plaintext k =
     (if length k \<noteq> 32 then Inl (ValueError ''K_temp must be 32 bytes'')
      else Inr (json_dumps cr (temp_envelope cr nonce plaintext k)))"

definition open_temp :: "crypto \<Rightarrow> json \<Rightarrow> bytes \<Rightarrow> exc + bytes" where
  "open_temp cr envelope k =
     (case jget ''mode'' envelope of
        None \<Rightarrow> Inl (ValueError ''not an object'')
      | Some m \<Rightarrow>
          if m \<noteq> JStr ''K_temp'' then Inl (ValueError ''wrong mode'')
          else
            (case (jb64 (jitem ''nonce'' envelope), jb64 (jitem ''ct'' envelope)) of
               (Some nonce, Some ct) \<Rightarrow>
                 (case aes_dec cr k nonce ct of Some p \<Rightarrow> Inr p | None \<Rightarrow> Inl (ValueError ''''))
             | _ \<Rightarrow> Inl (ValueError ''bad nonce or ct'')))"

definition decrypt_with_temp :: "crypto \<Rightarrow> bytes \<Rightarrow> bytes \<Rightarrow> exc + bytes" where
  "decrypt_with_temp cr envelope_bytes k =
     (if length k \<noteq> 32 then Inl (ValueError ''K_temp must be 32 bytes'')
      else
        (case json_loads cr envelope_bytes of
           None \<Rightarrow> Inl (ValueError ''not JSON'')
         | Some envelope \<Rightarrow> open_temp cr envelope k))"

section \<open>The two-party envelope\<close>

text \<open>The randomness of one call: the payload key, the nonce and the two sealing seeds.\<close>

record both_rand =
  br_key :: bytes
  br_nonce :: bytes
  br_op :: bytes
  br_cl :: bytes

definition both_envelope :: "crypto \<Rightarrow> both_rand \<Rightarrow> bytes \<Rightarrow> bytes \<Rightarrow> bytes \<Rightarrow> json" where
  "both_envelope cr r plaintext op_pub cl_pub =
     JObj [(''v'', JInt 1), (''mode'', JStr ''K_op+K_cl''), (''nonce'', JStr (b64encode (br_nonce r))),
           (''ct'', JStr (b64encode (aes_enc cr (br_key r) (br_nonce r) plaintext))),
           (''wrap_op'', JStr (b64encode (seal cr op_pub (br_op r) (br_key r)))),
           (''wrap_cl'', JStr (b64encode (seal cr cl_pub (br_cl r) (br_key r))))]"

text \<open>On the cloud the keys come from the public-key table, and one missing is an error.\<close>

definition load_pubkeys :: "(string \<times> bytes) list \<Rightarrow> exc + (bytes \<times> bytes)" where
  "load_pubkeys raw =
     (case (map_of raw ''operator'', map_of raw ''client'') of
        (Some o_pub, Some c_pub) \<Rightarrow> Inr (o_pub, c_pub)
      | _ \<Rightarrow> Inl (RuntimeError ''pubkey table missing {operator,client}''))"

definition encrypt_for_both :: "crypto \<Rightarrow> both_rand \<Rightarrow> bytes \<Rightarrow> bytes \<times> bytes \<Rightarrow> bytes" where
  "encrypt_for_both cr r plaintext pubkeys =
     json_dumps cr (both_envelope cr r plaintext (fst pubkeys) (snd pubkeys))"

record key_bundle =
  kb_role :: string
  kb_own_priv :: bytes
  kb_peer_pub :: bytes
  kb_k_temp :: "bytes option"

definition bundle_pubs :: "crypto \<Rightarrow> key_bundle \<Rightarrow> bytes \<times> bytes" where
  "bundle_pubs cr kb =
     ((if kb_role kb = ''operator'' then pub_of cr (kb_own_priv kb) else kb_peer_pub kb),
      (if kb_role kb = ''client'' then pub_of cr (kb_own_priv kb) else kb_peer_pub kb))"

definition terminal_encrypt_for_both :: "crypto \<Rightarrow> both_rand \<Rightarrow> bytes \<Rightarrow> key_bundle \<Rightarrow> bytes" where
  "terminal_encrypt_for_both cr r plaintext kb = encrypt_for_both cr r plaintext (bundle_pubs cr kb)"

definition open_both :: "crypto \<Rightarrow> json \<Rightarrow> key_bundle \<Rightarrow> exc + bytes" where
  "open_both cr envelope kb =
     (case jget ''mode'' envelope of
        None \<Rightarrow> Inl (ValueError ''not an object'')
      | Some m \<Rightarrow>
          if m \<noteq> JStr ''K_op+K_cl'' then Inl (ValueError ''wrong mode'')
          else
            (case jb64 (jitem (if kb_role kb = ''operator'' then ''wrap_op'' else ''wrap_cl'') envelope) of
               None \<Rightarrow> Inl (ValueError ''bad wrap'')
             | Some wrap \<Rightarrow>
                 (case unseal cr (kb_own_priv kb) wrap of
                    None \<Rightarrow> Inl (ValueError ''bad wrap'')
                  | Some k \<Rightarrow>
                      (case (jb64 (jitem ''nonce'' envelope), jb64 (jitem ''ct'' envelope)) of
                         (Some nonce, Some ct) \<Rightarrow>
                           (case aes_dec cr k nonce ct of Some p \<Rightarrow> Inr p | None \<Rightarrow> Inl (ValueError ''''))
                       | _ \<Rightarrow> Inl (ValueError ''bad nonce or ct'')))))"

definition decrypt_for_both :: "crypto \<Rightarrow> bytes \<Rightarrow> key_bundle \<Rightarrow> exc + bytes" where
  "decrypt_for_both cr envelope_bytes kb =
     (case json_loads cr envelope_bytes of
        None \<Rightarrow> Inl (ValueError ''not JSON'')
      | Some envelope \<Rightarrow> open_both cr envelope kb)"

definition k_temp_id :: "crypto \<Rightarrow> bytes \<Rightarrow> string" where
  "k_temp_id cr k = take 8 (sha256_hex cr k)"

section \<open>What the proofs assume of the libraries\<close>

definition json_round :: "crypto \<Rightarrow> json \<Rightarrow> bool" where
  "json_round cr j \<longleftrightarrow> json_loads cr (json_dumps cr j) = Some j"

definition aead_ok :: "crypto \<Rightarrow> bool" where
  "aead_ok cr \<longleftrightarrow> (\<forall>k n p. length k = 32 \<longrightarrow> aes_dec cr k n (aes_enc cr k n p) = Some p)"

definition sealed_ok :: "crypto \<Rightarrow> bool" where
  "sealed_ok cr \<longleftrightarrow> (\<forall>priv r m. unseal cr priv (seal cr (pub_of cr priv) r m) = Some m)"

section \<open>Properties\<close>

text \<open>What a terminal encrypts under the temporary key, the cloud decrypts with the same key to
  the same bytes; the dispatcher needs nothing else.\<close>

theorem temp_round_trip:
  assumes "aead_ok cr" "json_round cr (temp_envelope cr nonce p k)" "encrypt_with_temp cr nonce p k = Inr e"
  shows "decrypt_with_temp cr e k = Inr p"
  using assms
  by (auto simp: encrypt_with_temp_def decrypt_with_temp_def open_temp_def temp_envelope_def json_round_def
      jget_def jitem_def jb64_def b64decode_encode aead_ok_def split: if_splits)

text \<open>A concrete instance of the library functions: nothing is hidden, and the text of an
  envelope is its list of fields.\<close>

definition plain_crypto :: "json \<Rightarrow> crypto" where
  "plain_crypto j =
     \<lparr>json_loads = (\<lambda>b. if b = ''json'' then Some j else None), json_dumps = (\<lambda>_. ''json''),
      aes_enc = (\<lambda>k n p. p @ ''tag''), aes_dec = (\<lambda>k n c. Some (take (length c - 3) c)),
      seal = (\<lambda>pub r m. pub @ m), unseal = (\<lambda>priv c. Some (drop (length priv) c)), pub_of = (\<lambda>priv. priv),
      sha256_hex = (\<lambda>b. ''00'')\<rparr>"

lemma plain_crypto_ok: "aead_ok (plain_crypto j)" "sealed_ok (plain_crypto j)"
  by (simp_all add: aead_ok_def sealed_ok_def plain_crypto_def)

theorem temp_round_trip_witness:
  "decrypt_with_temp (plain_crypto (temp_envelope (plain_crypto JNull) ''n'' ''hello'' (replicate 32 CHR ''k'')))
     ''json'' (replicate 32 CHR ''k'') = Inr ''hello''"
proof (rule temp_round_trip [where nonce = "''n''"])
  let ?cr = "plain_crypto (temp_envelope (plain_crypto JNull) ''n'' ''hello'' (replicate 32 CHR ''k''))"
  show "aead_ok ?cr" by (rule plain_crypto_ok)
  show "json_round ?cr (temp_envelope ?cr ''n'' ''hello'' (replicate 32 CHR ''k''))"
    by (simp add: json_round_def plain_crypto_def temp_envelope_def)
  show "encrypt_with_temp ?cr ''n'' ''hello'' (replicate 32 CHR ''k'') = Inr ''json''"
    by (simp add: encrypt_with_temp_def plain_crypto_def)
qed

text \<open>A payload wrapped for both parties, by the cloud from its table of public keys or by either
  terminal from its bundle, is decrypted by the holder of either private key to the same bytes.\<close>

theorem both_parties_decrypt:
  assumes "aead_ok cr" "sealed_ok cr" "length (br_key r) = 32"
    and "pubs = (pub_of cr op_priv, pub_of cr cl_priv)"
    and "json_round cr (both_envelope cr r p (fst pubs) (snd pubs))"
    and "kb_role kb = ''operator'' \<and> kb_own_priv kb = op_priv \<and> kb_peer_pub kb = pub_of cr cl_priv \<or>
         kb_role kb = ''client'' \<and> kb_own_priv kb = cl_priv \<and> kb_peer_pub kb = pub_of cr op_priv"
  shows "decrypt_for_both cr (encrypt_for_both cr r p pubs) kb = Inr p \<and>
     terminal_encrypt_for_both cr r p kb = encrypt_for_both cr r p pubs"
  using assms
  by (auto simp: decrypt_for_both_def encrypt_for_both_def terminal_encrypt_for_both_def bundle_pubs_def
      open_both_def both_envelope_def json_round_def jget_def jitem_def jb64_def b64decode_encode aead_ok_def sealed_ok_def)

theorem both_parties_decrypt_witness:
  "\<exists>cr r kb. kb_role kb = ''client'' \<and> decrypt_for_both cr (encrypt_for_both cr r ''note'' (''A'', ''B'')) kb = Inr ''note''"
proof -
  let ?r = "\<lparr>br_key = replicate 32 CHR ''k'', br_nonce = ''n'', br_op = ''1'', br_cl = ''2''\<rparr>"
  let ?kb = "\<lparr>kb_role = ''client'', kb_own_priv = ''B'', kb_peer_pub = ''A'', kb_k_temp = None\<rparr>"
  let ?cr = "plain_crypto (both_envelope (plain_crypto JNull) ?r ''note'' ''A'' ''B'')"
  have "decrypt_for_both ?cr (encrypt_for_both ?cr ?r ''note'' (''A'', ''B'')) ?kb = Inr ''note'' \<and>
     terminal_encrypt_for_both ?cr ?r ''note'' ?kb = encrypt_for_both ?cr ?r ''note'' (''A'', ''B'')"
    by (rule both_parties_decrypt [where op_priv = "''A''" and cl_priv = "''B''", OF plain_crypto_ok])
       (simp_all add: plain_crypto_def json_round_def both_envelope_def)
  then show ?thesis by (intro exI [of _ ?cr] exI [of _ ?r] exI [of _ ?kb]) simp
qed

end
