(* ===== verification/Cloud_Dispatcher.thy ===== *)
theory Cloud_Dispatcher
  imports Pack_Lifecycle Cloud_Keys Envelopes
begin

text \<open>
  The dispatcher (cloud/dispatcher_lambda.py, cloud/dispatcher_local.py): the handler of
  queue batches, the processing of one pack, the sweep, and the local polling loop. The
  world of one process is the table, the in-memory campaign statistics, the requests posted
  to the mail service, the messages put on the queue, and a count of clock readings. The
  service behind it is an argument: \<open>sv_clock i\<close> is the i-th clock reading in seconds and
  \<open>sv_stamp i\<close> the same reading as \<open>isoformat()\<close> writes it, \<open>sv_post i\<close> answers the i-th request
  to the mail service, \<open>sv_uniform i\<close> is the i-th random draw from [0, 1], \<open>sv_enqueue\<close> says
  whether a queue message was accepted.
\<close>

section \<open>The service\<close>

datatype resp = NotJson | NotDict | Dict "string option" "string option"

datatype reply = NetError string | Reply int resp

record service =
  sv_crypto :: crypto
  sv_clock :: "nat \<Rightarrow> int"
  sv_stamp :: "nat \<Rightarrow> string"
  sv_post :: "nat \<Rightarrow> json \<Rightarrow> json \<Rightarrow> reply"
  sv_uniform :: "nat \<Rightarrow> rat"
  sv_enqueue :: "string \<Rightarrow> bool"
  sv_index :: "table \<Rightarrow> table"
  sv_claim_stale :: int
  sv_sweep_limit :: nat

record world =
  w_table :: table
  w_stats :: "(json \<times> nat \<times> nat) list"
  w_posts :: "(string \<times> json \<times> json) list"
  w_queue :: "string list"
  w_sleeps :: "rat list"
  w_reads :: nat

definition tick :: "service \<Rightarrow> world \<Rightarrow> int \<times> world" where
  "tick sv w = (sv_clock sv (w_reads w), w\<lparr>w_reads := Suc (w_reads w)\<rparr>)"

definition update_now :: "service \<Rightarrow> string \<Rightarrow> (string \<times> attr) list \<Rightarrow> world \<Rightarrow> world" where
  "update_now sv pid flds w = (let (now, w1) = tick sv w in w1\<lparr>w_table := update_pack now pid flds (w_table w1)\<rparr>)"

definition claim_now :: "service \<Rightarrow> string \<Rightarrow> world \<Rightarrow> world \<times> bool" where
  "claim_now sv pid w =
     (let (now, w1) = tick sv w; (t, ok) = claim_pack now pid (w_table w1) in (w1\<lparr>w_table := t\<rparr>, ok))"

section \<open>Reading a pack\<close>

record job =
  jb_plain :: json
  jb_rate :: json
  jb_pause :: json
  jb_campaign :: json
  jb_human :: json
  jb_min :: json
  jb_max :: json
  jb_count :: int

text \<open>\<open>int(x)\<close>.\<close>

fun py_int :: "json \<Rightarrow> int option" where
  "py_int (JInt i) = Some i"
| "py_int (JBool b) = Some (if b then 1 else 0)"
| "py_int (JFloat r) = Some (if 0 \<le> r then \<lfloor>r\<rfloor> else - \<lfloor>- r\<rfloor>)"
| "py_int (JStr s) = int_of_str s"
| "py_int _ = None"

definition job_of :: "json \<Rightarrow> exc + job" where
  "job_of plain =
     (case plain of
        JObj _ \<Rightarrow>
          (case do {
             rate \<leftarrow> jget ''rate_limit_per_min'' plain;
             pause \<leftarrow> jget ''bounce_pause_pct'' plain;
             c \<leftarrow> jget ''campaign_id'' plain;
             h \<leftarrow> jget_or ''human_send'' (JBool False) plain;
             mn \<leftarrow> jget_or ''human_send_min_s'' (JInt 60) plain;
             mx \<leftarrow> jget_or ''human_send_max_s'' (JInt 210) plain;
             cnt \<leftarrow> jget ''human_send_count'' plain;
             n \<leftarrow> py_int (jor cnt (JInt 1));
             Some \<lparr>jb_plain = plain, jb_rate = rate, jb_pause = jor pause (JFloat (1/10)), jb_campaign = c,
               jb_human = h, jb_min = mn, jb_max = mx, jb_count = n\<rparr>
           } of Some j \<Rightarrow> Inr j | None \<Rightarrow> Inl (ValueError ''human_send_count''))
      | _ \<Rightarrow> Inl (AttributeError ''get''))"

definition read_job :: "crypto \<Rightarrow> pack option \<Rightarrow> bytes \<Rightarrow> exc + job" where
  "read_job cr pack k =
     (case pack of
        None \<Rightarrow> Inl (TypeError ''pack'')
      | Some p \<Rightarrow>
          (case pk_payload p of
             None \<Rightarrow> (if length k \<noteq> 32 then Inl (ValueError ''K_temp must be 32 bytes'') else Inl (TypeError ''json''))
           | Some e \<Rightarrow>
               bindE (decrypt_with_temp cr e k)
                 (\<lambda>b. case json_loads cr b of None \<Rightarrow> Inl (ValueError ''not JSON'') | Some plain \<Rightarrow> job_of plain)))"

text \<open>\<open>str(e)\<close>.\<close>

fun exc_text :: "exc \<Rightarrow> string" where
  "exc_text (KeyError s) = s"
| "exc_text (ValueError s) = s"
| "exc_text (TTLViolation s) = s"
| "exc_text (RuntimeError s) = s"
| "exc_text (TypeError s) = s"
| "exc_text (AttributeError s) = s"
| "exc_text (HTTPException c s) = dec_int c @ '': '' @ s"
| "exc_text (PackAlreadyExists s) = s"
| "exc_text (SendOutcomeUnknown s) = s"
| "exc_text (TokenExpired s) = s"
| "exc_text (TokenInvalid s) = s"
| "exc_text (TokenError s) = s"

section \<open>Sending\<close>

definition send_body :: "json \<Rightarrow> exc + json" where
  "send_body plain =
     (case (jitem ''from'' plain, jitem ''recipient'' plain, jitem ''subject'' plain, jitem ''html'' plain,
            jget_or ''headers'' (JObj []) plain, jget ''text'' plain) of
        (Some f, Some r, Some s, Some h, Some hds, Some tx) \<Rightarrow>
          Inr (JObj ([(''from'', f), (''to'', JArr [r]), (''subject'', s), (''html'', h), (''headers'', hds),
                      (''open_tracking'', JBool False), (''click_tracking'', JBool True)] @
                     (if jtrue tx then [(''text'', tx)] else [])))
      | _ \<Rightarrow> Inl (KeyError ''plain''))"

record result =
  rs_status :: string
  rs_msg_id :: "string option"
  rs_failure :: "string option"

definition result_of :: "reply \<Rightarrow> exc + result" where
  "result_of r =
     (case r of
        NetError n \<Rightarrow>
          Inr \<lparr>rs_status = ''unknown'', rs_msg_id = None, rs_failure = Some (''network error during send ('' @ n @ '')'')\<rparr>
      | Reply code j \<Rightarrow>
          if 500 \<le> code then
            Inr \<lparr>rs_status = ''unknown'', rs_msg_id = None, rs_failure = Some (''resend '' @ dec_int code @ '' during send'')\<rparr>
          else if 400 \<le> code then
            (case j of
               NotDict \<Rightarrow> Inl (AttributeError ''get'')
             | NotJson \<Rightarrow> Inr \<lparr>rs_status = ''failed'', rs_msg_id = None, rs_failure = Some (''resend '' @ dec_int code)\<rparr>
             | Dict _ m \<Rightarrow>
                 Inr \<lparr>rs_status = ''failed'', rs_msg_id = None,
                   rs_failure = Some (case m of Some s \<Rightarrow> s | None \<Rightarrow> ''resend '' @ dec_int code)\<rparr>)
          else
            (case j of
               NotDict \<Rightarrow> Inl (AttributeError ''get'')
             | NotJson \<Rightarrow> Inr \<lparr>rs_status = ''sent'', rs_msg_id = None, rs_failure = None\<rparr>
             | Dict i _ \<Rightarrow> Inr \<lparr>rs_status = ''sent'', rs_msg_id = i, rs_failure = None\<rparr>))"

text \<open>The request, if there is one, is recorded in \<open>w_posts\<close> under the pack it is made for.\<close>

definition send_sync :: "service \<Rightarrow> string \<Rightarrow> json \<Rightarrow> world \<Rightarrow> world \<times> (exc + result)" where
  "send_sync sv pid plain w =
     (case jget ''resend_api_key'' plain of
        None \<Rightarrow> (w, Inl (AttributeError ''get''))
      | Some api_key \<Rightarrow>
          if \<not> jtrue api_key then
            (w, Inr \<lparr>rs_status = ''failed'', rs_msg_id = None, rs_failure = Some ''pack missing resend_api_key''\<rparr>)
          else
            (case send_body plain of
               Inl e \<Rightarrow> (w, Inl e)
             | Inr body \<Rightarrow>
                 (w\<lparr>w_posts := w_posts w @ [(pid, api_key, body)]\<rparr>,
                  result_of (sv_post sv (length (w_posts w)) api_key body))))"

definition attr_opt :: "string option \<Rightarrow> attr" where
  "attr_opt s = (case s of None \<Rightarrow> ANull | Some x \<Rightarrow> AStr x)"

definition outcome_attrs :: "result \<Rightarrow> string \<Rightarrow> (string \<times> attr) list" where
  "outcome_attrs r now_iso =
     [(''status'', AStr (rs_status r)), (''sent_at'', if rs_status r = ''sent'' then AStr now_iso else ANull),
      (''resend_message_id'', attr_opt (rs_msg_id r)), (''failure_reason'', attr_opt (rs_failure r)),
      (''encrypted_payload'', ANull)]"

definition finalize :: "service \<Rightarrow> string \<Rightarrow> result \<Rightarrow> world \<Rightarrow> world" where
  "finalize sv pid r w =
     (let now_iso = sv_stamp sv (w_reads w);
          w2 = update_now sv pid (outcome_attrs r now_iso) (snd (tick sv w))
      in if rs_status r = ''sent''
         then (let (now2, w3) = tick sv w2
               in w3\<lparr>w_table := fst (put_event now2 ''pack'' pid 1 ''cloud'' now_iso ''K_op+K_cl'' None False (w_table w3))\<rparr>)
         else w2)"

section \<open>Campaign statistics and pacing\<close>

text \<open>A key of a Python dictionary: numbers compare by value, lists and dictionaries are not hashable.\<close>

fun dict_key :: "json \<Rightarrow> json option" where
  "dict_key (JBool b) = Some (JInt (if b then 1 else 0))"
| "dict_key (JFloat r) = Some (if of_int \<lfloor>r\<rfloor> = r then JInt \<lfloor>r\<rfloor> else JFloat r)"
| "dict_key (JArr _) = None"
| "dict_key (JObj _) = None"
| "dict_key j = Some j"

definition stats_of :: "json \<Rightarrow> (json \<times> nat \<times> nat) list \<Rightarrow> nat \<times> nat" where
  "stats_of c st = (case map_of st c of Some s \<Rightarrow> s | None \<Rightarrow> (0, 0))"

definition update_campaign_stats :: "json \<Rightarrow> bool \<Rightarrow> world \<Rightarrow> exc + world" where
  "update_campaign_stats c bounced w =
     (if c = JNull then Inr w
      else case dict_key c of
        None \<Rightarrow> Inl (TypeError ''unhashable'')
      | Some k \<Rightarrow>
          (let (s, b) = stats_of k (w_stats w)
           in Inr (w\<lparr>w_stats := AList.update k (Suc s, if bounced then Suc b else b) (w_stats w)\<rparr>)))"

definition base_delay :: "service \<Rightarrow> job \<Rightarrow> world \<Rightarrow> exc + rat" where
  "base_delay sv j w =
     (if jtrue (jb_human j) then
        (case (jnum (jb_min j), jnum (jb_max j)) of
           (Some a, Some b) \<Rightarrow> Inr (a + (b - a) * sv_uniform sv (w_reads w))
         | _ \<Rightarrow> Inl (TypeError ''uniform''))
      else if jtrue (jb_rate j) then
        (case jnum (jb_rate j) of Some r \<Rightarrow> Inr (60 / r) | None \<Rightarrow> Inl (TypeError ''rate''))
      else Inr 0)"

definition bounce_slow_down :: "nat \<times> nat \<Rightarrow> rat \<Rightarrow> rat \<Rightarrow> rat" where
  "bounce_slow_down s pause base =
     (case s of (sent, bounced) \<Rightarrow>
        if 10 < sent \<and> pause \<le> rat_of_nat bounced / rat_of_nat sent then max base 1 * 2 else base)"

definition compute_delay :: "service \<Rightarrow> job \<Rightarrow> world \<Rightarrow> exc + rat" where
  "compute_delay sv j w =
     bindE (base_delay sv j w)
       (\<lambda>base. if jb_campaign j = JNull then Inr base
               else case dict_key (jb_campaign j) of
                 None \<Rightarrow> Inl (TypeError ''unhashable'')
               | Some k \<Rightarrow>
                   (let s = stats_of k (w_stats w) in
                    if \<not> 10 < fst s then Inr base
                    else case jnum (jb_pause j) of
                      None \<Rightarrow> Inl (TypeError ''bounce_pause_pct'')
                    | Some p \<Rightarrow> Inr (bounce_slow_down s p base)))"

section \<open>One pack\<close>

definition stop_if_unknown :: "string \<Rightarrow> result \<Rightarrow> exc option" where
  "stop_if_unknown pid r =
     (if rs_status r = ''unknown''
      then Some (SendOutcomeUnknown (''pack '' @ pid @ '': send outcome unknown ('' @ opt_or (rs_failure r) [] @ ''); batch stopped''))
      else None)"

text \<open>What follows a send that returned.\<close>

definition after_send :: "service \<Rightarrow> string \<Rightarrow> job \<Rightarrow> result \<Rightarrow> world \<Rightarrow> world \<times> (exc + string \<times> rat \<times> int)" where
  "after_send sv pid j r w =
     (let w1 = finalize sv pid r w in
      case update_campaign_stats (jb_campaign j) (rs_status r = ''failed'') w1 of
        Inl e \<Rightarrow> (w1, Inl e)
      | Inr w2 \<Rightarrow>
          (case stop_if_unknown pid r of
             Some e \<Rightarrow> (w2, Inl e)
           | None \<Rightarrow> (w2, map_sum id (\<lambda>d. (''processed'', d, jb_count j)) (compute_delay sv j w2))))"

text \<open>The two outcomes written before anything is sent.\<close>

definition no_key_attrs :: "(string \<times> attr) list" where
  "no_key_attrs = [(''status'', AStr ''stuck_no_key''), (''failure_reason'', AStr ''no active K_temp at dispatch time'')]"

definition decrypt_failed_attrs :: "exc \<Rightarrow> (string \<times> attr) list" where
  "decrypt_failed_attrs e =
     [(''status'', AStr ''failed''), (''failure_reason'', AStr (''decrypt failed: '' @ exc_text e)),
      (''encrypted_payload'', ANull)]"

text \<open>
  From the claim to the point where a request is about to be made: the pack is read again,
  the key is fetched, the payload is decrypted. The answer is the job to send, or the
  outcome to write instead; \<open>Inl\<close> is an exception that leaves the invocation.
\<close>

datatype prep = Go job | Give_up "(string \<times> attr) list"

definition prep_read :: "service \<Rightarrow> string \<Rightarrow> world \<Rightarrow> world \<times> (exc + prep)" where
  "prep_read sv pid w =
     (case get_pack (w_table w) pid of
        None \<Rightarrow> (w, Inl (KeyError ''pack''))
      | Some pack \<Rightarrow>
          (let (now, w1) = tick sv w; (t, key) = get_active_k_temp now (w_table w1)
           in (w1\<lparr>w_table := t\<rparr>,
               case key of
                 None \<Rightarrow> Inl (KeyError ''expires_at'')
               | Some k \<Rightarrow>
                   if k = None \<or> k = Some [] then Inr (Give_up no_key_attrs)
                   else (case read_job (sv_crypto sv) pack (the k) of
                           Inl e \<Rightarrow> Inr (Give_up (decrypt_failed_attrs e))
                         | Inr j \<Rightarrow> Inr (Go j)))))"

definition process :: "service \<Rightarrow> string \<Rightarrow> world \<Rightarrow> world \<times> (exc + string \<times> rat \<times> int)" where
  "process sv pid w =
     (case get_pack (w_table w) pid of
        None \<Rightarrow> (w, Inl (KeyError ''pack''))
      | Some None \<Rightarrow> (w, Inr (''skipped'', 0, 1))
      | Some (Some pack) \<Rightarrow>
          if pk_status pack \<noteq> ''pending'' then (w, Inr (''skipped'', 0, 1))
          else
            (let (w1, claimed) = claim_now sv pid w in
             if \<not> claimed then (w1, Inr (''skipped'', 0, 1))
             else
               (case prep_read sv pid w1 of
                  (w2, Inl e) \<Rightarrow> (w2, Inl e)
                | (w2, Inr (Give_up flds)) \<Rightarrow> (update_now sv pid flds w2, Inr (''processed'', 0, 1))
                | (w2, Inr (Go j)) \<Rightarrow>
                    (case send_sync sv pid (jb_plain j) w2 of
                       (w3, Inl e) \<Rightarrow> (w3, Inl e)
                     | (w3, Inr r) \<Rightarrow> after_send sv pid j r w3))))"

section \<open>A batch\<close>

type_synonym counts = "(string \<times> nat) list"

definition bump :: "string \<Rightarrow> counts \<Rightarrow> counts" where
  "bump o' c = AList.update o' (Suc (case map_of c o' of Some n \<Rightarrow> n | None \<Rightarrow> 0)) c"

text \<open>\<open>json.loads(body)["pack_id"]\<close>; both producers of messages write a string there.\<close>

definition record_pack :: "crypto \<Rightarrow> bytes \<Rightarrow> string option" where
  "record_pack cr body =
     (case json_loads cr body of
        None \<Rightarrow> None
      | Some j \<Rightarrow> (case jitem ''pack_id'' j of Some (JStr p) \<Rightarrow> Some p | _ \<Rightarrow> None))"

text \<open>The rest of a sender group: no pause between its records.\<close>

fun handle_group :: "service \<Rightarrow> nat \<Rightarrow> bytes list \<Rightarrow> counts \<Rightarrow> world \<Rightarrow> world \<times> (exc + counts \<times> bytes list)" where
  "handle_group sv 0 rs c w = (w, Inr (c, rs))"
| "handle_group sv (Suc n) [] c w = (w, Inr (c, []))"
| "handle_group sv (Suc n) (r # rs) c w =
     (case record_pack (sv_crypto sv) r of
        None \<Rightarrow> handle_group sv n rs (bump ''failed'' c) w
      | Some pid \<Rightarrow>
          (case process sv pid w of
             (w1, Inl e) \<Rightarrow> (w1, Inl e)
           | (w1, Inr (out, _, _)) \<Rightarrow> handle_group sv n rs (bump out c) w1))"

lemma handle_group_length:
  "handle_group sv n rs c w = (w', Inr (c', rs')) \<Longrightarrow> length rs' \<le> length rs"
  by (induction sv n rs c w rule: handle_group.induct)
     (auto split: option.splits prod.splits sum.splits simp: le_SucI)

function handle_records :: "service \<Rightarrow> bytes list \<Rightarrow> counts \<Rightarrow> world \<Rightarrow> world \<times> (exc + counts)" where
  "handle_records sv [] c w = (w, Inr c)"
| "handle_records sv (r # rs) c w =
     (case record_pack (sv_crypto sv) r of
        None \<Rightarrow> handle_records sv rs (bump ''failed'' c) w
      | Some pid \<Rightarrow>
          (case process sv pid w of
             (w1, Inl e) \<Rightarrow> (w1, Inl e)
           | (w1, Inr (out, delay, sender_count)) \<Rightarrow>
               (case handle_group sv (nat (sender_count - 1)) rs (bump out c) w1 of
                  (w2, Inl e) \<Rightarrow> (w2, Inl e)
                | (w2, Inr (c2, rs2)) \<Rightarrow>
                    handle_records sv rs2 c2
                      (if 0 < delay \<and> rs2 \<noteq> [] then w2\<lparr>w_sleeps := w_sleeps w2 @ [delay]\<rparr> else w2))))"
  by pat_completeness auto
termination
  by (relation "measure (\<lambda>(sv, rs, c, w). length rs)") (auto dest!: handle_group_length [OF sym])

section \<open>The sweep and the entry points\<close>

fun enqueue_each :: "service \<Rightarrow> pack list \<Rightarrow> world \<Rightarrow> world \<times> nat" where
  "enqueue_each sv [] w = (w, 0)"
| "enqueue_each sv (p # ps) w =
     (if sv_enqueue sv (pk_id p)
      then (let (w', n) = enqueue_each sv ps (w\<lparr>w_queue := w_queue w @ [pk_id p]\<rparr>) in (w', Suc n))
      else enqueue_each sv ps w)"

definition expire_stale :: "service \<Rightarrow> world \<Rightarrow> world \<times> nat" where
  "expire_stale sv w =
     (let (now, w1) = tick sv w;
          (t, r) = expire_stale_claims now (sv_claim_stale sv) (sv_sweep_limit sv) (sv_index sv (w_table w1)) (w_table w1)
      in (w1\<lparr>w_table := t\<rparr>, case r of Some n \<Rightarrow> n | None \<Rightarrow> 0))"

record swept =
  sw_swept :: nat
  sw_enqueued :: nat
  sw_stale :: nat

definition sweep :: "service \<Rightarrow> world \<Rightarrow> world \<times> (exc + swept)" where
  "sweep sv w =
     (let (now, w1) = tick sv w in
      case list_pending_packs now (sv_sweep_limit sv) (sv_index sv (w_table w1)) of
        None \<Rightarrow> (w1, Inl (KeyError ''pack''))
      | Some due \<Rightarrow>
          (let (w2, n) = enqueue_each sv due w1; (w3, s) = expire_stale sv w2
           in (w3, Inr \<lparr>sw_swept = length due, sw_enqueued = n, sw_stale = s\<rparr>)))"

record trigger =
  tr_records :: "bytes list"
  tr_mode :: string
  tr_source :: string

definition zero_counts :: counts where
  "zero_counts = [(''processed'', 0), (''skipped'', 0), (''failed'', 0)]"

definition handler :: "service \<Rightarrow> trigger \<Rightarrow> world \<Rightarrow> world \<times> (exc + (swept + counts))" where
  "handler sv ev w =
     (if tr_records ev = [] \<or> tr_mode ev = ''sweep'' \<or> tr_source ev = ''aws.events''
      then (case sweep sv w of (w', r) \<Rightarrow> (w', map_sum id Inl r))
      else (case handle_records sv (tr_records ev) zero_counts w of (w', r) \<Rightarrow> (w', map_sum id Inr r)))"

text \<open>
  One round of the local poller: every received message is a batch of its own, and the
  receipt handles of those that did not raise are deleted; the others stay on the queue.
\<close>

fun poll_round :: "service \<Rightarrow> (string \<times> bytes) list \<Rightarrow> world \<Rightarrow> world \<times> string list" where
  "poll_round sv [] w = (w, [])"
| "poll_round sv ((handle, body) # ms) w =
     (case handler sv \<lparr>tr_records = [body], tr_mode = [], tr_source = []\<rparr> w of
        (w1, Inl e) \<Rightarrow> poll_round sv ms w1
      | (w1, Inr _) \<Rightarrow> (let (w2, hs) = poll_round sv ms w1 in (w2, handle # hs)))"

end
