(* ===== verification/Dispatch_System.thy ===== *)
theory Dispatch_System
  imports Cloud_Dispatcher
begin

text \<open>
  Any number of dispatcher workers at once, with everything else that writes packs. A worker
  takes \<open>process\<close> in its database and network steps; between two of its steps any other
  worker may step, a terminal may push or cancel, a sweep may expire claims, and the worker
  itself may die. The queue delivers any pack id to any worker any number of times.
\<close>

section \<open>Workers and steps\<close>

datatype pc =
    Idle
  | Checked string
  | Owner string
  | Giving_up string "(string \<times> attr) list"
  | Ready string job
  | Returned string job result

record sys =
  sy_world :: world
  sy_pc :: "nat \<Rightarrow> pc"

definition posted :: "sys \<Rightarrow> string list" where
  "posted s = map fst (w_posts (sy_world s))"

abbreviation pack_state :: "sys \<Rightarrow> string \<Rightarrow> pstate" where
  "pack_state s pid \<equiv> pstate_of (w_table (sy_world s)) pid"

fun is_finish :: "pack_op \<Rightarrow> bool" where
  "is_finish (Finish _ _ _) = True"
| "is_finish _ = False"

text \<open>A change that is no business of the packs: other items, statistics, clocks, the queue.\<close>

definition same_packs :: "world \<Rightarrow> world \<Rightarrow> bool" where
  "same_packs w w' \<longleftrightarrow> w_posts w' = w_posts w \<and> (wf_table (w_table w) \<longrightarrow> wf_table (w_table w')) \<and>
     (\<forall>pid. get_pack_item (w_table w') pid = get_pack_item (w_table w) pid)"

inductive sys_step :: "service \<Rightarrow> sys \<Rightarrow> sys \<Rightarrow> bool" for sv where
  check: "sy_pc s k = Idle \<Longrightarrow> get_pack (w_table (sy_world s)) pid = Some (Some p) \<Longrightarrow> pk_status p = ''pending'' \<Longrightarrow>
    sys_step sv s (s\<lparr>sy_pc := (sy_pc s)(k := Checked pid)\<rparr>)"
| claim: "sy_pc s k = Checked pid \<Longrightarrow> claim_now sv pid (sy_world s) = (w, ok) \<Longrightarrow>
    sys_step sv s \<lparr>sy_world = w, sy_pc = (sy_pc s)(k := if ok then Owner pid else Idle)\<rparr>"
| prep: "sy_pc s k = Owner pid \<Longrightarrow> prep_read sv pid (sy_world s) = (w, r) \<Longrightarrow>
    sys_step sv s \<lparr>sy_world = w, sy_pc = (sy_pc s)(k :=
      case r of Inl e \<Rightarrow> Idle | Inr (Give_up flds) \<Rightarrow> Giving_up pid flds | Inr (Go j) \<Rightarrow> Ready pid j)\<rparr>"
| give_up: "sy_pc s k = Giving_up pid flds \<Longrightarrow>
    sys_step sv s \<lparr>sy_world = update_now sv pid flds (sy_world s), sy_pc = (sy_pc s)(k := Idle)\<rparr>"
| send: "sy_pc s k = Ready pid j \<Longrightarrow> send_sync sv pid (jb_plain j) (sy_world s) = (w, r) \<Longrightarrow>
    sys_step sv s \<lparr>sy_world = w, sy_pc = (sy_pc s)(k := case r of Inl e \<Rightarrow> Idle | Inr x \<Rightarrow> Returned pid j x)\<rparr>"
| finish: "sy_pc s k = Returned pid j x \<Longrightarrow>
    sys_step sv s \<lparr>sy_world = fst (after_send sv pid j x (sy_world s)), sy_pc = (sy_pc s)(k := Idle)\<rparr>"
| crash: "sys_step sv s (s\<lparr>sy_pc := (sy_pc s)(k := Idle)\<rparr>)"
| others: "\<not> is_finish op \<Longrightarrow>
    sys_step sv s (s\<lparr>sy_world := (sy_world s)\<lparr>w_table := exec_pack op (w_table (sy_world s))\<rparr>\<rparr>)"
| elsewhere: "same_packs (sy_world s) w \<Longrightarrow> sys_step sv s (s\<lparr>sy_world := w\<rparr>)"

abbreviation sys_steps :: "service \<Rightarrow> sys \<Rightarrow> sys \<Rightarrow> bool" where
  "sys_steps sv \<equiv> rtranclp (sys_step sv)"

definition sys_init :: "sys \<Rightarrow> bool" where
  "sys_init s \<longleftrightarrow> pack_inv (w_table (sy_world s)) \<and> w_posts (sy_world s) = [] \<and> (\<forall>k. sy_pc s k = Idle) \<and>
     (\<forall>pid. pack_state s pid \<in> {Absent, Pending})"

section \<open>What the parts of a step do\<close>

lemma same_packs_state: "same_packs w w' \<Longrightarrow> pstate_of (w_table w') pid = pstate_of (w_table w) pid"
  by (simp add: same_packs_def pstate_of_def)

lemma same_packs_inv: "same_packs w w' \<Longrightarrow> pack_inv (w_table w) \<Longrightarrow> pack_inv (w_table w')"
  by (auto simp: same_packs_def pack_inv_def)

lemma same_packs_refl [simp]: "same_packs w w"
  by (simp add: same_packs_def)

lemma same_packs_trans: "same_packs w1 w2 \<Longrightarrow> same_packs w2 w3 \<Longrightarrow> same_packs w1 w3"
  by (simp add: same_packs_def)

lemma same_packs_tick [simp]: "same_packs w (w\<lparr>w_reads := n\<rparr>)"
  by (simp add: same_packs_def)

lemma pack_key_neq [simp]:
  "pack_key pid \<noteq> ''KTEMP_ACTIVE''" "pack_key pid \<noteq> ktemp_key kid" "pack_key pid \<noteq> ''COUNTER''" "pack_key pid \<noteq> ''EVENT''"
  by (simp_all add: pack_key_def ktemp_key_def)

lemma prep_read_same: "prep_read sv pid w = (w', r) \<Longrightarrow> same_packs w w'"
proof -
  assume p: "prep_read sv pid w = (w', r)"
  show ?thesis
  proof (cases "get_pack (w_table w) pid")
    case None
    with p show ?thesis by (auto simp: prep_read_def)
  next
    case (Some pack)
    obtain t key where k: "get_active_k_temp (sv_clock sv (w_reads w)) (w_table w) = (t, key)" by fastforce
    from p Some k have "w' = w\<lparr>w_reads := Suc (w_reads w), w_table := t\<rparr>"
      by (auto simp: prep_read_def tick_def)
    then show ?thesis
      using get_active_frame [OF k] wf_get_active [OF k] by (simp add: same_packs_def get_pack_item_def)
  qed
qed

definition giving_up_fields :: "(string \<times> attr) list \<Rightarrow> bool" where
  "giving_up_fields flds \<longleftrightarrow> outcome_fields flds \<and>
     (\<exists>s\<in>{''stuck_no_key'', ''failed''}. map_of flds ''status'' = Some (AStr s))"

lemma prep_read_fields: "prep_read sv pid w = (w', Inr (Give_up flds)) \<Longrightarrow> giving_up_fields flds"
  by (auto simp: prep_read_def no_key_attrs_def decrypt_failed_attrs_def giving_up_fields_def outcome_fields_def base_attrs_def
      outcomes_def split: option.splits prod.splits if_splits sum.splits)

definition sent_statuses :: "string set" where
  "sent_statuses = {''sent'', ''failed'', ''unknown''}"

lemma send_sync_cases:
  assumes "send_sync sv pid plain w = (w', r)"
  shows "w_table w' = w_table w"
    and "w_posts w' = w_posts w \<or> (\<exists>x. w_posts w' = w_posts w @ [(pid, x)])"
    and "r = Inr x \<Longrightarrow> rs_status x \<in> sent_statuses"
    and "r = Inr x \<Longrightarrow> rs_status x = ''sent'' \<Longrightarrow> w_posts w' \<noteq> w_posts w"
  using assms
  by (auto simp: send_sync_def result_of_def sent_statuses_def split: option.splits sum.splits if_splits reply.splits resp.splits)

lemma outcome_attrs_ok:
  "rs_status r \<in> sent_statuses \<Longrightarrow> outcome_fields (outcome_attrs r t) \<and> map_of (outcome_attrs r t) ''status'' = Some (AStr (rs_status r))"
  by (auto simp: outcome_fields_def outcome_attrs_def base_attrs_def outcomes_def sent_statuses_def)

lemma put_event_fst:
  "fst (put_event n a b c d e f g h t) =
     (let r = next_id ''event_log'' t in put_item ''EVENT'' (id_key (snd r))
        (event_item \<lparr>event_id = snd r, ev_table_name = a, ev_row_id = b, ev_revision = c, ev_actor = d,
           ev_modified_at = e, ev_key_id = f, ev_payload = g, ev_deleted = (if h then 1 else 0),
           ev_received_at = iso n\<rparr>) (fst r))"
  by (simp add: put_event_def Let_def case_prod_unfold)

lemma put_event_other: "p \<noteq> ''COUNTER'' \<Longrightarrow> p \<noteq> ''EVENT'' \<Longrightarrow> get_item (fst (put_event n a b c d e f g h t)) p s = get_item t p s"
  by (simp add: put_event_fst Let_def get_put next_id_def get_add)

lemma wf_put_event: "wf_table t \<Longrightarrow> wf_table (fst (put_event n a b c d e f g h t))"
  by (simp add: put_event_fst Let_def next_id_def)

lemma update_now_step:
  assumes "pack_inv (w_table w)" "pstate_of (w_table w) pid \<in> {Claimed, Resolved ''unknown''}" "outcome_fields flds"
    and "map_of flds ''status'' = Some (AStr s)"
  shows "pack_inv (w_table (update_now sv pid flds w))"
    and "pstate_of (w_table (update_now sv pid flds w)) q = (if q = pid then Resolved s else pstate_of (w_table w) q)"
    and "w_posts (update_now sv pid flds w) = w_posts w"
  using finish_step [OF assms(1) _ assms(4), where now = "sv_clock sv (w_reads w)"] assms(2,3)
  by (auto simp: update_now_def tick_def)

lemma after_send_step:
  assumes "pack_inv (w_table w)" "pstate_of (w_table w) pid \<in> {Claimed, Resolved ''unknown''}" "rs_status r \<in> sent_statuses"
  shows "pack_inv (w_table (fst (after_send sv pid j r w)))"
    and "pstate_of (w_table (fst (after_send sv pid j r w))) q = (if q = pid then Resolved (rs_status r) else pstate_of (w_table w) q)"
    and "w_posts (fst (after_send sv pid j r w)) = w_posts w"
proof -
  let ?f = "outcome_attrs r (sv_stamp sv (w_reads w))" and ?w1 = "snd (tick sv w)"
  have w1: "w_table ?w1 = w_table w" "w_posts ?w1 = w_posts w" by (simp_all add: tick_def)
  note u = update_now_step [where w = ?w1 and sv = sv, unfolded w1, OF assms(1,2) conjunct1 [OF outcome_attrs_ok [OF assms(3)]]
      conjunct2 [OF outcome_attrs_ok [OF assms(3)]]]
  have f: "same_packs (update_now sv pid ?f ?w1) (finalize sv pid r w)"
    by (auto simp: finalize_def tick_def same_packs_def get_pack_item_def put_event_other wf_put_event Let_def)
  have "same_packs (finalize sv pid r w) (fst (after_send sv pid j r w))"
    by (auto simp: after_send_def update_campaign_stats_def same_packs_def Let_def split: option.splits sum.splits prod.splits if_splits)
  with f have s: "same_packs (update_now sv pid ?f ?w1) (fst (after_send sv pid j r w))" by (rule same_packs_trans)
  show "pack_inv (w_table (fst (after_send sv pid j r w)))" using same_packs_inv [OF s] u(1) by simp
  show "pstate_of (w_table (fst (after_send sv pid j r w))) q = (if q = pid then Resolved (rs_status r) else pstate_of (w_table w) q)"
    using same_packs_state [OF s] u(2) by simp
  show "w_posts (fst (after_send sv pid j r w)) = w_posts w" using s u(3) by (simp add: same_packs_def)
qed

section \<open>The invariant\<close>

fun owned :: "pc \<Rightarrow> string option" where
  "owned (Owner pid) = Some pid"
| "owned (Giving_up pid _) = Some pid"
| "owned (Ready pid _) = Some pid"
| "owned (Returned pid _ _) = Some pid"
| "owned _ = None"

fun unsent :: "pc \<Rightarrow> string option" where
  "unsent (Owner pid) = Some pid"
| "unsent (Giving_up pid _) = Some pid"
| "unsent (Ready pid _) = Some pid"
| "unsent _ = None"

fun pc_ok :: "string list \<Rightarrow> pc \<Rightarrow> bool" where
  "pc_ok ps (Giving_up pid flds) = giving_up_fields flds"
| "pc_ok ps (Returned pid j r) = (rs_status r \<in> sent_statuses \<and> (rs_status r = ''sent'' \<longrightarrow> pid \<in> set ps))"
| "pc_ok ps _ = True"

text \<open>
  Over the state of each pack, the workers and the packs posted: an owned pack is claimed or
  has expired, and has one owner; an owner that has not sent owns a pack that was not
  posted; a posted pack is claimed or has an outcome of a send, no pack is posted twice,
  and a pack that counts as sent was posted.
\<close>

definition owner_inv :: "(string \<Rightarrow> pstate) \<Rightarrow> (nat \<Rightarrow> pc) \<Rightarrow> string list \<Rightarrow> bool" where
  "owner_inv f pcs ps \<longleftrightarrow>
     (\<forall>k pid. owned (pcs k) = Some pid \<longrightarrow> f pid \<in> {Claimed, Resolved ''unknown''}) \<and>
     (\<forall>k k' pid. owned (pcs k) = Some pid \<longrightarrow> owned (pcs k') = Some pid \<longrightarrow> k = k') \<and>
     (\<forall>k pid. unsent (pcs k) = Some pid \<longrightarrow> pid \<notin> set ps) \<and>
     (\<forall>k. pc_ok ps (pcs k)) \<and>
     (\<forall>pid \<in> set ps. f pid \<in> {Claimed, Resolved ''sent'', Resolved ''failed'', Resolved ''unknown''}) \<and>
     (\<forall>pid. f pid = Resolved ''sent'' \<longrightarrow> pid \<in> set ps) \<and> distinct ps"

definition sys_inv :: "sys \<Rightarrow> bool" where
  "sys_inv s \<longleftrightarrow> pack_inv (w_table (sy_world s)) \<and> owner_inv (pack_state s) (sy_pc s) (posted s)"

lemma unsent_owned: "unsent pc = Some pid \<Longrightarrow> owned pc = Some pid"
  by (cases pc) auto

text \<open>A worker lets go of what it owns, or turns to a pack it does not own yet.\<close>

lemma owner_inv_drop:
  assumes "owner_inv f pcs ps" "owned pc = None" "pc_ok ps pc"
  shows "owner_inv f (pcs(k := pc)) ps"
proof -
  have "unsent pc = None" using assms(2) by (cases pc) auto
  then show ?thesis using assms unfolding owner_inv_def by auto
qed

text \<open>A worker goes on with the pack it owns.\<close>

lemma owner_inv_keep:
  assumes "owner_inv f pcs ps" "owned (pcs k) = Some pid" "owned pc = Some pid" "pc_ok ps pc"
    and "unsent pc \<noteq> None \<Longrightarrow> unsent (pcs k) \<noteq> None"
  shows "owner_inv f (pcs(k := pc)) ps"
proof -
  have "unsent pc = Some q \<Longrightarrow> unsent (pcs k) = Some q" for q
    using assms(2,3,5) unsent_owned [of pc q] unsent_owned [of "pcs k"] by (cases "unsent (pcs k)") fastforce+
  then show ?thesis using assms unfolding owner_inv_def by auto
qed

text \<open>A pack nobody owns and nobody posted is claimed.\<close>

lemma owner_inv_claim:
  assumes "owner_inv f pcs ps" "f pid = Pending" "f' = f(pid := Claimed)"
  shows "owner_inv f' (pcs(k := Owner pid)) ps"
proof -
  have "owned (pcs k') \<noteq> Some pid" for k' using assms(1,2) unfolding owner_inv_def by fastforce
  moreover have "pid \<notin> set ps" using assms(1,2) unfolding owner_inv_def by fastforce
  ultimately show ?thesis using assms unfolding owner_inv_def by auto
qed

text \<open>The pack a worker owns is posted.\<close>

lemma pc_ok_mono: "pc_ok ps pc \<Longrightarrow> pc_ok (ps @ qs) pc"
  by (cases pc) auto

lemma owner_inv_post:
  assumes inv: "owner_inv f pcs ps" and un: "unsent (pcs k) = Some pid" and ok: "pc_ok (ps @ [pid]) pc"
    and pc: "unsent pc = None" "owned pc \<in> {None, Some pid}"
  shows "owner_inv f (pcs(k := pc)) (ps @ [pid])"
proof -
  have own: "owned (pcs k) = Some pid" using un by (rule unsent_owned)
  then have others: "k' \<noteq> k \<Longrightarrow> owned (pcs k') \<noteq> Some pid" for k'
    using inv unfolding owner_inv_def by metis
  then have unsents: "k' \<noteq> k \<Longrightarrow> unsent (pcs k') \<noteq> Some pid" for k' using unsent_owned by blast
  have new: "pid \<notin> set ps" and "f pid \<in> {Claimed, Resolved ''unknown''}"
    using inv un own unfolding owner_inv_def by blast+
  then consider "f pid = Claimed" | "f pid = Resolved ''unknown''" by blast
  moreover have "owned pc = Some q \<Longrightarrow> q = pid" for q using pc(2) by auto
  ultimately show ?thesis
    using inv ok pc(1) new others unsents unfolding owner_inv_def by cases (auto simp: pc_ok_mono)
qed

text \<open>The owner writes the outcome and lets go.\<close>

lemma owner_inv_resolve:
  assumes inv: "owner_inv f pcs ps" and own: "owned (pcs k) = Some pid" and f': "f' = f(pid := Resolved s)"
    and posted: "pid \<in> set ps \<Longrightarrow> s \<in> sent_statuses" and sent: "s = ''sent'' \<Longrightarrow> pid \<in> set ps"
  shows "owner_inv f' (pcs(k := Idle)) ps"
proof -
  have "k' \<noteq> k \<Longrightarrow> owned (pcs k') \<noteq> Some pid" for k'
    using inv own unfolding owner_inv_def by metis
  then show ?thesis using assms unfolding owner_inv_def sent_statuses_def by auto
qed

text \<open>Everyone else moves packs along \<open>pack_step\<close>, and only the unclaimed or by expiry.\<close>

lemma owner_inv_others:
  assumes inv: "owner_inv f pcs ps"
    and step: "\<And>q. f' q = f q \<or> f q = Absent \<and> f' q = Pending \<or> f q = Pending \<and> f' q \<in> {Claimed, Resolved ''cancelled''} \<or>
       f q = Claimed \<and> f' q = Resolved ''unknown''"
  shows "owner_inv f' pcs ps"
proof -
  have "f q \<in> {Claimed, Resolved ''unknown''} \<Longrightarrow> f' q \<in> {Claimed, Resolved ''unknown''}" for q
    using step [of q] by auto
  moreover have "f q \<in> {Claimed, Resolved ''sent'', Resolved ''failed'', Resolved ''unknown''} \<Longrightarrow>
      f' q \<in> {Claimed, Resolved ''sent'', Resolved ''failed'', Resolved ''unknown''}" for q
    using step [of q] by auto
  moreover have "f' q = Resolved ''sent'' \<Longrightarrow> f q = Resolved ''sent''" for q
    using step [of q] by auto
  ultimately show ?thesis using inv unfolding owner_inv_def by meson
qed

lemma exec_others:
  assumes inv: "pack_inv t" and op: "\<not> is_finish op"
  shows "pack_inv (exec_pack op t)"
    and "pstate_of (exec_pack op t) q = pstate_of t q \<or>
      pstate_of t q = Absent \<and> pstate_of (exec_pack op t) q = Pending \<or>
      pstate_of t q = Pending \<and> pstate_of (exec_pack op t) q \<in> {Claimed, Resolved ''cancelled''} \<or>
      pstate_of t q = Claimed \<and> pstate_of (exec_pack op t) q = Resolved ''unknown''"
proof -
  have "pack_op_ok op t" using op by (cases op) auto
  then show "pack_inv (exec_pack op t)" using inv by (rule packs.inv_exec [rotated])
  show "pstate_of (exec_pack op t) q = pstate_of t q \<or>
      pstate_of t q = Absent \<and> pstate_of (exec_pack op t) q = Pending \<or>
      pstate_of t q = Pending \<and> pstate_of (exec_pack op t) q \<in> {Claimed, Resolved ''cancelled''} \<or>
      pstate_of t q = Claimed \<and> pstate_of (exec_pack op t) q = Resolved ''unknown''"
  proof (cases op)
    case (Put now pid c rh ch sa k p pb)
    then show ?thesis
      using put_step [OF inv, of now pid c rh ch sa k p pb]
      by (cases "put_pack now pid c rh ch sa k p pb t") auto
  next
    case (Claim now pid)
    then show ?thesis using claim_step [OF inv, of now pid] by (cases "claim_pack now pid t") auto
  next
    case (Cancel now pid)
    then show ?thesis using cancel_step [OF inv, of now pid] by (cases "cancel_pack now pid t") auto
  next
    case (CancelAll now c g)
    obtain t' r where "cancel_pending_for_campaign now c g t = (t', r)" by fastforce
    then show ?thesis
      using CancelAll cancel_each_step [OF inv, of now _ 0 t' r] by (simp add: cancel_pending_for_campaign_def) metis
  next
    case (Expire now older limit g)
    obtain t' r where "expire_stale_claims now older limit g t = (t', r)" by fastforce
    then show ?thesis
      using Expire expire_each_step [OF inv, of now limit _ 0 t' r] by (simp add: expire_stale_claims_def) metis
  qed (use op in auto)
qed

lemma sys_inv_init: "sys_init s \<Longrightarrow> sys_inv s"
proof -
  assume init: "sys_init s"
  then have "pack_state s pid \<noteq> Resolved ''sent''" for pid
    by (auto simp: sys_init_def) (metis pstate.distinct)
  with init show ?thesis by (simp add: sys_init_def sys_inv_def owner_inv_def posted_def)
qed

lemma sys_inv_step:
  assumes step: "sys_step sv s s'" and inv: "sys_inv s"
  shows "sys_inv s'"
proof -
  have t: "pack_inv (w_table (sy_world s))" and o1: "owner_inv (pack_state s) (sy_pc s) (posted s)"
    using inv by (simp_all add: sys_inv_def)
  from step show ?thesis
  proof cases
    case (check k pid p)
    then show ?thesis using t owner_inv_drop [OF o1, of "Checked pid"] by (simp add: sys_inv_def posted_def)
  next
    case (claim k pid w ok)
    obtain t' where w: "claim_pack (sv_clock sv (w_reads (sy_world s))) pid (w_table (sy_world s)) = (t', ok)"
        "w = sy_world s\<lparr>w_reads := Suc (w_reads (sy_world s)), w_table := t'\<rparr>"
      using claim(3) by (auto simp: claim_now_def tick_def split: prod.splits)
    note st = claim_step [OF t w(1)]
    show ?thesis
    proof (cases ok)
      case True
      then have "pstate_of t' = (pack_state s)(pid := Claimed)" using st(2) by auto
      then have "owner_inv (pstate_of t') ((sy_pc s)(k := Owner pid)) (posted s)"
        using True st(3) by (intro owner_inv_claim [OF o1]) auto
      then show ?thesis using claim True w(2) st(1) by (simp add: sys_inv_def posted_def)
    next
      case False
      then have "pstate_of t' = pack_state s" using st(2) by auto
      then show ?thesis
        using claim False w(2) st(1) owner_inv_drop [OF o1, of Idle k] by (simp add: sys_inv_def posted_def)
    qed
  next
    case (prep k pid w r)
    note same = prep_read_same [OF prep(3)]
    have "pstate_of (w_table w) = pack_state s" using same_packs_state [OF same] by auto
    moreover have "posted s' = posted s" using same prep(1) by (simp add: posted_def same_packs_def)
    moreover have "owner_inv (pack_state s) ((sy_pc s)(k := case r of Inl e \<Rightarrow> Idle | Inr (Give_up flds) \<Rightarrow> Giving_up pid flds
        | Inr (Go j) \<Rightarrow> Ready pid j)) (posted s)"
    proof (cases r)
      case (Inl e)
      then show ?thesis using owner_inv_drop [OF o1] by simp
    next
      case (Inr pr)
      show ?thesis
      proof (cases pr)
        case (Go j)
        then show ?thesis using Inr prep(2) owner_inv_keep [OF o1, of k pid "Ready pid j"] by simp
      next
        case (Give_up flds)
        then have "giving_up_fields flds" using Inr prep(3) prep_read_fields by blast
        then show ?thesis using Give_up Inr prep(2) owner_inv_keep [OF o1, of k pid "Giving_up pid flds"] by simp
      qed
    qed
    ultimately show ?thesis using prep(1) same_packs_inv [OF same t] by (simp add: sys_inv_def)
  next
    case (give_up k pid flds)
    have gf: "giving_up_fields flds"
      using o1 give_up(2) unfolding owner_inv_def by (metis pc_ok.simps(1))
    then obtain st where st: "st \<in> {''stuck_no_key'', ''failed''}" "map_of flds ''status'' = Some (AStr st)"
      by (auto simp: giving_up_fields_def)
    have own: "owned (sy_pc s k) = Some pid" "unsent (sy_pc s k) = Some pid" using give_up by simp_all
    then have "pack_state s pid \<in> {Claimed, Resolved ''unknown''}" "pid \<notin> set (posted s)"
      using o1 unfolding owner_inv_def by blast+
    note u = update_now_step [OF t this(1) _ st(2), where sv = sv] and np = this(2)
    have fo: "outcome_fields flds" using gf by (simp add: giving_up_fields_def)
    have "pstate_of (w_table (update_now sv pid flds (sy_world s))) = (pack_state s)(pid := Resolved st)"
      using u(2) [OF fo] by auto
    from owner_inv_resolve [OF o1 own(1) this] np st(1)
    have "owner_inv (pstate_of (w_table (update_now sv pid flds (sy_world s)))) ((sy_pc s)(k := Idle)) (posted s)" by auto
    then show ?thesis using give_up(1) u(1,3) [OF fo] by (simp add: sys_inv_def posted_def)
  next
    case (send k pid j w r)
    note c = send_sync_cases [OF send(3)]
    have st: "pack_state s' = pack_state s" "pack_inv (w_table (sy_world s'))" using send(1) c(1) t by auto
    let ?pc = "case r of Inl e \<Rightarrow> Idle | Inr x \<Rightarrow> Returned pid j x"
    have "owner_inv (pack_state s) ((sy_pc s)(k := ?pc)) (posted s')"
    proof (cases "w_posts w = w_posts (sy_world s)")
      case True
      then have same: "posted s' = posted s" using send(1) by (simp add: posted_def)
      show ?thesis
      proof (cases r)
        case (Inl e)
        then show ?thesis using owner_inv_drop [OF o1] same by simp
      next
        case (Inr x)
        with c True have "pc_ok (posted s) (Returned pid j x)" by auto
        then show ?thesis using Inr same send(2) owner_inv_keep [OF o1, of k pid "Returned pid j x"] by simp
      qed
    next
      case False
      then have new: "posted s' = posted s @ [pid]" using send(1) c(2) by (auto simp: posted_def)
      have "pc_ok (posted s @ [pid]) ?pc" using c(3) by (auto split: sum.splits)
      then have "owner_inv (pack_state s) ((sy_pc s)(k := ?pc)) (posted s @ [pid])"
        using send(2) by (intro owner_inv_post [OF o1]) (auto split: sum.splits)
      then show ?thesis by (simp add: new)
    qed
    then show ?thesis using send(1) st by (simp add: sys_inv_def)
  next
    case (finish k pid j x)
    have ok: "pc_ok (posted s) (Returned pid j x)" using o1 finish(2) unfolding owner_inv_def by metis
    have own: "owned (sy_pc s k) = Some pid" using finish by simp
    then have "pack_state s pid \<in> {Claimed, Resolved ''unknown''}" using o1 unfolding owner_inv_def by blast
    note a = after_send_step [OF t this, where r = x and sv = sv and j = j]
    have "rs_status x \<in> sent_statuses" using ok by simp
    note a = a [OF this]
    have "pstate_of (w_table (fst (after_send sv pid j x (sy_world s)))) = (pack_state s)(pid := Resolved (rs_status x))"
      using a(2) by auto
    from owner_inv_resolve [OF o1 own this] ok
    have "owner_inv (pstate_of (w_table (fst (after_send sv pid j x (sy_world s))))) ((sy_pc s)(k := Idle)) (posted s)" by simp
    then show ?thesis using finish(1) a(1,3) by (simp add: sys_inv_def posted_def)
  next
    case (crash k)
    then show ?thesis using t owner_inv_drop [OF o1, of Idle k] by (simp add: sys_inv_def posted_def)
  next
    case (others op)
    then show ?thesis
      using exec_others [OF t others(2)] owner_inv_others [OF o1, of "pstate_of (exec_pack op (w_table (sy_world s)))"]
      by (simp add: sys_inv_def posted_def)
  next
    case (elsewhere w)
    then show ?thesis
      using same_packs_inv [OF elsewhere(2) t] same_packs_state [OF elsewhere(2)] o1
      by (simp add: sys_inv_def posted_def same_packs_def)
  qed
qed

lemma sys_inv_steps: "sys_steps sv s s' \<Longrightarrow> sys_inv s \<Longrightarrow> sys_inv s'"
  by (induction rule: rtranclp_induct) (auto intro: sys_inv_step)

lemma reachable_inv: "sys_init s0 \<Longrightarrow> sys_steps sv s0 s \<Longrightarrow> sys_inv s"
  by (blast intro: sys_inv_init sys_inv_steps)

end
