(* ===== verification/Dispatch_Properties.thy ===== *)
theory Dispatch_Properties
  imports Dispatch_System
begin

text \<open>
  That the sequential code of the dispatcher is a run of the worker steps, and what follows
  for every interleaving: a pack is posted to the mail service at most once, a cancelled one
  never, and a pack reported as sent was posted exactly once.
\<close>

section \<open>The code takes the steps\<close>

definition on :: "sys \<Rightarrow> world \<Rightarrow> sys" where
  "on s w = s\<lparr>sy_world := w\<rparr>"

lemma on_simps [simp]: "sy_world (on s w) = w" "sy_pc (on s w) = sy_pc s" "on (on s w) w' = on s w'" "on s (sy_world s) = s"
  by (simp_all add: on_def)

lemma on_alt: "\<lparr>sy_world = w, sy_pc = sy_pc s\<rparr> = on s w"
  by (cases s) (simp add: on_def)

lemma elsewhere_steps: "same_packs w w' \<Longrightarrow> sys_steps sv (on s w) (on s w')"
  using sys_step.elsewhere [of "on s w" w' sv] by (simp add: on_def r_into_rtranclp)

lemma step_chain: "sys_step sv s s1 \<Longrightarrow> s1 = s2 \<Longrightarrow> sys_steps sv s2 s3 \<Longrightarrow> sys_steps sv s s3"
  by auto

lemma send_path:
  assumes idle: "sy_pc s k = Ready pid j" and send: "send_sync sv pid (jb_plain j) (sy_world s) = (w, r)"
  shows "sys_steps sv s
     \<lparr>sy_world = (case r of Inl e \<Rightarrow> w | Inr x \<Rightarrow> fst (after_send sv pid j x w)), sy_pc = (sy_pc s)(k := Idle)\<rparr>"
proof (cases r)
  case (Inl e)
  then show ?thesis using sys_step.send [OF idle send] by auto
next
  case (Inr x)
  let ?s1 = "\<lparr>sy_world = w, sy_pc = (sy_pc s)(k := Returned pid j x)\<rparr>"
  have "sys_step sv s ?s1" using sys_step.send [OF idle send] Inr by simp
  moreover have "sys_step sv ?s1 \<lparr>sy_world = fst (after_send sv pid j x w), sy_pc = (sy_pc s)(k := Idle)\<rparr>"
    using sys_step.finish [of ?s1 k pid j x sv] by simp
  ultimately show ?thesis using Inr by (simp add: converse_rtranclp_into_rtranclp r_into_rtranclp)
qed

definition after_claim :: "service \<Rightarrow> string \<Rightarrow> world \<Rightarrow> world" where
  "after_claim sv pid w =
     (case prep_read sv pid w of
        (w2, Inl e) \<Rightarrow> w2
      | (w2, Inr (Give_up flds)) \<Rightarrow> update_now sv pid flds w2
      | (w2, Inr (Go j)) \<Rightarrow>
          (case send_sync sv pid (jb_plain j) w2 of (w3, Inl e) \<Rightarrow> w3 | (w3, Inr x) \<Rightarrow> fst (after_send sv pid j x w3)))"

lemma owner_path:
  assumes own: "sy_pc s k = Owner pid"
  shows "sys_steps sv s \<lparr>sy_world = after_claim sv pid (sy_world s), sy_pc = (sy_pc s)(k := Idle)\<rparr>"
proof -
  obtain w r where p: "prep_read sv pid (sy_world s) = (w, r)" by fastforce
  let ?pc = "case r of Inl e \<Rightarrow> Idle | Inr (Give_up flds) \<Rightarrow> Giving_up pid flds | Inr (Go j) \<Rightarrow> Ready pid j"
  let ?s1 = "\<lparr>sy_world = w, sy_pc = (sy_pc s)(k := ?pc)\<rparr>"
  have s1: "sys_step sv s ?s1" by (rule sys_step.prep [OF own p])
  show ?thesis
  proof (cases r)
    case (Inl e)
    with s1 p show ?thesis by (auto simp: after_claim_def)
  next
    case (Inr pr)
    show ?thesis
    proof (cases pr)
      case (Give_up flds)
      then have "sys_step sv ?s1 \<lparr>sy_world = after_claim sv pid (sy_world s), sy_pc = (sy_pc s)(k := Idle)\<rparr>"
        using sys_step.give_up [of ?s1 k pid flds sv] Inr p by (simp add: after_claim_def)
      with s1 show ?thesis by (rule step_chain [OF _ refl r_into_rtranclp])
    next
      case (Go j)
      obtain w3 r3 where sd: "send_sync sv pid (jb_plain j) w = (w3, r3)" by fastforce
      have "after_claim sv pid (sy_world s) = (case r3 of Inl e \<Rightarrow> w3 | Inr x \<Rightarrow> fst (after_send sv pid j x w3))"
        using Go Inr p sd by (auto simp: after_claim_def split: sum.splits)
      then have "sys_steps sv ?s1 \<lparr>sy_world = after_claim sv pid (sy_world s), sy_pc = (sy_pc s)(k := Idle)\<rparr>"
        using send_path [of ?s1 k pid j sv w3 r3] Go Inr sd by simp
      with s1 show ?thesis by (rule step_chain [OF _ refl])
    qed
  qed
qed

lemma process_fst:
  "fst (process sv pid w) =
     (case get_pack (w_table w) pid of
        Some (Some pack) \<Rightarrow>
          if pk_status pack \<noteq> ''pending'' then w
          else (let (w1, claimed) = claim_now sv pid w in if claimed then after_claim sv pid w1 else w1)
      | _ \<Rightarrow> w)"
  by (auto simp: process_def after_claim_def split: option.splits prod.splits sum.splits prep.splits)

lemma process_path:
  assumes idle: "sy_pc s k = Idle"
  shows "sys_steps sv s (on s (fst (process sv pid (sy_world s))))"
proof (cases "\<exists>pack. get_pack (w_table (sy_world s)) pid = Some (Some pack) \<and> pk_status pack = ''pending''")
  case False
  then have "fst (process sv pid (sy_world s)) = sy_world s"
    by (auto simp: process_fst split: option.splits)
  then show ?thesis by simp
next
  case True
  then obtain pack where pack: "get_pack (w_table (sy_world s)) pid = Some (Some pack)" "pk_status pack = ''pending''" by blast
  obtain w ok where c: "claim_now sv pid (sy_world s) = (w, ok)" by fastforce
  let ?s1 = "s\<lparr>sy_pc := (sy_pc s)(k := Checked pid)\<rparr>"
    and ?s2 = "\<lparr>sy_world = w, sy_pc = (sy_pc s)(k := if ok then Owner pid else Idle)\<rparr>"
  have s1: "sys_step sv s ?s1" by (rule sys_step.check [OF idle pack])
  have s2: "sys_step sv ?s1 ?s2" using sys_step.claim [of ?s1 k pid sv w ok] c by simp
  have "fst (process sv pid (sy_world s)) = (if ok then after_claim sv pid w else w)"
    using pack c by (simp add: process_fst)
  moreover have "(sy_pc s)(k := Idle) = sy_pc s" using idle by auto
  ultimately have "sys_steps sv ?s2 (on s (fst (process sv pid (sy_world s))))"
    using owner_path [of ?s2 k pid sv] by (cases ok) (simp_all add: on_alt)
  with s1 s2 show ?thesis by (metis converse_rtranclp_into_rtranclp)
qed

lemma group_path:
  assumes "sy_pc s k = Idle"
  shows "sys_steps sv (on s w) (on s (fst (handle_group sv n rs c w)))"
proof (induction sv n rs c w rule: handle_group.induct)
  case (3 sv n r rs c w)
  show ?case
  proof (cases "record_pack (sv_crypto sv) r")
    case None
    with 3(1) show ?thesis by simp
  next
    case (Some pid)
    obtain w1 res where p: "process sv pid w = (w1, res)" by fastforce
    have one: "sys_steps sv (on s w) (on s w1)" using process_path [of "on s w" k sv pid] assms p by simp
    show ?thesis
    proof (cases res)
      case (Inl e)
      with Some p one show ?thesis by simp
    next
      case (Inr x)
      then obtain out d m where res: "res = Inr (out, d, m)" by (cases x) auto
      from 3(2) [OF Some p [symmetric] res refl refl] one Some p res show ?thesis by simp
    qed
  qed
qed simp_all

lemma records_path:
  assumes "sy_pc s k = Idle"
  shows "sys_steps sv (on s w) (on s (fst (handle_records sv rs c w)))"
proof (induction sv rs c w rule: handle_records.induct)
  case (2 sv r rs c w)
  show ?case
  proof (cases "record_pack (sv_crypto sv) r")
    case None
    with 2(1) show ?thesis by simp
  next
    case (Some pid)
    obtain w1 res where p: "process sv pid w = (w1, res)" by fastforce
    have one: "sys_steps sv (on s w) (on s w1)" using process_path [of "on s w" k sv pid] assms p by simp
    show ?thesis
    proof (cases res)
      case (Inl e)
      with Some p one show ?thesis by simp
    next
      case (Inr x)
      then obtain out d m where res: "res = Inr (out, d, m)" by (cases x) auto
      obtain w2 r2 where g: "handle_group sv (nat (m - 1)) rs (bump out c) w1 = (w2, r2)" by fastforce
      have two: "sys_steps sv (on s w1) (on s w2)" using group_path [OF assms, of sv w1] g by (metis fst_conv)
      show ?thesis
      proof (cases r2)
        case (Inl e)
        with Some p res g one two show ?thesis by simp
      next
        case (Inr y)
        then obtain c2 rs2 where r2: "r2 = Inr (c2, rs2)" by (cases y) auto
        let ?w3 = "if 0 < d \<and> rs2 \<noteq> [] then w2\<lparr>w_sleeps := w_sleeps w2 @ [d]\<rparr> else w2"
        have "sys_steps sv (on s w2) (on s ?w3)" by (rule elsewhere_steps) (simp add: same_packs_def)
        moreover have "sys_steps sv (on s ?w3) (on s (fst (handle_records sv rs2 c2 ?w3)))"
          using 2(2) [OF Some p [symmetric] res refl refl g [symmetric] r2 refl] by simp
        ultimately have "sys_steps sv (on s w) (on s (fst (handle_records sv rs2 c2 ?w3)))"
          using one two by simp
        then show ?thesis using Some p res g r2 by simp
      qed
    qed
  qed
qed simp_all

lemma enqueue_same: "same_packs w (fst (enqueue_each sv ps w))"
proof (induction sv ps w rule: enqueue_each.induct)
  case (2 sv p ps w)
  show ?case
  proof (cases "sv_enqueue sv (pk_id p)")
    case True
    have "same_packs w (w\<lparr>w_queue := w_queue w @ [pk_id p]\<rparr>)" by (simp add: same_packs_def)
    from same_packs_trans [OF this 2(1) [OF True]] True show ?thesis by (simp add: Let_def case_prod_unfold)
  next
    case False
    with 2(2) show ?thesis by simp
  qed
qed simp

lemma expire_path: "sys_steps sv (on s w) (on s (fst (expire_stale sv w)))"
proof -
  let ?w1 = "snd (tick sv w)"
  let ?op = "Expire (sv_clock sv (w_reads w)) (sv_claim_stale sv) (sv_sweep_limit sv) (sv_index sv (w_table w))"
  have "sys_steps sv (on s w) (on s ?w1)" by (rule elsewhere_steps) (simp add: tick_def)
  moreover have "sys_step sv (on s ?w1) (on s (fst (expire_stale sv w)))"
    using sys_step.others [of ?op sv "on s ?w1"]
    by (simp add: expire_stale_def tick_def on_def case_prod_unfold Let_def)
  ultimately show ?thesis by (rule rtranclp.rtrancl_into_rtrancl)
qed

lemma sweep_path: "sys_steps sv (on s w) (on s (fst (sweep sv w)))"
proof -
  let ?w1 = "snd (tick sv w)"
  have one: "sys_steps sv (on s w) (on s ?w1)" by (rule elsewhere_steps) (simp add: tick_def)
  show ?thesis
  proof (cases "list_pending_packs (fst (tick sv w)) (sv_sweep_limit sv) (sv_index sv (w_table ?w1))")
    case None
    with one show ?thesis by (simp add: sweep_def case_prod_unfold Let_def)
  next
    case (Some due)
    have "sys_steps sv (on s ?w1) (on s (fst (enqueue_each sv due ?w1)))"
      by (rule elsewhere_steps) (rule enqueue_same)
    with one expire_path [of sv s "fst (enqueue_each sv due ?w1)"] Some show ?thesis
      by (simp add: sweep_def case_prod_unfold Let_def)
  qed
qed

lemma handler_path:
  assumes "sy_pc s k = Idle"
  shows "sys_steps sv (on s w) (on s (fst (handler sv ev w)))"
  using sweep_path [of sv s w] records_path [OF assms, of sv w "tr_records ev" zero_counts]
  by (auto simp: handler_def case_prod_unfold)

lemma poll_path:
  assumes "sy_pc s k = Idle"
  shows "sys_steps sv (on s w) (on s (fst (poll_round sv ms w)))"
proof (induction sv ms w rule: poll_round.induct)
  case (2 sv handle body ms w)
  obtain w1 r where h: "handler sv \<lparr>tr_records = [body], tr_mode = [], tr_source = []\<rparr> w = (w1, r)" by fastforce
  have one: "sys_steps sv (on s w) (on s w1)"
    using handler_path [OF assms, of sv w "\<lparr>tr_records = [body], tr_mode = [], tr_source = []\<rparr>"] h by simp
  show ?case
  proof (cases r)
    case (Inl e)
    with 2(1) [OF h [symmetric]] one h show ?thesis by simp
  next
    case (Inr x)
    with 2(2) [OF h [symmetric]] one h show ?thesis by (simp add: case_prod_unfold Let_def)
  qed
qed simp

section \<open>Each step follows the life of a pack\<close>

lemma pstate_trans:
  "b = a \<or> a = Absent \<and> b = Pending \<or> a = Pending \<and> b \<in> {Claimed, Resolved ''cancelled''} \<or>
     a = Claimed \<and> b = Resolved ''unknown'' \<or> a \<in> {Claimed, Resolved ''unknown''} \<and> (\<exists>s\<in>outcomes. b = Resolved s)
   \<Longrightarrow> rtranclp pack_step a b"
  by (cases "b = a") (auto simp: outcomes_def intro!: r_into_rtranclp)

lemma step_refines:
  assumes step: "sys_step sv s s'" and inv: "sys_inv s"
  shows "rtranclp pack_step (pack_state s pid) (pack_state s' pid)"
proof (rule pstate_trans)
  let ?a = "pack_state s pid" and ?b = "pack_state s' pid"
  have t: "pack_inv (w_table (sy_world s))" and o1: "owner_inv (pack_state s) (sy_pc s) (posted s)"
    using inv by (simp_all add: sys_inv_def)
  from step show "?b = ?a \<or> ?a = Absent \<and> ?b = Pending \<or> ?a = Pending \<and> ?b \<in> {Claimed, Resolved ''cancelled''} \<or>
     ?a = Claimed \<and> ?b = Resolved ''unknown'' \<or> ?a \<in> {Claimed, Resolved ''unknown''} \<and> (\<exists>s\<in>outcomes. ?b = Resolved s)"
  proof cases
    case (claim k q w ok)
    obtain t' where w: "claim_pack (sv_clock sv (w_reads (sy_world s))) q (w_table (sy_world s)) = (t', ok)"
        "w_table w = t'"
      using claim(3) by (auto simp: claim_now_def tick_def split: prod.splits)
    with claim(1) show ?thesis using claim_step [OF t w(1)] by auto
  next
    case (prep k q w r)
    then show ?thesis using same_packs_state [OF prep_read_same [OF prep(3)]] by simp
  next
    case (give_up k q flds)
    have gf: "giving_up_fields flds" using o1 give_up(2) unfolding owner_inv_def by (metis pc_ok.simps(1))
    then obtain st where st: "st \<in> {''stuck_no_key'', ''failed''}" "map_of flds ''status'' = Some (AStr st)"
      by (auto simp: giving_up_fields_def)
    have "owned (sy_pc s k) = Some q" using give_up by simp
    then have c: "pack_state s q \<in> {Claimed, Resolved ''unknown''}" using o1 unfolding owner_inv_def by blast
    have "?b = (if pid = q then Resolved st else ?a)"
      using update_now_step(2) [OF t c _ st(2)] gf give_up(1) by (simp add: giving_up_fields_def)
    moreover have "st \<in> outcomes" using st(1) by (auto simp: outcomes_def)
    ultimately show ?thesis using c by auto
  next
    case (send k q j w r)
    then show ?thesis using send_sync_cases(1) [OF send(3)] by simp
  next
    case (finish k q j x)
    have ok: "rs_status x \<in> sent_statuses" using o1 finish(2) unfolding owner_inv_def by (metis pc_ok.simps(2))
    have "owned (sy_pc s k) = Some q" using finish by simp
    then have c: "pack_state s q \<in> {Claimed, Resolved ''unknown''}" using o1 unfolding owner_inv_def by blast
    have "?b = (if pid = q then Resolved (rs_status x) else ?a)"
      using after_send_step(2) [OF t c ok] finish(1) by simp
    moreover have "rs_status x \<in> outcomes" using ok by (auto simp: outcomes_def sent_statuses_def)
    ultimately show ?thesis using c by auto
  next
    case (others op)
    then show ?thesis using exec_others(2) [OF t others(2), of pid] by auto
  next
    case (elsewhere w)
    then show ?thesis using same_packs_state by simp
  qed simp_all
qed

lemma steps_refine:
  "sys_steps sv s s' \<Longrightarrow> sys_inv s \<Longrightarrow> rtranclp pack_step (pack_state s pid) (pack_state s' pid)"
proof (induction rule: rtranclp_induct)
  case (step s1 s2)
  then show ?case using step_refines [OF step(2) sys_inv_steps [OF step(1)]] by (metis rtranclp_trans)
qed simp

lemma steps_final:
  assumes "sys_steps sv s s'" "sys_inv s" "pack_state s pid = Resolved r" "r \<noteq> ''unknown''"
  shows "pack_state s' pid = Resolved r"
  using steps_refine [OF assms(1,2), of pid] assms(3,4) by (auto elim: converse_rtranclpE)

section \<open>A concrete run\<close>

definition demo_plain :: json where
  "demo_plain = JObj [(''resend_api_key'', JStr ''key''), (''from'', JStr ''a@x''), (''recipient'', JStr ''b@y''),
     (''subject'', JStr ''s''), (''html'', JStr ''h''), (''campaign_id'', JInt 7), (''rate_limit_per_min'', JInt 30)]"

definition demo_crypto :: crypto where
  "demo_crypto =
     \<lparr>json_loads = (\<lambda>b. if b = ''env'' then Some (JObj [(''mode'', JStr ''K_temp''), (''nonce'', JStr []), (''ct'', JStr ''ZG9j'')])
        else if b = ''doc'' then Some demo_plain
        else if b = ''m1'' then Some (JObj [(''pack_id'', JStr ''p1'')]) else None),
      json_dumps = (\<lambda>_. ''json''), aes_enc = (\<lambda>k n p. p), aes_dec = (\<lambda>k n c. Some c), seal = (\<lambda>pub r m. m),
      unseal = (\<lambda>priv c. Some c), pub_of = (\<lambda>priv. priv), sha256_hex = (\<lambda>b. ''0123456789abcdef'')\<rparr>"

definition demo_service :: service where
  "demo_service =
     \<lparr>sv_crypto = demo_crypto, sv_clock = (\<lambda>i. 1000 + int i), sv_stamp = (\<lambda>i. ''1970-01-01T00:16:40+00:00''),
      sv_post = (\<lambda>i k b. Reply 200 (Dict (Some ''re_1'') None)), sv_uniform = (\<lambda>i. 0), sv_enqueue = (\<lambda>_. True),
      sv_index = (\<lambda>t. t), sv_claim_stale = 900, sv_sweep_limit = 200\<rparr>"

definition demo_keys :: table where
  "demo_keys = fst (projr (set_k_temp (sha256_hex demo_crypto) 900 (replicate 32 CHR ''k'') 3600 ''operator'' []))"

definition demo_table :: table where
  "demo_table = the (put_pack 950 ''p1'' 7 ''rh'' ''ch'' (iso 960) ''01234567'' ''env'' ''operator'' demo_keys)"

definition demo_world :: world where
  "demo_world = \<lparr>w_table = demo_table, w_stats = [], w_posts = [], w_queue = [], w_sleeps = [], w_reads = 0\<rparr>"

definition demo_sys :: sys where
  "demo_sys = \<lparr>sy_world = demo_world, sy_pc = (\<lambda>_. Idle)\<rparr>"

lemma demo_put: "put_pack 950 ''p1'' 7 ''rh'' ''ch'' (iso 960) ''01234567'' ''env'' ''operator'' demo_keys = Some demo_table"
  by (simp add: demo_table_def put_pack_def put_item_if_def demo_keys_def set_k_temp_def valid_ttls_def Let_def
      get_put attr_exists_def attr_of_def get_item_def put_item_def pack_key_def ktemp_key_def)

lemma demo_keys_inv: "pack_inv demo_keys \<and> pstate_of demo_keys pid = Absent"
  by (simp add: pack_inv_def demo_keys_def set_k_temp_def valid_ttls_def Let_def get_pack_item_def get_put
      pstate_of_def get_item_def wf_table_def put_item_def key_id_of_def ktemp_key_def pack_key_def)

lemma demo_init: "sys_init demo_sys"
  using put_step [OF conjunct1 [OF demo_keys_inv] demo_put] demo_keys_inv
  by (simp add: sys_init_def demo_sys_def demo_world_def)

lemma demo_get:
  "get_pack_item demo_table ''p1'' = Some (new_pack_item 950 ''p1'' 7 ''rh'' ''ch'' (iso 960) ''01234567'' ''env'' ''operator'')"
  using put_pack_item [OF demo_put, of "''p1''"] by simp

lemma demo_key_items:
  "get_item demo_table ''KTEMP_ACTIVE'' ''KTEMP_ACTIVE'' = get_item demo_keys ''KTEMP_ACTIVE'' ''KTEMP_ACTIVE''"
  "get_item demo_table (ktemp_key k) (ktemp_key k) = get_item demo_keys (ktemp_key k) (ktemp_key k)"
  using demo_put by (auto simp: put_pack_def get_put_if ktemp_key_def pack_key_def)

definition demo_claimed :: table where
  "demo_claimed = fst (claim_pack 1000 ''p1'' demo_table)"

lemma demo_claim: "claim_pack 1000 ''p1'' demo_table = (demo_claimed, True)"
  using claim_pack_ok [of 1000 "''p1''" demo_table] demo_get
  by (cases "claim_pack 1000 ''p1'' demo_table") (simp add: demo_claimed_def attr_eq_def attr_of_def new_pack_item_def)

lemma demo_claimed_items:
  "get_item demo_claimed ''KTEMP_ACTIVE'' ''KTEMP_ACTIVE'' = get_item demo_keys ''KTEMP_ACTIVE'' ''KTEMP_ACTIVE''"
  "get_item demo_claimed (ktemp_key k) (ktemp_key k) = get_item demo_keys (ktemp_key k) (ktemp_key k)"
  using demo_claim demo_key_items
  by (auto simp: claim_pack_def get_update_if ktemp_key_def pack_key_def split: option.splits)

lemma demo_key: "get_active_k_temp 1001 demo_claimed = (demo_claimed, Some (Some (replicate 32 CHR ''k'')))"
  by (simp add: get_active_k_temp_def fetch_ktemp_def active_id_def active_pointer_def demo_claimed_items
      demo_keys_def set_k_temp_def valid_ttls_def Let_def get_put key_id_of_def demo_crypto_def str_attr_def int_attr_def bytes_attr_def)

lemma demo_pack: "\<exists>p. get_pack demo_table ''p1'' = Some (Some p) \<and> pk_status p = ''pending''"
  using demo_get by (simp add: get_pack_def coerce_pack_def new_pack_item_def str_attr_def int_attr_def)

lemma demo_claimed_pack: "\<exists>p. get_pack demo_claimed ''p1'' = Some (Some p) \<and> pk_payload p = Some ''env''"
  using claim_pack_item [OF demo_claim, of "''p1''"] demo_get
  by (simp add: get_pack_def coerce_pack_def new_pack_item_def str_attr_def int_attr_def bytes_attr_def item_or_new_def)

lemma demo_decode: "b64decode ''ZG9j'' = Some ''doc''" "b64decode [] = Some []"
  by code_simp+

lemma demo_job:
  assumes "pk_payload p = Some ''env''"
  shows "\<exists>j. read_job demo_crypto (Some p) (replicate 32 CHR ''k'') = Inr j \<and> jb_plain j = demo_plain"
  using assms demo_decode
  by (simp add: read_job_def decrypt_with_temp_def open_temp_def jget_def jitem_def jb64_def demo_crypto_def
      job_of_def demo_plain_def jget_or_def jor_def)

lemma demo_send:
  "\<exists>x. send_sync demo_service ''p1'' demo_plain w =
     (w\<lparr>w_posts := w_posts w @ [(''p1'', JStr ''key'', x)]\<rparr>, Inr \<lparr>rs_status = ''sent'', rs_msg_id = Some ''re_1'', rs_failure = None\<rparr>)"
proof -
  have "\<exists>b. send_body demo_plain = Inr b"
    by (simp add: send_body_def demo_plain_def jitem_def jget_or_def jget_def)
  then obtain b where "send_body demo_plain = Inr b" by blast
  then show ?thesis
    by (intro exI [of _ b]) (simp add: send_sync_def jget_def demo_plain_def demo_service_def result_of_def)
qed

lemma after_send_posts: "w_posts (fst (after_send sv pid j r w)) = w_posts w"
  by (auto simp: after_send_def update_campaign_stats_def finalize_def update_now_def tick_def Let_def
      split: option.splits sum.splits prod.splits if_splits)

lemma demo_fst:
  "\<exists>j x w. fst (process demo_service ''p1'' demo_world) = fst (after_send demo_service ''p1'' j
       \<lparr>rs_status = ''sent'', rs_msg_id = Some ''re_1'', rs_failure = None\<rparr> w) \<and>
     w_posts w = [(''p1'', x)] \<and> w_table w = demo_claimed"
proof -
  obtain p where p: "get_pack demo_table ''p1'' = Some (Some p)" "pk_status p = ''pending''" using demo_pack by blast
  obtain p2 where p2: "get_pack demo_claimed ''p1'' = Some (Some p2)" "pk_payload p2 = Some ''env''" using demo_claimed_pack by blast
  obtain j where j: "read_job demo_crypto (Some p2) (replicate 32 CHR ''k'') = Inr j" "jb_plain j = demo_plain"
    using demo_job [OF p2(2)] by blast
  let ?w = "demo_world\<lparr>w_reads := 1, w_table := demo_claimed\<rparr>" and ?w2 = "demo_world\<lparr>w_reads := 2, w_table := demo_claimed\<rparr>"
  have c: "claim_now demo_service ''p1'' demo_world = (?w, True)"
    using demo_claim by (simp add: claim_now_def tick_def demo_world_def demo_service_def)
  have k: "get_active_k_temp (sv_clock demo_service 1) demo_claimed = (demo_claimed, Some (Some (replicate 32 CHR ''k'')))"
    using demo_key by (simp add: demo_service_def)
  have pr: "prep_read demo_service ''p1'' ?w = (?w2, Inr (Go j))"
    using p2 k j(1) by (simp add: prep_read_def tick_def demo_world_def demo_service_def)
  obtain x where s: "send_sync demo_service ''p1'' demo_plain ?w2 = (?w2\<lparr>w_posts := w_posts ?w2 @ [(''p1'', JStr ''key'', x)]\<rparr>,
      Inr \<lparr>rs_status = ''sent'', rs_msg_id = Some ''re_1'', rs_failure = None\<rparr>)" using demo_send by blast
  have "fst (process demo_service ''p1'' demo_world) = fst (after_send demo_service ''p1'' j
      \<lparr>rs_status = ''sent'', rs_msg_id = Some ''re_1'', rs_failure = None\<rparr> (?w2\<lparr>w_posts := w_posts ?w2 @ [(''p1'', JStr ''key'', x)]\<rparr>))"
    using p c pr s j(2) by (simp add: process_fst after_claim_def demo_world_def)
  then show ?thesis
    by (intro exI [of _ j] exI [of _ "(JStr ''key'', x)"]
        exI [of _ "?w2\<lparr>w_posts := w_posts ?w2 @ [(''p1'', JStr ''key'', x)]\<rparr>"] conjI) (simp_all add: demo_world_def)
qed

lemma demo_run: "posted (on demo_sys (fst (process demo_service ''p1'' demo_world))) = [''p1'']"
  using demo_fst by (auto simp: posted_def after_send_posts)

lemma demo_sent: "pstate_of (w_table (fst (process demo_service ''p1'' demo_world))) ''p1'' = Resolved ''sent''"
proof -
  have inv: "pack_inv demo_table" using put_step(1) [OF conjunct1 [OF demo_keys_inv] demo_put] .
  note c = claim_step [OF inv demo_claim]
  have "pstate_of demo_claimed ''p1'' \<in> {Claimed, Resolved ''unknown''}" using c(2) [of "''p1''"] by simp
  from after_send_step(2) [OF _ _ _] c(1) this demo_fst show ?thesis
    by (force simp: sent_statuses_def)
qed

lemma demo_steps: "sys_steps demo_service demo_sys (on demo_sys (fst (process demo_service ''p1'' demo_world)))"
  using process_path [of demo_sys 0 demo_service "''p1''"] by (simp add: demo_sys_def)

lemma count_list_distinct: "distinct xs \<Longrightarrow> x \<in> set xs \<Longrightarrow> count_list xs x = 1"
  by (induction xs) auto

section \<open>Properties\<close>

text \<open>C1: however many workers run, however often the queue delivers a pack, whatever terminals and
  sweeps write in between and wherever workers die, no pack is posted to the mail service
  twice.\<close>

theorem posted_at_most_once:
  assumes "sys_init s0" "sys_steps sv s0 s"
  shows "distinct (posted s)"
  using reachable_inv [OF assms] by (simp add: sys_inv_def owner_inv_def)

theorem posted_at_most_once_witness:
  "posted (on demo_sys (fst (process demo_service ''p1'' demo_world))) = [''p1''] \<and>
   distinct (posted (on demo_sys (fst (process demo_service ''p1'' demo_world))))"
  using demo_run posted_at_most_once [OF demo_init demo_steps] by blast

text \<open>C2: a pack whose cancellation was confirmed is never posted afterwards, was not posted before,
  and stays cancelled, in every continuation.\<close>

theorem cancelled_never_posted:
  assumes "sys_init s0" "sys_steps sv s0 s" "cancel_pack now pid (w_table (sy_world s)) = (t, True)"
    and "sys_steps sv (on s ((sy_world s)\<lparr>w_table := t\<rparr>)) s'"
  shows "pid \<notin> set (posted s') \<and> pstate_of (w_table (sy_world s')) pid = Resolved ''cancelled''"
proof -
  let ?s1 = "on s ((sy_world s)\<lparr>w_table := t\<rparr>)"
  have inv: "sys_inv s" using reachable_inv [OF assms(1,2)] .
  have step: "sys_step sv s ?s1"
    using sys_step.others [of "Cancel now pid" sv s] assms(3) by (simp add: on_def)
  note inv1 = sys_inv_step [OF step inv]
  have "pack_state ?s1 pid = Resolved ''cancelled''"
    using cancel_step(2) [OF _ assms(3)] inv by (simp add: sys_inv_def)
  from steps_final [OF assms(4) inv1 this] have c: "pack_state s' pid = Resolved ''cancelled''" by simp
  moreover have "owner_inv (pack_state s') (sy_pc s') (posted s')"
    using sys_inv_steps [OF assms(4) inv1] by (simp add: sys_inv_def)
  ultimately show ?thesis unfolding owner_inv_def by force
qed

theorem cancelled_never_posted_witness:
  "snd (cancel_pack 970 ''p1'' demo_table) \<and>
   ''p1'' \<notin> set (posted (on demo_sys (demo_world\<lparr>w_table := fst (cancel_pack 970 ''p1'' demo_table)\<rparr>)))"
proof -
  have "snd (cancel_pack 970 ''p1'' demo_table)"
    using cancel_pack_ok [of 970 "''p1''" demo_table] demo_get
    by (cases "cancel_pack 970 ''p1'' demo_table") (simp add: attr_eq_def attr_of_def new_pack_item_def)
  moreover from this have "cancel_pack 970 ''p1'' (w_table (sy_world demo_sys)) = (fst (cancel_pack 970 ''p1'' demo_table), True)"
    by (cases "cancel_pack 970 ''p1'' demo_table") (simp add: demo_sys_def demo_world_def)
  ultimately show ?thesis
    using cancelled_never_posted [OF demo_init rtranclp.rtrancl_refl [of "sys_step demo_service"] _ rtranclp.rtrancl_refl]
    by (simp add: demo_sys_def)
qed

text \<open>C3: a pack the cloud reports as sent was posted to the mail service, exactly once.\<close>

theorem sent_means_posted_once:
  assumes "sys_init s0" "sys_steps sv s0 s" "pstate_of (w_table (sy_world s)) pid = Resolved ''sent''"
  shows "count_list (posted s) pid = 1"
proof -
  have "owner_inv (pack_state s) (sy_pc s) (posted s)" using reachable_inv [OF assms(1,2)] by (simp add: sys_inv_def)
  then have "pid \<in> set (posted s)" "distinct (posted s)" using assms(3) unfolding owner_inv_def by blast+
  then show ?thesis by (rule count_list_distinct [rotated])
qed

theorem sent_means_posted_once_witness:
  "count_list (posted (on demo_sys (fst (process demo_service ''p1'' demo_world)))) ''p1'' = 1"
  by (rule sent_means_posted_once [OF demo_init demo_steps]) (simp add: demo_sent)

end
