(* ===== verification/Dispatch_Batch.thy ===== *)
theory Dispatch_Batch
  imports Dispatch_Properties
begin

text \<open>
  What one call of \<open>process\<close> does to the pack it is given and to every other pack, on each of
  its branches, and how \<open>handler\<close> accounts for the records of a batch.
\<close>

section \<open>One pack\<close>

lemma update_now_other: "q \<noteq> pid \<Longrightarrow> get_pack_item (w_table (update_now sv pid flds w)) q = get_pack_item (w_table w) q"
  by (simp add: update_now_def tick_def update_pack_item)

lemma after_send_other: "q \<noteq> pid \<Longrightarrow> get_pack_item (w_table (fst (after_send sv pid j r w))) q = get_pack_item (w_table w) q"
proof -
  assume q: "q \<noteq> pid"
  have "get_pack_item (w_table (finalize sv pid r w)) q = get_pack_item (w_table (update_now sv pid (outcome_attrs r (sv_stamp sv (w_reads w))) (snd (tick sv w)))) q"
    by (simp add: finalize_def tick_def Let_def get_pack_item_def put_event_other)
  also have "\<dots> = get_pack_item (w_table w) q" using q by (simp add: update_now_other tick_def)
  finally show ?thesis
    by (auto simp: after_send_def update_campaign_stats_def Let_def split: option.splits sum.splits prod.splits if_splits)
qed

lemma after_send_result:
  assumes "after_send sv pid j r w = (w', res)"
  shows "case res of
      Inr x \<Rightarrow> rs_status r \<noteq> ''unknown'' \<and> fst x = ''processed''
    | Inl (SendOutcomeUnknown m) \<Rightarrow> rs_status r = ''unknown''
    | Inl e \<Rightarrow> True"
  using assms
  by (auto simp: after_send_def Let_def stop_if_unknown_def update_campaign_stats_def compute_delay_def base_delay_def bindE_def
      split: sum.splits option.splits if_splits prod.splits)

definition after_process :: "(exc + string \<times> rat \<times> int) \<Rightarrow> pstate \<Rightarrow> bool" where
  "after_process r st \<longleftrightarrow>
     (case r of
        Inr x \<Rightarrow> fst x = ''processed'' \<and> st \<in> {Resolved ''sent'', Resolved ''failed'', Resolved ''stuck_no_key''}
      | Inl (SendOutcomeUnknown m) \<Rightarrow> st = Resolved ''unknown''
      | Inl e \<Rightarrow> st = Claimed \<or> st \<in> {Resolved ''sent'', Resolved ''failed'', Resolved ''unknown''})"

lemma prep_read_error: "prep_read sv pid w = (w', Inl e) \<Longrightarrow> \<forall>m. e \<noteq> SendOutcomeUnknown m"
  by (auto simp: prep_read_def split: option.splits prod.splits if_splits sum.splits)

lemma send_sync_error: "send_sync sv pid plain w = (w', Inl e) \<Longrightarrow> \<forall>m. e \<noteq> SendOutcomeUnknown m"
  by (auto simp: send_sync_def send_body_def result_of_def split: option.splits sum.splits if_splits reply.splits resp.splits)

lemma not_unknown_error: "\<forall>m. e \<noteq> SendOutcomeUnknown m \<Longrightarrow> after_process (Inl e) Claimed"
  by (auto simp: after_process_def split: exc.splits)

text \<open>From the claim on: other packs are untouched, the claimed one ends as the result says.\<close>

lemma owned_effect:
  assumes inv: "pack_inv (w_table w)" and cl: "pstate_of (w_table w) pid = Claimed"
    and run: "(case prep_read sv pid w of
        (w2, Inl e) \<Rightarrow> (w2, Inl e)
      | (w2, Inr (Give_up flds)) \<Rightarrow> (update_now sv pid flds w2, Inr (''processed'', 0, 1))
      | (w2, Inr (Go j)) \<Rightarrow>
          (case send_sync sv pid (jb_plain j) w2 of (w3, Inl e) \<Rightarrow> (w3, Inl e) | (w3, Inr r) \<Rightarrow> after_send sv pid j r w3)) = (w', res)"
  shows "pack_inv (w_table w') \<and> (\<forall>q. q \<noteq> pid \<longrightarrow> get_pack_item (w_table w') q = get_pack_item (w_table w) q) \<and>
     after_process res (pstate_of (w_table w') pid)"
proof -
  obtain w2 r2 where p: "prep_read sv pid w = (w2, r2)" by fastforce
  note same = prep_read_same [OF p]
  have inv2: "pack_inv (w_table w2)" and cl2: "pstate_of (w_table w2) pid = Claimed"
    and items: "\<And>q. get_pack_item (w_table w2) q = get_pack_item (w_table w) q"
    using same_packs_inv [OF same inv] same_packs_state [OF same] cl same by (simp_all add: same_packs_def)
  show ?thesis
  proof (cases r2)
    case (Inl e)
    then show ?thesis using run p inv2 cl2 items not_unknown_error prep_read_error [of sv pid w w2 e] by auto
  next
    case (Inr pr)
    show ?thesis
    proof (cases pr)
      case (Give_up flds)
      then have g: "giving_up_fields flds" using p Inr prep_read_fields by blast
      then obtain s where s: "s \<in> {''stuck_no_key'', ''failed''}" "map_of flds ''status'' = Some (AStr s)"
        by (auto simp: giving_up_fields_def)
      have f: "outcome_fields flds" using g by (simp add: giving_up_fields_def)
      have "pstate_of (w_table w2) pid \<in> {Claimed, Resolved ''unknown''}" using cl2 by simp
      note u = update_now_step [OF inv2 this f s(2), where sv = sv]
      have "w' = update_now sv pid flds w2" "res = Inr (''processed'', 0, 1)" using run p Inr Give_up by auto
      then show ?thesis using u(1) u(2) [of pid] s(1) items update_now_other by (auto simp: after_process_def)
    next
      case (Go j)
      obtain w3 r3 where sd: "send_sync sv pid (jb_plain j) w2 = (w3, r3)" by fastforce
      note c = send_sync_cases [OF sd]
      have w3: "pack_inv (w_table w3)" "pstate_of (w_table w3) pid \<in> {Claimed, Resolved ''unknown''}"
        using inv2 cl2 c(1) by simp_all
      show ?thesis
      proof (cases r3)
        case (Inl e)
        then show ?thesis using run p Inr Go sd c(1) inv2 cl2 items not_unknown_error send_sync_error [of sv pid _ w2 w3 e] by auto
      next
        case (Inr r)
        have st: "rs_status r \<in> sent_statuses" using c(3) Inr by simp
        note a = after_send_step [OF w3 st, where sv = sv and j = j]
        have run: "after_send sv pid j r w3 = (w', res)" using run p \<open>r2 = Inr pr\<close> Go sd Inr by simp
        then have w': "w' = fst (after_send sv pid j r w3)" by simp
        have "after_process res (Resolved (rs_status r))"
          using after_send_result [OF run] st by (auto simp: after_process_def sent_statuses_def split: sum.splits exc.splits)
        then show ?thesis using a(1) a(2) [of pid] after_send_other items c(1) w' by simp
      qed
    qed
  qed
qed

lemma get_pack_cases:
  assumes "pack_inv t"
  shows "case pstate_of t pid of
      Absent \<Rightarrow> get_pack t pid = Some None
    | Pending \<Rightarrow> \<exists>p. get_pack t pid = Some (Some p) \<and> pk_status p = ''pending''
    | _ \<Rightarrow> \<exists>p. get_pack t pid = Some (Some p) \<and> pk_status p \<noteq> ''pending''"
proof (cases "get_pack_item t pid")
  case None
  then show ?thesis using assms by (simp add: get_pack_def pstate_of_def)
next
  case (Some it)
  then have "pack_ok pid it" using assms by (simp add: pack_inv_def)
  then obtain p where p: "coerce_pack it = Some p" by (auto simp: pack_ok_def)
  then show ?thesis using Some coerce_pack_Some [OF p]
    by (auto simp: get_pack_def pstate_of_def classify_def split: pstate.splits if_splits)
qed



section \<open>A batch\<close>

definition total :: "counts \<Rightarrow> nat" where
  "total c = sum_list (map snd c)"

lemma total_update: "distinct (map fst c) \<Longrightarrow>
   total (AList.update k v c) + (case map_of c k of Some n \<Rightarrow> n | None \<Rightarrow> 0) = total c + v"
  by (induction c) (auto simp: total_def split: option.splits)

lemma total_bump: "distinct (map fst c) \<Longrightarrow> total (bump k c) = Suc (total c) \<and> distinct (map fst (bump k c))"
  using total_update [of c k "Suc (case map_of c k of Some n \<Rightarrow> n | None \<Rightarrow> 0)"]
  by (simp add: bump_def distinct_update)

lemma group_total:
  "handle_group sv n rs c w = (w', Inr (c', rs')) \<Longrightarrow> distinct (map fst c) \<Longrightarrow>
   total c' + length rs' = total c + length rs \<and> distinct (map fst c')"
proof (induction sv n rs c w rule: handle_group.induct)
  case (3 sv n r rs c w)
  show ?case
  proof (cases "record_pack (sv_crypto sv) r")
    case None
    then show ?thesis using 3(1) [OF None] 3(3,4) total_bump [of c "''failed''"] by simp
  next
    case (Some pid)
    obtain w1 res where p: "process sv pid w = (w1, res)" by fastforce
    with 3(3) Some obtain out d m where res: "res = Inr (out, d, m)" by (cases res) auto
    then show ?thesis using 3(2) [OF Some p [symmetric] res refl refl] 3(3,4) Some p total_bump [of c out] by simp
  qed
qed simp_all

lemma records_total:
  "handle_records sv rs c w = (w', Inr c') \<Longrightarrow> distinct (map fst c) \<Longrightarrow>
   total c' = total c + length rs"
proof (induction sv rs c w rule: handle_records.induct)
  case (2 sv r rs c w)
  show ?case
  proof (cases "record_pack (sv_crypto sv) r")
    case None
    then show ?thesis using 2(1) [OF None] 2(3,4) total_bump [of c "''failed''"] by simp
  next
    case (Some pid)
    obtain w1 res where p: "process sv pid w = (w1, res)" by fastforce
    with 2(3) Some obtain out d m where res: "res = Inr (out, d, m)" by (cases res) auto
    obtain w2 r2 where g: "handle_group sv (nat (m - 1)) rs (bump out c) w1 = (w2, r2)" by fastforce
    with 2(3) Some p res obtain c2 rs2 where r2: "r2 = Inr (c2, rs2)" by (cases r2) auto
    let ?w3 = "if 0 < d \<and> rs2 \<noteq> [] then w2\<lparr>w_sleeps := w_sleeps w2 @ [d]\<rparr> else w2"
    have b: "total (bump out c) = Suc (total c)" "distinct (map fst (bump out c))" using total_bump 2(4) by blast+
    have gt: "total c2 + length rs2 = Suc (total c) + length rs \<and> distinct (map fst c2)"
      using group_total [of sv _ rs "bump out c" w1 w2 c2 rs2] g r2 b by simp
    have "handle_records sv rs2 c2 ?w3 = (w', Inr c')" using 2(3) Some p res g r2 by simp
    from 2(2) [OF Some p [symmetric] res refl refl g [symmetric] r2 refl this] gt show ?thesis by simp
  qed
qed simp

text \<open>A batch that returns counts every record exactly once: processed, skipped and failed add up to
  the number of records, whatever the sender groups were.\<close>

theorem batch_counts_every_record:
  assumes "handle_records sv rs zero_counts w = (w', Inr c)"
  shows "total c = length rs"
  using records_total [OF assms] by (simp add: zero_counts_def total_def)

theorem batch_counts_every_record_witness:
  "total (projr (snd (handle_records demo_service [''xx'', ''yy''] zero_counts demo_world))) = 2"
proof -
  let ?r = "handle_records demo_service [''xx'', ''yy''] zero_counts demo_world"
  have "record_pack (sv_crypto demo_service) ''xx'' = None" "record_pack (sv_crypto demo_service) ''yy'' = None"
    by (simp_all add: demo_service_def demo_crypto_def record_pack_def)
  then have "?r = (fst ?r, Inr (projr (snd ?r)))" by simp
  from batch_counts_every_record [OF this] show ?thesis by simp
qed

end
