(* ===== verification/Outcome_Feed.thy ===== *)
theory Outcome_Feed
  imports Pack_Lifecycle
begin

text \<open>
  GET /packs/status as a cursor feed. \<open>resolved_log\<close> is the abstract sequence of outcomes, in
  the order of \<open>outcome_key\<close> and without the newest seconds; \<open>list_resolved_packs\<close> returns what
  follows the cursor, as long as a status partition is read within the work cap. Beyond the
  cap it does not: \<open>work_cap_hides_outcome\<close> is the case where an outcome past the cursor is
  never returned.
\<close>

section \<open>The index and the log\<close>

definition outcome_time :: "item \<Rightarrow> string" where
  "outcome_time it = opt_or (str_attr ''resolved_at'' it) (str_attr_or ''enqueued_at'' [] it)"

text \<open>Only packs carry a status; their key is their id and their outcome time has no hash sign.\<close>

definition index_inv :: "table \<Rightarrow> bool" where
  "index_inv g \<longleftrightarrow> wf_table g \<and>
     (\<forall>k it. (k, it) \<in> set g \<longrightarrow> str_attr ''status'' it \<noteq> None \<longrightarrow>
        (\<exists>pid. k = (pack_key pid, pack_key pid) \<and> pack_ok pid it \<and>
           outcome_time it \<noteq> [] \<and> CHR ''#'' \<notin> set (outcome_time it)))"

definition resolved_items :: "table \<Rightarrow> item list" where
  "resolved_items g = concat (map (\<lambda>st. query_status st (\<lambda>_. True) g) resolved_statuses)"

definition resolved_log :: "int \<Rightarrow> int \<Rightarrow> table \<Rightarrow> pack list" where
  "resolved_log settle now g =
     sort_key outcome_key
       (filter (\<lambda>r. \<not> (0 < settle \<and> iso_ago now settle < fst (outcome_key r)))
          (map (the \<circ> coerce_pack) (resolved_items g)))"

text \<open>The service's pages cut the answer, and every partition is scanned to its end.\<close>

definition reads_all :: "(item list \<Rightarrow> item list list) \<Rightarrow> table \<Rightarrow> bool" where
  "reads_all paging g \<longleftrightarrow>
     (\<forall>st\<in>set resolved_statuses.
        concat (paging (query_status st (\<lambda>_. True) g)) = query_status st (\<lambda>_. True) g \<and>
        length (query_status st (\<lambda>_. True) g) < 2000)"

lemma read_pages_all: "scanned + length (concat ps) < cap \<Longrightarrow> read_pages f cap ps scanned = filter f (concat ps)"
  by (induction ps arbitrary: scanned) auto

lemma set_query_status:
  "it \<in> set (query_status st c g) \<Longrightarrow> (\<exists>k. (k, it) \<in> set g) \<and> str_attr ''status'' it = Some st"
  by (auto simp: query_status_def List.map_filter_def split: if_splits option.splits) blast

lemma query_status_mset:
  "mset (query_status st c g) =
   mset (filter (\<lambda>it. str_attr ''status'' it = Some st \<and> (case str_attr ''send_at'' it of Some r \<Rightarrow> c r | None \<Rightarrow> False))
      (map snd g))"
proof -
  have "map snd (List.map_filter
     (\<lambda>(k, it). if str_attr ''status'' it = Some st
        then (case str_attr ''send_at'' it of Some r \<Rightarrow> if c r then Some (r, it) else None | None \<Rightarrow> None) else None) g) =
    filter (\<lambda>it. str_attr ''status'' it = Some st \<and> (case str_attr ''send_at'' it of Some r \<Rightarrow> c r | None \<Rightarrow> False)) (map snd g)"
    by (induction g) (auto split: option.splits if_splits)
  then show ?thesis unfolding query_status_def mset_map mset_sort by (simp flip: mset_map)
qed

lemma mset_query_status:
  "mset (query_status st (\<lambda>_. True) g) =
   mset (filter (\<lambda>it. str_attr ''status'' it = Some st \<and> str_attr ''send_at'' it \<noteq> None) (map snd g))"
  unfolding query_status_mset by (rule arg_cong [of _ _ mset], rule filter_cong) (auto split: option.splits)

lemma mset_by_status:
  "distinct sts \<Longrightarrow>
   mset (concat (map (\<lambda>st. filter (\<lambda>it. h it = Some st \<and> P it) xs) sts)) =
   mset (filter (\<lambda>it. h it \<in> Some ` set sts \<and> P it) xs)"
proof (induction sts)
  case Nil
  then show ?case by simp
next
  case (Cons st sts)
  have "filter_mset (\<lambda>it. h it \<in> Some ` set (st # sts) \<and> P it) (mset xs) =
      filter_mset (\<lambda>it. h it = Some st \<and> P it) (mset xs) + filter_mset (\<lambda>it. h it \<in> Some ` set sts \<and> P it) (mset xs)"
    using Cons.prems by (induction xs) auto
  with Cons show ?case by simp
qed

lemma mset_resolved_items:
  "mset (resolved_items g) =
   mset (filter (\<lambda>it. str_attr ''status'' it \<in> Some ` set resolved_statuses \<and> str_attr ''send_at'' it \<noteq> None) (map snd g))"
proof -
  have "mset (resolved_items g) = mset (concat (map (\<lambda>st. filter (\<lambda>it. str_attr ''status'' it = Some st \<and> str_attr ''send_at'' it \<noteq> None) (map snd g)) resolved_statuses))"
    by (simp add: resolved_items_def mset_concat mset_query_status o_def)
  also have "\<dots> = mset (filter (\<lambda>it. str_attr ''status'' it \<in> Some ` set resolved_statuses \<and> str_attr ''send_at'' it \<noteq> None) (map snd g))"
    by (rule mset_by_status) (simp add: resolved_statuses_def)
  finally show ?thesis .
qed

lemma resolved_item_ok:
  assumes "index_inv g" "it \<in> set (resolved_items g)"
  obtains pid p where "((pack_key pid, pack_key pid), it) \<in> set g" "coerce_pack it = Some p" "pk_id p = pid"
    "outcome_key p = (outcome_time it, pid)" "outcome_time it \<noteq> []" "CHR ''#'' \<notin> set (outcome_time it)"
proof -
  obtain k where k: "(k, it) \<in> set g" "str_attr ''status'' it \<noteq> None"
    using assms(2) set_query_status by (fastforce simp: resolved_items_def)
  with assms(1) obtain pid where pid: "k = (pack_key pid, pack_key pid)" "pack_ok pid it"
    "outcome_time it \<noteq> []" "CHR ''#'' \<notin> set (outcome_time it)"
    unfolding index_inv_def by blast
  then obtain p where p: "coerce_pack it = Some p" by (auto simp: pack_ok_def)
  with pid coerce_pack_Some [OF p] have "pk_id p = pid" "outcome_key p = (outcome_time it, pid)"
    by (auto simp: pack_ok_def outcome_key_def outcome_time_def)
  with that k pid p show ?thesis by blast
qed

lemma distinct_map_filter: "distinct (map f xs) \<Longrightarrow> distinct (map f (filter P xs))"
  by (induction xs) auto

lemma distinct_resolved:
  assumes "index_inv g"
  shows "distinct (map outcome_key (map (the \<circ> coerce_pack) (resolved_items g)))"
proof -
  let ?P = "\<lambda>it. str_attr ''status'' it \<in> Some ` set resolved_statuses \<and> str_attr ''send_at'' it \<noteq> None"
  let ?f = "\<lambda>it. pk_id (the (coerce_pack it))"
  have "distinct (map (\<lambda>y. ?f (snd y)) (filter (\<lambda>y. ?P (snd y)) g))"
    using assms
  proof -
    have d: "distinct (map fst (filter (\<lambda>y. ?P (snd y)) g))"
      using assms by (auto simp: index_inv_def wf_table_def intro: distinct_map_filter)
    have "\<forall>y\<in>set (filter (\<lambda>y. ?P (snd y)) g). fst y = (pack_key (?f (snd y)), pack_key (?f (snd y)))"
    proof
      fix y assume y: "y \<in> set (filter (\<lambda>y. ?P (snd y)) g)"
      then have "snd y \<in># mset (resolved_items g)" by (auto simp: mset_resolved_items)
      then have "snd y \<in> set (resolved_items g)" by simp
      from y have "(fst y, snd y) \<in> set g" "str_attr ''status'' (snd y) \<noteq> None" by auto
      with assms obtain pid where "fst y = (pack_key pid, pack_key pid)" "pack_ok pid (snd y)"
        unfolding index_inv_def by blast
      moreover from this obtain p where "coerce_pack (snd y) = Some p" by (auto simp: pack_ok_def)
      ultimately show "fst y = (pack_key (?f (snd y)), pack_key (?f (snd y)))"
        using coerce_pack_Some [of "snd y" p] by (auto simp: pack_ok_def)
    qed
    with d show ?thesis by (metis (no_types, lifting) distinct_map inj_on_def)
  qed
  then have "distinct (map ?f (filter ?P (map snd g)))"
    by (simp add: filter_map o_def)
  moreover have "mset (map ?f (resolved_items g)) = mset (map ?f (filter ?P (map snd g)))"
    by (simp only: mset_map mset_resolved_items)
  ultimately have "distinct (map ?f (resolved_items g))"
    using mset_eq_imp_distinct_iff by blast
  then have "distinct (map snd (map outcome_key (map (the \<circ> coerce_pack) (resolved_items g))))"
    by (simp add: outcome_key_def o_def)
  then show ?thesis unfolding distinct_map by simp
qed

section \<open>The query returns what follows the cursor\<close>

lemma sort_key_filter: "sort_key f (filter P xs) = filter P (sort_key f xs)"
  by (simp add: filter_sort)

lemma those_coerce:
  assumes "index_inv g" "\<forall>it\<in>set its. it \<in> set (resolved_items g)"
  shows "those (map coerce_pack its) = Some (map (the \<circ> coerce_pack) its)"
  using assms by (intro those_map_Some) (auto elim!: resolved_item_ok)

lemma since_filter_superset:
  assumes "coerce_pack it = Some p" "(t, pid) < outcome_key p"
  shows "since_filter t it"
proof -
  from assms(2) have "t \<le> fst (outcome_key p)" by (cases "outcome_key p") auto
  with coerce_pack_Some [OF assms(1)] show ?thesis
    by (auto simp: since_filter_def outcome_key_def opt_or_def py_or_def str_attr_or_def split: option.splits if_splits)
qed

lemma list_resolved_eq:
  assumes g: "index_inv g" "reads_all paging g" and c: "t \<noteq> []" "CHR ''#'' \<notin> set t"
  shows "list_resolved_packs paging (t @ ''#'' @ pid) n settle now g =
    Some (take n (filter (\<lambda>r. (t, pid) < outcome_key r) (resolved_log settle now g)))"
proof -
  let ?cap = "max (n * 4) 2000" and ?up = "if 0 < settle then Some (iso_ago now settle) else None"
  let ?its = "concat (map (\<lambda>st. read_pages (since_filter t) ?cap (paging (query_status st (\<lambda>_. True) g)) 0) resolved_statuses)"
  have "read_pages (since_filter t) ?cap (paging (query_status st (\<lambda>_. True) g)) 0 =
      filter (since_filter t) (query_status st (\<lambda>_. True) g)" if "st \<in> set resolved_statuses" for st
    using that g(2) by (subst read_pages_all) (auto simp: reads_all_def)
  then have its: "?its = filter (since_filter t) (resolved_items g)"
    by (simp add: resolved_items_def filter_concat o_def cong: map_cong)
  let ?Q = "\<lambda>r. after_cursor (outcome_key r) t (Some pid) ?up"
  have part: "partition_at CHR ''#'' (t @ ''#'' @ pid) = (t, True, pid)"
    using c(2) by (simp add: partition_at_append)
  have "those (map coerce_pack ?its) = Some (map (the \<circ> coerce_pack) ?its)"
    unfolding its using g(1) by (intro those_coerce) auto
  then have "list_resolved_packs paging (t @ ''#'' @ pid) n settle now g =
      Some (take n (sort_key outcome_key (filter ?Q (map (the \<circ> coerce_pack) ?its))))"
    unfolding list_resolved_packs_def part by (simp add: Let_def)
  moreover have "filter ?Q (map (the \<circ> coerce_pack) ?its) =
      filter (\<lambda>r. (t, pid) < outcome_key r)
        (filter (\<lambda>r. \<not> (0 < settle \<and> iso_ago now settle < fst (outcome_key r))) (map (the \<circ> coerce_pack) (resolved_items g)))"
    unfolding its filter_map filter_filter
    using g(1) c(1) since_filter_superset
    by (intro arg_cong [of _ _ "map (the \<circ> coerce_pack)"] filter_cong refl)
       (auto simp: after_cursor_def elim!: resolved_item_ok [OF g(1)])
  ultimately show ?thesis by (simp add: resolved_log_def sort_key_filter)
qed

lemma distinct_map_sort: "distinct (map f (sort_key h xs)) \<longleftrightarrow> distinct (map f xs)"
  by (metis mset_eq_imp_distinct_iff mset_map mset_sort)

lemma resolved_log_sorted:
  "index_inv g \<Longrightarrow> sorted_wrt (<) (map outcome_key (resolved_log settle now g))"
  unfolding strict_sorted_iff resolved_log_def distinct_map_sort
  by (intro conjI sorted_sort_key distinct_map_filter distinct_resolved)

lemma resolved_log_keys:
  assumes "index_inv g" "r \<in> set (resolved_log settle now g)"
  shows "fst (outcome_key r) \<noteq> []" "CHR ''#'' \<notin> set (fst (outcome_key r))" "snd (outcome_key r) = pk_id r"
    "0 < settle \<Longrightarrow> fst (outcome_key r) \<le> iso_ago now settle"
proof -
  obtain it where it: "it \<in> set (resolved_items g)" "r = the (coerce_pack it)"
    and up: "\<not> (0 < settle \<and> iso_ago now settle < fst (outcome_key r))"
    using assms(2) by (auto simp: resolved_log_def)
  from resolved_item_ok [OF assms(1) it(1)] it(2)
  show "fst (outcome_key r) \<noteq> []" "CHR ''#'' \<notin> set (fst (outcome_key r))" "snd (outcome_key r) = pk_id r"
    by (metis fst_conv option.sel snd_conv)+
  show "0 < settle \<Longrightarrow> fst (outcome_key r) \<le> iso_ago now settle" using up by simp
qed

text \<open>The state of the feed is the index together with the clock reading of the request.\<close>

interpretation oc: cursor_feed "\<lambda>(paging, now, g). resolved_log settle_s now g" outcome_key
  "\<lambda>(t, pid) n (paging, now, g). the (list_resolved_packs paging (t @ ''#'' @ pid) n settle_s now g)"
  "\<lambda>(paging, now, g). index_inv g \<and> reads_all paging g"
  "\<lambda>(t, pid). t \<noteq> [] \<and> CHR ''#'' \<notin> set t"
proof (unfold_locales, goal_cases)
  case (1 s)
  then show ?case by (auto simp: resolved_log_sorted split: prod.splits)
next
  case (2 s c n)
  then show ?case by (cases s; cases c) (simp add: list_resolved_eq [simplified])
next
  case (3 s r)
  then show ?case using resolved_log_keys(1,2) by (auto split: prod.splits simp: outcome_key_def)
qed

end
