(* ===== verification/Dynamo_Registry.thy ===== *)
theory Dynamo_Registry
  imports Cursor_Feed
begin

text \<open>
  The other items of cloud/dynamo.py: terminal sessions, registered public keys, the raw
  webhook audit, settings, and the unsubscribe and erasure caches with the time-ordered
  unsubscribe log that GET /sync/pull reads.
\<close>

section \<open>Sessions\<close>

record session =
  se_bearer_hash :: string
  se_actor :: string
  se_created_at :: string
  se_last_seen_at :: "string option"
  se_revoked_at :: "string option"

definition session_key :: "string \<Rightarrow> string" where
  "session_key h = ''SESSION#'' @ h"

definition put_session :: "int \<Rightarrow> string \<Rightarrow> string \<Rightarrow> table \<Rightarrow> table" where
  "put_session now bearer_hash actor t =
     put_item (session_key bearer_hash) (session_key bearer_hash)
       [(''bearer_hash'', AStr bearer_hash), (''actor'', AStr actor), (''created_at'', AStr (iso now)),
        (''last_seen_at'', ANull), (''revoked_at'', ANull)] t"

definition coerce_session :: "item \<Rightarrow> session option" where
  "coerce_session it =
     do {
       h \<leftarrow> str_attr ''bearer_hash'' it;
       a \<leftarrow> str_attr ''actor'' it;
       c \<leftarrow> str_attr ''created_at'' it;
       Some \<lparr>se_bearer_hash = h, se_actor = a, se_created_at = c,
         se_last_seen_at = str_attr ''last_seen_at'' it, se_revoked_at = str_attr ''revoked_at'' it\<rparr>
     }"

definition get_session_by_bearer :: "table \<Rightarrow> string \<Rightarrow> session option option" where
  "get_session_by_bearer t bearer_hash =
     (case get_item t (session_key bearer_hash) (session_key bearer_hash) of
        None \<Rightarrow> Some None
      | Some it \<Rightarrow> map_option Some (coerce_session it))"

definition touch_session :: "int \<Rightarrow> string \<Rightarrow> table \<Rightarrow> table" where
  "touch_session now bearer_hash t =
     update_item (session_key bearer_hash) (session_key bearer_hash) [(''last_seen_at'', AStr (iso now))] t"

text \<open>The scan of \<open>revoke_sessions_for_actor\<close> and its updates; the count is returned.\<close>

definition active_sessions :: "string \<Rightarrow> table \<Rightarrow> key list" where
  "active_sessions actor t =
     map fst (filter (\<lambda>((p, s), it). starts_with p ''SESSION#'' \<and> map_of it ''actor'' = Some (AStr actor) \<and>
        map_of it ''revoked_at'' = Some ANull) t)"

definition revoke_sessions_for_actor :: "int \<Rightarrow> string \<Rightarrow> table \<Rightarrow> table \<times> nat" where
  "revoke_sessions_for_actor now actor t =
     (fold (\<lambda>(p, s) t. update_item p s [(''revoked_at'', AStr (iso now))] t) (active_sessions actor t) t,
      length (active_sessions actor t))"

section \<open>Public keys\<close>

definition pubkey_key :: "string \<Rightarrow> string" where
  "pubkey_key actor = ''PUBKEY#'' @ actor"

definition put_pubkey :: "int \<Rightarrow> string \<Rightarrow> bytes \<Rightarrow> table \<Rightarrow> table" where
  "put_pubkey now actor kem_pub t =
     put_item (pubkey_key actor) (pubkey_key actor)
       [(''actor'', AStr actor), (''kem_pub'', ABytes kem_pub), (''registered_at'', AStr (iso now))] t"

definition get_pubkey :: "table \<Rightarrow> string \<Rightarrow> bytes option option" where
  "get_pubkey t actor =
     (case get_item t (pubkey_key actor) (pubkey_key actor) of
        None \<Rightarrow> Some None
      | Some it \<Rightarrow> map_option Some (bytes_attr ''kem_pub'' it))"

definition get_all_pubkeys :: "table \<Rightarrow> (string \<times> bytes) list option" where
  "get_all_pubkeys t =
     do {
       a \<leftarrow> get_pubkey t ''operator'';
       b \<leftarrow> get_pubkey t ''client'';
       Some ((case a of None \<Rightarrow> [] | Some k \<Rightarrow> [(''operator'', k)]) @
             (case b of None \<Rightarrow> [] | Some k \<Rightarrow> [(''client'', k)]))
     }"

definition list_pubkeys :: "table \<Rightarrow> (string \<times> string) list option" where
  "list_pubkeys t =
     those (List.map_filter (\<lambda>actor. case get_item t (pubkey_key actor) (pubkey_key actor) of
        None \<Rightarrow> None
      | Some it \<Rightarrow> Some (do { a \<leftarrow> str_attr ''actor'' it; r \<leftarrow> str_attr ''registered_at'' it; Some (a, r) }))
       [''operator'', ''client''])"

definition delete_pubkey :: "string \<Rightarrow> table \<Rightarrow> table" where
  "delete_pubkey actor t = delete_item (pubkey_key actor) (pubkey_key actor) t"

section \<open>The raw webhook audit\<close>

definition webhook_key :: "string \<Rightarrow> string" where
  "webhook_key svix_id = ''WEBHOOK#'' @ svix_id"

definition put_webhook_raw ::
  "int \<Rightarrow> string \<Rightarrow> string option \<Rightarrow> string option \<Rightarrow> int option \<Rightarrow> table \<Rightarrow> table" where
  "put_webhook_raw now svix_id event_type message_id forwarded t =
     put_item (webhook_key svix_id) (webhook_key svix_id)
       [(''svix_id'', AStr svix_id), (''event_type'', AStr (opt_or event_type [])),
        (''message_id'', AStr (opt_or message_id [])), (''received_at'', AStr (iso now)),
        (''forwarded_event_id'', case forwarded of None \<Rightarrow> ANull | Some i \<Rightarrow> AInt i)] t"

definition get_webhook_by_svix :: "table \<Rightarrow> string \<Rightarrow> item option" where
  "get_webhook_by_svix t svix_id = get_item t (webhook_key svix_id) (webhook_key svix_id)"

section \<open>Settings\<close>

record setting_row =
  sr_key :: string
  sr_value :: string
  sr_is_secret :: bool
  sr_updated_at :: string
  sr_updated_by :: string

definition setting_of :: "string \<Rightarrow> item \<Rightarrow> setting_row" where
  "setting_of key it =
     \<lparr>sr_key = key, sr_value = str_attr_or ''value'' [] it,
      sr_is_secret = (case map_of it ''is_secret'' of Some (ABool b) \<Rightarrow> b | _ \<Rightarrow> False),
      sr_updated_at = str_attr_or ''updated_at'' [] it,
      sr_updated_by = str_attr_or ''updated_by'' ''system'' it\<rparr>"

definition get_setting :: "table \<Rightarrow> string \<Rightarrow> setting_row option" where
  "get_setting t key = map_option (setting_of key) (get_item t ''SETTINGS'' key)"

definition put_setting :: "int \<Rightarrow> string \<Rightarrow> string \<Rightarrow> bool \<Rightarrow> string \<Rightarrow> table \<Rightarrow> table" where
  "put_setting now key val is_secret updated_by t =
     put_item ''SETTINGS'' key
       [(''value'', AStr val), (''is_secret'', ABool is_secret), (''updated_at'', AStr (iso now)),
        (''updated_by'', AStr updated_by)] t"

definition delete_setting :: "string \<Rightarrow> table \<Rightarrow> table" where
  "delete_setting key t = delete_item ''SETTINGS'' key t"

definition list_settings :: "table \<Rightarrow> setting_row list" where
  "list_settings t = map (\<lambda>(s, it). setting_of s it) (query ''SETTINGS'' (\<lambda>_. True) t)"

section \<open>Unsubscribes and erasures\<close>

definition unsub_key :: "string \<Rightarrow> string" where
  "unsub_key h = ''UNSUB#'' @ h"

definition put_unsub :: "int \<Rightarrow> string \<Rightarrow> string \<Rightarrow> string \<Rightarrow> table \<Rightarrow> table \<times> bool" where
  "put_unsub now h token scope t =
     (let (t1, is_new) =
        (case put_item_if (\<lambda>io. \<not> attr_exists ''email_hash'' io) (unsub_key h) (unsub_key h)
                [(''email_hash'', AStr h), (''source_token'', AStr token), (''scope'', AStr scope),
                 (''added_at'', AStr (iso now))] t of
           Some t' \<Rightarrow> (t', True)
         | None \<Rightarrow>
             (if scope = ''all'' then update_item (unsub_key h) (unsub_key h) [(''scope'', AStr ''all'')] t else t, False))
      in (if is_new \<or> scope = ''all''
          then put_item ''UNSUB_LOG'' (iso now @ ''#'' @ h)
                 [(''email_hash'', AStr h), (''scope'', AStr scope), (''added_at'', AStr (iso now))] t1
          else t1, is_new))"

text \<open>\<open>ms\<close> is the clock in milliseconds; the key is its 16-digit form.\<close>

definition put_erasure :: "int \<Rightarrow> int \<Rightarrow> string \<Rightarrow> string \<Rightarrow> table \<Rightarrow> table" where
  "put_erasure now ms h token t =
     put_item ''ERASURE'' (pad 16 (nat ms) @ ''#'' @ take 8 h)
       [(''email_hash'', AStr h), (''source_token'', AStr token), (''added_at'', AStr (iso now))] t"

record unsub =
  un_email_hash :: string
  un_scope :: string
  un_added_at :: string
  un_cursor :: string

definition unsub_of :: "string \<times> item \<Rightarrow> unsub option" where
  "unsub_of e =
     (case e of (sk, it) \<Rightarrow>
        map_option (\<lambda>h. \<lparr>un_email_hash = h, un_scope = str_attr_or ''scope'' ''all'' it,
            un_added_at = str_attr_or ''added_at'' [] it, un_cursor = sk\<rparr>) (str_attr ''email_hash'' it))"

definition list_unsubs :: "string \<Rightarrow> nat \<Rightarrow> table \<Rightarrow> unsub list option" where
  "list_unsubs since limit t =
     those (map unsub_of (take limit (query ''UNSUB_LOG'' (\<lambda>s. since = [] \<or> since < s) t)))"

section \<open>Lemmas on sessions\<close>

lemma session_key_inject [simp]: "session_key a = session_key b \<longleftrightarrow> a = b"
  by (simp add: session_key_def)

lemma fold_revoke_get:
  "get_item (fold (\<lambda>(p, s) t. update_item p s [(a, v)] t) ks t) p s =
     (if (p, s) \<in> set ks then Some (AList.update a v (item_or_new (get_item t p s))) else get_item t p s)"
proof (induction ks arbitrary: t)
  case Nil
  then show ?case by simp
next
  case (Cons k ks)
  have idem: "AList.update a v (AList.update a v xs) = AList.update a v xs" for xs :: item
    by (induction xs) auto
  obtain p' s' where [simp]: "k = (p', s')" by fastforce
  show ?case using Cons [of "update_item p' s' [(a, v)] t"]
    by (auto simp: get_update idem item_or_new_def split: option.splits)
qed

text \<open>Every session item carries its actor and a revocation that is empty or a time.\<close>

definition session_inv :: "table \<Rightarrow> bool" where
  "session_inv t \<longleftrightarrow> wf_table t \<and>
     (\<forall>h it. get_item t (session_key h) (session_key h) = Some it \<longrightarrow>
        coerce_session it \<noteq> None \<and>
        (map_of it ''revoked_at'' = Some ANull \<or> (\<exists>x. x \<noteq> [] \<and> map_of it ''revoked_at'' = Some (AStr x))))"

lemma active_sessions_iff:
  "wf_table t \<Longrightarrow> (p, s) \<in> set (active_sessions actor t) \<longleftrightarrow>
     starts_with p ''SESSION#'' \<and> (\<exists>it. get_item t p s = Some it \<and> map_of it ''actor'' = Some (AStr actor) \<and>
       map_of it ''revoked_at'' = Some ANull)"
  unfolding active_sessions_def get_item_def wf_table_def
  by (force intro: map_of_is_SomeI dest: map_of_SomeD)

lemma iso_nonempty: "iso t \<noteq> []"
  by (simp add: iso_def stamp_def split: prod.splits)

lemma hash_notin_iso: "CHR ''#'' \<notin> set (iso t)"
  using hash_notin_dec digit_not_hash [of 0]
  by (auto simp: iso_def stamp_def pad_def split: prod.splits)

text \<open>A session read after the revocation of its actor is a revoked one.\<close>

lemma revoked_after:
  assumes inv: "session_inv t" and s: "get_session_by_bearer (fst (revoke_sessions_for_actor now actor t)) h = Some (Some se)"
    and a: "se_actor se = actor"
  shows "truthy (se_revoked_at se)"
proof -
  let ?k = "session_key h" and ?t' = "fst (revoke_sessions_for_actor now actor t)"
  have g: "get_item ?t' ?k ?k = (if (?k, ?k) \<in> set (active_sessions actor t)
      then Some (AList.update ''revoked_at'' (AStr (iso now)) (item_or_new (get_item t ?k ?k))) else get_item t ?k ?k)"
    by (simp add: revoke_sessions_for_actor_def fold_revoke_get)
  from s obtain it where it: "get_item ?t' ?k ?k = Some it" "coerce_session it = Some se"
    by (auto simp: get_session_by_bearer_def split: option.splits)
  then have se: "map_of it ''actor'' = Some (AStr actor)" "se_revoked_at se = str_attr ''revoked_at'' it"
    using a by (auto simp: coerce_session_def str_attr_def split: Option.bind_splits option.splits attr.splits)
  show ?thesis
  proof (cases "(?k, ?k) \<in> set (active_sessions actor t)")
    case True
    with g it(1) have "map_of it ''revoked_at'' = Some (AStr (iso now))" by auto
    then show ?thesis using se(2) iso_nonempty by (simp add: str_attr_def truthy_def)
  next
    case False
    with g it(1) have old: "get_item t ?k ?k = Some it" by simp
    have wf: "wf_table t" using inv by (simp add: session_inv_def)
    have "starts_with ?k ''SESSION#''" by (auto simp: starts_with_iff session_key_def)
    with False old se(1) active_sessions_iff [OF wf] have "map_of it ''revoked_at'' \<noteq> Some ANull" by auto
    with inv old obtain x where "x \<noteq> []" "map_of it ''revoked_at'' = Some (AStr x)"
      unfolding session_inv_def by blast
    then show ?thesis using se(2) by (simp add: str_attr_def truthy_def)
  qed
qed

section \<open>The unsubscribe log as a cursor feed\<close>

definition unsub_inv :: "table \<Rightarrow> bool" where
  "unsub_inv t \<longleftrightarrow> wf_table t \<and>
     (\<forall>s it. get_item t ''UNSUB_LOG'' s = Some it \<longrightarrow> s \<noteq> [] \<and> str_attr ''email_hash'' it \<noteq> None)"

definition unsub_log :: "table \<Rightarrow> unsub list" where
  "unsub_log t = map (the \<circ> unsub_of) (query ''UNSUB_LOG'' (\<lambda>_. True) t)"

lemma unsub_entry:
  assumes "unsub_inv t" "e \<in> set (query ''UNSUB_LOG'' c t)"
  shows "\<exists>u :: unsub. unsub_of e = Some u \<and> un_cursor u = fst e \<and> fst e \<noteq> []"
proof -
  obtain k it where e: "e = (k, it)" by fastforce
  with assms have "get_item t ''UNSUB_LOG'' k = Some it" by (auto simp: unsub_inv_def set_query)
  with assms(1) obtain h where "k \<noteq> []" "str_attr ''email_hash'' it = Some h"
    by (fastforce simp: unsub_inv_def)
  with e show ?thesis by (simp add: unsub_of_def)
qed

lemma list_unsubs_eq:
  assumes inv: "unsub_inv t"
  shows "list_unsubs c n t = Some (take n (filter (\<lambda>u. c < un_cursor u) (unsub_log t)))"
proof -
  let ?q = "query ''UNSUB_LOG'' (\<lambda>_. True) t"
  have q: "query ''UNSUB_LOG'' (\<lambda>s. c = [] \<or> c < s) t = filter (\<lambda>e. c = [] \<or> c < fst e) ?q"
    by (subst query_filter) (simp add: case_prod_unfold)
  have "list_unsubs c n t = Some (map (the \<circ> unsub_of) (take n (filter (\<lambda>e. c = [] \<or> c < fst e) ?q)))"
    unfolding list_unsubs_def q
    by (rule those_map_Some) (auto dest!: in_set_takeD unsub_entry [OF inv])
  moreover have "filter (\<lambda>e. c = [] \<or> c < fst e) ?q = filter (\<lambda>e. c < un_cursor (the (unsub_of e))) ?q"
    by (rule filter_cong) (auto dest!: unsub_entry [OF inv] simp: neq_Nil_conv)
  ultimately show ?thesis by (simp add: unsub_log_def take_map filter_map o_def)
qed

lemma unsub_log_sorted:
  assumes "unsub_inv t" shows "sorted_wrt (<) (map un_cursor (unsub_log t))"
proof -
  let ?q = "query ''UNSUB_LOG'' (\<lambda>_. True) t"
  have "map un_cursor (unsub_log t) = map fst ?q"
    using unsub_entry [OF assms] by (force simp: unsub_log_def)
  then show ?thesis
    using assms by (simp add: strict_sorted_iff sorted_query distinct_query unsub_inv_def)
qed

interpretation un: cursor_feed unsub_log un_cursor "\<lambda>c n t. the (list_unsubs c n t)" unsub_inv "\<lambda>_. True"
  by unfold_locales (simp_all add: unsub_log_sorted list_unsubs_eq)

lemma unsub_key_neq [simp]: "unsub_key h \<noteq> ''UNSUB_LOG''" "''UNSUB_LOG'' \<noteq> unsub_key h"
  by (simp_all add: unsub_key_def)

text \<open>The item and the log entry of one unsubscribe.\<close>

definition unsub_scope :: "table \<Rightarrow> string \<Rightarrow> string option" where
  "unsub_scope t h = Option.bind (get_item t (unsub_key h) (unsub_key h)) (str_attr ''scope'')"

lemma unsub_key_inject [simp]: "unsub_key a = unsub_key b \<longleftrightarrow> a = b"
  by (simp add: unsub_key_def)

lemma put_unsub_new:
  "snd (put_unsub now h tok scope t) \<longleftrightarrow> \<not> attr_exists ''email_hash'' (get_item t (unsub_key h) (unsub_key h))"
  by (auto simp: put_unsub_def put_item_if_def Let_def)

lemma put_unsub_log:
  "get_item (fst (put_unsub now h tok scope t)) ''UNSUB_LOG'' s =
     (if s = iso now @ ''#'' @ h \<and> (snd (put_unsub now h tok scope t) \<or> scope = ''all'')
      then Some [(''email_hash'', AStr h), (''scope'', AStr scope), (''added_at'', AStr (iso now))]
      else get_item t ''UNSUB_LOG'' s)"
  by (auto simp: put_unsub_def put_item_if_def Let_def get_put get_update)

lemma wf_put_unsub [simp]: "wf_table t \<Longrightarrow> wf_table (fst (put_unsub now h tok scope t))"
  by (auto simp: put_unsub_def put_item_if_def Let_def)

lemma unsub_inv_put: "unsub_inv t \<Longrightarrow> unsub_inv (fst (put_unsub now h tok scope t))"
  unfolding unsub_inv_def by (auto simp: put_unsub_log str_attr_def split: if_splits)

lemma unsub_scope_put:
  "unsub_scope (fst (put_unsub now h tok scope t)) h' =
     (if h' = h \<and> (snd (put_unsub now h tok scope t) \<or> scope = ''all'') then Some scope else unsub_scope t h')"
  by (auto simp: put_unsub_def put_item_if_def Let_def unsub_scope_def get_put get_update str_attr_def)

lemma in_unsub_log:
  assumes "unsub_inv t"
  shows "u \<in> set (unsub_log t) \<longleftrightarrow> (\<exists>it. get_item t ''UNSUB_LOG'' (un_cursor u) = Some it \<and> unsub_of (un_cursor u, it) = Some u)"
proof -
  have wf: "wf_table t" using assms by (simp add: unsub_inv_def)
  show ?thesis
    using unsub_entry [OF assms, of _ "\<lambda>_. True"] set_query [OF wf, of _ _ "''UNSUB_LOG''" "\<lambda>_. True"]
    unfolding unsub_log_def by (force simp: image_iff)
qed

text \<open>Every unsubscribe item carries the hash it is stored under.\<close>

definition unsub_items_ok :: "table \<Rightarrow> bool" where
  "unsub_items_ok t \<longleftrightarrow>
     (\<forall>h it. get_item t (unsub_key h) (unsub_key h) = Some it \<longrightarrow> map_of it ''email_hash'' = Some (AStr h))"

lemma unsub_items_ok_put: "unsub_items_ok t \<Longrightarrow> unsub_items_ok (fst (put_unsub now h tok scope t))"
  unfolding unsub_items_ok_def
  by (auto simp: put_unsub_def put_item_if_def Let_def get_put get_update item_or_new_def attr_exists_def attr_of_def
      split: option.splits if_splits)

lemma unsub_scope_new:
  assumes "unsub_items_ok t" "unsub_scope t h \<noteq> None"
  shows "\<not> snd (put_unsub now h tok scope t)"
  using assms
  by (auto simp: put_unsub_new unsub_scope_def unsub_items_ok_def attr_exists_def attr_of_def split: bind_splits)

definition put_unsubs :: "(int \<times> string \<times> string \<times> string) list \<Rightarrow> table \<Rightarrow> table" where
  "put_unsubs reqs t = fold (\<lambda>(now, h, tok, scope) t. fst (put_unsub now h tok scope t)) reqs t"

lemma put_unsubs_keep_all:
  "unsub_items_ok t \<Longrightarrow> unsub_scope t h = Some ''all'' \<Longrightarrow> unsub_scope (put_unsubs reqs t) h = Some ''all''"
proof (induction reqs arbitrary: t)
  case Nil
  then show ?case by (simp add: put_unsubs_def)
next
  case (Cons r reqs)
  obtain now h' tok scope where [simp]: "r = (now, h', tok, scope)" by (cases r) auto
  have "unsub_scope (fst (put_unsub now h' tok scope t)) h = Some ''all''"
    using Cons.prems unsub_scope_new [of t h now tok scope] by (auto simp: unsub_scope_put)
  with Cons.IH [OF unsub_items_ok_put [OF Cons.prems(1)]] show ?case by (simp add: put_unsubs_def)
qed

section \<open>Properties of the unsubscribe cache\<close>

text \<open>C10: an unsubscribe from everything is final. Once one of the requests for an address had the
  scope \<open>all\<close>, the stored scope is \<open>all\<close>, whatever campaign-scoped requests came before it,
  came after it or come again.\<close>

theorem unsub_all_is_final:
  assumes "unsub_items_ok t" "(now, h, tok, ''all'') \<in> set reqs"
  shows "unsub_scope (put_unsubs reqs t) h = Some ''all''"
  using assms
proof (induction reqs arbitrary: t)
  case Nil
  then show ?case by simp
next
  case (Cons r reqs)
  obtain now' h' tok' scope where r: "r = (now', h', tok', scope)" by (cases r) auto
  note ok = unsub_items_ok_put [OF Cons.prems(1), of now' h' tok' scope]
  show ?case
  proof (cases "h' = h \<and> scope = ''all''")
    case True
    then have "unsub_scope (fst (put_unsub now' h' tok' scope t)) h = Some ''all''" by (simp add: unsub_scope_put)
    from put_unsubs_keep_all [OF ok this] show ?thesis by (simp add: put_unsubs_def r)
  next
    case False
    with Cons.prems r have "(now, h, tok, ''all'') \<in> set reqs" by auto
    from Cons.IH [OF ok this] show ?thesis by (simp add: put_unsubs_def r)
  qed
qed

theorem unsub_all_is_final_witness:
  "unsub_scope (put_unsubs [(0, ''h'', ''t'', ''campaign:3''), (5, ''h'', ''t'', ''all''), (9, ''h'', ''u'', ''campaign:4'')] []) ''h''
     = Some ''all''"
  by (rule unsub_all_is_final [of _ 5 _ "''t''"]) (simp_all add: unsub_items_ok_def get_item_def)

text \<open>The log entry a recorded unsubscribe leaves.\<close>

definition unsub_entry_of :: "int \<Rightarrow> string \<Rightarrow> string \<Rightarrow> unsub" where
  "unsub_entry_of now h scope =
     \<lparr>un_email_hash = h, un_scope = scope, un_added_at = iso now, un_cursor = iso now @ ''#'' @ h\<rparr>"

lemma put_unsub_in_log:
  assumes "unsub_inv t" "snd (put_unsub now h tok scope t) \<or> scope = ''all''"
  shows "unsub_entry_of now h scope \<in> set (unsub_log (fst (put_unsub now h tok scope t)))"
  using assms
  by (auto simp: in_unsub_log [OF unsub_inv_put] unsub_entry_of_def put_unsub_log unsub_of_def str_attr_def str_attr_or_def)

lemma list_unsubs_iff:
  assumes "unsub_inv t"
  shows "(\<exists>n us. list_unsubs c n t = Some us \<and> u \<in> set us) \<longleftrightarrow> u \<in> set (unsub_log t) \<and> c < un_cursor u"
proof -
  let ?f = "filter (\<lambda>u. c < un_cursor u) (unsub_log t)"
  have "u \<in> set ?f \<longleftrightarrow> (\<exists>n. u \<in> set (take n ?f))"
    by (metis in_set_takeD take_all order_refl)
  then show ?thesis by (auto simp: list_unsubs_eq [OF assms])
qed

text \<open>An unsubscribe recorded in a later second than the one the terminal's cursor stands on is
  past that cursor: a pull with enough room returns it.\<close>

theorem unsub_later_second_is_pulled:
  assumes "unsub_inv t" "0 \<le> now0" "now0 < now" "now < max_time"
    and "snd (put_unsub now h tok scope t) \<or> scope = ''all''"
  shows "\<exists>n us. list_unsubs (iso now0 @ ''#'' @ h0) n (fst (put_unsub now h tok scope t)) = Some us \<and>
     unsub_entry_of now h scope \<in> set us"
proof -
  have "iso now0 < iso now" using assms by (simp add: iso_less_iff)
  then have "iso now0 @ ''#'' @ h0 < iso now @ ''#'' @ h"
    using assms append_less_append_same_length [of "iso now0" "iso now"] by (simp add: length_iso)
  then show ?thesis
    by (subst list_unsubs_iff [OF unsub_inv_put [OF assms(1)]])
       (use put_unsub_in_log [OF assms(1,5)] in \<open>simp add: unsub_entry_of_def\<close>)
qed

theorem unsub_later_second_is_pulled_witness:
  "\<exists>n us. list_unsubs (iso 5 @ ''#'' @ ''ff'') n (fst (put_unsub 6 ''aa'' ''t'' ''all'' [])) = Some us \<and>
     unsub_entry_of 6 ''aa'' ''all'' \<in> set us"
  by (rule unsub_later_second_is_pulled) (simp_all add: unsub_inv_def wf_table_def get_item_def max_time_def)

text \<open>The log has no settle window: when the terminal has pulled an entry of the current second, an
  unsubscribe recorded later in that second under a smaller hash is in the log, but no pull
  from that cursor, however large, ever returns it.\<close>

theorem unsub_same_second_is_skipped:
  assumes "unsub_inv t" "h < h0" and "snd (put_unsub now h tok scope t) \<or> scope = ''all''"
  shows "unsub_entry_of now h scope \<in> set (unsub_log (fst (put_unsub now h tok scope t))) \<and>
     \<not> (\<exists>n us. list_unsubs (iso now @ ''#'' @ h0) n (fst (put_unsub now h tok scope t)) = Some us \<and>
          unsub_entry_of now h scope \<in> set us)"
proof -
  have "\<not> iso now @ ''#'' @ h0 < iso now @ ''#'' @ h"
    using assms(2) by (simp add: append_less_append_same_length)
  then show ?thesis
    using put_unsub_in_log [OF assms(1,3)]
    by (simp add: list_unsubs_iff [OF unsub_inv_put [OF assms(1)]]) (simp add: unsub_entry_of_def)
qed

theorem unsub_same_second_is_skipped_witness:
  "unsub_entry_of 5 ''aa'' ''all'' \<in> set (unsub_log (fst (put_unsub 5 ''aa'' ''t'' ''all''
       (fst (put_unsub 5 ''bb'' ''t'' ''all'' []))))) \<and>
   \<not> (\<exists>n us. list_unsubs (iso 5 @ ''#'' @ ''bb'') n (fst (put_unsub 5 ''aa'' ''t'' ''all''
       (fst (put_unsub 5 ''bb'' ''t'' ''all'' [])))) = Some us \<and> unsub_entry_of 5 ''aa'' ''all'' \<in> set us)"
proof (rule unsub_same_second_is_skipped)
  have "unsub_inv []" by (simp add: unsub_inv_def wf_table_def get_item_def)
  then show "unsub_inv (fst (put_unsub 5 ''bb'' ''t'' ''all'' []))" by (rule unsub_inv_put)
qed (simp_all add: less_char_def)

end
