(* ===== verification/Cloud_Sync_Api.thy ===== *)
theory Cloud_Sync_Api
  imports Dynamo_Registry Dynamo_Events Cloud_Keys Envelopes
begin

text \<open>
  The bearer check and the sync endpoints (cloud/sync.py). A request handler is a function of
  the clock, the request and the table; \<open>Inl\<close> is the exception it raises, with the writes made
  before the exception kept in the returned table. The wire fields of a pushed event are
  typed as \<open>SyncEventIn\<close> declares them, each of them optional as in the loose dictionaries
  the endpoint accepts. \<open>seconds\<close> reads an ISO time (\<open>datetime.fromisoformat\<close>; \<open>None\<close> is an
  error), \<open>show\<close> prints a number of seconds.
\<close>

type_synonym 'a response = "table \<times> (exc + 'a)"

section \<open>The bearer check\<close>

definition bearer_of :: "string option \<Rightarrow> exc + string" where
  "bearer_of authorization =
     (case authorization of
        None \<Rightarrow> Inl (HTTPException 401 ''missing bearer'')
      | Some a \<Rightarrow> if starts_with a ''Bearer '' then Inr (strip (drop 7 a)) else Inl (HTTPException 401 ''missing bearer''))"

definition require_bearer :: "crypto \<Rightarrow> int \<Rightarrow> string option \<Rightarrow> table \<Rightarrow> string response" where
  "require_bearer cr now authorization t =
     (case bearer_of authorization of
        Inl e \<Rightarrow> (t, Inl e)
      | Inr bearer \<Rightarrow>
          (case get_session_by_bearer t (sha256_hex cr bearer) of
             None \<Rightarrow> (t, Inl (KeyError ''session''))
           | Some None \<Rightarrow> (t, Inl (HTTPException 401 ''bearer not recognised or revoked''))
           | Some (Some row) \<Rightarrow>
               if truthy (se_revoked_at row) then (t, Inl (HTTPException 401 ''bearer not recognised or revoked''))
               else (touch_session now (sha256_hex cr bearer) t, Inr (se_actor row))))"

text \<open>An endpoint behind the check.\<close>

definition authed ::
  "crypto \<Rightarrow> int \<Rightarrow> string option \<Rightarrow> (string \<Rightarrow> table \<Rightarrow> 'a response) \<Rightarrow> table \<Rightarrow> 'a response" where
  "authed cr now authorization f t =
     (case require_bearer cr now authorization t of
        (t1, Inl e) \<Rightarrow> (t1, Inl e)
      | (t1, Inr actor) \<Rightarrow> f actor t1)"

section \<open>Pull\<close>

record pulled =
  pu_events :: "event list"
  pu_max_event_id :: int
  pu_unsubs :: "unsub list"
  pu_max_unsub_at :: string

text \<open>An event on the wire carries its payload in base64.\<close>

definition wire_event :: "event \<Rightarrow> event" where
  "wire_event e = e\<lparr>ev_payload := map_option b64encode (ev_payload e)\<rparr>"

definition sync_pull :: "int \<Rightarrow> string \<Rightarrow> table \<Rightarrow> exc + pulled" where
  "sync_pull since unsub_since t =
     (if since < 0 then Inl (HTTPException 422 ''since'')
      else
        (case (query_events_since since 500 t, list_unsubs unsub_since 1000 t) of
           (Some rows, Some unsubs) \<Rightarrow>
             Inr \<lparr>pu_events = map wire_event rows,
                  pu_max_event_id = (if rows = [] then since else event_id (last rows)),
                  pu_unsubs = unsubs,
                  pu_max_unsub_at = (if unsubs = [] then unsub_since else un_cursor (last unsubs))\<rparr>
         | _ \<Rightarrow> Inl (KeyError ''row'')))"

section \<open>Push\<close>

record raw_event =
  rw_table :: "string option"
  rw_table_name :: "string option"
  rw_id :: "string option"
  rw_row_id :: "string option"
  rw_revision :: "int option"
  rw_actor :: "string option"
  rw_modified_at :: "string option"
  rw_key_id :: "string option"
  rw_payload :: "string option"
  rw_deleted :: bool

record near =
  nr_table :: string
  nr_row_id :: string
  nr_delta :: rat

record pushed =
  ps_ids :: "int list"
  ps_conflicts :: "near list"

definition replace_z :: "string \<Rightarrow> string" where
  "replace_z s = concat (map (\<lambda>c. if c = CHR ''Z'' then ''+00:00'' else [c]) s)"

definition near_delta :: "(string \<Rightarrow> rat option) \<Rightarrow> string \<Rightarrow> string \<Rightarrow> rat" where
  "near_delta seconds new old =
     (case (seconds (replace_z new), seconds (replace_z old)) of
        (Some a, Some b) \<Rightarrow> \<bar>a - b\<bar>
      | _ \<Rightarrow> 9999)"

record sync_env =
  sn_now :: int
  sn_iso :: string
  sn_seconds :: "string \<Rightarrow> rat option"
  sn_show :: "rat \<Rightarrow> string"
  sn_index :: "table \<Rightarrow> table"

text \<open>The near-conflict check of one stored event against the latest earlier one of its row.\<close>

definition check_near ::
  "sync_env \<Rightarrow> string \<Rightarrow> string \<Rightarrow> string \<Rightarrow> string \<Rightarrow> int \<Rightarrow> table \<Rightarrow> (near list) response" where
  "check_near env table row_id act mod_at eid t =
     (case query_latest_event_for_row (sn_index env t) table row_id eid of
        None \<Rightarrow> (t, Inl (KeyError ''event''))
      | Some None \<Rightarrow> (t, Inr [])
      | Some (Some prior) \<Rightarrow>
          (let delta = near_delta (sn_seconds env) mod_at (ev_modified_at prior) in
           if delta < 60 \<and> ev_actor prior \<noteq> act then
             (fst (put_near_conflict (sn_now env) table row_id (event_id prior) eid (ev_actor prior) act
                (ev_modified_at prior) mod_at (sn_show env delta) t),
              Inr [\<lparr>nr_table = table, nr_row_id = row_id, nr_delta = delta\<rparr>])
           else (t, Inr [])))"

definition push_one :: "sync_env \<Rightarrow> string \<Rightarrow> raw_event \<Rightarrow> table \<Rightarrow> (int \<times> near list) response" where
  "push_one env actor raw t =
     (let table = opt_or (rw_table raw) (opt_or (rw_table_name raw) []);
          row_id = opt_or (rw_id raw) (opt_or (rw_row_id raw) []);
          rev' = (case rw_revision raw of None \<Rightarrow> 0 | Some r \<Rightarrow> r);
          act = (case rw_actor raw of None \<Rightarrow> actor | Some a \<Rightarrow> a);
          mod_at = (case rw_modified_at raw of None \<Rightarrow> sn_iso env | Some m \<Rightarrow> m);
          key_id = (case rw_key_id raw of None \<Rightarrow> ''K_op+K_cl'' | Some k \<Rightarrow> k)
      in
      (case (if truthy (rw_payload raw) then map_option Some (b64decode (the (rw_payload raw))) else Some None) of
         None \<Rightarrow> (t, Inl (ValueError ''base64''))
       | Some payload \<Rightarrow>
           if table = [] \<or> row_id = [] \<or> act = [] then
             (t, Inl (HTTPException 400 ''missing required field (table, row_id, or actor)''))
           else if act \<noteq> actor then (t, Inl (HTTPException 403 ''actor mismatch''))
           else
             (let (t1, i) = put_event (sn_now env) table row_id rev' act mod_at key_id payload (rw_deleted raw) t in
              (case check_near env table row_id act mod_at i t1 of
                 (t2, Inl e) \<Rightarrow> (t2, Inl e)
               | (t2, Inr near) \<Rightarrow> (t2, Inr (i, near))))))"

fun sync_push :: "sync_env \<Rightarrow> string \<Rightarrow> raw_event list \<Rightarrow> table \<Rightarrow> pushed response" where
  "sync_push env actor [] t = (t, Inr \<lparr>ps_ids = [], ps_conflicts = []\<rparr>)"
| "sync_push env actor (raw # raws) t =
     (case push_one env actor raw t of
        (t1, Inl e) \<Rightarrow> (t1, Inl e)
      | (t1, Inr (i, near)) \<Rightarrow>
          (case sync_push env actor raws t1 of
             (t2, Inl e) \<Rightarrow> (t2, Inl e)
           | (t2, Inr p) \<Rightarrow> (t2, Inr \<lparr>ps_ids = i # ps_ids p, ps_conflicts = near @ ps_conflicts p\<rparr>)))"

section \<open>The temporary key and the near-conflict review\<close>

definition key_temp_set :: "crypto \<Rightarrow> int \<Rightarrow> string \<Rightarrow> string \<Rightarrow> int \<Rightarrow> table \<Rightarrow> key_meta response" where
  "key_temp_set cr now actor k_temp_b64 ttl t =
     (case b64decode k_temp_b64 of
        None \<Rightarrow> (t, Inl (HTTPException 400 ''bad base64''))
      | Some k \<Rightarrow>
          (case set_k_temp (sha256_hex cr) now k ttl actor t of
             Inr (t', m) \<Rightarrow> (t', Inr m)
           | Inl (TTLViolation s) \<Rightarrow> (t, Inl (HTTPException 400 s))
           | Inl (ValueError s) \<Rightarrow> (t, Inl (HTTPException 400 s))
           | Inl e \<Rightarrow> (t, Inl e)))"

definition key_temp_status :: "int \<Rightarrow> table \<Rightarrow> key_status option response" where
  "key_temp_status now t =
     (t, case k_temp_status now t of None \<Rightarrow> Inl (KeyError ''expires_at'') | Some s \<Rightarrow> Inr s)"

definition key_temp_revoke :: "table \<Rightarrow> unit response" where
  "key_temp_revoke t = (wipe_k_temp t, Inr ())"

definition near_conflicts_list :: "bool \<Rightarrow> nat \<Rightarrow> table \<Rightarrow> (conflict list \<times> nat) response" where
  "near_conflicts_list unack_only limit t =
     (t, case list_near_conflicts unack_only limit t of
           None \<Rightarrow> Inl (KeyError ''conflict'') | Some rows \<Rightarrow> Inr (rows, length rows))"

definition near_conflicts_ack :: "int \<Rightarrow> string \<Rightarrow> int \<Rightarrow> table \<Rightarrow> unit response" where
  "near_conflicts_ack now actor i t =
     (case ack_near_conflict now i actor t of
        (t', True) \<Rightarrow> (t', Inr ())
      | (t', False) \<Rightarrow> (t', Inl (HTTPException 404 ''conflict not found'')))"

section \<open>Properties\<close>


definition demo_sessions :: table where
  "demo_sessions = put_session 5 ''00'' ''client'' (put_session 3 ''11'' ''operator'' [])"

lemma demo_sessions_inv: "session_inv demo_sessions"
  by (auto simp: session_inv_def demo_sessions_def put_session_def get_put get_item_def wf_table_def put_item_def session_key_def
      coerce_session_def str_attr_def split: if_splits)


text \<open>What the log gains from one pushed event, and that the near-conflict log is another partition.\<close>

lemma put_conflict_other:
  "p \<noteq> ''COUNTER'' \<Longrightarrow> p \<noteq> ''CONFLICT'' \<Longrightarrow> get_item (fst (put_near_conflict n a b c d e f g h i t)) p s = get_item t p s"
  "counter ''event_log'' (fst (put_near_conflict n a b c d e f g h i t)) = counter ''event_log'' t"
  "query ''EVENT'' q (fst (put_near_conflict n a b c d e f g h i t)) = query ''EVENT'' q t"
  "wf_table t \<Longrightarrow> wf_table (fst (put_near_conflict n a b c d e f g h i t))"
proof -
  have e: "\<exists>sk it. fst (put_near_conflict n a b c d e f g h i t) = put_item ''CONFLICT'' sk it (fst (next_id ''near_conflict'' t))"
    by (auto simp: put_near_conflict_def Let_def split: prod.splits)
  then show "p \<noteq> ''COUNTER'' \<Longrightarrow> p \<noteq> ''CONFLICT'' \<Longrightarrow> get_item (fst (put_near_conflict n a b c d e f g h i t)) p s = get_item t p s"
    by (auto simp: get_put get_next_id)
  show "counter ''event_log'' (fst (put_near_conflict n a b c d e f g h i t)) = counter ''event_log'' t"
    using e by (auto simp: counter_update_other counter_next_id)
  show "query ''EVENT'' q (fst (put_near_conflict n a b c d e f g h i t)) = query ''EVENT'' q t"
    using e by (auto simp: query_put_other query_next_id)
  show "wf_table t \<Longrightarrow> wf_table (fst (put_near_conflict n a b c d e f g h i t))"
    using e by auto
qed

lemma check_near_cases:
  assumes "check_near env tb row act m i t = (t', r)"
  obtains "t' = t" | a b c d e f g h x y where "t' = fst (put_near_conflict a b c d e f g h x y t)"
  using assms by (auto simp: check_near_def Let_def split: option.splits if_splits)

lemma check_near_log:
  assumes "check_near env tb row act m i t = (t', r)" "event_inv t"
  shows "event_inv t' \<and> events t' = events t \<and> counter ''event_log'' t' = counter ''event_log'' t"
proof -
  from assms(1) show ?thesis
  proof (cases rule: check_near_cases)
    case 2
    then show ?thesis using assms(2) by (simp add: events_def event_inv_def put_conflict_other)
  qed (simp add: assms(2))
qed

lemma push_one_log:
  assumes inv: "event_inv t" "counter ''event_log'' t + 1 < id_space" and p: "push_one env actor raw t = (t', r)"
  shows "event_inv t' \<and>
     (t' = t \<and> (\<exists>e. r = Inl e) \<or>
      (\<exists>e. events t' = events t @ [e] \<and> event_id e = counter ''event_log'' t + 1 \<and> ev_actor e = actor \<and>
         counter ''event_log'' t' = counter ''event_log'' t + 1 \<and> (\<forall>i near. r = Inr (i, near) \<longrightarrow> i = event_id e)))"
proof (cases "t' = t \<and> (\<exists>e. r = Inl e)")
  case True
  with inv show ?thesis by simp
next
  case False
  then obtain tb row rv m k pl t1 i r2 where pe: "put_event (sn_now env) tb row rv actor m k pl (rw_deleted raw) t = (t1, i)"
    and cn: "check_near env tb row actor m i t1 = (t', r2)" and r: "\<forall>i' near. r = Inr (i', near) \<longrightarrow> i' = i"
    using p by (auto simp: push_one_def Let_def split: option.splits if_splits prod.splits sum.splits)
  note a = put_event_log [OF inv pe]
  from check_near_log [OF cn a(1)] a r show ?thesis by auto
qed

lemma cons_ids:
  assumes "map event_id new = map (\<lambda>i. c1 + 1 + int i) [0..<length new]" "event_id e = c + 1" "c1 = c + 1"
  shows "map event_id (e # new) = map (\<lambda>i. c + 1 + int i) [0..<length (e # new)]"
proof (rule nth_equalityI)
  fix i assume i: "i < length (map event_id (e # new))"
  have "event_id (new ! n) = c1 + 1 + int n" if "n < length new" for n
    using arg_cong [OF assms(1), of "\<lambda>xs. xs ! n"] that by simp
  then show "map event_id (e # new) ! i = map (\<lambda>i. c + 1 + int i) [0..<length (e # new)] ! i"
    using i assms(2,3) by (cases i) (auto simp del: upt_Suc)
qed simp

text \<open>A push appends to the event log and does nothing else to it: the new events are in the order of
  the request, under consecutive fresh ids, all in the name of the authenticated party. If
  every event is accepted the answer lists exactly their ids; if one is refused, the
  events before it stay stored and none after it is.\<close>

theorem push_appends:
  assumes "event_inv t" "counter ''event_log'' t + int (length raws) < id_space" "sync_push env actor raws t = (t', r)"
  shows "event_inv t' \<and>
     (\<exists>new. events t' = events t @ new \<and> length new \<le> length raws \<and> (\<forall>e\<in>set new. ev_actor e = actor) \<and>
        map event_id new = map (\<lambda>i. counter ''event_log'' t + 1 + int i) [0..<length new] \<and>
        counter ''event_log'' t' = counter ''event_log'' t + int (length new) \<and>
        (\<forall>p. r = Inr p \<longrightarrow> length new = length raws \<and> ps_ids p = map event_id new))"
  using assms
proof (induction raws arbitrary: t r)
  case Nil
  then show ?case by auto
next
  case (Cons raw raws)
  obtain t1 r1 where p: "push_one env actor raw t = (t1, r1)" by fastforce
  have "counter ''event_log'' t + 1 < id_space" using Cons.prems(2) by simp
  note one = push_one_log [OF Cons.prems(1) this p]
  show ?case
  proof (cases r1)
    case (Inl e)
    then have "t' = t1" "r = Inl e" using Cons.prems(3) p by auto
    with one Inl show ?thesis by (auto intro: exI [of _ "[]"])
  next
    case (Inr x)
    then obtain i near where x: "r1 = Inr (i, near)" by (cases x) auto
    with one obtain e where e: "events t1 = events t @ [e]" "event_id e = counter ''event_log'' t + 1" "ev_actor e = actor"
      "counter ''event_log'' t1 = counter ''event_log'' t + 1" "i = event_id e" "event_inv t1" by auto
    obtain r2 where s: "sync_push env actor raws t1 = (t', r2)"
      using Cons.prems(3) p x by (auto split: prod.splits sum.splits)
    have "counter ''event_log'' t1 + int (length raws) < id_space" using Cons.prems(2) e(4) by simp
    from Cons.IH [OF e(6) this s] obtain new where new: "event_inv t'" "events t' = events t1 @ new"
      "length new \<le> length raws" "\<forall>e\<in>set new. ev_actor e = actor"
      "map event_id new = map (\<lambda>i. counter ''event_log'' t1 + 1 + int i) [0..<length new]"
      "counter ''event_log'' t' = counter ''event_log'' t1 + int (length new)"
      "\<forall>p. r2 = Inr p \<longrightarrow> length new = length raws \<and> ps_ids p = map event_id new" by blast
    have ids: "map event_id (e # new) = map (\<lambda>i. counter ''event_log'' t + 1 + int i) [0..<length (e # new)]"
      using new(5) e(2,4) by (intro cons_ids)
    have res: "\<forall>p. r = Inr p \<longrightarrow> length (e # new) = length (raw # raws) \<and> ps_ids p = map event_id (e # new)"
      using Cons.prems(3) p x s new(7) e(5) by (auto split: sum.splits)
    have ev: "events t' = events t @ (e # new)" using new(2) e(1) by simp
    have len: "length (e # new) \<le> length (raw # raws)" using new(3) by simp
    have act: "\<forall>e\<in>set (e # new). ev_actor e = actor" using new(4) e(3) by simp
    have cnt: "counter ''event_log'' t' = counter ''event_log'' t + int (length (e # new))" using new(6) e(4) by simp
    show ?thesis
      by (rule conjI [OF new(1)], rule exI [of _ "e # new"]) (intro conjI ev len act ids cnt res)
  qed
qed

text \<open>The terminal's loop over one table: each round asks from the cursor the last one returned.\<close>

primrec pull_rounds :: "nat \<Rightarrow> int \<Rightarrow> string \<Rightarrow> table \<Rightarrow> event list \<times> int" where
  "pull_rounds 0 c u t = ([], c)"
| "pull_rounds (Suc k) c u t =
     (case sync_pull c u t of
        Inl e \<Rightarrow> ([], c)
      | Inr p \<Rightarrow> (let r = pull_rounds k (pu_max_event_id p) (pu_max_unsub_at p) t in (pu_events p @ fst r, snd r)))"

lemma sync_pull_eq:
  assumes "event_inv t" "counter ''event_log'' t < id_space" "unsub_inv t" "0 \<le> c" "c < id_space"
  shows "\<exists>p. sync_pull c u t = Inr p \<and> pu_events p = map wire_event (the (query_events_since c 500 t)) \<and>
     pu_max_event_id p = next_cursor event_id c (the (query_events_since c 500 t)) \<and>
     pu_unsubs p = the (list_unsubs u 1000 t) \<and> pu_max_unsub_at p = next_cursor un_cursor u (the (list_unsubs u 1000 t))"
  using assms by (simp add: sync_pull_def query_events_since_eq list_unsubs_eq next_cursor_def)

lemma pull_rounds_eq:
  assumes "event_inv t" "counter ''event_log'' t < id_space" "unsub_inv t"
  shows "0 \<le> c \<Longrightarrow> c < id_space \<Longrightarrow>
     pull_rounds k c u t = map_prod (map wire_event) id (pulls (\<lambda>c. the (query_events_since c 500 t)) event_id k c)"
proof (induction k arbitrary: c u)
  case 0
  then show ?case by simp
next
  case (Suc k)
  obtain p where p: "sync_pull c u t = Inr p" "pu_events p = map wire_event (the (query_events_since c 500 t))"
     "pu_max_event_id p = next_cursor event_id c (the (query_events_since c 500 t))"
    using sync_pull_eq [OF assms Suc.prems] by blast
  have "0 \<le> pu_max_event_id p \<and> pu_max_event_id p < id_space"
    using ev.next_cursor_ok [of t c 500] assms Suc.prems p(3) by simp
  with Suc.IH p show ?case by (simp add: Let_def map_prod_def split: prod.splits)
qed

text \<open>Pulling until nothing new comes returns every event past the cursor, each once, in order:
  with batches of 500, \<open>k\<close> rounds are enough for \<open>500 * k\<close> events.\<close>

theorem pull_rounds_complete:
  assumes "event_inv t" "counter ''event_log'' t < id_space" "unsub_inv t" "0 \<le> c" "c < id_space"
    and "length (filter (\<lambda>e. c < event_id e) (events t)) \<le> k * 500"
  shows "fst (pull_rounds k c u t) = map wire_event (filter (\<lambda>e. c < event_id e) (events t))"
  using assms ev.pulls_complete [of t c 500 k] by (simp add: pull_rounds_eq)

text \<open>A push between two pulls loses nothing: the batch already received and what the next cursor
  selects from the longer log are together everything past the first cursor.\<close>

theorem pull_during_push:
  assumes inv: "event_inv t" "unsub_inv t" and c: "0 \<le> c" "c \<le> counter ''event_log'' t"
    and room: "counter ''event_log'' t + int (length raws) < id_space"
    and pull: "sync_pull c u t = Inr p" and push: "sync_push env actor raws t = (t', r)"
  shows "map wire_event (filter (\<lambda>e. c < event_id e) (events t')) =
     pu_events p @ map wire_event (filter (\<lambda>e. pu_max_event_id p < event_id e) (events t'))"
proof -
  obtain new where new: "event_inv t'" "events t' = events t @ new" "length new \<le> length raws"
      "map event_id new = map (\<lambda>i. counter ''event_log'' t + 1 + int i) [0..<length new]"
      "counter ''event_log'' t' = counter ''event_log'' t + int (length new)"
    using push_appends [OF inv(1) room push] by blast
  have "event_id e \<in> set (map event_id new) \<Longrightarrow> c < event_id e" for e :: event
    unfolding new(4) using c by auto
  then have past: "\<forall>e\<in>set new. c < event_id e" by simp
  have room': "counter ''event_log'' t' < id_space" using new(3,5) room by simp
  have c': "0 \<le> c \<and> c < id_space" and now: "counter ''event_log'' t < id_space" using c room by simp_all
  obtain p' where "sync_pull c u t = Inr p'" "pu_events p' = map wire_event (the (query_events_since c 500 t))"
    "pu_max_event_id p' = next_cursor event_id c (the (query_events_since c 500 t))"
    using sync_pull_eq [OF inv(1) now inv(2), of c u] c' by blast
  with pull have p: "pu_events p = map wire_event (the (query_events_since c 500 t))"
    "pu_max_event_id p = next_cursor event_id c (the (query_events_since c 500 t))" by simp_all
  from ev.pull_while_growing [OF conjI [OF inv(1) now] c' conjI [OF new(1) room'] new(2) refl past, of 500]
  show ?thesis by (simp add: p)
qed

section \<open>Witnesses\<close>

definition demo_raw :: "string \<Rightarrow> raw_event" where
  "demo_raw row = \<lparr>rw_table = Some ''contact'', rw_table_name = None, rw_id = Some row, rw_row_id = None, rw_revision = Some 1,
     rw_actor = Some ''client'', rw_modified_at = Some ''m'', rw_key_id = None, rw_payload = None, rw_deleted = False\<rparr>"

definition demo_env :: sync_env where
  "demo_env = \<lparr>sn_now = 5, sn_iso = ''m'', sn_seconds = (\<lambda>_. None), sn_show = (\<lambda>_. ''0''), sn_index = (\<lambda>_. [])\<rparr>"

lemma empty_event_inv: "event_inv []" "counter ''event_log'' [] = 0" "events [] = []" "unsub_inv []"
  by (simp_all add: event_inv_def wf_table_def counter_def get_item_def item_or_new_def events_def query_def partition_items_def
      unsub_inv_def)

definition demo_pushed :: "table" where
  "demo_pushed = fst (sync_push demo_env ''client'' [demo_raw ''7'', demo_raw ''8''] [])"

lemma demo_push_ok: "\<exists>p. sync_push demo_env ''client'' [demo_raw ''7'', demo_raw ''8''] [] = (demo_pushed, Inr p)"
  by (simp add: demo_pushed_def push_one_def demo_raw_def demo_env_def Let_def truthy_def opt_or_def py_or_def check_near_def
      query_latest_event_for_row_def query_row_key_def List.map_filter_simps split: prod.splits)

theorem push_appends_witness:
  "\<exists>new. events demo_pushed = new \<and> map event_id new = [1, 2] \<and> (\<forall>e\<in>set new. ev_actor e = ''client'')"
proof -
  obtain p where p: "sync_push demo_env ''client'' [demo_raw ''7'', demo_raw ''8''] [] = (demo_pushed, Inr p)"
    using demo_push_ok by blast
  have "counter ''event_log'' [] + int (length [demo_raw ''7'', demo_raw ''8'']) < id_space"
    by (simp add: empty_event_inv id_space_def)
  note a = push_appends [OF empty_event_inv(1) this p]
  have two: "[0..<length [demo_raw ''7'', demo_raw ''8'']] = [0, 1]" by (simp add: upt_rec)
  from a two show ?thesis by (auto simp: empty_event_inv)
qed

lemma demo_pushed_inv:
  "event_inv demo_pushed \<and> counter ''event_log'' demo_pushed \<le> 2 \<and> length (events demo_pushed) \<le> 2"
proof -
  obtain t1 r1 where a: "push_one demo_env ''client'' (demo_raw ''7'') [] = (t1, r1)" by fastforce
  obtain t2 r2 where b: "push_one demo_env ''client'' (demo_raw ''8'') t1 = (t2, r2)" by fastforce
  have one: "event_inv t1" "counter ''event_log'' t1 \<le> 1" "length (events t1) \<le> 1"
    using push_one_log [OF empty_event_inv(1) _ a] by (auto simp: empty_event_inv id_space_def)
  have two: "event_inv t2" "counter ''event_log'' t2 \<le> 2" "length (events t2) \<le> 2"
    using push_one_log [OF one(1) _ b] one by (auto simp: id_space_def)
  have "demo_pushed = t1 \<or> demo_pushed = t2"
    using a b by (auto simp: demo_pushed_def split: sum.splits)
  then show ?thesis using one two by auto
qed

lemma push_unsub_frame: "unsub_inv t \<Longrightarrow> sync_push env actor raws t = (t', r) \<Longrightarrow> unsub_inv t'"
proof (induction env actor raws t arbitrary: r rule: sync_push.induct)
  case (2 env actor raw raws t)
  obtain t1 r1 where p: "push_one env actor raw t = (t1, r1)" by fastforce
  have "unsub_inv t1"
  proof -
    have put: "unsub_inv (fst (put_event n a b c d e f g h t))" for n a b c d e f g h
    proof -
      have "\<exists>sk it. fst (put_event n a b c d e f g h t) = put_item ''EVENT'' sk it (fst (next_id ''event_log'' t))"
        by (auto simp: put_event_def Let_def split: prod.splits)
      then obtain sk it where "fst (put_event n a b c d e f g h t) = put_item ''EVENT'' sk it (fst (next_id ''event_log'' t))" by blast
      then show ?thesis using 2(2) by (simp add: unsub_inv_def get_put get_next_id)
    qed
    have near: "unsub_inv u' " if "check_near env tb row act m i u = (u', q)" "unsub_inv u" for tb row act m i u u' q
    proof -
      from that(1) show ?thesis
        by (cases rule: check_near_cases) (use that(2) in \<open>simp_all add: unsub_inv_def put_conflict_other\<close>)
    qed
    show ?thesis
    proof (cases "t1 = t")
      case False
      then obtain tb row rv m k pl u i r2 where "put_event (sn_now env) tb row rv actor m k pl (rw_deleted raw) t = (u, i)"
        and "check_near env tb row actor m i u = (t1, r2)"
        using p by (auto simp: push_one_def Let_def split: option.splits if_splits prod.splits sum.splits)
      then show ?thesis using near put by (metis fst_conv)
    qed (simp add: 2(2))
  qed
  then show ?case
  proof (cases r1)
    case (Inr x)
    then obtain i nr where x: "r1 = Inr (i, nr)" by (cases x) auto
    obtain r2 where "sync_push env actor raws t1 = (t', r2)"
      using 2(3) p x by (auto split: prod.splits sum.splits)
    from 2(1) [OF p [symmetric] x refl \<open>unsub_inv t1\<close> this] show ?thesis .
  qed (use 2(3) p in simp)
qed simp

lemma demo_pushed_unsub: "unsub_inv demo_pushed"
  using demo_push_ok push_unsub_frame [OF empty_event_inv(4)] by blast

theorem pull_rounds_complete_witness:
  "fst (pull_rounds 1 0 [] demo_pushed) = map wire_event (filter (\<lambda>e. 0 < event_id e) (events demo_pushed))"
proof (rule pull_rounds_complete)
  show "length (filter (\<lambda>e. 0 < event_id e) (events demo_pushed)) \<le> 1 * 500"
    using demo_pushed_inv length_filter_le [of "\<lambda>e. 0 < event_id e" "events demo_pushed"] by linarith
  show "counter ''event_log'' demo_pushed < id_space" using demo_pushed_inv by (simp add: id_space_def)
qed (use demo_pushed_inv demo_pushed_unsub in \<open>simp_all add: id_space_def\<close>)

theorem pull_during_push_witness:
  "\<exists>p. sync_pull 0 [] [] = Inr p \<and> map wire_event (filter (\<lambda>e. 0 < event_id e) (events demo_pushed)) =
     pu_events p @ map wire_event (filter (\<lambda>e. pu_max_event_id p < event_id e) (events demo_pushed))"
proof -
  obtain p where p: "sync_pull 0 [] [] = Inr p"
    using sync_pull_eq [OF empty_event_inv(1) _ empty_event_inv(4), of 0 "[]"] by (auto simp: empty_event_inv id_space_def)
  obtain q where q: "sync_push demo_env ''client'' [demo_raw ''7'', demo_raw ''8''] [] = (demo_pushed, Inr q)"
    using demo_push_ok by blast
  have "counter ''event_log'' [] + int (length [demo_raw ''7'', demo_raw ''8'']) < id_space" "(0::int) \<le> counter ''event_log'' []"
    by (simp_all add: empty_event_inv id_space_def)
  from pull_during_push [OF empty_event_inv(1,4) order_refl this(2,1) p q] p show ?thesis by blast
qed

end
