(* ===== verification/Cloud_Packs_Api.thy ===== *)
theory Cloud_Packs_Api
  imports Outcome_Feed Cloud_Sync_Api
begin

text \<open>
  The pack endpoints (cloud/packs.py). A request makes several reads and writes; what other
  processes do to the table between two of them is the argument \<open>other\<close>, applied before each
  request after the first. The queue is the list of pack ids enqueued; \<open>queue_ok\<close> says whether a message is
  accepted (with no queue configured, none is).
\<close>

section \<open>Push\<close>

record pack_in =
  pi_id :: string
  pi_campaign :: int
  pi_recipient_hash :: string
  pi_content_hash :: string
  pi_send_at :: string
  pi_key_id :: string
  pi_blob :: string

record held =
  hd_id :: string
  hd_status :: string
  hd_message_id :: "string option"
  hd_failure :: "string option"

record push_answer =
  pa_accepted :: nat
  pa_submitted :: nat
  pa_enqueued :: nat
  pa_deferred :: nat
  pa_held :: "held list"

record push_state =
  pst_table :: table
  pst_queue :: "string list"

definition held_of :: "pack \<Rightarrow> held" where
  "held_of cur = \<lparr>hd_id = pk_id cur, hd_status = pk_status cur, hd_message_id = pk_message_id cur, hd_failure = pk_failure cur\<rparr>"

text \<open>\<open>_enqueue\<close> only logs a failure; the caller counts the pack as enqueued all the same.\<close>

definition push_enqueue :: "(string \<Rightarrow> bool) \<Rightarrow> string \<Rightarrow> string list \<Rightarrow> string list" where
  "push_enqueue queue_ok pid q = (if queue_ok pid then q @ [pid] else q)"

definition push_one_pack ::
  "(table \<Rightarrow> table) \<Rightarrow> (string \<Rightarrow> bool) \<Rightarrow> int \<Rightarrow> string \<Rightarrow> pack_in \<Rightarrow> push_state \<Rightarrow> push_state \<times> (exc + (push_answer \<Rightarrow> push_answer))" where
  "push_one_pack other queue_ok now actor p s =
     (case b64decode (pi_blob p) of
        None \<Rightarrow> (s, Inl (ValueError ''base64''))
      | Some payload \<Rightarrow>
          (case put_pack now (pi_id p) (pi_campaign p) (pi_recipient_hash p) (pi_content_hash p) (pi_send_at p)
                  (pi_key_id p) payload actor (pst_table s) of
             Some t \<Rightarrow>
               if pi_send_at p \<le> iso now
               then (\<lparr>pst_table = t, pst_queue = push_enqueue queue_ok (pi_id p) (pst_queue s)\<rparr>,
                     Inr (\<lambda>a. a\<lparr>pa_accepted := Suc (pa_accepted a), pa_enqueued := Suc (pa_enqueued a)\<rparr>))
               else (s\<lparr>pst_table := t\<rparr>,
                     Inr (\<lambda>a. a\<lparr>pa_accepted := Suc (pa_accepted a), pa_deferred := Suc (pa_deferred a)\<rparr>))
           | None \<Rightarrow>
               (let t = other (pst_table s) in
                case get_pack t (pi_id p) of
                  None \<Rightarrow> (s\<lparr>pst_table := t\<rparr>, Inl (KeyError ''pack''))
                | Some None \<Rightarrow> (s\<lparr>pst_table := t\<rparr>, Inr id)
                | Some (Some cur) \<Rightarrow> (s\<lparr>pst_table := t\<rparr>, Inr (\<lambda>a. a\<lparr>pa_held := pa_held a @ [held_of cur]\<rparr>)))))"

fun push_packs ::
  "(table \<Rightarrow> table) \<Rightarrow> (string \<Rightarrow> bool) \<Rightarrow> int \<Rightarrow> string \<Rightarrow> pack_in list \<Rightarrow> push_answer \<Rightarrow> push_state \<Rightarrow> push_state \<times> (exc + push_answer)" where
  "push_packs other queue_ok now actor [] a s = (s, Inr a)"
| "push_packs other queue_ok now actor (p # ps) a s =
     (case push_one_pack other queue_ok now actor p s of
        (s', Inl e) \<Rightarrow> (s', Inl e)
      | (s', Inr f) \<Rightarrow> push_packs other queue_ok now actor ps (f a) (s'\<lparr>pst_table := other (pst_table s')\<rparr>))"

definition packs_push ::
  "(table \<Rightarrow> table) \<Rightarrow> (string \<Rightarrow> bool) \<Rightarrow> int \<Rightarrow> string \<Rightarrow> pack_in list \<Rightarrow> push_state \<Rightarrow> push_state \<times> (exc + push_answer)" where
  "packs_push other queue_ok now actor packs s =
     push_packs other queue_ok now actor packs
       \<lparr>pa_accepted = 0, pa_submitted = length packs, pa_enqueued = 0, pa_deferred = 0, pa_held = []\<rparr> s"

section \<open>Status\<close>

record status_answer =
  sa_packs :: "pack list"
  sa_count :: nat
  sa_max_id :: string

definition packs_status :: "(item list \<Rightarrow> item list list) \<Rightarrow> int \<Rightarrow> table \<Rightarrow> string \<Rightarrow> nat \<Rightarrow> exc + status_answer" where
  "packs_status paging now g since_id limit =
     (case list_resolved_packs paging since_id limit settle_s now g of
        None \<Rightarrow> Inl (KeyError ''pack'')
      | Some rows \<Rightarrow>
          Inr \<lparr>sa_packs = rows, sa_count = length rows,
            sa_max_id = (if rows = [] then since_id else outcome_cursor (last rows))\<rparr>)"

section \<open>Cancel\<close>

datatype cancel_answer = Cancelled | Not_cancelled string

text \<open>The status the read found, after the cancel was refused.\<close>

definition cancel_refused :: "pack option option \<Rightarrow> exc + cancel_answer option" where
  "cancel_refused r =
     (case r of
        None \<Rightarrow> Inl (KeyError ''pack'')
      | Some None \<Rightarrow> Inl (HTTPException 404 ''no such pack'')
      | Some (Some p) \<Rightarrow>
          Inr (if pk_status p = ''pending'' then None else Some (Not_cancelled (''already '' @ pk_status p))))"

definition packs_cancel :: "(table \<Rightarrow> table) \<Rightarrow> int \<Rightarrow> string \<Rightarrow> table \<Rightarrow> table \<times> (exc + cancel_answer)" where
  "packs_cancel other now pid t =
     (case cancel_pack now pid t of
        (t1, True) \<Rightarrow> (t1, Inr Cancelled)
      | (t1, False) \<Rightarrow>
          (let t2 = other t1 in
           case cancel_refused (get_pack t2 pid) of
             Inl e \<Rightarrow> (t2, Inl e)
           | Inr (Some a) \<Rightarrow> (t2, Inr a)
           | Inr None \<Rightarrow>
               (case cancel_pack now pid (other t2) of
                  (t3, True) \<Rightarrow> (t3, Inr Cancelled)
                | (t3, False) \<Rightarrow>
                    (let t4 = other t3 in
                     case cancel_refused (get_pack t4 pid) of
                       Inl e \<Rightarrow> (t4, Inl e)
                     | Inr (Some a) \<Rightarrow> (t4, Inr a)
                     | Inr None \<Rightarrow> (t4, Inr (Not_cancelled ''cancel not confirmed''))))))"

definition packs_cancel_campaign :: "int \<Rightarrow> int option \<Rightarrow> table \<Rightarrow> table \<Rightarrow> table \<times> (exc + nat \<times> int)" where
  "packs_cancel_campaign now campaign_id g t =
     (case campaign_id of
        None \<Rightarrow> (t, Inl (HTTPException 400 ''campaign_id required''))
      | Some c \<Rightarrow>
          (case cancel_pending_for_campaign now c g t of
             (t', None) \<Rightarrow> (t', Inl (KeyError ''pack_id''))
           | (t', Some n) \<Rightarrow> (t', Inr (n, c))))"

section \<open>Lemmas\<close>

text \<open>What the other processes may do between two requests: keep packs well formed and live.\<close>

definition fair :: "(table \<Rightarrow> table) \<Rightarrow> bool" where
  "fair other \<longleftrightarrow> (\<forall>t. pack_inv t \<longrightarrow> pack_inv (other t) \<and> (\<forall>pid. rtranclp pack_step (pstate_of t pid) (pstate_of (other t) pid)))"

lemma fair_id: "fair (\<lambda>t. t)"
  by (simp add: fair_def)

lemma not_absent_stays: "rtranclp pack_step a b \<Longrightarrow> a \<noteq> Absent \<Longrightarrow> b \<noteq> Absent"
  by (induction rule: rtranclp_induct) (auto elim: pack_step.cases)

lemma fair_present: "fair other \<Longrightarrow> pack_inv t \<Longrightarrow> pstate_of t pid \<noteq> Absent \<Longrightarrow> pstate_of (other t) pid \<noteq> Absent"
  unfolding fair_def using not_absent_stays by blast

lemma get_pack_state:
  assumes "pack_inv t" "pstate_of t pid \<noteq> Absent"
  shows "\<exists>p. get_pack t pid = Some (Some p) \<and> pk_id p = pid \<and> pstate_of t pid = classify (pk_status p)"
proof -
  obtain it where it: "get_pack_item t pid = Some it" using assms pstate_absent by fastforce
  then have "pack_ok pid it" using assms(1) by (simp add: pack_inv_def)
  then obtain p where p: "coerce_pack it = Some p" "str_attr ''pack_id'' it = Some pid" by (auto simp: pack_ok_def)
  with it coerce_pack_Some [OF p(1)] show ?thesis by (auto simp: get_pack_def pstate_of_def)
qed

text \<open>One pack of a push: it is stored, or it was there before; no other pack's life is touched.\<close>

lemma push_one_effect:
  assumes inv: "pack_inv (pst_table s)" and f: "fair other" and p: "push_one_pack other qok now actor p s = (s', r)"
  shows "pack_inv (pst_table s') \<and> (\<forall>q. rtranclp pack_step (pstate_of (pst_table s) q) (pstate_of (pst_table s') q)) \<and>
     (\<forall>g. r = Inr g \<longrightarrow> pstate_of (pst_table s') (pi_id p) \<noteq> Absent \<and>
        (if pstate_of (pst_table s) (pi_id p) = Absent then \<forall>a. pa_accepted (g a) = Suc (pa_accepted a) \<and> pa_held (g a) = pa_held a
         else \<forall>a. pa_accepted (g a) = pa_accepted a \<and> map hd_id (pa_held (g a)) = map hd_id (pa_held a) @ [pi_id p]) \<and>
        (\<forall>a. pa_submitted (g a) = pa_submitted a \<and>
           pa_enqueued (g a) + pa_deferred (g a) + pa_accepted a = pa_enqueued a + pa_deferred a + pa_accepted (g a)))"
proof (cases "b64decode (pi_blob p)")
  case None
  with p inv show ?thesis by (auto simp: push_one_pack_def)
next
  case (Some payload)
  let ?put = "put_pack now (pi_id p) (pi_campaign p) (pi_recipient_hash p) (pi_content_hash p) (pi_send_at p) (pi_key_id p) payload actor (pst_table s)"
  show ?thesis
  proof (cases ?put)
    case None
    then have there: "pstate_of (pst_table s) (pi_id p) \<noteq> Absent" using put_refused [OF inv] by simp
    let ?t = "other (pst_table s)"
    have inv': "pack_inv ?t" and st: "\<forall>q. rtranclp pack_step (pstate_of (pst_table s) q) (pstate_of ?t q)"
      using f inv by (simp_all add: fair_def)
    have there': "pstate_of ?t (pi_id p) \<noteq> Absent" using fair_present [OF f inv there] .
    obtain cur where "get_pack ?t (pi_id p) = Some (Some cur)" "pk_id cur = pi_id p" using get_pack_state [OF inv' there'] by blast
    then have "s' = s\<lparr>pst_table := ?t\<rparr>" "r = Inr (\<lambda>a. a\<lparr>pa_held := pa_held a @ [held_of cur]\<rparr>)" "pk_id cur = pi_id p"
      using p Some None by (auto simp: push_one_pack_def Let_def)
    then show ?thesis using inv' st there there' by (simp add: held_of_def)
  next
    case (Some t)
    note st = put_step [OF inv Some]
    have t: "pst_table s' = t" using p \<open>b64decode _ = Some payload\<close> Some by (auto simp: push_one_pack_def split: if_splits)
    have "rtranclp pack_step (pstate_of (pst_table s) q) (pstate_of t q)" for q
      using st(2) [of q] st(3) by (auto intro: r_into_rtranclp)
    then show ?thesis
      using st(1) st(2) [of "pi_id p"] st(3) t p \<open>b64decode _ = Some payload\<close> Some by (auto simp: push_one_pack_def split: if_splits)
  qed
qed

lemma length_map_snoc: "map f xs = map f ys @ [z] \<Longrightarrow> length xs = Suc (length ys)"
  by (metis length_append_singleton length_map)

lemma push_one_queue:
  assumes "pack_inv (pst_table s)" "pstate_of (pst_table s) (pi_id p) \<noteq> Absent"
    and "push_one_pack other qok now actor p s = (s', r)"
  shows "pst_queue s' = pst_queue s"
proof -
  have "put_pack n (pi_id p) a b c d e f g (pst_table s) = None" for n a b c d e f g
    using put_refused [OF assms(1)] assms(2) by blast
  then show ?thesis using assms(3) by (auto simp: push_one_pack_def Let_def split: option.splits)
qed

lemma push_packs_effect:
  assumes "pack_inv (pst_table s)" "fair other" "push_packs other qok now actor ps a s = (s', r)"
  shows "pack_inv (pst_table s') \<and> (\<forall>q. rtranclp pack_step (pstate_of (pst_table s) q) (pstate_of (pst_table s') q)) \<and>
     (\<forall>b. r = Inr b \<longrightarrow> (\<forall>p\<in>set ps. pstate_of (pst_table s') (pi_id p) \<noteq> Absent) \<and>
        pa_accepted b + length (pa_held b) = pa_accepted a + length (pa_held a) + length ps \<and>
        pa_enqueued b + pa_deferred b + pa_accepted a = pa_enqueued a + pa_deferred a + pa_accepted b \<and>
        ((\<forall>p\<in>set ps. pstate_of (pst_table s) (pi_id p) \<noteq> Absent) \<longrightarrow>
           pa_accepted b = pa_accepted a \<and> map hd_id (pa_held b) = map hd_id (pa_held a) @ map pi_id ps)) \<and>
     ((\<forall>p\<in>set ps. pstate_of (pst_table s) (pi_id p) \<noteq> Absent) \<longrightarrow> pst_queue s' = pst_queue s)"
  using assms
proof (induction ps arbitrary: a s)
  case Nil
  then show ?case by auto
next
  case (Cons p ps)
  obtain s1 r1 where one: "push_one_pack other qok now actor p s = (s1, r1)" by fastforce
  note e = push_one_effect [OF Cons.prems(1,2) one]
  show ?case
  proof (cases r1)
    case (Inl x)
    then show ?thesis using Cons.prems(3) one e push_one_queue [OF Cons.prems(1) _ one] by auto
  next
    case (Inr g)
    let ?s2 = "s1\<lparr>pst_table := other (pst_table s1)\<rparr>"
    have inv1: "pack_inv (pst_table s1)" using e by simp
    have inv2: "pack_inv (pst_table ?s2)" and st2: "\<forall>q. rtranclp pack_step (pstate_of (pst_table s1) q) (pstate_of (pst_table ?s2) q)"
      using Cons.prems(2) inv1 by (simp_all add: fair_def)
    have rest: "push_packs other qok now actor ps (g a) ?s2 = (s', r)" using Cons.prems(3) one Inr by simp
    note IH = Cons.IH [OF inv2 Cons.prems(2) rest]
    have path: "rtranclp pack_step (pstate_of (pst_table s) q) (pstate_of (pst_table s') q)"
        "rtranclp pack_step (pstate_of (pst_table s) q) (pstate_of (pst_table ?s2) q)"
        "rtranclp pack_step (pstate_of (pst_table s1) q) (pstate_of (pst_table s') q)" for q
      using e st2 IH by (meson rtranclp_trans)+
    have there: "pstate_of (pst_table s1) (pi_id p) \<noteq> Absent" using e Inr by simp
    show ?thesis
    proof (intro conjI allI impI)
      fix b assume b: "r = Inr b"
      show "\<forall>q\<in>set (p # ps). pstate_of (pst_table s') (pi_id q) \<noteq> Absent"
        using IH b not_absent_stays [OF path(3) there] by simp
      show "pa_accepted b + length (pa_held b) = pa_accepted a + length (pa_held a) + length (p # ps)"
      proof -
        have "pa_accepted (g a) + length (pa_held (g a)) = Suc (pa_accepted a + length (pa_held a))"
          using e Inr length_map_snoc [of hd_id "pa_held (g a)" "pa_held a"] by (auto split: if_splits)
        then show ?thesis using IH b by simp
      qed
      show "pa_enqueued b + pa_deferred b + pa_accepted a = pa_enqueued a + pa_deferred a + pa_accepted b"
      proof -
        have "pa_enqueued (g a) + pa_deferred (g a) + pa_accepted a = pa_enqueued a + pa_deferred a + pa_accepted (g a)"
          using e Inr by blast
        moreover have "pa_enqueued b + pa_deferred b + pa_accepted (g a) = pa_enqueued (g a) + pa_deferred (g a) + pa_accepted b"
          using IH b by blast
        ultimately show ?thesis by linarith
      qed
      assume old: "\<forall>q\<in>set (p # ps). pstate_of (pst_table s) (pi_id q) \<noteq> Absent"
      then have "\<forall>q\<in>set ps. pstate_of (pst_table ?s2) (pi_id q) \<noteq> Absent" using not_absent_stays [OF path(2)] by auto
      then show "pa_accepted b = pa_accepted a" "map hd_id (pa_held b) = map hd_id (pa_held a) @ map pi_id (p # ps)"
        using IH b e Inr old by auto
    next
      assume old: "\<forall>q\<in>set (p # ps). pstate_of (pst_table s) (pi_id q) \<noteq> Absent"
      then have "\<forall>q\<in>set ps. pstate_of (pst_table ?s2) (pi_id q) \<noteq> Absent" using not_absent_stays [OF path(2)] by auto
      moreover have "pst_queue s1 = pst_queue s" using push_one_queue [OF Cons.prems(1) _ one] old by simp
      ultimately show "pst_queue s' = pst_queue s" using IH by simp
    qed (use IH path in auto)
  qed
qed

section \<open>Properties\<close>

text \<open>A push that answers has every one of its packs in the store, accepts or reports as held each of
  them exactly once, and enqueues or defers exactly the accepted ones; whatever other
  processes write meanwhile, every pack's life only moves forward.\<close>

theorem push_answer_accounts:
  assumes "pack_inv (pst_table s)" "fair other" "packs_push other qok now actor packs s = (s', Inr b)"
  shows "(\<forall>p\<in>set packs. pstate_of (pst_table s') (pi_id p) \<noteq> Absent) \<and>
     pa_accepted b + length (pa_held b) = length packs \<and> pa_enqueued b + pa_deferred b = pa_accepted b \<and>
     (\<forall>q. rtranclp pack_step (pstate_of (pst_table s) q) (pstate_of (pst_table s') q))"
  using push_packs_effect [OF assms(1,2) assms(3) [unfolded packs_push_def]] by simp

text \<open>C5: pushing the same packs again, after any time and any writes of other processes, stores nothing and
  enqueues nothing: every pack is reported as held, in the order of the request.\<close>

theorem repeated_push_is_held:
  assumes "pack_inv (pst_table s)" "fair other" "packs_push other qok now actor packs s = (s1, Inr b)"
    and "fair between" "packs_push other qok' now' actor' packs (s1\<lparr>pst_table := between (pst_table s1)\<rparr>) = (s2, Inr c)"
  shows "pa_accepted c = 0 \<and> map hd_id (pa_held c) = map pi_id packs \<and> pst_queue s2 = pst_queue s1"
proof -
  note e = push_packs_effect [OF assms(1,2) assms(3) [unfolded packs_push_def]]
  let ?s = "s1\<lparr>pst_table := between (pst_table s1)\<rparr>"
  have inv: "pack_inv (pst_table ?s)" using assms(4) e by (simp add: fair_def)
  have "\<forall>p\<in>set packs. pstate_of (pst_table ?s) (pi_id p) \<noteq> Absent"
    using fair_present [OF assms(4)] e by simp
  with push_packs_effect [OF inv assms(2) assms(5) [unfolded packs_push_def]] show ?thesis by simp
qed

definition demo_pack_in :: pack_in where
  "demo_pack_in = \<lparr>pi_id = ''p9'', pi_campaign = 7, pi_recipient_hash = ''rh'', pi_content_hash = ''ch'',
     pi_send_at = ''2030-01-01T00:00:00Z'', pi_key_id = ''k'', pi_blob = []\<rparr>"

definition empty_push :: push_state where
  "empty_push = \<lparr>pst_table = [], pst_queue = []\<rparr>"

lemma pack_inv_empty: "pack_inv []" "pstate_of [] pid = Absent"
  by (simp_all add: pack_inv_def wf_table_def get_pack_item_def get_item_def pstate_of_def)

lemma b64_empty: "b64decode [] = Some []"
  by (simp add: b64decode_def)

lemma push_first: "\<exists>s b. packs_push (\<lambda>t. t) (\<lambda>_. True) 5 ''client'' [demo_pack_in] empty_push = (s, Inr b)"
proof -
  have "put_pack 5 ''p9'' 7 ''rh'' ''ch'' ''2030-01-01T00:00:00Z'' ''k'' [] ''client'' [] \<noteq> None"
    using put_refused [OF pack_inv_empty(1)] pack_inv_empty(2) by blast
  then show ?thesis
    by (auto simp: packs_push_def push_one_pack_def demo_pack_in_def b64_empty empty_push_def)
qed

lemma push_second:
  assumes "pack_inv (pst_table s)" "pstate_of (pst_table s) ''p9'' \<noteq> Absent"
  shows "\<exists>s2 c. packs_push (\<lambda>t. t) (\<lambda>_. True) 6 ''client'' [demo_pack_in] s = (s2, Inr c)"
proof -
  obtain cur where "get_pack (pst_table s) ''p9'' = Some (Some cur)" using get_pack_state [OF assms] by blast
  then show ?thesis
    using put_refused [OF assms(1)] assms(2)
    by (auto simp: packs_push_def push_one_pack_def demo_pack_in_def b64_empty Let_def split: option.splits)
qed

theorem push_answer_accounts_witness:
  "\<exists>s' b. packs_push (\<lambda>t. t) (\<lambda>_. True) 5 ''client'' [demo_pack_in] empty_push = (s', Inr b) \<and>
     pa_accepted b + length (pa_held b) = 1 \<and> pstate_of (pst_table s') ''p9'' \<noteq> Absent"
proof -
  obtain s b where p: "packs_push (\<lambda>t. t) (\<lambda>_. True) 5 ''client'' [demo_pack_in] empty_push = (s, Inr b)" using push_first by blast
  have "pack_inv (pst_table empty_push)" by (simp add: empty_push_def pack_inv_empty)
  from push_answer_accounts [OF this fair_id p] p show ?thesis by (auto simp: demo_pack_in_def)
qed

theorem repeated_push_is_held_witness:
  "\<exists>s1 s2 b c. packs_push (\<lambda>t. t) (\<lambda>_. True) 5 ''client'' [demo_pack_in] empty_push = (s1, Inr b) \<and>
     packs_push (\<lambda>t. t) (\<lambda>_. True) 6 ''client'' [demo_pack_in] s1 = (s2, Inr c) \<and>
     pa_accepted c = 0 \<and> map hd_id (pa_held c) = [''p9'']"
proof -
  obtain s1 b where p: "packs_push (\<lambda>t. t) (\<lambda>_. True) 5 ''client'' [demo_pack_in] empty_push = (s1, Inr b)" using push_first by blast
  have inv: "pack_inv (pst_table empty_push)" by (simp add: empty_push_def pack_inv_empty)
  have "pack_inv (pst_table s1)" "pstate_of (pst_table s1) ''p9'' \<noteq> Absent"
    using push_packs_effect [OF inv fair_id p [unfolded packs_push_def]] by (auto simp: demo_pack_in_def)
  from push_second [OF this] obtain s2 c where q: "packs_push (\<lambda>t. t) (\<lambda>_. True) 6 ''client'' [demo_pack_in] s1 = (s2, Inr c)" by blast
  have q': "packs_push (\<lambda>t. t) (\<lambda>_. True) 6 ''client'' [demo_pack_in] (s1\<lparr>pst_table := pst_table s1\<rparr>) = (s2, Inr c)" using q by simp
  from repeated_push_is_held [OF inv fair_id p fair_id q'] p q show ?thesis by (auto simp: demo_pack_in_def)
qed

lemma never_pending_again:
  "rtranclp pack_step a b \<Longrightarrow> a \<noteq> Pending \<Longrightarrow> a \<noteq> Absent \<Longrightarrow> b \<noteq> Pending"
  by (induction rule: rtranclp_induct) (auto elim: pack_step.cases dest: not_absent_stays)

text \<open>C6: the answer to a cancel request is true of the store when it is given, whatever other processes
  write during the request: \<open>cancelled\<close> means the pack is cancelled, \<open>already s\<close> that its status
  is \<open>s\<close> and not pending, 404 that there is no such pack; and with consistent reads the
  answer \<open>cancel not confirmed\<close> is never given.\<close>

theorem cancel_answer_is_true:
  assumes inv: "pack_inv t" and f: "fair other" and run: "packs_cancel other now pid t = (t', r)"
  shows "case r of
      Inr Cancelled \<Rightarrow> pstate_of t' pid = Resolved ''cancelled''
    | Inr (Not_cancelled m) \<Rightarrow>
        (\<exists>p. get_pack t' pid = Some (Some p) \<and> m = ''already '' @ pk_status p \<and> pk_status p \<noteq> ''pending'')
    | Inl e \<Rightarrow> e = HTTPException 404 ''no such pack'' \<and> pstate_of t' pid = Absent"
proof -
  have read: "pack_inv u \<Longrightarrow> (case cancel_refused (get_pack u pid) of
        Inl e \<Rightarrow> e = HTTPException 404 ''no such pack'' \<and> pstate_of u pid = Absent
      | Inr None \<Rightarrow> pstate_of u pid = Pending
      | Inr (Some a) \<Rightarrow> (\<exists>p. get_pack u pid = Some (Some p) \<and> a = Not_cancelled (''already '' @ pk_status p) \<and> pk_status p \<noteq> ''pending''))" for u
  proof -
    assume u: "pack_inv u"
    show ?thesis
    proof (cases "pstate_of u pid = Absent")
      case True
      then have "get_pack u pid = Some None" using pstate_absent [OF u] by (simp add: get_pack_def)
      then show ?thesis using True by (simp add: cancel_refused_def)
    next
      case False
      then obtain p where "get_pack u pid = Some (Some p)" "pstate_of u pid = classify (pk_status p)"
        using get_pack_state [OF u] by blast
      then show ?thesis by (simp add: cancel_refused_def)
    qed
  qed
  obtain t1 ok1 where c1: "cancel_pack now pid t = (t1, ok1)" by fastforce
  note s1 = cancel_step [OF inv c1]
  have i2: "pack_inv (other t1)" using f s1(1) by (simp add: fair_def)
  have i3: "pack_inv (other (other t1))" using f i2 by (simp add: fair_def)
  obtain t3 ok3 where c3: "cancel_pack now pid (other (other t1)) = (t3, ok3)" by fastforce
  note s3 = cancel_step [OF i3 c3]
  have i4: "pack_inv (other t3)" using f s3(1) by (simp add: fair_def)
  show ?thesis
  proof (cases ok1)
    case True
    then show ?thesis using run c1 s1(2) by (auto simp: packs_cancel_def)
  next
    case False
    show ?thesis
    proof (cases "cancel_refused (get_pack (other t1) pid) = Inr None")
      case nb: False
      then show ?thesis using run c1 False read [OF i2]
        by (auto simp: packs_cancel_def Let_def split: sum.splits option.splits)
    next
      case True
      then have pend: "pstate_of (other t1) pid = Pending" using read [OF i2] by simp
      have "rtranclp pack_step (pstate_of (other t1) pid) (pstate_of (other (other t1)) pid)" using f i2 by (simp add: fair_def)
      then have na: "pstate_of (other (other t1)) pid \<noteq> Absent" using not_absent_stays pend by fastforce
      show ?thesis
      proof (cases ok3)
        case ok: True
        then show ?thesis using run c1 \<open>\<not> ok1\<close> True c3 s3(2) by (auto simp: packs_cancel_def Let_def)
      next
        case no: False
        then have "pstate_of t3 pid \<noteq> Pending" "pstate_of t3 pid \<noteq> Absent" using s3(2,3) na by auto
        moreover have "rtranclp pack_step (pstate_of t3 pid) (pstate_of (other t3) pid)" using f s3(1) by (simp add: fair_def)
        ultimately have "pstate_of (other t3) pid \<noteq> Pending" using never_pending_again by blast
        then have "cancel_refused (get_pack (other t3) pid) \<noteq> Inr None" using read [OF i4] by auto
        then show ?thesis using run c1 \<open>\<not> ok1\<close> True c3 no read [OF i4]
          by (auto simp: packs_cancel_def Let_def split: sum.splits option.splits)
      qed
    qed
  qed
qed

theorem cancel_answer_is_true_witness:
  "\<exists>t'. packs_cancel (\<lambda>t. t) 5 ''nope'' [] = (t', Inl (HTTPException 404 ''no such pack'')) \<and> pstate_of t' ''nope'' = Absent"
proof -
  have "packs_cancel (\<lambda>t. t) 5 ''nope'' [] = ([], Inl (HTTPException 404 ''no such pack''))"
    by (simp add: packs_cancel_def cancel_pack_def update_item_if_def attr_eq_def attr_of_def get_item_def cancel_refused_def
        get_pack_def get_pack_item_def)
  from cancel_answer_is_true [OF pack_inv_empty(1) fair_id this] this show ?thesis by simp
qed

end
