(* ===== verification/Outcome_Properties.thy ===== *)
theory Outcome_Properties
  imports Cloud_Packs_Api
begin

text \<open>
  What a terminal that polls GET /packs/status receives: everything past its cursor when the
  status partitions are read to the end, outcomes that are written late included, and the
  case where the work cap of \<open>list_resolved_packs\<close> hides an outcome for good.
\<close>

section \<open>Polling\<close>

primrec status_rounds ::
  "(item list \<Rightarrow> item list list) \<Rightarrow> int \<Rightarrow> table \<Rightarrow> nat \<Rightarrow> nat \<Rightarrow> string \<Rightarrow> pack list" where
  "status_rounds paging now g n 0 c = []"
| "status_rounds paging now g n (Suc k) c =
     (case packs_status paging now g c n of
        Inl e \<Rightarrow> []
      | Inr a \<Rightarrow> sa_packs a @ status_rounds paging now g n k (sa_max_id a))"

definition cursor_text :: "string \<times> string \<Rightarrow> string" where
  "cursor_text c = fst c @ ''#'' @ snd c"

abbreviation outcome_feed ::
  "(item list \<Rightarrow> item list list) \<Rightarrow> int \<Rightarrow> table \<Rightarrow> nat \<Rightarrow> string \<times> string \<Rightarrow> pack list" where
  "outcome_feed paging now g n \<equiv> \<lambda>(t, pid). the (list_resolved_packs paging (t @ ''#'' @ pid) n settle_s now g)"

definition cursor_ok :: "string \<times> string \<Rightarrow> bool" where
  "cursor_ok c \<longleftrightarrow> fst c \<noteq> [] \<and> CHR ''#'' \<notin> set (fst c)"

lemma packs_status_eq:
  assumes "index_inv g" "reads_all paging g" "cursor_ok c"
  shows "\<exists>a. packs_status paging now g (cursor_text c) n = Inr a \<and> sa_packs a = outcome_feed paging now g n c \<and>
     sa_max_id a = cursor_text (next_cursor outcome_key c (outcome_feed paging now g n c))"
  using list_resolved_eq [OF assms(1,2), of "fst c" "snd c" n settle_s now] assms(3)
  by (auto simp: packs_status_def cursor_text_def next_cursor_def outcome_cursor_def cursor_ok_def case_prod_unfold)

lemma status_rounds_eq:
  assumes "index_inv g" "reads_all paging g"
  shows "cursor_ok c \<Longrightarrow> status_rounds paging now g n k (cursor_text c) = fst (pulls (outcome_feed paging now g n) outcome_key k c)"
proof (induction k arbitrary: c)
  case 0
  then show ?case by simp
next
  case (Suc k)
  have "cursor_ok (next_cursor outcome_key c (outcome_feed paging now g n c))"
    using oc.next_cursor_ok [of "(paging, now, g)" c n] assms Suc.prems by (simp add: cursor_ok_def case_prod_unfold)
  note IH = Suc.IH [OF this]
  obtain a where "packs_status paging now g (cursor_text c) n = Inr a" "sa_packs a = outcome_feed paging now g n c"
    "sa_max_id a = cursor_text (next_cursor outcome_key c (outcome_feed paging now g n c))"
    using packs_status_eq [OF assms Suc.prems, of now n] by blast
  with IH show ?case by (simp only: status_rounds.simps pulls.simps sum.case Let_def fst_conv)
qed


section \<open>Late outcomes\<close>

text \<open>The settle window works: an outcome stamped less than ten seconds before a poll, or any time
  after it, has a key past the cursor the poll returns, so a later poll from that cursor
  still selects it.\<close>

theorem late_outcome_is_past_the_cursor:
  assumes "packs_status paging now g since n = Inr a" "sa_packs a \<noteq> []"
    and "settle_s \<le> now" "now - settle_s < t" "t < max_time" "pk_resolved_at r = Some (iso t)"
  shows "outcome_key (last (sa_packs a)) < outcome_key r \<and> sa_max_id a = cursor_text (outcome_key (last (sa_packs a)))"
proof -
  obtain st sp sep rows where rows: "sa_packs a = take n (sort_key outcome_key
      (filter (\<lambda>r. after_cursor (outcome_key r) st (if sep then Some sp else None) (Some (iso_ago now settle_s))) rows))"
    using assms(1) by (auto simp: packs_status_def list_resolved_packs_def Let_def settle_s_def split: option.splits prod.splits)
  have "last (sa_packs a) \<in> set (sa_packs a)" using assms(2) by simp
  then have "after_cursor (outcome_key (last (sa_packs a))) st (if sep then Some sp else None) (Some (iso_ago now settle_s))"
    unfolding rows by (auto dest: in_set_takeD)
  then have "fst (outcome_key (last (sa_packs a))) \<le> iso (now - settle_s)"
    by (auto simp: after_cursor_def iso_ago_def split: if_splits)
  moreover have "iso (now - settle_s) < iso t" using assms by (simp add: iso_less_iff)
  moreover have "fst (outcome_key r) = iso t" using assms(6) iso_nonempty by (simp add: outcome_key_def opt_or_def py_or_def)
  ultimately have "outcome_key (last (sa_packs a)) < outcome_key r"
    by (metis less_prod_def' order_le_less_trans)
  then show ?thesis using assms(1,2)
    by (auto simp: packs_status_def cursor_text_def outcome_cursor_def split: option.splits)
qed

section \<open>The work cap\<close>

lemma take_sort_subset: "r \<in> set (take n (sort_key f xs)) \<Longrightarrow> r \<in> set xs"
  by (metis in_set_takeD set_sort)

lemma those_in: "those (map f xs) = Some ys \<Longrightarrow> y \<in> set ys \<Longrightarrow> \<exists>x\<in>set xs. f x = Some y"
  by (induction xs arbitrary: ys) (auto split: option.splits)

text \<open>Every row of an answer is an item that was read from one of the resolved partitions.\<close>

lemma answer_row:
  assumes "packs_status paging now g since limit = Inr a" "r \<in> set (sa_packs a)"
  shows "\<exists>t it s. s \<in> set resolved_statuses \<and> coerce_pack it = Some r \<and>
     it \<in> set (read_pages (since_filter t) (max (limit * 4) 2000) (paging (query_status s (\<lambda>_. True) g)) 0)"
proof -
  obtain t sep sp where part: "partition_at CHR ''#'' since = (t, sep, sp)" by (cases "partition_at CHR ''#'' since") auto
  let ?its = "concat (map (\<lambda>s. read_pages (since_filter t) (max (limit * 4) 2000) (paging (query_status s (\<lambda>_. True) g)) 0) resolved_statuses)"
  obtain rows where rows: "those (map coerce_pack ?its) = Some rows" and sub: "r \<in> set rows"
    using assms part by (auto simp: packs_status_def list_resolved_packs_def Let_def split: option.splits dest!: take_sort_subset)
  from those_in [OF rows sub] show ?thesis by auto
qed

lemma read_pages_subset: "set (read_pages f cap ps n) \<subseteq> set (concat ps)"
  by (induction ps arbitrary: n) auto

text \<open>The work cap can hide an outcome for good: when the first page of the \<open>sent\<close> partition already
  holds the capped number of items, a sent pack that is not on that page is not in the
  answer, whatever the cursor is, although the comment says each partition is read in full.\<close>

theorem work_cap_hides_outcome:
  assumes page: "paging (query_status ''sent'' (\<lambda>_. True) g) = p # ps" "max (limit * 4) 2000 \<le> length p"
    and absent: "\<forall>it\<in>set p. str_attr ''pack_id'' it \<noteq> Some pid"
    and cut: "\<forall>xs. concat (paging xs) = xs"
    and answer: "packs_status paging now g since limit = Inr a"
  shows "\<forall>r\<in>set (sa_packs a). \<not> (pk_id r = pid \<and> pk_status r = ''sent'')"
proof
  fix r assume "r \<in> set (sa_packs a)"
  from answer_row [OF answer this] obtain t it s where it: "coerce_pack it = Some r"
    "it \<in> set (read_pages (since_filter t) (max (limit * 4) 2000) (paging (query_status s (\<lambda>_. True) g)) 0)" by blast
  note c = coerce_pack_Some [OF it(1)]
  have "it \<in> set (query_status s (\<lambda>_. True) g)" using it(2) read_pages_subset cut by fastforce
  then have s: "str_attr ''status'' it = Some s" using set_query_status by blast
  show "\<not> (pk_id r = pid \<and> pk_status r = ''sent'')"
  proof
    assume r: "pk_id r = pid \<and> pk_status r = ''sent''"
    with c s have "s = ''sent''" by simp
    with it(2) page have "it \<in> set p" by (auto split: if_splits)
    with absent c r show False by simp
  qed
qed

section \<open>Witnesses\<close>

definition sent_item :: "nat \<Rightarrow> item" where
  "sent_item i =
     [(''pack_id'', AStr (dec i)), (''campaign_id'', AInt 1), (''recipient_hash'', AStr ''r''), (''content_hash'', AStr ''c''),
      (''send_at'', AStr ''s''), (''key_id'', AStr ''k''), (''status'', AStr ''sent''), (''enqueued_at'', AStr ''2025''),
      (''resolved_at'', AStr ''2026'')]"

definition sent_index :: "nat \<Rightarrow> table" where
  "sent_index n = map (\<lambda>i. ((pack_key (dec i), pack_key (dec i)), sent_item i)) [0..<n]"

lemma sent_index_query:
  "query_status st (\<lambda>_. True) (sent_index n) = (if st = ''sent'' then map sent_item [0..<n] else [])"
proof -
  have "List.map_filter (\<lambda>(k, it). if str_attr ''status'' it = Some st
        then (case str_attr ''send_at'' it of Some r \<Rightarrow> if True then Some (r, it) else None | None \<Rightarrow> None) else None) (sent_index n)
      = (if st = ''sent'' then map (\<lambda>i. (''s'', sent_item i)) [0..<n] else [])"
    by (auto simp: sent_index_def map_filter_def sent_item_def str_attr_def filter_empty_conv o_def)
  moreover have "sort_key fst (map (\<lambda>i. (''s'', sent_item i)) xs) = map (\<lambda>i. (''s'', sent_item i)) xs" for xs
    by (rule sort_key_id_if_sorted) (simp add: o_def sorted_wrt_map sorted_wrt_true)
  ultimately show ?thesis by (simp add: query_status_def o_def)
qed

lemma sent_item_coerce: "coerce_pack (sent_item i) \<noteq> None" "pack_ok (dec i) (sent_item i)"
  "outcome_time (sent_item i) = ''2026''"
proof -
  show c: "coerce_pack (sent_item i) \<noteq> None"
    unfolding coerce_pack_iff by (simp add: sent_item_def str_attr_def int_attr_def)
  show "pack_ok (dec i) (sent_item i)" "outcome_time (sent_item i) = ''2026''"
    using c by (simp_all add: pack_ok_def sent_item_def str_attr_def resolved_statuses_def outcome_time_def opt_or_def py_or_def)
qed

lemma sent_index_inv: "index_inv (sent_index n)"
proof -
  have "inj dec" using dec_inj by (auto intro: injI)
  then have "wf_table (sent_index n)"
    by (auto simp: wf_table_def sent_index_def distinct_map o_def inj_on_def)
  then show ?thesis using sent_item_coerce by (auto simp: index_inv_def sent_index_def)
qed

definition two_pages :: "item list \<Rightarrow> item list list" where
  "two_pages xs = [take 2000 xs, drop 2000 xs]"

theorem work_cap_hides_outcome_witness:
  "\<exists>a. packs_status two_pages 5 (sent_index 2001) [] 500 = Inr a \<and> (\<forall>r\<in>set (sa_packs a). \<not> (pk_id r = dec 2000 \<and> pk_status r = ''sent''))"
proof -
  have q: "two_pages (query_status ''sent'' (\<lambda>_. True) (sent_index 2001)) = map sent_item [0..<2000] # [[sent_item 2000]]"
  proof -
    have "[0..<2001] = [0..<2000] @ [2000::nat]" using upt_Suc_append [of 0 2000] by (simp del: upt_rec_numeral)
    then show ?thesis by (simp add: sent_index_query two_pages_def del: upt_rec_numeral)
  qed
  have absent: "\<forall>it\<in>set (map sent_item [0..<2000]). str_attr ''pack_id'' it \<noteq> Some (dec 2000)"
    by (auto simp: sent_item_def str_attr_def dest: dec_inj)
  have "\<forall>it\<in>set (concat (map (\<lambda>s. read_pages (since_filter t) cap (two_pages (query_status s (\<lambda>_. True) (sent_index 2001))) 0) resolved_statuses)).
      coerce_pack it \<noteq> None" for t cap
  proof
    fix it assume "it \<in> set (concat (map (\<lambda>s. read_pages (since_filter t) cap (two_pages (query_status s (\<lambda>_. True) (sent_index 2001))) 0) resolved_statuses))"
    then obtain s where "it \<in> set (read_pages (since_filter t) cap (two_pages (query_status s (\<lambda>_. True) (sent_index 2001))) 0)" by auto
    then have "it \<in> set (concat (two_pages (query_status s (\<lambda>_. True) (sent_index 2001))))" using read_pages_subset by fast
    then have "it \<in> set (query_status s (\<lambda>_. True) (sent_index 2001))" by (auto simp: two_pages_def dest: in_set_takeD in_set_dropD)
    then show "coerce_pack it \<noteq> None" using sent_item_coerce(1) by (auto simp: sent_index_query split: if_splits)
  qed
  then obtain a where a: "packs_status two_pages 5 (sent_index 2001) [] 500 = Inr a"
    by (simp add: packs_status_def list_resolved_packs_def Let_def those_map_Some split: prod.splits)
  have "max (500 * 4) 2000 \<le> length (map sent_item [0..<2000])" by simp
  from work_cap_hides_outcome [OF q this absent _ a] a show ?thesis by (auto simp: two_pages_def)
qed


lemma one_sent_poll:
  "\<exists>a. packs_status (\<lambda>xs. [xs]) 4102444800 (sent_index 1) [] 5 = Inr a \<and> sa_packs a \<noteq> []"
proof -
  obtain p where p: "coerce_pack (sent_item 0) = Some p" using sent_item_coerce(1) by blast
  have key: "fst (outcome_key p) = ''2026''"
    using coerce_pack_Some [OF p] by (simp add: outcome_key_def sent_item_def str_attr_def opt_or_def py_or_def)
  have "iso_ago 4102444800 settle_s = ''2099-12-31T23:59:50Z''" unfolding iso_ago_def settle_s_def by code_simp
  moreover have "\<not> ''2099-12-31T23:59:50Z'' < ''2026''" by (simp add: less_char_def)
  ultimately have "after_cursor (outcome_key p) [] None (Some (iso_ago 4102444800 settle_s))"
    by (simp add: after_cursor_def key)
  then show ?thesis
    using p by (simp add: packs_status_def list_resolved_packs_def Let_def sent_index_query resolved_statuses_def since_filter_def settle_s_def)
qed

definition late_pack :: pack where
  "late_pack = \<lparr>pk_id = ''late'', pk_campaign = 1, pk_recipient_hash = [], pk_content_hash = [], pk_send_at = [], pk_key_id = [],
     pk_payload = None, pk_status = ''sent'', pk_enqueued_at = [], pk_pushed_by = [], pk_claimed_at = None, pk_sent_at = None,
     pk_message_id = None, pk_failure = None, pk_resolved_at = Some (iso 4102444795)\<rparr>"

theorem late_outcome_is_past_the_cursor_witness:
  "\<exists>a. packs_status (\<lambda>xs. [xs]) 4102444800 (sent_index 1) [] 5 = Inr a \<and> outcome_key (last (sa_packs a)) < outcome_key late_pack"
proof -
  obtain a where a: "packs_status (\<lambda>xs. [xs]) 4102444800 (sent_index 1) [] 5 = Inr a" "sa_packs a \<noteq> []"
    using one_sent_poll by blast
  have "pk_resolved_at late_pack = Some (iso 4102444795)" by (simp add: late_pack_def)
  from late_outcome_is_past_the_cursor [OF a _ _ _ this] a(1) show ?thesis by (simp add: settle_s_def max_time_def)
qed

end
