(* ===== verification/Cloud_Handshake.thy ===== *)
theory Cloud_Handshake
  imports Cloud_Sync_Api
begin

text \<open>
  The one-time registration of a party (cloud/handshake.py). The configured bootstrap token
  and the freshly drawn bearer are arguments; the rate limiter is the framework's.
\<close>

section \<open>Endpoints\<close>

definition verify_bootstrap :: "string \<Rightarrow> string \<Rightarrow> bool" where
  "verify_bootstrap expected supplied \<longleftrightarrow> (if expected = [] \<or> supplied = [] then False else expected = supplied)"

record handshake_in =
  hi_role :: string
  hi_kem_pub :: string

record handshake_out =
  ho_registered :: string
  ho_bearer :: string
  ho_fingerprint :: string

definition party :: "string \<Rightarrow> bool" where
  "party role \<longleftrightarrow> role = ''operator'' \<or> role = ''client''"

definition init_handshake ::
  "crypto \<Rightarrow> int \<Rightarrow> string \<Rightarrow> string \<Rightarrow> handshake_in \<Rightarrow> string option \<Rightarrow> table \<Rightarrow> handshake_out response" where
  "init_handshake cr now boot bearer body x_token t =
     (if \<not> verify_bootstrap boot (opt_or x_token []) then (t, Inl (HTTPException 401 ''bad or missing X-Bootstrap-Token''))
      else if \<not> party (hi_role body) then (t, Inl (HTTPException 400 ''role must be operator or client''))
      else
        (case b64decode (hi_kem_pub body) of
           None \<Rightarrow> (t, Inl (HTTPException 400 ''bad base64 kem_pub''))
         | Some kem_pub \<Rightarrow>
             if length kem_pub \<noteq> 32 then (t, Inl (HTTPException 400 ''kem_pub must decode to 32 bytes''))
             else
               (case get_pubkey t (hi_role body) of
                  None \<Rightarrow> (t, Inl (KeyError ''kem_pub''))
                | Some (Some _) \<Rightarrow> (t, Inl (HTTPException 409 ''already registered''))
                | Some None \<Rightarrow>
                    (put_session now (sha256_hex cr bearer) (hi_role body) (put_pubkey now (hi_role body) kem_pub t),
                     Inr \<lparr>ho_registered = hi_role body, ho_bearer = bearer, ho_fingerprint = take 16 (sha256_hex cr kem_pub)\<rparr>))))"

definition handshake_status :: "string \<Rightarrow> table \<Rightarrow> exc + ((string \<times> string) list \<times> bool)" where
  "handshake_status boot t =
     (case list_pubkeys t of None \<Rightarrow> Inl (KeyError ''actor'') | Some rows \<Rightarrow> Inr (rows, boot \<noteq> []))"

definition handshake_revoke :: "int \<Rightarrow> string \<Rightarrow> string \<Rightarrow> string option \<Rightarrow> table \<Rightarrow> string response" where
  "handshake_revoke now boot role x_token t =
     (if \<not> verify_bootstrap boot (opt_or x_token []) then (t, Inl (HTTPException 401 ''bad or missing X-Bootstrap-Token''))
      else if \<not> party role then (t, Inl (HTTPException 400 ''bad role''))
      else (fst (revoke_sessions_for_actor now role (delete_pubkey role t)), Inr role))"

definition get_pubkeys :: "table \<Rightarrow> exc + (string \<times> string) list" where
  "get_pubkeys t =
     (case get_all_pubkeys t of
        None \<Rightarrow> Inl (KeyError ''kem_pub'')
      | Some ks \<Rightarrow> Inr (map (\<lambda>(actor, k). (actor, b64encode k)) ks))"

section \<open>Lemmas\<close>

lemma session_neq_pubkey [simp]: "session_key h \<noteq> pubkey_key a" "pubkey_key a \<noteq> session_key h"
  by (simp_all add: session_key_def pubkey_key_def)

lemma pubkey_key_inject [simp]: "pubkey_key a = pubkey_key b \<longleftrightarrow> a = b"
  by (simp add: pubkey_key_def)

lemma wf_put_session [simp]: "wf_table t \<Longrightarrow> wf_table (put_session n h a t)"
  by (simp add: put_session_def)

lemma session_inv_put_session: "session_inv t \<Longrightarrow> session_inv (put_session n h a t)"
  unfolding session_inv_def
  by (auto simp: put_session_def get_put coerce_session_def str_attr_def split: if_splits)

lemma session_inv_pubkey:
  "session_inv t \<Longrightarrow> session_inv (put_pubkey n a k t)" "session_inv t \<Longrightarrow> session_inv (delete_pubkey a t)"
  unfolding session_inv_def by (simp_all add: put_pubkey_def delete_pubkey_def get_put get_delete)

lemma init_handshake_ok:
  assumes "init_handshake cr now boot bearer body tok t = (t', Inr out)"
  shows "party (hi_role body)" "ho_registered out = hi_role body" "ho_bearer out = bearer"
    and "\<exists>k. t' = put_session now (sha256_hex cr bearer) (hi_role body) (put_pubkey now (hi_role body) k t)"
    and "get_pubkey t (hi_role body) = Some None" "verify_bootstrap boot (opt_or tok [])"
  using assms by (auto simp: init_handshake_def split: if_splits option.splits)

lemma bearer_of_header: "\<forall>c\<in>set b. \<not> is_space c \<Longrightarrow> bearer_of (Some (''Bearer '' @ b)) = Inr b"
  by (simp add: bearer_of_def strip_no_space)

lemma get_new_session:
  "get_session_by_bearer (put_session n h a t) h =
     Some (Some \<lparr>se_bearer_hash = h, se_actor = a, se_created_at = iso n, se_last_seen_at = None, se_revoked_at = None\<rparr>)"
  by (simp add: get_session_by_bearer_def put_session_def get_put coerce_session_def str_attr_def)

section \<open>Properties\<close>

text \<open>A successful handshake registers the role and hands out a bearer that the next request is accepted
  with, as that role; the role cannot be registered again, with any token, key or bearer, as
  long as its key is there.\<close>

theorem handshake_registers_once:
  assumes "init_handshake cr now boot bearer body tok t = (t', Inr out)" "\<forall>c\<in>set bearer. \<not> is_space c"
  shows "snd (require_bearer cr later (Some (''Bearer '' @ ho_bearer out)) t') = Inr (hi_role body) \<and>
     (hi_role body2 = hi_role body \<longrightarrow>
        (\<exists>e. init_handshake cr now2 boot bearer2 body2 tok2 t' = (t', Inl e)))"
proof -
  note ok = init_handshake_ok [OF assms(1)]
  obtain k where t': "t' = put_session now (sha256_hex cr bearer) (hi_role body) (put_pubkey now (hi_role body) k t)"
    using ok(4) by blast
  have "snd (require_bearer cr later (Some (''Bearer '' @ ho_bearer out)) t') = Inr (hi_role body)"
    unfolding require_bearer_def ok(3) bearer_of_header [OF assms(2)] t'
    by (simp add: get_new_session truthy_def)
  moreover have "get_pubkey t' (hi_role body) = Some (Some k)"
    by (simp add: t' get_pubkey_def put_session_def put_pubkey_def get_put bytes_attr_def)
  then have "hi_role body2 = hi_role body \<Longrightarrow> \<exists>e. init_handshake cr now2 boot bearer2 body2 tok2 t' = (t', Inl e)"
    by (auto simp: init_handshake_def split: option.splits)
  ultimately show ?thesis by blast
qed

definition demo_hello :: handshake_in where
  "demo_hello = \<lparr>hi_role = ''client'', hi_kem_pub = b64encode (replicate 32 CHR ''p'')\<rparr>"

lemma demo_handshake:
  "\<exists>t' out. init_handshake (plain_crypto JNull) 5 ''boot'' ''tok'' demo_hello (Some ''boot'') [] = (t', Inr out)"
  unfolding init_handshake_def demo_hello_def
  by (simp add: b64decode_encode verify_bootstrap_def opt_or_def py_or_def party_def get_pubkey_def get_item_def)

theorem handshake_registers_once_witness:
  "\<exists>t' out. init_handshake (plain_crypto JNull) 5 ''boot'' ''tok'' demo_hello (Some ''boot'') [] = (t', Inr out) \<and>
     snd (require_bearer (plain_crypto JNull) 6 (Some (''Bearer '' @ ho_bearer out)) t') = Inr ''client''"
proof -
  obtain t' out where i: "init_handshake (plain_crypto JNull) 5 ''boot'' ''tok'' demo_hello (Some ''boot'') [] = (t', Inr out)"
    using demo_handshake by blast
  have "\<forall>c\<in>set ''tok''. \<not> is_space c" by (simp add: is_space_def)
  from handshake_registers_once [OF i this] i show ?thesis by (auto simp: demo_hello_def)
qed

text \<open>Revoking a role removes its key and every bearer it ever had: afterwards no request is accepted as
  that role until a new handshake, and the other role's bearers keep working.\<close>

theorem handshake_revoke_removes:
  assumes inv: "session_inv t" and run: "handshake_revoke now boot role tok t = (t', Inr r)"
  shows "get_pubkey t' role = Some None \<and>
     (\<forall>auth. snd (require_bearer cr later auth t') \<noteq> Inr role) \<and>
     (\<forall>auth a. a \<noteq> role \<longrightarrow> snd (require_bearer cr later auth t') = Inr a \<longleftrightarrow> snd (require_bearer cr later auth t) = Inr a)"
proof -
  let ?d = "delete_pubkey role t"
  have t': "t' = fst (revoke_sessions_for_actor now role ?d)" using run by (auto simp: handshake_revoke_def split: if_splits)
  have invd: "session_inv ?d" using inv by (rule session_inv_pubkey(2))
  have wfd: "wf_table ?d" using invd by (simp add: session_inv_def)
  have g: "get_item t' p s = (if (p, s) \<in> set (active_sessions role ?d)
      then Some (AList.update ''revoked_at'' (AStr (iso now)) (item_or_new (get_item ?d p s))) else get_item ?d p s)" for p s
    by (simp add: t' revoke_sessions_for_actor_def fold_revoke_get)
  have "\<not> starts_with (pubkey_key role) ''SESSION#''"
    by (auto simp: starts_with_iff pubkey_key_def)
  then have "get_item t' (pubkey_key role) (pubkey_key role) = None"
    using active_sessions_iff [OF wfd] by (simp add: g delete_pubkey_def get_delete)
  then have 1: "get_pubkey t' role = Some None" by (simp add: get_pubkey_def)
  have 2: "snd (require_bearer cr later auth t') \<noteq> Inr role" for auth
  proof
    assume "snd (require_bearer cr later auth t') = Inr role"
    then obtain h se where "get_session_by_bearer t' h = Some (Some se)" "\<not> truthy (se_revoked_at se)" "role = se_actor se"
      by (auto simp: require_bearer_def split: sum.splits option.splits if_splits)
    with revoked_after [OF invd] show False unfolding t' by blast
  qed
  have same: "get_item ?d (session_key h) (session_key h) = get_item t (session_key h) (session_key h)" for h
    by (simp add: delete_pubkey_def get_delete)
  have 3: "snd (require_bearer cr later auth t') = Inr a \<longleftrightarrow> snd (require_bearer cr later auth t) = Inr a" if "a \<noteq> role" for auth a
  proof (cases "bearer_of auth")
    case (Inr b)
    let ?h = "sha256_hex cr b" and ?k = "session_key (sha256_hex cr b)"
    show ?thesis
    proof (cases "(?k, ?k) \<in> set (active_sessions role ?d)")
      case False
      then have "get_session_by_bearer t' ?h = get_session_by_bearer t ?h"
        by (simp add: get_session_by_bearer_def g same)
      then show ?thesis by (simp add: require_bearer_def Inr split: option.splits)
    next
      case True
      then obtain it where it: "get_item t ?k ?k = Some it" "map_of it ''actor'' = Some (AStr role)"
        using active_sessions_iff [OF wfd] same by auto
      then have "get_session_by_bearer t ?h = Some (Some se) \<Longrightarrow> se_actor se = role" for se
        by (auto simp: get_session_by_bearer_def coerce_session_def str_attr_def split: Option.bind_splits)
      moreover have "get_session_by_bearer t' ?h = Some (Some se) \<Longrightarrow> se_actor se = role" for se
        using it True same by (auto simp: get_session_by_bearer_def coerce_session_def str_attr_def g item_or_new_def split: Option.bind_splits)
      ultimately show ?thesis using that by (auto simp: require_bearer_def Inr split: option.splits if_splits)
    qed
  qed (simp add: require_bearer_def)
  from 1 2 3 show ?thesis by blast
qed

theorem handshake_revoke_removes_witness:
  "\<exists>t'. handshake_revoke 7 ''boot'' ''operator'' (Some ''boot'') demo_sessions = (t', Inr ''operator'') \<and>
     (\<forall>auth. snd (require_bearer (plain_crypto JNull) 9 auth t') \<noteq> Inr ''operator'')"
proof -
  obtain t' where r: "handshake_revoke 7 ''boot'' ''operator'' (Some ''boot'') demo_sessions = (t', Inr ''operator'')"
    by (simp add: handshake_revoke_def verify_bootstrap_def opt_or_def py_or_def party_def)
  from handshake_revoke_removes [OF demo_sessions_inv r] r show ?thesis by blast
qed

end
