(* ===== verification/Settings_Core.thy ===== *)
theory Settings_Core
  imports Envelopes Dynamo_Table
begin

text \<open>
  What the two settings modules share (cloud/settings.py, terminal/settings.py): the module
  state (the cache of plain values, whether it is loaded, the key-encryption key in memory and
  in its file), the loading of that key, the encryption of a value at rest, and the contract
  \<open>settings_store\<close> both stores (a DynamoDB partition, an SQLite table) satisfy.

  \<open>os.urandom\<close> and \<open>os.environ\<close> are fields of an environment record. The key file of a
  process that cannot write its directory is not modelled.
\<close>

section \<open>Module state and environment\<close>

record settings_mem =
  sm_plain_cache :: "(string \<times> string) list"
  sm_cache_loaded :: bool
  sm_kek :: "bytes option"
  sm_kek_file :: "bytes option"

record settings_env =
  ev_crypto :: crypto
  ev_environ :: "(string \<times> string) list"
  ev_new_kek :: bytes
  ev_nonce :: bytes

definition environ_get :: "settings_env \<Rightarrow> string \<Rightarrow> string option \<Rightarrow> string option" where
  "environ_get ev name d = (case map_of (ev_environ ev) name of Some v \<Rightarrow> Some v | None \<Rightarrow> d)"

text \<open>A new process on the same machine: the module variables are fresh, the key file is there.\<close>

definition restart :: "settings_mem \<Rightarrow> settings_mem" where
  "restart m = m\<lparr>sm_plain_cache := [], sm_cache_loaded := False, sm_kek := None\<rparr>"

section \<open>The key\<close>

definition load_kek :: "settings_env \<Rightarrow> settings_mem \<Rightarrow> settings_mem \<times> (exc + bytes)" where
  "load_kek ev m =
     (case sm_kek m of
        Some k \<Rightarrow> (m, Inr k)
      | None \<Rightarrow>
          (case sm_kek_file m of
             Some k \<Rightarrow>
               (m\<lparr>sm_kek := Some k\<rparr>, if length k \<noteq> 32 then Inl (RuntimeError ''KEK length'') else Inr k)
           | None \<Rightarrow> (m\<lparr>sm_kek := Some (ev_new_kek ev), sm_kek_file := Some (ev_new_kek ev)\<rparr>, Inr (ev_new_kek ev))))"

text \<open>AESGCM accepts keys of 16, 24 and 32 bytes and raises \<open>ValueError\<close> on others.\<close>

definition aes_key_ok :: "bytes \<Rightarrow> bool" where
  "aes_key_ok k \<longleftrightarrow> length k = 16 \<or> length k = 24 \<or> length k = 32"

definition settings_encrypt :: "settings_env \<Rightarrow> string \<Rightarrow> settings_mem \<Rightarrow> settings_mem \<times> (exc + string)" where
  "settings_encrypt ev plaintext m =
     (case load_kek ev m of
        (m1, Inl e) \<Rightarrow> (m1, Inl e)
      | (m1, Inr kek) \<Rightarrow>
          (m1, if \<not> aes_key_ok kek then Inl (ValueError ''AESGCM key length'')
               else Inr (b64encode (ev_nonce ev @ aes_enc (ev_crypto ev) kek (ev_nonce ev) plaintext))))"

definition settings_decrypt :: "settings_env \<Rightarrow> string \<Rightarrow> settings_mem \<Rightarrow> settings_mem \<times> (exc + string)" where
  "settings_decrypt ev blob_b64 m =
     (case load_kek ev m of
        (m1, Inl e) \<Rightarrow> (m1, Inl e)
      | (m1, Inr kek) \<Rightarrow>
          (m1, (case b64decode blob_b64 of
                  None \<Rightarrow> Inl (ValueError ''bad base64'')
                | Some blob \<Rightarrow>
                    if \<not> aes_key_ok kek then Inl (ValueError ''AESGCM key length'')
                    else (case aes_dec (ev_crypto ev) kek (take 12 blob) (drop 12 blob) of
                            None \<Rightarrow> Inl (ValueError ''InvalidTag'')
                          | Some p \<Rightarrow> Inr p))))"

section \<open>Readings of a value\<close>

text \<open>The body of \<open>get_int\<close> after the read.\<close>

definition int_or :: "string option \<Rightarrow> int \<Rightarrow> int" where
  "int_or v d = (case v of None \<Rightarrow> d | Some s \<Rightarrow> (case int_of_str s of None \<Rightarrow> d | Some i \<Rightarrow> i))"

text \<open>The fallback to the environment: the first entry of the table that names the key.\<close>

fun env_fallback :: "settings_env \<Rightarrow> (string \<times> string) list \<Rightarrow> string \<Rightarrow> string option \<Rightarrow> string option" where
  "env_fallback ev [] key d = d"
| "env_fallback ev ((k, env_name) # r) key d = (if k = key then environ_get ev env_name d else env_fallback ev r key d)"

section \<open>Lemmas on the key\<close>

lemma load_kek_again:
  "load_kek ev m = (m1, Inr k) \<Longrightarrow> load_kek ev2 m1 = (m1, Inr k)"
  by (auto simp: load_kek_def split: option.splits if_splits)

lemma load_kek_frame:
  assumes "load_kek ev m = (m1, r)"
  shows "sm_plain_cache m1 = sm_plain_cache m" "sm_cache_loaded m1 = sm_cache_loaded m"
  using assms by (auto simp: load_kek_def split: option.splits if_splits)

text \<open>Memory and file agree on a key of 32 bytes, or there is none yet.\<close>

definition kek_ok :: "settings_mem \<Rightarrow> bool" where
  "kek_ok m \<longleftrightarrow> (case sm_kek_file m of None \<Rightarrow> sm_kek m = None
     | Some k \<Rightarrow> length k = 32 \<and> (sm_kek m = None \<or> sm_kek m = Some k))"

lemma kek_ok_load:
  assumes "kek_ok m" "length (ev_new_kek ev) = 32"
  obtains m1 k where "load_kek ev m = (m1, Inr k)" "length k = 32" "kek_ok m1" "sm_kek m1 = Some k" "sm_kek_file m1 = Some k"
  using assms that unfolding load_kek_def kek_ok_def by (fastforce split: option.splits)

lemma kek_ok_restart: "kek_ok m \<Longrightarrow> kek_ok (restart m)"
  by (auto simp: kek_ok_def restart_def split: option.splits)

lemma load_kek_file:
  "sm_kek_file m = Some k \<Longrightarrow> length k = 32 \<Longrightarrow> sm_kek m = None \<or> sm_kek m = Some k \<Longrightarrow>
   \<exists>m1. load_kek ev m = (m1, Inr k)"
  by (auto simp: load_kek_def split: option.splits)

lemma settings_decrypt_encrypt:
  assumes cr: "aead_ok (ev_crypto ev)" and n: "length (ev_nonce ev) = 12" and ok: "kek_ok m" "length (ev_new_kek ev) = 32"
    and e: "settings_encrypt ev p m = (m1, Inr c)"
    and same: "ev_crypto ev2 = ev_crypto ev" "sm_kek_file m2 = sm_kek_file m1" "kek_ok m2"
  shows "snd (settings_decrypt ev2 c m2) = Inr p"
proof -
  obtain k where l: "load_kek ev m = (m1, Inr k)" "length k = 32" "sm_kek_file m1 = Some k"
    using kek_ok_load [OF ok] e by (auto simp: settings_encrypt_def aes_key_ok_def split: prod.splits sum.splits)
  then obtain m3 where l2: "load_kek ev2 m2 = (m3, Inr k)"
    using load_kek_file [of m2 k ev2] same by (auto simp: kek_ok_def)
  from e l have "c = b64encode (ev_nonce ev @ aes_enc (ev_crypto ev) k (ev_nonce ev) p)"
    by (simp add: settings_encrypt_def aes_key_ok_def)
  with l l2 show ?thesis using cr n same
    by (simp add: settings_decrypt_def b64decode_encode aes_key_ok_def aead_ok_def)
qed

lemma settings_encrypt_ok:
  assumes "kek_ok m" "length (ev_new_kek ev) = 32"
  obtains m1 c where "settings_encrypt ev p m = (m1, Inr c)" "kek_ok m1" "sm_kek_file m1 \<noteq> None"
  using kek_ok_load [OF assms] that unfolding settings_encrypt_def aes_key_ok_def by fastforce

section \<open>The contract of a settings store\<close>

text \<open>
  What the settings modules need of the store behind them: a write is read back, other keys
  are untouched, a deleted key is gone.
\<close>

locale settings_store =
  fixes lookup :: "'st \<Rightarrow> string \<Rightarrow> 'row option"
    and store :: "string \<Rightarrow> 'w \<Rightarrow> 'st \<Rightarrow> 'st"
    and remove :: "string \<Rightarrow> 'st \<Rightarrow> 'st"
    and row_of :: "string \<Rightarrow> 'w \<Rightarrow> 'row"
  assumes lookup_store: "lookup (store k w st) k' = (if k' = k then Some (row_of k w) else lookup st k')"
    and lookup_remove: "lookup (remove k st) k' = (if k' = k then None else lookup st k')"
begin

text \<open>After any series of writes a key reads as its last write, or as before if none named it.\<close>

lemma lookup_writes:
  "lookup (fold (\<lambda>(k, w). store k w) ws st) k =
     (case map_of (rev ws) k of Some w \<Rightarrow> Some (row_of k w) | None \<Rightarrow> lookup st k)"
  by (induction ws arbitrary: st) (auto simp: lookup_store map_add_def split: option.splits)

text \<open>Writes of absent keys only (\<open>migrate_from_env\<close>) leave every present row as it is.\<close>

definition store_if_absent :: "string \<Rightarrow> 'w \<Rightarrow> 'st \<Rightarrow> 'st" where
  "store_if_absent k w st = (if lookup st k = None then store k w st else st)"

lemma absent_keeps: "lookup st k = Some r \<Longrightarrow> lookup (store_if_absent k' w st) k = Some r"
  by (auto simp: store_if_absent_def lookup_store)

lemma present_mono: "{k. lookup st k \<noteq> None} \<subseteq> {k. lookup (store_if_absent k' w st) k \<noteq> None}"
  by (auto simp: store_if_absent_def lookup_store)

end

end
