(* ===== verification/Cloud_Settings.thy ===== *)
theory Cloud_Settings
  imports Settings_Core Cloud_Sync_Api
begin

text \<open>
  The cloud settings (cloud/settings.py over the SETTINGS partition of the table) and their
  endpoints (cloud/settings_api.py). A state is the table, shared by all processes, and the
  module variables of one process.
\<close>

definition secret_keys :: "string list" where
  "secret_keys = [''resend_webhook_secret'', ''unsub_secret'', ''erasure_secret'']"

definition env_migrate :: "(string \<times> string) list" where
  "env_migrate =
     [(''resend_webhook_secret'', ''RESEND_WEBHOOK_SECRET''), (''webhook_max_skew_s'', ''WEBHOOK_MAX_SKEW_S''),
      (''unsub_secret'', ''UNSUB_SECRET''), (''erasure_secret'', ''ERASURE_SECRET''),
      (''company_name'', ''COMPANY_NAME''), (''support_email'', ''SUPPORT_EMAIL''), (''public_host'', ''PUBLIC_HOST'')]"

definition is_secret :: "string \<Rightarrow> bool" where
  "is_secret key \<longleftrightarrow> key \<in> set secret_keys"

section \<open>Operations\<close>

definition load_plain_cache :: "table \<Rightarrow> settings_mem \<Rightarrow> settings_mem" where
  "load_plain_cache t m =
     m\<lparr>sm_plain_cache := fold (\<lambda>r c. if sr_is_secret r then c else AList.update (sr_key r) (sr_value r) c) (list_settings t) [],
       sm_cache_loaded := True\<rparr>"

definition cached :: "table \<Rightarrow> settings_mem \<Rightarrow> settings_mem" where
  "cached t m = (if sm_cache_loaded m then m else load_plain_cache t m)"

definition settings_get :: "settings_env \<Rightarrow> table \<Rightarrow> string \<Rightarrow> string option \<Rightarrow> settings_mem \<Rightarrow> settings_mem \<times> string option" where
  "settings_get ev t key d m =
     (let m1 = cached t m; fallback = (m1, env_fallback ev env_migrate key d) in
      if is_secret key then
        (case get_setting t key of
           None \<Rightarrow> fallback
         | Some row \<Rightarrow>
             if sr_is_secret row then
               (case settings_decrypt ev (sr_value row) m1 of
                  (m2, Inr p) \<Rightarrow> (m2, Some p)
                | (m2, Inl e) \<Rightarrow> (m2, d))
             else fallback)
      else
        (case map_of (sm_plain_cache m1) key of
           Some v \<Rightarrow> (m1, Some v)
         | None \<Rightarrow> fallback))"

definition settings_get_int :: "settings_env \<Rightarrow> table \<Rightarrow> string \<Rightarrow> int \<Rightarrow> settings_mem \<Rightarrow> settings_mem \<times> int" where
  "settings_get_int ev t key d m =
     (case settings_get ev t key None m of (m1, v) \<Rightarrow> (m1, int_or v d))"

type_synonym settings_state = "table \<times> settings_mem"

definition settings_set ::
  "settings_env \<Rightarrow> int \<Rightarrow> string \<Rightarrow> string \<Rightarrow> string \<Rightarrow> settings_state \<Rightarrow> settings_state \<times> (exc + unit)" where
  "settings_set ev now key val updated_by st =
     (case st of (t, m) \<Rightarrow>
      if is_secret key then
        (case settings_encrypt ev val m of
           (m1, Inl e) \<Rightarrow> ((t, m1), Inl e)
         | (m1, Inr stored) \<Rightarrow> ((put_setting now key stored True updated_by t, m1), Inr ()))
      else
        ((put_setting now key val False updated_by t, m\<lparr>sm_plain_cache := AList.update key val (sm_plain_cache m)\<rparr>), Inr ()))"

definition settings_delete :: "string \<Rightarrow> settings_state \<Rightarrow> settings_state" where
  "settings_delete key st =
     (case st of (t, m) \<Rightarrow> (delete_setting key t, m\<lparr>sm_plain_cache := AList.delete key (sm_plain_cache m)\<rparr>))"

fun reveal_each ::
  "settings_env \<Rightarrow> table \<Rightarrow> bool \<Rightarrow> setting_row list \<Rightarrow> settings_mem \<Rightarrow> (string \<times> string) list \<Rightarrow> settings_mem \<times> (string \<times> string) list" where
  "reveal_each ev t redact [] m out = (m, out)"
| "reveal_each ev t redact (r # rs) m out =
     (if sr_is_secret r then
        (if redact then reveal_each ev t redact rs m (AList.update (sr_key r) ''<encrypted>'' out)
         else (case settings_get ev t (sr_key r) None m of
                 (m1, v) \<Rightarrow> reveal_each ev t redact rs m1 (AList.update (sr_key r) (opt_or v []) out)))
      else reveal_each ev t redact rs m out)"

definition settings_get_all :: "settings_env \<Rightarrow> table \<Rightarrow> bool \<Rightarrow> settings_mem \<Rightarrow> settings_mem \<times> (string \<times> string) list" where
  "settings_get_all ev t redact m =
     (let m1 = cached t m in reveal_each ev t redact (list_settings t) m1 (sm_plain_cache m1))"

text \<open>The loop of the migration; \<open>nonce_of\<close> draws the nonce of a key's encryption.\<close>

fun migrate_each ::
  "settings_env \<Rightarrow> (string \<Rightarrow> bytes) \<Rightarrow> int \<Rightarrow> (string \<times> string) list \<Rightarrow> settings_state \<Rightarrow> (string \<times> string) list \<Rightarrow>
     settings_state \<times> (exc + (string \<times> string) list)" where
  "migrate_each ev nonce_of now [] st migrated = (st, Inr migrated)"
| "migrate_each ev nonce_of now ((key, env_name) # r) st migrated =
     (if get_setting (fst st) key \<noteq> None then migrate_each ev nonce_of now r st migrated
      else
        (case environ_get ev env_name None of
           None \<Rightarrow> migrate_each ev nonce_of now r st migrated
         | Some v \<Rightarrow>
             if v = [] then migrate_each ev nonce_of now r st migrated
             else
               (case settings_set (ev\<lparr>ev_nonce := nonce_of key\<rparr>) now key v ''system:env-migration'' st of
                  (st1, Inl e) \<Rightarrow> (st1, Inl e)
                | (st1, Inr u) \<Rightarrow> migrate_each ev nonce_of now r st1 (migrated @ [(key, env_name)]))))"

definition migrate_from_env ::
  "settings_env \<Rightarrow> (string \<Rightarrow> bytes) \<Rightarrow> int \<Rightarrow> settings_state \<Rightarrow> settings_state \<times> (exc + (string \<times> string) list)" where
  "migrate_from_env ev nonce_of now st =
     (case load_kek ev (cached (fst st) (snd st)) of
        (m1, Inl e) \<Rightarrow> ((fst st, m1), Inl e)
      | (m1, Inr kek) \<Rightarrow> migrate_each ev nonce_of now env_migrate (fst st, m1) [])"

section \<open>Endpoints\<close>

record setting_out =
  so_key :: string
  so_is_secret :: bool
  so_value :: "string option"

definition api_list_settings ::
  "settings_env \<Rightarrow> settings_state \<Rightarrow> settings_mem \<times> ((string \<times> string) list \<times> string list)" where
  "api_list_settings ev st =
     (case settings_get_all ev (fst st) True (snd st) of (m, out) \<Rightarrow> (m, (out, sort secret_keys)))"

definition api_get_setting :: "settings_env \<Rightarrow> string \<Rightarrow> settings_state \<Rightarrow> settings_mem \<times> setting_out" where
  "api_get_setting ev key st =
     (if is_secret key then
        (snd st, \<lparr>so_key = key, so_is_secret = True,
           so_value = (case get_setting (fst st) key of
                         None \<Rightarrow> None
                       | Some row \<Rightarrow> if sr_is_secret row then Some ''<encrypted>'' else None)\<rparr>)
      else
        (case settings_get ev (fst st) key None (snd st) of
           (m, v) \<Rightarrow> (m, \<lparr>so_key = key, so_is_secret = False, so_value = v\<rparr>)))"

definition api_reveal_setting :: "settings_env \<Rightarrow> string \<Rightarrow> settings_state \<Rightarrow> settings_mem \<times> setting_out" where
  "api_reveal_setting ev key st =
     (case settings_get ev (fst st) key None (snd st) of
        (m, v) \<Rightarrow> (m, \<lparr>so_key = key, so_is_secret = is_secret key, so_value = v\<rparr>))"

definition api_upsert_setting ::
  "settings_env \<Rightarrow> int \<Rightarrow> string \<Rightarrow> string \<Rightarrow> string \<Rightarrow> settings_state \<Rightarrow> settings_state \<times> (exc + (string \<times> bool))" where
  "api_upsert_setting ev now actor key val st =
     (case settings_set ev now key val actor st of
        (st1, Inl e) \<Rightarrow> (st1, Inl e)
      | (st1, Inr u) \<Rightarrow> (st1, Inr (key, is_secret key)))"

definition api_delete_setting :: "string \<Rightarrow> settings_state \<Rightarrow> settings_state \<times> string" where
  "api_delete_setting key st = (settings_delete key st, key)"

section \<open>The table is a settings store\<close>

lemma get_setting_put:
  "get_setting (put_setting now k v sec u t) k' =
     (if k' = k then Some \<lparr>sr_key = k, sr_value = v, sr_is_secret = sec, sr_updated_at = iso now, sr_updated_by = u\<rparr>
      else get_setting t k')"
  by (simp add: get_setting_def put_setting_def get_put setting_of_def str_attr_or_def str_attr_def)

lemma get_setting_delete: "get_setting (delete_setting k t) k' = (if k' = k then None else get_setting t k')"
  by (simp add: get_setting_def delete_setting_def get_delete)

interpretation dynamo_settings: settings_store get_setting
    "\<lambda>k (now, v, sec, u). put_setting now k v sec u" delete_setting
    "\<lambda>k (now, v, sec, u). \<lparr>sr_key = k, sr_value = v, sr_is_secret = sec, sr_updated_at = iso now, sr_updated_by = u\<rparr>"
  by unfold_locales (auto simp: get_setting_put get_setting_delete)

lemma setting_of_key [simp]: "sr_key (setting_of k it) = k"
  by (simp add: setting_of_def)

lemma list_settings_iff:
  assumes "wf_table t"
  shows "r \<in> set (list_settings t) \<longleftrightarrow> get_setting t (sr_key r) = Some r"
proof -
  have "r \<in> set (list_settings t) \<longleftrightarrow> (\<exists>s it. get_item t ''SETTINGS'' s = Some it \<and> r = setting_of s it)"
    using set_query [OF assms] by (fastforce simp: list_settings_def)
  also have "\<dots> \<longleftrightarrow> (\<exists>it. get_item t ''SETTINGS'' (sr_key r) = Some it \<and> r = setting_of (sr_key r) it)"
    by (metis setting_of_key)
  finally show ?thesis by (auto simp: get_setting_def)
qed

lemma distinct_list_settings: "wf_table t \<Longrightarrow> distinct (map sr_key (list_settings t))"
  using distinct_query [of t "''SETTINGS''" "\<lambda>_. True"]
  by (simp add: list_settings_def comp_def case_prod_unfold)

lemma wf_put_setting [simp]: "wf_table t \<Longrightarrow> wf_table (put_setting now k v sec u t)"
  by (simp add: put_setting_def)

lemma wf_delete_setting [simp]: "wf_table t \<Longrightarrow> wf_table (delete_setting k t)"
  by (simp add: delete_setting_def)

lemma fold_cache:
  "distinct (map sr_key rows) \<Longrightarrow>
   map_of (fold (\<lambda>r c. if sr_is_secret r then c else AList.update (sr_key r) (sr_value r) c) rows c) k =
     (case find (\<lambda>r. sr_key r = k \<and> \<not> sr_is_secret r) rows of Some r \<Rightarrow> Some (sr_value r) | None \<Rightarrow> map_of c k)"
proof (induction rows arbitrary: c)
  case (Cons r rows)
  have "sr_key r = k \<Longrightarrow> find (\<lambda>r. sr_key r = k \<and> \<not> sr_is_secret r) rows = None"
    using Cons.prems by (auto simp: find_None_iff) (metis imageI)
  with Cons show ?case by (auto simp: update_conv split: option.splits)
qed simp

lemma load_cache_get:
  assumes "wf_table t"
  shows "map_of (sm_plain_cache (load_plain_cache t m)) k =
     (case get_setting t k of Some r \<Rightarrow> if sr_is_secret r then None else Some (sr_value r) | None \<Rightarrow> None)"
proof (cases "find (\<lambda>r. sr_key r = k \<and> \<not> sr_is_secret r) (list_settings t)")
  case None
  then have "\<not> sr_is_secret r \<Longrightarrow> get_setting t k \<noteq> Some r" for r
    using list_settings_iff [OF assms] by (auto simp: find_None_iff get_setting_def setting_of_def)
  with None show ?thesis
    by (auto simp: load_plain_cache_def fold_cache [OF distinct_list_settings [OF assms]] split: option.splits)
next
  case (Some r)
  then have "r \<in> set (list_settings t)" "sr_key r = k" "\<not> sr_is_secret r" by (auto simp: find_Some_iff)
  with Some show ?thesis
    by (auto simp: load_plain_cache_def fold_cache [OF distinct_list_settings [OF assms]] list_settings_iff [OF assms])
qed

section \<open>The life of the settings\<close>

datatype settings_op = OpGet string | OpSet string string string | OpDelete string | OpMigrate | OpList | OpRestart

text \<open>One operation of a process, at time \<open>now\<close>, with its own nonces; a restart is a new process.\<close>

fun settings_step :: "settings_env \<Rightarrow> int \<times> (string \<Rightarrow> bytes) \<times> settings_op \<Rightarrow> settings_state \<Rightarrow> settings_state" where
  "settings_step ev (now, nonce_of, OpGet key) st = (fst st, fst (settings_get ev (fst st) key None (snd st)))"
| "settings_step ev (now, nonce_of, OpSet key v u) st = fst (settings_set (ev\<lparr>ev_nonce := nonce_of key\<rparr>) now key v u st)"
| "settings_step ev (now, nonce_of, OpDelete key) st = settings_delete key st"
| "settings_step ev (now, nonce_of, OpMigrate) st = fst (migrate_from_env ev nonce_of now st)"
| "settings_step ev (now, nonce_of, OpList) st = (fst st, fst (settings_get_all ev (fst st) True (snd st)))"
| "settings_step ev (now, nonce_of, OpRestart) st = (fst st, restart (snd st))"

definition no_settings :: "bytes option \<Rightarrow> settings_state" where
  "no_settings key_file = ([], \<lparr>sm_plain_cache = [], sm_cache_loaded = False, sm_kek = None, sm_kek_file = key_file\<rparr>)"

text \<open>The rows of secret keys are flagged and hold ciphertext; the cache holds no secret key.\<close>

definition sealed_value :: "crypto \<Rightarrow> string \<Rightarrow> bool" where
  "sealed_value cr v \<longleftrightarrow> (\<exists>n k p. v = b64encode (n @ aes_enc cr k n p))"

definition settings_inv :: "crypto \<Rightarrow> settings_state \<Rightarrow> bool" where
  "settings_inv cr st \<longleftrightarrow> wf_table (fst st) \<and>
     (\<forall>key r. get_setting (fst st) key = Some r \<longrightarrow> sr_is_secret r = is_secret key \<and> (is_secret key \<longrightarrow> sealed_value cr (sr_value r))) \<and>
     (\<forall>key. is_secret key \<longrightarrow> map_of (sm_plain_cache (snd st)) key = None)"

lemma inv_cached: "settings_inv cr (t, m) \<Longrightarrow> settings_inv cr (t, cached t m)"
  by (auto simp: settings_inv_def cached_def load_cache_get split: option.splits)

lemma inv_kek:
  assumes "settings_inv cr (t, m)" "load_kek ev m = (m1, r)" shows "settings_inv cr (t, m1)"
  using assms load_kek_frame [OF assms(2)] by (simp add: settings_inv_def)

lemma decrypt_mem: "settings_decrypt ev c m = (m1, r) \<Longrightarrow> \<exists>r'. load_kek ev m = (m1, r')"
  by (auto simp: settings_decrypt_def split: prod.splits sum.splits)

lemma encrypt_mem:
  "settings_encrypt ev p m = (m1, r) \<Longrightarrow> (\<exists>r'. load_kek ev m = (m1, r')) \<and> (\<forall>c. r = Inr c \<longrightarrow> sealed_value (ev_crypto ev) c)"
  by (auto simp: settings_encrypt_def sealed_value_def split: prod.splits sum.splits if_splits)

lemma inv_get:
  assumes "settings_inv cr (t, m)" shows "settings_inv cr (t, fst (settings_get ev t key d m))"
proof -
  have "settings_inv cr (t, m2)" if "settings_decrypt ev v (cached t m) = (m2, r)" for v m2 r
    using inv_kek [OF inv_cached [OF assms]] decrypt_mem [OF that] by blast
  then show ?thesis using inv_cached [OF assms]
    by (auto simp: settings_get_def Let_def split: option.splits prod.splits sum.splits)
qed

lemma inv_set:
  assumes "settings_inv (ev_crypto ev) st" shows "settings_inv (ev_crypto ev) (fst (settings_set ev now key v u st))"
proof -
  obtain t m where [simp]: "st = (t, m)" by fastforce
  show ?thesis
  proof (cases "is_secret key")
    case True
    obtain m1 r where e: "settings_encrypt ev v m = (m1, r)" by fastforce
    then have "settings_inv (ev_crypto ev) (t, m1)" using inv_kek assms encrypt_mem [OF e] by auto
    with True e encrypt_mem [OF e] show ?thesis
      by (auto simp: settings_set_def settings_inv_def get_setting_put split: sum.splits)
  next
    case False
    with assms show ?thesis
      by (auto simp: settings_set_def settings_inv_def get_setting_put update_conv)
  qed
qed

lemma inv_migrate_each:
  "settings_inv (ev_crypto ev) st \<Longrightarrow> settings_inv (ev_crypto ev) (fst (migrate_each ev nonce_of now rows st acc))"
proof (induction rows arbitrary: st acc)
  case (Cons r rows)
  have "settings_inv (ev_crypto ev) (fst (settings_set (ev\<lparr>ev_nonce := nonce_of k\<rparr>) now k v u st))" for k v u
    using inv_set [of "ev\<lparr>ev_nonce := nonce_of k\<rparr>"] Cons.prems by simp
  from this [of "fst r"] Cons show ?case
    by (cases r) (auto split: option.splits prod.splits sum.splits, (metis fst_conv)+)
qed simp

lemma reveal_redacted: "fst (reveal_each ev t True rows m out) = m"
  by (induction rows arbitrary: out) auto

lemma inv_step: "settings_inv (ev_crypto ev) st \<Longrightarrow> settings_inv (ev_crypto ev) (settings_step ev op st)"
proof (induction ev op st rule: settings_step.induct)
  case (2 ev now nonce_of key v u st)
  then show ?case using inv_set [of "ev\<lparr>ev_nonce := nonce_of key\<rparr>"] by simp
next
  case (3 ev now nonce_of key st)
  then show ?case
    by (cases st) (auto simp: settings_delete_def settings_inv_def get_setting_delete delete_conv)
next
  case (4 ev now nonce_of st)
  obtain m1 r where l: "load_kek ev (cached (fst st) (snd st)) = (m1, r)" by fastforce
  have "settings_inv (ev_crypto ev) (fst st, m1)" using inv_kek [OF inv_cached l] 4 by simp
  then show ?case using l inv_migrate_each by (auto simp: migrate_from_env_def split: sum.splits)
next
  case (6 ev now nonce_of st)
  then show ?case by (auto simp: settings_inv_def restart_def)
qed (use inv_get inv_cached in \<open>auto simp: settings_get_all_def Let_def reveal_redacted\<close>)

lemma inv_steps: "settings_inv (ev_crypto ev) st \<Longrightarrow> settings_inv (ev_crypto ev) (fold (settings_step ev) ops st)"
  by (induction ops arbitrary: st) (auto simp: inv_step)

lemma reveal_secret:
  "(\<forall>r\<in>set rows. sr_is_secret r = is_secret (sr_key r)) \<Longrightarrow> is_secret key \<Longrightarrow> map_of out key \<in> {None, Some ''<encrypted>''} \<Longrightarrow>
   map_of (snd (reveal_each ev t True rows m out)) key \<in> {None, Some ''<encrypted>''}"
  by (induction rows arbitrary: out) (auto simp: update_conv)

section \<open>Properties\<close>

text \<open>C11: whatever series of reads, writes, deletions, migrations and restarts runs from an empty store, a
  secret never rests as plaintext: it is not in the cache, its row is flagged and holds a
  ciphertext, and the listing shows the placeholder or nothing.\<close>

theorem secrets_stay_encrypted:
  assumes "is_secret key"
  shows "map_of (sm_plain_cache (snd (fold (settings_step ev) ops (no_settings f)))) key = None \<and>
     (\<forall>r. get_setting (fst (fold (settings_step ev) ops (no_settings f))) key = Some r \<longrightarrow>
        sr_is_secret r \<and> sealed_value (ev_crypto ev) (sr_value r)) \<and>
     map_of (fst (snd (api_list_settings ev (fold (settings_step ev) ops (no_settings f))))) key \<in> {None, Some ''<encrypted>''}"
proof -
  let ?st = "fold (settings_step ev) ops (no_settings f)"
  have "settings_inv (ev_crypto ev) (no_settings f)"
    by (simp add: settings_inv_def no_settings_def get_setting_def get_item_def wf_table_def)
  then have inv: "settings_inv (ev_crypto ev) ?st" by (rule inv_steps)
  then have c: "settings_inv (ev_crypto ev) (fst ?st, cached (fst ?st) (snd ?st))" using inv_cached by simp
  have "\<forall>r\<in>set (list_settings (fst ?st)). sr_is_secret r = is_secret (sr_key r)"
    using inv by (auto simp: settings_inv_def list_settings_iff)
  then have "map_of (fst (snd (api_list_settings ev ?st))) key \<in> {None, Some ''<encrypted>''}"
    using reveal_secret [OF _ assms] c assms
    by (simp add: api_list_settings_def settings_get_all_def Let_def settings_inv_def split: prod.splits) (metis snd_conv)
  with inv assms show ?thesis by (simp add: settings_inv_def)
qed

theorem secrets_stay_encrypted_witness:
  "\<forall>ev. is_secret ''unsub_secret'' \<and>
   map_of (sm_plain_cache (snd (fold (settings_step ev) [(1, \<lambda>_. [], OpSet ''unsub_secret'' ''s3cret'' ''me''), (2, \<lambda>_. [], OpRestart)] (no_settings None))))
     ''unsub_secret'' = None"
  using secrets_stay_encrypted [of "''unsub_secret''" _ "[(1, \<lambda>_. [], OpSet ''unsub_secret'' ''s3cret'' ''me''), (2, \<lambda>_. [], OpRestart)]" None]
  by (simp add: is_secret_def secret_keys_def)

lemma cached_loaded: "sm_cache_loaded (cached t m)"
  by (simp add: cached_def load_plain_cache_def)

lemma kek_ok_cached: "kek_ok (cached t m) = kek_ok m" "sm_kek_file (cached t m) = sm_kek_file m" "sm_kek (cached t m) = sm_kek m"
proof -
  show 1: "sm_kek_file (cached t m) = sm_kek_file m" and 2: "sm_kek (cached t m) = sm_kek m"
    by (simp_all add: cached_def load_plain_cache_def)
  show "kek_ok (cached t m) = kek_ok m" unfolding kek_ok_def 1 2 ..
qed

lemma get_secret_row:
  assumes "is_secret key" "get_setting t key = Some row" "sr_is_secret row" "snd (settings_decrypt ev (sr_value row) (cached t m)) = Inr p"
  shows "snd (settings_get ev t key d m) = Some p"
  using assms by (auto simp: settings_get_def Let_def split: prod.splits sum.splits)

lemma get_plain_row:
  assumes "\<not> is_secret key" "map_of (sm_plain_cache (cached t m)) key = Some v"
  shows "snd (settings_get ev t key d m) = Some v"
  using assms by (simp add: settings_get_def Let_def)

text \<open>A setting that was stored is read back, by the process that stored it and by a new process over
  the same table and key file, whether the key is a secret or not.\<close>

theorem setting_round_trip:
  assumes cr: "aead_ok (ev_crypto ev)" "length (ev_nonce ev) = 12" "length (ev_new_kek ev) = 32" "ev_crypto ev2 = ev_crypto ev"
    and m: "kek_ok m" and t: "wf_table t"
    and w: "settings_set ev now key v u (t, m) = ((t', m'), Inr ())"
  shows "snd (settings_get ev2 t' key d m') = Some v \<and> snd (settings_get ev2 t' key d (restart m')) = Some v"
proof (cases "is_secret key")
  case True
  from w True obtain c where e: "settings_encrypt ev v m = (m', Inr c)" and t': "t' = put_setting now key c True u t"
    by (auto simp: settings_set_def split: prod.splits sum.splits)
  obtain m1 c1 where "settings_encrypt ev v m = (m1, Inr c1)" "kek_ok m1" using settings_encrypt_ok [OF m cr(3)] .
  with e have "kek_ok m'" by simp
  then have "snd (settings_decrypt ev2 c m2) = Inr v" if "m2 = cached t' m' \<or> m2 = cached t' (restart m')" for m2
    using settings_decrypt_encrypt [OF cr(1,2) m cr(3) e cr(4), of m2] that kek_ok_restart [OF \<open>kek_ok m'\<close>]
    by (auto simp: kek_ok_cached) (auto simp: restart_def)
  then have d: "snd (settings_decrypt ev2 c (cached t' m')) = Inr v" "snd (settings_decrypt ev2 c (cached t' (restart m'))) = Inr v"
    by blast+
  have "get_setting t' key = Some \<lparr>sr_key = key, sr_value = c, sr_is_secret = True, sr_updated_at = iso now, sr_updated_by = u\<rparr>"
    by (simp add: t' get_setting_put)
  then show ?thesis using get_secret_row [OF True] d by simp
next
  case False
  with w have t': "t' = put_setting now key v False u t" and m': "m' = m\<lparr>sm_plain_cache := AList.update key v (sm_plain_cache m)\<rparr>"
    by (auto simp: settings_set_def)
  have l: "map_of (sm_plain_cache (load_plain_cache t' x)) key = Some v" for x
    by (simp add: load_cache_get t t' get_setting_put)
  show ?thesis
    by (intro conjI get_plain_row [OF False]) (auto simp: cached_def l m' update_conv restart_def)
qed

definition demo_settings_env :: settings_env where
  "demo_settings_env =
     \<lparr>ev_crypto = plain_crypto JNull, ev_environ = [(''UNSUB_SECRET'', ''from-env'')], ev_new_kek = replicate 32 CHR ''k'',
      ev_nonce = replicate 12 CHR ''n''\<rparr>"

lemma demo_env_kek: "length (ev_new_kek demo_settings_env) = 32"
  by (simp add: demo_settings_env_def)

lemma demo_kek_ok: "kek_ok (snd (no_settings None))"
  by (simp add: kek_ok_def no_settings_def)

theorem setting_round_trip_witness:
  "\<exists>t' m'. settings_set demo_settings_env 1 ''unsub_secret'' ''s3cret'' ''me'' (no_settings None) = ((t', m'), Inr ()) \<and>
     snd (settings_get demo_settings_env t' ''unsub_secret'' None (restart m')) = Some ''s3cret''"
proof -
  obtain m1 c where "settings_encrypt demo_settings_env ''s3cret'' (snd (no_settings None)) = (m1, Inr c)"
    using settings_encrypt_ok [OF demo_kek_ok, of demo_settings_env] that demo_env_kek by blast
  then obtain t' m' where s: "settings_set demo_settings_env 1 ''unsub_secret'' ''s3cret'' ''me'' ([], snd (no_settings None)) = ((t', m'), Inr ())"
    by (simp add: settings_set_def is_secret_def secret_keys_def)
  have "snd (settings_get demo_settings_env t' ''unsub_secret'' None m') = Some ''s3cret'' \<and>
    snd (settings_get demo_settings_env t' ''unsub_secret'' None (restart m')) = Some ''s3cret''"
    by (rule setting_round_trip [OF _ _ _ _ demo_kek_ok _ s])
       (simp_all add: demo_settings_env_def plain_crypto_ok wf_table_def)
  with s show ?thesis by (simp add: no_settings_def)
qed

text \<open>A key file of the wrong length is refused by the first call only: the call stores the key before it
  checks it, so every later call of the process returns the refused key.\<close>

theorem bad_kek_accepted_later:
  assumes "sm_kek m = None" "sm_kek_file m = Some k" "length k \<noteq> 32"
  shows "snd (load_kek ev m) = Inl (RuntimeError ''KEK length'') \<and> snd (load_kek ev (fst (load_kek ev m))) = Inr k"
  using assms by (simp add: load_kek_def)

theorem bad_kek_accepted_later_witness:
  "snd (load_kek ev (fst (load_kek ev (snd (no_settings (Some ''short''))))))
     = Inr ''short''"
  using bad_kek_accepted_later [of "snd (no_settings (Some ''short''))" "''short''" ev] by (simp add: no_settings_def)

lemma set_keeps_rows:
  assumes "settings_set ev now k v u st = (st1, Inr ())" "get_setting (fst st) k = None" "get_setting (fst st) key = Some r"
  shows "get_setting (fst st1) key = Some r"
  using assms by (auto simp: settings_set_def get_setting_put split: prod.splits if_splits sum.splits)

lemma set_writes: "settings_set ev now k v u st = (st1, Inr ()) \<Longrightarrow> get_setting (fst st1) k \<noteq> None"
  by (auto simp: settings_set_def get_setting_put split: prod.splits if_splits sum.splits)

lemma set_keeps_kek:
  assumes "settings_set ev now k v u st = (st1, Inr ())" "sm_kek (snd st) = Some kek"
  shows "sm_kek (snd st1) = Some kek"
  using assms by (auto simp: settings_set_def settings_encrypt_def load_kek_def split: prod.splits if_splits sum.splits)

text \<open>A row is settled when it is stored or the environment has nothing for it.\<close>

definition settled_row :: "settings_env \<Rightarrow> table \<Rightarrow> string \<times> string \<Rightarrow> bool" where
  "settled_row ev t row \<longleftrightarrow> get_setting t (fst row) \<noteq> None \<or> environ_get ev (snd row) None \<in> {None, Some []}"

lemma migrate_each_settles:
  assumes "migrate_each ev nonce_of now rows st acc = (st', Inr moved)" "sm_kek (snd st) = Some kek"
  shows "(\<forall>key r. get_setting (fst st) key = Some r \<longrightarrow> get_setting (fst st') key = Some r) \<and>
     (\<forall>row\<in>set rows. settled_row ev (fst st') row) \<and> sm_kek (snd st') = Some kek"
  using assms
proof (induction rows arbitrary: st acc)
  case (Cons row rows)
  obtain k e where [simp]: "row = (k, e)" by fastforce
  have skip: "?case" if "migrate_each ev nonce_of now rows st acc = (st', Inr moved)" "settled_row ev (fst st) row"
  proof -
    note ih = Cons.IH [OF that(1) Cons.prems(2)]
    have "settled_row ev (fst st') row" using that(2) ih by (auto simp: settled_row_def)
    with ih show ?thesis by simp
  qed
  consider "get_setting (fst st) k \<noteq> None" | "get_setting (fst st) k = None" "environ_get ev e None \<in> {None, Some []}"
    | v where "get_setting (fst st) k = None" "environ_get ev e None = Some v" "v \<noteq> []"
    by fastforce
  then show ?case
  proof cases
    case 3
    with Cons.prems obtain st1 where
      s: "settings_set (ev\<lparr>ev_nonce := nonce_of k\<rparr>) now k v ''system:env-migration'' st = (st1, Inr ())"
      and r: "migrate_each ev nonce_of now rows st1 (acc @ [(k, e)]) = (st', Inr moved)"
      by (auto split: prod.splits sum.splits)
    note ih = Cons.IH [OF r set_keeps_kek [OF s Cons.prems(2)]]
    from set_writes [OF s] ih have "settled_row ev (fst st') row" by (auto simp: settled_row_def)
    with ih set_keeps_rows [OF s 3(1)] show ?thesis by auto
  next
    case 1
    with Cons.prems skip show ?thesis by (simp add: settled_row_def)
  next
    case 2
    with Cons.prems have "migrate_each ev nonce_of now rows st acc = (st', Inr moved)" by auto
    with 2 skip show ?thesis by (simp add: settled_row_def)
  qed
qed auto

lemma migrate_each_settled:
  "\<forall>row\<in>set rows. settled_row ev (fst st) row \<Longrightarrow> migrate_each ev nonce_of now rows st acc = (st, Inr acc)"
  by (induction rows arbitrary: acc) (auto simp: settled_row_def)

text \<open>The migration from the environment never changes a stored setting and is idempotent: after it
  succeeds, running it again, at any time, moves nothing and writes nothing.\<close>

theorem migration_idempotent:
  assumes "migrate_from_env ev nonce_of now st = (st', Inr moved)"
  shows "(\<forall>key r. get_setting (fst st) key = Some r \<longrightarrow> get_setting (fst st') key = Some r) \<and>
     (\<exists>m. migrate_from_env ev nonce_of2 now2 st' = ((fst st', m), Inr []))"
proof -
  from assms obtain m1 kek where l: "load_kek ev (cached (fst st) (snd st)) = (m1, Inr kek)"
    and e: "migrate_each ev nonce_of now env_migrate (fst st, m1) [] = (st', Inr moved)"
    by (auto simp: migrate_from_env_def split: prod.splits sum.splits)
  have "sm_kek m1 = Some kek" using l by (auto simp: load_kek_def split: option.splits if_splits)
  with migrate_each_settles [OF e] have s: "\<forall>key r. get_setting (fst st) key = Some r \<longrightarrow> get_setting (fst st') key = Some r"
    "\<forall>row\<in>set env_migrate. settled_row ev (fst st') row" "sm_kek (snd st') = Some kek" by auto
  have "load_kek ev (cached (fst st') (snd st')) = (cached (fst st') (snd st'), Inr kek)"
    by (simp add: load_kek_def kek_ok_cached s(3))
  with s migrate_each_settled [of env_migrate ev "(fst st', cached (fst st') (snd st'))"] show ?thesis
    by (simp add: migrate_from_env_def)
qed

theorem migration_idempotent_witness:
  "\<exists>st' moved. migrate_from_env demo_settings_env (\<lambda>_. replicate 12 CHR ''n'') 1 (no_settings None) = (st', Inr moved) \<and>
     (\<exists>m. migrate_from_env demo_settings_env (\<lambda>_. replicate 12 CHR ''n'') 2 st' = ((fst st', m), Inr []))"
proof -
  have "\<exists>st' moved. migrate_from_env demo_settings_env (\<lambda>_. replicate 12 CHR ''n'') 1 (no_settings None) = (st', Inr moved)"
    by (simp add: migrate_from_env_def no_settings_def load_kek_def cached_def load_plain_cache_def demo_settings_env_def
        env_migrate_def get_setting_def get_item_def environ_get_def settings_set_def is_secret_def secret_keys_def
        settings_encrypt_def aes_key_ok_def get_setting_put put_setting_def put_item_def)
  then show ?thesis using migration_idempotent by blast
qed

end
