(* ===== verification/Signed_Tokens.thy ===== *)
theory Signed_Tokens
  imports Base64 Envelopes
begin

text \<open>
  The signed text tokens of the program: \<open>payload.signature\<close> in unpadded URL-safe Base64, the
  signature an HMAC over the payload text. The public compliance links
  (cloud/compliance_tokens.py, minted by terminal/launch.py too) and the admin sessions
  (terminal/auth.py) have this form. \<open>hmac_sha256\<close>, \<open>sha256\<close> and the JSON codec (compact, sorted keys)
  are the library's.
\<close>

record token_lib =
  hmac_sha256 :: "bytes \<Rightarrow> bytes \<Rightarrow> bytes"
  sha256 :: "bytes \<Rightarrow> bytes"
  compact_dumps :: "json \<Rightarrow> bytes"
  text_loads :: "bytes \<Rightarrow> json option"
  py_repr :: "json \<Rightarrow> string"

section \<open>Signing\<close>

definition sign_payload :: "token_lib \<Rightarrow> bytes \<Rightarrow> json \<Rightarrow> string" where
  "sign_payload lib secret payload =
     (let payload_b64 = b64u_encode (compact_dumps lib payload)
      in payload_b64 @ ''.'' @ b64u_encode (hmac_sha256 lib secret payload_b64))"

text \<open>\<open>str.encode("ascii")\<close> and the check of the Base64 decoder: characters above 127 are an error.\<close>

definition ascii :: "string \<Rightarrow> bool" where
  "ascii s \<longleftrightarrow> (\<forall>c\<in>set s. byte c < 128)"

definition b64u_decode_str :: "string \<Rightarrow> exc + bytes" where
  "b64u_decode_str s =
     (if \<not> ascii s then Inl (ValueError ''non-ASCII'')
      else case b64u_decode s of None \<Rightarrow> Inl (ValueError ''binascii.Error'') | Some b \<Rightarrow> Inr b)"

text \<open>\<open>int(x)\<close> of a JSON value.\<close>

definition trunc :: "rat \<Rightarrow> int" where
  "trunc r = (if r < 0 then - \<lfloor>- r\<rfloor> else \<lfloor>r\<rfloor>)"

definition py_int :: "json \<Rightarrow> exc + int" where
  "py_int j =
     (case j of
        JInt i \<Rightarrow> Inr i
      | JBool b \<Rightarrow> Inr (if b then 1 else 0)
      | JFloat r \<Rightarrow> Inr (trunc r)
      | JStr s \<Rightarrow> (case int_of_str s of Some i \<Rightarrow> Inr i | None \<Rightarrow> Inl (ValueError ''int''))
      | _ \<Rightarrow> Inl (TypeError ''int''))"

text \<open>\<open>str(x)\<close> of a JSON value; of floats and containers it is the library's \<open>repr\<close>.\<close>

definition py_str :: "token_lib \<Rightarrow> json \<Rightarrow> string" where
  "py_str lib j =
     (case j of
        JStr s \<Rightarrow> s
      | JInt i \<Rightarrow> dec_int i
      | JBool b \<Rightarrow> if b then ''True'' else ''False''
      | JNull \<Rightarrow> ''None''
      | _ \<Rightarrow> py_repr lib j)"

section \<open>Lemmas\<close>

lemma alphabet_ascii: "\<forall>c\<in>set b64_alphabet. byte (to_urlsafe c) < 128"
  by (simp add: b64_alphabet_def byte_def to_urlsafe_def)

lemma length_alphabet: "length b64_alphabet = 64"
  by (simp add: b64_alphabet_def)

lemma char_ascii: "n < 64 \<Longrightarrow> byte (to_urlsafe (b64_char n)) < 128"
  using alphabet_ascii length_alphabet by (simp add: b64_char_def)

lemma ascii_b64u [simp]: "ascii (b64u_encode b)"
proof -
  obtain u k where "\<forall>n\<in>set u. n < 64" "b64u_encode b = map (\<lambda>n. to_urlsafe (b64_char n)) u"
    using b64u_encode_split [of b] by (elim exE conjE) (rule that)
  then show ?thesis using char_ascii by (simp add: ascii_def)
qed

lemma decode_str_encode [simp]: "b64u_decode_str (b64u_encode b) = Inr b"
  by (simp add: b64u_decode_str_def b64u_decode_encode)

lemma partition_signed [simp]:
  "partition_at CHR ''.'' (b64u_encode a @ CHR ''.'' # b64u_encode b) = (b64u_encode a, True, b64u_encode b)"
  by (rule partition_at_append) (rule b64u_no_dot)

end
