(* ===== verification/Cloud_Compliance.thy ===== *)
theory Cloud_Compliance
  imports Cloud_Settings Signed_Tokens
begin

text \<open>
  The public unsubscribe and erasure links: the tokens (cloud/compliance_tokens.py) and the
  endpoints that honour them (cloud/compliance_public.py). A request reads settings, so the
  module state of cloud/settings.py is threaded through; the clock, the nonce and whether
  the table answers are arguments. Of a page only the status and the title are kept.
\<close>

section \<open>Tokens\<close>

text \<open>The key of a kind: the configured secret, or the development fallback when it reads empty.\<close>

definition token_secret :: "token_lib \<Rightarrow> string \<Rightarrow> string option \<Rightarrow> bytes" where
  "token_secret lib kind s =
     (if opt_or s [] = [] then sha256 lib (''dev-only-'' @ kind @ ''-secret'') else opt_or s [])"

definition secret_for ::
  "token_lib \<Rightarrow> settings_env \<Rightarrow> table \<Rightarrow> string \<Rightarrow> settings_mem \<Rightarrow> settings_mem \<times> (exc + bytes)" where
  "secret_for lib ev t kind m =
     (if kind = ''unsub'' then
        (case settings_get ev t ''unsub_secret'' (Some []) m of (m1, s) \<Rightarrow> (m1, Inr (token_secret lib kind s)))
      else if kind = ''erasure'' then
        (case settings_get ev t ''erasure_secret'' (Some []) m of (m1, s) \<Rightarrow> (m1, Inr (token_secret lib kind s)))
      else (m, Inl (TokenError ''unknown kind'')))"

text \<open>The lifetime of a link: the setting, else the environment, else a year or 30 days; \<open>int()\<close> of the environment may fail.\<close>

definition link_ttl ::
  "settings_env \<Rightarrow> table \<Rightarrow> string \<Rightarrow> string \<Rightarrow> int \<Rightarrow> settings_mem \<Rightarrow> settings_mem \<times> (exc + int)" where
  "link_ttl ev t key env_name d m =
     (case (case environ_get ev env_name None of None \<Rightarrow> Some d | Some s \<Rightarrow> int_of_str s) of
        None \<Rightarrow> (m, Inl (ValueError ''int''))
      | Some fallback \<Rightarrow> (case settings_get_int ev t key fallback m of (m1, i) \<Rightarrow> (m1, Inr i)))"

definition unsub_ttl :: "settings_env \<Rightarrow> table \<Rightarrow> settings_mem \<Rightarrow> settings_mem \<times> (exc + int)" where
  "unsub_ttl ev t m = link_ttl ev t ''unsub_token_ttl_s'' ''UNSUB_TOKEN_TTL_S'' (60 * 60 * 24 * 365) m"

definition erasure_ttl :: "settings_env \<Rightarrow> table \<Rightarrow> settings_mem \<Rightarrow> settings_mem \<times> (exc + int)" where
  "erasure_ttl ev t m = link_ttl ev t ''erasure_token_ttl_s'' ''ERASURE_TOKEN_TTL_S'' (60 * 60 * 24 * 30) m"

definition token_payload :: "string \<Rightarrow> string \<Rightarrow> int \<Rightarrow> json" where
  "token_payload h nonce x = JObj [(''h'', JStr h), (''n'', JStr nonce), (''x'', JInt x)]"

definition mint ::
  "token_lib \<Rightarrow> settings_env \<Rightarrow> table \<Rightarrow> int \<Rightarrow> string \<Rightarrow> string \<Rightarrow> string \<Rightarrow> int option \<Rightarrow> settings_mem \<Rightarrow>
     settings_mem \<times> (exc + string)" where
  "mint lib ev t now nonce kind email_hash ttl_s m =
     (case (case ttl_s of
              Some i \<Rightarrow> (m, Inr i)
            | None \<Rightarrow> if kind = ''unsub'' then unsub_ttl ev t m else erasure_ttl ev t m) of
        (m1, Inl e) \<Rightarrow> (m1, Inl e)
      | (m1, Inr ttl) \<Rightarrow>
          (case secret_for lib ev t kind m1 of
             (m2, Inl e) \<Rightarrow> (m2, Inl e)
           | (m2, Inr secret) \<Rightarrow> (m2, Inr (sign_payload lib secret (token_payload email_hash nonce (now + ttl))))))"

text \<open>The checks on the decoded payload.\<close>

definition read_payload :: "token_lib \<Rightarrow> int \<Rightarrow> json option \<Rightarrow> exc + string" where
  "read_payload lib now payload =
     (case payload of
        None \<Rightarrow> Inl (TokenInvalid ''payload not JSON'')
      | Some p \<Rightarrow>
          (case (jitem ''h'' p, jitem ''x'' p) of
             (Some h, Some x) \<Rightarrow>
               (case py_int x of
                  Inl e \<Rightarrow> Inl e
                | Inr i \<Rightarrow> if i < now then Inl (TokenExpired ''expired'') else Inr (py_str lib h))
           | _ \<Rightarrow> Inl (TokenInvalid ''payload shape'')))"

definition check_token :: "token_lib \<Rightarrow> bytes \<Rightarrow> int \<Rightarrow> string \<Rightarrow> string \<Rightarrow> exc + string" where
  "check_token lib secret now payload_b64 sig_b64 =
     (if \<not> ascii payload_b64 then Inl (ValueError ''non-ASCII'')
      else
        (case b64u_decode_str sig_b64 of
           Inl e \<Rightarrow> Inl e
         | Inr sig \<Rightarrow>
             if sig \<noteq> hmac_sha256 lib secret payload_b64 then Inl (TokenInvalid ''bad signature'')
             else read_payload lib now
                    (case b64u_decode_str payload_b64 of Inl e \<Rightarrow> None | Inr b \<Rightarrow> text_loads lib b)))"

definition verify ::
  "token_lib \<Rightarrow> settings_env \<Rightarrow> table \<Rightarrow> int \<Rightarrow> string \<Rightarrow> string \<Rightarrow> settings_mem \<Rightarrow> settings_mem \<times> (exc + string)" where
  "verify lib ev t now kind token m =
     (case partition_at CHR ''.'' token of
        (payload_b64, False, r) \<Rightarrow> (m, Inl (TokenInvalid ''malformed token''))
      | (payload_b64, True, sig_b64) \<Rightarrow>
          (case secret_for lib ev t kind m of
             (m1, Inl e) \<Rightarrow> (m1, Inl e)
           | (m1, Inr secret) \<Rightarrow> (m1, check_token lib secret now payload_b64 sig_b64)))"

section \<open>Endpoints\<close>

datatype answer = Html int string | JsonAnswer int "(string \<times> json) list"

text \<open>What the two handlers do with a failed verification; other errors leave the handler.\<close>

definition refuse :: "exc \<Rightarrow> answer \<Rightarrow> answer \<Rightarrow> exc + answer" where
  "refuse e expired invalid = (case e of TokenExpired s \<Rightarrow> Inr expired | TokenInvalid s \<Rightarrow> Inr invalid | _ \<Rightarrow> Inl e)"

definition unsub_landing ::
  "token_lib \<Rightarrow> settings_env \<Rightarrow> table \<Rightarrow> int \<Rightarrow> string \<Rightarrow> settings_mem \<Rightarrow> exc + answer" where
  "unsub_landing lib ev t now token m =
     (case snd (verify lib ev t now ''unsub'' token m) of
        Inl e \<Rightarrow> refuse e (Html 410 ''Link expired'') (Html 400 ''Invalid link'')
      | Inr h \<Rightarrow> Inr (Html 200 ''Unsubscribe''))"

text \<open>The scope of the request: \<open>json_body\<close> is \<open>None\<close> without a JSON content type, \<open>Some None\<close> for a body that is not JSON.\<close>

definition scope_of_body :: "json option option \<Rightarrow> string" where
  "scope_of_body json_body =
     (case json_body of
        Some (Some j) \<Rightarrow>
          (case jget_or ''scope'' (JStr ''all'') j of
             Some (JStr s) \<Rightarrow> if s = ''promotional'' \<or> s = ''all'' then s else ''all''
           | _ \<Rightarrow> ''all'')
      | _ \<Rightarrow> ''all'')"

definition unsub_post ::
  "token_lib \<Rightarrow> settings_env \<Rightarrow> int \<Rightarrow> bool \<Rightarrow> json option option \<Rightarrow> string \<Rightarrow> settings_mem \<Rightarrow> table \<Rightarrow> answer response" where
  "unsub_post lib ev now table_up json_body token m t =
     (case snd (verify lib ev t now ''unsub'' token m) of
        Inl e \<Rightarrow> (t, refuse e (Html 410 ''expired'') (Html 400 ''invalid''))
      | Inr email_hash \<Rightarrow>
          let scope = scope_of_body json_body in
          if \<not> table_up then
            (t, Inr (JsonAnswer 503 [(''ok'', JBool False), (''error'', JStr ''Temporary error, please try again.'')]))
          else
            (fst (put_unsub now email_hash token scope t), Inr (JsonAnswer 200 [(''ok'', JBool True), (''scope'', JStr scope)])))"

definition erasure_landing ::
  "token_lib \<Rightarrow> settings_env \<Rightarrow> int \<Rightarrow> int \<Rightarrow> bool \<Rightarrow> string \<Rightarrow> int option \<Rightarrow> settings_mem \<Rightarrow> table \<Rightarrow> answer response" where
  "erasure_landing lib ev now ms table_up token confirm m t =
     (case snd (verify lib ev t now ''erasure'' token m) of
        Inl e \<Rightarrow> (t, refuse e (Html 410 ''Link expired'') (Html 400 ''Invalid link''))
      | Inr email_hash \<Rightarrow>
          if confirm = Some 1 then
            (if \<not> table_up then (t, Inr (Html 503 (''We couldn'' @ CHR 0x27 # ''t record that'')))
             else (put_erasure now ms email_hash token t, Inr (Html 200 ''Erasure requested'')))
          else (t, Inr (Html 200 ''Confirm data erasure'')))"

definition erasure_post ::
  "token_lib \<Rightarrow> settings_env \<Rightarrow> int \<Rightarrow> int \<Rightarrow> bool \<Rightarrow> string \<Rightarrow> settings_mem \<Rightarrow> table \<Rightarrow> answer response" where
  "erasure_post lib ev now ms table_up token m t =
     (case snd (verify lib ev t now ''erasure'' token m) of
        Inl e \<Rightarrow> (t, refuse e (Html 410 ''expired'') (Html 400 ''invalid''))
      | Inr email_hash \<Rightarrow>
          if \<not> table_up then (t, Inr (Html 503 ''error''))
          else (put_erasure now ms email_hash token t, Inr (Html 200 ''ok'')))"

section \<open>Properties\<close>

lemma verify_parts:
  assumes "verify lib ev t now kind token m = (m1, Inr h)"
  obtains payload_b64 sig_b64 secret where "token = payload_b64 @ ''.'' @ sig_b64"
    "snd (secret_for lib ev t kind m) = Inr secret" "b64u_decode sig_b64 = Some (hmac_sha256 lib secret payload_b64)"
    "read_payload lib now (case b64u_decode_str payload_b64 of Inl e \<Rightarrow> None | Inr b \<Rightarrow> text_loads lib b) = Inr h"
proof -
  obtain p f r where part: "partition_at CHR ''.'' token = (p, f, r)" using prod_cases3 by blast
  have f: f using assms part by (auto simp: verify_def split: bool.splits)
  then have "token = p @ CHR ''.'' # r" using part by (induction token arbitrary: p) (auto split: if_splits prod.splits)
  moreover from assms part f obtain secret where "snd (secret_for lib ev t kind m) = Inr secret"
    "check_token lib secret now p r = Inr h"
    by (auto simp: verify_def split: prod.splits sum.splits)
  ultimately show ?thesis using that [of p r secret]
    by (auto simp: check_token_def b64u_decode_str_def split: if_splits sum.splits option.splits)
qed

lemma verify_signed:
  assumes "snd (secret_for lib ev t kind m) = Inr secret"
  shows "snd (verify lib ev t now kind (sign_payload lib secret payload) m) = read_payload lib now (text_loads lib (compact_dumps lib payload))"
  using assms by (auto simp: verify_def sign_payload_def Let_def check_token_def split: prod.splits)

lemma read_own_payload:
  "read_payload lib now (Some (token_payload h n x)) = (if x < now then Inl (TokenExpired ''expired'') else Inr h)"
  by (simp add: read_payload_def token_payload_def jitem_def py_int_def py_str_def)

text \<open>A minted link verifies to the hash it was minted for until its lifetime is over and as expired from then
  on, on any machine that reads the same secret.\<close>

theorem token_round_trip:
  assumes "mint lib ev t now nonce kind h (Some ttl) m = (m1, Inr token)"
    and same: "snd (secret_for lib ev2 t2 kind m2) = snd (secret_for lib ev t kind m)"
    and json: "text_loads lib (compact_dumps lib (token_payload h nonce (now + ttl))) = Some (token_payload h nonce (now + ttl))"
  shows "snd (verify lib ev2 t2 later kind token m2) = (if now + ttl < later then Inl (TokenExpired ''expired'') else Inr h)"
proof -
  from assms(1) obtain secret where "snd (secret_for lib ev t kind m) = Inr secret"
    "token = sign_payload lib secret (token_payload h nonce (now + ttl))"
    by (auto simp: mint_def split: prod.splits sum.splits)
  with same verify_signed [of lib ev2 t2 kind m2 secret] json show ?thesis by (simp add: read_own_payload)
qed

definition demo_lib :: "json \<Rightarrow> token_lib" where
  "demo_lib j =
     \<lparr>hmac_sha256 = (\<lambda>k m. k @ m), sha256 = (\<lambda>b. b), compact_dumps = (\<lambda>_. ''{}''), text_loads = (\<lambda>b. if b = ''{}'' then Some j else None),
      py_repr = (\<lambda>_. [])\<rparr>"

lemma demo_unsub_secret: "snd (secret_for lib demo_settings_env [] ''unsub'' (snd (no_settings None))) = Inr ''from-env''"
  by (simp add: secret_for_def settings_get_def is_secret_def secret_keys_def get_setting_def get_item_def
      env_migrate_def environ_get_def demo_settings_env_def token_secret_def opt_or_def py_or_def split: prod.splits)

lemma demo_mint:
  "\<exists>m1 token. mint lib demo_settings_env [] 5 ''n'' ''unsub'' h (Some 10) (snd (no_settings None)) = (m1, Inr token) \<and>
     token = sign_payload lib ''from-env'' (token_payload h ''n'' 15)"
  using demo_unsub_secret [of lib] by (auto simp: mint_def split: prod.splits sum.splits)

theorem token_round_trip_witness:
  "\<exists>token. (\<exists>m1. mint (demo_lib (token_payload ''hash'' ''n'' 15)) demo_settings_env [] 5 ''n'' ''unsub'' ''hash'' (Some 10) (snd (no_settings None)) = (m1, Inr token)) \<and>
     snd (verify (demo_lib (token_payload ''hash'' ''n'' 15)) demo_settings_env [] 15 ''unsub'' token (snd (no_settings None))) = Inr ''hash'' \<and>
     snd (verify (demo_lib (token_payload ''hash'' ''n'' 15)) demo_settings_env [] 16 ''unsub'' token (snd (no_settings None))) = Inl (TokenExpired ''expired'')"
proof -
  let ?lib = "demo_lib (token_payload ''hash'' ''n'' 15)" and ?m = "snd (no_settings None)"
  obtain m1 token where k: "mint ?lib demo_settings_env [] 5 ''n'' ''unsub'' ''hash'' (Some 10) ?m = (m1, Inr token)"
    using demo_mint by blast
  have "text_loads ?lib (compact_dumps ?lib (token_payload ''hash'' ''n'' (5 + 10))) = Some (token_payload ''hash'' ''n'' (5 + 10))"
    by (simp add: demo_lib_def)
  from token_round_trip [OF k refl this] k show ?thesis by auto
qed

text \<open>C12: the public endpoints write only for a signed link: if a request changes the table, its token is a
  payload and a signature that is the HMAC of the payload under the secret of that endpoint's kind.\<close>

theorem write_needs_signature:
  assumes "fst (unsub_post lib ev now up body token m t) \<noteq> t \<and> kind = ''unsub'' \<or>
     (fst (erasure_post lib ev now ms up token m t) \<noteq> t \<or> fst (erasure_landing lib ev now ms up token confirm m t) \<noteq> t) \<and> kind = ''erasure''"
  shows "\<exists>payload_b64 sig_b64 secret. token = payload_b64 @ ''.'' @ sig_b64 \<and> snd (secret_for lib ev t kind m) = Inr secret \<and>
     b64u_decode sig_b64 = Some (hmac_sha256 lib secret payload_b64)"
proof -
  from assms obtain m1 h where "verify lib ev t now kind token m = (m1, Inr h)"
    by (cases "verify lib ev t now kind token m")
       (auto simp: unsub_post_def erasure_post_def erasure_landing_def split: sum.splits)
  then show ?thesis by (rule verify_parts) blast
qed

lemma put_unsub_changes: "fst (put_unsub n h tok s []) \<noteq> []"
  by (simp add: put_unsub_def put_item_if_def attr_exists_def attr_of_def get_item_def put_item_def Let_def)

theorem write_needs_signature_witness:
  "\<exists>token payload_b64 sig_b64 secret. token = payload_b64 @ ''.'' @ sig_b64 \<and>
     fst (unsub_post (demo_lib (token_payload ''hash'' ''n'' 15)) demo_settings_env 5 True None token (snd (no_settings None)) []) \<noteq> [] \<and>
     b64u_decode sig_b64 = Some (hmac_sha256 (demo_lib (token_payload ''hash'' ''n'' 15)) secret payload_b64)"
proof -
  let ?lib = "demo_lib (token_payload ''hash'' ''n'' 15)" and ?m = "snd (no_settings None)"
  let ?tok = "sign_payload ?lib ''from-env'' (token_payload ''hash'' ''n'' 15)"
  have "snd (verify ?lib demo_settings_env [] 5 ''unsub'' ?tok ?m) = Inr ''hash''"
    using verify_signed [OF demo_unsub_secret [of ?lib]] by (simp add: demo_lib_def read_own_payload)
  then have w: "fst (unsub_post ?lib demo_settings_env 5 True None ?tok ?m []) \<noteq> []"
    by (simp add: unsub_post_def Let_def put_unsub_changes)
  from write_needs_signature [of ?lib demo_settings_env 5 True None ?tok ?m "[]" "''unsub''" 0 None] w show ?thesis by blast
qed

text \<open>A configured erasure secret that cannot be decrypted (the key file was lost or replaced) silently becomes
  the public development secret: a link anyone can sign is accepted.\<close>

theorem undecryptable_secret_is_public:
  assumes "get_setting t ''erasure_secret'' = Some row" "sr_is_secret row"
    and "settings_decrypt ev (sr_value row) (cached t m) = (m1, Inl e)"
    and "text_loads lib (compact_dumps lib (token_payload h n x)) = Some (token_payload h n x)" "now \<le> x"
  shows "snd (verify lib ev t now ''erasure''
     (sign_payload lib (sha256 lib ''dev-only-erasure-secret'') (token_payload h n x)) m) = Inr h"
proof -
  have "settings_get ev t ''erasure_secret'' (Some []) m = (m1, Some [])"
    using assms by (simp add: settings_get_def Let_def is_secret_def secret_keys_def)
  then have "snd (secret_for lib ev t ''erasure'' m) = Inr (sha256 lib ''dev-only-erasure-secret'')"
    by (simp add: secret_for_def token_secret_def opt_or_def py_or_def)
  from verify_signed [OF this] assms show ?thesis by (simp add: read_own_payload)
qed

theorem undecryptable_secret_is_public_witness:
  "\<exists>t m. snd (verify (demo_lib (token_payload ''victim'' ''n'' 15)) demo_settings_env t 5 ''erasure''
     (sign_payload (demo_lib (token_payload ''victim'' ''n'' 15)) ''dev-only-erasure-secret'' (token_payload ''victim'' ''n'' 15)) m) = Inr ''victim''"
proof -
  let ?lib = "demo_lib (token_payload ''victim'' ''n'' 15)"
  let ?t = "put_setting 1 ''erasure_secret'' ''AA'' True ''me'' []" and ?m = "snd (no_settings (Some ''short''))"
  have "\<exists>m1 e. settings_decrypt demo_settings_env ''AA'' (cached ?t ?m) = (m1, Inl e)"
    by (simp add: settings_decrypt_def load_kek_def kek_ok_cached no_settings_def)
  then obtain m1 e where d: "settings_decrypt demo_settings_env ''AA'' (cached ?t ?m) = (m1, Inl e)" by blast
  have "snd (verify ?lib demo_settings_env ?t 5 ''erasure'' (sign_payload ?lib (sha256 ?lib ''dev-only-erasure-secret'') (token_payload ''victim'' ''n'' 15)) ?m) = Inr ''victim''"
    using d undecryptable_secret_is_public [of ?t "\<lparr>sr_key = ''erasure_secret'', sr_value = ''AA'', sr_is_secret = True, sr_updated_at = iso 1, sr_updated_by = ''me''\<rparr>"
        demo_settings_env ?m m1 e ?lib "''victim''" "''n''" 15 5]
    by (simp add: get_setting_put demo_lib_def)
  then show ?thesis by (auto simp: demo_lib_def)
qed

text \<open>A signature that is not Base64 is not refused but leaves the handler as an error of the server.\<close>

lemma malformed_signature_escapes:
  assumes "CHR ''.'' \<notin> set p" "ascii p" "ascii s" "b64u_decode s = None"
  shows "unsub_post lib ev now up body (p @ ''.'' @ s) m t = (t, Inl (ValueError ''binascii.Error''))"
proof -
  obtain m1 k where "secret_for lib ev t ''unsub'' m = (m1, Inr k)" by (cases "secret_for lib ev t ''unsub'' m") (auto simp: secret_for_def split: prod.splits)
  with assms show ?thesis
    by (simp add: unsub_post_def verify_def partition_at_append check_token_def b64u_decode_str_def refuse_def)
qed

end
