(* ===== verification/Cloud_Webhook.thy ===== *)
theory Cloud_Webhook
  imports Cloud_Settings Signed_Tokens Py_Text
begin

text \<open>
  The receiver of the mail service's webhooks (cloud/webhook_receiver.py): the signature check,
  the replay window, the idempotency on the message id, and the events it appends for the
  terminals. The HMAC, the hash, the ciphers and the decoding of bytes with replacement are
  arguments. The type and the ids of a signed body are strings or absent, as the
  service documents; a value of another JSON type reads as absent.
\<close>

record webhook_lib =
  wl_hmac :: "bytes \<Rightarrow> bytes \<Rightarrow> bytes"
  wl_utf8 :: "bytes \<Rightarrow> string"
  wl_crypto :: crypto

section \<open>The signature\<close>

text \<open>\<open>base64.b64decode\<close> of a text: characters above 127 are an error too.\<close>

definition b64decode_str :: "string \<Rightarrow> bytes option" where
  "b64decode_str s = (if ascii s then b64decode s else None)"

definition secret_of_part :: "string \<Rightarrow> bytes option" where
  "secret_of_part raw_part =
     (let part = strip raw_part in
      if part = [] then None
      else
        (let part = removeprefix ''whsec_'' part in
         Some (case b64decode_str part of Some b \<Rightarrow> b | None \<Rightarrow> part)))"

definition all_secrets :: "string option \<Rightarrow> bytes list" where
  "all_secrets setting = List.map_filter secret_of_part (split_on CHR '','' (opt_or setting []))"

text \<open>The entries of the signature header against one secret; \<open>compare_digest\<close> of a non-ASCII text is a \<open>TypeError\<close>.\<close>

fun match_entry :: "string list \<Rightarrow> string \<Rightarrow> exc + bool" where
  "match_entry [] expected = Inr False"
| "match_entry (entry # es) expected =
     (if \<not> starts_with entry ''v1,'' then match_entry es expected
      else if \<not> ascii (drop 3 entry) then Inl (TypeError ''compare_digest'')
      else if drop 3 entry = expected then Inr True
      else match_entry es expected)"

fun match_secret :: "webhook_lib \<Rightarrow> bytes \<Rightarrow> string list \<Rightarrow> bytes list \<Rightarrow> exc + bool" where
  "match_secret wl signed entries [] = Inr False"
| "match_secret wl signed entries (secret # ss) =
     bindE (match_entry entries (b64encode (wl_hmac wl secret signed)))
       (\<lambda>ok. if ok then Inr True else match_secret wl signed entries ss)"

definition signed_text :: "webhook_lib \<Rightarrow> string \<Rightarrow> string \<Rightarrow> bytes \<Rightarrow> bytes" where
  "signed_text wl svix_id svix_timestamp body = svix_id @ ''.'' @ svix_timestamp @ ''.'' @ wl_utf8 wl body"

definition verify_signature :: "webhook_lib \<Rightarrow> string option \<Rightarrow> string \<Rightarrow> string \<Rightarrow> bytes \<Rightarrow> string \<Rightarrow> exc + bool" where
  "verify_signature wl setting svix_id svix_timestamp body signature_header =
     (let secrets = all_secrets setting in
      if secrets = [] then Inr False
      else match_secret wl (signed_text wl svix_id svix_timestamp body) (words signature_header) secrets)"

section \<open>The event\<close>

definition write_event_log :: "int \<Rightarrow> string \<Rightarrow> string \<Rightarrow> bytes \<Rightarrow> table \<Rightarrow> table \<times> int" where
  "write_event_log now table_name row_id encrypted_payload t =
     put_event now table_name row_id 0 ''client'' (iso now) ''K_op+K_cl'' (Some encrypted_payload) False t"

record wh_event =
  we_type :: string
  we_message_id :: "string option"
  we_recipient :: "json option"

definition str_of_json :: "json \<Rightarrow> string option" where
  "str_of_json j = (case j of JStr s \<Rightarrow> Some s | _ \<Rightarrow> None)"

text \<open>\<open>recipients[0] if recipients else None\<close>.\<close>

definition first_recipient :: "json \<Rightarrow> exc + json option" where
  "first_recipient recipients =
     (if \<not> jtrue recipients then Inr None
      else
        (case recipients of
           JArr (x # xs) \<Rightarrow> Inr (Some x)
         | JStr (c # cs) \<Rightarrow> Inr (Some (JStr [c]))
         | JObj kvs \<Rightarrow> Inl (KeyError ''0'')
         | _ \<Rightarrow> Inl (TypeError ''not subscriptable'')))"

definition read_event :: "json \<Rightarrow> exc + wh_event" where
  "read_event event =
     (case (jget_or ''type'' (JStr []) event, jget ''data'' event) of
        (Some ty, Some d) \<Rightarrow>
          (let data = jor d (JObj []) in
           (case (jget ''email_id'' data, jget ''id'' data, jget ''to'' data) of
              (Some e, Some i, Some recipients) \<Rightarrow>
                bindE (first_recipient (jor recipients (JArr [])))
                  (\<lambda>r. Inr \<lparr>we_type = (case str_of_json ty of Some s \<Rightarrow> s | None \<Rightarrow> []),
                            we_message_id = str_of_json (jor e i), we_recipient = r\<rparr>)
            | _ \<Rightarrow> Inl (AttributeError ''get'')))
      | _ \<Rightarrow> Inl (AttributeError ''get''))"

definition hard_bounce_types :: "string list" where "hard_bounce_types = [''email.bounced'']"
definition complaint_types :: "string list" where "complaint_types = [''email.complained'']"
definition unsubscribe_types :: "string list" where "unsubscribe_types = [''email.unsubscribed'']"

definition suppression_reason :: "string \<Rightarrow> string option" where
  "suppression_reason event_type =
     (if event_type \<in> set hard_bounce_types then Some ''bounce_hard''
      else if event_type \<in> set complaint_types then Some ''complaint''
      else if event_type \<in> set unsubscribe_types then Some ''unsubscribe''
      else None)"

section \<open>The handler\<close>

record wh_request =
  wr_svix_id :: string
  wr_timestamp :: string
  wr_signature :: string
  wr_body :: bytes

record wh_env =
  wn_now :: int
  wn_received_at :: string
  wn_rand1 :: both_rand
  wn_rand2 :: both_rand

datatype wh_answer = Duplicate | RawOnly | Forwarded int "string option"

definition opt_json :: "string option \<Rightarrow> json" where
  "opt_json s = (case s of None \<Rightarrow> JNull | Some x \<Rightarrow> JStr x)"

definition event_payload :: "webhook_lib \<Rightarrow> wh_env \<Rightarrow> wh_request \<Rightarrow> wh_event \<Rightarrow> json" where
  "event_payload wl n rq ev =
     JObj [(''svix_id'', JStr (wr_svix_id rq)), (''event_type'', JStr (we_type ev)), (''message_id'', opt_json (we_message_id ev)),
           (''recipient'', case we_recipient ev of None \<Rightarrow> JNull | Some j \<Rightarrow> j), (''raw'', JStr (wl_utf8 wl (wr_body rq))),
           (''received_at'', JStr (wn_received_at n))]"

definition suppression_payload :: "wh_env \<Rightarrow> string \<Rightarrow> string \<Rightarrow> string \<Rightarrow> json" where
  "suppression_payload n h reason event_type =
     JObj [(''email_hash'', JStr h), (''reason'', JStr reason), (''source'', JStr (''webhook:'' @ event_type)),
           (''added_at'', JStr (wn_received_at n))]"

text \<open>The second event, for a recipient that must not be mailed again.\<close>

definition auto_suppress ::
  "webhook_lib \<Rightarrow> wh_env \<Rightarrow> bytes \<times> bytes \<Rightarrow> wh_event \<Rightarrow> table \<Rightarrow> string option response" where
  "auto_suppress wl n pubkeys ev t =
     (case (we_recipient ev, suppression_reason (we_type ev)) of
        (Some recipient, Some reason) \<Rightarrow>
          if \<not> jtrue recipient then (t, Inr None)
          else
            (case recipient of
               JStr r \<Rightarrow>
                 (let h = sha256_hex (wl_crypto wl) (lower r);
                      encrypted = encrypt_for_both (wl_crypto wl) (wn_rand2 n)
                        (json_dumps (wl_crypto wl) (suppression_payload n h reason (we_type ev))) pubkeys
                  in (fst (write_event_log (wn_now n) ''suppression'' h encrypted t), Inr (Some reason)))
             | _ \<Rightarrow> (t, Inl (AttributeError ''lower'')))
      | _ \<Rightarrow> (t, Inr None))"

definition forward_event :: "webhook_lib \<Rightarrow> wh_env \<Rightarrow> wh_request \<Rightarrow> wh_event \<Rightarrow> table \<Rightarrow> wh_answer response" where
  "forward_event wl n rq ev t =
     (case get_webhook_by_svix t (wr_svix_id rq) of
        Some row \<Rightarrow> (t, Inr Duplicate)
      | None \<Rightarrow>
          (case get_all_pubkeys t of
             None \<Rightarrow> (t, Inl (KeyError ''kem_pub''))
           | Some raw \<Rightarrow>
               (case load_pubkeys raw of
                  Inl e \<Rightarrow> (put_webhook_raw (wn_now n) (wr_svix_id rq) (Some (we_type ev)) (we_message_id ev) None t, Inr RawOnly)
                | Inr pubkeys \<Rightarrow>
                    (let encrypted = encrypt_for_both (wl_crypto wl) (wn_rand1 n)
                           (json_dumps (wl_crypto wl) (event_payload wl n rq ev)) pubkeys;
                         (t1, event_id) = write_event_log (wn_now n) ''webhook_event'' (wr_svix_id rq) encrypted t
                     in (case auto_suppress wl n pubkeys ev t1 of
                           (t2, Inl e) \<Rightarrow> (t2, Inl e)
                         | (t2, Inr side) \<Rightarrow>
                             (put_webhook_raw (wn_now n) (wr_svix_id rq) (Some (we_type ev)) (we_message_id ev) (Some event_id) t2,
                              Inr (Forwarded event_id side)))))))"

text \<open>The checks before the body is believed; they change nothing.\<close>

definition wh_checks :: "webhook_lib \<Rightarrow> settings_env \<Rightarrow> int \<Rightarrow> wh_request \<Rightarrow> settings_mem \<Rightarrow> table \<Rightarrow> exc + wh_event" where
  "wh_checks wl ev now rq m t =
     (if wr_svix_id rq = [] \<or> wr_timestamp rq = [] \<or> wr_signature rq = [] then Inl (HTTPException 400 ''missing svix-* headers'')
      else
        (case int_of_str (wr_timestamp rq) of
           None \<Rightarrow> Inl (HTTPException 400 ''svix-timestamp not int'')
         | Some ts \<Rightarrow>
             (case settings_get_int ev t ''webhook_max_skew_s'' 600 m of
                (m1, max_skew) \<Rightarrow>
                  if max_skew < \<bar>now - ts\<bar> then Inl (HTTPException 400 ''timestamp skew'')
                  else
                    bindE (verify_signature wl (snd (settings_get ev t ''resend_webhook_secret'' None m1))
                             (wr_svix_id rq) (wr_timestamp rq) (wr_body rq) (wr_signature rq))
                      (\<lambda>ok. if \<not> ok then Inl (HTTPException 401 ''signature verification failed'')
                            else
                              (case json_loads (wl_crypto wl) (wr_body rq) of
                                 None \<Rightarrow> Inl (HTTPException 400 ''body not JSON'')
                               | Some event \<Rightarrow> read_event event)))))"

definition resend_webhook ::
  "webhook_lib \<Rightarrow> settings_env \<Rightarrow> wh_env \<Rightarrow> wh_request \<Rightarrow> settings_mem \<Rightarrow> table \<Rightarrow> wh_answer response" where
  "resend_webhook wl ev n rq m t =
     (case wh_checks wl ev (wn_now n) rq m t of
        Inl e \<Rightarrow> (t, Inl e)
      | Inr event \<Rightarrow> forward_event wl n rq event t)"

section \<open>Lemmas\<close>

lemma match_entry_True: "match_entry es x = Inr True \<Longrightarrow> ''v1,'' @ x \<in> set es"
proof (induction es)
  case (Cons e es)
  show ?case
  proof (cases "starts_with e ''v1,''")
    case True
    then obtain r where "e = ''v1,'' @ r" unfolding starts_with_iff by blast
    with Cons show ?thesis by (auto split: if_splits)
  qed (use Cons in auto)
qed simp

lemma match_secret_True:
  "match_secret wl signed es ss = Inr True \<Longrightarrow> \<exists>s\<in>set ss. ''v1,'' @ b64encode (wl_hmac wl s signed) \<in> set es"
  by (induction ss) (auto simp: bindE_Inr_iff dest: match_entry_True split: if_splits)

lemma get_webhook_put: "get_webhook_by_svix (put_webhook_raw n i a b c t) i \<noteq> None"
  by (simp add: get_webhook_by_svix_def put_webhook_raw_def get_put)

lemma put_webhook_events:
  "events (put_webhook_raw n i a b c t) = events t" "event_inv t \<Longrightarrow> event_inv (put_webhook_raw n i a b c t)"
proof -
  have k: "''EVENT'' \<noteq> webhook_key i" "webhook_key i \<noteq> ''COUNTER''" by (simp_all add: webhook_key_def)
  then show "events (put_webhook_raw n i a b c t) = events t"
    by (simp add: events_def put_webhook_raw_def query_put_other)
  assume inv: "event_inv t"
  then have w: "wf_table (put_webhook_raw n i a b c t)" by (simp add: put_webhook_raw_def event_inv_def)
  show "event_inv (put_webhook_raw n i a b c t)"
    using inv w k unfolding event_inv_def by (simp add: put_webhook_raw_def get_put counter_update_other)
qed

lemma checks_unchanged: "wh_checks wl ev now rq m t = Inl e \<Longrightarrow> resend_webhook wl ev n rq m t = (t, Inl e) \<or> wn_now n \<noteq> now"
  by (auto simp: resend_webhook_def)

lemma forward_leaves_row:
  "forward_event wl n rq e t = (t', Inr a) \<Longrightarrow> get_webhook_by_svix t' (wr_svix_id rq) \<noteq> None"
  using get_webhook_put by (auto simp: forward_event_def Let_def split: option.splits sum.splits prod.splits)

lemma redelivered:
  "get_webhook_by_svix t (wr_svix_id rq) \<noteq> None \<Longrightarrow>
   resend_webhook wl ev n rq m t = (t, Inr Duplicate) \<or> (\<exists>e. resend_webhook wl ev n rq m t = (t, Inl e))"
  by (auto simp: resend_webhook_def forward_event_def split: sum.splits option.splits)

section \<open>Properties\<close>

text \<open>C13: the receiver fails closed: a request changes the table only if one of the configured secrets signed its
  id, timestamp and body, its timestamp is within the window and its id is new; with
  no secret configured it never does.\<close>

theorem webhook_fails_closed:
  assumes "fst (resend_webhook wl ev n rq m t) \<noteq> t"
  shows "(\<exists>m1. \<exists>secret\<in>set (all_secrets (snd (settings_get ev t ''resend_webhook_secret'' None m1))).
            ''v1,'' @ b64encode (wl_hmac wl secret (signed_text wl (wr_svix_id rq) (wr_timestamp rq) (wr_body rq))) \<in> set (words (wr_signature rq))) \<and>
     (\<exists>ts. int_of_str (wr_timestamp rq) = Some ts \<and> \<bar>wn_now n - ts\<bar> \<le> snd (settings_get_int ev t ''webhook_max_skew_s'' 600 m)) \<and>
     get_webhook_by_svix t (wr_svix_id rq) = None"
proof -
  from assms obtain e where c: "wh_checks wl ev (wn_now n) rq m t = Inr e"
    by (auto simp: resend_webhook_def split: sum.splits)
  then obtain ts where ts: "int_of_str (wr_timestamp rq) = Some ts"
    by (auto simp: wh_checks_def split: if_splits option.splits)
  obtain m1 skew where sk: "settings_get_int ev t ''webhook_max_skew_s'' 600 m = (m1, skew)" by fastforce
  from c ts sk have "\<bar>wn_now n - ts\<bar> \<le> skew"
    and v: "verify_signature wl (snd (settings_get ev t ''resend_webhook_secret'' None m1)) (wr_svix_id rq) (wr_timestamp rq)
       (wr_body rq) (wr_signature rq) = Inr True"
    by (auto simp: wh_checks_def bindE_Inr_iff split: if_splits)
  moreover from assms redelivered have "get_webhook_by_svix t (wr_svix_id rq) = None" by (metis fst_conv)
  moreover have "\<exists>secret\<in>set (all_secrets (snd (settings_get ev t ''resend_webhook_secret'' None m1))).
      ''v1,'' @ b64encode (wl_hmac wl secret (signed_text wl (wr_svix_id rq) (wr_timestamp rq) (wr_body rq))) \<in> set (words (wr_signature rq))"
  proof (rule match_secret_True)
    show "match_secret wl (signed_text wl (wr_svix_id rq) (wr_timestamp rq) (wr_body rq)) (words (wr_signature rq))
        (all_secrets (snd (settings_get ev t ''resend_webhook_secret'' None m1))) = Inr True"
      using v by (simp add: verify_signature_def Let_def split: if_splits)
  qed
  ultimately show ?thesis using ts sk by auto
qed

text \<open>A webhook that was answered is processed once: any later delivery under the same id, while its audit row
  is there, changes nothing. This includes the one answered while no public key was
  registered, of which no event was written: no redelivery ever forwards it.\<close>

theorem webhook_processed_once:
  assumes "resend_webhook wl ev n rq m t = (t', Inr a)"
    and "get_webhook_by_svix t2 (wr_svix_id rq) = get_webhook_by_svix t' (wr_svix_id rq)" "wr_svix_id rq2 = wr_svix_id rq"
  shows "(resend_webhook wl2 ev2 n2 rq2 m2 t2 = (t2, Inr Duplicate) \<or> (\<exists>e. resend_webhook wl2 ev2 n2 rq2 m2 t2 = (t2, Inl e))) \<and>
     (a = RawOnly \<longrightarrow> events t' = events t)"
proof -
  from assms(1) obtain e where f: "forward_event wl n rq e t = (t', Inr a)"
    by (auto simp: resend_webhook_def split: sum.splits)
  with assms(2,3) forward_leaves_row have "get_webhook_by_svix t2 (wr_svix_id rq2) \<noteq> None" by metis
  note r = redelivered [OF this]
  from f have "a = RawOnly \<Longrightarrow> events t' = events t"
    by (auto simp: forward_event_def Let_def put_webhook_events split: option.splits sum.splits prod.splits)
  with r show ?thesis by blast
qed

lemma write_event_log_log:
  assumes "event_inv t" "counter ''event_log'' t + 1 < id_space" "write_event_log now tn r p t = (t', i)"
  shows "event_inv t'" "counter ''event_log'' t' = i" "i = counter ''event_log'' t + 1"
    "events t' = events t @ [mk_event now i tn r 0 ''client'' (iso now) ''K_op+K_cl'' (Some p) False]"
  using put_event_log [OF assms(1,2)] assms(3) by (auto simp: write_event_log_def mk_event_def)


section \<open>A concrete bounce\<close>

definition demo_bounce :: json where
  "demo_bounce = JObj [(''type'', JStr ''email.bounced''), (''data'', JObj [(''email_id'', JStr ''m1''), (''to'', JArr [JStr ''A@b.c''])])]"

definition demo_wh_lib :: webhook_lib where
  "demo_wh_lib = \<lparr>wl_hmac = (\<lambda>k m. []), wl_utf8 = (\<lambda>b. b), wl_crypto = plain_crypto demo_bounce\<rparr>"

definition demo_wh_settings :: settings_env where
  "demo_wh_settings = demo_settings_env\<lparr>ev_environ := [(''RESEND_WEBHOOK_SECRET'', ''whsec_'')]\<rparr>"

definition demo_wh_request :: wh_request where
  "demo_wh_request = \<lparr>wr_svix_id = ''msg'', wr_timestamp = ''5'', wr_signature = ''v1,'', wr_body = ''json''\<rparr>"

definition demo_wh_env :: wh_env where
  "demo_wh_env = \<lparr>wn_now = 5, wn_received_at = ''now'', wn_rand1 = \<lparr>br_key = ''k'', br_nonce = ''n'', br_op = [], br_cl = []\<rparr>,
     wn_rand2 = \<lparr>br_key = ''k'', br_nonce = ''n'', br_op = [], br_cl = []\<rparr>\<rparr>"

definition demo_keys :: table where
  "demo_keys = put_pubkey 1 ''operator'' ''OP'' (put_pubkey 1 ''client'' ''CL'' [])"

lemma demo_checks:
  assumes "wf_table t" "\<And>k. get_setting t k = None"
  shows "wh_checks demo_wh_lib demo_wh_settings 5 demo_wh_request (snd (no_settings None)) t =
     Inr \<lparr>we_type = ''email.bounced'', we_message_id = Some ''m1'', we_recipient = Some (JStr ''A@b.c'')\<rparr>"
proof -
  let ?m = "snd (no_settings None)" and ?m1 = "load_plain_cache t (snd (no_settings None))"
  have c: "cached t ?m = ?m1" by (simp add: cached_def no_settings_def)
  have g: "settings_get_int demo_wh_settings t ''webhook_max_skew_s'' 600 ?m = (?m1, 600)"
    using load_cache_get [OF assms(1), of ?m] assms(2)
    by (simp add: settings_get_int_def settings_get_def Let_def c is_secret_def secret_keys_def env_migrate_def environ_get_def
        demo_wh_settings_def int_or_def)
  have "cached t ?m1 = ?m1" by (simp add: cached_def load_plain_cache_def)
  then have s: "snd (settings_get demo_wh_settings t ''resend_webhook_secret'' None ?m1) = Some ''whsec_''"
    using assms(2) by (simp add: settings_get_def Let_def is_secret_def secret_keys_def env_migrate_def environ_get_def demo_wh_settings_def)
  have a: "all_secrets (Some ''whsec_'') = [[]]"
    by (simp add: all_secrets_def opt_or_def py_or_def List.map_filter_simps secret_of_part_def strip_def is_space_def Let_def
        removeprefix_def b64decode_str_def ascii_def b64decode_def)
  have w: "words ''v1,'' = [''v1,'']"
    by (simp add: words.simps is_space_def)
  have "verify_signature demo_wh_lib (Some ''whsec_'') ''msg'' ''5'' ''json'' ''v1,'' = Inr True"
    by (simp add: verify_signature_def a w demo_wh_lib_def ascii_def)
  with s show ?thesis
    by (simp add: wh_checks_def demo_wh_request_def g int_of_str_def strip_def is_space_def)
       (simp add: demo_wh_lib_def plain_crypto_def demo_bounce_def read_event_def jget_or_def jget_def jor_def first_recipient_def str_of_json_def)
qed

lemma query_nil: "query p c [] = []"
  by (simp add: query_def partition_items_def)

lemma demo_keys_facts:
  "wf_table demo_keys" "get_setting demo_keys k = None" "event_inv demo_keys" "counter ''event_log'' demo_keys = 0" "events demo_keys = []"
  "get_webhook_by_svix demo_keys ''msg'' = None" "get_all_pubkeys demo_keys = Some [(''operator'', ''OP''), (''client'', ''CL'')]"
  by (simp_all add: demo_keys_def put_pubkey_def get_setting_def get_put get_item_def [of "[]"] event_inv_def wf_table_def [of "[]"]
      counter_def item_or_new_def events_def query_put_other query_nil get_webhook_by_svix_def webhook_key_def pubkey_key_def
      get_all_pubkeys_def get_pubkey_def bytes_attr_def)

lemma demo_forwarded:
  "\<exists>t'. resend_webhook demo_wh_lib demo_wh_settings demo_wh_env demo_wh_request (snd (no_settings None)) demo_keys =
     (t', Inr (Forwarded 1 (Some ''bounce_hard'')))"
proof -
  have "i = 1" if "write_event_log n a b c demo_keys = (t', i)" for n a b c t' i
    using write_event_log_log [OF demo_keys_facts(3) _ that] by (simp add: demo_keys_facts id_space_def)
  then show ?thesis
    unfolding resend_webhook_def
    by (simp add: demo_wh_env_def demo_checks [OF demo_keys_facts(1,2)])
       (simp add: demo_keys_facts forward_event_def demo_wh_request_def load_pubkeys_def
        auto_suppress_def suppression_reason_def hard_bounce_types_def Let_def split: prod.splits)
qed

theorem webhook_fails_closed_witness:
  "fst (resend_webhook demo_wh_lib demo_wh_settings demo_wh_env demo_wh_request (snd (no_settings None)) demo_keys) \<noteq> demo_keys \<and>
   (\<exists>ts. int_of_str ''5'' = Some ts \<and> \<bar>5 - ts\<bar> \<le> snd (settings_get_int demo_wh_settings demo_keys ''webhook_max_skew_s'' 600 (snd (no_settings None))))"
proof -
  obtain t' where r: "resend_webhook demo_wh_lib demo_wh_settings demo_wh_env demo_wh_request (snd (no_settings None)) demo_keys =
     (t', Inr (Forwarded 1 (Some ''bounce_hard'')))" using demo_forwarded by blast
  then have "get_webhook_by_svix t' ''msg'' \<noteq> None"
    using forward_leaves_row by (fastforce simp: resend_webhook_def demo_wh_request_def split: sum.splits)
  then have "fst (resend_webhook demo_wh_lib demo_wh_settings demo_wh_env demo_wh_request (snd (no_settings None)) demo_keys) \<noteq> demo_keys"
    using r demo_keys_facts(6) by auto
  with webhook_fails_closed [OF this] show ?thesis by (simp add: demo_wh_env_def demo_wh_request_def)
qed

theorem webhook_processed_once_witness:
  "\<exists>t'. (\<exists>a. resend_webhook demo_wh_lib demo_wh_settings demo_wh_env demo_wh_request (snd (no_settings None)) demo_keys = (t', Inr a)) \<and>
     fst (resend_webhook demo_wh_lib demo_wh_settings demo_wh_env demo_wh_request (snd (no_settings None)) t') = t'"
proof -
  obtain t' where r: "resend_webhook demo_wh_lib demo_wh_settings demo_wh_env demo_wh_request (snd (no_settings None)) demo_keys =
     (t', Inr (Forwarded 1 (Some ''bounce_hard'')))" using demo_forwarded by blast
  from webhook_processed_once [OF this refl refl] r show ?thesis by (metis fst_conv)
qed


end
