(* ===== verification/Key_Stores.thy ===== *)
theory Key_Stores
  imports Cloud_Keys
begin

text \<open>
  The two stores of the temporary key: two files (cloud/keys.py) and items of the table
  (cloud/keys_dynamo.py, theory Cloud_Keys). The contract \<open>temp_key_store\<close> says what a reader may rely on;
  both stores satisfy it, so a program that stores, reads and wipes keys cannot tell
  them apart. The overwriting of the bytes before the unlink and the file modes are not modelled.
\<close>

section \<open>The key files\<close>

record key_files =
  kf_bin :: "bytes option"
  kf_meta :: "key_meta option"

definition file_wipe_k_temp :: "key_files \<Rightarrow> key_files" where
  "file_wipe_k_temp f = \<lparr>kf_bin = None, kf_meta = None\<rparr>"

definition file_get_active_k_temp :: "int \<Rightarrow> key_files \<Rightarrow> key_files \<times> bytes option" where
  "file_get_active_k_temp now f =
     (case (kf_bin f, kf_meta f) of
        (Some k, Some meta) \<Rightarrow> if km_expires_at meta < now then (file_wipe_k_temp f, None) else (f, Some k)
      | _ \<Rightarrow> (f, None))"

definition file_set_k_temp ::
  "(bytes \<Rightarrow> string) \<Rightarrow> int \<Rightarrow> bytes \<Rightarrow> int \<Rightarrow> string \<Rightarrow> key_files \<Rightarrow> exc + (key_files \<times> key_meta)" where
  "file_set_k_temp sha now k ttl set_by f =
     (if length k \<noteq> 32 then Inl (ValueError ''K_temp must be 32 bytes'')
      else if ttl \<notin> set valid_ttls then Inl (TTLViolation ''ttl_seconds'')
      else if set_by \<noteq> ''operator'' \<and> set_by \<noteq> ''client'' then Inl (ValueError ''set_by must be operator or client'')
      else
        (let meta = \<lparr>km_key_id = key_id_of sha k, km_set_at = now, km_set_by = set_by, km_expires_at = now + ttl, km_ttl_seconds = ttl\<rparr>
         in Inr (\<lparr>kf_bin = Some k, kf_meta = Some meta\<rparr>, meta)))"

definition file_k_temp_status :: "int \<Rightarrow> key_files \<Rightarrow> key_status option" where
  "file_k_temp_status now f =
     (case kf_meta f of
        None \<Rightarrow> None
      | Some m \<Rightarrow>
          Some \<lparr>ks_key_id = km_key_id m, ks_set_by = Some (km_set_by m), ks_set_at = Some (km_set_at m), ks_expires_at = km_expires_at m,
            ks_remaining = max 0 (km_expires_at m - now), ks_ttl_seconds = km_ttl_seconds m\<rparr>)"

section \<open>The contract\<close>

datatype key_op = KSet int bytes int string | KGet int | KWipe

datatype key_result = KErr exc | KOk | KKey "bytes option"

text \<open>A run of operations against a store, and the same run against the last stored key and its expiry.\<close>

fun run_keys ::
  "(int \<Rightarrow> 's \<Rightarrow> 's \<times> bytes option) \<Rightarrow> (int \<Rightarrow> bytes \<Rightarrow> int \<Rightarrow> string \<Rightarrow> 's \<Rightarrow> exc + 's) \<Rightarrow> ('s \<Rightarrow> 's) \<Rightarrow> key_op list \<Rightarrow> 's \<Rightarrow>
     key_result list" where
  "run_keys rd wr wp [] s = []"
| "run_keys rd wr wp (KSet now k ttl sb # ops) s =
     (case wr now k ttl sb s of Inl e \<Rightarrow> KErr e # run_keys rd wr wp ops s | Inr s' \<Rightarrow> KOk # run_keys rd wr wp ops s')"
| "run_keys rd wr wp (KGet now # ops) s = (case rd now s of (s', r) \<Rightarrow> KKey r # run_keys rd wr wp ops s')"
| "run_keys rd wr wp (KWipe # ops) s = KOk # run_keys rd wr wp ops (wp s)"

definition set_error :: "bytes \<Rightarrow> int \<Rightarrow> string \<Rightarrow> exc option" where
  "set_error k ttl set_by =
     (if length k \<noteq> 32 then Some (ValueError ''K_temp must be 32 bytes'')
      else if ttl \<notin> set valid_ttls then Some (TTLViolation ''ttl_seconds'')
      else if set_by \<noteq> ''operator'' \<and> set_by \<noteq> ''client'' then Some (ValueError ''set_by must be operator or client'')
      else None)"

fun spec_keys :: "key_op list \<Rightarrow> (bytes \<times> int) option \<Rightarrow> key_result list" where
  "spec_keys [] a = []"
| "spec_keys (KSet now k ttl sb # ops) a =
     (case set_error k ttl sb of Some e \<Rightarrow> KErr e # spec_keys ops a | None \<Rightarrow> KOk # spec_keys ops (Some (k, now + ttl)))"
| "spec_keys (KGet now # ops) a =
     (case a of Some (k, e) \<Rightarrow> if now \<le> e then KKey (Some k) # spec_keys ops a else KKey None # spec_keys ops None
      | None \<Rightarrow> KKey None # spec_keys ops None)"
| "spec_keys (KWipe # ops) a = KOk # spec_keys ops None"

locale temp_key_store =
  fixes rd :: "int \<Rightarrow> 's \<Rightarrow> 's \<times> bytes option"
    and wr :: "int \<Rightarrow> bytes \<Rightarrow> int \<Rightarrow> string \<Rightarrow> 's \<Rightarrow> exc + 's"
    and wp :: "'s \<Rightarrow> 's"
    and named :: "bytes \<Rightarrow> bool"
  assumes wr_error: "set_error k ttl sb = Some e \<Longrightarrow> wr now k ttl sb s = Inl e"
    and wr_ok: "set_error k ttl sb = None \<Longrightarrow> named k \<Longrightarrow>
      \<exists>s'. wr now k ttl sb s = Inr s' \<and> (\<forall>later. rd later s' = (if later \<le> now + ttl then (s', Some k) else (wp s', None)))"
    and rd_wiped: "rd later (wp s) = (wp s, None)"
begin

definition holds :: "'s \<Rightarrow> (bytes \<times> int) option \<Rightarrow> bool" where
  "holds s a \<longleftrightarrow>
     (case a of None \<Rightarrow> \<forall>later. rd later s = (s, None)
      | Some (k, e) \<Rightarrow> \<forall>later. rd later s = (if later \<le> e then (s, Some k) else (wp s, None)))"

lemma holds_wp: "holds (wp s) None"
  by (simp add: holds_def rd_wiped)

text \<open>Every run of a store is the run of the specification.\<close>

lemma run_is_spec:
  "holds s a \<Longrightarrow> (\<forall>now k ttl sb. KSet now k ttl sb \<in> set ops \<longrightarrow> named k) \<Longrightarrow> run_keys rd wr wp ops s = spec_keys ops a"
proof (induction ops arbitrary: s a)
  case (Cons op ops)
  have tl: "\<forall>now k ttl sb. KSet now k ttl sb \<in> set ops \<longrightarrow> named k" using Cons.prems(2) by auto
  show ?case
  proof (cases op)
    case (KSet now k ttl sb)
    show ?thesis
    proof (cases "set_error k ttl sb")
      case None
      have "named k" using Cons.prems(2) KSet by auto
      from wr_ok [OF None this] obtain s' where s': "wr now k ttl sb s = Inr s'" "holds s' (Some (k, now + ttl))"
        unfolding holds_def option.case prod.case by blast
      from Cons.IH [OF s'(2) tl] s' None KSet show ?thesis by simp
    next
      case (Some e)
      from Cons.IH [OF Cons.prems(1) tl] Some wr_error [OF Some] KSet show ?thesis by simp
    qed
  next
    case (KGet now)
    show ?thesis
    proof (cases a)
      case None
      with Cons.prems(1) have "rd now s = (s, None)" by (simp add: holds_def)
      with Cons.IH [OF Cons.prems(1) tl] KGet None show ?thesis by simp
    next
      case (Some x)
      obtain k e where [simp]: "x = (k, e)" by fastforce
      from Cons.prems(1) Some have "rd now s = (if now \<le> e then (s, Some k) else (wp s, None))" by (simp add: holds_def)
      with Cons.IH [OF Cons.prems(1) tl] Cons.IH [OF holds_wp tl] KGet Some show ?thesis by simp
    qed
  next
    case KWipe
    with Cons.IH [OF holds_wp tl] show ?thesis by simp
  qed
qed simp

end

section \<open>Both stores satisfy it\<close>

definition drop_meta :: "exc + ('s \<times> key_meta) \<Rightarrow> exc + 's" where
  "drop_meta r = (case r of Inl e \<Rightarrow> Inl e | Inr (s, m) \<Rightarrow> Inr s)"

interpretation files: temp_key_store file_get_active_k_temp "\<lambda>now k ttl sb f. drop_meta (file_set_k_temp sha now k ttl sb f)"
    file_wipe_k_temp "\<lambda>_. True" for sha
proof unfold_locales
  fix k ttl sb e now f assume "set_error k ttl sb = Some e"
  then show "drop_meta (file_set_k_temp sha now k ttl sb f) = Inl e"
    by (auto simp: set_error_def file_set_k_temp_def drop_meta_def split: if_splits)
next
  fix k ttl sb now f assume "set_error k ttl sb = None"
  then have "length k = 32" "ttl \<in> set valid_ttls" "sb = ''operator'' \<or> sb = ''client''" by (auto simp: set_error_def split: if_splits)
  then show "\<exists>s'. drop_meta (file_set_k_temp sha now k ttl sb f) = Inr s' \<and>
      (\<forall>later. file_get_active_k_temp later s' = (if later \<le> now + ttl then (s', Some k) else (file_wipe_k_temp s', None)))"
    by (auto simp: file_set_k_temp_def drop_meta_def file_get_active_k_temp_def Let_def)
next
  fix later f show "file_get_active_k_temp later (file_wipe_k_temp f) = (file_wipe_k_temp f, None)"
    by (simp add: file_get_active_k_temp_def file_wipe_k_temp_def)
qed

definition table_read :: "int \<Rightarrow> table \<Rightarrow> table \<times> bytes option" where
  "table_read now t = (case get_active_k_temp now t of (t', r) \<Rightarrow> (t', case r of Some k \<Rightarrow> k | None \<Rightarrow> None))"

interpretation items: temp_key_store table_read "\<lambda>now k ttl sb t. drop_meta (set_k_temp sha now k ttl sb t)"
    wipe_k_temp "\<lambda>k. sha k \<noteq> []" for sha
proof unfold_locales
  fix k ttl sb e now t assume "set_error k ttl sb = Some e"
  then show "drop_meta (set_k_temp sha now k ttl sb t) = Inl e"
    by (auto simp: set_error_def set_k_temp_def drop_meta_def split: if_splits)
next
  fix k ttl sb now t assume "set_error k ttl sb = None" and id: "sha k \<noteq> []"
  then obtain t' m where s: "set_k_temp sha now k ttl sb t = Inr (t', m)"
    by (auto simp: set_error_def set_k_temp_def Let_def split: if_splits)
  note c = set_k_temp_cases [OF s] and a = active_after_set [OF s id]
  have "table_read later t' = (if later \<le> now + ttl then (t', Some k) else (wipe_k_temp t', None))" for later
    using c(5) a by (simp add: table_read_def get_active_k_temp_def fetch_ktemp_def int_attr_def bytes_attr_def)
  with s show "\<exists>s'. drop_meta (set_k_temp sha now k ttl sb t) = Inr s' \<and>
      (\<forall>later. table_read later s' = (if later \<le> now + ttl then (s', Some k) else (wipe_k_temp s', None)))"
    by (simp add: drop_meta_def)
next
  fix later t show "table_read later (wipe_k_temp t) = (wipe_k_temp t, None)"
    by (simp add: table_read_def wipe_clears)
qed

section \<open>Properties\<close>

definition no_key_files :: key_files where
  "no_key_files = \<lparr>kf_bin = None, kf_meta = None\<rparr>"

text \<open>C15: the key files and the key items are the same store: any series of stores, reads and wipes, at any
  times, is answered the same by both, and as the last accepted key within its lifetime.\<close>

theorem key_stores_agree:
  assumes "\<forall>now k ttl sb. KSet now k ttl sb \<in> set ops \<longrightarrow> sha k \<noteq> []"
  shows "run_keys table_read (\<lambda>now k ttl sb t. drop_meta (set_k_temp sha now k ttl sb t)) wipe_k_temp ops [] =
     run_keys file_get_active_k_temp (\<lambda>now k ttl sb f. drop_meta (file_set_k_temp sha now k ttl sb f)) file_wipe_k_temp ops no_key_files \<and>
     run_keys table_read (\<lambda>now k ttl sb t. drop_meta (set_k_temp sha now k ttl sb t)) wipe_k_temp ops [] = spec_keys ops None"
proof -
  have t: "items.holds [] None"
    by (simp add: items.holds_def table_read_def active_id_def active_pointer_def get_item_def)
  have f: "files.holds no_key_files None"
    by (simp add: files.holds_def file_get_active_k_temp_def no_key_files_def)
  show ?thesis using items.run_is_spec [OF t assms] files.run_is_spec [OF f, of ops sha] by simp
qed

theorem key_stores_agree_witness:
  "run_keys table_read (\<lambda>now k ttl sb t. drop_meta (set_k_temp (\<lambda>_. ''0123456789'') now k ttl sb t)) wipe_k_temp
     [KSet 10 (replicate 32 CHR ''k'') 3600 ''client'', KGet 3610, KGet 3611, KGet 3610] [] =
   [KOk, KKey (Some (replicate 32 CHR ''k'')), KKey None, KKey None]"
proof -
  let ?ops = "[KSet 10 (replicate 32 CHR ''k'') 3600 ''client'', KGet 3610, KGet 3611, KGet 3610]"
  have "\<forall>now k ttl sb. KSet now k ttl sb \<in> set ?ops \<longrightarrow> (\<lambda>_. ''0123456789'') k \<noteq> []" by simp
  note a = conjunct2 [OF key_stores_agree [OF this]]
  have "spec_keys ?ops None = [KOk, KKey (Some (replicate 32 CHR ''k'')), KKey None, KKey None]"
    by (simp add: set_error_def valid_ttls_def)
  with a show ?thesis by (simp only:)
qed

text \<open>Storing a new key does not overwrite the bytes of the one before it in the table, as it does in the
  files: the replaced key's item stays, through the storing and through a later wipe,
  until the table's own expiry removes it.\<close>

theorem replaced_key_survives_wipe:
  assumes "set_k_temp sha n1 k1 ttl1 sb1 t = Inr (t1, m1)" "set_k_temp sha n2 k2 ttl2 sb2 t1 = Inr (t2, m2)"
    and "km_key_id m1 \<noteq> km_key_id m2" "sha k2 \<noteq> []"
  shows "\<exists>it. get_item (wipe_k_temp t2) (ktemp_key (km_key_id m1)) (ktemp_key (km_key_id m1)) = Some it \<and>
     bytes_attr ''key_bytes'' it = Some k1"
proof -
  have a: "active_id t2 = Some (km_key_id m2)" using active_after_set [OF assms(2,4)] set_k_temp_cases(6) [OF assms(2)] by simp
  have "get_item t2 (ktemp_key (km_key_id m1)) (ktemp_key (km_key_id m1)) = get_item t1 (ktemp_key (km_key_id m1)) (ktemp_key (km_key_id m1))"
    using assms(2,3) by (auto simp: set_k_temp_def Let_def get_put split: if_splits)
  then show ?thesis using set_k_temp_cases(5,6) [OF assms(1)] a assms(3)
    by (simp add: wipe_k_temp_def get_delete bytes_attr_def)
qed

theorem replaced_key_survives_wipe_witness:
  "\<exists>t2 it. get_item (wipe_k_temp t2) (ktemp_key ''aaaaaaaa'') (ktemp_key ''aaaaaaaa'') = Some it \<and>
     bytes_attr ''key_bytes'' it = Some (replicate 32 CHR ''a'')"
proof -
  let ?sha = "\<lambda>k. replicate 8 (hd k)"
  obtain t1 m1 where 1: "set_k_temp ?sha 1 (replicate 32 CHR ''a'') 3600 ''client'' [] = Inr (t1, m1)"
    by (simp add: set_k_temp_def valid_ttls_def Let_def)
  obtain t2 m2 where 2: "set_k_temp ?sha 2 (replicate 32 CHR ''b'') 3600 ''client'' t1 = Inr (t2, m2)"
    by (simp add: set_k_temp_def valid_ttls_def Let_def)
  have i: "km_key_id m1 = replicate 8 CHR ''a''" "km_key_id m2 = replicate 8 CHR ''b''"
    using set_k_temp_cases(6) [OF 1] set_k_temp_cases(6) [OF 2] by (simp_all add: key_id_of_def)
  have "replicate 8 CHR ''a'' = ''aaaaaaaa''" by (simp add: eval_nat_numeral)
  with replaced_key_survives_wipe [OF 1 2] i show ?thesis by (auto simp: eval_nat_numeral)
qed

end
