(* ===== verification/Send_Schedule.thy ===== *)
theory Send_Schedule
  imports Complex_Main Iso_Time
begin

text \<open>
  The send-time scheduler (terminal/send_schedule.py). An instant is a rational number of seconds
  since 1970 UTC, as an aware datetime with its microseconds. The time zone is two arguments:
  \<open>utc_of\<close> takes a wall-clock reading (seconds since 1970 on the local clock, \<open>datetime(..., tzinfo=z)\<close>)
  to the instant, \<open>day_of\<close> takes an instant to its local date, counted in days. The random
  numbers are an argument too, \<open>rnd i\<close> the one drawn for the \<open>i\<close>-th emission. The search for a window
  and the main loop are bounded in the source (400 days, \<open>8 n + 2000\<close> rounds); the bounds are the fuel.
\<close>

record schedule =
  sc_utc_of :: "int \<Rightarrow> rat"
  sc_day_of :: "rat \<Rightarrow> int"
  sc_start_hour :: int
  sc_window_hours :: int
  sc_sender_count :: int
  sc_jitter_min_s :: rat
  sc_jitter_max_s :: rat
  sc_rush_tail_minutes :: int
  sc_rush_jitter_s :: rat
  sc_daily_cap :: "int option"
  sc_rnd :: "nat \<Rightarrow> rat"

section \<open>Windows\<close>

definition fmt :: "rat \<Rightarrow> string" where
  "fmt dt = iso \<lfloor>dt\<rfloor>"

definition window_for :: "schedule \<Rightarrow> int \<Rightarrow> rat \<times> rat" where
  "window_for sc d =
     (sc_utc_of sc (d * 86400 + sc_start_hour sc * 3600),
      sc_utc_of sc (d * 86400 + (sc_start_hour sc + sc_window_hours sc) * 3600))"

fun search_window :: "schedule \<Rightarrow> nat \<Rightarrow> int \<Rightarrow> rat \<Rightarrow> exc + (rat \<times> rat \<times> rat)" where
  "search_window sc 0 d after = Inl (RuntimeError ''no send window found within a year'')"
| "search_window sc (Suc n) d after =
     (case window_for sc d of
        (o1, c) \<Rightarrow>
          if after < c \<and> max o1 after < c then Inr (o1, c, max o1 after)
          else search_window sc n (d + 1) after)"

definition next_window :: "schedule \<Rightarrow> rat \<Rightarrow> exc + (rat \<times> rat \<times> rat)" where
  "next_window sc after = search_window sc 400 (sc_day_of sc after) after"

section \<open>Senders\<close>

record sender =
  sn_open :: rat
  sn_close :: rat
  sn_t :: rat

text \<open>A sender moved to the first window after an instant.\<close>

definition roll :: "schedule \<Rightarrow> rat \<Rightarrow> exc + sender" where
  "roll sc after =
     bindE (next_window sc after) (\<lambda>(o2, c2, t). Inr \<lparr>sn_open = o2, sn_close = c2, sn_t = t\<rparr>)"

fun stagger :: "schedule \<Rightarrow> rat \<times> rat \<times> rat \<Rightarrow> nat list \<Rightarrow> exc + sender list" where
  "stagger sc w [] = Inr []"
| "stagger sc (o1, c, start) (i # is) =
     (let t = start + of_nat i * (sc_jitter_min_s sc / of_int (max (sc_sender_count sc) 1)) in
      bindE (if c \<le> t then roll sc c else Inr \<lparr>sn_open = o1, sn_close = c, sn_t = t\<rparr>)
        (\<lambda>s. bindE (stagger sc (o1, c, start) is) (\<lambda>ss. Inr (s # ss))))"

text \<open>\<open>min(senders, key=...)\<close>: the position of the first sender with the least time.\<close>

fun earliest :: "sender list \<Rightarrow> nat" where
  "earliest [] = 0"
| "earliest [s] = 0"
| "earliest (s # q # ss) = (let k = earliest (q # ss) in if sn_t s \<le> sn_t ((q # ss) ! k) then 0 else Suc k)"

section \<open>The loop\<close>

record sched_state =
  ss_senders :: "sender list"
  ss_out :: "rat list"
  ss_day_counts :: "(int \<times> nat) list"

definition day_count :: "(int \<times> nat) list \<Rightarrow> int \<Rightarrow> nat" where
  "day_count m d = (case map_of m d of Some k \<Rightarrow> k | None \<Rightarrow> 0)"

definition day_full :: "schedule \<Rightarrow> (int \<times> nat) list \<Rightarrow> int \<Rightarrow> bool" where
  "day_full sc m d = (case sc_daily_cap sc of None \<Rightarrow> False | Some cap \<Rightarrow> cap \<noteq> 0 \<and> cap \<le> int (day_count m d))"

definition gap :: "schedule \<Rightarrow> sender \<Rightarrow> nat \<Rightarrow> rat" where
  "gap sc s i =
     (if sn_close s - of_int (sc_rush_tail_minutes sc * 60) \<le> sn_t s then sc_rush_jitter_s sc * (1 / 2 + sc_rnd sc i)
      else sc_jitter_min_s sc + (sc_jitter_max_s sc - sc_jitter_min_s sc) * sc_rnd sc i)"

text \<open>One round: roll the earliest sender if its day is full, else emit its time and move it on.\<close>

definition schedule_round :: "schedule \<Rightarrow> sched_state \<Rightarrow> exc + sched_state" where
  "schedule_round sc st =
     (let k = earliest (ss_senders st); s = ss_senders st ! k; day = sc_day_of sc (sn_t s) in
      if day_full sc (ss_day_counts st) day then
        bindE (roll sc (sn_close s)) (\<lambda>s2. Inr (st\<lparr>ss_senders := (ss_senders st)[k := s2]\<rparr>))
      else
        (let nxt = sn_t s + gap sc s (length (ss_out st)) in
         bindE (if sn_close s \<le> nxt then roll sc (sn_close s) else Inr (s\<lparr>sn_t := nxt\<rparr>))
           (\<lambda>s2. Inr \<lparr>ss_senders = (ss_senders st)[k := s2], ss_out = ss_out st @ [sn_t s],
                     ss_day_counts = AList.update day (day_count (ss_day_counts st) day + 1) (ss_day_counts st)\<rparr>)))"

fun schedule_loop :: "schedule \<Rightarrow> nat \<Rightarrow> nat \<Rightarrow> sched_state \<Rightarrow> exc + sched_state" where
  "schedule_loop sc n 0 st = Inr st"
| "schedule_loop sc n (Suc fuel) st =
     (if length (ss_out st) < n then bindE (schedule_round sc st) (schedule_loop sc n fuel) else Inr st)"

definition raw_send_ats :: "schedule \<Rightarrow> nat \<Rightarrow> rat \<Rightarrow> exc + rat list" where
  "raw_send_ats sc n start_after =
     (if n = 0 then Inr []
      else if sc_start_hour sc < 0 \<or> 23 < sc_start_hour sc then Inl (ValueError ''hour must be in 0..23'')
      else
        bindE (next_window sc start_after)
          (\<lambda>w. bindE (stagger sc w [0..<nat (max (sc_sender_count sc) 1)])
             (\<lambda>ss. bindE (schedule_loop sc n (n * 8 + 2000) \<lparr>ss_senders = ss, ss_out = [], ss_day_counts = []\<rparr>)
                (\<lambda>st. Inr (ss_out st)))))"

definition compute_send_ats :: "schedule \<Rightarrow> nat \<Rightarrow> rat \<Rightarrow> exc + string list" where
  "compute_send_ats sc n start_after =
     bindE (raw_send_ats sc n start_after) (\<lambda>out. Inr (sort (map fmt out)))"

section \<open>The cooldown gate and the estimate\<close>

fun search_open :: "schedule \<Rightarrow> nat \<Rightarrow> int \<Rightarrow> rat \<Rightarrow> exc + string" where
  "search_open sc 0 d after = Inl (RuntimeError ''no window open found within a year'')"
| "search_open sc (Suc n) d after =
     (if after < fst (window_for sc d) then Inr (fmt (fst (window_for sc d))) else search_open sc n (d + 1) after)"

definition next_window_open_after :: "schedule \<Rightarrow> rat \<Rightarrow> exc + string" where
  "next_window_open_after sc after =
     (if sc_start_hour sc < 0 \<or> 23 < sc_start_hour sc then Inl (ValueError ''hour must be in 0..23'')
      else search_open sc 400 (sc_day_of sc after) after)"

definition estimate_finish :: "schedule \<Rightarrow> nat \<Rightarrow> rat \<Rightarrow> exc + string" where
  "estimate_finish sc n start_after =
     bindE (compute_send_ats sc n start_after) (\<lambda>ats. Inr (if ats = [] then [] else last ats))"

section \<open>Lemmas\<close>

text \<open>An instant inside the send window of some day.\<close>

definition in_window :: "schedule \<Rightarrow> rat \<Rightarrow> bool" where
  "in_window sc t \<longleftrightarrow> (\<exists>d. fst (window_for sc d) \<le> t \<and> t < snd (window_for sc d))"

definition sender_ok :: "schedule \<Rightarrow> rat \<Rightarrow> sender \<Rightarrow> bool" where
  "sender_ok sc start s \<longleftrightarrow>
     (\<exists>d. window_for sc d = (sn_open s, sn_close s)) \<and> sn_open s \<le> sn_t s \<and> sn_t s < sn_close s \<and> start \<le> sn_t s"

lemma search_window_ok:
  "search_window sc n d after = Inr (o1, c, t) \<Longrightarrow>
   (\<exists>d. window_for sc d = (o1, c)) \<and> o1 \<le> t \<and> t < c \<and> after \<le> t"
  by (induction n arbitrary: d) (auto split: prod.splits if_splits)

lemma roll_ok: "roll sc after = Inr s \<Longrightarrow> start \<le> after \<Longrightarrow> sender_ok sc start s"
  by (auto simp: roll_def next_window_def bindE_Inr_iff sender_ok_def dest!: search_window_ok)

lemma stagger_ok:
  assumes "\<exists>d. window_for sc d = (o1, c)" "o1 \<le> st" "st < c" "start \<le> st" "0 \<le> sc_jitter_min_s sc"
  shows "stagger sc (o1, c, st) is = Inr ss \<Longrightarrow> (\<forall>s\<in>set ss. sender_ok sc start s) \<and> length ss = length is"
proof (induction "is" arbitrary: ss)
  case (Cons i "is")
  let ?t = "st + of_nat i * (sc_jitter_min_s sc / of_int (max (sc_sender_count sc) 1))"
  have t: "st \<le> ?t" using assms(5) by simp
  from Cons.prems obtain s ss' where s: "(if c \<le> ?t then roll sc c else Inr \<lparr>sn_open = o1, sn_close = c, sn_t = ?t\<rparr>) = Inr s"
    and ss: "stagger sc (o1, c, st) is = Inr ss'" "ss = s # ss'"
    by (auto simp only: stagger.simps Let_def bindE_Inr_iff sum.inject)
  have "sender_ok sc start s"
  proof (cases "c \<le> ?t")
    case True
    with s assms show ?thesis using roll_ok [of sc c s start] by simp
  next
    case False
    from assms obtain d where d: "window_for sc d = (o1, c)" by blast
    have "o1 \<le> ?t" "start \<le> ?t" using t assms(2,4) by (meson order_trans)+
    with False s d show ?thesis unfolding sender_ok_def by (simp only: if_False sum.inject) auto
  qed
  with Cons.IH [OF ss(1)] ss(2) show ?case by simp
qed simp

lemma earliest_less: "ss \<noteq> [] \<Longrightarrow> earliest ss < length ss"
  by (induction ss rule: earliest.induct) (auto simp: Let_def)

lemma earliest_least: "s \<in> set ss \<Longrightarrow> sn_t (ss ! earliest ss) \<le> sn_t s"
proof (induction ss rule: earliest.induct)
  case (3 x q ss)
  let ?k = "earliest (q # ss)"
  show ?case
  proof (cases "s = x")
    case True
    then show ?thesis by (auto simp: Let_def)
  next
    case False
    with 3 have "sn_t ((q # ss) ! ?k) \<le> sn_t s" by simp
    then show ?thesis by (auto simp: Let_def)
  qed
qed auto

text \<open>The settings under which a gap is never negative.\<close>

definition gaps_ok :: "schedule \<Rightarrow> bool" where
  "gaps_ok sc \<longleftrightarrow> 0 \<le> sc_jitter_min_s sc \<and> sc_jitter_min_s sc \<le> sc_jitter_max_s sc \<and> 0 \<le> sc_rush_jitter_s sc \<and>
     (\<forall>i. 0 \<le> sc_rnd sc i)"

lemma gap_nonneg: "gaps_ok sc \<Longrightarrow> 0 \<le> gap sc s i"
  by (auto simp: gaps_ok_def gap_def)

definition sched_inv :: "schedule \<Rightarrow> rat \<Rightarrow> sched_state \<Rightarrow> bool" where
  "sched_inv sc start st \<longleftrightarrow> ss_senders st \<noteq> [] \<and> (\<forall>s\<in>set (ss_senders st). sender_ok sc start s) \<and>
     (\<forall>t\<in>set (ss_out st). in_window sc t \<and> start \<le> t) \<and>
     (\<forall>d. length (filter (\<lambda>t. sc_day_of sc t = d) (ss_out st)) = day_count (ss_day_counts st) d) \<and>
     (\<forall>cap d. sc_daily_cap sc = Some cap \<longrightarrow> 0 < cap \<longrightarrow> int (day_count (ss_day_counts st) d) \<le> cap)"

lemma day_count_update: "day_count (AList.update d k m) d' = (if d' = d then k else day_count m d')"
  by (simp add: day_count_def update_conv)

lemma round_inv:
  assumes inv: "sched_inv sc start st" and g: "gaps_ok sc" and r: "schedule_round sc st = Inr st2"
  shows "sched_inv sc start st2 \<and> (sc_daily_cap sc = None \<longrightarrow> length (ss_out st2) = Suc (length (ss_out st))) \<and>
     length (ss_out st2) \<le> Suc (length (ss_out st))"
proof -
  let ?k = "earliest (ss_senders st)"
  let ?s = "ss_senders st ! ?k"
  let ?day = "sc_day_of sc (sn_t ?s)"
  have k: "?k < length (ss_senders st)" using inv earliest_less by (simp add: sched_inv_def)
  then have ok: "sender_ok sc start ?s" using inv by (simp add: sched_inv_def)
  have upd: "\<forall>s\<in>set ((ss_senders st)[?k := s2]). sender_ok sc start s" if "sender_ok sc start s2" for s2
    using that inv set_update_subset_insert [of "ss_senders st" ?k s2] by (auto simp: sched_inv_def)
  have close: "start \<le> sn_close ?s" using ok by (simp add: sender_ok_def)
  show ?thesis
  proof (cases "day_full sc (ss_day_counts st) ?day")
    case True
    with r obtain s2 where s2: "roll sc (sn_close ?s) = Inr s2" "st2 = st\<lparr>ss_senders := (ss_senders st)[?k := s2]\<rparr>"
      by (auto simp: schedule_round_def Let_def bindE_Inr_iff)
    have "sc_daily_cap sc \<noteq> None" using True by (auto simp: day_full_def split: option.splits)
    with s2 inv upd [OF roll_ok [OF s2(1) close]] show ?thesis by (auto simp: sched_inv_def)
  next
    case False
    let ?nxt = "sn_t ?s + gap sc ?s (length (ss_out st))"
    from False r obtain s2 where s2: "(if sn_close ?s \<le> ?nxt then roll sc (sn_close ?s) else Inr (?s\<lparr>sn_t := ?nxt\<rparr>)) = Inr s2"
      and st2: "st2 = \<lparr>ss_senders = (ss_senders st)[?k := s2], ss_out = ss_out st @ [sn_t ?s],
          ss_day_counts = AList.update ?day (day_count (ss_day_counts st) ?day + 1) (ss_day_counts st)\<rparr>"
      by (auto simp: schedule_round_def Let_def bindE_Inr_iff)
    have "sender_ok sc start s2"
    proof (cases "sn_close ?s \<le> ?nxt")
      case True
      with s2 roll_ok close show ?thesis by simp
    next
      case F: False
      have "sn_t ?s \<le> ?nxt" using gap_nonneg [OF g] by simp
      with F s2 ok show ?thesis by (auto simp: sender_ok_def)
    qed
    note s2ok = upd [OF this]
    have "in_window sc (sn_t ?s) \<and> start \<le> sn_t ?s"
      using ok unfolding sender_ok_def in_window_def by (metis fst_conv snd_conv)
    moreover have "int (day_count (ss_day_counts st) ?day + 1) \<le> cap" if "sc_daily_cap sc = Some cap" "0 < cap" for cap
      using False that by (auto simp: day_full_def)
    ultimately show ?thesis using s2ok inv k by (auto simp: sched_inv_def st2 day_count_update)
  qed
qed

lemma loop_inv:
  "sched_inv sc start st \<Longrightarrow> gaps_ok sc \<Longrightarrow> length (ss_out st) \<le> n \<Longrightarrow> schedule_loop sc n fuel st = Inr st2 \<Longrightarrow>
   sched_inv sc start st2 \<and> length (ss_out st2) \<le> n \<and>
   (sc_daily_cap sc = None \<longrightarrow> n \<le> length (ss_out st) + fuel \<longrightarrow> length (ss_out st2) = n)"
proof (induction fuel arbitrary: st)
  case (Suc fuel)
  show ?case
  proof (cases "length (ss_out st) < n")
    case True
    with Suc.prems obtain st1 where st1: "schedule_round sc st = Inr st1" "schedule_loop sc n fuel st1 = Inr st2"
      by (auto simp: bindE_Inr_iff)
    note r = round_inv [OF Suc.prems(1,2) st1(1)]
    from r True have "sched_inv sc start st1" "length (ss_out st1) \<le> n" by auto
    from Suc.IH [OF this(1) Suc.prems(2) this(2) st1(2)] r show ?thesis by auto
  next
    case False
    with Suc.prems show ?thesis by auto
  qed
qed auto

section \<open>Properties\<close>


text \<open>Where a window is always found, the scheduler always returns.\<close>

lemma roll_total: "\<exists>w. next_window sc after = Inr w \<Longrightarrow> \<exists>s. roll sc after = Inr s"
  by (auto simp: roll_def)

lemma stagger_total: "\<forall>a. \<exists>w. next_window sc a = Inr w \<Longrightarrow> \<exists>ss. stagger sc w is = Inr ss"
proof (induction "is")
  case (Cons i "is")
  obtain o1 c st where [simp]: "w = (o1, c, st)" by (cases w)
  from Cons obtain ss where "stagger sc w is = Inr ss" by blast
  moreover obtain s where "roll sc c = Inr s" using roll_total Cons.prems by blast
  ultimately show ?case by (simp add: Let_def)
qed simp

lemma loop_total: "\<forall>a. \<exists>w. next_window sc a = Inr w \<Longrightarrow> \<exists>st2. schedule_loop sc n fuel st = Inr st2"
proof (induction fuel arbitrary: st)
  case (Suc fuel)
  let ?s = "ss_senders st ! earliest (ss_senders st)"
  obtain s2 where "roll sc (sn_close ?s) = Inr s2" using roll_total Suc.prems by blast
  then have "\<exists>st1. schedule_round sc st = Inr st1" by (simp add: schedule_round_def Let_def)
  then obtain st1 where "schedule_round sc st = Inr st1" by blast
  with Suc show ?case by auto
qed simp

lemma schedule_total:
  assumes "\<forall>a. \<exists>w. next_window sc a = Inr w" "0 \<le> sc_start_hour sc" "sc_start_hour sc \<le> 23"
  shows "\<exists>out. raw_send_ats sc n start = Inr out"
proof -
  obtain w where w: "next_window sc start = Inr w" using assms(1) by blast
  obtain ss where ss: "stagger sc w [0..<nat (max (sc_sender_count sc) 1)] = Inr ss" using stagger_total [OF assms(1)] by blast
  obtain st where "schedule_loop sc n (n * 8 + 2000) \<lparr>ss_senders = ss, ss_out = [], ss_day_counts = []\<rparr> = Inr st"
    using loop_total [OF assms(1)] by blast
  with w ss assms(2,3) show ?thesis by (simp add: raw_send_ats_def del: upt_rec_numeral)
qed

definition demo_schedule :: schedule where
  "demo_schedule =
     \<lparr>sc_utc_of = of_int, sc_day_of = (\<lambda>t. \<lfloor>t / 86400\<rfloor>), sc_start_hour = 9, sc_window_hours = 4, sc_sender_count = 3,
      sc_jitter_min_s = 60, sc_jitter_max_s = 210, sc_rush_tail_minutes = 30, sc_rush_jitter_s = 15, sc_daily_cap = None, sc_rnd = (\<lambda>_. 0)\<rparr>"

lemma demo_windows: "\<exists>w. next_window demo_schedule after = Inr w"
proof -
  let ?d = "\<lfloor>after / 86400\<rfloor>"
  have "after / 86400 < of_int ?d + 1" by (rule floor_correct [THEN conjunct2, unfolded of_int_add of_int_1])
  then have "after < (of_int ?d + 1) * 86400" by simp
  then have "after < of_int (?d + 1) * 86400 + 46800" by simp
  then show ?thesis
    by (auto simp: next_window_def demo_schedule_def window_for_def eval_nat_numeral)
qed


text \<open>The gate of the cooldown is the first opening after the instant, from its local day on.\<close>

lemma search_open_first:
  "search_open sc n d after = Inr s \<Longrightarrow>
   \<exists>k. s = fmt (fst (window_for sc (d + int k))) \<and> after < fst (window_for sc (d + int k)) \<and>
     (\<forall>j<k. \<not> after < fst (window_for sc (d + int j)))"
proof (induction n arbitrary: d)
  case (Suc n)
  show ?case
  proof (cases "after < fst (window_for sc d)")
    case True
    with Suc.prems show ?thesis by (intro exI [of _ 0]) simp
  next
    case False
    with Suc.prems have "search_open sc n (d + 1) after = Inr s" by simp
    from Suc.IH [OF this] obtain k where k: "s = fmt (fst (window_for sc (d + 1 + int k)))" "after < fst (window_for sc (d + 1 + int k))"
      "\<forall>j<k. \<not> after < fst (window_for sc (d + 1 + int j))" by blast
    have "\<not> after < fst (window_for sc (d + int j))" if "j < Suc k" for j
      using that False k(3) by (cases j) (auto simp: add.assoc)
    with k show ?thesis by (intro exI [of _ "Suc k"]) (simp add: add.assoc)
  qed
qed simp

end
