(* ===== verification/Terminal_Db.thy ===== *)
theory Terminal_Db
  imports Iso_Time Envelopes
begin

text \<open>
  The state of the terminal: its SQLite tables (terminal/models.py) as lists of records, one
  field per column, and the statements the program issues (terminal/db.py). A row list is in
  the order of insertion; \<open>SELECT ... ORDER BY\<close> sorts it. A session that commits once is one
  atomic change of the record. \<open>datetime('now')\<close> is \<open>sql_time\<close> of the clock.
\<close>

section \<open>Tables\<close>

record contact =
  ct_id :: int
  ct_email :: string
  ct_name :: "string option"
  ct_tags :: "string option"
  ct_consent_ts :: string
  ct_consent_source :: string
  ct_external_id :: "string option"
  ct_created_at :: string
  ct_updated_at :: string

record template =
  tp_id :: int
  tp_name :: string
  tp_subject :: string
  tp_from_name :: string
  tp_html_body :: string
  tp_text_body :: "string option"
  tp_template_hash :: string
  tp_tracking_enabled :: int
  tp_created_at :: string
  tp_updated_at :: string

record campaign =
  ca_id :: int
  ca_name :: string
  ca_template_id :: int
  ca_kind :: string
  ca_entity_id :: "int option"
  ca_status :: string
  ca_test_sent_at :: "string option"
  ca_template_hash_at_test :: "string option"
  ca_scheduled_for :: "string option"
  ca_dispatched_at :: "string option"
  ca_sent_at :: "string option"
  ca_recipient_count :: int
  ca_created_at :: string
  ca_updated_at :: string
  ca_rate_limit_per_min :: "int option"
  ca_bounce_pause_pct :: "rat option"
  ca_human_send :: int
  ca_human_send_min_s :: int
  ca_human_send_max_s :: int
  ca_human_send_count :: int
  ca_lock_until :: "string option"
  ca_unsubs_confirmed_at :: "string option"
  ca_lock_duration_s :: int
  ca_relaunch_gen :: int
  ca_relaunch_open :: int
  ca_relaunch_seq :: int

record recipient =
  cr_id :: int
  cr_campaign_id :: int
  cr_contact_id :: int
  cr_message_id :: "string option"
  cr_status :: string
  cr_sent_at :: "string option"
  cr_delivered_at :: "string option"
  cr_opened_at :: "string option"
  cr_clicked_at :: "string option"
  cr_bounced_at :: "string option"
  cr_complained_at :: "string option"
  cr_failure_reason :: "string option"
  cr_batch_no :: "int option"
  cr_is_seed :: int

record suppression =
  sh_email_hash :: string
  sh_reason :: string
  sh_added_at :: string
  sh_source :: "string option"
  sh_scope :: string

record job =
  dj_job_id :: string
  dj_campaign_id :: int
  dj_recipient_id :: int
  dj_recipient_hash :: string
  dj_status :: string
  dj_dispatched_at :: string
  dj_acked_at :: "string option"
  dj_completed_at :: "string option"
  dj_content_hash :: string
  dj_resend_message_id :: "string option"

record drift =
  dr_id :: int
  dr_detected_at :: string
  dr_category :: string
  dr_severity :: string
  dr_job_id :: "string option"
  dr_details_json :: string
  dr_acknowledged_at :: "string option"
  dr_acknowledged_by :: "string option"

record audit_event =
  au_id :: int
  au_occurred_at :: string
  au_actor :: string
  au_action :: string
  au_target :: "string option"
  au_details_json :: "string option"

record inbox_row =
  ib_event_id :: int
  ib_table_name :: string
  ib_row_id :: string
  ib_revision :: int
  ib_actor :: string
  ib_modified_at :: string
  ib_key_id :: string
  ib_payload :: "bytes option"
  ib_deleted :: int
  ib_received_at :: string
  ib_materialised_at :: "string option"

record outbox_row =
  ob_outbox_id :: int
  ob_table_name :: string
  ob_row_id :: string
  ob_revision :: int
  ob_actor :: string
  ob_modified_at :: string
  ob_key_id :: string
  ob_payload :: "bytes option"
  ob_deleted :: int
  ob_created_at :: string
  ob_pushed_at :: "string option"
  ob_assigned_event_id :: "int option"

record sync_state_row =
  ss_key :: string
  ss_value :: string
  ss_updated_at :: string

record batch =
  cb_id :: int
  cb_campaign_id :: int
  cb_batch_no :: int
  cb_size :: int
  cb_status :: string
  cb_window_start :: "string option"
  cb_window_end :: "string option"
  cb_loaded_at :: "string option"
  cb_drained_at :: "string option"
  cb_approve_unlock_at :: "string option"
  cb_approved_at :: "string option"
  cb_sent :: int
  cb_delivered :: int
  cb_opened :: int
  cb_clicked :: int
  cb_bounced :: int
  cb_complained :: int
  cb_unsub :: int
  cb_created_at :: string
  cb_dispatch_started_at :: "string option"

record stage =
  sg_id :: int
  sg_campaign_id :: int
  sg_stage_number :: int
  sg_template_id :: int
  sg_scheduled_for :: string
  sg_status :: string
  sg_dispatched_at :: "string option"
  sg_note :: "string option"
  sg_created_at :: string

record seed_address =
  sd_id :: int
  sd_email :: string
  sd_provider :: "string option"
  sd_active :: int
  sd_created_at :: string

record entity =
  en_id :: int
  en_name :: string
  en_domain :: string
  en_from_name :: string
  en_from_email :: string
  en_resend_key_enc :: "string option"
  en_created_at :: string
  en_updated_at :: string
  en_footer_address :: "string option"
  en_support_email :: "string option"
  en_public_host :: "string option"

record operator =
  op_id :: int
  op_email :: string
  op_password_hash :: string
  op_role :: string
  op_created_at :: string
  op_last_login_at :: "string option"
  op_active :: int

record setting_entry =
  st_key :: string
  st_value :: string
  st_is_secret :: int
  st_updated_at :: string
  st_updated_by :: string

record vault =
  v_contacts :: "contact list"
  v_templates :: "template list"
  v_campaigns :: "campaign list"
  v_recipients :: "recipient list"
  v_suppressions :: "suppression list"
  v_jobs :: "job list"
  v_drift :: "drift list"
  v_audit :: "audit_event list"
  v_inbox :: "inbox_row list"
  v_outbox :: "outbox_row list"
  v_sync_state :: "sync_state_row list"
  v_batches :: "batch list"
  v_stages :: "stage list"
  v_seeds :: "seed_address list"
  v_entities :: "entity list"
  v_operators :: "operator list"
  v_settings :: "setting_entry list"

definition empty_vault :: vault where
  "empty_vault =
     \<lparr>v_contacts = [], v_templates = [], v_campaigns = [], v_recipients = [], v_suppressions = [], v_jobs = [], v_drift = [],
      v_audit = [], v_inbox = [], v_outbox = [], v_sync_state = [], v_batches = [], v_stages = [], v_seeds = [], v_entities = [],
      v_operators = [], v_settings = []\<rparr>"

section \<open>Statements\<close>

text \<open>\<open>UPDATE ... SET f WHERE p\<close> and its row count; \<open>INSERT OR IGNORE\<close> against a key.\<close>

definition update_where :: "('r \<Rightarrow> bool) \<Rightarrow> ('r \<Rightarrow> 'r) \<Rightarrow> 'r list \<Rightarrow> 'r list" where
  "update_where p f rows = map (\<lambda>r. if p r then f r else r) rows"

definition rowcount :: "('r \<Rightarrow> bool) \<Rightarrow> 'r list \<Rightarrow> nat" where
  "rowcount p rows = length (filter p rows)"

definition insert_or_ignore :: "('r \<Rightarrow> 'k) \<Rightarrow> 'r \<Rightarrow> 'r list \<Rightarrow> 'r list" where
  "insert_or_ignore key r rows = (if key r \<in> key ` set rows then rows else rows @ [r])"

text \<open>The id an AUTOINCREMENT table without deletions draws.\<close>

definition next_row_id :: "('r \<Rightarrow> int) \<Rightarrow> 'r list \<Rightarrow> int" where
  "next_row_id rid rows = fold (\<lambda>r m. max (rid r) m) rows 0 + 1"

definition audit :: "crypto \<Rightarrow> string \<Rightarrow> string \<Rightarrow> string \<Rightarrow> string option \<Rightarrow> json \<Rightarrow> vault \<Rightarrow> vault" where
  "audit cr now actor action target details v =
     v\<lparr>v_audit := v_audit v @ [\<lparr>au_id = next_row_id au_id (v_audit v), au_occurred_at = now, au_actor = actor, au_action = action,
        au_target = target, au_details_json = Some (json_dumps cr details)\<rparr>]\<rparr>"

section \<open>The text of a time\<close>

text \<open>\<open>YYYY-MM-DD HH:MM:SS\<close>, as \<open>datetime('now')\<close> writes it.\<close>

definition sql_time :: "int \<Rightarrow> string" where
  "sql_time t = map (\<lambda>c. if c = CHR ''T'' then CHR '' '' else c) (butlast (iso t))"

section \<open>Lemmas\<close>

lemma set_update_where: "r \<in> set (update_where p f rows) \<longleftrightarrow> (\<exists>q\<in>set rows. r = (if p q then f q else q))"
  by (auto simp: update_where_def)

lemma length_update_where [simp]: "length (update_where p f rows) = length rows"
  by (simp add: update_where_def)

lemma map_update_where: "(\<And>r. g (f r) = g r) \<Longrightarrow> map g (update_where p f rows) = map g rows"
  by (simp add: update_where_def)

lemma set_insert_or_ignore:
  "set (insert_or_ignore key r rows) = (if key r \<in> key ` set rows then set rows else insert r (set rows))"
  by (auto simp: insert_or_ignore_def)

lemma distinct_insert_or_ignore: "distinct (map key rows) \<Longrightarrow> distinct (map key (insert_or_ignore key r rows))"
  by (auto simp: insert_or_ignore_def)

lemma update_where_nothing: "\<forall>r\<in>set rows. \<not> p r \<Longrightarrow> update_where p f rows = rows"
  by (simp add: update_where_def map_idI)

lemma find_unique:
  "distinct (map key rows) \<Longrightarrow> r \<in> set rows \<Longrightarrow> find (\<lambda>x. key x = key r) rows = Some r"
  by (induction rows) (auto simp: rev_image_eqI)

lemma find_update_where:
  "(\<And>r. key (f r) = key r) \<Longrightarrow>
   find (\<lambda>x. key x = k) (update_where p f rows) = map_option (\<lambda>r. if p r then f r else r) (find (\<lambda>x. key x = k) rows)"
  by (induction rows) (auto simp: update_where_def)

text \<open>Both texts of a time order as the time does.\<close>

lemma stamp_split:
  assumes "0 \<le> s" "s < 86400"
  shows "\<exists>d h. stamp y m k s = d @ CHR ''T'' # h @ ''Z'' \<and> (\<forall>c\<in>set d \<union> set h. c \<noteq> CHR ''T'') \<and> length h = 8"
proof -
  have dig: "c \<noteq> CHR ''T''" if "c \<in> set (pad w n)" for c w n
  proof -
    have "c \<in> digit ` {..<10}" using that set_dec [of n] by (auto simp: pad_def split: if_splits)
    then obtain i where "i < 10" "c = digit i" by auto
    then show ?thesis using of_char_digit [of i] by auto
  qed
  let ?h = "pad 2 (nat (s div 3600)) @ CHR '':'' # pad 2 (nat (s mod 3600 div 60)) @ CHR '':'' # pad 2 (nat (s mod 60))"
  let ?d = "pad 4 (nat y) @ CHR ''-'' # pad 2 (nat m) @ CHR ''-'' # pad 2 (nat k)"
  have "length ?h = 8"
    using length_pad2 [OF sec_bounds(2) [OF assms]] length_pad2 [OF sec_bounds(4) [OF assms]]
      length_pad2 [OF sec_bounds(6) [OF assms]] by (simp only: length_append list.size)
  moreover have "\<forall>c\<in>set ?d \<union> set ?h. c \<noteq> CHR ''T''" using dig by auto
  moreover have "stamp y m k s = ?d @ CHR ''T'' # ?h @ ''Z''" unfolding stamp_def by (simp only: append_assoc append_Cons)
  ultimately show ?thesis by blast
qed

lemma iso_split: "\<exists>d h. iso t = d @ CHR ''T'' # h @ ''Z'' \<and> sql_time t = d @ CHR '' '' # h \<and> length h = 8"
proof -
  obtain y k where yk: "year_day (t div 86400 + 719162) = (y, k)" by fastforce
  obtain m d where md: "month_day (month_lens y) 1 k = (m, d)" by fastforce
  obtain a h where ah: "stamp y m d (t mod 86400) = a @ CHR ''T'' # h @ ''Z''" "\<forall>c\<in>set a \<union> set h. c \<noteq> CHR ''T''" "length h = 8"
    using stamp_split [of "t mod 86400" y m d] by auto
  have i: "iso t = a @ CHR ''T'' # h @ ''Z''" using yk md ah(1) by (simp add: iso_def)
  have "butlast (iso t) = a @ CHR ''T'' # h" by (simp add: i butlast_append)
  moreover have "map (\<lambda>c. if c = CHR ''T'' then CHR '' '' else c) xs = xs" if "\<forall>c\<in>set xs. c \<noteq> CHR ''T''" for xs
    using that by (simp add: map_idI)
  ultimately have "sql_time t = a @ CHR '' '' # h" using ah(2) by (simp add: sql_time_def)
  with i ah(3) show ?thesis by blast
qed

lemma sql_time_less_iff:
  assumes "0 \<le> t" "t < max_time" "0 \<le> u" "u < max_time"
  shows "sql_time t < sql_time u \<longleftrightarrow> t < u"
proof -
  obtain d h where a: "iso t = d @ CHR ''T'' # h @ ''Z''" "sql_time t = d @ CHR '' '' # h" "length h = 8" using iso_split by blast
  obtain e k where b: "iso u = e @ CHR ''T'' # k @ ''Z''" "sql_time u = e @ CHR '' '' # k" "length k = 8" using iso_split by blast
  have l: "length d = length e" "length h = length k"
    using length_iso [OF assms(1,2)] length_iso [OF assms(3,4)] a b by simp_all
  have "t < u \<longleftrightarrow> iso t < iso u" using assms by (simp add: iso_less_iff)
  also have "\<dots> \<longleftrightarrow> d < e \<or> d = e \<and> (h < k \<or> h = k \<and> ''Z'' < ''Z'')"
    using l by (simp add: a(1) b(1) append_less_append_same_length)
  also have "\<dots> \<longleftrightarrow> sql_time t < sql_time u"
    using l by (simp add: a(2) b(2) append_less_append_same_length)
  finally show ?thesis by simp
qed

lemma sql_time_nonempty [simp]: "sql_time t \<noteq> []"
  using iso_split [of t] by auto

end
