(* ===== verification/Campaign_Lock.thy ===== *)
theory Campaign_Lock
  imports Terminal_Db
begin

text \<open>
  The per-day lock on contacts (terminal/campaign_lock.py). \<open>now\<close> is the text of
  \<open>datetime('now')\<close>; SQLite compares the stored times as text. The rows of the join come in the
  order of the recipients table.
\<close>

definition state_value :: "vault \<Rightarrow> string \<Rightarrow> string option" where
  "state_value v key = map_option ss_value (find (\<lambda>r. ss_key r = key) (v_sync_state v))"

definition last_pull_ok_at :: "vault \<Rightarrow> string" where
  "last_pull_ok_at v = opt_or (state_value v ''last_pull_ok_at'') []"

record lock_row =
  lk_campaign_id :: int
  lk_campaign_name :: string
  lk_free_at :: string

definition locking :: "string \<Rightarrow> campaign \<Rightarrow> recipient \<Rightarrow> bool" where
  "locking now c r \<longleftrightarrow>
     ca_id c = cr_campaign_id r \<and> ca_dispatched_at c \<noteq> None \<and> ca_unsubs_confirmed_at c = None \<and>
     (case ca_lock_until c of None \<Rightarrow> False | Some u \<Rightarrow> now < u) \<and> cr_clicked_at r = None"

definition lock_rows :: "string \<Rightarrow> vault \<Rightarrow> (int \<times> lock_row) list" where
  "lock_rows now v =
     concat (map (\<lambda>r. map (\<lambda>c. (cr_contact_id r, \<lparr>lk_campaign_id = ca_id c, lk_campaign_name = ca_name c,
                                  lk_free_at = (case ca_lock_until c of Some u \<Rightarrow> u | None \<Rightarrow> [])\<rparr>))
                    (filter (\<lambda>c. locking now c r) (v_campaigns v))) (v_recipients v))"

text \<open>\<open>setdefault\<close>: the first row of a contact stays.\<close>

definition locked_contacts :: "string \<Rightarrow> int option \<Rightarrow> vault \<Rightarrow> (int \<times> lock_row) list" where
  "locked_contacts now exclude v =
     fold (\<lambda>(cid, l) out. if exclude = Some (lk_campaign_id l) then out
                          else if map_of out cid = None then out @ [(cid, l)] else out) (lock_rows now v) []"

definition find_conflicts :: "string \<Rightarrow> int \<Rightarrow> int list \<Rightarrow> vault \<Rightarrow> (int \<times> lock_row) list" where
  "find_conflicts now campaign_id contact_ids v =
     (if contact_ids = [] then []
      else
        (let locked = locked_contacts now (Some campaign_id) v
         in List.map_filter (\<lambda>cid. map_option (Pair cid) (map_of locked cid)) contact_ids))"

text \<open>The campaigns the confirmer selects, and those it confirms.\<close>

definition lock_elapsed :: "string \<Rightarrow> campaign \<Rightarrow> bool" where
  "lock_elapsed now c \<longleftrightarrow>
     ca_dispatched_at c \<noteq> None \<and> ca_unsubs_confirmed_at c = None \<and>
     (case ca_lock_until c of None \<Rightarrow> False | Some u \<Rightarrow> u \<le> now)"

definition confirmable :: "string \<Rightarrow> vault \<Rightarrow> campaign \<Rightarrow> bool" where
  "confirmable now v c \<longleftrightarrow>
     lock_elapsed now c \<and> \<not> (last_pull_ok_at v = [] \<or> last_pull_ok_at v \<le> opt_or (ca_dispatched_at c) [])"

definition confirm_elapsed_locks :: "string \<Rightarrow> vault \<Rightarrow> vault \<times> nat" where
  "confirm_elapsed_locks now v =
     (let confirmed = map ca_id (filter (confirmable now v) (v_campaigns v))
      in (v\<lparr>v_campaigns := update_where (\<lambda>c. ca_id c \<in> set confirmed) (\<lambda>c. c\<lparr>ca_unsubs_confirmed_at := Some now\<rparr>) (v_campaigns v)\<rparr>,
          length confirmed))"

section \<open>Lemmas\<close>

lemma lock_rows_iff:
  "(cid, l) \<in> set (lock_rows now v) \<longleftrightarrow>
     (\<exists>r\<in>set (v_recipients v). \<exists>c\<in>set (v_campaigns v). locking now c r \<and> cid = cr_contact_id r \<and>
        l = \<lparr>lk_campaign_id = ca_id c, lk_campaign_name = ca_name c, lk_free_at = (case ca_lock_until c of Some u \<Rightarrow> u | None \<Rightarrow> [])\<rparr>)"
  by (auto simp: lock_rows_def)

lemma fold_setdefault:
  "map_of (fold (\<lambda>(cid, l) out. if exclude = Some (lk_campaign_id l) then out
      else if map_of out cid = None then out @ [(cid, l)] else out) rows acc) k =
     (case map_of acc k of Some l \<Rightarrow> Some l | None \<Rightarrow> map_of (filter (\<lambda>(cid, l). exclude \<noteq> Some (lk_campaign_id l)) rows) k)"
proof (induction rows arbitrary: acc)
  case (Cons row rows)
  obtain cid l where [simp]: "row = (cid, l)" by fastforce
  consider "exclude = Some (lk_campaign_id l)" | "exclude \<noteq> Some (lk_campaign_id l)" "map_of acc cid = None"
    | x where "exclude \<noteq> Some (lk_campaign_id l)" "map_of acc cid = Some x" by fastforce
  then show ?case
  proof cases
    case 1
    then show ?thesis using Cons [of acc] by (auto split: option.splits)
  next
    case 2
    with Cons [of "acc @ [(cid, l)]"] show ?thesis by (auto simp: map_add_def split: option.splits)
  next
    case 3
    with Cons [of acc] show ?thesis by (auto split: option.splits)
  qed
qed (simp split: option.splits)

lemma locked_contacts_get:
  "map_of (locked_contacts now exclude v) k = map_of (filter (\<lambda>(cid, l). exclude \<noteq> Some (lk_campaign_id l)) (lock_rows now v)) k"
  by (simp add: locked_contacts_def fold_setdefault)

lemma set_map_filter_iff: "y \<in> set (List.map_filter f xs) \<longleftrightarrow> (\<exists>x\<in>set xs. f x = Some y)"
  by (induction xs) (auto simp: List.map_filter_simps split: option.splits)

lemma find_conflicts_iff:
  "(cid, l) \<in> set (find_conflicts now campaign_id contact_ids v) \<longleftrightarrow>
     cid \<in> set contact_ids \<and> map_of (locked_contacts now (Some campaign_id) v) cid = Some l"
  by (auto simp: find_conflicts_def Let_def set_map_filter_iff)

section \<open>Properties\<close>


text \<open>The lock ends with its window whether or not an unsubscribe pull has completed since the dispatch: at and
  after \<open>lock_until\<close> a campaign conflicts with no launch, confirmed or not.\<close>

theorem lock_ends_without_pull:
  assumes "\<forall>c\<in>set (v_campaigns v). ca_lock_until c = None \<or> (\<exists>u. ca_lock_until c = Some u \<and> u \<le> now)"
  shows "find_conflicts now campaign_id contact_ids v = []"
proof -
  have "\<not> locking now c r" if "c \<in> set (v_campaigns v)" for c r
    using assms that by (fastforce simp: locking_def split: option.splits)
  then have "map_of (locked_contacts now (Some campaign_id) v) k = None" for k
    unfolding locked_contacts_get by (auto simp: map_of_eq_None_iff lock_rows_iff)
  then show ?thesis by (simp add: find_conflicts_def Let_def map_filter_def)
qed

text \<open>The confirmer confirms exactly the dispatched campaigns whose window has elapsed and after whose dispatch an
  unsubscribe pull completed, stamps them with the time, leaves every other campaign as it is
  and finds nothing more to confirm.\<close>

theorem confirm_needs_pull:
  assumes "distinct (map ca_id (v_campaigns v))"
  shows "v_campaigns (fst (confirm_elapsed_locks now v)) =
       map (\<lambda>c. if confirmable now v c then c\<lparr>ca_unsubs_confirmed_at := Some now\<rparr> else c) (v_campaigns v) \<and>
     snd (confirm_elapsed_locks now (fst (confirm_elapsed_locks now v))) = 0"
proof -
  have inj: "inj_on ca_id (set (v_campaigns v))" using assms by (simp add: distinct_map)
  have sel: "ca_id c \<in> set (map ca_id (filter (confirmable now v) (v_campaigns v))) \<longleftrightarrow> confirmable now v c" if "c \<in> set (v_campaigns v)" for c
  proof
    assume "ca_id c \<in> set (map ca_id (filter (confirmable now v) (v_campaigns v)))"
    then obtain d where "d \<in> set (v_campaigns v)" "confirmable now v d" "ca_id c = ca_id d" by auto
    with inj that show "confirmable now v c" by (metis inj_onD)
  qed (use that in auto)
  then have 1: "v_campaigns (fst (confirm_elapsed_locks now v)) =
       map (\<lambda>c. if confirmable now v c then c\<lparr>ca_unsubs_confirmed_at := Some now\<rparr> else c) (v_campaigns v)"
    unfolding confirm_elapsed_locks_def Let_def update_where_def by (auto intro!: map_cong)
  have "last_pull_ok_at (fst (confirm_elapsed_locks now v)) = last_pull_ok_at v"
    by (simp add: confirm_elapsed_locks_def Let_def last_pull_ok_at_def state_value_def)
  then have "\<not> confirmable now (fst (confirm_elapsed_locks now v)) c" if "c \<in> set (v_campaigns (fst (confirm_elapsed_locks now v)))" for c
    using that unfolding 1 by (auto simp: confirmable_def lock_elapsed_def split: if_splits)
  then have "filter (confirmable now (fst (confirm_elapsed_locks now v))) (v_campaigns (fst (confirm_elapsed_locks now v))) = []"
    by (simp add: filter_empty_conv)
  then have "snd (confirm_elapsed_locks now (fst (confirm_elapsed_locks now v))) = 0"
    by (simp add: confirm_elapsed_locks_def Let_def)
  with 1 show ?thesis by blast
qed

definition demo_campaign :: "int \<Rightarrow> campaign" where
  "demo_campaign i =
     \<lparr>ca_id = i, ca_name = ''spring'', ca_template_id = 1, ca_kind = ''promotional'', ca_entity_id = None, ca_status = ''dispatched'',
      ca_test_sent_at = Some ''t'', ca_template_hash_at_test = Some ''h'', ca_scheduled_for = None, ca_dispatched_at = Some (sql_time 100),
      ca_sent_at = None, ca_recipient_count = 1, ca_created_at = ''c'', ca_updated_at = ''u'', ca_rate_limit_per_min = None,
      ca_bounce_pause_pct = None, ca_human_send = 0, ca_human_send_min_s = 60, ca_human_send_max_s = 210, ca_human_send_count = 1,
      ca_lock_until = Some (sql_time 86500), ca_unsubs_confirmed_at = None, ca_lock_duration_s = 86400, ca_relaunch_gen = 0,
      ca_relaunch_open = 0, ca_relaunch_seq = 0\<rparr>"

theorem lock_ends_without_pull_witness:
  "v_sync_state (empty_vault\<lparr>v_campaigns := [demo_campaign 1]\<rparr>) = [] \<and>
   find_conflicts (sql_time 86500) 2 [7] (empty_vault\<lparr>v_campaigns := [demo_campaign 1]\<rparr>) = []"
  using lock_ends_without_pull [of "empty_vault\<lparr>v_campaigns := [demo_campaign 1]\<rparr>" "sql_time 86500" 2 "[7]"]
  by (simp add: demo_campaign_def empty_vault_def)

theorem confirm_needs_pull_witness:
  "map ca_unsubs_confirmed_at (v_campaigns (fst (confirm_elapsed_locks ''9''
     (empty_vault\<lparr>v_campaigns := [demo_campaign 1\<lparr>ca_dispatched_at := Some ''3'', ca_lock_until := Some ''5''\<rparr>],
        v_sync_state := [\<lparr>ss_key = ''last_pull_ok_at'', ss_value = ''4'', ss_updated_at = ''4''\<rparr>]\<rparr>)))) = [Some ''9'']"
proof -
  let ?v = "empty_vault\<lparr>v_campaigns := [demo_campaign 1\<lparr>ca_dispatched_at := Some ''3'', ca_lock_until := Some ''5''\<rparr>],
        v_sync_state := [\<lparr>ss_key = ''last_pull_ok_at'', ss_value = ''4'', ss_updated_at = ''4''\<rparr>]\<rparr>"
  have "distinct (map ca_id (v_campaigns ?v))" by simp
  moreover have "CHR ''3'' < CHR ''4''" "CHR ''5'' < CHR ''9''" by (simp_all add: less_char_def)
  then have "confirmable ''9'' ?v (demo_campaign 1\<lparr>ca_dispatched_at := Some ''3'', ca_lock_until := Some ''5''\<rparr>)"
    by (simp add: confirmable_def lock_elapsed_def last_pull_ok_at_def state_value_def opt_or_def py_or_def demo_campaign_def not_le)
  ultimately show ?thesis using confirm_needs_pull [of ?v "''9''"] by (simp only:) simp
qed

end
