(* ===== verification/Terminal_Settings.thy ===== *)
theory Terminal_Settings
  imports Terminal_Db Settings_Core
begin

text \<open>
  The terminal settings (terminal/settings.py over the settings table) and their endpoints
  (terminal/settings_api.py). Reads always go to the table; the cache serves the listing only.
\<close>

definition t_secret_keys :: "string list" where
  "t_secret_keys = [''admin_password_hash'', ''jwt_secret'', ''unsub_secret'', ''erasure_secret'', ''resend_api_key'']"

definition t_env_migrate :: "(string \<times> string) list" where
  "t_env_migrate =
     [(''admin_email'', ''ADMIN_EMAIL''), (''admin_password_hash'', ''ADMIN_PASSWORD_HASH''), (''jwt_secret'', ''JWT_SECRET''),
      (''session_ttl_s'', ''SESSION_TTL_S''), (''email_from'', ''EMAIL_FROM''), (''email_footer_address'', ''EMAIL_FOOTER_ADDRESS''),
      (''entity_name'', ''COMPANY_NAME''), (''support_email'', ''SUPPORT_EMAIL''), (''public_host'', ''PUBLIC_HOST''),
      (''unsub_secret'', ''UNSUB_SECRET''), (''erasure_secret'', ''ERASURE_SECRET''), (''default_k_temp_ttl_s'', ''DEFAULT_K_TEMP_TTL_S''),
      (''unsub_token_ttl_s'', ''UNSUB_TOKEN_TTL_S''), (''erasure_token_ttl_s'', ''ERASURE_TOKEN_TTL_S''), (''resend_api_key'', ''RESEND_API_KEY'')]"

definition t_is_secret :: "string \<Rightarrow> bool" where
  "t_is_secret key \<longleftrightarrow> key \<in> set t_secret_keys"

section \<open>The table\<close>

definition setting_row :: "vault \<Rightarrow> string \<Rightarrow> setting_entry option" where
  "setting_row v key = find (\<lambda>r. st_key r = key) (v_settings v)"

text \<open>\<open>INSERT ... ON CONFLICT DO UPDATE\<close>.\<close>

definition upsert_row :: "string \<Rightarrow> string \<Rightarrow> string \<Rightarrow> int \<Rightarrow> string \<Rightarrow> vault \<Rightarrow> vault" where
  "upsert_row now key val secret_flag updated_by v =
     v\<lparr>v_settings :=
        (if setting_row v key = None then
           v_settings v @ [\<lparr>st_key = key, st_value = val, st_is_secret = secret_flag, st_updated_at = now, st_updated_by = updated_by\<rparr>]
         else update_where (\<lambda>r. st_key r = key)
                (\<lambda>r. r\<lparr>st_value := val, st_is_secret := secret_flag, st_updated_at := now, st_updated_by := updated_by\<rparr>) (v_settings v))\<rparr>"

definition delete_row :: "string \<Rightarrow> vault \<Rightarrow> vault" where
  "delete_row key v = v\<lparr>v_settings := filter (\<lambda>r. st_key r \<noteq> key) (v_settings v)\<rparr>"

section \<open>Operations\<close>

definition t_load_plain_cache :: "vault \<Rightarrow> settings_mem \<Rightarrow> settings_mem" where
  "t_load_plain_cache v m =
     m\<lparr>sm_plain_cache := fold (\<lambda>r c. if st_is_secret r \<noteq> 0 then c else AList.update (st_key r) (st_value r) c) (v_settings v) [],
       sm_cache_loaded := True\<rparr>"

definition t_settings_get ::
  "settings_env \<Rightarrow> vault \<Rightarrow> string \<Rightarrow> string option \<Rightarrow> settings_mem \<Rightarrow> settings_mem \<times> string option" where
  "t_settings_get ev v key d m =
     (case setting_row v key of
        Some row \<Rightarrow>
          if t_is_secret key then
            (case settings_decrypt ev (st_value row) m of
               (m1, Inr p) \<Rightarrow> (m1, Some p)
             | (m1, Inl e) \<Rightarrow> (m1, d))
          else (m, Some (st_value row))
      | None \<Rightarrow> (m, env_fallback ev t_env_migrate key d))"

definition t_settings_get_int :: "settings_env \<Rightarrow> vault \<Rightarrow> string \<Rightarrow> int \<Rightarrow> settings_mem \<Rightarrow> settings_mem \<times> int" where
  "t_settings_get_int ev v key d m =
     (case t_settings_get ev v key None m of (m1, r) \<Rightarrow> (m1, int_or r d))"

type_synonym t_state = "vault \<times> settings_mem"

definition t_settings_set ::
  "settings_env \<Rightarrow> string \<Rightarrow> string \<Rightarrow> string \<Rightarrow> string \<Rightarrow> t_state \<Rightarrow> t_state \<times> (exc + unit)" where
  "t_settings_set ev now key val updated_by st =
     (case st of (v, m) \<Rightarrow>
      if t_is_secret key then
        (case settings_encrypt ev val m of
           (m1, Inl e) \<Rightarrow> ((v, m1), Inl e)
         | (m1, Inr stored) \<Rightarrow> ((upsert_row now key stored 1 updated_by v, m1), Inr ()))
      else
        ((upsert_row now key val 0 updated_by v, m\<lparr>sm_plain_cache := AList.update key val (sm_plain_cache m)\<rparr>), Inr ()))"

definition t_settings_delete :: "string \<Rightarrow> t_state \<Rightarrow> t_state" where
  "t_settings_delete key st =
     (case st of (v, m) \<Rightarrow> (delete_row key v, m\<lparr>sm_plain_cache := AList.delete key (sm_plain_cache m)\<rparr>))"

fun t_reveal_each ::
  "settings_env \<Rightarrow> vault \<Rightarrow> bool \<Rightarrow> string list \<Rightarrow> settings_mem \<Rightarrow> (string \<times> string) list \<Rightarrow> settings_mem \<times> (string \<times> string) list" where
  "t_reveal_each ev v redact [] m out = (m, out)"
| "t_reveal_each ev v redact (k # ks) m out =
     (if redact then t_reveal_each ev v redact ks m (AList.update k ''<encrypted>'' out)
      else (case t_settings_get ev v k None m of
              (m1, r) \<Rightarrow> t_reveal_each ev v redact ks m1 (AList.update k (opt_or r []) out)))"

definition t_settings_get_all :: "settings_env \<Rightarrow> vault \<Rightarrow> bool \<Rightarrow> settings_mem \<Rightarrow> settings_mem \<times> (string \<times> string) list" where
  "t_settings_get_all ev v redact m =
     (let m1 = (if sm_cache_loaded m then m else t_load_plain_cache v m)
      in t_reveal_each ev v redact (map st_key (filter (\<lambda>r. st_is_secret r = 1) (v_settings v))) m1 (sm_plain_cache m1))"

fun t_migrate_each ::
  "settings_env \<Rightarrow> (string \<Rightarrow> bytes) \<Rightarrow> string \<Rightarrow> (string \<times> string) list \<Rightarrow> t_state \<Rightarrow> (string \<times> string) list \<Rightarrow>
     t_state \<times> (exc + (string \<times> string) list)" where
  "t_migrate_each ev nonce_of now [] st migrated = (st, Inr migrated)"
| "t_migrate_each ev nonce_of now ((key, env_name) # r) st migrated =
     (if setting_row (fst st) key \<noteq> None then t_migrate_each ev nonce_of now r st migrated
      else
        (case environ_get ev env_name None of
           None \<Rightarrow> t_migrate_each ev nonce_of now r st migrated
         | Some s \<Rightarrow>
             if s = [] then t_migrate_each ev nonce_of now r st migrated
             else
               (case t_settings_set (ev\<lparr>ev_nonce := nonce_of key\<rparr>) now key s ''system:env-migration'' st of
                  (st1, Inl e) \<Rightarrow> (st1, Inl e)
                | (st1, Inr u) \<Rightarrow> t_migrate_each ev nonce_of now r st1 (migrated @ [(key, env_name)]))))"

definition t_migrate_from_env ::
  "settings_env \<Rightarrow> (string \<Rightarrow> bytes) \<Rightarrow> string \<Rightarrow> t_state \<Rightarrow> t_state \<times> (exc + (string \<times> string) list)" where
  "t_migrate_from_env ev nonce_of now st =
     (case load_kek ev (if sm_cache_loaded (snd st) then snd st else t_load_plain_cache (fst st) (snd st)) of
        (m1, Inl e) \<Rightarrow> ((fst st, m1), Inl e)
      | (m1, Inr kek) \<Rightarrow> t_migrate_each ev nonce_of now t_env_migrate (fst st, m1) [])"

section \<open>Endpoints\<close>

definition t_api_list_settings :: "settings_env \<Rightarrow> t_state \<Rightarrow> settings_mem \<times> ((string \<times> string) list \<times> string list)" where
  "t_api_list_settings ev st =
     (case t_settings_get_all ev (fst st) True (snd st) of (m, out) \<Rightarrow> (m, (out, sort t_secret_keys)))"

text \<open>The key, whether it is a secret, and the shown value.\<close>

definition t_api_get_setting :: "settings_env \<Rightarrow> string \<Rightarrow> t_state \<Rightarrow> settings_mem \<times> (string \<times> bool \<times> string option)" where
  "t_api_get_setting ev key st =
     (if t_is_secret key then
        (snd st, (key, True,
           if (\<exists>r\<in>set (v_settings (fst st)). st_key r = key \<and> st_is_secret r = 1) then Some ''<encrypted>'' else None))
      else (case t_settings_get ev (fst st) key None (snd st) of (m, r) \<Rightarrow> (m, (key, False, r))))"

definition t_api_reveal_setting :: "settings_env \<Rightarrow> string \<Rightarrow> t_state \<Rightarrow> settings_mem \<times> (string \<times> bool \<times> string option)" where
  "t_api_reveal_setting ev key st =
     (case t_settings_get ev (fst st) key None (snd st) of (m, r) \<Rightarrow> (m, (key, t_is_secret key, r)))"

definition t_api_upsert_setting ::
  "settings_env \<Rightarrow> string \<Rightarrow> string \<Rightarrow> string \<Rightarrow> string \<Rightarrow> t_state \<Rightarrow> t_state \<times> (exc + (string \<times> bool))" where
  "t_api_upsert_setting ev now sub key val st =
     (case t_settings_set ev now key val (''operator:'' @ sub) st of
        (st1, Inl e) \<Rightarrow> (st1, Inl e)
      | (st1, Inr u) \<Rightarrow> (st1, Inr (key, t_is_secret key)))"

definition t_api_delete_setting :: "string \<Rightarrow> t_state \<Rightarrow> t_state \<times> string" where
  "t_api_delete_setting key st = (t_settings_delete key st, key)"

section \<open>The table is a settings store\<close>

lemma setting_row_upsert:
  "map_option (\<lambda>r. (st_value r, st_is_secret r)) (setting_row (upsert_row now k val sec u v) k') =
     (if k' = k then Some (val, sec) else map_option (\<lambda>r. (st_value r, st_is_secret r)) (setting_row v k'))"
proof (cases "setting_row v k")
  case None
  then have "setting_row (upsert_row now k val sec u v) k' =
      (case setting_row v k' of Some x \<Rightarrow> Some x
       | None \<Rightarrow> if k' = k then Some \<lparr>st_key = k, st_value = val, st_is_secret = sec, st_updated_at = now, st_updated_by = u\<rparr> else None)"
    by (simp add: setting_row_def upsert_row_def find_append split: option.splits)
  with None show ?thesis by (auto split: option.splits)
next
  case (Some r)
  let ?f = "\<lambda>r. r\<lparr>st_value := val, st_is_secret := sec, st_updated_at := now, st_updated_by := u\<rparr>"
  have "setting_row (upsert_row now k val sec u v) k' = map_option (\<lambda>r. if st_key r = k then ?f r else r) (setting_row v k')"
    using Some find_update_where [of st_key ?f k' "\<lambda>r. st_key r = k" "v_settings v"]
    by (simp add: setting_row_def upsert_row_def)
  moreover have "setting_row v k' = Some q \<Longrightarrow> st_key q = k'" for q
    by (auto simp: setting_row_def find_Some_iff)
  ultimately show ?thesis using Some by (cases "setting_row v k'") auto
qed

lemma setting_row_delete: "setting_row (delete_row k v) k' = (if k' = k then None else setting_row v k')"
proof -
  have "find (\<lambda>r. st_key r = k') (filter (\<lambda>r. st_key r \<noteq> k) rs) = (if k' = k then None else find (\<lambda>r. st_key r = k') rs)" for rs :: "setting_entry list"
    by (induction rs) auto
  then show ?thesis by (simp add: setting_row_def delete_row_def)
qed

interpretation sqlite_settings: settings_store
    "\<lambda>v k. map_option (\<lambda>r. (st_value r, st_is_secret r)) (setting_row v k)"
    "\<lambda>k (now, val, sec, u). upsert_row now k val sec u" delete_row "\<lambda>k (now, val, sec, u). (val, sec)"
  proof unfold_locales
  fix k k' :: string and w :: "string \<times> string \<times> int \<times> string" and v :: vault
  obtain now val sec u where [simp]: "w = (now, val, sec, u)" by (cases w)
  show "map_option (\<lambda>r. (st_value r, st_is_secret r)) (setting_row ((case w of (now, val, sec, u) \<Rightarrow> upsert_row now k val sec u) v) k') =
      (if k' = k then Some (case w of (now, val, sec, u) \<Rightarrow> (val, sec))
       else map_option (\<lambda>r. (st_value r, st_is_secret r)) (setting_row v k'))"
    by (simp only: \<open>w = _\<close> prod.case setting_row_upsert)
qed (simp add: setting_row_delete)

lemma t_get_plain:
  "\<not> t_is_secret key \<Longrightarrow> snd (t_settings_get ev v key d m) =
     (case setting_row v key of Some r \<Rightarrow> Some (st_value r) | None \<Rightarrow> env_fallback ev t_env_migrate key d)"
  by (simp add: t_settings_get_def split: option.splits)

end
