(* ===== verification/Email_Clean.thy ===== *)
theory Email_Clean
  imports Py_Text
begin

text \<open>
  The cleaning of imported addresses (terminal/email_clean.py). The regular expression is a
  recogniser, and the language it accepts is given as grammar rules beside it. Case and
  whitespace are those of ASCII. The answers of the resolver are arguments.
\<close>

section \<open>The syntax\<close>

definition is_lower :: "char \<Rightarrow> bool" where
  "is_lower c \<longleftrightarrow> (let n = (of_char c :: nat) in 97 \<le> n \<and> n \<le> 122)"

definition is_digit :: "char \<Rightarrow> bool" where
  "is_digit c \<longleftrightarrow> (let n = (of_char c :: nat) in 48 \<le> n \<and> n \<le> 57)"

definition alnum :: "char \<Rightarrow> bool" where
  "alnum c \<longleftrightarrow> is_lower c \<or> is_digit c"

definition atext :: "char \<Rightarrow> bool" where
  "atext c \<longleftrightarrow> alnum c \<or> c \<in> set (''!#$%&'' @ CHR 0x27 # ''*+/=?^_`{|}~-'')"

definition atom :: "string \<Rightarrow> bool" where
  "atom s \<longleftrightarrow> s \<noteq> [] \<and> (\<forall>c\<in>set s. atext c)"

definition label :: "string \<Rightarrow> bool" where
  "label s \<longleftrightarrow> s \<noteq> [] \<and> length s \<le> 63 \<and> alnum (hd s) \<and> alnum (last s) \<and> (\<forall>c\<in>set s. alnum c \<or> c = CHR ''-'')"

definition tld :: "string \<Rightarrow> bool" where
  "tld s \<longleftrightarrow> 2 \<le> length s \<and> (\<forall>c\<in>set s. is_lower c)"

definition local_re :: "string \<Rightarrow> bool" where
  "local_re s \<longleftrightarrow> (\<forall>a\<in>set (split_on CHR ''.'' s). atom a)"

definition domain_re :: "string \<Rightarrow> bool" where
  "domain_re s \<longleftrightarrow> (let ps = split_on CHR ''.'' s in 2 \<le> length ps \<and> (\<forall>l\<in>set (butlast ps). label l) \<and> tld (last ps))"

text \<open>\<open>$\<close> also matches before a newline at the end of the text.\<close>

definition email_re :: "string \<Rightarrow> bool" where
  "email_re s \<longleftrightarrow>
     (let body = (if s \<noteq> [] \<and> last s = CHR 0x0A then butlast s else s) in
      case partition_at CHR ''@'' body of (l, f, d) \<Rightarrow> f \<and> local_re l \<and> domain_re d)"

definition role_localparts :: "string list" where
  "role_localparts =
     [''info'', ''admin'', ''administrator'', ''support'', ''sales'', ''contact'', ''hello'', ''help'', ''office'', ''enquiries'', ''inquiries'',
      ''noreply'', ''no-reply'', ''donotreply'', ''postmaster'', ''abuse'', ''webmaster'', ''hostmaster'', ''marketing'', ''team'', ''mail'',
      ''billing'', ''accounts'', ''careers'', ''jobs'', ''hr'', ''press'', ''media'', ''legal'', ''privacy'', ''security'', ''root'']"

definition disposable_domains :: "string list" where
  "disposable_domains =
     [''mailinator.com'', ''guerrillamail.com'', ''10minutemail.com'', ''tempmail.com'', ''throwawaymail.com'', ''yopmail.com'',
      ''trashmail.com'', ''getnada.com'', ''sharklasers.com'', ''maildrop.cc'', ''dispostable.com'', ''fakeinbox.com'', ''temp-mail.org'']"

text \<open>The text the expression is matched against.\<close>

definition normal :: "string \<Rightarrow> string" where
  "normal raw = strip_chars (''<> '' @ [CHR 0x09]) (removeprefix ''mailto:'' (lower (strip raw)))"

text \<open>\<open>Inr\<close> is the address, \<open>Inl\<close> the reason it is dropped.\<close>

definition clean_email :: "string \<Rightarrow> string + string" where
  "clean_email raw =
     (if raw = [] then Inl ''empty''
      else
        (let email = normal raw in
         if \<not> email_re email then Inl ''bad_syntax''
         else
           (case partition_at CHR ''@'' email of
              (l, f, d) \<Rightarrow>
                if l \<in> set role_localparts then Inl ''role_account''
                else if d \<in> set disposable_domains then Inl ''disposable_domain''
                else Inr email)))"

section \<open>Batches\<close>

text \<open>One resolution: the answers, the two negative results, any other failure, or no resolver.\<close>

datatype dns = Answers nat | NoRecord | DnsFailure | NoResolver

definition has_mx ::
  "(string \<Rightarrow> dns) \<Rightarrow> (string \<Rightarrow> dns) \<Rightarrow> string \<Rightarrow> (string \<times> bool option) list \<Rightarrow> bool option \<times> (string \<times> bool option) list" where
  "has_mx mx a domain cache =
     (case map_of cache domain of
        Some r \<Rightarrow> (r, cache)
      | None \<Rightarrow>
          (let r = (case mx domain of
                      Answers n \<Rightarrow> Some (0 < n)
                    | NoRecord \<Rightarrow> Some (case a domain of Answers n \<Rightarrow> True | _ \<Rightarrow> False)
                    | _ \<Rightarrow> None)
           in (r, AList.update domain r cache)))"

record cleaned =
  cl_clean :: "string list"
  cl_dropped :: "(string \<times> string) list"
  cl_seen :: "string list"
  cl_stats :: "(string \<times> nat) list"
  cl_mx_cache :: "(string \<times> bool option) list"

definition stat :: "(string \<times> nat) list \<Rightarrow> string \<Rightarrow> nat" where
  "stat m k = (case map_of m k of Some n \<Rightarrow> n | None \<Rightarrow> 0)"

definition drop_email :: "string \<Rightarrow> string \<Rightarrow> cleaned \<Rightarrow> cleaned" where
  "drop_email email reason st =
     st\<lparr>cl_dropped := cl_dropped st @ [(email, reason)], cl_stats := AList.update reason (stat (cl_stats st) reason + 1) (cl_stats st)\<rparr>"

definition domain_of :: "string \<Rightarrow> string" where
  "domain_of email = split_on CHR ''@'' email ! 1"

definition clean_row :: "(string \<Rightarrow> dns) \<Rightarrow> (string \<Rightarrow> dns) \<Rightarrow> bool \<Rightarrow> string option \<Rightarrow> cleaned \<Rightarrow> cleaned" where
  "clean_row mx a check_mx raw st =
     (case clean_email (opt_or raw []) of
        Inl reason \<Rightarrow> drop_email (lower (strip (opt_or raw []))) reason st
      | Inr email \<Rightarrow>
          if email \<in> set (cl_seen st) then drop_email email ''duplicate'' st
          else
            (let st1 = st\<lparr>cl_seen := email # cl_seen st\<rparr> in
             if \<not> check_mx then st1\<lparr>cl_clean := cl_clean st1 @ [email]\<rparr>
             else
               (case has_mx mx a (domain_of email) (cl_mx_cache st1) of
                  (r, cache) \<Rightarrow>
                    let st2 = st1\<lparr>cl_mx_cache := cache\<rparr> in
                    if r = Some False then drop_email email ''no_mx'' st2
                    else st2\<lparr>cl_clean := cl_clean st2 @ [email]\<rparr>)))"

definition no_rows :: cleaned where
  "no_rows = \<lparr>cl_clean = [], cl_dropped = [], cl_seen = [], cl_stats = [], cl_mx_cache = []\<rparr>"

definition clean_rows :: "(string \<Rightarrow> dns) \<Rightarrow> (string \<Rightarrow> dns) \<Rightarrow> bool \<Rightarrow> string option list \<Rightarrow> cleaned" where
  "clean_rows mx a check_mx emails =
     (let st = fold (clean_row mx a check_mx) emails no_rows
      in st\<lparr>cl_stats := AList.update ''total_in'' (length emails) (AList.update ''clean'' (length (cl_clean st)) (cl_stats st))\<rparr>)"

section \<open>The language\<close>

text \<open>The expression as a grammar: \<open>atom ("." atom)*\<close> and \<open>(label ".")+ tld\<close>.\<close>

inductive local_lang :: "string \<Rightarrow> bool" where
  one: "atom a \<Longrightarrow> local_lang a"
| more: "atom a \<Longrightarrow> local_lang l \<Longrightarrow> local_lang (a @ CHR ''.'' # l)"

inductive domain_lang :: "string \<Rightarrow> bool" where
  last: "label l \<Longrightarrow> tld t \<Longrightarrow> domain_lang (l @ CHR ''.'' # t)"
| sub: "label l \<Longrightarrow> domain_lang d \<Longrightarrow> domain_lang (l @ CHR ''.'' # d)"

definition email_lang :: "string \<Rightarrow> bool" where
  "email_lang s \<longleftrightarrow> (\<exists>l d. s = l @ CHR ''@'' # d \<and> local_lang l \<and> domain_lang d)"

lemma of_char_cases: "(of_char c :: nat) = n \<Longrightarrow> c = char_of n"
  by (metis char_of_char)

lemma special_atext: "\<not> atext CHR ''.''" "\<not> atext CHR ''@''" "\<not> atext CHR 0x0A"
  by (simp_all add: atext_def alnum_def is_lower_def is_digit_def)

lemma special_alnum: "\<not> alnum CHR ''.''" "\<not> alnum CHR ''@''" "\<not> alnum CHR 0x0A"
  by (simp_all add: alnum_def is_lower_def is_digit_def)

lemma special_lower: "\<not> is_lower CHR ''.''" "\<not> is_lower CHR ''@''" "\<not> is_lower CHR 0x0A"
  by (simp_all add: is_lower_def)

lemma atom_no: "atom a \<Longrightarrow> CHR ''.'' \<notin> set a \<and> CHR ''@'' \<notin> set a \<and> CHR 0x0A \<notin> set a"
  using special_atext by (auto simp: atom_def)

lemma label_no: "label a \<Longrightarrow> CHR ''.'' \<notin> set a \<and> CHR ''@'' \<notin> set a \<and> CHR 0x0A \<notin> set a"
  using special_alnum by (auto simp: label_def)

lemma tld_no: "tld a \<Longrightarrow> CHR ''.'' \<notin> set a \<and> CHR ''@'' \<notin> set a \<and> CHR 0x0A \<notin> set a"
  using special_lower by (auto simp: tld_def)

lemma split_on_none: "c \<notin> set s \<Longrightarrow> split_on c s = [s]"
  by (induction s) auto

lemma split_on_sep: "c \<notin> set a \<Longrightarrow> split_on c (a @ c # s) = a # split_on c s"
  by (induction a) auto

lemma split_on_cases:
  obtains "c \<notin> set s" | a r where "s = a @ c # r" "c \<notin> set a"
  by (meson split_list_first)

lemma local_re_iff: "local_re s \<longleftrightarrow> local_lang s"
proof
  assume "local_re s"
  then show "local_lang s"
  proof (induction "length s" arbitrary: s rule: less_induct)
    case less
    show ?case
    proof (cases rule: split_on_cases [of "CHR ''.''" s])
      case 1
      with less.prems show ?thesis by (simp add: local_re_def split_on_none local_lang.one)
    next
      case (2 a r)
      with less.prems have "atom a" "local_re r" by (auto simp: local_re_def split_on_sep)
      with less.hyps [of r] 2 show ?thesis by (simp add: local_lang.more)
    qed
  qed
next
  assume "local_lang s"
  then show "local_re s"
    by induction (use atom_no in \<open>auto simp: local_re_def split_on_none split_on_sep\<close>)
qed

lemma domain_re_iff: "domain_re s \<longleftrightarrow> domain_lang s"
proof
  assume "domain_re s"
  then show "domain_lang s"
  proof (induction "length s" arbitrary: s rule: less_induct)
    case less
    show ?case
    proof (cases rule: split_on_cases [of "CHR ''.''" s])
      case 1
      with less.prems show ?thesis by (simp add: domain_re_def split_on_none)
    next
      case (2 a r)
      note s = 2
      show ?thesis
      proof (cases rule: split_on_cases [of "CHR ''.''" r])
        case 1
        with s less.prems show ?thesis
          by (auto simp: domain_re_def split_on_none split_on_sep intro: domain_lang.last)
      next
        case (2 b q)
        with s less.prems have "label a" "domain_re r"
          by (auto simp: domain_re_def split_on_sep Let_def Suc_le_eq)
        with less.hyps [of r] s show ?thesis by (simp add: domain_lang.sub)
      qed
    qed
  qed
next
  assume "domain_lang s"
  then show "domain_re s"
  proof induction
    case (last l t)
    then show ?case using label_no tld_no by (auto simp: domain_re_def split_on_sep split_on_none)
  next
    case (sub l d)
    then show ?case using label_no by (auto simp: domain_re_def split_on_sep Let_def)
  qed
qed

lemma local_lang_no: "local_lang s \<Longrightarrow> CHR ''@'' \<notin> set s \<and> CHR 0x0A \<notin> set s \<and> s \<noteq> []"
proof (induction rule: local_lang.induct)
  case (one a)
  then show ?case using atom_no [of a] by (simp add: atom_def)
next
  case (more a l)
  then show ?case using atom_no [of a] by simp
qed

lemma domain_lang_no: "domain_lang s \<Longrightarrow> CHR ''@'' \<notin> set s \<and> CHR 0x0A \<notin> set s \<and> s \<noteq> []"
  by (induction rule: domain_lang.induct) (auto dest: label_no tld_no)

lemma partition_at_Some: "partition_at c s = (l, True, d) \<Longrightarrow> s = l @ c # d \<and> c \<notin> set l"
  by (induction s arbitrary: l) (auto split: if_splits prod.splits)

lemma partition_email:
  "(case partition_at CHR ''@'' s of (l, f, d) \<Rightarrow> f \<and> local_re l \<and> domain_re d) \<longleftrightarrow> email_lang s"
proof
  assume "case partition_at CHR ''@'' s of (l, f, d) \<Rightarrow> f \<and> local_re l \<and> domain_re d"
  then obtain l d where "partition_at CHR ''@'' s = (l, True, d)" "local_re l" "domain_re d" by (auto split: prod.splits)
  then show "email_lang s" using partition_at_Some [of "CHR ''@''" s l d] by (auto simp: email_lang_def local_re_iff domain_re_iff)
next
  assume "email_lang s"
  then obtain l d where "s = l @ CHR ''@'' # d" "local_lang l" "domain_lang d" by (auto simp: email_lang_def)
  then show "case partition_at CHR ''@'' s of (l, f, d) \<Rightarrow> f \<and> local_re l \<and> domain_re d"
    using local_lang_no by (simp add: partition_at_append local_re_iff domain_re_iff)
qed

text \<open>The expression accepts the language, and each text of it followed by one newline.\<close>

lemma email_re_iff: "email_re s \<longleftrightarrow> email_lang s \<or> (\<exists>b. s = b @ [CHR 0x0A] \<and> email_lang b)"
proof (cases "s \<noteq> [] \<and> last s = CHR 0x0A")
  case True
  then obtain b where b: "s = b @ [CHR 0x0A]" by (metis append_butlast_last_id)
  have "CHR 0x0A \<notin> set s" if "email_lang s"
    using that local_lang_no domain_lang_no by (auto simp: email_lang_def)
  with b have "\<not> email_lang s" by auto
  with b show ?thesis by (simp add: email_re_def partition_email)
next
  case False
  then show ?thesis by (auto simp: email_re_def partition_email)
qed

lemma clean_email_cases:
  assumes "clean_email raw = Inr email"
  shows "email = normal raw" "email_re email" "raw \<noteq> []"
    "fst (partition_at CHR ''@'' email) \<notin> set role_localparts" "snd (snd (partition_at CHR ''@'' email)) \<notin> set disposable_domains"
  using assms by (auto simp: clean_email_def Let_def split: if_splits prod.splits)

lemma lower_newline: "CHR 0x0A \<in> set (lower s) \<Longrightarrow> CHR 0x0A \<in> set s"
proof -
  assume "CHR 0x0A \<in> set (lower s)"
  then obtain x where x: "x \<in> set s" "lower_char x = CHR 0x0A" by (auto simp: lower_def)
  have "(of_char (lower_char x) :: nat) \<noteq> 10" if "65 \<le> (of_char x :: nat)" "(of_char x :: nat) \<le> 90"
    using that by (simp add: lower_char_def)
  moreover have "(of_char (lower_char x) :: nat) = 10" by (simp add: x(2))
  ultimately have "lower_char x = x" by (auto simp: lower_char_def Let_def)
  with x show ?thesis by simp
qed

lemma newline_normal: "CHR 0x0A \<in> set (normal raw) \<Longrightarrow> CHR 0x0A \<in> set raw"
proof -
  assume n: "CHR 0x0A \<in> set (normal raw)"
  have "set (strip_chars cs s) \<subseteq> set s" for cs s by (auto simp: strip_chars_def dest!: set_dropWhileD)
  with n have "CHR 0x0A \<in> set (removeprefix ''mailto:'' (lower (strip raw)))" unfolding normal_def by blast
  then have "CHR 0x0A \<in> set (lower (strip raw))" by (auto simp: removeprefix_def split: if_splits dest: in_set_dropD)
  then show ?thesis using lower_newline strip_subset by blast
qed

lemma clean_email_bare:
  assumes "clean_email raw = Inr email" "CHR 0x0A \<notin> set raw"
  shows "email_lang email"
proof -
  have "CHR 0x0A \<notin> set email" using newline_normal assms clean_email_cases(1) by blast
  with clean_email_cases(2) [OF assms(1)] show ?thesis by (auto simp: email_re_iff)
qed

text \<open>The characters of an address of the language are untouched by the normalisation.\<close>

definition plain_char :: "char \<Rightarrow> bool" where
  "plain_char c \<longleftrightarrow> \<not> is_space c \<and> lower_char c = c \<and> c \<notin> set (''<> :'' @ [CHR 0x09])"

lemma alnum_plain: "alnum c \<Longrightarrow> plain_char c"
proof -
  assume "alnum c"
  then have n: "48 \<le> (of_char c :: nat) \<and> (of_char c :: nat) \<le> 57 \<or> 97 \<le> (of_char c :: nat) \<and> (of_char c :: nat) \<le> 122"
    by (auto simp: alnum_def is_lower_def is_digit_def Let_def)
  then have "c \<notin> set (''<> :'' @ [CHR 0x09])" by auto
  with n show ?thesis by (auto simp: plain_char_def is_space_def lower_char_def Let_def)
qed

lemma atext_plain: "atext c \<Longrightarrow> plain_char c"
proof -
  assume "atext c"
  then consider "alnum c" | "c \<in> set (''!#$%&'' @ CHR 0x27 # ''*+/=?^_`{|}~-'')" unfolding atext_def by blast
  then show ?thesis
  proof cases
    case 2
    have "\<forall>c\<in>set (''!#$%&'' @ CHR 0x27 # ''*+/=?^_`{|}~-''). plain_char c"
      by (simp add: plain_char_def is_space_def lower_char_def)
    with 2 show ?thesis by blast
  qed (rule alnum_plain)
qed

lemma dot_plain: "plain_char CHR ''.''" "plain_char CHR ''@''" "plain_char CHR ''-''"
  by (simp_all add: plain_char_def is_space_def lower_char_def)

lemma lower_alnum: "is_lower c \<Longrightarrow> alnum c"
  by (simp add: alnum_def)

lemma local_plain: "local_lang s \<Longrightarrow> \<forall>c\<in>set s. plain_char c"
  by (induction rule: local_lang.induct) (auto simp: atom_def atext_plain dot_plain)

lemma label_plain: "label s \<Longrightarrow> \<forall>c\<in>set s. plain_char c"
  using alnum_plain dot_plain by (auto simp: label_def)

lemma tld_plain: "tld s \<Longrightarrow> \<forall>c\<in>set s. plain_char c"
  using alnum_plain lower_alnum by (auto simp: tld_def)

lemma domain_plain: "domain_lang s \<Longrightarrow> \<forall>c\<in>set s. plain_char c"
  by (induction rule: domain_lang.induct) (use label_plain tld_plain dot_plain in auto)

lemma email_plain: "email_lang s \<Longrightarrow> \<forall>c\<in>set s. plain_char c"
  using local_plain domain_plain dot_plain by (auto simp: email_lang_def)

lemma strip_chars_id: "\<forall>c\<in>set s. c \<notin> set cs \<Longrightarrow> strip_chars cs s = s"
proof -
  assume s: "\<forall>c\<in>set s. c \<notin> set cs"
  then have "dropWhile (\<lambda>c. c \<in> set cs) s = s" by (cases s) auto
  moreover have "dropWhile (\<lambda>c. c \<in> set cs) (rev s) = rev s" using s by (cases "rev s") (auto simp: rev_eq_Cons_iff)
  ultimately show ?thesis by (simp add: strip_chars_def)
qed

lemma normal_plain:
  assumes "\<forall>c\<in>set s. plain_char c"
  shows "normal s = s"
proof -
  have 1: "strip s = s" using assms by (intro strip_no_space) (simp add: plain_char_def)
  have 2: "lower s = s" using assms by (simp add: lower_def plain_char_def map_idI)
  have "CHR '':'' \<notin> set s" using assms by (auto simp: plain_char_def)
  then have "\<not> starts_with s ''mailto:''" by (auto simp: starts_with_iff)
  then have 3: "removeprefix ''mailto:'' s = s" by (simp add: removeprefix_def)
  have 4: "strip_chars (''<> '' @ [CHR 0x09]) s = s" using assms by (intro strip_chars_id) (auto simp: plain_char_def)
  show ?thesis by (simp only: normal_def 1 2 3 4)
qed

lemma clean_email_idem:
  assumes "clean_email raw = Inr email" "CHR 0x0A \<notin> set raw"
  shows "clean_email email = Inr email"
proof -
  note l = clean_email_bare [OF assms] and c = clean_email_cases [OF assms(1)]
  have n: "normal email = email" using email_plain [OF l] by (rule normal_plain)
  have "email \<noteq> []" using l by (auto simp: email_lang_def)
  moreover obtain a f d where "partition_at CHR ''@'' email = (a, f, d)" using prod_cases3 by blast
  ultimately show ?thesis using c n by (simp add: clean_email_def Let_def)
qed

section \<open>Properties\<close>


lemma demo_syntax: "email_re ''bo@ex.com''" "normal ''<bo@ex.com>'' = ''bo@ex.com''"
  by (simp_all add: email_re_def local_re_def domain_re_def atom_def atext_def alnum_def is_lower_def is_digit_def label_def tld_def
      normal_def strip_def is_space_def lower_def lower_char_def strip_chars_def removeprefix_def)


text \<open>The state of a batch: what is clean was seen and accepted, and every row is counted once.\<close>

definition batch_inv :: "(string \<Rightarrow> dns) \<Rightarrow> (string \<Rightarrow> dns) \<Rightarrow> string option list \<Rightarrow> cleaned \<Rightarrow> bool" where
  "batch_inv mx a rows st \<longleftrightarrow>
     distinct (cl_clean st) \<and> set (cl_clean st) \<subseteq> set (cl_seen st) \<and>
     (\<forall>e\<in>set (cl_seen st). \<exists>raw\<in>set rows. clean_email (opt_or raw []) = Inr e) \<and>
     length (cl_clean st) + length (cl_dropped st) = length rows \<and>
     (\<forall>reason. length (filter (\<lambda>(e, r). r = reason) (cl_dropped st)) = stat (cl_stats st) reason) \<and>
     (\<forall>d r. map_of (cl_mx_cache st) d = Some r \<longrightarrow> r = fst (has_mx mx a d []))"

lemma has_mx_cached:
  assumes "\<forall>d r. map_of cache d = Some r \<longrightarrow> r = fst (has_mx mx a d [])" "has_mx mx a domain cache = (r, cache2)"
  shows "r = fst (has_mx mx a domain []) \<and> (\<forall>d r. map_of cache2 d = Some r \<longrightarrow> r = fst (has_mx mx a d []))"
  using assms by (auto simp: has_mx_def Let_def update_conv split: option.splits if_splits)

lemma stat_update: "stat (AList.update r n m) r' = (if r' = r then n else stat m r')"
  by (simp add: stat_def update_conv)

lemma drop_inv:
  assumes "batch_inv mx a rows st" "cl_clean st2 = cl_clean st" "cl_dropped st2 = cl_dropped st" "cl_stats st2 = cl_stats st"
    and "set (cl_clean st2) \<subseteq> set (cl_seen st2)" "\<forall>e\<in>set (cl_seen st2). \<exists>r\<in>set (rows @ [raw]). clean_email (opt_or r []) = Inr e"
    and "\<forall>d r. map_of (cl_mx_cache st2) d = Some r \<longrightarrow> r = fst (has_mx mx a d [])"
  shows "batch_inv mx a (rows @ [raw]) (drop_email e reason st2)"
  using assms by (auto simp: batch_inv_def drop_email_def stat_update)

lemma row_inv:
  assumes inv: "batch_inv mx a rows st"
  shows "batch_inv mx a (rows @ [raw]) (clean_row mx a k raw st)"
proof (cases "clean_email (opt_or raw [])")
  case (Inl reason)
  have "batch_inv mx a (rows @ [raw]) (drop_email (lower (strip (opt_or raw []))) reason st)"
    by (rule drop_inv [OF inv]) (use inv in \<open>auto simp: batch_inv_def\<close>)
  with Inl show ?thesis by (simp add: clean_row_def)
next
  case (Inr email)
  obtain r cache where h: "has_mx mx a (domain_of email) (cl_mx_cache st) = (r, cache)" by fastforce
  have ch: "\<forall>d r. map_of cache d = Some r \<longrightarrow> r = fst (has_mx mx a d [])"
  proof -
    have "\<forall>d r. map_of (cl_mx_cache st) d = Some r \<longrightarrow> r = fst (has_mx mx a d [])" using inv unfolding batch_inv_def by blast
    from conjunct2 [OF has_mx_cached [OF this h]] show ?thesis .
  qed
  show ?thesis
  proof (cases "email \<in> set (cl_seen st)")
    case True
    have "batch_inv mx a (rows @ [raw]) (drop_email email ''duplicate'' st)"
      by (rule drop_inv [OF inv]) (use inv in \<open>auto simp: batch_inv_def\<close>)
    with True Inr show ?thesis by (simp add: clean_row_def)
  next
    case False
    let ?st1 = "st\<lparr>cl_seen := email # cl_seen st\<rparr>"
    have d: "batch_inv mx a (rows @ [raw]) (drop_email email ''no_mx'' (?st1\<lparr>cl_mx_cache := cache\<rparr>))"
    proof (rule drop_inv [OF inv])
      show "\<forall>e\<in>set (cl_seen (?st1\<lparr>cl_mx_cache := cache\<rparr>)). \<exists>r\<in>set (rows @ [raw]). clean_email (opt_or r []) = Inr e"
        using inv Inr by (auto simp: batch_inv_def)
      show "\<forall>d r. map_of (cl_mx_cache (?st1\<lparr>cl_mx_cache := cache\<rparr>)) d = Some r \<longrightarrow> r = fst (has_mx mx a d [])"
        using ch by simp
    qed (use inv in \<open>auto simp: batch_inv_def\<close>)
    have "batch_inv mx a (rows @ [raw]) (?st1\<lparr>cl_clean := cl_clean st @ [email]\<rparr>)"
      "batch_inv mx a (rows @ [raw]) (?st1\<lparr>cl_mx_cache := cache, cl_clean := cl_clean st @ [email]\<rparr>)"
      using inv ch False Inr by (auto simp: batch_inv_def)
    with False Inr h d show ?thesis by (simp add: clean_row_def Let_def)
  qed
qed

lemma rows_inv: "batch_inv mx a done st \<Longrightarrow> batch_inv mx a (done @ rows) (fold (clean_row mx a k) rows st)"
proof (induction rows arbitrary: "done" st)
  case (Cons r rows)
  from Cons.IH [OF row_inv [OF Cons.prems]] show ?case by simp
qed simp

text \<open>A batch is partitioned: every row is either one clean address or one entry of the dropped list with its reason,
  no clean address is repeated, each comes from a row that cleans to it, and the statistics
  count the rows of every reason.\<close>

theorem clean_rows_partition:
  "distinct (cl_clean (clean_rows mx a k rows)) \<and>
   length (cl_clean (clean_rows mx a k rows)) + length (cl_dropped (clean_rows mx a k rows)) = length rows \<and>
   (\<forall>e\<in>set (cl_clean (clean_rows mx a k rows)). \<exists>raw\<in>set rows. clean_email (opt_or raw []) = Inr e) \<and>
   (\<forall>reason\<in>{''empty'', ''bad_syntax'', ''role_account'', ''disposable_domain'', ''duplicate'', ''no_mx''}.
      length (filter (\<lambda>(e, r). r = reason) (cl_dropped (clean_rows mx a k rows))) = stat (cl_stats (clean_rows mx a k rows)) reason) \<and>
   stat (cl_stats (clean_rows mx a k rows)) ''clean'' = length (cl_clean (clean_rows mx a k rows)) \<and>
   stat (cl_stats (clean_rows mx a k rows)) ''total_in'' = length rows"
proof -
  have "batch_inv mx a [] no_rows" by (simp add: batch_inv_def no_rows_def stat_def)
  from rows_inv [OF this, of rows k] have inv: "batch_inv mx a rows (fold (clean_row mx a k) rows no_rows)" by simp
  then have "\<exists>raw\<in>set rows. clean_email (opt_or raw []) = Inr e" if "e \<in> set (cl_clean (fold (clean_row mx a k) rows no_rows))" for e
    using that unfolding batch_inv_def by blast
  with inv show ?thesis
    by (auto simp: clean_rows_def Let_def batch_inv_def stat_update)
qed

theorem clean_rows_partition_witness:
  "length (filter (\<lambda>(e, r). r = ''empty'') (cl_dropped (clean_rows (\<lambda>_. NoResolver) (\<lambda>_. NoResolver) True [None, Some ''x''])))
     = stat (cl_stats (clean_rows (\<lambda>_. NoResolver) (\<lambda>_. NoResolver) True [None, Some ''x''])) ''empty''"
  using clean_rows_partition [of "\<lambda>_. NoResolver" "\<lambda>_. NoResolver" True "[None, Some ''x'']"] by blast

end
