(* ===== verification/Terminal_Sync.thy ===== *)
theory Terminal_Sync
  imports Campaign_Lock Cloud_Sync_Api
begin

text \<open>
  The sync client of the terminal (terminal/sync_client.py): the cursors in \<open>sync_state\<close>, one
  round of the pull loop and one of the push loop, and the merge of the pulled unsubscribes.
  A round is a function of the clock, of the reply of the cloud (\<open>Inl\<close> is an HTTP error or a
  failed connection) and of the database. Every session of the source commits by itself, so an
  exception keeps the writes of the sessions before it. The sleeps between rounds are left out.
\<close>

section \<open>Cursors\<close>

definition put_state :: "int \<Rightarrow> string \<Rightarrow> string \<Rightarrow> vault \<Rightarrow> vault" where
  "put_state now key val v =
     v\<lparr>v_sync_state :=
         (if key \<in> ss_key ` set (v_sync_state v) then
            update_where (\<lambda>r. ss_key r = key) (\<lambda>r. r\<lparr>ss_value := val, ss_updated_at := sql_time now\<rparr>) (v_sync_state v)
          else v_sync_state v @ [\<lparr>ss_key = key, ss_value = val, ss_updated_at = sql_time now\<rparr>])\<rparr>"

text \<open>\<open>None\<close> is the \<open>ValueError\<close> of a value that is not a number.\<close>

definition get_cursor :: "vault \<Rightarrow> int option" where
  "get_cursor v = (case state_value v ''last_pulled_event_id'' of Some s \<Rightarrow> int_of_str s | None \<Rightarrow> Some 0)"

definition set_cursor :: "int \<Rightarrow> int \<Rightarrow> vault \<Rightarrow> vault" where
  "set_cursor now i v = put_state now ''last_pulled_event_id'' (dec_int i) v"

definition get_unsub_cursor :: "vault \<Rightarrow> string" where
  "get_unsub_cursor v = (case state_value v ''last_pulled_unsub_at'' of Some s \<Rightarrow> s | None \<Rightarrow> [])"

definition set_unsub_cursor :: "int \<Rightarrow> string \<Rightarrow> vault \<Rightarrow> vault" where
  "set_unsub_cursor now added_at v = put_state now ''last_pulled_unsub_at'' added_at v"

definition get_outcome_cursor :: "vault \<Rightarrow> string" where
  "get_outcome_cursor v = (case state_value v ''last_outcome_enqueued_at'' of Some s \<Rightarrow> s | None \<Rightarrow> [])"

definition set_outcome_cursor :: "int \<Rightarrow> string \<Rightarrow> vault \<Rightarrow> vault" where
  "set_outcome_cursor now enqueued_at v = put_state now ''last_outcome_enqueued_at'' enqueued_at v"

section \<open>Unsubscribes\<close>

definition merge_scope :: "string \<Rightarrow> string" where
  "merge_scope scope = (if scope = ''promotional'' \<or> scope = ''all'' then scope else ''all'')"

definition suppression_of :: "string \<Rightarrow> suppression list \<Rightarrow> suppression option" where
  "suppression_of h rows = find (\<lambda>r. sh_email_hash r = h) rows"

text \<open>One pulled row against the table, and the number applied so far.\<close>

definition merge_unsub :: "int \<Rightarrow> unsub \<Rightarrow> suppression list \<times> nat \<Rightarrow> suppression list \<times> nat" where
  "merge_unsub now u st =
     (case st of (rows, applied) \<Rightarrow>
        let h = un_email_hash u; scope = merge_scope (un_scope u) in
        if h = [] then (rows, applied)
        else
          (case suppression_of h rows of
             None \<Rightarrow>
               (rows @ [\<lparr>sh_email_hash = h, sh_reason = ''unsubscribe'',
                         sh_added_at = (if un_added_at u = [] then sql_time now else un_added_at u),
                         sh_source = Some ''sync:unsub_pull'', sh_scope = scope\<rparr>], applied + 1)
           | Some existing \<Rightarrow>
               if scope = ''all'' \<and> sh_scope existing \<noteq> ''all'' then
                 (update_where (\<lambda>r. sh_email_hash r = h) (\<lambda>r. r\<lparr>sh_scope := ''all''\<rparr>) rows, applied + 1)
               else (rows, applied)))"

definition merge_unsubs :: "int \<Rightarrow> unsub list \<Rightarrow> vault \<Rightarrow> vault \<times> nat" where
  "merge_unsubs now us v =
     (case fold (merge_unsub now) us (v_suppressions v, 0) of
        (rows, applied) \<Rightarrow> (v\<lparr>v_suppressions := rows\<rparr>, applied))"

section \<open>Pull\<close>

text \<open>What makes two events the same to the inbox.\<close>

definition event_key :: "event \<Rightarrow> string \<times> string \<times> int" where
  "event_key e = (ev_table_name e, ev_row_id e, ev_revision e)"

definition inbox_key :: "inbox_row \<Rightarrow> string \<times> string \<times> int" where
  "inbox_key r = (ib_table_name r, ib_row_id r, ib_revision r)"

definition inbox_of :: "int \<Rightarrow> event \<Rightarrow> bytes option \<Rightarrow> inbox_row" where
  "inbox_of now e payload =
     \<lparr>ib_event_id = event_id e, ib_table_name = ev_table_name e, ib_row_id = ev_row_id e, ib_revision = ev_revision e,
      ib_actor = ev_actor e, ib_modified_at = ev_modified_at e, ib_key_id = ev_key_id e, ib_payload = payload,
      ib_deleted = (if ev_deleted e \<noteq> 0 then 1 else 0), ib_received_at = sql_time now, ib_materialised_at = None\<rparr>"

type_synonym 'a vresult = "vault \<times> (exc + 'a)"

definition apply_event :: "int \<Rightarrow> event \<Rightarrow> vault \<Rightarrow> unit vresult" where
  "apply_event now e v =
     (case (if truthy (ev_payload e) then map_option Some (b64decode (the (ev_payload e))) else Some None) of
        None \<Rightarrow> (v, Inl (ValueError ''base64''))
      | Some payload \<Rightarrow>
          if event_key e \<in> inbox_key ` set (v_inbox v) then (v, Inr ())
          else if event_id e \<in> ib_event_id ` set (v_inbox v) then (v, Inl (RuntimeError ''IntegrityError''))
          else (v\<lparr>v_inbox := v_inbox v @ [inbox_of now e payload]\<rparr>, Inr ()))"

fun apply_events :: "int \<Rightarrow> event list \<Rightarrow> vault \<Rightarrow> unit vresult" where
  "apply_events now [] v = (v, Inr ())"
| "apply_events now (e # es) v =
     (case apply_event now e v of
        (v1, Inl x) \<Rightarrow> (v1, Inl x)
      | (v1, Inr _) \<Rightarrow> apply_events now es v1)"

text \<open>The body of the loop once the reply is there; 401 is answered by a pause, every other error by a backoff.\<close>

definition pull_apply :: "int \<Rightarrow> pulled \<Rightarrow> vault \<Rightarrow> unit vresult" where
  "pull_apply now p v =
     (case (if pu_events p = [] then (v, Inr ())
            else
              (case apply_events now (pu_events p) v of
                 (v1, Inl x) \<Rightarrow> (v1, Inl x)
               | (v1, Inr _) \<Rightarrow> (set_cursor now (pu_max_event_id p) v1, Inr ()))) of
        (v1, Inl x) \<Rightarrow> (v1, Inl x)
      | (v1, Inr _) \<Rightarrow>
          (let v2 = (if pu_unsubs p = [] then v1 else set_unsub_cursor now (pu_max_unsub_at p) (fst (merge_unsubs now (pu_unsubs p) v1)))
           in (put_state now ''last_pull_ok_at'' (sql_time now) v2, Inr ())))"

definition is_401 :: "exc \<Rightarrow> bool" where
  "is_401 e = (case e of HTTPException c m \<Rightarrow> c = 401 | _ \<Rightarrow> False)"

definition pull_round :: "int \<Rightarrow> (int \<Rightarrow> string \<Rightarrow> exc + pulled) \<Rightarrow> vault \<Rightarrow> unit vresult" where
  "pull_round now cloud v =
     (case get_cursor v of
        None \<Rightarrow> (v, Inl (ValueError ''last_pulled_event_id''))
      | Some since \<Rightarrow>
          (case cloud since (get_unsub_cursor v) of
             Inl e \<Rightarrow> (v, if is_401 e then Inr () else Inl e)
           | Inr p \<Rightarrow> pull_apply now p v))"

section \<open>Push\<close>

definition drain_outbox :: "vault \<Rightarrow> outbox_row list" where
  "drain_outbox v = take 200 (sort_key ob_outbox_id (filter (\<lambda>r. ob_pushed_at r = None) (v_outbox v)))"

definition mark_one :: "int \<Rightarrow> int \<times> int \<Rightarrow> outbox_row list \<Rightarrow> outbox_row list" where
  "mark_one now m rows =
     update_where (\<lambda>r. ob_outbox_id r = fst m)
       (\<lambda>r. r\<lparr>ob_pushed_at := Some (sql_time now), ob_assigned_event_id := Some (snd m)\<rparr>) rows"

definition mark_outbox_pushed :: "int \<Rightarrow> int list \<Rightarrow> int list \<Rightarrow> vault \<Rightarrow> vault" where
  "mark_outbox_pushed now outbox_ids assigned v =
     v\<lparr>v_outbox := fold (mark_one now) (zip outbox_ids assigned) (v_outbox v)\<rparr>"

definition outbox_wire :: "outbox_row \<Rightarrow> raw_event" where
  "outbox_wire r =
     \<lparr>rw_table = Some (ob_table_name r), rw_table_name = None, rw_id = None, rw_row_id = Some (ob_row_id r),
      rw_revision = Some (ob_revision r), rw_actor = Some (ob_actor r), rw_modified_at = Some (ob_modified_at r),
      rw_key_id = Some (ob_key_id r),
      rw_payload = Some (if truthy (ob_payload r) then b64encode (the (ob_payload r)) else []),
      rw_deleted = (ob_deleted r \<noteq> 0)\<rparr>"

text \<open>\<open>cloud\<close> answers the request with the assigned event ids.\<close>

definition push_round :: "int \<Rightarrow> (raw_event list \<Rightarrow> exc + pushed) \<Rightarrow> vault \<Rightarrow> unit vresult" where
  "push_round now cloud v =
     (let rows = drain_outbox v in
      if rows = [] then (v, Inr ())
      else
        (case cloud (map outbox_wire rows) of
           Inl e \<Rightarrow> (v, if is_401 e then Inr () else Inl e)
         | Inr p \<Rightarrow> (mark_outbox_pushed now (map ob_outbox_id rows) (ps_ids p) v, Inr ())))"

definition enqueue_local_write ::
  "int \<Rightarrow> string \<Rightarrow> string \<Rightarrow> string \<Rightarrow> int \<Rightarrow> string \<Rightarrow> string \<Rightarrow> bytes option \<Rightarrow> bool \<Rightarrow> vault \<Rightarrow> vault" where
  "enqueue_local_write now actor table row_id revision modified_at key_id payload deleted v =
     v\<lparr>v_outbox := v_outbox v @
         [\<lparr>ob_outbox_id = next_row_id ob_outbox_id (v_outbox v), ob_table_name = table, ob_row_id = row_id, ob_revision = revision,
           ob_actor = actor, ob_modified_at = modified_at, ob_key_id = key_id, ob_payload = payload,
           ob_deleted = (if deleted then 1 else 0), ob_created_at = sql_time now, ob_pushed_at = None, ob_assigned_event_id = None\<rparr>]\<rparr>"

section \<open>Lemmas on the state rows\<close>

lemma find_keyD: "find (\<lambda>r. key r = k) rows = Some r \<Longrightarrow> key r = k \<and> r \<in> set rows"
  by (auto simp: find_Some_iff)

lemma state_value_put: "state_value (put_state now k x v) k' = (if k' = k then Some x else state_value v k')"
proof -
  let ?rows = "v_sync_state v"
  let ?f = "\<lambda>r. r\<lparr>ss_value := x, ss_updated_at := sql_time now\<rparr>"
  show ?thesis
  proof (cases "k \<in> ss_key ` set ?rows")
    case True
    then obtain r where r: "find (\<lambda>r. ss_key r = k) ?rows = Some r" by (cases "find (\<lambda>r. ss_key r = k) ?rows") (auto simp: find_None_iff)
    then have k: "ss_key r = k" by (auto dest: find_keyD)
    have "state_value (put_state now k x v) k' =
        map_option ss_value (map_option (\<lambda>r. if ss_key r = k then ?f r else r) (find (\<lambda>r. ss_key r = k') ?rows))"
      using True find_update_where [of ss_key ?f k' "\<lambda>r. ss_key r = k" ?rows] by (simp add: state_value_def put_state_def)
    also have "\<dots> = (if k' = k then Some x else state_value v k')"
    proof (cases "find (\<lambda>r. ss_key r = k') ?rows")
      case None
      with r show ?thesis by (auto simp: state_value_def)
    next
      case (Some q)
      with find_keyD [OF Some] show ?thesis by (simp add: state_value_def)
    qed
    finally show ?thesis .
  next
    case False
    then have "find (\<lambda>r. ss_key r = k) ?rows = None" by (auto simp: find_None_iff)
    with False show ?thesis by (auto simp: state_value_def put_state_def find_append split: option.splits)
  qed
qed

lemma put_state_frame [simp]:
  "v_inbox (put_state now k x v) = v_inbox v" "v_suppressions (put_state now k x v) = v_suppressions v"
  "v_outbox (put_state now k x v) = v_outbox v" "v_recipients (put_state now k x v) = v_recipients v"
  by (simp_all add: put_state_def)

lemma get_cursor_put [simp]:
  "0 \<le> i \<Longrightarrow> get_cursor (set_cursor now i v) = Some i" "v_inbox (set_cursor now i v) = v_inbox v"
  "v_inbox (set_unsub_cursor now x v) = v_inbox v"
  "get_cursor (put_state now ''last_pull_ok_at'' x v) = get_cursor v"
  "get_cursor (set_unsub_cursor now x v) = get_cursor v"
  by (simp_all add: get_cursor_def set_cursor_def set_unsub_cursor_def state_value_put int_of_str_dec_int)

lemma merge_frame [simp]:
  "v_inbox (fst (merge_unsubs now us v)) = v_inbox v" "state_value (fst (merge_unsubs now us v)) k = state_value v k"
  "get_cursor (fst (merge_unsubs now us v)) = get_cursor v"
  by (simp_all add: merge_unsubs_def state_value_def get_cursor_def split: prod.splits)

section \<open>Merging unsubscribes\<close>

definition scope_of :: "string \<Rightarrow> suppression list \<Rightarrow> string option" where
  "scope_of h rows = map_option sh_scope (suppression_of h rows)"

lemma merge_scope_cases: "merge_scope s = ''promotional'' \<or> merge_scope s = ''all''"
  by (simp add: merge_scope_def)

lemma suppression_ofD: "suppression_of h rows = Some r \<Longrightarrow> sh_email_hash r = h \<and> r \<in> set rows"
  unfolding suppression_of_def by (rule find_keyD)

lemma scope_of_merge:
  "scope_of h (fst (merge_unsub now u (rows, n))) =
     (if h = un_email_hash u \<and> h \<noteq> [] then
        (if merge_scope (un_scope u) = ''all'' \<or> scope_of h rows = None then Some (merge_scope (un_scope u)) else scope_of h rows)
      else scope_of h rows)"
proof (cases "suppression_of (un_email_hash u) rows")
  case None
  then show ?thesis
    by (auto simp: merge_unsub_def Let_def scope_of_def suppression_of_def find_append split: option.splits)
next
  case (Some r)
  have k: "sh_email_hash r = un_email_hash u" using suppression_ofD [OF Some] by simp
  let ?f = "sh_scope_update (\<lambda>_. ''all'')"
  have f: "suppression_of a (update_where (\<lambda>r. sh_email_hash r = g) ?f rows) =
      map_option (\<lambda>r. if sh_email_hash r = g then ?f r else r) (suppression_of a rows)" for a g
    unfolding suppression_of_def by (rule find_update_where) simp
  show ?thesis
  proof (cases "h = un_email_hash u")
    case True
    with Some k show ?thesis using merge_scope_cases [of "un_scope u"] by (auto simp: merge_unsub_def Let_def scope_of_def f)
  next
    case False
    have "suppression_of h rows = Some q \<Longrightarrow> sh_email_hash q = h" for q by (simp add: suppression_ofD)
    with False Some show ?thesis by (cases "suppression_of h rows") (auto simp: merge_unsub_def Let_def scope_of_def f)
  qed
qed

lemma scope_of_merges:
  "scope_of h (fst (fold (merge_unsub now) us (rows, n))) =
     (if h = [] then scope_of h rows
      else if scope_of h rows = Some ''all'' \<or> (\<exists>u\<in>set us. un_email_hash u = h \<and> merge_scope (un_scope u) = ''all'') then Some ''all''
      else if scope_of h rows \<noteq> None then scope_of h rows
      else if h \<in> un_email_hash ` set us then Some ''promotional'' else None)"
proof (induction us arbitrary: rows n)
  case Nil
  then show ?case by auto
next
  case (Cons u us)
  obtain rows1 n1 where m: "merge_unsub now u (rows, n) = (rows1, n1)" by fastforce
  from scope_of_merge [of h now u rows n] m have
    "scope_of h rows1 = (if h = un_email_hash u \<and> h \<noteq> [] then
        (if merge_scope (un_scope u) = ''all'' \<or> scope_of h rows = None then Some (merge_scope (un_scope u)) else scope_of h rows)
      else scope_of h rows)" by simp
  with Cons.IH [of rows1 n1] m merge_scope_cases [of "un_scope u"] show ?case by auto
qed

lemma merge_settled:
  "\<forall>u\<in>set us. un_email_hash u \<noteq> [] \<longrightarrow>
     scope_of (un_email_hash u) rows \<noteq> None \<and> (merge_scope (un_scope u) = ''all'' \<longrightarrow> scope_of (un_email_hash u) rows = Some ''all'') \<Longrightarrow>
   fold (merge_unsub now) us (rows, n) = (rows, n)"
  by (induction us) (auto simp: merge_unsub_def Let_def scope_of_def split: option.splits)

section \<open>The inbox\<close>

text \<open>The rows are copies of events of the log, no event and no revision twice.\<close>

definition sent_payload :: "event \<Rightarrow> bytes option" where
  "sent_payload e = (if truthy (ev_payload e) then ev_payload e else None)"

definition copy_of :: "event \<Rightarrow> inbox_row \<Rightarrow> bool" where
  "copy_of e r \<longleftrightarrow> ib_event_id r = event_id e \<and> inbox_key r = event_key e \<and> ib_payload r = sent_payload e"

definition inbox_ok :: "event list \<Rightarrow> inbox_row list \<Rightarrow> bool" where
  "inbox_ok es rows \<longleftrightarrow> distinct (map ib_event_id rows) \<and> distinct (map inbox_key rows) \<and> (\<forall>r\<in>set rows. \<exists>e\<in>set es. copy_of e r)"

lemma wire_event_simps [simp]:
  "event_id (wire_event e) = event_id e" "event_key (wire_event e) = event_key e"
  by (simp_all add: wire_event_def event_key_def)

lemma b64encode_nonempty [simp]: "b64encode b = [] \<longleftrightarrow> b = []"
  by (cases b rule: b64encode.cases) (simp_all add: Let_def)

lemma apply_event_ok:
  assumes "inbox_ok es (v_inbox v)" "e \<in> set es" "inj_on event_id (set es)"
  shows "\<exists>rows. apply_event now (wire_event e) v = (v\<lparr>v_inbox := rows\<rparr>, Inr ()) \<and> inbox_ok es rows \<and>
     inbox_key ` set rows = insert (event_key e) (inbox_key ` set (v_inbox v))"
proof -
  have dec: "(if truthy (ev_payload (wire_event e)) then map_option Some (b64decode (the (ev_payload (wire_event e)))) else Some None)
      = Some (sent_payload e)"
    by (cases "ev_payload e") (auto simp: wire_event_def truthy_def sent_payload_def b64decode_encode)
  show ?thesis
  proof (cases "event_key e \<in> inbox_key ` set (v_inbox v)")
    case True
    then have "apply_event now (wire_event e) v = (v, Inr ())" by (simp add: apply_event_def dec)
    then show ?thesis using assms(1) True by (intro exI [of _ "v_inbox v"]) auto
  next
    case False
    have new: "event_id e \<notin> ib_event_id ` set (v_inbox v)"
    proof
      assume "event_id e \<in> ib_event_id ` set (v_inbox v)"
      then obtain r e' where r: "r \<in> set (v_inbox v)" "ib_event_id r = event_id e" "e' \<in> set es" "copy_of e' r"
        using assms(1) by (auto simp: inbox_ok_def)
      then have "e' = e" using assms(2,3) by (simp add: copy_of_def inj_on_def)
      with r False show False by (auto simp: copy_of_def image_iff)
    qed
    let ?r = "inbox_of now (wire_event e) (sent_payload e)"
    have r: "copy_of e ?r" by (simp add: copy_of_def inbox_of_def inbox_key_def event_key_def wire_event_def)
    have "apply_event now (wire_event e) v = (v\<lparr>v_inbox := v_inbox v @ [?r]\<rparr>, Inr ())"
      using False new by (simp add: apply_event_def dec)
    moreover have "inbox_ok es (v_inbox v @ [?r])"
      using assms(1,2) False new r unfolding inbox_ok_def copy_of_def by fastforce
    ultimately show ?thesis using r by (intro exI [of _ "v_inbox v @ [?r]"]) (simp add: copy_of_def)
  qed
qed

lemma apply_events_ok:
  assumes "inj_on event_id (set es)"
  shows "inbox_ok es (v_inbox v) \<Longrightarrow> set bs \<subseteq> set es \<Longrightarrow>
     \<exists>rows. apply_events now (map wire_event bs) v = (v\<lparr>v_inbox := rows\<rparr>, Inr ()) \<and> inbox_ok es rows \<and>
       inbox_key ` set rows = event_key ` set bs \<union> inbox_key ` set (v_inbox v)"
proof (induction bs arbitrary: v)
  case Nil
  then show ?case by (intro exI [of _ "v_inbox v"]) simp
next
  case (Cons b bs)
  obtain rows where 1: "apply_event now (wire_event b) v = (v\<lparr>v_inbox := rows\<rparr>, Inr ())" "inbox_ok es rows"
      "inbox_key ` set rows = insert (event_key b) (inbox_key ` set (v_inbox v))"
    using apply_event_ok [OF Cons.prems(1) _ assms, of b now] Cons.prems(2) by auto
  from Cons.IH [of "v\<lparr>v_inbox := rows\<rparr>"] 1(2) Cons.prems(2) 1(3)
  show ?case by (auto simp: 1(1))
qed

section \<open>A terminal that pulls, and dies in between\<close>

text \<open>The process dies after \<open>n\<close> events of the batch are stored: the cursor stays where it was.\<close>

definition crash_pull :: "int \<Rightarrow> nat \<Rightarrow> table \<Rightarrow> vault \<Rightarrow> vault" where
  "crash_pull now n t v =
     (case get_cursor v of
        None \<Rightarrow> v
      | Some since \<Rightarrow>
          (case sync_pull since (get_unsub_cursor v) t of
             Inl e \<Rightarrow> v
           | Inr p \<Rightarrow> fst (apply_events now (take n (pu_events p)) v)))"

definition sync_step :: "table \<Rightarrow> int \<times> nat option \<Rightarrow> vault \<Rightarrow> vault" where
  "sync_step t s v =
     (case s of
        (now, None) \<Rightarrow> fst (pull_round now (\<lambda>c u. sync_pull c u t) v)
      | (now, Some n) \<Rightarrow> crash_pull now n t v)"

definition inbox_inv :: "vault \<Rightarrow> table \<Rightarrow> bool" where
  "inbox_inv v t \<longleftrightarrow> inbox_ok (events t) (v_inbox v) \<and>
     (\<exists>c. get_cursor v = Some c \<and> 0 \<le> c \<and> c < id_space \<and>
        (\<forall>e\<in>set (events t). event_id e \<le> c \<longrightarrow> event_key e \<in> inbox_key ` set (v_inbox v)))"

definition past :: "vault \<Rightarrow> table \<Rightarrow> nat" where
  "past v t = length (filter (\<lambda>e. the (get_cursor v) < event_id e) (events t))"

definition complete_rounds :: "(int \<times> nat option) list \<Rightarrow> nat" where
  "complete_rounds steps = length (filter (\<lambda>s. snd s = None) steps)"

definition cloud_log :: "table \<Rightarrow> bool" where
  "cloud_log t \<longleftrightarrow> event_inv t \<and> counter ''event_log'' t < id_space \<and> unsub_inv t"

lemma cloud_log_inj: "cloud_log t \<Longrightarrow> inj_on event_id (set (events t))"
  using events_sorted [of t] strict_sorted_iff [of "map event_id (events t)"] by (simp add: cloud_log_def distinct_map)

lemma pull_batch:
  assumes t: "cloud_log t" and c: "0 \<le> c" "c < id_space"
  obtains p bs where "sync_pull c u t = Inr p" "pu_events p = map wire_event bs"
    "bs = take 500 (filter (\<lambda>e. c < event_id e) (events t))" "pu_max_event_id p = next_cursor event_id c bs"
    "0 \<le> pu_max_event_id p" "pu_max_event_id p < id_space"
    "filter (\<lambda>e. c < event_id e) (events t) = bs @ filter (\<lambda>e. pu_max_event_id p < event_id e) (events t)"
proof -
  have t': "event_inv t \<and> counter ''event_log'' t < id_space" and c': "0 \<le> c \<and> c < id_space"
    using t c by (simp_all add: cloud_log_def)
  obtain p where p: "sync_pull c u t = Inr p" "pu_events p = map wire_event (the (query_events_since c 500 t))"
     "pu_max_event_id p = next_cursor event_id c (the (query_events_since c 500 t))"
    using sync_pull_eq [of t c u] t c by (auto simp: cloud_log_def)
  have q: "the (query_events_since c 500 t) = take 500 (filter (\<lambda>e. c < event_id e) (events t))"
    using query_events_since_eq [of t c 500] t' c by simp
  note b = ev.next_cursor_ok [OF t' c', of 500, unfolded q] ev.batch_then_rest [OF t' c', of 500, unfolded q]
  show ?thesis
    using b p(3) by (intro that [OF p(1) p(2) [unfolded q]]) (auto simp: q)
qed

lemma crash_step:
  assumes t: "cloud_log t" and v: "inbox_inv v t"
  shows "inbox_inv (crash_pull now n t v) t \<and> past (crash_pull now n t v) t = past v t"
proof -
  obtain c where c: "get_cursor v = Some c" "0 \<le> c" "c < id_space"
      "\<forall>e\<in>set (events t). event_id e \<le> c \<longrightarrow> event_key e \<in> inbox_key ` set (v_inbox v)" and ok: "inbox_ok (events t) (v_inbox v)"
    using v by (auto simp: inbox_inv_def)
  obtain p bs where p: "sync_pull c (get_unsub_cursor v) t = Inr p" "pu_events p = map wire_event bs"
      "bs = take 500 (filter (\<lambda>e. c < event_id e) (events t))"
    using pull_batch [OF t c(2,3), of "get_unsub_cursor v"] by metis
  have "set (take n bs) \<subseteq> set (events t)" using p(3) by (auto dest!: in_set_takeD)
  from apply_events_ok [OF cloud_log_inj [OF t] ok this, of now]
  obtain rows where "apply_events now (map wire_event (take n bs)) v = (v\<lparr>v_inbox := rows\<rparr>, Inr ())" "inbox_ok (events t) rows"
      "inbox_key ` set rows = event_key ` set (take n bs) \<union> inbox_key ` set (v_inbox v)" by blast
  then show ?thesis using c p(1,2)
    by (auto simp: crash_pull_def take_map inbox_inv_def past_def get_cursor_def state_value_def)
qed

lemma pull_step:
  assumes t: "cloud_log t" and v: "inbox_inv v t"
  shows "\<exists>v'. pull_round now (\<lambda>c u. sync_pull c u t) v = (v', Inr ()) \<and> inbox_inv v' t \<and> past v' t \<le> past v t - 500"
proof -
  obtain c where c: "get_cursor v = Some c" "0 \<le> c" "c < id_space"
      "\<forall>e\<in>set (events t). event_id e \<le> c \<longrightarrow> event_key e \<in> inbox_key ` set (v_inbox v)" and ok: "inbox_ok (events t) (v_inbox v)"
    using v by (auto simp: inbox_inv_def)
  obtain p bs where p: "sync_pull c (get_unsub_cursor v) t = Inr p" "pu_events p = map wire_event bs"
      "bs = take 500 (filter (\<lambda>e. c < event_id e) (events t))" "pu_max_event_id p = next_cursor event_id c bs"
      "0 \<le> pu_max_event_id p" "pu_max_event_id p < id_space"
      "filter (\<lambda>e. c < event_id e) (events t) = bs @ filter (\<lambda>e. pu_max_event_id p < event_id e) (events t)"
    using pull_batch [OF t c(2,3), of "get_unsub_cursor v"] by metis
  have sub: "set bs \<subseteq> set (events t)" using p(3) by (auto dest!: in_set_takeD)
  from apply_events_ok [OF cloud_log_inj [OF t] ok this, of now]
  obtain rows where rows: "apply_events now (map wire_event bs) v = (v\<lparr>v_inbox := rows\<rparr>, Inr ())" "inbox_ok (events t) rows"
      "inbox_key ` set rows = event_key ` set bs \<union> inbox_key ` set (v_inbox v)" by blast
  let ?m = "pu_max_event_id p"
  have all: "event_key e \<in> inbox_key ` set rows" if "e \<in> set (events t)" "event_id e \<le> ?m" for e
  proof (cases "event_id e \<le> c")
    case True
    with c(4) that rows(3) show ?thesis by blast
  next
    case False
    with that(1) have "e \<in> set (bs @ filter (\<lambda>e. ?m < event_id e) (events t))" unfolding p(7) [symmetric] by simp
    with that(2) rows(3) show ?thesis by auto
  qed
  have rest: "length (filter (\<lambda>e. ?m < event_id e) (events t)) \<le> past v t - 500"
    using p(3) arg_cong [OF p(7), of length] c(1) by (simp add: past_def)
  define base where "base = (if bs = [] then v else set_cursor now ?m (v\<lparr>v_inbox := rows\<rparr>))"
  have stay: "bs = [] \<Longrightarrow> ?m = c \<and> past v t = 0"
    using p(3,4) rest c(1) by (auto simp: next_cursor_def past_def)
  have base: "get_cursor base = Some ?m" "inbox_ok (events t) (v_inbox base)" "inbox_key ` set (v_inbox base) = inbox_key ` set rows"
    using p(5) c(1) ok rows(2,3) stay by (auto simp: base_def)
  have "pull_round now (\<lambda>c u. sync_pull c u t) v = pull_apply now p v" using c(1) p(1) by (simp add: pull_round_def)
  also have "\<exists>v'. pull_apply now p v = (v', Inr ()) \<and> v_inbox v' = v_inbox base \<and> get_cursor v' = get_cursor base"
    using rows(1) p(2) by (auto simp: pull_apply_def base_def Let_def)
  finally obtain v' where v': "pull_round now (\<lambda>c u. sync_pull c u t) v = (v', Inr ())" "v_inbox v' = v_inbox base"
      "get_cursor v' = get_cursor base" by blast
  have "inbox_inv v' t" using v'(2,3) base p(5,6) all by (simp add: inbox_inv_def)
  moreover have "past v' t \<le> past v t - 500" using v'(3) base(1) rest by (simp add: past_def)
  ultimately show ?thesis using v'(1) by blast
qed

lemma sync_steps:
  "cloud_log t \<Longrightarrow> inbox_inv v t \<Longrightarrow>
   inbox_inv (fold (sync_step t) steps v) t \<and> past (fold (sync_step t) steps v) t \<le> past v t - 500 * complete_rounds steps"
proof (induction steps arbitrary: v)
  case Nil
  then show ?case by (simp add: complete_rounds_def)
next
  case (Cons s steps)
  obtain now o' where s: "s = (now, o')" by (cases s)
  have 1: "inbox_inv (sync_step t s v) t \<and> past (sync_step t s v) t \<le> past v t - (if o' = None then 500 else 0)"
  proof (cases o')
    case None
    then show ?thesis using pull_step [OF Cons.prems, of now] s by (auto simp: sync_step_def)
  next
    case (Some n)
    then show ?thesis using crash_step [OF Cons.prems, of now n] s by (auto simp: sync_step_def)
  qed
  from Cons.IH [OF Cons.prems(1) conjunct1 [OF 1]] 1 show ?case
    by (auto simp: complete_rounds_def s split: if_splits)
qed

text \<open>What the terminal starts from: no cursor and an empty inbox.\<close>

lemma inbox_inv_empty: "inbox_inv empty_vault t" if "cloud_log t"
proof -
  have "\<not> event_id e \<le> 0" if e: "e \<in> set (events t)" for e
  proof -
    from e obtain y where y: "y \<in> set (query ''EVENT'' (\<lambda>_. True) t)" "e = the (coerce_event (snd y))" by (auto simp: events_def)
    from \<open>cloud_log t\<close> have "event_inv t" by (simp add: cloud_log_def)
    from event_inv_keys [OF this y(1)] y(2) show ?thesis by auto
  qed
  then show ?thesis
    by (auto simp: inbox_inv_def inbox_ok_def empty_vault_def get_cursor_def state_value_def id_space_def)
qed

section \<open>Properties\<close>

text \<open>C19: whatever the interleaving of complete pulls and of pulls cut off after any number of stored events, once enough
  complete pulls have run the inbox holds every revision of the cloud's log exactly once, each row a faithful
  copy (payload decoded) of an event of the log, and no replay is refused by the primary key.\<close>

theorem inbox_mirrors_log:
  assumes "cloud_log t" "inbox_inv v t" "past v t \<le> 500 * complete_rounds steps"
    and rows: "rows = v_inbox (fold (sync_step t) steps v)"
  shows "inbox_key ` set rows = event_key ` set (events t) \<and> distinct (map inbox_key rows) \<and>
     distinct (map ib_event_id rows) \<and> (\<forall>r\<in>set rows. \<exists>e\<in>set (events t). copy_of e r)"
proof -
  let ?v = "fold (sync_step t) steps v"
  have v: "inbox_inv ?v t" "past ?v t = 0" using sync_steps [OF assms(1,2), of steps] assms(3) by auto
  then have ok: "inbox_ok (events t) rows" and all: "event_key ` set (events t) \<subseteq> inbox_key ` set rows"
    by (auto simp: rows inbox_inv_def past_def filter_empty_conv not_less)
  have "inbox_key ` set rows \<subseteq> event_key ` set (events t)" using ok by (fastforce simp: inbox_ok_def copy_of_def)
  with ok all show ?thesis by (auto simp: inbox_ok_def)
qed

text \<open>The merge of pulled unsubscribes never downgrades: an address ends with the scope \<open>all\<close> exactly if it had it or
  one of the pulled rows asks for it (an unknown scope does), keeps any other scope it had, and is suppressed if
  it was or was pulled; the same pull merged again changes nothing.\<close>

theorem unsub_merge_scope:
  assumes "h \<noteq> []" and v': "v' = fst (merge_unsubs now us v)"
  shows "scope_of h (v_suppressions v') =
       (if scope_of h (v_suppressions v) = Some ''all'' \<or> (\<exists>u\<in>set us. un_email_hash u = h \<and> un_scope u \<noteq> ''promotional'') then Some ''all''
        else if scope_of h (v_suppressions v) \<noteq> None then scope_of h (v_suppressions v)
        else if h \<in> un_email_hash ` set us then Some ''promotional'' else None) \<and>
     merge_unsubs now2 us v' = (v', 0)"
proof -
  have rows: "v_suppressions v' = fst (fold (merge_unsub now) us (v_suppressions v, 0))"
    by (simp add: v' merge_unsubs_def split: prod.splits)
  have all: "merge_scope s = ''all'' \<longleftrightarrow> s \<noteq> ''promotional''" for s by (simp add: merge_scope_def)
  have "fold (merge_unsub now2) us (v_suppressions v', 0) = (v_suppressions v', 0)"
    unfolding rows by (rule merge_settled) (auto simp: scope_of_merges)
  then have "merge_unsubs now2 us v' = (v', 0)" by (simp add: merge_unsubs_def)
  then show ?thesis using assms(1) by (simp add: rows scope_of_merges all)
qed

section \<open>Witnesses\<close>

definition demo_unsub :: "string \<Rightarrow> string \<Rightarrow> unsub" where
  "demo_unsub h scope = \<lparr>un_email_hash = h, un_scope = scope, un_added_at = [], un_cursor = []\<rparr>"

theorem unsub_merge_scope_witness:
  "scope_of ''aa'' (v_suppressions (fst (merge_unsubs 5 [demo_unsub ''aa'' ''all'', demo_unsub ''aa'' ''promotional''] empty_vault))) = Some ''all''"
  using unsub_merge_scope [of "''aa''" _ 5 "[demo_unsub ''aa'' ''all'', demo_unsub ''aa'' ''promotional'']" empty_vault, OF _ refl]
  by (simp add: demo_unsub_def)

lemma cloud_log_demo: "cloud_log demo_pushed"
  using demo_pushed_inv demo_pushed_unsub by (simp add: cloud_log_def id_space_def)

theorem inbox_mirrors_log_witness:
  "inbox_key ` set (v_inbox (fold (sync_step demo_pushed) [(9, Some 1), (10, None)] empty_vault)) = event_key ` set (events demo_pushed)"
proof -
  have "past empty_vault demo_pushed \<le> 500 * complete_rounds [(9, Some 1), (10, None)]"
    using demo_pushed_inv le_trans [OF length_filter_le [of "\<lambda>e. the (get_cursor empty_vault) < event_id e" "events demo_pushed"], of 500]
    by (simp add: past_def complete_rounds_def)
  from inbox_mirrors_log [OF cloud_log_demo inbox_inv_empty [OF cloud_log_demo] this refl]
  show ?thesis by blast
qed

end
