(* ===== verification/Terminal_Outcomes.thy ===== *)
theory Terminal_Outcomes
  imports Terminal_Sync Cloud_Packs_Api
begin

text \<open>
  What the terminal learns of its mail (terminal/sync_client.py): the outcomes it polls from the
  cloud, and the inbox rows it decrypts into recipients and suppressions. \<open>now\<close> is the clock in
  seconds; a stored time is either its ISO text or SQLite's. The fields of a decrypted payload
  are texts, as the webhook receiver writes them; a value of another type counts as empty (or as
  null, where the column takes a null).
\<close>

section \<open>Pack outcomes\<close>

definition job_of_pack :: "string \<Rightarrow> vault \<Rightarrow> job option" where
  "job_of_pack pid v = find (\<lambda>j. dj_job_id j = pid) (v_jobs v)"

definition unknown_prefix :: string where
  "unknown_prefix = ''Delivery unknown: ''"

definition engaged :: "string list" where
  "engaged = [''delivered'', ''opened'', ''clicked'', ''bounced'', ''complained'']"

definition of_job :: "job \<Rightarrow> recipient \<Rightarrow> bool" where
  "of_job j r \<longleftrightarrow> cr_campaign_id r = dj_campaign_id j \<and> cr_contact_id r = dj_recipient_id j"

definition outcome_audit :: "crypto \<Rightarrow> int \<Rightarrow> string \<Rightarrow> string \<Rightarrow> string \<Rightarrow> string \<Rightarrow> vault \<Rightarrow> vault" where
  "outcome_audit cr now action pid status reason v =
     audit cr (sql_time now) ''system:outcomes-loop'' action (Some (''pack:'' @ pid))
       (JObj [(''status'', JStr status), (''reason'', JStr reason)]) v"

definition apply_unknown_outcome :: "crypto \<Rightarrow> int \<Rightarrow> string \<Rightarrow> string \<Rightarrow> vault \<Rightarrow> vault" where
  "apply_unknown_outcome cr now pid reason v =
     (case job_of_pack pid v of
        None \<Rightarrow> v
      | Some j \<Rightarrow>
          outcome_audit cr now ''pack.outcome_unknown'' pid ''unknown'' reason
            (v\<lparr>v_recipients := update_where (\<lambda>r. of_job j r \<and> cr_status r = ''sent'')
                 (\<lambda>r. r\<lparr>cr_failure_reason := Some (unknown_prefix @ py_or reason ''no reason recorded'')\<rparr>) (v_recipients v)\<rparr>))"

definition outcome_job :: "int \<Rightarrow> string \<Rightarrow> string \<Rightarrow> job \<Rightarrow> job" where
  "outcome_job now status resend_id j =
     (if status = ''sent'' then j\<lparr>dj_status := ''completed'', dj_completed_at := Some (iso now), dj_resend_message_id := Some resend_id\<rparr>
      else j\<lparr>dj_status := ''failed'', dj_resend_message_id := Some resend_id\<rparr>)"

definition outcome_recipient :: "int \<Rightarrow> string \<Rightarrow> string \<Rightarrow> string \<Rightarrow> recipient \<Rightarrow> recipient" where
  "outcome_recipient now status resend_id reason r =
     r\<lparr>cr_status := (if status = ''sent'' then ''sent'' else ''failed''), cr_message_id := Some resend_id,
       cr_failure_reason := (if reason = [] then None else Some reason),
       cr_sent_at := (if status = ''sent'' then Some (iso now) else None)\<rparr>"

definition apply_pack_outcome :: "crypto \<Rightarrow> int \<Rightarrow> held \<Rightarrow> vault \<Rightarrow> vault" where
  "apply_pack_outcome cr now p v =
     (let pid = hd_id p; status = hd_status p; resend_id = opt_or (hd_message_id p) []; reason = opt_or (hd_failure p) [] in
      if status = ''unknown'' then apply_unknown_outcome cr now pid reason v
      else
        (case job_of_pack pid v of
           None \<Rightarrow> v
         | Some j \<Rightarrow>
             (let v1 = v\<lparr>v_jobs := update_where (\<lambda>k. dj_job_id k = pid) (outcome_job now status resend_id) (v_jobs v),
                         v_recipients := update_where (\<lambda>r. of_job j r \<and> cr_status r \<notin> set engaged)
                           (outcome_recipient now status resend_id reason) (v_recipients v)\<rparr>
              in if status \<noteq> ''sent'' then outcome_audit cr now ''pack.outcome_failed'' pid status reason v1 else v1)))"

text \<open>One poll; the loop asks for 200 outcomes and skips the round while it has no bearer.\<close>

definition outcomes_round ::
  "crypto \<Rightarrow> int \<Rightarrow> string \<Rightarrow> (string \<Rightarrow> nat \<Rightarrow> exc + status_answer) \<Rightarrow> vault \<Rightarrow> unit vresult" where
  "outcomes_round cr now bearer cloud v =
     (if bearer = [] then (v, Inr ())
      else
        (case cloud (get_outcome_cursor v) 200 of
           Inl e \<Rightarrow> (v, if is_401 e then Inr () else Inl e)
         | Inr a \<Rightarrow>
             (let packs = map held_of (sa_packs a) in
              if packs = [] then (v, Inr ())
              else
                (let v1 = fold (apply_pack_outcome cr now) packs v
                 in (if sa_max_id a = [] then v1 else set_outcome_cursor now (sa_max_id a) v1, Inr ())))))"

section \<open>Inbox rows\<close>

definition payload_text :: "string \<Rightarrow> string \<Rightarrow> json \<Rightarrow> string" where
  "payload_text k d payload = (case jget_or k (JStr d) payload of Some (JStr s) \<Rightarrow> s | _ \<Rightarrow> [])"

definition suppress_reasons :: "string list" where
  "suppress_reasons = [''unsubscribe'', ''complaint'', ''bounce_hard'', ''manual'', ''erasure_request'']"

text \<open>\<open>INSERT OR IGNORE\<close>: a known hash, and a row that violates the check of the reason, are left out.\<close>

definition add_suppression :: "string \<Rightarrow> string \<Rightarrow> string option \<Rightarrow> string \<Rightarrow> vault \<Rightarrow> vault" where
  "add_suppression h reason source added_at v =
     (if reason \<in> set suppress_reasons then
        v\<lparr>v_suppressions := insert_or_ignore sh_email_hash
            \<lparr>sh_email_hash = h, sh_reason = reason, sh_added_at = added_at, sh_source = source, sh_scope = ''all''\<rparr> (v_suppressions v)\<rparr>
      else v)"

definition hash_of_email :: "crypto \<Rightarrow> string \<Rightarrow> string" where
  "hash_of_email cr email = sha256_hex cr (lower email)"

definition contact_email :: "vault \<Rightarrow> int \<Rightarrow> string option" where
  "contact_email v cid = map_option ct_email (find (\<lambda>c. ct_id c = cid) (v_contacts v))"

definition set_recipient :: "int \<Rightarrow> (recipient \<Rightarrow> recipient) \<Rightarrow> vault \<Rightarrow> vault" where
  "set_recipient i f v = v\<lparr>v_recipients := update_where (\<lambda>r. cr_id r = i) f (v_recipients v)\<rparr>"

definition apply_webhook_event :: "crypto \<Rightarrow> int \<Rightarrow> json \<Rightarrow> vault \<Rightarrow> vault" where
  "apply_webhook_event cr now payload v =
     (let event_type = payload_text ''event_type'' [] payload; message_id = payload_text ''message_id'' [] payload in
      if message_id = [] then v
      else
        (case find (\<lambda>r. cr_message_id r = Some message_id) (v_recipients v) of
           None \<Rightarrow> v
         | Some row \<Rightarrow>
             if cr_status row \<in> {''bounced'', ''complained''} \<and> event_type \<notin> {''email.bounced'', ''email.complained''} then v
             else if event_type = ''email.opened'' then v
             else if event_type = ''email.clicked'' then
               set_recipient (cr_id row) (\<lambda>r. r\<lparr>cr_status := ''clicked'', cr_clicked_at := Some (iso now)\<rparr>) v
             else if event_type = ''email.bounced'' then
               (let v1 = set_recipient (cr_id row) (\<lambda>r. r\<lparr>cr_status := ''bounced'', cr_bounced_at := Some (iso now)\<rparr>) v in
                (case contact_email v (cr_contact_id row) of
                   None \<Rightarrow> v1
                 | Some email \<Rightarrow> add_suppression (hash_of_email cr email) ''bounce_hard'' (Some ''auto:materialiser'') (sql_time now) v1))
             else if event_type = ''email.complained'' then
               set_recipient (cr_id row) (\<lambda>r. r\<lparr>cr_status := ''complained'', cr_complained_at := Some (iso now)\<rparr>) v
             else v))"

definition apply_suppression_event :: "int \<Rightarrow> json \<Rightarrow> vault \<Rightarrow> vault" where
  "apply_suppression_event now payload v =
     (let email_hash = payload_text ''email_hash'' [] payload in
      if email_hash = [] then v
      else
        (case jget_or ''added_at'' (JStr (iso now)) payload of
           Some (JStr added_at) \<Rightarrow>
             add_suppression email_hash (payload_text ''reason'' ''unsubscribe'' payload)
               (case jget_or ''source'' (JStr ''sync'') payload of Some (JStr s) \<Rightarrow> Some s | _ \<Rightarrow> None) added_at v
         | _ \<Rightarrow> v))"

definition mark_materialised :: "int \<Rightarrow> int \<Rightarrow> vault \<Rightarrow> vault" where
  "mark_materialised i now v =
     v\<lparr>v_inbox := update_where (\<lambda>r. ib_event_id r = i) (\<lambda>r. r\<lparr>ib_materialised_at := Some (iso now)\<rparr>) (v_inbox v)\<rparr>"

text \<open>The rows a round selects, the payload of one, and its effect; \<open>None\<close> is an exception, which
  the loop logs and passes over.\<close>

definition materialisable :: "string list" where
  "materialisable = [''webhook_event'', ''suppression'']"

definition due_rows :: "vault \<Rightarrow> inbox_row list" where
  "due_rows v =
     take 50 (sort_key ib_event_id (filter (\<lambda>r. ib_materialised_at r = None \<and> ib_table_name r \<in> set materialisable) (v_inbox v)))"

definition row_payload :: "crypto \<Rightarrow> key_bundle \<Rightarrow> bytes \<Rightarrow> json option" where
  "row_payload cr kb b =
     (case decrypt_for_both cr b kb of
        Inl e \<Rightarrow> None
      | Inr plaintext \<Rightarrow> (case json_loads cr plaintext of Some (JObj kvs) \<Rightarrow> Some (JObj kvs) | _ \<Rightarrow> None))"

definition materialise_row :: "crypto \<Rightarrow> key_bundle \<Rightarrow> int \<Rightarrow> inbox_row \<Rightarrow> vault \<Rightarrow> vault option" where
  "materialise_row cr kb now row v =
     (case ib_payload row of
        None \<Rightarrow> Some (mark_materialised (ib_event_id row) now v)
      | Some b \<Rightarrow>
          (case row_payload cr kb b of
             None \<Rightarrow> None
           | Some payload \<Rightarrow>
               Some (mark_materialised (ib_event_id row) now
                 (if ib_table_name row = ''webhook_event'' then apply_webhook_event cr now payload v
                  else if ib_table_name row = ''suppression'' then apply_suppression_event now payload v
                  else v))))"

definition materialise_one :: "crypto \<Rightarrow> key_bundle \<Rightarrow> int \<Rightarrow> inbox_row \<Rightarrow> vault \<times> nat \<Rightarrow> vault \<times> nat" where
  "materialise_one cr kb now row st =
     (case materialise_row cr kb now row (fst st) of
        None \<Rightarrow> st
      | Some v \<Rightarrow> (v, snd st + 1))"

definition materialise_inbox_batch :: "crypto \<Rightarrow> key_bundle \<Rightarrow> int \<Rightarrow> vault \<Rightarrow> vault \<times> nat" where
  "materialise_inbox_batch cr kb now v = fold (materialise_one cr kb now) (due_rows v) (v, 0)"

definition stamp_pack_inbox_rows :: "int \<Rightarrow> vault \<Rightarrow> vault \<times> nat" where
  "stamp_pack_inbox_rows now v =
     (let rows = filter (\<lambda>r. ib_materialised_at r = None \<and> ib_table_name r = ''pack'') (v_inbox v)
      in (fold (\<lambda>r. mark_materialised (ib_event_id r) now) rows v, length rows))"

text \<open>One round of the loop; \<open>kb\<close> is the key bundle, once it could be loaded.\<close>

definition materialiser_round :: "crypto \<Rightarrow> key_bundle option \<Rightarrow> int \<Rightarrow> vault \<Rightarrow> vault" where
  "materialiser_round cr kb now v =
     (let v1 = fst (stamp_pack_inbox_rows now v) in
      case kb of None \<Rightarrow> v1 | Some k \<Rightarrow> fst (materialise_inbox_batch cr k now v1))"

section \<open>Lemmas on a round\<close>

definition pending_row :: "inbox_row \<Rightarrow> bool" where
  "pending_row r \<longleftrightarrow> ib_materialised_at r = None \<and> ib_table_name r \<in> set materialisable"

text \<open>A row whose payload can be read.\<close>

definition row_ok :: "crypto \<Rightarrow> key_bundle \<Rightarrow> inbox_row \<Rightarrow> bool" where
  "row_ok cr kb r \<longleftrightarrow> (case ib_payload r of None \<Rightarrow> True | Some b \<Rightarrow> row_payload cr kb b \<noteq> None)"

definition stamped :: "int set \<Rightarrow> string \<Rightarrow> inbox_row \<Rightarrow> inbox_row" where
  "stamped ids t r = (if ib_event_id r \<in> ids then r\<lparr>ib_materialised_at := Some t\<rparr> else r)"

lemma webhook_frame: "v_inbox (apply_webhook_event cr now p v) = v_inbox v" "v_jobs (apply_webhook_event cr now p v) = v_jobs v"
  by (simp_all add: apply_webhook_event_def add_suppression_def set_recipient_def Let_def split: option.splits)

lemma suppression_frame:
  "v_inbox (apply_suppression_event now p v) = v_inbox v" "v_recipients (apply_suppression_event now p v) = v_recipients v"
  by (simp_all add: apply_suppression_event_def add_suppression_def Let_def split: option.splits json.splits)

lemma stamped_simps [simp]:
  "ib_event_id (stamped ids t r) = ib_event_id r" "ib_table_name (stamped ids t r) = ib_table_name r"
  "ib_payload (stamped ids t r) = ib_payload r" "row_ok cr kb (stamped ids t r) = row_ok cr kb r"
  by (simp_all add: stamped_def row_ok_def)

lemma mark_inbox: "v_inbox (mark_materialised i now v) = map (stamped {i} (iso now)) (v_inbox v)"
  by (simp add: mark_materialised_def update_where_def stamped_def)

lemma materialise_row_inbox:
  "materialise_row cr kb now row v = (if row_ok cr kb row then Some (the (materialise_row cr kb now row v)) else None)"
  "row_ok cr kb row \<Longrightarrow> v_inbox (the (materialise_row cr kb now row v)) = map (stamped {ib_event_id row} (iso now)) (v_inbox v)"
  by (auto simp: materialise_row_def row_ok_def mark_inbox webhook_frame suppression_frame split: option.splits)

lemma materialise_rows_inbox:
  "v_inbox (fst (fold (materialise_one cr kb now) rows st)) =
     map (stamped (ib_event_id ` set (filter (row_ok cr kb) rows)) (iso now)) (v_inbox (fst st)) \<and>
   snd (fold (materialise_one cr kb now) rows st) = snd st + length (filter (row_ok cr kb) rows)"
proof (induction rows arbitrary: st)
  case Nil
  then show ?case by (simp add: stamped_def map_idI)
next
  case (Cons row rows)
  show ?case
  proof (cases "row_ok cr kb row")
    case True
    let ?v = "the (materialise_row cr kb now row (fst st))"
    have "materialise_one cr kb now row st = (?v, snd st + 1)"
      unfolding materialise_one_def by (subst materialise_row_inbox(1)) (simp add: True)
    with Cons.IH [of "(?v, snd st + 1)"] materialise_row_inbox(2) [OF True, of now "fst st"] True
    show ?thesis by (auto simp: stamped_def)
  next
    case False
    have "materialise_one cr kb now row st = st"
      unfolding materialise_one_def by (subst materialise_row_inbox(1)) (simp add: False)
    with Cons.IH [of st] False show ?thesis by simp
  qed
qed

text \<open>What a round leaves pending: everything but the readable rows among the first fifty.\<close>

lemma pending_after_batch:
  assumes "distinct (map ib_event_id (v_inbox v))"
  shows "filter pending_row (v_inbox (fst (materialise_inbox_batch cr kb now v))) =
     filter (\<lambda>r. r \<notin> set (filter (row_ok cr kb) (due_rows v))) (filter pending_row (v_inbox v))"
proof -
  define D where "D = set (filter (row_ok cr kb) (due_rows v))"
  have sub: "D \<subseteq> set (v_inbox v)" by (auto simp: D_def due_rows_def dest!: in_set_takeD)
  have mem: "ib_event_id r \<in> ib_event_id ` D \<longleftrightarrow> r \<in> D" if "r \<in> set (v_inbox v)" for r
    using assms sub that by (auto simp: distinct_map dest: inj_onD)
  have one: "filter pending_row [stamped (ib_event_id ` D) (iso now) r] = filter (\<lambda>r. r \<notin> D) (filter pending_row [r])"
    if "r \<in> set (v_inbox v)" for r
    using mem [OF that] by (simp add: stamped_def pending_row_def)
  have "filter pending_row (map (stamped (ib_event_id ` D) (iso now)) rows) = filter (\<lambda>r. r \<notin> D) (filter pending_row rows)"
    if "set rows \<subseteq> set (v_inbox v)" for rows
    using that
  proof (induction rows)
    case (Cons r rows)
    then show ?case using one [of r] by (simp split: if_splits)
  qed simp
  then show ?thesis using materialise_rows_inbox [of cr kb now "due_rows v" "(v, 0)"]
    by (simp add: materialise_inbox_batch_def D_def)
qed

lemma filter_take_bound:
  "length (filter (\<lambda>x. \<not> P x) xs) < n \<Longrightarrow>
   min (length (filter P xs)) (n - length (filter (\<lambda>x. \<not> P x) xs)) \<le> length (filter P (take n xs))"
proof -
  have "length (filter P (take n xs)) + length (filter (\<lambda>x. \<not> P x) (take n xs)) = min n (length xs)"
    by (metis length_take min.commute sum_length_filter_compl)
  moreover have "length (filter (\<lambda>x. \<not> P x) (take n xs)) \<le> length (filter (\<lambda>x. \<not> P x) xs)"
    by (metis append_take_drop_id filter_append length_append le_add1)
  moreover have "length (filter P xs) + length (filter (\<lambda>x. \<not> P x) xs) = length xs" by (rule sum_length_filter_compl)
  ultimately show ?thesis by linarith
qed

lemma length_filter_notin:
  assumes "distinct xs" "set ys \<subseteq> set xs" "distinct ys"
  shows "length (filter (\<lambda>x. x \<notin> set ys) xs) = length xs - length ys"
proof -
  have "length (filter (\<lambda>x. x \<notin> set ys) xs) = card (set xs - set ys)"
    using assms(1) distinct_length_filter [OF assms(1), of "\<lambda>x. x \<notin> set ys"] by (simp add: set_diff_eq Int_def conj_commute)
  also have "\<dots> = length xs - length ys"
    using assms by (simp add: card_Diff_subset distinct_card)
  finally show ?thesis .
qed

section \<open>Rounds of the materialiser\<close>

definition rounds :: "crypto \<Rightarrow> key_bundle \<Rightarrow> int list \<Rightarrow> vault \<Rightarrow> vault" where
  "rounds cr kb nows v = fold (\<lambda>now v. fst (materialise_inbox_batch cr kb now v)) nows v"

definition waiting :: "vault \<Rightarrow> inbox_row list" where
  "waiting v = filter pending_row (v_inbox v)"

definition hashes :: "vault \<Rightarrow> string set" where
  "hashes v = sh_email_hash ` set (v_suppressions v)"

text \<open>A row that asks for the suppression of a hash.\<close>

definition asks :: "crypto \<Rightarrow> key_bundle \<Rightarrow> inbox_row \<Rightarrow> string \<Rightarrow> bool" where
  "asks cr kb r h \<longleftrightarrow> ib_table_name r = ''suppression'' \<and>
     (case ib_payload r of
        None \<Rightarrow> False
      | Some b \<Rightarrow>
          (case row_payload cr kb b of
             None \<Rightarrow> False
           | Some p \<Rightarrow> payload_text ''email_hash'' [] p = h \<and> h \<noteq> [] \<and>
               payload_text ''reason'' ''unsubscribe'' p \<in> set suppress_reasons \<and>
               (case jget_or ''added_at'' (JStr []) p of Some (JStr a) \<Rightarrow> True | _ \<Rightarrow> False)))"

lemma add_suppression_hashes:
  "hashes (add_suppression h reason src a v) = (if reason \<in> set suppress_reasons then insert h (hashes v) else hashes v)"
  by (auto simp: hashes_def add_suppression_def set_insert_or_ignore)

lemma set_recipient_hashes [simp]: "hashes (set_recipient i f v) = hashes v"
  by (simp add: hashes_def set_recipient_def)

lemma mark_hashes [simp]: "hashes (mark_materialised i now v) = hashes v"
  by (simp add: hashes_def mark_materialised_def)

lemma apply_hashes_mono:
  "hashes v \<subseteq> hashes (apply_webhook_event cr now p v)" "hashes v \<subseteq> hashes (apply_suppression_event now p v)"
  by (auto simp: apply_webhook_event_def apply_suppression_event_def Let_def add_suppression_hashes split: option.splits json.splits)

lemma apply_asked:
  assumes "asks cr kb r h" "ib_payload r = Some b" "row_payload cr kb b = Some p"
  shows "h \<in> hashes (apply_suppression_event now p v)"
proof -
  have a: "payload_text ''email_hash'' [] p = h" "h \<noteq> []" "payload_text ''reason'' ''unsubscribe'' p \<in> set suppress_reasons"
    "case jget_or ''added_at'' (JStr []) p of Some (JStr a) \<Rightarrow> True | _ \<Rightarrow> False"
    using assms by (simp_all add: asks_def)
  from a(4) have "\<exists>a. jget_or ''added_at'' (JStr (iso now)) p = Some (JStr a)"
    by (auto simp: jget_or_def split: json.splits option.splits)
  with a(1-3) show ?thesis by (auto simp: apply_suppression_event_def Let_def add_suppression_hashes)
qed

lemma materialise_row_hashes:
  assumes "materialise_row cr kb now row v = Some v'"
  shows "hashes v \<subseteq> hashes v' \<and> (asks cr kb row h \<longrightarrow> h \<in> hashes v')"
proof (cases "ib_payload row")
  case None
  with assms show ?thesis by (auto simp: materialise_row_def asks_def)
next
  case (Some b)
  with assms obtain p where p: "row_payload cr kb b = Some p"
    and v': "v' = mark_materialised (ib_event_id row) now
       (if ib_table_name row = ''webhook_event'' then apply_webhook_event cr now p v
        else if ib_table_name row = ''suppression'' then apply_suppression_event now p v else v)"
    by (auto simp: materialise_row_def split: option.splits)
  have "asks cr kb row h \<Longrightarrow> ib_table_name row = ''suppression''" by (simp add: asks_def)
  with v' apply_asked [OF _ Some p] apply_hashes_mono show ?thesis by auto
qed

lemma materialise_rows_hashes:
  "hashes (fst st) \<subseteq> hashes (fst (fold (materialise_one cr kb now) rows st)) \<and>
   (\<forall>r\<in>set rows. asks cr kb r h \<longrightarrow> h \<in> hashes (fst (fold (materialise_one cr kb now) rows st)))"
proof (induction rows arbitrary: st)
  case (Cons row rows)
  have 1: "hashes (fst st) \<subseteq> hashes (fst (materialise_one cr kb now row st)) \<and>
      (asks cr kb row h \<longrightarrow> h \<in> hashes (fst (materialise_one cr kb now row st)))"
  proof (cases "materialise_row cr kb now row (fst st)")
    case None
    then have "\<not> asks cr kb row h" by (auto simp: materialise_row_def asks_def split: option.splits)
    with None show ?thesis by (simp add: materialise_one_def)
  next
    case (Some v')
    with materialise_row_hashes [OF Some] show ?thesis by (simp add: materialise_one_def)
  qed
  with Cons.IH [of "materialise_one cr kb now row st"] show ?case by fastforce
qed simp

lemma distinct_inbox: "distinct (map ib_event_id (v_inbox v)) \<Longrightarrow> distinct (v_inbox v)"
  by (simp add: distinct_map)

lemma batch_step:
  assumes dist: "distinct (map ib_event_id (v_inbox v))"
    and bad: "length (filter (\<lambda>r. \<not> row_ok cr kb r) (waiting v)) < 50"
    and v': "v' = fst (materialise_inbox_batch cr kb now v)"
  shows "distinct (map ib_event_id (v_inbox v'))"
    and "filter (\<lambda>r. \<not> row_ok cr kb r) (waiting v') = filter (\<lambda>r. \<not> row_ok cr kb r) (waiting v)"
    and "length (filter (row_ok cr kb) (waiting v')) \<le>
           length (filter (row_ok cr kb) (waiting v)) - (50 - length (filter (\<lambda>r. \<not> row_ok cr kb r) (waiting v)))"
    and "hashes v \<subseteq> hashes v'"
    and "r \<in> set (waiting v) \<Longrightarrow> asks cr kb r h \<Longrightarrow> h \<in> hashes v' \<or> r \<in> set (waiting v')"
proof -
  let ?ok = "row_ok cr kb" and ?done = "filter (row_ok cr kb) (due_rows v)"
  have w: "waiting v' = filter (\<lambda>r. r \<notin> set ?done) (waiting v)"
    using pending_after_batch [OF dist] by (simp add: v' waiting_def)
  show "distinct (map ib_event_id (v_inbox v'))"
    using dist materialise_rows_inbox [of cr kb now "due_rows v" "(v, 0)"]
    by (simp add: v' materialise_inbox_batch_def o_def)
  show "filter (\<lambda>r. \<not> ?ok r) (waiting v') = filter (\<lambda>r. \<not> ?ok r) (waiting v)"
    unfolding w by (auto intro!: filter_cong)
  let ?s = "sort_key ib_event_id (waiting v)"
  have due: "due_rows v = take 50 ?s" by (simp add: due_rows_def waiting_def pending_row_def [abs_def])
  have len: "length (filter P ?s) = length (filter P (waiting v))" for P
    by (metis filter_sort length_sort)
  have dw: "distinct (waiting v)" using distinct_inbox [OF dist] by (simp add: waiting_def)
  have d: "distinct ?done" "set ?done \<subseteq> set (filter ?ok (waiting v))"
    using dw by (auto simp: due dest!: in_set_takeD)
  have "filter ?ok (waiting v') = filter (\<lambda>r. r \<notin> set ?done) (filter ?ok (waiting v))"
    unfolding w by (auto intro!: filter_cong)
  then have "length (filter ?ok (waiting v')) = length (filter ?ok (waiting v)) - length ?done"
    using length_filter_notin [of "filter ?ok (waiting v)" ?done] dw d by simp
  moreover have "min (length (filter ?ok (waiting v))) (50 - length (filter (\<lambda>r. \<not> ?ok r) (waiting v))) \<le> length ?done"
    using filter_take_bound [of ?ok ?s 50] bad by (simp add: len due)
  ultimately show "length (filter ?ok (waiting v')) \<le>
      length (filter ?ok (waiting v)) - (50 - length (filter (\<lambda>r. \<not> ?ok r) (waiting v)))" by linarith
  note h = materialise_rows_hashes [of "(v, 0)" cr kb now "due_rows v"]
  show "hashes v \<subseteq> hashes v'" using h by (simp add: v' materialise_inbox_batch_def)
  show "h \<in> hashes v' \<or> r \<in> set (waiting v')" if r: "r \<in> set (waiting v)" "asks cr kb r h"
  proof (cases "r \<in> set ?done")
    case True
    then show ?thesis using h [of h] r(2) by (auto simp: v' materialise_inbox_batch_def)
  next
    case False
    with r(1) w show ?thesis by simp
  qed
qed

lemma rounds_progress:
  "distinct (map ib_event_id (v_inbox v)) \<Longrightarrow> length (filter (\<lambda>r. \<not> row_ok cr kb r) (waiting v)) = bad \<Longrightarrow> bad < 50 \<Longrightarrow>
   length (filter (row_ok cr kb) (waiting v)) \<le> length nows * (50 - bad) \<Longrightarrow>
   filter (row_ok cr kb) (waiting (rounds cr kb nows v)) = [] \<and> hashes v \<subseteq> hashes (rounds cr kb nows v) \<and>
   (\<forall>r\<in>set (waiting v). asks cr kb r h \<longrightarrow> h \<in> hashes (rounds cr kb nows v))"
proof (induction nows arbitrary: v)
  case Nil
  have "asks cr kb r h \<Longrightarrow> row_ok cr kb r" for r by (auto simp: asks_def row_ok_def split: option.splits)
  with Nil show ?case by (auto simp: rounds_def filter_empty_conv)
next
  case (Cons now nows)
  let ?v = "fst (materialise_inbox_batch cr kb now v)"
  note s = batch_step [where v = v and v' = ?v and cr = cr and kb = kb and now = now, OF Cons.prems(1) _ refl, unfolded Cons.prems(2), OF Cons.prems(3)]
  have b: "length (filter (\<lambda>r. \<not> row_ok cr kb r) (waiting ?v)) = bad" using s(2) Cons.prems(2) by simp
  have "length (filter (row_ok cr kb) (waiting ?v)) \<le> length nows * (50 - bad)"
    using s(3) Cons.prems(4) by simp
  from Cons.IH [OF s(1) b Cons.prems(3) this] s(4,5)
  show ?case by (fastforce simp: rounds_def)
qed

lemma rounds_blocked:
  "\<forall>r\<in>set (due_rows v). \<not> row_ok cr kb r \<Longrightarrow> rounds cr kb nows v = v"
proof (induction nows)
  case (Cons now nows)
  have "fold (materialise_one cr kb now) rows st = st" if "\<forall>r\<in>set rows. \<not> row_ok cr kb r" for rows st
    using that
  proof (induction rows)
    case (Cons r rows)
    then have "materialise_row cr kb now r (fst st) = None" by (subst materialise_row_inbox(1)) simp
    with Cons show ?case by (simp add: materialise_one_def)
  qed simp
  with Cons show ?case by (simp add: rounds_def materialise_inbox_batch_def)
qed (simp add: rounds_def)

section \<open>Properties\<close>

text \<open>C20: as long as fewer than fifty of the waiting inbox rows cannot be read, they hold nothing up: after enough
  rounds every readable row has been applied, every address a readable suppression row names is
  suppressed, and no suppression was lost.\<close>

theorem materialiser_progress:
  assumes "distinct (map ib_event_id (v_inbox v))" "length (filter (\<lambda>r. \<not> row_ok cr kb r) (waiting v)) < 50"
    and "length (filter (row_ok cr kb) (waiting v)) \<le>
           length nows * (50 - length (filter (\<lambda>r. \<not> row_ok cr kb r) (waiting v)))"
  shows "filter (row_ok cr kb) (waiting (rounds cr kb nows v)) = [] \<and> hashes v \<subseteq> hashes (rounds cr kb nows v) \<and>
     (\<forall>r\<in>set (waiting v). asks cr kb r h \<longrightarrow> h \<in> hashes (rounds cr kb nows v))"
  using rounds_progress [OF assms(1) refl assms(2,3)] .

text \<open>Fifty unreadable rows with the smallest ids stop the materialiser for good: it selects the same fifty in
  every round, and no later suppression or delivery event is ever applied.\<close>

theorem unreadable_rows_block:
  assumes "\<forall>r\<in>set (due_rows v). \<not> row_ok cr kb r"
  shows "rounds cr kb nows v = v"
  using assms by (rule rounds_blocked)

definition status_of :: "int \<Rightarrow> vault \<Rightarrow> string option" where
  "status_of i v = map_option cr_status (find (\<lambda>r. cr_id r = i) (v_recipients v))"

lemma status_of_update:
  "(\<And>r. cr_id (f r) = cr_id r) \<Longrightarrow> v_recipients v' = update_where P f (v_recipients v) \<Longrightarrow>
   status_of i v' = map_option (\<lambda>r. cr_status (if P r then f r else r)) (find (\<lambda>r. cr_id r = i) (v_recipients v))"
  using find_update_where [of cr_id f i P "v_recipients v"] by (simp add: status_of_def option.map_comp o_def)

text \<open>The terminal learns the mail service's id of a message from the outcome poll alone, so a bounce that is
  materialised before that poll finds no recipient and is dropped for good: the recipient ends as sent,
  where the other order makes it bounced.\<close>

theorem early_webhook_is_lost:
  assumes job: "job_of_pack (hd_id p) v = Some j" and r: "r \<in> set (v_recipients v)" "of_job j r" "cr_status r = ''sent''"
    and ids: "distinct (map cr_id (v_recipients v))" and fresh: "\<forall>q\<in>set (v_recipients v). cr_message_id q \<noteq> Some m"
    and one: "\<forall>q\<in>set (v_recipients v). of_job j q \<longrightarrow> q = r" and m: "m \<noteq> []"
    and p: "hd_status p = ''sent''" "hd_message_id p = Some m"
    and ev: "payload_text ''event_type'' [] e = ''email.bounced''" "payload_text ''message_id'' [] e = m"
  shows "status_of (cr_id r) (apply_pack_outcome cr t2 p (apply_webhook_event cr t1 e v)) = Some ''sent'' \<and>
     status_of (cr_id r) (apply_webhook_event cr t1 e (apply_pack_outcome cr t2 p v)) = Some ''bounced''"
proof
  have f: "find (\<lambda>q. cr_id q = cr_id r) (v_recipients v) = Some r" using find_unique [OF ids r(1)] .
  let ?out = "outcome_recipient t2 ''sent'' m (opt_or (hd_failure p) [])"
  let ?P = "\<lambda>q. of_job j q \<and> cr_status q \<notin> set engaged"
  let ?v1 = "apply_pack_outcome cr t2 p v"
  have v1: "v_recipients ?v1 = update_where ?P ?out (v_recipients v)"
    using job p m by (simp add: apply_pack_outcome_def Let_def opt_or_def py_or_def)
  have P: "?P r" using r by (simp add: engaged_def)
  have oid: "cr_id (?out q) = cr_id q" for q by (simp add: outcome_recipient_def)
  have "find (\<lambda>q. cr_message_id q = Some m) (v_recipients v) = None" using fresh by (auto simp: find_None_iff)
  then have "apply_webhook_event cr t1 e v = v" by (simp add: apply_webhook_event_def Let_def ev(2))
  then show "status_of (cr_id r) (apply_pack_outcome cr t2 p (apply_webhook_event cr t1 e v)) = Some ''sent''"
    using status_of_update [OF oid v1, of "cr_id r"] f P by (simp add: outcome_recipient_def)
  have "\<exists>q. find (\<lambda>q. cr_message_id q = Some m) (v_recipients ?v1) = Some q"
    using r(1) P by (cases "find (\<lambda>q. cr_message_id q = Some m) (v_recipients ?v1)")
      (auto simp: find_None_iff v1 set_update_where outcome_recipient_def)
  then obtain q where q: "find (\<lambda>q. cr_message_id q = Some m) (v_recipients ?v1) = Some q" by blast
  then have "q \<in> set (v_recipients ?v1)" "cr_message_id q = Some m" using find_keyD [OF q] by simp_all
  then have q': "q = ?out r" using fresh one unfolding v1 set_update_where by (auto split: if_splits)
  let ?b = "\<lambda>x. x\<lparr>cr_status := ''bounced'', cr_bounced_at := Some (iso t1)\<rparr>"
  have "v_recipients (apply_webhook_event cr t1 e ?v1) = update_where (\<lambda>x. cr_id x = cr_id r) ?b (v_recipients ?v1)"
    using q q' m by (simp add: apply_webhook_event_def Let_def ev outcome_recipient_def set_recipient_def add_suppression_def split: option.splits)
  from status_of_update [OF _ this, of "cr_id r"] find_update_where [of cr_id ?out "cr_id r" ?P "v_recipients v"] oid f
  show "status_of (cr_id r) (apply_webhook_event cr t1 e ?v1) = Some ''bounced''"
    by (simp add: v1)
qed

section \<open>Witnesses\<close>

definition demo_recipient :: recipient where
  "demo_recipient =
     \<lparr>cr_id = 3, cr_campaign_id = 1, cr_contact_id = 2, cr_message_id = None, cr_status = ''sent'', cr_sent_at = None, cr_delivered_at = None,
      cr_opened_at = None, cr_clicked_at = None, cr_bounced_at = None, cr_complained_at = None, cr_failure_reason = None,
      cr_batch_no = Some 1, cr_is_seed = 0\<rparr>"

definition demo_job :: job where
  "demo_job =
     \<lparr>dj_job_id = ''p1'', dj_campaign_id = 1, dj_recipient_id = 2, dj_recipient_hash = [], dj_status = ''dispatched'', dj_dispatched_at = [],
      dj_acked_at = None, dj_completed_at = None, dj_content_hash = [], dj_resend_message_id = None\<rparr>"

definition demo_vault :: vault where
  "demo_vault = empty_vault\<lparr>v_recipients := [demo_recipient], v_jobs := [demo_job]\<rparr>"

definition demo_bounce :: json where
  "demo_bounce = JObj [(''event_type'', JStr ''email.bounced''), (''message_id'', JStr ''m1'')]"

definition demo_outcome :: held where
  "demo_outcome = \<lparr>hd_id = ''p1'', hd_status = ''sent'', hd_message_id = Some ''m1'', hd_failure = None\<rparr>"

theorem early_webhook_is_lost_witness:
  "status_of 3 (apply_pack_outcome (plain_crypto JNull) 9 demo_outcome (apply_webhook_event (plain_crypto JNull) 8 demo_bounce demo_vault)) = Some ''sent'' \<and>
   status_of 3 (apply_webhook_event (plain_crypto JNull) 8 demo_bounce (apply_pack_outcome (plain_crypto JNull) 9 demo_outcome demo_vault)) = Some ''bounced''"
proof -
  have j: "job_of_pack (hd_id demo_outcome) demo_vault = Some demo_job"
    by (simp add: job_of_pack_def demo_vault_def demo_outcome_def demo_job_def)
  have i: "cr_id demo_recipient = 3" by (simp add: demo_recipient_def)
  show ?thesis
    by (rule early_webhook_is_lost [OF j, of demo_recipient "''m1''" demo_bounce "plain_crypto JNull" 9 8, unfolded i])
      (simp_all add: demo_vault_def demo_recipient_def demo_job_def of_job_def demo_outcome_def demo_bounce_def payload_text_def jget_or_def)
qed

definition demo_inbox_row :: "int \<Rightarrow> bytes option \<Rightarrow> inbox_row" where
  "demo_inbox_row i b =
     \<lparr>ib_event_id = i, ib_table_name = ''suppression'', ib_row_id = [], ib_revision = 0, ib_actor = [], ib_modified_at = [], ib_key_id = [],
      ib_payload = b, ib_deleted = 0, ib_received_at = [], ib_materialised_at = None\<rparr>"

definition no_bundle :: key_bundle where
  "no_bundle = \<lparr>kb_role = [], kb_own_priv = [], kb_peer_pub = [], kb_k_temp = None\<rparr>"

lemma demo_unreadable: "\<not> row_ok (plain_crypto JNull) no_bundle (demo_inbox_row i (Some []))"
  by (simp add: row_ok_def demo_inbox_row_def row_payload_def decrypt_for_both_def open_both_def plain_crypto_def jget_def)

theorem materialiser_progress_witness:
  "filter (row_ok (plain_crypto JNull) no_bundle)
     (waiting (rounds (plain_crypto JNull) no_bundle [5] (empty_vault\<lparr>v_inbox := [demo_inbox_row 1 (Some []), demo_inbox_row 2 None]\<rparr>))) = []"
proof -
  let ?v = "empty_vault\<lparr>v_inbox := [demo_inbox_row 1 (Some []), demo_inbox_row 2 None]\<rparr>"
  have d: "distinct (map ib_event_id (v_inbox ?v))" by (simp add: demo_inbox_row_def)
  have w: "waiting ?v = [demo_inbox_row 1 (Some []), demo_inbox_row 2 None]"
    by (simp add: waiting_def pending_row_def demo_inbox_row_def materialisable_def)
  have ok: "row_ok (plain_crypto JNull) no_bundle (demo_inbox_row 2 None)" by (simp add: row_ok_def demo_inbox_row_def)
  show ?thesis
    using materialiser_progress [OF d, of "plain_crypto JNull" no_bundle "[5]"] by (simp add: w ok demo_unreadable)
qed

theorem unreadable_rows_block_witness:
  "rounds (plain_crypto JNull) no_bundle [5, 15, 25] (empty_vault\<lparr>v_inbox := map (\<lambda>i. demo_inbox_row i (Some [])) [1..50]\<rparr>) =
     empty_vault\<lparr>v_inbox := map (\<lambda>i. demo_inbox_row i (Some [])) [1..50]\<rparr>"
proof (rule unreadable_rows_block, rule ballI)
  fix r assume "r \<in> set (due_rows (empty_vault\<lparr>v_inbox := map (\<lambda>i. demo_inbox_row i (Some [])) [1..50]\<rparr>))"
  then have "r \<in> (\<lambda>i. demo_inbox_row i (Some [])) ` {1..50}" by (auto simp: due_rows_def dest!: in_set_takeD)
  with demo_unreadable show "\<not> row_ok (plain_crypto JNull) no_bundle r" by blast
qed

end
