(* ===== verification/Mail_Render.thy ===== *)
theory Mail_Render
  imports Py_Text Cloud_Compliance Terminal_Db
begin

text \<open>
  The content of one mail (terminal/launch.py): the links, the template variables, the footer that
  compliance asks for, the headers, and the checks that nothing unfilled goes out. A setting is
  read through \<open>conf\<close>, the value of \<open>settings.get(key)\<close>; the HMAC, the hash and the encoded-word
  form of a name outside ASCII are the library's.
\<close>

section \<open>Errors of a launch\<close>

text \<open>The exceptions of launch.py, and any other one with its text.\<close>

datatype launch_error =
    LaunchError string
  | RelaunchConflict string
  | LaunchRetryable string
  | CampaignClosed string
  | LaunchPushError string
  | OtherError string

section \<open>Tokens\<close>

definition conf_or :: "(string \<Rightarrow> string option) \<Rightarrow> string \<Rightarrow> string \<Rightarrow> string" where
  "conf_or conf key d = opt_or (conf key) d"

definition conf_int :: "(string \<Rightarrow> string option) \<Rightarrow> string \<Rightarrow> int \<Rightarrow> int" where
  "conf_int conf key d = int_or (conf key) d"

definition launch_secret :: "token_lib \<Rightarrow> (string \<Rightarrow> string option) \<Rightarrow> string \<Rightarrow> bytes" where
  "launch_secret lib conf kind =
     token_secret lib kind (conf (if kind = ''unsub'' then ''unsub_secret'' else ''erasure_secret''))"

definition mint_token ::
  "token_lib \<Rightarrow> (string \<Rightarrow> string option) \<Rightarrow> int \<Rightarrow> string \<Rightarrow> string \<Rightarrow> string \<Rightarrow> int \<Rightarrow> string" where
  "mint_token lib conf now nonce kind email_hash ttl_s =
     sign_payload lib (launch_secret lib conf kind) (token_payload email_hash nonce (now + ttl_s))"

section \<open>Rendering\<close>

definition braced :: "string \<Rightarrow> string" where
  "braced k = ''{{'' @ k @ ''}}''"

definition fill_vars :: "(string \<times> string) list \<Rightarrow> string \<Rightarrow> string" where
  "fill_vars vars s = fold (\<lambda>(k, x) s. replace_all (braced k) x s) vars s"

definition contact_vars :: "string \<Rightarrow> string \<Rightarrow> string \<Rightarrow> (string \<times> string) list" where
  "contact_vars email name first =
     [(''email'', email), (''name'', name), (''first_name'', first), (''firstName'', first), (''full_name'', name), (''fullName'', name)]"

type_synonym mail = "string \<times> string \<times> string"

text \<open>\<open>name.split()[0]\<close> of a name of spaces only is an \<open>IndexError\<close>.\<close>

definition first_name :: "string \<Rightarrow> launch_error + string" where
  "first_name name =
     (if name = [] then Inr []
      else case words name of [] \<Rightarrow> Inl (OtherError ''IndexError'') | w # ws \<Rightarrow> Inr w)"

definition fill_company :: "string option \<Rightarrow> string \<Rightarrow> string" where
  "fill_company company s = (case company of None \<Rightarrow> s | Some c \<Rightarrow> replace_all (braced ''companyName'') c s)"

definition render :: "template \<Rightarrow> string \<Rightarrow> string option \<Rightarrow> string option \<Rightarrow> launch_error + mail" where
  "render tmpl email contact_name company =
     (let name = opt_or contact_name [] in
      bindE (first_name name) (\<lambda>first.
        let fill = (\<lambda>s. fill_company company (fill_vars (contact_vars email name first) s))
        in Inr (fill (tp_subject tmpl), fill (tp_html_body tmpl), fill (opt_or (tp_text_body tmpl) []))))"

text \<open>The expression \<open>\{\{[^{}]*\}\}\<close> at one position, and all its matches.\<close>

definition brace :: "char \<Rightarrow> bool" where
  "brace c \<longleftrightarrow> c = CHR ''{'' \<or> c = CHR ''}''"

definition match_token :: "string \<Rightarrow> string option" where
  "match_token s =
     (if starts_with s ''{{'' then
        (let body = takeWhile (\<lambda>c. \<not> brace c) (drop 2 s); rest = dropWhile (\<lambda>c. \<not> brace c) (drop 2 s)
         in if starts_with rest ''}}'' then Some (braced body) else None)
      else None)"

function find_tokens :: "string \<Rightarrow> string list" where
  "find_tokens [] = []"
| "find_tokens (c # cs) =
     (case match_token (c # cs) of
        Some tok \<Rightarrow> tok # find_tokens (drop (length tok - 1) cs)
      | None \<Rightarrow> find_tokens cs)"
  by pat_completeness auto

termination
  by (relation "measure length") auto

definition found_tokens :: "mail \<Rightarrow> string list" where
  "found_tokens m = (case m of (s, h, t) \<Rightarrow> sort (remdups (find_tokens s @ find_tokens h @ find_tokens t)))"

definition has_open_brace :: "mail \<Rightarrow> bool" where
  "has_open_brace m = (case m of (s, h, t) \<Rightarrow> contains s ''{{'' \<or> contains h ''{{'' \<or> contains t ''{{'')"

definition assert_sendable :: "mail \<Rightarrow> launch_error + unit" where
  "assert_sendable m =
     (if has_open_brace m then
        Inl (LaunchError (''unfilled template variables: '' @
          join '', '' (if found_tokens m = [] then [''{{''] else found_tokens m) @
          '' - use only the variables listed on the Templates page''))
      else Inr ())"

section \<open>Text of a page\<close>

text \<open>\<open>re.sub\<close> with a matcher that gives the text after its match.\<close>

function sub_all :: "(string \<Rightarrow> string option) \<Rightarrow> string \<Rightarrow> string \<Rightarrow> string" where
  "sub_all m new [] = []"
| "sub_all m new (c # cs) =
     (case m (c # cs) of
        Some rest \<Rightarrow> if length rest \<le> length cs then new @ sub_all m new rest else c # sub_all m new cs
      | None \<Rightarrow> c # sub_all m new cs)"
  by pat_completeness auto

termination
  by (relation "measure (\<lambda>(m, new, s). length s)") auto

definition newline :: string where "newline = [CHR 0x0A]"

text \<open>\<open><br\s*/?>\<close>, \<open></p>\<close>, \<open><[^>]+>\<close> and three newlines or more.\<close>

definition match_br :: "string \<Rightarrow> string option" where
  "match_br s =
     (if starts_with (lower (take 3 s)) ''<br'' then
        (let r = dropWhile is_space (drop 3 s); r2 = (if starts_with r ''/'' then drop 1 r else r)
         in if starts_with r2 ''>'' then Some (drop 1 r2) else None)
      else None)"

definition match_p :: "string \<Rightarrow> string option" where
  "match_p s = (if starts_with (lower (take 4 s)) ''</p>'' then Some (drop 4 s) else None)"

definition match_tag :: "string \<Rightarrow> string option" where
  "match_tag s =
     (if starts_with s ''<'' then
        (let r = dropWhile (\<lambda>c. c \<noteq> CHR ''>'') (drop 1 s)
         in if r \<noteq> [] \<and> length r < length (drop 1 s) then Some (drop 1 r) else None)
      else None)"

definition match_newlines :: "string \<Rightarrow> string option" where
  "match_newlines s =
     (if starts_with s (newline @ newline @ newline) then Some (dropWhile (\<lambda>c. c = CHR 0x0A) s) else None)"

definition html_to_text :: "string \<Rightarrow> string" where
  "html_to_text html =
     strip (sub_all match_newlines (newline @ newline) (sub_all match_tag [] (sub_all match_p (newline @ newline) (sub_all match_br newline html))))"

section \<open>Compliance\<close>

definition unsub_tokens :: "string list" where
  "unsub_tokens = [''{{unsubscribeUrl}}'', ''{{unsubscribe_url}}'', ''{{unsubUrl}}'']"

definition erasure_tokens :: "string list" where
  "erasure_tokens = [''{{erasureUrl}}'', ''{{erasure_url}}'', ''{{deleteUrl}}'']"

definition sub_links :: "string \<Rightarrow> string \<Rightarrow> string \<Rightarrow> string" where
  "sub_links unsub_url erasure_url s =
     fold (\<lambda>tok s. replace_all tok erasure_url s) erasure_tokens (fold (\<lambda>tok s. replace_all tok unsub_url s) unsub_tokens s)"

definition names_unsub :: "string \<Rightarrow> bool" where
  "names_unsub s \<longleftrightarrow> contains s ''unsubscribeUrl'' \<or> contains s ''unsubscribe_url''"

definition quoted :: "string \<Rightarrow> string" where
  "quoted s = CHR 0x27 # s @ [CHR 0x27]"

definition footer_html :: "string \<Rightarrow> string \<Rightarrow> string \<Rightarrow> string" where
  "footer_html footer_addr unsub_url erasure_url =
     ''<hr style='' @ quoted ''margin:24px 0;border:0;border-top:1px solid #ddd'' @ ''>'' @
     ''<p style='' @ quoted ''font-size:11px;color:#888;line-height:1.5'' @ ''>'' @ footer_addr @ ''<br>'' @
     ''<a href='' @ quoted unsub_url @ '' style='' @ quoted ''color:#666'' @ ''>Unsubscribe</a> '' @ [CHR 0xC2, CHR 0xB7, CHR '' ''] @
     ''<a href='' @ quoted erasure_url @ '' style='' @ quoted ''color:#666'' @ ''>Delete my data</a></p>''"

definition footer_text :: "string \<Rightarrow> string \<Rightarrow> string \<Rightarrow> string" where
  "footer_text footer_addr unsub_url erasure_url =
     newline @ newline @ ''---'' @ newline @ footer_addr @ newline @ ''Unsubscribe: '' @ unsub_url @ newline @
     ''Delete my data: '' @ erasure_url @ newline"

definition inject_compliance ::
  "(string \<Rightarrow> string option) \<Rightarrow> string \<Rightarrow> string \<Rightarrow> string \<Rightarrow> string \<Rightarrow> string \<Rightarrow> string \<times> string" where
  "inject_compliance conf html text unsub_url erasure_url kind =
     (let footer_addr = conf_or conf ''email_footer_address'' [];
          had_unsub_token = names_unsub html \<or> names_unsub text;
          html1 = sub_links unsub_url erasure_url html;
          text1 = sub_links unsub_url erasure_url text
      in
      if kind = ''promotional'' then
        (let html2 = (if \<not> had_unsub_token \<and> footer_addr \<noteq> [] then html1 @ footer_html footer_addr unsub_url erasure_url else html1);
             text2 = (if text1 = [] then html_to_text html2 else text1);
             text3 = (if \<not> had_unsub_token then text2 @ footer_text footer_addr unsub_url erasure_url else text2)
         in (html2, text3))
      else (html1, if text1 = [] then html_to_text html1 else text1))"

definition list_unsub_headers :: "string \<Rightarrow> (string \<times> string) list" where
  "list_unsub_headers unsub_url =
     [(''List-Unsubscribe'', ''<'' @ unsub_url @ ''>''), (''List-Unsubscribe-Post'', ''List-Unsubscribe=One-Click'')]"

section \<open>The sender\<close>

text \<open>\<open>email.utils.formataddr\<close>; \<open>encoded\<close> is the encoded word of a name outside ASCII.\<close>

definition special :: "char \<Rightarrow> bool" where
  "special c \<longleftrightarrow> c \<in> set (''][()<>@,:;.'' @ [CHR 0x5C, CHR 0x22])"

definition escape :: "string \<Rightarrow> string" where
  "escape s = concat (map (\<lambda>c. if c = CHR 0x5C \<or> c = CHR 0x22 then [CHR 0x5C, c] else [c]) s)"

definition formataddr :: "(string \<Rightarrow> string) \<Rightarrow> string \<Rightarrow> string \<Rightarrow> launch_error + string" where
  "formataddr encoded name address =
     (if \<not> ascii address then Inl (OtherError ''UnicodeEncodeError'')
      else if name = [] then Inr address
      else if \<not> ascii name then Inr (encoded name @ '' <'' @ address @ ''>'')
      else
        (let quotes = (if \<exists>c\<in>set name. special c then [CHR 0x22] else [])
         in Inr (quotes @ escape name @ quotes @ '' <'' @ address @ ''>'')))"

definition from_header :: "(string \<Rightarrow> string) \<Rightarrow> string option \<Rightarrow> string \<Rightarrow> launch_error + string" where
  "from_header encoded name address =
     (let name1 = join '' '' (words (opt_or name [])) in
      if name1 = [] then Inr address else formataddr encoded name1 address)"

section \<open>Lemmas\<close>

lemma starts_with_refl: "starts_with (p @ r) p"
  by (simp only: starts_with_iff) blast

lemma replace_present: "p \<noteq> [] \<Longrightarrow> contains s p \<Longrightarrow> contains (replace_all p new s) new"
proof (induction p new s rule: replace_all.induct)
  case (2 p new c cs)
  show ?case
  proof (cases "starts_with (c # cs) p")
    case True
    then show ?thesis using 2(3) by (simp only: replace_all.simps) (auto simp: contains_iff)
  next
    case False
    then have "contains cs p" using 2(4) by simp
    with 2(2) [of] False 2(3) have "contains (replace_all p new cs) new" by simp
    with False show ?thesis by simp
  qed
qed (auto simp: contains_iff)

lemma replace_prefix: "c \<notin> set u \<Longrightarrow> hd p = c \<Longrightarrow> p \<noteq> [] \<Longrightarrow> replace_all p new (u @ b) = u @ replace_all p new b"
proof (induction u)
  case (Cons x u)
  then have "\<not> starts_with ((x # u) @ b) p" by (cases p) auto
  with Cons show ?case by simp
qed simp

text \<open>A token in braces cannot cut into a link: a link has no brace, and it has a slash, which no token has.\<close>

definition link :: "string \<Rightarrow> bool" where
  "link u \<longleftrightarrow> (\<forall>c\<in>set u. \<not> brace c) \<and> CHR ''/'' \<in> set u"

definition token :: "string \<Rightarrow> bool" where
  "token p \<longleftrightarrow> p \<noteq> [] \<and> hd p = CHR ''{'' \<and> last p = CHR ''}'' \<and> CHR ''/'' \<notin> set p"

lemma token_before_link:
  assumes t: "token p" and u: "link u" and s: "a @ u @ b = p @ r" and a: "a \<noteq> []"
  shows "length p \<le> length a"
proof (rule ccontr)
  assume "\<not> length p \<le> length a"
  then have l: "length a < length p" by simp
  obtain q where q: "p = a @ q" "u @ b = q @ r" and "q \<noteq> []"
  proof -
    have "take (length a) p = a" using s l by (metis append_eq_conv_conj take_append take_all_iff nat_less_le
      append_Nil2 diff_is_0_eq' take0)
    then have "p = a @ drop (length a) p" by (metis append_take_drop_id)
    with s l that [of "drop (length a) p"] show ?thesis by (metis append_assoc same_append_eq length_drop length_greater_0_conv zero_less_diff)
  qed
  have "\<not> length u \<le> length q"
  proof
    assume "length u \<le> length q"
    then have "set u \<subseteq> set q" using q(2) by (metis append_eq_append_conv_if append_take_drop_id set_append sup_ge1 set_take_subset take_all_iff)
    with t u q(1) show False by (auto simp: token_def link_def)
  qed
  then obtain w where "u = q @ w" using q(2) by (metis append_eq_append_conv2 le_add1 length_append)
  moreover have "last p \<in> set q" using q(1) \<open>q \<noteq> []\<close> by simp
  ultimately show False using t u by (auto simp: token_def link_def brace_def)
qed

lemma replace_keeps_link:
  assumes t: "token p" and u: "link u"
  shows "contains s u \<Longrightarrow> contains (replace_all p new s) u"
proof -
  have p: "p \<noteq> []" "hd p = CHR ''{''" using t by (simp_all add: token_def)
  have no: "CHR ''{'' \<notin> set u" using u by (auto simp: link_def brace_def)
  have "\<exists>a'. replace_all p new (a @ u @ b) = a' @ u @ replace_all p new b" for a b
  proof (induction "length a" arbitrary: a rule: less_induct)
    case less
    show ?case
    proof (cases a)
      case Nil
      then show ?thesis using replace_prefix [OF no p(2,1)] by (metis append_Nil)
    next
      case (Cons c a1)
      show ?thesis
      proof (cases "starts_with (c # a1 @ u @ b) p")
        case True
        then obtain r where r: "a @ u @ b = p @ r" unfolding starts_with_iff Cons by auto
        have l: "length p \<le> length a" using token_before_link [OF t u r] Cons by simp
        then have d: "drop (length p) (a @ u @ b) = drop (length p) a @ u @ b" by simp
        have "length (drop (length p) a) < length a" using p(1) Cons by (cases p) auto
        from less [OF this] obtain a' where "replace_all p new (drop (length p) a @ u @ b) = a' @ u @ replace_all p new b" by blast
        moreover have "replace_all p new (a @ u @ b) = new @ replace_all p new (drop (length p) (a @ u @ b))"
          using True p(1) Cons by simp
        ultimately show ?thesis using d by (intro exI [of _ "new @ a'"]) simp
      next
        case False
        from less [of a1] Cons obtain a' where "replace_all p new (a1 @ u @ b) = a' @ u @ replace_all p new b" by auto
        with False Cons show ?thesis by (intro exI [of _ "c # a'"]) simp
      qed
    qed
  qed
  then show "contains s u \<Longrightarrow> contains (replace_all p new s) u" unfolding contains_iff by metis
qed

lemma fold_links:
  assumes u: "link u" and t: "\<forall>p\<in>set toks. token p"
  shows "contains s u \<or> (\<exists>p\<in>set toks. contains s p) \<Longrightarrow> contains (fold (\<lambda>p s. replace_all p u s) toks s) u"
  using t
proof (induction toks arbitrary: s)
  case (Cons p toks)
  have "contains (replace_all p u s) u \<or> replace_all p u s = s"
    using replace_present [of p s u] replace_absent [of s p u] Cons.prems(2) by (auto simp: token_def)
  then have "contains (replace_all p u s) u \<or> (\<exists>q\<in>set toks. contains (replace_all p u s) q)"
    using Cons.prems replace_keeps_link [OF _ u, of p s u] replace_present [of p s u] by (auto simp: token_def)
  with Cons show ?case by simp
qed simp

lemma fold_keeps_link:
  "link u \<Longrightarrow> \<forall>p\<in>set toks. token p \<Longrightarrow> contains s u \<Longrightarrow> contains (fold (\<lambda>p s. replace_all p e s) toks s) u"
  by (induction toks arbitrary: s) (simp_all add: replace_keeps_link)

lemma link_tokens: "\<forall>p\<in>set unsub_tokens. token p" "\<forall>p\<in>set erasure_tokens. token p"
  by (simp_all add: unsub_tokens_def erasure_tokens_def token_def)

lemma sub_links_has:
  assumes "link u" "p \<in> set unsub_tokens" "contains s p"
  shows "contains (sub_links u e s) u"
proof -
  have "contains (fold (\<lambda>p s. replace_all p u s) unsub_tokens s) u"
    by (rule fold_links [OF assms(1) link_tokens(1)]) (use assms(2,3) in blast)
  from fold_keeps_link [OF assms(1) link_tokens(2) this] show ?thesis unfolding sub_links_def .
qed

lemma contains_append: "contains a p \<Longrightarrow> contains (a @ b) p" "contains b p \<Longrightarrow> contains (a @ b) p"
  unfolding contains_iff by (metis append_assoc)+

section \<open>Properties\<close>

text \<open>C21: a link minted at the terminal is accepted by the cloud's endpoints for the hash it was minted for, until its
  lifetime is over and as expired from then on, whenever both sides are configured with the same
  secrets, also when neither has any.\<close>

theorem terminal_link_verifies:
  assumes kind: "kind \<in> {''unsub'', ''erasure''}"
    and same: "\<forall>key\<in>{''unsub_secret'', ''erasure_secret''}. opt_or (snd (settings_get ev t key (Some []) m)) [] = opt_or (conf key) []"
    and json: "text_loads lib (compact_dumps lib (token_payload h nonce (now + ttl))) = Some (token_payload h nonce (now + ttl))"
  shows "snd (verify lib ev t later kind (mint_token lib conf now nonce kind h ttl) m) =
     (if now + ttl < later then Inl (TokenExpired ''expired'') else Inr h)"
proof -
  have "snd (secret_for lib ev t kind m) = Inr (launch_secret lib conf kind)"
    using kind same by (auto simp: secret_for_def launch_secret_def token_secret_def split: prod.splits)
  from verify_signed [OF this] json show ?thesis by (simp add: mint_token_def read_own_payload)
qed

text \<open>A promotional mail carries the unsubscribe link in its text or its HTML, wherever the author put the link
  variable and also when there is none and no footer address is configured, provided the template does
  not spell the variable's name outside its braces.\<close>

theorem promotional_has_unsub_link:
  assumes u: "link u" and inj: "inject_compliance conf html text u e ''promotional'' = (html', text')"
    and named: "names_unsub html \<or> names_unsub text \<Longrightarrow>
      \<exists>p\<in>{''{{unsubscribeUrl}}'', ''{{unsubscribe_url}}''}. contains html p \<or> contains text p"
  shows "contains html' u \<or> contains text' u"
proof (cases "names_unsub html \<or> names_unsub text")
  case False
  have "\<exists>a. text' = a @ footer_text (conf_or conf ''email_footer_address'' []) u e"
    using inj False by (auto simp: inject_compliance_def Let_def)
  moreover have "contains (footer_text f u e) u" for f
    unfolding contains_iff footer_text_def
    by (rule exI [of _ "newline @ newline @ ''---'' @ newline @ f @ newline @ ''Unsubscribe: ''"],
        rule exI [of _ "newline @ ''Delete my data: '' @ e @ newline"]) (simp only: append_assoc)
  ultimately show ?thesis using contains_append(2) by blast
next
  case True
  from named [OF this] obtain p where p: "p \<in> {''{{unsubscribeUrl}}'', ''{{unsubscribe_url}}''}" "contains html p \<or> contains text p" by blast
  then have q: "p \<in> set unsub_tokens" by (auto simp: unsub_tokens_def)
  have h: "html' = sub_links u e html" using inj True by (auto simp: inject_compliance_def Let_def)
  have t: "sub_links u e text \<noteq> [] \<Longrightarrow> text' = sub_links u e text" using inj True by (auto simp: inject_compliance_def Let_def)
  have ne: "contains [] u \<Longrightarrow> False" using u by (auto simp: link_def)
  from p(2) show ?thesis
  proof
    assume "contains html p"
    then show ?thesis using sub_links_has [OF u q] h by simp
  next
    assume "contains text p"
    then have c: "contains (sub_links u e text) u" using sub_links_has [OF u q] by simp
    then have "sub_links u e text \<noteq> []" using ne by auto
    with t c show ?thesis by simp
  qed
qed

text \<open>The check for the link variable looks for its bare name: a promotional template that mentions the name without
  the braces goes out with neither link nor footer.\<close>

theorem bare_name_drops_unsub_link:
  "inject_compliance conf ''see unsubscribeUrl'' ''x'' u e ''promotional'' = (''see unsubscribeUrl'', ''x'')"
  by (simp add: inject_compliance_def names_unsub_def sub_links_def unsub_tokens_def erasure_tokens_def)

text \<open>The From header has no line break, whatever name is stored for the sender, so a stored name cannot add a
  header.\<close>

theorem from_header_is_one_line:
  assumes "from_header encoded name address = Inr s"
    and "\<forall>c\<in>set address. c \<noteq> CHR 0x0A \<and> c \<noteq> CHR 0x0D" "\<And>n. \<forall>c\<in>set (encoded n). c \<noteq> CHR 0x0A \<and> c \<noteq> CHR 0x0D"
  shows "\<forall>c\<in>set s. c \<noteq> CHR 0x0A \<and> c \<noteq> CHR 0x0D"
proof -
  define n where "n = join '' '' (words (opt_or name []))"
  let ?plain = "\<lambda>s. \<forall>c\<in>set s. c \<noteq> CHR 0x0A \<and> c \<noteq> CHR 0x0D"
  have "\<forall>c\<in>set n. c \<noteq> CHR 0x0A \<and> c \<noteq> CHR 0x0D"
  proof
    fix c assume "c \<in> set n"
    then have "c = CHR '' '' \<or> (\<exists>w\<in>set (words (opt_or name [])). c \<in> set w)" using set_join unfolding n_def by fastforce
    then show "c \<noteq> CHR 0x0A \<and> c \<noteq> CHR 0x0D" using words_no_space by (fastforce simp: is_space_def)
  qed
  then have e: "?plain (escape n)" by (auto simp: escape_def split: if_splits)
  have three: "s = address \<or> s = encoded n @ '' <'' @ address @ ''>'' \<or> (\<exists>q\<in>{[], [CHR 0x22]}. s = q @ escape n @ q @ '' <'' @ address @ ''>'')"
    using assms(1) unfolding from_header_def n_def [symmetric] formataddr_def Let_def by (auto split: if_splits)
  have c: "?plain (encoded n @ '' <'' @ address @ ''>'')" using assms(2) assms(3) [of n] by (simp add: ball_Un)
  have q: "?plain (q @ escape n @ q @ '' <'' @ address @ ''>'')" if "q \<in> {[], [CHR 0x22]}" for q
    using assms(2) e that by (elim insertE emptyE) (simp_all add: ball_Un)
  from three show ?thesis
  proof (elim disjE bexE)
    assume "s = address"
    with assms(2) show ?thesis by simp
  next
    assume "s = encoded n @ '' <'' @ address @ ''>''"
    with c show ?thesis by simp
  next
    fix x assume "x \<in> {[], [CHR 0x22]}" "s = x @ escape n @ x @ '' <'' @ address @ ''>''"
    with q show ?thesis by simp
  qed
qed

section \<open>Witnesses\<close>

lemma demo_secret_settings:
  "snd (settings_get demo_settings_env [] ''unsub_secret'' (Some []) (snd (no_settings None))) = Some ''from-env''"
  "snd (settings_get demo_settings_env [] ''erasure_secret'' (Some []) (snd (no_settings None))) = Some []"
  by (simp_all add: settings_get_def is_secret_def secret_keys_def get_setting_def get_item_def
      env_migrate_def environ_get_def demo_settings_env_def Let_def split: prod.splits)

definition demo_conf :: "string \<Rightarrow> string option" where
  "demo_conf key = (if key = ''unsub_secret'' then Some ''from-env'' else None)"

theorem terminal_link_verifies_witness:
  "snd (verify (demo_lib (token_payload ''hash'' ''n'' 15)) demo_settings_env [] 15 ''unsub''
     (mint_token (demo_lib (token_payload ''hash'' ''n'' 15)) demo_conf 5 ''n'' ''unsub'' ''hash'' 10) (snd (no_settings None))) = Inr ''hash''"
proof -
  let ?lib = "demo_lib (token_payload ''hash'' ''n'' 15)"
  have same: "\<forall>key\<in>{''unsub_secret'', ''erasure_secret''}.
      opt_or (snd (settings_get demo_settings_env [] key (Some []) (snd (no_settings None)))) [] = opt_or (demo_conf key) []"
    by (simp add: demo_secret_settings demo_conf_def opt_or_def py_or_def)
  have "text_loads ?lib (compact_dumps ?lib (token_payload ''hash'' ''n'' (5 + 10))) = Some (token_payload ''hash'' ''n'' (5 + 10))"
    by (simp add: demo_lib_def)
  from terminal_link_verifies [OF _ same this, of "''unsub''" 15] show ?thesis by simp
qed

theorem promotional_has_unsub_link_witness:
  "contains (fst (inject_compliance (\<lambda>_. None) ''hi'' ''{{unsubscribe_url}}'' ''h/u'' ''h/e'' ''promotional'')) ''h/u'' \<or>
   contains (snd (inject_compliance (\<lambda>_. None) ''hi'' ''{{unsubscribe_url}}'' ''h/u'' ''h/e'' ''promotional'')) ''h/u''"
proof (rule promotional_has_unsub_link)
  show "link ''h/u''" by (simp add: link_def brace_def)
  show "\<exists>p\<in>{''{{unsubscribeUrl}}'', ''{{unsubscribe_url}}''}. contains ''hi'' p \<or> contains ''{{unsubscribe_url}}'' p" by simp
qed simp

theorem from_header_is_one_line_witness:
  "\<exists>s. from_header (\<lambda>_. []) (Some (''bob'' @ newline @ ''Bcc:'')) ''bob@x'' = Inr s \<and> (\<forall>c\<in>set s. c \<noteq> CHR 0x0A \<and> c \<noteq> CHR 0x0D)"
proof -
  have "ascii ''bob@x''" by (simp add: ascii_def byte_def)
  then have "\<exists>s. from_header (\<lambda>_. []) (Some (''bob'' @ newline @ ''Bcc:'')) ''bob@x'' = Inr s"
    by (simp add: from_header_def formataddr_def Let_def)
  then obtain s where s: "from_header (\<lambda>_. []) (Some (''bob'' @ newline @ ''Bcc:'')) ''bob@x'' = Inr s" by blast
  have "\<forall>c\<in>set s. c \<noteq> CHR 0x0A \<and> c \<noteq> CHR 0x0D"
    by (rule from_header_is_one_line [OF s]) auto
  with s show ?thesis by blast
qed

end
