(* ===== verification/Launch_Plan.thy ===== *)
theory Launch_Plan
  imports Mail_Render Terminal_Outcomes
begin

text \<open>
  Who a launch mails and under which pack id (terminal/launch.py): the suppression map, the
  deterministic ids, the plan that every path goes through, the claims of the Re-launch button, and
  the statements that record what was handed over. \<open>uuid5\<close> is \<open>uuid.uuid5(NAMESPACE_URL, name)\<close> of
  the standard library; what is used of it is that different names give different ids.
\<close>

section \<open>Suppression\<close>

definition blocks :: "string \<Rightarrow> suppression \<Rightarrow> bool" where
  "blocks kind r \<longleftrightarrow> sh_reason r \<noteq> ''unsubscribe'' \<or> sh_scope r = ''all'' \<or> kind = ''promotional''"

text \<open>A dictionary comprehension: a later row of a hash replaces an earlier one.\<close>

definition suppressed_map :: "string \<Rightarrow> vault \<Rightarrow> (string \<times> string) list" where
  "suppressed_map kind v = rev (map (\<lambda>r. (sh_email_hash r, sh_reason r)) (filter (blocks kind) (v_suppressions v)))"

section \<open>Pack ids\<close>

definition pack_name :: "int \<Rightarrow> string \<Rightarrow> string \<Rightarrow> int \<Rightarrow> nat \<Rightarrow> string" where
  "pack_name campaign_id created_at send_key contact_id ordinal =
     ''mailman:pack:v1:'' @ dec_int campaign_id @ '':'' @ created_at @ '':'' @ send_key @ '':'' @ dec_int contact_id @ '':'' @ dec ordinal"

definition pack_id :: "(string \<Rightarrow> string) \<Rightarrow> int \<Rightarrow> string \<Rightarrow> string \<Rightarrow> int \<Rightarrow> nat \<Rightarrow> string" where
  "pack_id uuid5 campaign_id created_at send_key contact_id ordinal =
     uuid5 (pack_name campaign_id created_at send_key contact_id ordinal)"

definition gen_key_for :: "int \<Rightarrow> string" where
  "gen_key_for gen = (if gen = 0 then ''main'' else ''relaunch:'' @ dec_int gen)"

definition campaign_of :: "vault \<Rightarrow> int \<Rightarrow> campaign option" where
  "campaign_of v i = find (\<lambda>c. ca_id c = i) (v_campaigns v)"

text \<open>\<open>scalar_one()\<close> of a missing campaign raises.\<close>

definition gen_key :: "vault \<Rightarrow> int \<Rightarrow> launch_error + string" where
  "gen_key v i =
     (case campaign_of v i of None \<Rightarrow> Inl (OtherError ''NoResultFound'') | Some c \<Rightarrow> Inr (gen_key_for (ca_relaunch_gen c)))"

section \<open>The plan\<close>

record candidate =
  cd_contact_id :: int
  cd_status :: string
  cd_email :: string
  cd_name :: "string option"

record send_plan =
  sp_sends :: "(candidate \<times> string) list"
  sp_recorded :: nat
  sp_suppressed :: "(int \<times> string) list"

definition sendable :: "string list" where
  "sendable = [''queued'', ''sent'', ''opened'', ''clicked'', ''bounced'', ''complained'', ''failed'']"

definition retryable_job :: "string list" where
  "retryable_job = [''failed'', ''cancelled'']"

definition pack_id_stuck :: "int \<Rightarrow> int \<Rightarrow> nat \<Rightarrow> string" where
  "pack_id_stuck i contact tries =
     ''campaign '' @ dec_int i @ '': pack ids for contact '' @ dec_int contact @ '' kept colliding after '' @ dec tries @
     '' tries, so nothing more was sent on this press; this is a bug, report it''"

text \<open>The first ordinal whose id has no job; the guard ends the search if the ids stop varying.\<close>

function next_ordinal :: "(nat \<Rightarrow> string) \<Rightarrow> (string \<times> string) list \<Rightarrow> nat \<Rightarrow> nat + nat" where
  "next_ordinal pid jobs a =
     (if pid a \<in> fst ` set jobs then
        if length jobs < a + 1 then Inl (a + 1) else next_ordinal pid jobs (a + 1)
      else Inr a)"
  by auto

termination
  by (relation "measure (\<lambda>(pid, jobs, a). Suc (length jobs) - a)") auto

declare next_ordinal.simps [simp del]

definition plan_one ::
  "crypto \<Rightarrow> (string \<times> string) list \<Rightarrow> (string \<times> string) list \<Rightarrow> int \<Rightarrow> (int \<Rightarrow> nat \<Rightarrow> string) \<Rightarrow> candidate \<Rightarrow> send_plan \<Rightarrow>
     launch_error + send_plan" where
  "plan_one cr blocked jobs campaign_id pid r plan =
     (case map_of blocked (hash_of_email cr (cd_email r)) of
        Some reason \<Rightarrow> Inr (plan\<lparr>sp_suppressed := sp_suppressed plan @ [(cd_contact_id r, reason)]\<rparr>)
      | None \<Rightarrow>
          (let contact = cd_contact_id r in
           case next_ordinal (pid contact) jobs 0 of
             Inl tries \<Rightarrow> Inl (LaunchError (pack_id_stuck campaign_id contact tries))
           | Inr a \<Rightarrow>
               if a \<noteq> 0 \<and> \<not> (cd_status r = ''queued'' \<and> the (map_of jobs (pid contact (a - 1))) \<in> set retryable_job)
               then Inr (plan\<lparr>sp_recorded := sp_recorded plan + 1\<rparr>)
               else Inr (plan\<lparr>sp_sends := sp_sends plan @ [(r, pid contact a)]\<rparr>)))"

fun plan_all ::
  "crypto \<Rightarrow> (string \<times> string) list \<Rightarrow> (string \<times> string) list \<Rightarrow> int \<Rightarrow> (int \<Rightarrow> nat \<Rightarrow> string) \<Rightarrow> candidate list \<Rightarrow> send_plan \<Rightarrow>
     launch_error + send_plan" where
  "plan_all cr blocked jobs campaign_id pid [] plan = Inr plan"
| "plan_all cr blocked jobs campaign_id pid (r # rs) plan =
     bindE (plan_one cr blocked jobs campaign_id pid r plan) (plan_all cr blocked jobs campaign_id pid rs)"

definition jobs_of :: "int \<Rightarrow> vault \<Rightarrow> (string \<times> string) list" where
  "jobs_of campaign_id v =
     map (\<lambda>j. (dj_job_id j, dj_status j)) (filter (\<lambda>j. dj_campaign_id j = campaign_id) (v_jobs v))"

definition empty_plan :: send_plan where
  "empty_plan = \<lparr>sp_sends = [], sp_recorded = 0, sp_suppressed = []\<rparr>"

definition plan_sends ::
  "crypto \<Rightarrow> (string \<Rightarrow> string) \<Rightarrow> int \<Rightarrow> string \<Rightarrow> string \<Rightarrow> string \<Rightarrow> candidate list \<Rightarrow> vault \<Rightarrow> launch_error + send_plan" where
  "plan_sends cr uuid5 campaign_id created_at kind key candidates v =
     plan_all cr (suppressed_map kind v) (jobs_of campaign_id v) campaign_id (pack_id uuid5 campaign_id created_at key)
       candidates empty_plan"

section \<open>Closed campaigns and the Re-launch claims\<close>

definition closed_to_all :: "string list" where
  "closed_to_all = [''archived'']"

definition closed_to_stages :: "string list" where
  "closed_to_stages = [''archived'', ''cancelled'']"

definition closed_reason :: "string \<Rightarrow> int \<Rightarrow> string" where
  "closed_reason status i =
     (if status = ''archived''
      then ''campaign '' @ dec_int i @ '' is archived, and an archived campaign sends no mail. Clone it to send it again.''
      else ''campaign '' @ dec_int i @ '' is cancelled, and a cancelled campaign'' @ [CHR 0x27] @ ''s stages send no mail'')"

definition refuse_closed :: "int \<Rightarrow> string list \<Rightarrow> vault \<Rightarrow> launch_error + unit" where
  "refuse_closed i shut v =
     (case campaign_of v i of
        None \<Rightarrow> Inr ()
      | Some c \<Rightarrow> if ca_status c \<in> set shut then Inl (CampaignClosed (closed_reason (ca_status c) i)) else Inr ())"

definition stale_relaunch :: string where
  "stale_relaunch =
     ''Re-launch was pressed for this campaign after this page was loaded, so this press was not carried out. The page will reload: check the campaign'' @
     [CHR 0x27] @ ''s status before pressing Re-launch again.''"

definition claims :: "int \<Rightarrow> int option \<Rightarrow> campaign \<Rightarrow> bool" where
  "claims i expected c \<longleftrightarrow> ca_id c = i \<and> (case expected of None \<Rightarrow> True | Some s \<Rightarrow> ca_relaunch_seq c = s)"

definition claim_relaunch :: "int \<Rightarrow> int option \<Rightarrow> vault \<Rightarrow> vault \<times> (launch_error + unit)" where
  "claim_relaunch i expected_seq v =
     (let v1 = v\<lparr>v_campaigns := update_where (claims i expected_seq) (\<lambda>c. c\<lparr>ca_relaunch_seq := ca_relaunch_seq c + 1\<rparr>) (v_campaigns v)\<rparr>
      in (v1, if rowcount (claims i expected_seq) (v_campaigns v) = 0 \<and> campaign_of v i \<noteq> None
              then Inl (RelaunchConflict stale_relaunch) else Inr ()))"

definition open_relaunch :: "int \<Rightarrow> vault \<Rightarrow> vault \<times> (launch_error + int \<times> bool)" where
  "open_relaunch i v =
     (let openable = (\<lambda>c. ca_id c = i \<and> ca_relaunch_open c = 0);
          v1 = v\<lparr>v_campaigns := update_where openable (\<lambda>c. c\<lparr>ca_relaunch_gen := ca_relaunch_gen c + 1, ca_relaunch_open := 1\<rparr>) (v_campaigns v)\<rparr>
      in case campaign_of v1 i of
           None \<Rightarrow> (v, Inl (OtherError ''NoResultFound''))
         | Some c \<Rightarrow> (v1, Inr (ca_relaunch_gen c, rowcount openable (v_campaigns v) = 0)))"

definition close_relaunch :: "int \<Rightarrow> int \<Rightarrow> vault \<Rightarrow> vault" where
  "close_relaunch i gen v =
     v\<lparr>v_campaigns := update_where (\<lambda>c. ca_id c = i \<and> ca_relaunch_gen c = gen) (\<lambda>c. c\<lparr>ca_relaunch_open := 0\<rparr>) (v_campaigns v)\<rparr>"

section \<open>Records of a dispatch\<close>

text \<open>What \<open>_build_pack\<close> hands on about one pack; a seed has no contact.\<close>

record job_note =
  jn_pack_id :: string
  jn_contact_id :: "int option"
  jn_recipient_hash :: string
  jn_content_hash :: string
  jn_is_seed :: bool

definition record_one :: "int \<Rightarrow> int \<Rightarrow> job_note \<Rightarrow> vault \<Rightarrow> vault option" where
  "record_one now campaign_id j v =
     (case (jn_is_seed j, jn_contact_id j) of
        (False, Some contact) \<Rightarrow>
          if jn_pack_id j \<in> dj_job_id ` set (v_jobs v) then None
          else Some (v\<lparr>v_jobs := v_jobs v @
                 [\<lparr>dj_job_id = jn_pack_id j, dj_campaign_id = campaign_id, dj_recipient_id = contact,
                   dj_recipient_hash = jn_recipient_hash j, dj_status = ''dispatched'', dj_dispatched_at = sql_time now,
                   dj_acked_at = None, dj_completed_at = None, dj_content_hash = jn_content_hash j, dj_resend_message_id = None\<rparr>],
               v_recipients := update_where (\<lambda>r. cr_campaign_id r = campaign_id \<and> cr_contact_id r = contact)
                 (\<lambda>r. r\<lparr>cr_status := ''sent'', cr_sent_at := Some (sql_time now)\<rparr>) (v_recipients v)\<rparr>)
      | _ \<Rightarrow> Some v)"

fun record_all :: "int \<Rightarrow> int \<Rightarrow> job_note list \<Rightarrow> vault \<Rightarrow> vault option" where
  "record_all now campaign_id [] v = Some v"
| "record_all now campaign_id (j # js) v =
     (case record_one now campaign_id j v of None \<Rightarrow> None | Some v1 \<Rightarrow> record_all now campaign_id js v1)"

text \<open>One transaction: a job id that exists already rolls everything back.\<close>

definition record_dispatch :: "int \<Rightarrow> int \<Rightarrow> job_note list \<Rightarrow> vault \<Rightarrow> vault \<times> (launch_error + unit)" where
  "record_dispatch now campaign_id jobs v =
     (case record_all now campaign_id jobs v of None \<Rightarrow> (v, Inl (OtherError ''IntegrityError'')) | Some v1 \<Rightarrow> (v1, Inr ()))"

definition mark_suppressed :: "int \<Rightarrow> (int \<times> string) list \<Rightarrow> vault \<Rightarrow> vault" where
  "mark_suppressed campaign_id rows v =
     v\<lparr>v_recipients := fold (\<lambda>(contact, reason). update_where (\<lambda>r. cr_campaign_id r = campaign_id \<and> cr_contact_id r = contact)
                               (\<lambda>r. r\<lparr>cr_status := ''cancelled'', cr_failure_reason := Some (''suppressed: '' @ reason)\<rparr>)) rows (v_recipients v)\<rparr>"

definition set_batch :: "int \<Rightarrow> (batch \<Rightarrow> batch) \<Rightarrow> vault \<Rightarrow> vault" where
  "set_batch batch_id f v = v\<lparr>v_batches := update_where (\<lambda>b. cb_id b = batch_id) f (v_batches v)\<rparr>"

definition mark_batch_loaded :: "int \<Rightarrow> int \<Rightarrow> string \<Rightarrow> string \<Rightarrow> vault \<Rightarrow> vault" where
  "mark_batch_loaded now batch_id win_start win_end v =
     set_batch batch_id (\<lambda>b. b\<lparr>cb_status := ''sending'', cb_window_start := Some win_start, cb_window_end := Some win_end,
       cb_loaded_at := Some (sql_time now), cb_dispatch_started_at := None\<rparr>) v"

section \<open>Different names\<close>

lemma colon_notin_dec_int: "CHR '':'' \<notin> set (dec_int i)"
  using colon_notin_dec by (simp add: dec_int_def)

lemma dec_int_inj: "dec_int i = dec_int j \<Longrightarrow> i = j"
proof -
  assume e: "dec_int i = dec_int j"
  have no: "CHR ''-'' \<notin> set (dec n)" for n using dec_no_space by blast
  have "i < 0 \<longleftrightarrow> j < 0"
  proof -
    have "CHR ''-'' \<in> set (dec_int k) \<longleftrightarrow> k < 0" for k using no by (simp add: dec_int_def)
    from this [of i] this [of j] e show ?thesis by simp
  qed
  then show "i = j" using e dec_inj [of "nat i" "nat j"] dec_inj [of "nat (- i)" "nat (- j)"]
    by (auto simp: dec_int_def split: if_splits)
qed

lemma split_first: "x \<notin> set s \<Longrightarrow> x \<notin> set s' \<Longrightarrow> s @ x # u = s' @ x # u' \<longleftrightarrow> s = s' \<and> u = u'"
proof (induction s arbitrary: s')
  case Nil
  then show ?case by (cases s') auto
next
  case hyp: (Cons y ys)
  show ?case
  proof (cases s')
    case Nil
    with hyp(2,3) show ?thesis by auto
  next
    case (Cons z zs)
    with hyp(1) [of zs] hyp(2,3) show ?thesis by simp
  qed
qed

lemma split_last: "x \<notin> set s \<Longrightarrow> x \<notin> set s' \<Longrightarrow> u @ x # s = u' @ x # s' \<longleftrightarrow> u = u' \<and> s = s'"
proof (induction u arbitrary: u')
  case Nil
  then show ?case by (cases u') auto
next
  case hyp: (Cons y ys)
  show ?case
  proof (cases u')
    case Nil
    with hyp(2,3) show ?thesis by auto
  next
    case (Cons z zs)
    with hyp(1) [of zs] hyp(2,3) show ?thesis by simp
  qed
qed

lemma pack_name_split:
  "pack_name i c k a m =
     ''mailman:pack:v1:'' @ dec_int i @ CHR '':'' # (c @ CHR '':'' # ((k @ CHR '':'' # dec_int a) @ CHR '':'' # dec m))"
  by (simp add: pack_name_def)

lemma pack_name_eq:
  "pack_name i c k a m = pack_name i' c k' a' m' \<longleftrightarrow> i = i' \<and> k = k' \<and> a = a' \<and> m = m'"
  unfolding pack_name_split same_append_eq split_first [OF colon_notin_dec_int colon_notin_dec_int]
    list.inject split_last [OF colon_notin_dec colon_notin_dec] split_last [OF colon_notin_dec_int colon_notin_dec_int]
  using dec_int_inj dec_inj by blast

lemma pack_id_eq:
  "inj uuid5 \<Longrightarrow> pack_id uuid5 i c k a m = pack_id uuid5 i' c k' a' m' \<longleftrightarrow> i = i' \<and> k = k' \<and> a = a' \<and> m = m'"
  by (simp add: pack_id_def inj_eq pack_name_eq)

section \<open>The plan, candidate by candidate\<close>

definition first_free :: "(nat \<Rightarrow> string) \<Rightarrow> (string \<times> string) list \<Rightarrow> nat" where
  "first_free pid jobs = (LEAST a. pid a \<notin> fst ` set jobs)"

lemma some_free:
  assumes "inj pid"
  shows "\<exists>a\<le>length jobs. pid a \<notin> fst ` set jobs"
proof (rule ccontr)
  assume "\<not> ?thesis"
  then have "pid ` {..length jobs} \<subseteq> fst ` set jobs" by blast
  then have "card (pid ` {..length jobs}) \<le> card (fst ` set jobs)" by (rule card_mono [rotated]) simp
  also have "\<dots> \<le> length jobs" using card_image_le [of "set jobs" fst] card_length [of jobs] by simp
  finally show False using assms by (simp add: card_image inj_on_subset)
qed

lemma first_free:
  assumes "inj pid"
  shows "pid (first_free pid jobs) \<notin> fst ` set jobs" "i < first_free pid jobs \<Longrightarrow> pid i \<in> fst ` set jobs"
    "first_free pid jobs \<le> length jobs"
proof -
  obtain a where a: "a \<le> length jobs" "pid a \<notin> fst ` set jobs" using some_free [OF assms] by blast
  show "pid (first_free pid jobs) \<notin> fst ` set jobs" unfolding first_free_def by (rule LeastI) (rule a(2))
  show "i < first_free pid jobs \<Longrightarrow> pid i \<in> fst ` set jobs" unfolding first_free_def using not_less_Least by blast
  show "first_free pid jobs \<le> length jobs"
    using Least_le [of "\<lambda>a. pid a \<notin> fst ` set jobs", OF a(2)] a(1) by (simp add: first_free_def)
qed

lemma next_ordinal_eq:
  assumes "inj pid"
  shows "a \<le> first_free pid jobs \<Longrightarrow> next_ordinal pid jobs a = Inr (first_free pid jobs)"
proof (induction "first_free pid jobs - a" arbitrary: a)
  case 0
  then show ?case using first_free(1) [OF assms, of jobs] by (subst next_ordinal.simps) simp
next
  case (Suc n)
  then have "a < first_free pid jobs" by simp
  with first_free(2) [OF assms, of a jobs] first_free(3) [OF assms, of jobs] have "pid a \<in> fst ` set jobs" "\<not> length jobs < a + 1" by auto
  with Suc show ?case by (subst next_ordinal.simps) simp
qed

datatype decision = Blocked string | Recorded | Mail string

definition decide ::
  "crypto \<Rightarrow> (string \<times> string) list \<Rightarrow> (string \<times> string) list \<Rightarrow> (int \<Rightarrow> nat \<Rightarrow> string) \<Rightarrow> candidate \<Rightarrow> decision" where
  "decide cr blocked jobs pid r =
     (case map_of blocked (hash_of_email cr (cd_email r)) of
        Some reason \<Rightarrow> Blocked reason
      | None \<Rightarrow>
          (let a = first_free (pid (cd_contact_id r)) jobs in
           if a \<noteq> 0 \<and> \<not> (cd_status r = ''queued'' \<and> the (map_of jobs (pid (cd_contact_id r) (a - 1))) \<in> set retryable_job)
           then Recorded else Mail (pid (cd_contact_id r) a)))"

definition mails :: "(candidate \<Rightarrow> decision) \<Rightarrow> candidate list \<Rightarrow> (candidate \<times> string) list" where
  "mails d rs = concat (map (\<lambda>r. case d r of Mail p \<Rightarrow> [(r, p)] | _ \<Rightarrow> []) rs)"

definition blocked_ones :: "(candidate \<Rightarrow> decision) \<Rightarrow> candidate list \<Rightarrow> (int \<times> string) list" where
  "blocked_ones d rs = concat (map (\<lambda>r. case d r of Blocked reason \<Rightarrow> [(cd_contact_id r, reason)] | _ \<Rightarrow> []) rs)"

lemma plan_all_eq:
  assumes "\<And>c. inj (pid c)"
  shows "plan_all cr blocked jobs i pid rs plan =
     Inr \<lparr>sp_sends = sp_sends plan @ mails (decide cr blocked jobs pid) rs,
          sp_recorded = sp_recorded plan + length (filter (\<lambda>r. decide cr blocked jobs pid r = Recorded) rs),
          sp_suppressed = sp_suppressed plan @ blocked_ones (decide cr blocked jobs pid) rs\<rparr>"
proof (induction rs arbitrary: plan)
  case Nil
  then show ?case by (simp add: mails_def blocked_ones_def)
next
  case (Cons r rs)
  have "next_ordinal (pid c) jobs 0 = Inr (first_free (pid c) jobs)" for c using next_ordinal_eq [OF assms] by simp
  then have "plan_one cr blocked jobs i pid r plan =
      Inr (case decide cr blocked jobs pid r of
             Blocked reason \<Rightarrow> plan\<lparr>sp_suppressed := sp_suppressed plan @ [(cd_contact_id r, reason)]\<rparr>
           | Recorded \<Rightarrow> plan\<lparr>sp_recorded := sp_recorded plan + 1\<rparr>
           | Mail p \<Rightarrow> plan\<lparr>sp_sends := sp_sends plan @ [(r, p)]\<rparr>)"
    by (auto simp: plan_one_def decide_def Let_def split: option.splits)
  with Cons.IH show ?case by (auto simp: mails_def blocked_ones_def split: decision.splits)
qed

lemma pack_id_inj: "inj uuid5 \<Longrightarrow> inj (pack_id uuid5 i c k a)"
  by (rule injI) (simp add: pack_id_eq)

lemma plan_sends_eq:
  assumes "inj uuid5"
  shows "plan_sends cr uuid5 i c kind k rs v =
     (let d = decide cr (suppressed_map kind v) (jobs_of i v) (pack_id uuid5 i c k) in
      Inr \<lparr>sp_sends = mails d rs, sp_recorded = length (filter (\<lambda>r. d r = Recorded) rs), sp_suppressed = blocked_ones d rs\<rparr>)"
  unfolding plan_sends_def using plan_all_eq [OF pack_id_inj [OF assms]] by (simp add: empty_plan_def Let_def)

end
