(* ===== verification/Plan_Properties.thy ===== *)
theory Plan_Properties
  imports Launch_Plan Campaign_Lock
begin

text \<open>
  What the plan of a send promises: it is found for every input, mails nobody twice in a
  generation, resumes an interrupted push where it stopped, and a Re-launch press from a stale
  page does nothing.
\<close>

section \<open>Every candidate has one place in the plan\<close>

lemma decision_counts:
  "length (mails d rs) + length (filter (\<lambda>r. d r = Recorded) rs) + length (blocked_ones d rs) = length rs"
  by (induction rs) (auto simp: mails_def blocked_ones_def split: decision.splits)

lemma mails_iff: "(r, p) \<in> set (mails d rs) \<longleftrightarrow> r \<in> set rs \<and> d r = Mail p"
  by (auto simp: mails_def split: decision.splits)

lemma mails_simps [simp]:
  "mails d [] = []" "mails d (r # rs) = (case d r of Mail p \<Rightarrow> [(r, p)] | _ \<Rightarrow> []) @ mails d rs"
  by (simp_all add: mails_def)

lemma mails_mem: "map fst (mails d rs) = filter (\<lambda>r. \<exists>p. d r = Mail p) rs"
  by (induction rs) (auto split: decision.splits)

lemma decide_MailD:
  assumes "decide cr blocked jobs pid r = Mail p"
  shows "map_of blocked (hash_of_email cr (cd_email r)) = None"
    "p = pid (cd_contact_id r) (first_free (pid (cd_contact_id r)) jobs)"
    "0 < first_free (pid (cd_contact_id r)) jobs \<Longrightarrow> cd_status r = ''queued'' \<and>
       the (map_of jobs (pid (cd_contact_id r) (first_free (pid (cd_contact_id r)) jobs - 1))) \<in> set retryable_job"
  using assms by (auto simp: decide_def Let_def split: option.splits if_splits)

lemma suppressed_map_None:
  "map_of (suppressed_map kind v) h = None \<longleftrightarrow> (\<forall>s\<in>set (v_suppressions v). blocks kind s \<longrightarrow> sh_email_hash s \<noteq> h)"
  by (force simp: suppressed_map_def map_of_eq_None_iff)

lemma mails_same_id:
  assumes u: "inj uuid5" and a: "(r, p) \<in> set (mails (decide cr blocked jobs (pack_id uuid5 i c key)) rs)"
    "(r', p) \<in> set (mails (decide cr blocked jobs (pack_id uuid5 i c key)) rs)"
  shows "cd_contact_id r = cd_contact_id r'"
proof -
  have m: "decide cr blocked jobs (pack_id uuid5 i c key) r = Mail p" "decide cr blocked jobs (pack_id uuid5 i c key) r' = Mail p"
    using a by (simp_all only: mails_iff)
  have "cd_contact_id r = cd_contact_id r' \<and> first_free (pack_id uuid5 i c key (cd_contact_id r)) jobs =
      first_free (pack_id uuid5 i c key (cd_contact_id r')) jobs"
    using trans [OF decide_MailD(2) [OF m(1), symmetric] decide_MailD(2) [OF m(2)]] unfolding pack_id_eq [OF u] by (elim conjE, intro conjI)
  then show ?thesis by (rule conjunct1)
qed

lemma mails_distinct_ids:
  assumes u: "inj uuid5" and d: "distinct (map cd_contact_id rs)"
  shows "distinct (map snd (mails (decide cr blocked jobs (pack_id uuid5 i c key)) rs))" (is "distinct (map snd ?m)")
proof -
  have c: "distinct (map cd_contact_id (map fst ?m))" unfolding mails_mem using d by (rule distinct_map_filter)
  have "x = y" if "x \<in> set ?m" "y \<in> set ?m" "snd x = snd y" for x y
  proof -
    have "cd_contact_id (fst x) = cd_contact_id (fst y)"
      using mails_same_id [OF u, of "fst x" "snd x" cr blocked jobs i c key rs "fst y"] that by (metis prod.collapse)
    with c that(1,2) show ?thesis by (simp add: distinct_map inj_on_def o_def)
  qed
  then have "inj_on snd (set ?m)" by (rule inj_onI)
  moreover have "distinct ?m" using c by (simp add: distinct_map)
  ultimately show ?thesis by (simp add: distinct_map)
qed

text \<open>C23: a plan is always found: when different names have different ids, the search for a pack id ends for
  every candidate without the collision error, and each candidate is exactly one of sent, skipped as recorded, and
  suppressed.\<close>

theorem plan_never_gets_stuck:
  assumes "inj uuid5"
  shows "\<exists>plan. plan_sends cr uuid5 i c kind key rs v = Inr plan \<and>
    length (sp_sends plan) + sp_recorded plan + length (sp_suppressed plan) = length rs"
  using decision_counts by (simp add: plan_sends_eq [OF assms] Let_def)

text \<open>C22: one pack per contact and generation. Every planned send is of a candidate whose address no blocking
  row suppresses (a promotional unsubscribe does not block a transactional mail), under the first id of the contact
  in this generation that has no job yet; it is the contact's first pack of the generation unless the operator reset
  the contact to queued and its last pack failed or was cancelled, so sent, pending and unknown outcomes are not
  retried. Different contacts get different ids.\<close>

theorem one_pack_per_generation:
  assumes u: "inj uuid5" and d: "distinct (map cd_contact_id rs)"
    and p: "plan_sends cr uuid5 i c kind key rs v = Inr plan"
  shows "distinct (map snd (sp_sends plan)) \<and>
    (\<forall>(r, p)\<in>set (sp_sends plan).
       r \<in> set rs \<and>
       (\<forall>s\<in>set (v_suppressions v). sh_email_hash s = hash_of_email cr (cd_email r) \<longrightarrow>
          sh_reason s = ''unsubscribe'' \<and> sh_scope s \<noteq> ''all'' \<and> kind \<noteq> ''promotional'') \<and>
       (\<exists>a. p = pack_id uuid5 i c key (cd_contact_id r) a \<and> p \<notin> fst ` set (jobs_of i v) \<and>
          (\<forall>b<a. pack_id uuid5 i c key (cd_contact_id r) b \<in> fst ` set (jobs_of i v)) \<and>
          (0 < a \<longrightarrow> cd_status r = ''queued'' \<and>
             (\<exists>s\<in>{''failed'', ''cancelled''}. (pack_id uuid5 i c key (cd_contact_id r) (a - 1), s) \<in> set (jobs_of i v)))))"
proof (intro conjI ballI)
  let ?pid = "pack_id uuid5 i c key"
  let ?d = "decide cr (suppressed_map kind v) (jobs_of i v) ?pid"
  have s: "sp_sends plan = mails ?d rs" using p by (auto simp: plan_sends_eq [OF u] Let_def)
  show "distinct (map snd (sp_sends plan))" unfolding s by (rule mails_distinct_ids [OF u d])
  fix x assume x: "x \<in> set (sp_sends plan)"
  obtain r q where rq: "x = (r, q)" by fastforce
  with x s have r: "r \<in> set rs" "?d r = Mail q" by (auto simp: mails_iff)
  note m = decide_MailD [OF r(2)]
  let ?a = "first_free (?pid (cd_contact_id r)) (jobs_of i v)"
  have f: "?pid (cd_contact_id r) ?a \<notin> fst ` set (jobs_of i v)"
    "\<And>b. b < ?a \<Longrightarrow> ?pid (cd_contact_id r) b \<in> fst ` set (jobs_of i v)"
    using first_free [OF pack_id_inj [OF u]] by blast+
  have no: "\<forall>s\<in>set (v_suppressions v). sh_email_hash s = hash_of_email cr (cd_email r) \<longrightarrow>
      sh_reason s = ''unsubscribe'' \<and> sh_scope s \<noteq> ''all'' \<and> kind \<noteq> ''promotional''"
    using m(1) by (auto simp: suppressed_map_None blocks_def)
  have retry: "cd_status r = ''queued'' \<and>
      (\<exists>s\<in>{''failed'', ''cancelled''}. (?pid (cd_contact_id r) (?a - 1), s) \<in> set (jobs_of i v))" if a: "0 < ?a"
  proof -
    have "?pid (cd_contact_id r) (?a - 1) \<in> fst ` set (jobs_of i v)" using f(2) [of "?a - 1"] a by simp
    then obtain s where s: "map_of (jobs_of i v) (?pid (cd_contact_id r) (?a - 1)) = Some s" 
      by (metis map_of_eq_None_iff not_None_eq)
    with m(3) [OF a] have "s \<in> {''failed'', ''cancelled''}" "cd_status r = ''queued''" by (auto simp: retryable_job_def)
    with map_of_SomeD [OF s] show ?thesis by blast
  qed
  show "case x of (r, p) \<Rightarrow> r \<in> set rs \<and>
       (\<forall>s\<in>set (v_suppressions v). sh_email_hash s = hash_of_email cr (cd_email r) \<longrightarrow>
          sh_reason s = ''unsubscribe'' \<and> sh_scope s \<noteq> ''all'' \<and> kind \<noteq> ''promotional'') \<and>
       (\<exists>a. p = ?pid (cd_contact_id r) a \<and> p \<notin> fst ` set (jobs_of i v) \<and>
          (\<forall>b<a. ?pid (cd_contact_id r) b \<in> fst ` set (jobs_of i v)) \<and>
          (0 < a \<longrightarrow> cd_status r = ''queued'' \<and>
             (\<exists>s\<in>{''failed'', ''cancelled''}. (?pid (cd_contact_id r) (a - 1), s) \<in> set (jobs_of i v))))"
    unfolding rq prod.case using r(1) no m(2) f(1,2) retry by (intro conjI exI [of _ ?a]) auto
qed

section \<open>Resuming\<close>

text \<open>The candidates as they are read again after some contacts have been recorded as sent.\<close>

definition sent_now :: "int set \<Rightarrow> candidate \<Rightarrow> candidate" where
  "sent_now contacts r = (if cd_contact_id r \<in> contacts then r\<lparr>cd_status := ''sent''\<rparr> else r)"

lemma sent_now_simps [simp]:
  "cd_contact_id (sent_now d r) = cd_contact_id r" "cd_email (sent_now d r) = cd_email r"
  "cd_contact_id r \<notin> d \<Longrightarrow> sent_now d r = r" "cd_contact_id r \<in> d \<Longrightarrow> cd_status (sent_now d r) = ''sent''"
  by (simp_all add: sent_now_def)

lemma first_free_same:
  "(\<And>a. pid a \<in> fst ` set jobs' \<longleftrightarrow> pid a \<in> fst ` set jobs) \<Longrightarrow> first_free pid jobs' = first_free pid jobs"
  by (simp add: first_free_def)

lemma decide_same:
  assumes j: "\<And>a. pid (cd_contact_id r) a \<notin> fst ` set new" and i: "inj (pid (cd_contact_id r))"
  shows "decide cr blocked (jobs @ new) pid r = decide cr blocked jobs pid r"
proof -
  let ?p = "pid (cd_contact_id r)"
  have "?p a \<in> fst ` set (jobs @ new) \<longleftrightarrow> ?p a \<in> fst ` set jobs" for a using j by auto
  then have f: "first_free ?p (jobs @ new) = first_free ?p jobs" by (rule first_free_same)
  have m: "map_of (jobs @ new) (?p a) = map_of jobs (?p a)" for a
    using j [of a] by (simp add: map_of_eq_None_iff [THEN iffD2] map_add_def split: option.split)
  show ?thesis unfolding decide_def Let_def f m ..
qed

lemma decide_recorded:
  assumes m: "decide cr blocked jobs pid r = Mail p" and n: "p \<in> fst ` set new" and i: "inj (pid (cd_contact_id r))"
    and q: "cd_contact_id r' = cd_contact_id r" "cd_email r' = cd_email r" "cd_status r' \<noteq> ''queued''"
  shows "decide cr blocked (jobs @ new) pid r' = Recorded"
proof -
  let ?p = "pid (cd_contact_id r)"
  have "first_free ?p (jobs @ new) \<noteq> 0"
  proof
    assume z: "first_free ?p (jobs @ new) = 0"
    then have "?p 0 \<notin> fst ` set (jobs @ new)" using first_free(1) [OF i, of "jobs @ new"] by simp
    then have a: "?p 0 \<notin> fst ` set jobs" "?p 0 \<notin> fst ` set new" by auto
    then have "first_free ?p jobs = 0" using first_free(2) [OF i, of 0 jobs] by blast
    with decide_MailD(2) [OF m] n a(2) show False by simp
  qed
  then show ?thesis using decide_MailD(1) [OF m] q by (simp add: decide_def Let_def)
qed

lemma mails_filter_recorded:
  "(\<And>r. r \<in> set rs \<Longrightarrow> \<not> P r \<Longrightarrow> d (f r) = Recorded) \<Longrightarrow> (\<And>r. r \<in> set rs \<Longrightarrow> P r \<Longrightarrow> f r = r \<and> d r = d0 r) \<Longrightarrow>
   mails d (map f rs) = filter (\<lambda>x. P (fst x)) (mails d0 rs)"
proof (induction rs)
  case (Cons r rs)
  then have "mails d (map f rs) = filter (\<lambda>x. P (fst x)) (mails d0 rs)" by simp
  moreover have "(case d (f r) of Mail p \<Rightarrow> [(f r, p)] | _ \<Rightarrow> []) = filter (\<lambda>x. P (fst x)) (case d0 r of Mail p \<Rightarrow> [(r, p)] | _ \<Rightarrow> [])"
    using Cons.prems(1) [of r] Cons.prems(2) [of r] by (cases "P r") (auto split: decision.splits)
  ultimately show ?case by simp
qed simp

lemma mails_left:
  "(\<And>r. r \<in> set rs \<Longrightarrow> \<not> P r \<Longrightarrow> d (f r) = Recorded) \<Longrightarrow> (\<And>r. P r \<Longrightarrow> f r = r) \<Longrightarrow> mails d (filter P rs) = mails d (map f rs)"
  by (induction rs) (auto split: decision.splits)

lemma filter_drop:
  assumes "distinct (map f xs)"
  shows "filter (\<lambda>x. f x \<notin> f ` set (take n xs)) xs = drop n xs"
proof -
  have d: "f ` set (take n xs) \<inter> f ` set (drop n xs) = {}"
    using assms by (metis append_take_drop_id distinct_append list.set_map map_append)
  have "filter (\<lambda>x. f x \<notin> f ` set (take n xs)) (take n xs @ drop n xs) = drop n xs"
    unfolding filter_append using d by (auto simp: filter_empty_conv filter_id_conv)
  then show ?thesis by simp
qed

lemma record_one_eq:
  assumes "\<not> jn_is_seed j" "jn_contact_id j = Some c" "record_one now i j v = Some v1"
  shows "jobs_of i v1 = jobs_of i v @ [(jn_pack_id j, ''dispatched'')]" "v_suppressions v1 = v_suppressions v"
  using assms by (auto simp: record_one_def jobs_of_def split: if_splits)

lemma record_all_eq:
  "record_all now i js v = Some v1 \<Longrightarrow> \<forall>j\<in>set js. \<not> jn_is_seed j \<and> jn_contact_id j \<noteq> None \<Longrightarrow>
   jobs_of i v1 = jobs_of i v @ map (\<lambda>j. (jn_pack_id j, ''dispatched'')) js \<and> v_suppressions v1 = v_suppressions v"
proof (induction js arbitrary: v)
  case (Cons j js)
  then obtain c where c: "\<not> jn_is_seed j" "jn_contact_id j = Some c" by auto
  from Cons.prems(1) obtain v2 where v2: "record_one now i j v = Some v2" "record_all now i js v2 = Some v1"
    by (auto split: option.splits)
  from Cons.IH [OF v2(2)] Cons.prems(2) record_one_eq [OF c v2(1)] show ?case by simp
qed simp

lemma replan_mails:
  assumes u: "inj uuid5" and d: "distinct (map cd_contact_id rs)"
    and s: "sends = mails (decide cr bl jobs (pack_id uuid5 i c key)) rs"
    and ids: "fst ` set new = snd ` set (take k sends)" and g: "gone = cd_contact_id ` fst ` set (take k sends)"
  shows "mails (decide cr bl (jobs @ new) (pack_id uuid5 i c key)) (map (sent_now gone) rs) = drop k sends \<and>
    mails (decide cr bl (jobs @ new) (pack_id uuid5 i c key)) (filter (\<lambda>r. cd_contact_id r \<notin> gone) rs) = drop k sends"
proof -
  let ?pid = "pack_id uuid5 i c key"
  let ?d = "decide cr bl jobs ?pid"
  let ?d' = "decide cr bl (jobs @ new) ?pid"
  have stay: "?d' r = ?d r" if r: "r \<in> set rs" "cd_contact_id r \<notin> gone" for r
  proof (rule decide_same [OF _ pack_id_inj [OF u]])
    fix a show "?pid (cd_contact_id r) a \<notin> fst ` set new"
    proof
      assume "?pid (cd_contact_id r) a \<in> fst ` set new"
      then obtain q where q: "(q, ?pid (cd_contact_id r) a) \<in> set (take k sends)" unfolding ids by force
      from in_set_takeD [OF q] have "?d q = Mail (?pid (cd_contact_id r) a)" by (simp only: s mails_iff)
      from decide_MailD(2) [OF this] have "cd_contact_id r = cd_contact_id q" unfolding pack_id_eq [OF u] by (elim conjE)
      with r(2) q show False unfolding g by force
    qed
  qed
  have leave: "?d' (sent_now gone r) = Recorded" if r: "r \<in> set rs" "cd_contact_id r \<in> gone" for r
  proof -
    from r(2) obtain q p where q: "(q, p) \<in> set (take k sends)" "cd_contact_id q = cd_contact_id r" unfolding g by force
    from in_set_takeD [OF q(1)] have m: "q \<in> set rs" "?d q = Mail p" by (simp_all only: s mails_iff)
    with d r(1) q(2) have "q = r" by (simp add: distinct_map inj_on_def)
    moreover have "p \<in> fst ` set new" unfolding ids using q(1) by force
    ultimately show ?thesis using m(2) r(2) by (intro decide_recorded [OF _ _ pack_id_inj [OF u]]) auto
  qed
  have "distinct (map (\<lambda>x. cd_contact_id (fst x)) sends)"
    using distinct_map_filter [OF d, of "\<lambda>r. \<exists>p. ?d r = Mail p"] by (simp flip: mails_mem add: o_def s)
  from filter_drop [OF this, of k] have cut: "filter (\<lambda>x. cd_contact_id (fst x) \<notin> gone) sends = drop k sends"
    unfolding g by (simp add: image_image)
  have 1: "mails ?d' (map (sent_now gone) rs) = drop k sends"
    using mails_filter_recorded [of rs "\<lambda>r. cd_contact_id r \<notin> gone" ?d' "sent_now gone" ?d] stay leave cut s by simp
  moreover have "mails ?d' (filter (\<lambda>r. cd_contact_id r \<notin> gone) rs) = mails ?d' (map (sent_now gone) rs)"
    using leave by (intro mails_left) simp_all
  ultimately show ?thesis by simp
qed

text \<open>An interrupted push resumes where it stopped. When the first packs of a plan have been recorded and the
  rest have not, planning the same contacts again, their recorded ones now read as sent (a stage or a Re-launch)
  or no longer selected (a batch, which reads the queued ones), gives exactly the remaining sends of the first plan,
  in order and under the same pack ids.\<close>

theorem interrupted_push_replans:
  assumes u: "inj uuid5" and d: "distinct (map cd_contact_id rs)"
    and p: "plan_sends cr uuid5 i c kind key rs v = Inr plan"
    and n: "\<forall>j\<in>set notes. \<not> jn_is_seed j"
      "map (\<lambda>j. (jn_pack_id j, jn_contact_id j)) notes = map (\<lambda>(r, p). (p, Some (cd_contact_id r))) (take k (sp_sends plan))"
    and w: "record_dispatch now i notes v = (v', Inr ())"
    and g: "gone = cd_contact_id ` fst ` set (take k (sp_sends plan))"
  shows "(\<exists>again. plan_sends cr uuid5 i c kind key (map (sent_now gone) rs) v' = Inr again \<and> sp_sends again = drop k (sp_sends plan)) \<and>
    (\<exists>again. plan_sends cr uuid5 i c kind key (filter (\<lambda>r. cd_contact_id r \<notin> gone) rs) v' = Inr again \<and>
       sp_sends again = drop k (sp_sends plan))"
proof -
  define new where "new = map (\<lambda>j. (jn_pack_id j, ''dispatched'')) notes"
  have s: "sp_sends plan = mails (decide cr (suppressed_map kind v) (jobs_of i v) (pack_id uuid5 i c key)) rs"
    using p by (auto simp: plan_sends_eq [OF u] Let_def)
  have "map jn_pack_id notes = map fst (map (\<lambda>j. (jn_pack_id j, jn_contact_id j)) notes)" by simp
  also have "\<dots> = map snd (take k (sp_sends plan))" unfolding n(2) by (auto simp: case_prod_beta)
  finally have "set (map jn_pack_id notes) = set (map snd (take k (sp_sends plan)))" by simp
  then have ids: "fst ` set new = snd ` set (take k (sp_sends plan))" unfolding new_def by (simp add: image_image)
  have c: "\<forall>j\<in>set notes. \<not> jn_is_seed j \<and> jn_contact_id j \<noteq> None"
  proof
    fix j assume j: "j \<in> set notes"
    then have "(jn_pack_id j, jn_contact_id j) \<in> set (map (\<lambda>j. (jn_pack_id j, jn_contact_id j)) notes)" by simp
    then show "\<not> jn_is_seed j \<and> jn_contact_id j \<noteq> None" unfolding n(2) using n(1) j by auto
  qed
  have v': "jobs_of i v' = jobs_of i v @ new" "suppressed_map kind v' = suppressed_map kind v"
    using record_all_eq [OF _ c, of now i v v'] w by (auto simp: record_dispatch_def new_def suppressed_map_def split: option.splits)
  show ?thesis using replan_mails [OF u d s ids g] by (simp add: plan_sends_eq [OF u] Let_def v')
qed

section \<open>Re-launch presses\<close>

lemma find_same_id:
  "(\<And>c. ca_id (f c) = ca_id c) \<Longrightarrow>
   find (\<lambda>c. ca_id c = i) (update_where p f rows) = map_option (\<lambda>c. if p c then f c else c) (find (\<lambda>c. ca_id c = i) rows)"
  by (rule find_update_where)

lemma rowcount_of_id:
  "distinct (map ca_id rows) \<Longrightarrow>
   rowcount (\<lambda>c. ca_id c = i \<and> Q c) rows = (case find (\<lambda>c. ca_id c = i) rows of None \<Rightarrow> 0 | Some c \<Rightarrow> if Q c then 1 else 0)"
proof (induction rows)
  case (Cons c rows)
  have "find (\<lambda>c. ca_id c = i) rows = None" if "ca_id c = i"
    unfolding find_None_iff using Cons.prems that by (auto simp: image_iff)
  with Cons show ?case by (auto simp: rowcount_def)
qed (simp add: rowcount_def)

lemma campaign_of_id: "campaign_of v i = Some c \<Longrightarrow> ca_id c = i"
  unfolding campaign_of_def by (auto simp: find_Some_iff)

lemma claim_relaunch_eq:
  assumes d: "distinct (map ca_id (v_campaigns v))" and c: "campaign_of v i = Some c"
  shows "campaign_of (fst (claim_relaunch i e v)) i =
      Some (if claims i e c then c\<lparr>ca_relaunch_seq := ca_relaunch_seq c + 1\<rparr> else c)"
    "snd (claim_relaunch i e v) = (if claims i e c then Inr () else Inl (RelaunchConflict stale_relaunch))"
    "map ca_id (v_campaigns (fst (claim_relaunch i e v))) = map ca_id (v_campaigns v)"
proof -
  show "campaign_of (fst (claim_relaunch i e v)) i = Some (if claims i e c then c\<lparr>ca_relaunch_seq := ca_relaunch_seq c + 1\<rparr> else c)"
    using c by (simp add: campaign_of_def claim_relaunch_def Let_def find_same_id)
  have "claims i e = (\<lambda>c. ca_id c = i \<and> (case e of None \<Rightarrow> True | Some s \<Rightarrow> ca_relaunch_seq c = s))"
    by (simp add: claims_def fun_eq_iff)
  then show "snd (claim_relaunch i e v) = (if claims i e c then Inr () else Inl (RelaunchConflict stale_relaunch))"
    using c campaign_of_id [OF c] rowcount_of_id [OF d, of i] by (simp add: campaign_of_def claim_relaunch_def Let_def)
  show "map ca_id (v_campaigns (fst (claim_relaunch i e v))) = map ca_id (v_campaigns v)"
    by (simp add: claim_relaunch_def Let_def map_update_where)
qed

text \<open>A Re-launch press counts once. After a press that was accepted, and after any further presses from any
  pages, a press from a page that showed the counter as it was before is refused as stale and changes nothing.\<close>

theorem stale_press_refused:
  assumes d: "distinct (map ca_id (v_campaigns v))" and c: "campaign_of v i = Some c"
    and p: "claim_relaunch i e v = (v1, Inr ())"
  shows "claim_relaunch i (Some (ca_relaunch_seq c)) (fold (\<lambda>e v. fst (claim_relaunch i e v)) es v1) =
      (fold (\<lambda>e v. fst (claim_relaunch i e v)) es v1, Inl (RelaunchConflict stale_relaunch))"
proof -
  have "claims i e c" using claim_relaunch_eq(2) [OF d c, of e] p by (simp split: if_splits)
  then have "\<exists>c1. campaign_of v1 i = Some c1 \<and> ca_relaunch_seq c < ca_relaunch_seq c1" "distinct (map ca_id (v_campaigns v1))"
    using claim_relaunch_eq [OF d c, of e] p d by simp_all
  then have "(\<exists>c1. campaign_of (fold (\<lambda>e v. fst (claim_relaunch i e v)) es v1) i = Some c1 \<and> ca_relaunch_seq c < ca_relaunch_seq c1) \<and>
      distinct (map ca_id (v_campaigns (fold (\<lambda>e v. fst (claim_relaunch i e v)) es v1)))"
  proof (induction es arbitrary: v1)
    case (Cons e es)
    then obtain c1 where c1: "campaign_of v1 i = Some c1" "ca_relaunch_seq c < ca_relaunch_seq c1" by blast
    note q = claim_relaunch_eq [OF Cons.prems(2) c1(1), of e]
    show ?case unfolding fold.simps o_def
    proof (rule Cons.IH)
      show "\<exists>c1. campaign_of (fst (claim_relaunch i e v1)) i = Some c1 \<and> ca_relaunch_seq c < ca_relaunch_seq c1"
        using q(1) c1(2) by (cases "claims i e c1") simp_all
      show "distinct (map ca_id (v_campaigns (fst (claim_relaunch i e v1))))" using q(3) Cons.prems(2) by simp
    qed
  qed simp
  then obtain c2 where c2: "campaign_of (fold (\<lambda>e v. fst (claim_relaunch i e v)) es v1) i = Some c2" "ca_relaunch_seq c < ca_relaunch_seq c2"
    and d2: "distinct (map ca_id (v_campaigns (fold (\<lambda>e v. fst (claim_relaunch i e v)) es v1)))" by blast
  have no: "\<not> claims i (Some (ca_relaunch_seq c)) c2" using c2(2) by (simp add: claims_def)
  have "update_where (claims i (Some (ca_relaunch_seq c))) f rows = rows" if "distinct (map ca_id rows)" "find (\<lambda>c. ca_id c = i) rows = Some c2" for f rows
  proof (rule update_where_nothing, rule ballI)
    fix r assume "r \<in> set rows"
    with that show "\<not> claims i (Some (ca_relaunch_seq c)) r" using find_unique [of ca_id rows r] no by (auto simp: claims_def)
  qed
  with c2(1) d2 have "fst (claim_relaunch i (Some (ca_relaunch_seq c)) (fold (\<lambda>e v. fst (claim_relaunch i e v)) es v1)) =
      fold (\<lambda>e v. fst (claim_relaunch i e v)) es v1"
    by (simp add: claim_relaunch_def Let_def campaign_of_def)
  with claim_relaunch_eq(2) [OF d2 c2(1), of "Some (ca_relaunch_seq c)"] no show ?thesis by (simp add: prod_eq_iff)
qed

lemma open_relaunch_eq:
  assumes d: "distinct (map ca_id (v_campaigns v))" and c: "campaign_of v i = Some c"
  shows "\<exists>v1. open_relaunch i v = (v1, Inr (if ca_relaunch_open c = 0 then (ca_relaunch_gen c + 1, False) else (ca_relaunch_gen c, True))) \<and>
      campaign_of v1 i = Some (if ca_relaunch_open c = 0 then c\<lparr>ca_relaunch_gen := ca_relaunch_gen c + 1, ca_relaunch_open := 1\<rparr> else c) \<and>
      map ca_id (v_campaigns v1) = map ca_id (v_campaigns v)"
  using c campaign_of_id [OF c] rowcount_of_id [OF d, of i "\<lambda>c. ca_relaunch_open c = 0"]
  by (simp add: open_relaunch_def campaign_of_def Let_def find_same_id map_update_where)

lemma close_relaunch_eq:
  assumes c: "campaign_of v i = Some c"
  shows "campaign_of (close_relaunch i g v) i = Some (if ca_relaunch_gen c = g then c\<lparr>ca_relaunch_open := 0\<rparr> else c)"
    "map ca_id (v_campaigns (close_relaunch i g v)) = map ca_id (v_campaigns v)"
  using c campaign_of_id [OF c] by (simp_all add: close_relaunch_def campaign_of_def find_same_id map_update_where)

text \<open>At most one generation is open. Once a press has a generation, further presses finish that same
  generation, also when the close of another generation arrives in between; after its own close the next press opens the next one.\<close>

theorem one_open_generation:
  assumes d: "distinct (map ca_id (v_campaigns v))" and p: "open_relaunch i v = (v1, Inr (g, f))"
  shows "snd (open_relaunch i v1) = Inr (g, True) \<and>
    (h \<noteq> g \<longrightarrow> snd (open_relaunch i (close_relaunch i h v1)) = Inr (g, True)) \<and>
    snd (open_relaunch i (close_relaunch i g v1)) = Inr (g + 1, False)"
proof -
  obtain c where c: "campaign_of v i = Some c"
    using p by (cases "campaign_of v i") (simp_all add: open_relaunch_def Let_def campaign_of_def find_same_id)
  from open_relaunch_eq [OF d c] p obtain c1 where c1: "campaign_of v1 i = Some c1" "ca_relaunch_open c1 \<noteq> 0" "ca_relaunch_gen c1 = g"
    and d1: "distinct (map ca_id (v_campaigns v1))" using d by (auto split: if_splits)
  have o: "snd (open_relaunch i w) = Inr (if ca_relaunch_open q = 0 then (ca_relaunch_gen q + 1, False) else (ca_relaunch_gen q, True))"
    if "campaign_of w i = Some q" "map ca_id (v_campaigns w) = map ca_id (v_campaigns v1)" for w q
    using open_relaunch_eq [of w i q] that d1 by auto
  show ?thesis
    using o [OF c1(1) refl] o [OF close_relaunch_eq [OF c1(1)], of h] o [OF close_relaunch_eq [OF c1(1)], of g] c1(2,3) by auto
qed

section \<open>A reason that arrives late\<close>

lemma suppressed_map_cong:
  "filter (\<lambda>s. sh_email_hash s = h) (v_suppressions v') = filter (\<lambda>s. sh_email_hash s = h) (v_suppressions v) \<Longrightarrow>
   map_of (suppressed_map kind v') h = map_of (suppressed_map kind v) h"
proof -
  let ?g = "\<lambda>r. (sh_email_hash r, sh_reason r)"
  have m: "map_of (rev (map ?g (filter (blocks kind) rows))) h =
      map_of (rev (map ?g (filter (blocks kind) (filter (\<lambda>s. sh_email_hash s = h) rows)))) h" for rows
    by (induction rows) (auto simp: map_add_def split: option.splits)
  assume "filter (\<lambda>s. sh_email_hash s = h) (v_suppressions v') = filter (\<lambda>s. sh_email_hash s = h) (v_suppressions v)"
  then show ?thesis unfolding suppressed_map_def m [of "v_suppressions v"] m [of "v_suppressions v'"] by simp
qed

lemma add_suppression_known:
  "h \<in> sh_email_hash ` set (v_suppressions v) \<Longrightarrow>
   filter (\<lambda>s. sh_email_hash s = h) (v_suppressions (add_suppression k reason source t v)) =
   filter (\<lambda>s. sh_email_hash s = h) (v_suppressions v)"
  by (auto simp: add_suppression_def insert_or_ignore_def)

text \<open>A later reason does not widen a suppression. An address that has a row in the suppression table, such as a
  promotional unsubscribe, keeps exactly the sends it had: a complaint, a bounce or any other event that is
  materialised for it later is ignored, so transactional mail still goes out to it.\<close>

theorem later_complaint_is_ignored:
  assumes "h \<in> sh_email_hash ` set (v_suppressions v)"
  shows "map_of (suppressed_map kind (apply_suppression_event now p v)) h = map_of (suppressed_map kind v) h \<and>
    map_of (suppressed_map kind (apply_webhook_event cr now p v)) h = map_of (suppressed_map kind v) h"
proof
  note k = add_suppression_known [OF assms]
  show "map_of (suppressed_map kind (apply_suppression_event now p v)) h = map_of (suppressed_map kind v) h"
    by (rule suppressed_map_cong) (auto simp: apply_suppression_event_def Let_def k split: option.splits json.splits)
  have f: "v_suppressions (set_recipient i f w) = v_suppressions w" for i f w by (simp add: set_recipient_def)
  then have "filter (\<lambda>s. sh_email_hash s = h) (v_suppressions (add_suppression g reason source t (set_recipient i f v))) =
      filter (\<lambda>s. sh_email_hash s = h) (v_suppressions v)" for g reason source t i f
    using add_suppression_known [of h "set_recipient i f v"] assms by simp
  with f show "map_of (suppressed_map kind (apply_webhook_event cr now p v)) h = map_of (suppressed_map kind v) h"
    by (intro suppressed_map_cong) (simp add: apply_webhook_event_def Let_def split: option.splits)
qed

section \<open>Concrete inputs\<close>

definition demo_contact :: "int \<Rightarrow> candidate" where
  "demo_contact i = \<lparr>cd_contact_id = i, cd_status = ''queued'', cd_email = ''a@b.com'', cd_name = None\<rparr>"

definition demo_note :: job_note where
  "demo_note = \<lparr>jn_pack_id = pack_id (\<lambda>s. s) 1 ''c'' ''main'' 1 0, jn_contact_id = Some 1, jn_recipient_hash = ''00'',
     jn_content_hash = ''00'', jn_is_seed = False\<rparr>"

lemma demo_plan:
  "plan_sends (plain_crypto JNull) (\<lambda>s. s) 1 ''c'' ''promotional'' ''main'' [demo_contact 1, demo_contact 2] empty_vault =
     Inr \<lparr>sp_sends = [(demo_contact 1, pack_id (\<lambda>s. s) 1 ''c'' ''main'' 1 0), (demo_contact 2, pack_id (\<lambda>s. s) 1 ''c'' ''main'' 2 0)],
           sp_recorded = 0, sp_suppressed = []\<rparr>"
proof -
  have "first_free pid [] = 0" for pid by (simp add: first_free_def)
  then have "decide cr [] [] pid r = Mail (pid (cd_contact_id r) 0)" for cr pid r by (simp add: decide_def)
  moreover have "inj (\<lambda>s::string. s)" by (simp add: inj_on_def)
  moreover have "suppressed_map k empty_vault = []" "jobs_of i empty_vault = []" for k i
    by (simp_all add: suppressed_map_def jobs_of_def empty_vault_def)
  ultimately show ?thesis by (simp add: plan_sends_eq Let_def blocked_ones_def demo_contact_def)
qed

theorem plan_never_gets_stuck_witness:
  "\<exists>plan. plan_sends (plain_crypto JNull) (\<lambda>s. s) 1 ''c'' ''promotional'' ''main'' [demo_contact 1, demo_contact 2] empty_vault = Inr plan \<and>
     length (sp_sends plan) + sp_recorded plan + length (sp_suppressed plan) = length [demo_contact 1, demo_contact 2]"
  using plan_never_gets_stuck [of "\<lambda>s. s" "plain_crypto JNull" 1 "''c''" "''promotional''" "''main''" "[demo_contact 1, demo_contact 2]" empty_vault]
  by (simp add: inj_on_def)

theorem one_pack_per_generation_witness:
  "distinct [pack_id (\<lambda>s. s) 1 ''c'' ''main'' 1 0, pack_id (\<lambda>s. s) 1 ''c'' ''main'' 2 0]"
proof -
  have "distinct (map cd_contact_id [demo_contact 1, demo_contact 2])" by (simp add: demo_contact_def)
  from one_pack_per_generation [OF _ this demo_plan] show ?thesis by (simp add: inj_on_def)
qed

theorem interrupted_push_replans_witness:
  "\<exists>v'. record_dispatch 0 1 [demo_note] empty_vault = (v', Inr ()) \<and>
     (\<exists>again. plan_sends (plain_crypto JNull) (\<lambda>s. s) 1 ''c'' ''promotional'' ''main'' [demo_contact 2] v' = Inr again \<and>
        sp_sends again = [(demo_contact 2, pack_id (\<lambda>s. s) 1 ''c'' ''main'' 2 0)])"
proof -
  obtain v' where v: "record_dispatch 0 1 [demo_note] empty_vault = (v', Inr ())"
    by (simp add: record_dispatch_def record_one_def demo_note_def empty_vault_def)
  have d: "distinct (map cd_contact_id [demo_contact 1, demo_contact 2])" by (simp add: demo_contact_def)
  have "inj (\<lambda>s::string. s)" by (simp add: inj_on_def)
  from interrupted_push_replans [OF this d demo_plan _ _ v, of 1 "{1}"]
  have "\<exists>again. plan_sends (plain_crypto JNull) (\<lambda>s. s) 1 ''c'' ''promotional'' ''main'' [demo_contact 2] v' = Inr again \<and>
        sp_sends again = [(demo_contact 2, pack_id (\<lambda>s. s) 1 ''c'' ''main'' 2 0)]"
    by (simp add: demo_note_def demo_contact_def)
  with v show ?thesis by blast
qed

definition demo_relaunch :: vault where
  "demo_relaunch = empty_vault\<lparr>v_campaigns := [demo_campaign 1]\<rparr>"

theorem stale_press_refused_witness:
  "\<exists>v1. claim_relaunch 1 (Some 0) demo_relaunch = (v1, Inr ()) \<and>
     snd (claim_relaunch 1 (Some 0) v1) = Inl (RelaunchConflict stale_relaunch)"
proof -
  have c: "distinct (map ca_id (v_campaigns demo_relaunch))" "campaign_of demo_relaunch 1 = Some (demo_campaign 1)"
    by (simp_all add: demo_relaunch_def campaign_of_def demo_campaign_def)
  have "claims 1 (Some 0) (demo_campaign 1)" by (simp add: claims_def demo_campaign_def)
  then obtain v1 where v: "claim_relaunch 1 (Some 0) demo_relaunch = (v1, Inr ())"
    using claim_relaunch_eq(2) [OF c, of "Some 0"] by (cases "claim_relaunch 1 (Some 0) demo_relaunch") simp
  from stale_press_refused [OF c v, of "[]"] v show ?thesis by (simp add: demo_campaign_def)
qed

theorem one_open_generation_witness:
  "\<exists>v1. open_relaunch 1 demo_relaunch = (v1, Inr (1, False)) \<and> snd (open_relaunch 1 v1) = Inr (1, True) \<and>
     snd (open_relaunch 1 (close_relaunch 1 1 v1)) = Inr (2, False)"
proof -
  have c: "distinct (map ca_id (v_campaigns demo_relaunch))" "campaign_of demo_relaunch 1 = Some (demo_campaign 1)"
    by (simp_all add: demo_relaunch_def campaign_of_def demo_campaign_def)
  obtain v1 where v: "open_relaunch 1 demo_relaunch = (v1, Inr (1, False))"
    using open_relaunch_eq [OF c] by (auto simp: demo_campaign_def)
  from one_open_generation [OF c(1) v] v show ?thesis by auto
qed

theorem later_complaint_is_ignored_witness:
  "map_of (suppressed_map ''transactional'' (apply_suppression_event 0 (JObj [(''email_hash'', JStr ''h''), (''reason'', JStr ''complaint'')])
     (empty_vault\<lparr>v_suppressions := [\<lparr>sh_email_hash = ''h'', sh_reason = ''unsubscribe'', sh_added_at = ''t'', sh_source = None,
        sh_scope = ''promotional''\<rparr>]\<rparr>))) ''h'' = None"
  using later_complaint_is_ignored [of "''h''" "empty_vault\<lparr>v_suppressions := [\<lparr>sh_email_hash = ''h'', sh_reason = ''unsubscribe'',
      sh_added_at = ''t'', sh_source = None, sh_scope = ''promotional''\<rparr>]\<rparr>" "''transactional''" 0]
  by (simp add: suppressed_map_def blocks_def)

end
