(* ===== verification/Launch_Push.thy ===== *)
theory Launch_Push
  imports Plan_Properties Cloud_Packs_Api
begin

text \<open>
  Building the packs of a send, pushing them in chunks and recording what the cloud acknowledged
  (terminal/launch.py). The random draws of a pack are an argument, as are the functions of the
  libraries; a request to the cloud is a function of the state of the other side.
\<close>

section \<open>Library functions\<close>

text \<open>\<open>parse_utc\<close> is \<open>datetime.fromisoformat\<close> of a stripped text brought to UTC, in whole seconds;
  \<open>None\<close> is its \<open>ValueError\<close>.\<close>

record launch_lib =
  ll_crypto :: crypto
  ll_token :: token_lib
  ll_encoded :: "string \<Rightarrow> string"
  ll_uuid5 :: "string \<Rightarrow> string"
  ll_parse_utc :: "string \<Rightarrow> int option"

record pack_rand =
  pr_unsub_nonce :: string
  pr_erasure_nonce :: string
  pr_aes_nonce :: bytes
  pr_uuid :: string

section \<open>The context of a send\<close>

record send_ctx =
  cx_camp :: campaign
  cx_tmpl :: template
  cx_public_host :: string
  cx_resend_key :: string
  cx_email_from :: string
  cx_email_from_name :: string
  cx_k_temp :: bytes
  cx_key_id :: string
  cx_bearer :: string
  cx_company_name :: "string option"

text \<open>The row a pack is built for; a seed has no contact.\<close>

record target =
  tg_email :: string
  tg_name :: "string option"
  tg_contact :: "int option"

definition target_of :: "candidate \<Rightarrow> target" where
  "target_of r = \<lparr>tg_email = cd_email r, tg_name = cd_name r, tg_contact = Some (cd_contact_id r)\<rparr>"

definition seed_target :: "string \<Rightarrow> target" where
  "seed_target email = \<lparr>tg_email = email, tg_name = Some [], tg_contact = None\<rparr>"

definition truthy_id :: "int option \<Rightarrow> int option" where
  "truthy_id i = (case i of Some e \<Rightarrow> if e = 0 then None else Some e | None \<Rightarrow> None)"

section \<open>Checks before a send\<close>

definition company_placeholder :: "template \<Rightarrow> bool" where
  "company_placeholder tmpl \<longleftrightarrow>
     (\<exists>s\<in>set [tp_subject tmpl, tp_html_body tmpl, opt_or (tp_text_body tmpl) []]. contains s (braced ''companyName''))"

definition resolve_company_name :: "vault \<Rightarrow> int option \<Rightarrow> template \<Rightarrow> launch_error + string option" where
  "resolve_company_name v entity_id tmpl =
     (case truthy_id entity_id of
        Some e \<Rightarrow>
          (case find (\<lambda>r. en_id r = e) (v_entities v) of
             None \<Rightarrow> Inl (LaunchError (''company '' @ dec_int e @ '' not found''))
           | Some row \<Rightarrow>
               if strip (en_name row) = []
               then Inl (LaunchError (''company '' @ dec_int e @ '' has no name - set one on the Entities page before sending''))
               else Inr (Some (strip (en_name row))))
      | None \<Rightarrow>
          if company_placeholder tmpl
          then Inl (LaunchError (''this template uses {{companyName}} but the campaign has no company'' @
                 '' - choose a company for the campaign before sending''))
          else Inr None)"

definition sample_mail ::
  "(string \<Rightarrow> string option) \<Rightarrow> template \<Rightarrow> string \<Rightarrow> string option \<Rightarrow> string \<Rightarrow> string option \<Rightarrow> launch_error + mail" where
  "sample_mail conf tmpl kind company email name =
     bindE (render tmpl email name company) (\<lambda>(s, h, t).
       let (h1, t1) = inject_compliance conf h t ''https://example.com/u/x'' ''https://example.com/e/x'' kind
       in Inr (s, h1, t1))"

definition preflight ::
  "(string \<Rightarrow> string option) \<Rightarrow> vault \<Rightarrow> template \<Rightarrow> campaign \<Rightarrow> int option \<Rightarrow> launch_error + string option" where
  "preflight conf v tmpl camp entity_id =
     bindE (resolve_company_name v entity_id tmpl) (\<lambda>company.
     bindE (sample_mail conf tmpl (ca_kind camp) company ''preflight@example.com'' (Some ''Preflight Person'')) (\<lambda>m.
     bindE (assert_sendable m) (\<lambda>_. Inr company)))"

definition m6_cap :: nat where "m6_cap = 10"

fun unsendable :: "(string \<Rightarrow> string option) \<Rightarrow> send_ctx \<Rightarrow> target list \<Rightarrow> launch_error + string list" where
  "unsendable conf ctx [] = Inr []"
| "unsendable conf ctx (r # rs) =
     bindE (sample_mail conf (cx_tmpl ctx) (ca_kind (cx_camp ctx)) (cx_company_name ctx) (tg_email r) (tg_name r)) (\<lambda>m.
     bindE (unsendable conf ctx rs) (\<lambda>bad.
       Inr (if found_tokens m \<noteq> [] \<or> has_open_brace m
            then (tg_email r @ '' ('' @ py_or (join '', '' (found_tokens m)) ''{{'' @ '')'') # bad
            else bad)))"

definition assert_recipients_sendable ::
  "(string \<Rightarrow> string option) \<Rightarrow> send_ctx \<Rightarrow> target list \<Rightarrow> launch_error + unit" where
  "assert_recipients_sendable conf ctx recipients =
     bindE (unsendable conf ctx recipients) (\<lambda>bad.
       if bad = [] then Inr ()
       else Inl (LaunchError (dec (length bad) @ '' contact(s) cannot be sent - their data leaves template variables in the mail: '' @
              join ''; '' (take m6_cap bad) @
              (if m6_cap < length bad then ''; and '' @ dec (length bad - m6_cap) @ '' more'' else []) @
              '' - fix those contacts or remove them from the campaign'')))"

section \<open>The temporary key\<close>

datatype key_reply = Key_status bool "string option" | Key_http nat | Key_unreachable string

datatype post_reply = Post_http nat | Post_unreachable string

text \<open>The local key file, the body posted (the key and its lifetime) if any, and the result.\<close>

definition mint_and_push ::
  "(string \<Rightarrow> string option) \<Rightarrow> bytes \<Rightarrow> post_reply \<Rightarrow> bytes option \<times> (string \<times> int) option \<times> (launch_error + bytes)" where
  "mint_and_push conf fresh reply =
     (let body = (b64encode fresh, conf_int conf ''default_k_temp_ttl_s'' 86400) in
      case reply of
        Post_unreachable e \<Rightarrow> (None, Some body, Inl (OtherError e))
      | Post_http n \<Rightarrow>
          if 400 \<le> n then (None, Some body, Inl (OtherError ''HTTPStatusError''))
          else (Some fresh, Some body, Inr fresh))"

definition ensure_k_temp ::
  "crypto \<Rightarrow> (string \<Rightarrow> string option) \<Rightarrow> bytes option \<Rightarrow> key_reply \<Rightarrow> bytes \<Rightarrow> post_reply \<Rightarrow>
     bytes option \<times> (string \<times> int) option \<times> (launch_error + bytes)" where
  "ensure_k_temp cr conf file status fresh reply =
     (case file of
        None \<Rightarrow> mint_and_push conf fresh reply
      | Some k \<Rightarrow>
          (case status of
             Key_unreachable e \<Rightarrow> (file, None, Inl (OtherError e))
           | Key_status present key_id \<Rightarrow>
               if present \<and> key_id = Some (k_temp_id cr k) then (file, None, Inr k) else mint_and_push conf fresh reply
           | Key_http n \<Rightarrow> mint_and_push conf fresh reply))"

section \<open>One pack\<close>

definition send_now :: string where "send_now = ''1970-01-01T00:00:00Z''"

definition pack_send_at :: "launch_lib \<Rightarrow> string option \<Rightarrow> string" where
  "pack_send_at lib scheduled_for =
     (if strip (opt_or scheduled_for []) = [] then send_now
      else case ll_parse_utc lib (opt_or scheduled_for []) of None \<Rightarrow> send_now | Some t \<Rightarrow> iso t)"

definition nonzero_or :: "int \<Rightarrow> int \<Rightarrow> int" where
  "nonzero_or i d = (if i = 0 then d else i)"

definition plain_pack :: "send_ctx \<Rightarrow> string \<Rightarrow> mail \<Rightarrow> string \<Rightarrow> string \<Rightarrow> bool \<Rightarrow> json" where
  "plain_pack ctx email m unsub_url sender human_send =
     (let camp = cx_camp ctx in
      case m of (subject, html, text) \<Rightarrow>
      JObj [(''recipient'', JStr email), (''subject'', JStr subject), (''html'', JStr html), (''text'', JStr text),
        (''headers'', JObj (map (\<lambda>(k, x). (k, JStr x)) (list_unsub_headers unsub_url))), (''from'', JStr sender),
        (''resend_api_key'', JStr (cx_resend_key ctx)), (''campaign_id'', JInt (ca_id camp)),
        (''rate_limit_per_min'', case ca_rate_limit_per_min camp of None \<Rightarrow> JNull | Some n \<Rightarrow> JInt n),
        (''bounce_pause_pct'', JFloat (case ca_bounce_pause_pct camp of None \<Rightarrow> 1 / 10 | Some r \<Rightarrow> if r = 0 then 1 / 10 else r)),
        (''human_send'', JBool human_send),
        (''human_send_min_s'', JInt (nonzero_or (ca_human_send_min_s camp) 60)),
        (''human_send_max_s'', JInt (nonzero_or (ca_human_send_max_s camp) 210)),
        (''human_send_count'', JInt (nonzero_or (ca_human_send_count camp) 1))])"

definition build_pack ::
  "launch_lib \<Rightarrow> (string \<Rightarrow> string option) \<Rightarrow> int \<Rightarrow> send_ctx \<Rightarrow> target \<Rightarrow> string \<Rightarrow> bool \<Rightarrow> bool \<Rightarrow> string option \<Rightarrow> pack_rand \<Rightarrow>
     launch_error + pack_in \<times> job_note" where
  "build_pack lib conf now ctx r send_at human_send is_seed pid rand =
     (let cr = ll_crypto lib; camp = cx_camp ctx; email = tg_email r; email_hash = hash_of_email cr email in
      bindE (render (cx_tmpl ctx) email (tg_name r) (cx_company_name ctx)) (\<lambda>(subject, html0, text0).
      let unsub_token = mint_token (ll_token lib) conf now (pr_unsub_nonce rand) ''unsub'' email_hash
            (conf_int conf ''unsub_token_ttl_s'' (60 * 60 * 24 * 365));
          erasure_token = mint_token (ll_token lib) conf now (pr_erasure_nonce rand) ''erasure'' email_hash
            (conf_int conf ''erasure_token_ttl_s'' (60 * 60 * 24 * 30));
          unsub_url = ''https://'' @ cx_public_host ctx @ ''/u/'' @ unsub_token;
          erasure_url = ''https://'' @ cx_public_host ctx @ ''/e/'' @ erasure_token;
          (html, text) = inject_compliance conf html0 text0 unsub_url erasure_url (ca_kind camp)
      in
      bindE (assert_sendable (subject, html, text)) (\<lambda>_.
      bindE (from_header (ll_encoded lib) (Some (cx_email_from_name ctx)) (cx_email_from ctx)) (\<lambda>sender.
      case encrypt_with_temp cr (pr_aes_nonce rand)
             (json_dumps cr (plain_pack ctx email (subject, html, text) unsub_url sender human_send)) (cx_k_temp ctx) of
        Inl e \<Rightarrow> Inl (OtherError ''ValueError'')
      | Inr envelope \<Rightarrow>
          (let pack_id = opt_or pid (pr_uuid rand); content_hash = sha256_hex cr (subject @ newline @ html) in
           Inr (\<lparr>pi_id = pack_id, pi_campaign = ca_id camp, pi_recipient_hash = email_hash, pi_content_hash = content_hash,
                  pi_send_at = send_at, pi_key_id = cx_key_id ctx, pi_blob = b64encode envelope\<rparr>,
                \<lparr>jn_pack_id = pack_id, jn_contact_id = tg_contact r, jn_recipient_hash = email_hash,
                  jn_content_hash = content_hash, jn_is_seed = is_seed\<rparr>))))))"

section \<open>Pushing\<close>

text \<open>What a POST of one chunk comes to: the answer of the cloud, a refusal with its status and text, or an
  exception of the transport, whether or not the request was carried out. The argument \<open>post\<close> is the other
  side: the number of the chunk, its packs and the state of the cloud.\<close>

datatype push_reply = Ack push_answer | Refused nat string | Broken string

type_synonym 's poster = "nat \<Rightarrow> pack_in list \<Rightarrow> 's \<Rightarrow> 's \<times> push_reply"

datatype push_outcome =
    Pushed push_answer
  | Interrupted launch_error nat "held list"
  | Failed launch_error

definition no_answer :: push_answer where
  "no_answer = \<lparr>pa_accepted = 0, pa_submitted = 0, pa_enqueued = 0, pa_deferred = 0, pa_held = []\<rparr>"

definition add_answer :: "push_answer \<Rightarrow> push_answer \<Rightarrow> push_answer" where
  "add_answer a b =
     \<lparr>pa_accepted = pa_accepted a + pa_accepted b, pa_submitted = pa_submitted a + pa_submitted b,
      pa_enqueued = pa_enqueued a + pa_enqueued b, pa_deferred = pa_deferred a + pa_deferred b, pa_held = pa_held a @ pa_held b\<rparr>"

function chunks :: "nat \<Rightarrow> 'a list \<Rightarrow> 'a list list" where
  "chunks n xs = (if xs = [] \<or> n = 0 then [] else take n xs # chunks n (drop n xs))"
  by auto

termination
  by (relation "measure (\<lambda>(n, xs). length xs)") auto

declare chunks.simps [simp del]

definition push_failure :: "launch_error \<Rightarrow> nat \<Rightarrow> push_answer \<Rightarrow> push_outcome" where
  "push_failure e pushed agg = (if pushed \<noteq> 0 then Interrupted e pushed (pa_held agg) else Failed e)"

fun push_chunks :: "'s poster \<Rightarrow> nat \<Rightarrow> pack_in list list \<Rightarrow> nat \<Rightarrow> push_answer \<Rightarrow> 's \<Rightarrow> 's \<times> push_outcome" where
  "push_chunks post k [] pushed agg s = (s, Pushed agg)"
| "push_chunks post k (part # parts) pushed agg s =
     (case post k part s of
        (s1, Ack a) \<Rightarrow> push_chunks post (Suc k) parts (pushed + length part) (add_answer agg a) s1
      | (s1, Refused n text) \<Rightarrow>
          (s1, push_failure (LaunchPushError (''cloud /packs rejected ('' @ dec n @ '') on chunk '' @ dec (Suc k) @ '': '' @ take 160 text))
                 pushed agg)
      | (s1, Broken e) \<Rightarrow> (s1, push_failure (OtherError e) pushed agg))"

text \<open>\<open>chunk\<close> is \<open>PACK_PUSH_CHUNK\<close>; a zero step of \<open>range\<close> is a \<open>ValueError\<close>.\<close>

definition push_all :: "'s poster \<Rightarrow> nat \<Rightarrow> pack_in list \<Rightarrow> 's \<Rightarrow> 's \<times> push_outcome" where
  "push_all post chunk packs s =
     (if packs = [] then (s, Pushed no_answer)
      else if chunk = 0 then (s, Failed (OtherError ''ValueError''))
      else push_chunks post 0 (chunks chunk packs) 0 no_answer s)"

section \<open>Recording what was pushed\<close>

definition resolved_pack :: "string list" where
  "resolved_pack = [''sent'', ''failed'', ''stuck_no_key'', ''cancelled'', ''unknown'']"

definition apply_held_outcomes :: "crypto \<Rightarrow> int \<Rightarrow> held list \<Rightarrow> vault \<Rightarrow> vault" where
  "apply_held_outcomes cr now held v = fold (apply_pack_outcome cr now) (filter (\<lambda>p. hd_status p \<in> set resolved_pack) held) v"

text \<open>The module dictionary \<open>_PUSHING\<close>: how many pushes of a campaign are running.\<close>

type_synonym pushing = "(int \<times> nat) list"

definition push_in_flight :: "pushing \<Rightarrow> int \<Rightarrow> bool" where
  "push_in_flight m i \<longleftrightarrow> (case map_of m i of None \<Rightarrow> False | Some n \<Rightarrow> 0 < n)"

definition enter_push :: "int \<Rightarrow> pushing \<Rightarrow> pushing" where
  "enter_push i m = AList.update i (Suc (case map_of m i of None \<Rightarrow> 0 | Some n \<Rightarrow> n)) m"

definition leave_push :: "int \<Rightarrow> pushing \<Rightarrow> pushing" where
  "leave_push i m =
     (let n = (case map_of m i of None \<Rightarrow> 0 | Some n \<Rightarrow> n - 1) in if n = 0 then AList.delete i m else AList.update i n m)"

text \<open>Between the push and the record the other coroutines of the terminal run: \<open>meanwhile\<close>. A failed record after
  a failed push is logged only.\<close>

definition record_outcome ::
  "crypto \<Rightarrow> int \<Rightarrow> int \<Rightarrow> job_note list \<Rightarrow> push_outcome \<Rightarrow> vault \<Rightarrow> vault \<times> (launch_error + push_answer)" where
  "record_outcome cr now i jobs r v =
     (case r of
        Failed e \<Rightarrow> (v, Inl e)
      | Interrupted e pushed held \<Rightarrow>
          (case record_dispatch now i (take pushed jobs) v of
             (v1, Inl _) \<Rightarrow> (v1, Inl e)
           | (v1, Inr _) \<Rightarrow> (apply_held_outcomes cr now held v1, Inl e))
      | Pushed ack \<Rightarrow>
          (case record_dispatch now i jobs v of
             (v1, Inl e) \<Rightarrow> (v1, Inl e)
           | (v1, Inr _) \<Rightarrow> (apply_held_outcomes cr now (pa_held ack) v1, Inr (ack\<lparr>pa_held := []\<rparr>))))"

definition push_and_record ::
  "crypto \<Rightarrow> 's poster \<Rightarrow> (vault \<Rightarrow> vault) \<Rightarrow> nat \<Rightarrow> int \<Rightarrow> int \<Rightarrow> pack_in list \<Rightarrow> job_note list \<Rightarrow> pushing \<times> vault \<times> 's \<Rightarrow>
     (pushing \<times> vault \<times> 's) \<times> (launch_error + push_answer)" where
  "push_and_record cr post meanwhile chunk now i packs jobs st =
     (case st of (m, v, s) \<Rightarrow>
      let m1 = enter_push i m; (s1, r) = push_all post chunk packs s; (v1, res) = record_outcome cr now i jobs r (meanwhile v)
      in ((leave_push i m1, v1, s1), res))"

end
