(* ===== verification/Launch_Campaign.thy ===== *)
theory Launch_Campaign
  imports Launch_Push Campaign_Lock Send_Schedule
begin

text \<open>
  The handlers of a launch (terminal/launch.py): the send context, the dispatch of one batch, the
  launch of a campaign, of a stage and of a Re-launch, and the test mail. What the handlers draw
  from outside (files, answers of the cloud, random draws, zones) is a record argument.
\<close>

section \<open>Environment and state\<close>

text \<open>\<open>le_zone\<close> gives the clock of a time zone by name (\<open>ZoneInfo\<close>; \<open>None\<close> is its error), \<open>le_rand\<close> the draws for the
  packs of a send in order, \<open>le_jitter\<close> those of the schedule, \<open>le_decrypt\<close> is \<open>settings._decrypt\<close>.\<close>

record 's launch_env =
  le_lib :: launch_lib
  le_conf :: "string \<Rightarrow> string option"
  le_decrypt :: "string \<Rightarrow> exc + string"
  le_bearer :: "string option"
  le_now :: int
  le_key_status :: key_reply
  le_fresh_key :: bytes
  le_key_post :: post_reply
  le_post :: "'s poster"
  le_meanwhile :: "vault \<Rightarrow> vault"
  le_chunk :: nat
  le_rand :: "nat \<Rightarrow> pack_rand"
  le_zone :: "string \<Rightarrow> ((int \<Rightarrow> rat) \<times> (rat \<Rightarrow> int)) option"
  le_jitter :: "nat \<Rightarrow> rat"

record 's launch_state =
  ls_vault :: vault
  ls_pushing :: pushing
  ls_cloud :: 's
  ls_key_file :: "bytes option"
  ls_keys_posted :: "(string \<times> int) list"

definition on_vault :: "(vault \<Rightarrow> vault) \<Rightarrow> 's launch_state \<Rightarrow> 's launch_state" where
  "on_vault f st = st\<lparr>ls_vault := f (ls_vault st)\<rparr>"

type_synonym ('s, 'a) launch_result = "'s launch_state \<times> (launch_error + 'a)"

section \<open>The sender of a campaign\<close>

record creds =
  cs_resend_key :: string
  cs_from_name :: string
  cs_from_email :: string
  cs_domain :: string

definition get_entity_credentials :: "(string \<Rightarrow> exc + string) \<Rightarrow> int \<Rightarrow> vault \<Rightarrow> exc + creds" where
  "get_entity_credentials decrypt entity_id v =
     (case find (\<lambda>r. en_id r = entity_id) (v_entities v) of
        None \<Rightarrow> Inl (ValueError (''company '' @ dec_int entity_id @ '' not found''))
      | Some row \<Rightarrow>
          if opt_or (en_resend_key_enc row) [] = []
          then Inl (ValueError (''company '' @ quoted (en_name row) @ '' has no Resend API key configured''))
          else bindE (decrypt (opt_or (en_resend_key_enc row) [])) (\<lambda>key.
            Inr \<lparr>cs_resend_key = key, cs_from_name = py_or (en_from_name row) (en_name row),
                 cs_from_email = py_or (en_from_email row) (''hello@'' @ en_domain row), cs_domain = en_domain row\<rparr>))"

definition public_host :: "(string \<Rightarrow> string option) \<Rightarrow> string" where
  "public_host conf = conf_or conf ''public_host'' ''mail.example.com''"

text \<open>The key, the name and the address; a \<open>ValueError\<close> of the company becomes a \<open>LaunchError\<close>.\<close>

definition sender_of :: "(string \<Rightarrow> string option) \<Rightarrow> (string \<Rightarrow> exc + string) \<Rightarrow> campaign \<Rightarrow> vault \<Rightarrow> launch_error + string \<times> string \<times> string" where
  "sender_of conf decrypt camp v =
     (case truthy_id (ca_entity_id camp) of
        Some e \<Rightarrow>
          (case get_entity_credentials decrypt e v of
             Inl (ValueError m) \<Rightarrow> Inl (LaunchError m)
           | Inl x \<Rightarrow> Inl (OtherError ''decrypt'')
           | Inr c \<Rightarrow> Inr (cs_resend_key c, cs_from_name c, cs_from_email c))
      | None \<Rightarrow>
          Inr (conf_or conf ''resend_api_key'' [], conf_or conf ''from_name'' [],
               conf_or conf ''email_from'' (''noreply@'' @ public_host conf)))"

definition template_of :: "int \<Rightarrow> vault \<Rightarrow> template option" where
  "template_of i v = find (\<lambda>t. tp_id t = i) (v_templates v)"

text \<open>The checks and the key that every path to a send context shares; \<open>missing\<close> is the text for a missing key.\<close>

definition make_ctx ::
  "'s launch_env \<Rightarrow> string \<Rightarrow> string \<Rightarrow> campaign \<Rightarrow> template \<Rightarrow> 's launch_state \<Rightarrow> ('s, send_ctx) launch_result" where
  "make_ctx ev missing bearer camp tmpl st =
     (let conf = le_conf ev; v = ls_vault st; cr = ll_crypto (le_lib ev) in
      case sender_of conf (le_decrypt ev) camp v of
        Inl e \<Rightarrow> (st, Inl e)
      | Inr (resend_key, from_name, email_from) \<Rightarrow>
          if resend_key = [] then (st, Inl (LaunchError missing))
          else
            (case preflight conf v tmpl camp (ca_entity_id camp) of
               Inl e \<Rightarrow> (st, Inl e)
             | Inr company \<Rightarrow>
                 (case ensure_k_temp cr conf (ls_key_file st) (le_key_status ev) (le_fresh_key ev) (le_key_post ev) of
                    (file, posted, r) \<Rightarrow>
                      (let st1 = st\<lparr>ls_key_file := file, ls_keys_posted := ls_keys_posted st @ (case posted of None \<Rightarrow> [] | Some p \<Rightarrow> [p])\<rparr> in
                       case r of
                         Inl e \<Rightarrow> (st1, Inl e)
                       | Inr k \<Rightarrow>
                           (st1, Inr \<lparr>cx_camp = camp, cx_tmpl = tmpl, cx_public_host = public_host conf, cx_resend_key = resend_key,
                              cx_email_from = email_from, cx_email_from_name = from_name, cx_k_temp = k,
                              cx_key_id = ''K_temp_'' @ k_temp_id cr k, cx_bearer = bearer, cx_company_name = company\<rparr>)))))"

definition load_send_ctx :: "'s launch_env \<Rightarrow> int \<Rightarrow> 's launch_state \<Rightarrow> ('s, send_ctx) launch_result" where
  "load_send_ctx ev i st =
     (case le_bearer ev of
        None \<Rightarrow> (st, Inl (LaunchError ''cloud bearer missing''))
      | Some text \<Rightarrow>
          (case campaign_of (ls_vault st) i of
             None \<Rightarrow> (st, Inl (LaunchError (''campaign '' @ dec_int i @ '' not found'')))
           | Some camp \<Rightarrow>
               (case template_of (ca_template_id camp) (ls_vault st) of
                  None \<Rightarrow> (st, Inl (OtherError ''TypeError''))
                | Some tmpl \<Rightarrow> make_ctx ev ''resend_api_key not configured'' (strip text) camp tmpl st)))"

section \<open>Selections\<close>

definition candidates_of :: "(recipient \<Rightarrow> bool) \<Rightarrow> vault \<Rightarrow> candidate list" where
  "candidates_of p v =
     sort_key cd_contact_id (List.map_filter (\<lambda>r.
        map_option (\<lambda>c. \<lparr>cd_contact_id = cr_contact_id r, cd_status = cr_status r, cd_email = ct_email c, cd_name = ct_name c\<rparr>)
          (find (\<lambda>c. ct_id c = cr_contact_id r) (v_contacts v))) (filter p (v_recipients v)))"

definition active_seed_emails :: "vault \<Rightarrow> string list" where
  "active_seed_emails v = map sd_email (sort_key sd_id (filter (\<lambda>s. sd_active s = 1) (v_seeds v)))"

definition batch_of :: "int \<Rightarrow> int \<Rightarrow> vault \<Rightarrow> batch option" where
  "batch_of i no v = find (\<lambda>b. cb_campaign_id b = i \<and> cb_batch_no b = no) (v_batches v)"

text \<open>The interrupted batch with the lowest number.\<close>

definition interrupted_batch :: "int \<Rightarrow> vault \<Rightarrow> int option" where
  "interrupted_batch i v =
     (case filter (\<lambda>b. cb_campaign_id b = i \<and> cb_dispatch_started_at b \<noteq> None) (v_batches v) of
        [] \<Rightarrow> None
      | bs \<Rightarrow> Some (Min (set (map cb_batch_no bs))))"

definition deliverable :: "crypto \<Rightarrow> string \<Rightarrow> vault \<Rightarrow> candidate list \<Rightarrow> candidate list" where
  "deliverable cr kind v rs = filter (\<lambda>r. map_of (suppressed_map kind v) (hash_of_email cr (cd_email r)) = None) rs"

section \<open>One batch\<close>

record batch_result =
  br_batch_no :: int
  br_recipients :: nat
  br_suppressed :: nat
  br_seeds :: nat
  br_packs :: nat
  br_window_start :: string
  br_window_end :: string
  br_ack :: "push_answer option"
  br_recorded :: "nat option"

definition close_empty_batch :: "int \<Rightarrow> int \<Rightarrow> int \<Rightarrow> bool \<Rightarrow> nat \<Rightarrow> vault \<Rightarrow> vault \<times> batch_result" where
  "close_empty_batch now batch_id batch_no handed_over suppressed v =
     (let now_z = iso now; win = (if handed_over then now_z else []);
          v1 = set_batch batch_id (\<lambda>b.
             (if handed_over then b\<lparr>cb_status := ''sending'', cb_window_start := Some now_z, cb_window_end := Some now_z, cb_loaded_at := Some (sql_time now)\<rparr>
              else b\<lparr>cb_status := ''drained'', cb_drained_at := Some now_z, cb_approve_unlock_at := None, cb_window_start := Some [], cb_window_end := Some []\<rparr>)
             \<lparr>cb_dispatch_started_at := None\<rparr>) v
      in (v1, \<lparr>br_batch_no = batch_no, br_recipients = 0, br_suppressed = suppressed, br_seeds = 0, br_packs = 0, br_window_start = win,
               br_window_end = win, br_ack = None, br_recorded = None\<rparr>))"

definition schedule_of :: "(string \<Rightarrow> string option) \<Rightarrow> (int \<Rightarrow> rat) \<times> (rat \<Rightarrow> int) \<Rightarrow> (nat \<Rightarrow> rat) \<Rightarrow> schedule" where
  "schedule_of conf zone rnd =
     \<lparr>sc_utc_of = fst zone, sc_day_of = snd zone, sc_start_hour = conf_int conf ''send_window_start_hour'' 9,
      sc_window_hours = conf_int conf ''send_window_hours'' 4, sc_sender_count = conf_int conf ''send_sender_count'' 3,
      sc_jitter_min_s = of_int (conf_int conf ''send_jitter_min_s'' 60), sc_jitter_max_s = of_int (conf_int conf ''send_jitter_max_s'' 210),
      sc_rush_tail_minutes = conf_int conf ''send_rush_tail_minutes'' 30, sc_rush_jitter_s = of_int (conf_int conf ''send_rush_jitter_s'' 15),
      sc_daily_cap = (let cap = conf_int conf ''send_daily_cap'' 0 in if cap = 0 then None else Some cap), sc_rnd = rnd\<rparr>"

definition send_times :: "'s launch_env \<Rightarrow> nat \<Rightarrow> launch_error + string list" where
  "send_times ev n =
     (if n = 0 then Inr []
      else
        (case le_zone ev (conf_or (le_conf ev) ''send_window_tz'' ''America/Los_Angeles'') of
           None \<Rightarrow> Inl (OtherError ''ZoneInfoNotFoundError'')
         | Some zone \<Rightarrow>
             (case compute_send_ats (schedule_of (le_conf ev) zone (le_jitter ev)) n (of_int (le_now ev)) of
                Inl e \<Rightarrow> Inl (OtherError ''schedule'')
              | Inr ats \<Rightarrow> Inr ats)))"

definition insert_at :: "nat \<Rightarrow> 'a \<Rightarrow> 'a list \<Rightarrow> 'a list" where
  "insert_at k x xs = take k xs @ x # drop k xs"

fun spread_seeds :: "nat \<Rightarrow> nat \<Rightarrow> target list \<Rightarrow> (target \<times> bool) list \<Rightarrow> (target \<times> bool) list" where
  "spread_seeds step i [] targets = targets"
| "spread_seeds step i (s # ss) targets =
     spread_seeds step (Suc i) ss (insert_at (min (i * (step + 1)) (length targets)) (s, True) targets)"

definition batch_targets :: "target list \<Rightarrow> target list \<Rightarrow> (target \<times> bool) list" where
  "batch_targets recips seeds =
     (let targets = map (\<lambda>r. (r, False)) recips in
      if seeds = [] then targets else spread_seeds (max (length targets div length seeds) 1) 0 seeds targets)"

text \<open>One pack per target and send time, the \<open>k\<close>-th with the \<open>k\<close>-th draw.\<close>

fun build_all ::
  "'s launch_env \<Rightarrow> send_ctx \<Rightarrow> bool \<Rightarrow> nat \<Rightarrow> ((target \<times> bool \<times> string option) \<times> string) list \<Rightarrow> launch_error + (pack_in list \<times> job_note list)" where
  "build_all ev ctx human_send k [] = Inr ([], [])"
| "build_all ev ctx human_send k (((r, is_seed, pid), send_at) # rest) =
     bindE (build_pack (le_lib ev) (le_conf ev) (le_now ev) ctx r send_at human_send is_seed pid (le_rand ev k)) (\<lambda>(p, j).
     bindE (build_all ev ctx human_send (Suc k) rest) (\<lambda>(ps, js). Inr (p # ps, j # js)))"

definition push_step ::
  "'s launch_env \<Rightarrow> int \<Rightarrow> pack_in list \<Rightarrow> job_note list \<Rightarrow> 's launch_state \<Rightarrow> ('s, push_answer) launch_result" where
  "push_step ev i packs jobs st =
     (case push_and_record (ll_crypto (le_lib ev)) (le_post ev) (le_meanwhile ev) (le_chunk ev) (le_now ev) i packs jobs
             (ls_pushing st, ls_vault st, ls_cloud st) of
        ((m, v, s), r) \<Rightarrow> (st\<lparr>ls_pushing := m, ls_vault := v, ls_cloud := s\<rparr>, r))"

text \<open>The send times and the packs of a batch.\<close>

definition compile_batch ::
  "'s launch_env \<Rightarrow> send_ctx \<Rightarrow> send_plan \<Rightarrow> target list \<Rightarrow> launch_error + string list \<times> pack_in list \<times> job_note list" where
  "compile_batch ev ctx plan seeds =
     (let recips = map fst (sp_sends plan); pids = map (\<lambda>(r, p). (cd_contact_id r, p)) (sp_sends plan);
          targets = map (\<lambda>(r, is_seed). (r, is_seed, if is_seed then None else map_of (rev pids) (the (tg_contact r))))
            (batch_targets (map target_of recips) seeds)
      in
      bindE (send_times ev (length recips + length seeds)) (\<lambda>send_ats.
      bindE (build_all ev ctx False 0 (zip targets send_ats)) (\<lambda>(packs, jobs). Inr (send_ats, packs, jobs))))"

text \<open>The marker, the push and the record of the window.\<close>

definition load_batch ::
  "'s launch_env \<Rightarrow> int \<Rightarrow> int \<Rightarrow> batch option \<Rightarrow> send_ctx \<Rightarrow> send_plan \<Rightarrow> target list \<Rightarrow> 's launch_state \<Rightarrow> ('s, batch_result) launch_result" where
  "load_batch ev i batch_no row ctx plan seeds st =
     (case (compile_batch ev ctx plan seeds, row) of
        (Inl e, _) \<Rightarrow> (st, Inl e)
      | (Inr _, None) \<Rightarrow> (st, Inl (OtherError ''TypeError''))
      | (Inr (send_ats, packs, jobs), Some b) \<Rightarrow>
          (let st1 = on_vault (set_batch (cb_id b) (\<lambda>b. b\<lparr>cb_dispatch_started_at := Some (sql_time (le_now ev))\<rparr>)) st in
           case push_step ev i packs jobs st1 of
             (st2, Inl e) \<Rightarrow> (st2, Inl e)
           | (st2, Inr ack) \<Rightarrow>
               (let (win_start, win_end) = (if send_ats = [] then ([], []) else (hd send_ats, last send_ats)) in
                (on_vault (mark_batch_loaded (le_now ev) (cb_id b) win_start win_end) st2,
                 Inr \<lparr>br_batch_no = batch_no, br_recipients = length (sp_sends plan), br_suppressed = length (sp_suppressed plan),
                      br_seeds = length seeds, br_packs = length packs, br_window_start = win_start, br_window_end = win_end,
                      br_ack = Some ack, br_recorded = None\<rparr>))))"

text \<open>The queued members of the batch, planned and checked; \<open>row\<close> is the batch's row.\<close>

definition plan_batch :: "'s launch_env \<Rightarrow> int \<Rightarrow> int \<Rightarrow> send_ctx \<Rightarrow> vault \<Rightarrow> launch_error + send_plan \<times> target list" where
  "plan_batch ev i batch_no ctx v =
     (let cr = ll_crypto (le_lib ev); camp = cx_camp ctx; row = batch_of i batch_no v;
          recips = candidates_of (\<lambda>r. cr_campaign_id r = i \<and> cr_batch_no r = Some batch_no \<and> cr_status r = ''queued'') v
      in
      if recips = [] \<and> Option.bind row cb_dispatch_started_at = None
      then Inl (LaunchError (''batch '' @ dec_int batch_no @ '': no queued recipients''))
      else
        bindE (gen_key v i) (\<lambda>key.
        bindE (plan_sends cr (ll_uuid5 (le_lib ev)) i (ca_created_at camp) (ca_kind camp) key recips v) (\<lambda>plan.
        let seeds = map seed_target (active_seed_emails v) in
        bindE (assert_recipients_sendable (le_conf ev) ctx (map (\<lambda>(r, p). target_of r) (sp_sends plan) @ seeds)) (\<lambda>_.
        Inr (plan, seeds)))))"

definition dispatch_with ::
  "'s launch_env \<Rightarrow> int \<Rightarrow> int \<Rightarrow> send_ctx \<Rightarrow> 's launch_state \<Rightarrow> ('s, batch_result) launch_result" where
  "dispatch_with ev i batch_no ctx st =
     (let row = batch_of i batch_no (ls_vault st) in
      case plan_batch ev i batch_no ctx (ls_vault st) of
        Inl e \<Rightarrow> (st, Inl e)
      | Inr (plan, seeds) \<Rightarrow>
          (let st1 = (if sp_suppressed plan = [] then st else on_vault (mark_suppressed i (sp_suppressed plan)) st) in
           if sp_sends plan = [] then
             (case row of
                None \<Rightarrow> (st1, Inl (OtherError ''TypeError''))
              | Some b \<Rightarrow>
                  (case close_empty_batch (le_now ev) (cb_id b) batch_no (sp_recorded plan \<noteq> 0 \<or> truthy (cb_dispatch_started_at b))
                          (length (sp_suppressed plan)) (ls_vault st1) of
                     (v2, out) \<Rightarrow> (st1\<lparr>ls_vault := v2\<rparr>, Inr (out\<lparr>br_recorded := Some (sp_recorded plan)\<rparr>))))
           else load_batch ev i batch_no row ctx plan seeds st1))"

definition dispatch_batch ::
  "'s launch_env \<Rightarrow> int \<Rightarrow> int \<Rightarrow> send_ctx option \<Rightarrow> 's launch_state \<Rightarrow> ('s, batch_result) launch_result" where
  "dispatch_batch ev i batch_no ctx st =
     (case refuse_closed i closed_to_all (ls_vault st) of
        Inl e \<Rightarrow> (st, Inl e)
      | Inr _ \<Rightarrow>
          (case ctx of
             Some c \<Rightarrow> dispatch_with ev i batch_no c st
           | None \<Rightarrow>
               (case load_send_ctx ev i st of
                  (st1, Inl e) \<Rightarrow> (st1, Inl e)
                | (st1, Inr c) \<Rightarrow> dispatch_with ev i batch_no c st1)))"

section \<open>Summaries\<close>

datatype launch_summary =
    Sent_summary nat nat nat string "int option" push_answer "string option"
  | Finish_summary int nat nat string "push_answer option"
  | Batched_summary nat batch_result nat nat nat

definition ack_json :: "push_answer \<Rightarrow> json" where
  "ack_json a = JObj [(''accepted'', JInt (int (pa_accepted a))), (''submitted'', JInt (int (pa_submitted a))),
     (''enqueued'', JInt (int (pa_enqueued a))), (''deferred'', JInt (int (pa_deferred a)))]"

definition opt_json :: "('a \<Rightarrow> json) \<Rightarrow> 'a option \<Rightarrow> json" where
  "opt_json f x = (case x of None \<Rightarrow> JNull | Some a \<Rightarrow> f a)"

definition batch_json :: "batch_result \<Rightarrow> json" where
  "batch_json b = JObj ([(''batch_no'', JInt (br_batch_no b)), (''recipients'', JInt (int (br_recipients b))),
     (''suppressed'', JInt (int (br_suppressed b))), (''seeds'', JInt (int (br_seeds b))), (''packs'', JInt (int (br_packs b))),
     (''window_start'', JStr (br_window_start b)), (''window_end'', JStr (br_window_end b)), (''cloud_ack'', opt_json ack_json (br_ack b))] @
     (case br_recorded b of None \<Rightarrow> [] | Some n \<Rightarrow> [(''recorded'', JInt (int n))]))"

fun summary_json :: "int \<Rightarrow> launch_summary \<Rightarrow> json" where
  "summary_json i (Sent_summary dispatched suppressed everyone mode gen ack note) =
     JObj ([(''campaign_id'', JInt i), (''dispatched'', JInt (int dispatched)), (''suppressed'', JInt (int suppressed)),
       (''total_recipients'', JInt (int everyone)), (''mode'', JStr mode), (''generation'', opt_json JInt gen), (''cloud_ack'', ack_json ack)] @
       (case note of None \<Rightarrow> [] | Some n \<Rightarrow> [(''note'', JStr n)]))"
| "summary_json i (Finish_summary batch_no dispatched suppressed note ack) =
     JObj [(''campaign_id'', JInt i), (''mode'', JStr ''finish-batch''), (''batch_no'', JInt batch_no), (''dispatched'', JInt (int dispatched)),
       (''total_recipients'', JInt (int dispatched)), (''suppressed'', JInt (int suppressed)), (''note'', JStr note),
       (''cloud_ack'', opt_json ack_json ack)]"
| "summary_json i (Batched_summary batches first suppressed everyone seeds) =
     JObj [(''campaign_id'', JInt i), (''batches'', JInt (int batches)), (''batch_1'', batch_json first), (''suppressed'', JInt (int suppressed)),
       (''total_deliverable'', JInt (int everyone)), (''seeds_per_batch'', JInt (int seeds))]"

definition launched :: "'s launch_env \<Rightarrow> string \<Rightarrow> int \<Rightarrow> launch_summary \<Rightarrow> 's launch_state \<Rightarrow> ('s, launch_summary) launch_result" where
  "launched ev actor i sm st =
     (on_vault (audit (ll_crypto (le_lib ev)) (sql_time (le_now ev)) actor ''campaign.launched'' (Some (''campaign:'' @ dec_int i))
        (summary_json i sm)) st, Inr sm)"

definition next_action :: "int \<Rightarrow> vault \<Rightarrow> launch_error + string" where
  "next_action i v =
     (case campaign_of v i of
        None \<Rightarrow> Inl (OtherError ''NoResultFound'')
      | Some c \<Rightarrow>
          Inr (case interrupted_batch i v of
             Some b \<Rightarrow> '' Batch '' @ dec_int b @ '' was also interrupted: press Re-launch again to finish it.''
           | None \<Rightarrow>
               if ca_relaunch_open c \<noteq> 0 then '' A re-launch is still unfinished: press Re-launch again to finish it.''
               else '' No interrupted send is left. Pressing Re-launch again sends everyone the mail again.''))"

section \<open>Finishing an interrupted batch\<close>

definition finish_note :: "int \<Rightarrow> batch_result \<Rightarrow> string" where
  "finish_note batch_no res =
     (let accepted = (case br_ack res of None \<Rightarrow> 0 | Some a \<Rightarrow> pa_accepted a); n = accepted - br_seeds res in
      if n \<noteq> 0 then
        ''Finished the interrupted send of batch '' @ dec_int batch_no @ '': '' @ dec n @
        '' recipient(s) still waiting are now scheduled in the send window; no contact who already had it was mailed again, though seed addresses may get a repeat copy.''
      else if br_recorded res = Some 0 \<and> br_suppressed res \<noteq> 0 then
        ''Batch '' @ dec_int batch_no @ '' had nobody left to send to: every recipient still waiting is on the suppression list, so this press mailed nobody.''
      else
        ''Batch '' @ dec_int batch_no @ '' had already been handed over for sending; its status is now up to date. Nobody was mailed again.'')"

definition approve_marks :: "int \<Rightarrow> int \<Rightarrow> int \<Rightarrow> vault \<Rightarrow> vault" where
  "approve_marks now i batch_no v =
     v\<lparr>v_batches := update_where (\<lambda>b. cb_campaign_id b = i \<and> cb_batch_no b = batch_no - 1) (\<lambda>b. b\<lparr>cb_status := ''done''\<rparr>)
        (update_where (\<lambda>b. cb_campaign_id b = i \<and> cb_batch_no b = batch_no) (\<lambda>b. b\<lparr>cb_approved_at := Some (sql_time now)\<rparr>) (v_batches v))\<rparr>"

definition finish_interrupted_batch ::
  "'s launch_env \<Rightarrow> int \<Rightarrow> int \<Rightarrow> string \<Rightarrow> 's launch_state \<Rightarrow> ('s, launch_summary) launch_result" where
  "finish_interrupted_batch ev i batch_no actor st =
     (case dispatch_batch ev i batch_no None st of
        (st1, Inl e) \<Rightarrow> (st1, Inl e)
      | (st1, Inr res) \<Rightarrow>
          (let st2 = (if 1 < batch_no then on_vault (approve_marks (le_now ev) i batch_no) st1 else st1) in
           case next_action i (ls_vault st2) of
             Inl e \<Rightarrow> (st2, Inl e)
           | Inr nxt \<Rightarrow>
               launched ev actor i (Finish_summary batch_no (br_recipients res) (br_suppressed res) (finish_note batch_no res @ nxt) (br_ack res)) st2))"

section \<open>Launch\<close>

record launch_args =
  la_actor :: string
  la_template :: "int option"
  la_stage :: "int option"
  la_relaunch :: bool
  la_seq :: "int option"

definition edited_text :: "string \<Rightarrow> string \<Rightarrow> string" where
  "edited_text tested current =
     ''template edited since last test (test='' @ take 8 tested @ '' cur='' @ take 8 current @ ''); re-test required''"

text \<open>The status gate, the template and its hash gate; \<open>plain\<close> is a launch that is neither a stage nor a Re-launch.\<close>

definition launch_gate :: "(string \<Rightarrow> string option) \<Rightarrow> int \<Rightarrow> launch_args \<Rightarrow> vault \<Rightarrow> launch_error + campaign \<times> template" where
  "launch_gate conf i args v =
     (let plain = (la_stage args = None \<and> \<not> la_relaunch args) in
      case campaign_of v i of
        None \<Rightarrow> Inl (LaunchError (''campaign '' @ dec_int i @ '' not found''))
      | Some camp \<Rightarrow>
          if plain \<and> ca_status camp \<notin> {''tested'', ''scheduled''}
          then Inl (LaunchError (''campaign status '' @ quoted (ca_status camp) @ ''; must be tested or scheduled''))
          else if plain \<and> opt_or (ca_test_sent_at camp) [] = [] then Inl (LaunchError ''test send required before launch'')
          else
            (let tmpl_id = (case truthy_id (la_template args) of Some t \<Rightarrow> t | None \<Rightarrow> ca_template_id camp) in
             case template_of tmpl_id v of
               None \<Rightarrow> Inl (LaunchError (''template '' @ dec_int tmpl_id @ '' not found''))
             | Some tmpl \<Rightarrow>
                 if plain \<and> ca_template_hash_at_test camp \<noteq> Some (tp_template_hash tmpl)
                 then (case ca_template_hash_at_test camp of
                         None \<Rightarrow> Inl (OtherError ''TypeError'')
                       | Some h \<Rightarrow> Inl (LaunchError (edited_text h (tp_template_hash tmpl))))
                 else if ca_kind camp = ''promotional'' \<and> conf_or conf ''email_footer_address'' [] = []
                 then Inl (LaunchError ''promotional needs email_footer_address setting (CAN-SPAM)'')
                 else Inr (camp, tmpl)))"

definition launch_statuses :: "launch_args \<Rightarrow> string list" where
  "launch_statuses args = (if la_stage args \<noteq> None \<or> la_relaunch args then sendable else [''queued''])"

definition lock_text :: "(int \<times> lock_row) list \<Rightarrow> string" where
  "lock_text conflicts =
     dec (length conflicts) @ '' contact(s) are locked by another running campaign (e.g. '' @ quoted (lk_campaign_name (snd (hd conflicts))) @
     '', free at '' @ lk_free_at (snd (hd conflicts)) @ '' UTC). A contact can only be on one campaign per day.''"

text \<open>All the checks that only read: the campaign, its template and the recipients of this launch.\<close>

definition launch_checks :: "(string \<Rightarrow> string option) \<Rightarrow> int \<Rightarrow> int \<Rightarrow> launch_args \<Rightarrow> vault \<Rightarrow> launch_error + campaign \<times> template \<times> candidate list" where
  "launch_checks conf now i args v =
     bindE (launch_gate conf i args v) (\<lambda>(camp, tmpl).
       let recipients = candidates_of (\<lambda>r. cr_campaign_id r = i \<and> cr_status r \<in> set (launch_statuses args)) v;
           conflicts = find_conflicts (sql_time now) i (map cd_contact_id recipients) v
       in
       if recipients = [] \<and> \<not> (la_relaunch args \<and> ca_relaunch_open camp \<noteq> 0) then Inl (LaunchError ''no queued recipients'')
       else if la_stage args = None \<and> conflicts \<noteq> [] then Inl (LaunchRetryable (lock_text conflicts))
       else Inr (camp, tmpl, recipients))"

text \<open>A stage and a Re-launch send to everyone in one push.\<close>

definition finish_relaunch_note :: "nat \<Rightarrow> string" where
  "finish_relaunch_note n =
     (if n \<noteq> 0 then ''Finished the interrupted re-launch: '' @ dec n @
        '' recipient(s) who had not been sent it are now queued for sending, and nobody who already had it was mailed again.''
      else ''The interrupted re-launch had nothing left to send: everyone due it had already been handed it or is suppressed. It is now marked complete. Nobody was mailed again.'')"

definition mark_stage_dispatched :: "int \<Rightarrow> int \<Rightarrow> vault \<Rightarrow> vault" where
  "mark_stage_dispatched now stage_id v =
     v\<lparr>v_stages := update_where (\<lambda>s. sg_id s = stage_id) (\<lambda>s. s\<lparr>sg_status := ''dispatched'', sg_dispatched_at := Some (sql_time now)\<rparr>) (v_stages v)\<rparr>"

definition claim_generation :: "int \<Rightarrow> int option \<Rightarrow> 's launch_state \<Rightarrow> ('s, string \<times> string \<times> int option) launch_result" where
  "claim_generation i stage st =
     (case stage of
        Some s \<Rightarrow> (st, Inr (''stage:'' @ dec_int s, ''stage'', None))
      | None \<Rightarrow>
          (case open_relaunch i (ls_vault st) of
             (v1, Inl e) \<Rightarrow> (st\<lparr>ls_vault := v1\<rparr>, Inl e)
           | (v1, Inr (gen, finishing)) \<Rightarrow>
               (st\<lparr>ls_vault := v1\<rparr>, Inr (gen_key_for gen, if finishing then ''finish-relaunch'' else ''relaunch'', Some gen))))"

definition launch_all ::
  "'s launch_env \<Rightarrow> int \<Rightarrow> launch_args \<Rightarrow> send_ctx \<Rightarrow> candidate list \<Rightarrow> candidate list \<Rightarrow> 's launch_state \<Rightarrow> ('s, launch_summary) launch_result" where
  "launch_all ev i args ctx recipients deliver st =
     (let camp = cx_camp ctx; lib = le_lib ev; send_at = pack_send_at lib (ca_scheduled_for camp) in
      case assert_recipients_sendable (le_conf ev) ctx (map target_of deliver) of
        Inl e \<Rightarrow> (st, Inl e)
      | Inr _ \<Rightarrow>
      (case claim_generation i (la_stage args) st of
        (st1, Inl e) \<Rightarrow> (st1, Inl e)
      | (st1, Inr (key, mode, gen)) \<Rightarrow>
      (case plan_sends (ll_crypto lib) (ll_uuid5 lib) i (ca_created_at camp) (ca_kind camp) key recipients (ls_vault st1) of
        Inl e \<Rightarrow> (st1, Inl e)
      | Inr plan \<Rightarrow>
      (case build_all ev ctx (ca_human_send camp \<noteq> 0) 0 (map (\<lambda>(r, p). ((target_of r, False, Some p), send_at)) (sp_sends plan)) of
        Inl e \<Rightarrow> (st1, Inl e)
      | Inr (packs, jobs) \<Rightarrow>
      (case push_step ev i packs jobs st1 of
        (st2, Inl e) \<Rightarrow> (st2, Inl e)
      | (st2, Inr ack) \<Rightarrow>
          (let st3 = on_vault (case (la_stage args, gen) of (Some s, _) \<Rightarrow> mark_stage_dispatched (le_now ev) s
                                 | (None, Some g) \<Rightarrow> close_relaunch i g | (None, None) \<Rightarrow> id) st2;
               sent = Sent_summary (length packs) (length (sp_suppressed plan)) (length recipients) mode gen ack
           in
           if mode = ''finish-relaunch'' then
             (case next_action i (ls_vault st3) of
                Inl e \<Rightarrow> (st3, Inl e)
              | Inr nxt \<Rightarrow> launched ev (la_actor args) i (sent (Some (finish_relaunch_note (pa_accepted ack) @ nxt))) st3)
           else launched ev (la_actor args) i (sent None) st3))))))"

text \<open>A plain launch cuts its recipients into batches and dispatches the first. The slices of a negative size are
  none, a zero size is the \<open>ValueError\<close> of \<open>range\<close>.\<close>

definition batches_of :: "int \<Rightarrow> 'a list \<Rightarrow> launch_error + 'a list list" where
  "batches_of n rs =
     (if n = 0 then Inl (OtherError ''ValueError'') else if n < 0 then Inr [] else Inr (chunks (nat n) rs))"

definition new_batch :: "int \<Rightarrow> int \<Rightarrow> int \<Rightarrow> nat \<Rightarrow> int \<Rightarrow> batch" where
  "new_batch now i batch_no members row_id =
     \<lparr>cb_id = row_id, cb_campaign_id = i, cb_batch_no = batch_no, cb_size = int members, cb_status = ''pending'', cb_window_start = None,
      cb_window_end = None, cb_loaded_at = None, cb_drained_at = None, cb_approve_unlock_at = None, cb_approved_at = None, cb_sent = 0,
      cb_delivered = 0, cb_opened = 0, cb_clicked = 0, cb_bounced = 0, cb_complained = 0, cb_unsub = 0, cb_created_at = sql_time now,
      cb_dispatch_started_at = None\<rparr>"

definition set_batch_no :: "int \<Rightarrow> int \<Rightarrow> candidate list \<Rightarrow> recipient list \<Rightarrow> recipient list" where
  "set_batch_no i batch_no rs rows =
     fold (\<lambda>r. update_where (\<lambda>x. cr_campaign_id x = i \<and> cr_contact_id x = cd_contact_id r) (\<lambda>x. x\<lparr>cr_batch_no := Some batch_no\<rparr>)) rs rows"

fun insert_batches :: "int \<Rightarrow> int \<Rightarrow> int \<Rightarrow> candidate list list \<Rightarrow> vault \<Rightarrow> vault" where
  "insert_batches now i k [] v = v"
| "insert_batches now i k (rs # rest) v =
     insert_batches now i (k + 1) rest
       (v\<lparr>v_batches := insert_or_ignore (\<lambda>b. (cb_campaign_id b, cb_batch_no b)) (new_batch now i k (length rs) (next_row_id cb_id (v_batches v)))
             (v_batches v),
          v_recipients := set_batch_no i k rs (v_recipients v)\<rparr>)"

definition start_campaign :: "int \<Rightarrow> int \<Rightarrow> vault \<Rightarrow> vault" where
  "start_campaign now i v =
     v\<lparr>v_campaigns := update_where (\<lambda>c. ca_id c = i)
        (\<lambda>c. c\<lparr>ca_status := ''dispatched'', ca_dispatched_at := Some (sql_time now),
               ca_lock_until := (if ca_lock_duration_s c < 0 then None else Some (sql_time (now + ca_lock_duration_s c))),
               ca_unsubs_confirmed_at := None, ca_updated_at := sql_time now\<rparr>) (v_campaigns v)\<rparr>"

definition launch_batches ::
  "'s launch_env \<Rightarrow> int \<Rightarrow> launch_args \<Rightarrow> send_ctx \<Rightarrow> candidate list \<Rightarrow> candidate list \<Rightarrow> 's launch_state \<Rightarrow> ('s, launch_summary) launch_result" where
  "launch_batches ev i args ctx recipients deliver st =
     (let seeds = active_seed_emails (ls_vault st) in
      if deliver = [] then (st, Inl (LaunchError ''all recipients suppressed - nothing to send''))
      else
        (case assert_recipients_sendable (le_conf ev) ctx (map target_of deliver @ map seed_target seeds) of
           Inl e \<Rightarrow> (st, Inl e)
         | Inr _ \<Rightarrow>
             (case batches_of (conf_int (le_conf ev) ''send_batch_size'' 1000) deliver of
                Inl e \<Rightarrow> (st, Inl e)
              | Inr batches \<Rightarrow>
                  (let st1 = on_vault (\<lambda>v. start_campaign (le_now ev) i (insert_batches (le_now ev) i 1 batches v)) st in
                   case dispatch_batch ev i 1 (Some ctx) st1 of
                     (st2, Inl e) \<Rightarrow> (st2, Inl e)
                   | (st2, Inr b) \<Rightarrow>
                       launched ev (la_actor args) i
                         (Batched_summary (length batches) b (length recipients - length deliver) (length deliver)
                            (length (active_seed_emails (ls_vault st2)))) st2))))"

definition launch_campaign :: "'s launch_env \<Rightarrow> int \<Rightarrow> launch_args \<Rightarrow> 's launch_state \<Rightarrow> ('s, launch_summary) launch_result" where
  "launch_campaign ev i args st =
     (let v = ls_vault st; cr = ll_crypto (le_lib ev) in
      case (if la_relaunch args then refuse_closed i closed_to_all v
            else if la_stage args \<noteq> None then refuse_closed i closed_to_stages v else Inr ()) of
        Inl e \<Rightarrow> (st, Inl e)
      | Inr _ \<Rightarrow>
      (case le_bearer ev of
        None \<Rightarrow> (st, Inl (LaunchRetryable (''cloud bearer missing - handshake helper: `scripts/v3 init-handshake` '' @
                   ''(see Known limitations in the README)'')))
      | Some text \<Rightarrow>
      (case (if la_relaunch args then claim_relaunch i (la_seq args) v else (v, Inr ())) of
        (v1, Inl e) \<Rightarrow> (st\<lparr>ls_vault := v1\<rparr>, Inl e)
      | (v1, Inr _) \<Rightarrow>
          (let st1 = st\<lparr>ls_vault := v1\<rparr> in
           case (if la_relaunch args then interrupted_batch i v1 else None) of
             Some batch_no \<Rightarrow> finish_interrupted_batch ev i batch_no (la_actor args) st1
           | None \<Rightarrow>
               (case launch_checks (le_conf ev) (le_now ev) i args v1 of
                  Inl e \<Rightarrow> (st1, Inl e)
                | Inr (camp, tmpl, recipients) \<Rightarrow>
                    (case make_ctx ev ''resend_api_key not configured - set via admin UI or on the company'' (strip text) camp tmpl st1 of
                       (st2, Inl e) \<Rightarrow> (st2, Inl e)
                     | (st2, Inr ctx) \<Rightarrow>
                         (let deliver = deliverable cr (ca_kind camp) v1 recipients in
                          if la_stage args \<noteq> None \<or> la_relaunch args
                          then launch_all ev i args ctx recipients deliver st2
                          else launch_batches ev i args ctx recipients deliver st2)))))))"

section \<open>The test mail\<close>

definition test_body :: "json \<Rightarrow> (string \<times> json) option" where
  "test_body plain =
     (case (jitem ''resend_api_key'' plain, jitem ''from'' plain, jitem ''recipient'' plain, jitem ''subject'' plain, jitem ''html'' plain) of
        (Some (JStr key), Some sender, Some recipient, Some (JStr subject), Some html) \<Rightarrow>
          Some (key, JObj ([(''from'', sender), (''to'', JArr [recipient]), (''subject'', JStr (''[Test] '' @ subject)), (''html'', html),
            (''headers'', the (jget_or ''headers'' (JObj []) plain)), (''open_tracking'', JBool False), (''click_tracking'', JBool True)] @
            (case jget ''text'' plain of Some t \<Rightarrow> if jtrue t then [(''text'', t)] else [] | None \<Rightarrow> [])))
      | _ \<Rightarrow> None)"

definition build_test_mail :: "'s launch_env \<Rightarrow> campaign \<Rightarrow> template \<Rightarrow> string \<Rightarrow> bytes \<Rightarrow> vault \<Rightarrow> launch_error + string \<times> json" where
  "build_test_mail ev camp tmpl to_email k v =
     (let conf = le_conf ev; lib = le_lib ev; cr = ll_crypto lib in
      if ca_kind camp = ''promotional'' \<and> conf_or conf ''email_footer_address'' [] = []
      then Inl (LaunchError ''promotional needs email_footer_address setting (CAN-SPAM)'')
      else
      bindE (sender_of conf (le_decrypt ev) camp v) (\<lambda>(resend_key, from_name, email_from).
      if resend_key = [] then Inl (LaunchError ''resend_api_key not configured - set via admin UI or on the company'')
      else
      bindE (preflight conf v tmpl camp (ca_entity_id camp)) (\<lambda>company.
      let ctx = \<lparr>cx_camp = camp, cx_tmpl = tmpl, cx_public_host = public_host conf, cx_resend_key = resend_key, cx_email_from = email_from,
                 cx_email_from_name = from_name, cx_k_temp = k, cx_key_id = [], cx_bearer = [], cx_company_name = company\<rparr>;
          recipients = candidates_of (\<lambda>r. cr_campaign_id r = ca_id camp \<and> cr_status r = ''queued'') v;
          known = (case sort_key ct_id (filter (\<lambda>c. lower (ct_email c) = lower to_email) (v_contacts v)) of [] \<Rightarrow> None | c # _ \<Rightarrow> ct_name c);
          deliver = deliverable cr (ca_kind camp) v recipients
      in
      bindE (assert_recipients_sendable conf ctx (map target_of deliver @ map seed_target (active_seed_emails v))) (\<lambda>_.
      bindE (build_pack lib conf (le_now ev) ctx \<lparr>tg_email = to_email, tg_name = Some (opt_or known []), tg_contact = None\<rparr> send_now False True None
               (le_rand ev 0)) (\<lambda>(pack, j).
      case b64decode (pi_blob pack) of
        None \<Rightarrow> Inl (OtherError ''binascii.Error'')
      | Some blob \<Rightarrow>
          (case decrypt_with_temp cr blob k of
             Inl e \<Rightarrow> Inl (OtherError ''decrypt'')
           | Inr text \<Rightarrow>
               (case Option.bind (json_loads cr text) test_body of
                  None \<Rightarrow> Inl (OtherError ''KeyError'')
                | Some r \<Rightarrow> Inr r)))))))"

end
