(* ===== verification/Push_Properties.thy ===== *)
theory Push_Properties
  imports Launch_Push
begin

text \<open>
  Pushing and recording against the cloud: the contract of POST /packs that the launch relies on
  (\<open>pack_cloud\<close>), what follows from it for one push and for a push that is interrupted and tried
  again, and the proof that the model of the cloud keeps the contract.
\<close>

lemma concat_chunks: "0 < n \<Longrightarrow> concat (chunks n xs) = xs"
  by (induction n xs rule: chunks.induct) (subst chunks.simps, auto)

section \<open>The contract\<close>

text \<open>\<open>stored\<close> is the set of pack ids the cloud holds; \<open>ok\<close> an invariant of its state. An acknowledged chunk
  is stored, whatever was stored stays, and only packs of the chunk are reported as held.\<close>

locale pack_cloud =
  fixes post :: "'s poster" and stored :: "'s \<Rightarrow> string set" and ok :: "'s \<Rightarrow> bool"
  assumes post_ok: "ok s \<Longrightarrow> post k part s = (s1, r) \<Longrightarrow> ok s1"
    and post_keeps: "ok s \<Longrightarrow> post k part s = (s1, r) \<Longrightarrow> stored s \<subseteq> stored s1"
    and ack_stores: "ok s \<Longrightarrow> post k part s = (s1, Ack a) \<Longrightarrow> pi_id ` set part \<subseteq> stored s1"
    and ack_held: "ok s \<Longrightarrow> post k part s = (s1, Ack a) \<Longrightarrow> hd_id ` set (pa_held a) \<subseteq> pi_id ` set part"
begin

text \<open>How far a push came: \<open>n\<close> packs were acknowledged, the reports are about those.\<close>

definition came :: "pack_in list \<Rightarrow> 's \<Rightarrow> nat \<Rightarrow> held list \<Rightarrow> bool" where
  "came packs s n held \<longleftrightarrow>
     n \<le> length packs \<and> pi_id ` set (take n packs) \<subseteq> stored s \<and> hd_id ` set held \<subseteq> pi_id ` set (take n packs)"

fun outcome_ok :: "pack_in list \<Rightarrow> 's \<Rightarrow> push_outcome \<Rightarrow> bool" where
  "outcome_ok packs s (Pushed a) = came packs s (length packs) (pa_held a)"
| "outcome_ok packs s (Interrupted e n held) = came packs s n held"
| "outcome_ok packs s (Failed e) = True"

lemma came_mono: "came packs s n held \<Longrightarrow> stored s \<subseteq> stored s1 \<Longrightarrow> came packs s1 n held"
  by (auto simp: came_def)

lemma came_failure: "came packs s n (pa_held agg) \<Longrightarrow> outcome_ok packs s (push_failure e n agg)"
  by (simp add: push_failure_def)

lemma came_ack:
  assumes "ok s" "post k part s = (s1, Ack a)" "came (done @ part @ rest) s (length done) (pa_held agg)"
  shows "came (done @ part @ rest) s1 (length (done @ part)) (pa_held (add_answer agg a))"
  using assms(3) ack_stores [OF assms(1,2)] ack_held [OF assms(1,2)] post_keeps [OF assms(1,2)]
  by (auto simp: came_def add_answer_def)

lemma push_chunks_came:
  "ok s \<Longrightarrow> came (done @ concat parts) s (length done) (pa_held agg) \<Longrightarrow>
   push_chunks post k parts (length done) agg s = (s1, r) \<Longrightarrow> ok s1 \<and> stored s \<subseteq> stored s1 \<and> outcome_ok (done @ concat parts) s1 r"
proof (induction parts arbitrary: "done" agg s k)
  case Nil
  then show ?case by auto
next
  case (Cons part parts)
  obtain s2 b where p: "post k part s = (s2, b)" by fastforce
  have k: "ok s2" "stored s \<subseteq> stored s2" using post_ok post_keeps p Cons.prems(1) by blast+
  have c: "came (done @ concat (part # parts)) s2 (length done) (pa_held agg)" using came_mono [OF Cons.prems(2) k(2)] .
  show ?case
  proof (cases b)
    case (Ack a)
    have "came ((done @ part) @ concat parts) s2 (length (done @ part)) (pa_held (add_answer agg a))"
      using came_ack [OF Cons.prems(1), of k part s2 a "done" "concat parts" agg] p Ack Cons.prems(2) by simp
    from Cons.IH [OF k(1) this] Cons.prems(3) p Ack k(2) show ?thesis by auto
  next
    case (Refused n t)
    with Cons.prems(3) p k came_failure [OF c] show ?thesis by auto
  next
    case (Broken e)
    with Cons.prems(3) p k came_failure [OF c] show ?thesis by auto
  qed
qed

lemma push_all_came:
  assumes "ok s" "push_all post chunk packs s = (s1, r)"
  shows "ok s1 \<and> stored s \<subseteq> stored s1 \<and> outcome_ok packs s1 r"
proof (cases "packs = [] \<or> chunk = 0")
  case True
  with assms show ?thesis by (auto simp: push_all_def came_def no_answer_def split: if_splits)
next
  case False
  then have "push_chunks post 0 (chunks chunk packs) (length []) no_answer s = (s1, r)" using assms(2) by (simp add: push_all_def)
  from push_chunks_came [OF assms(1) _ this] False show ?thesis by (simp add: came_def no_answer_def concat_chunks)
qed

end

section \<open>What a record changes\<close>

definition contact_notes :: "job_note list \<Rightarrow> job_note list" where
  "contact_notes js = filter (\<lambda>j. \<not> jn_is_seed j \<and> jn_contact_id j \<noteq> None) js"

lemma record_one_cases:
  "record_one now i j v = Some v1 \<Longrightarrow>
   jobs_of i v1 = jobs_of i v @ map (\<lambda>j. (jn_pack_id j, ''dispatched'')) (contact_notes [j]) \<and> v_suppressions v1 = v_suppressions v \<and>
   dj_job_id ` set (v_jobs v1) = dj_job_id ` set (v_jobs v) \<union> jn_pack_id ` set (contact_notes [j])"
  by (auto simp: record_one_def jobs_of_def contact_notes_def split: if_splits bool.splits option.splits)

lemma record_all_jobs:
  "record_all now i js v = Some v1 \<Longrightarrow>
   jobs_of i v1 = jobs_of i v @ map (\<lambda>j. (jn_pack_id j, ''dispatched'')) (contact_notes js) \<and> v_suppressions v1 = v_suppressions v"
proof (induction js arbitrary: v)
  case Nil
  then show ?case by (simp add: contact_notes_def)
next
  case (Cons j js)
  then obtain v2 where v2: "record_one now i j v = Some v2" "record_all now i js v2 = Some v1" by (auto split: option.splits)
  have "contact_notes (j # js) = contact_notes [j] @ contact_notes js" by (simp add: contact_notes_def)
  with Cons.IH [OF v2(2)] record_one_cases [OF v2(1)] show ?case by simp
qed

lemma record_all_succeeds:
  "distinct (map jn_pack_id (contact_notes js)) \<Longrightarrow> jn_pack_id ` set (contact_notes js) \<inter> dj_job_id ` set (v_jobs v) = {} \<Longrightarrow>
   \<exists>v1. record_all now i js v = Some v1"
proof (induction js arbitrary: v)
  case (Cons j js)
  have c: "contact_notes (j # js) = contact_notes [j] @ contact_notes js" by (simp add: contact_notes_def)
  have "record_one now i j v \<noteq> None"
    using Cons.prems(2) by (cases "jn_is_seed j"; cases "jn_contact_id j") (simp_all add: record_one_def contact_notes_def)
  then obtain v2 where v2: "record_one now i j v = Some v2" by blast
  have "\<exists>v1. record_all now i js v2 = Some v1"
    using Cons.prems record_one_cases [OF v2] unfolding c by (intro Cons.IH) auto
  with v2 show ?case by simp
qed simp

text \<open>An outcome changes the status of its own job only.\<close>

lemma outcome_frame:
  "v_suppressions (apply_pack_outcome cr now p v) = v_suppressions v"
  "map fst (jobs_of i (apply_pack_outcome cr now p v)) = map fst (jobs_of i v)"
  "q \<noteq> hd_id p \<Longrightarrow> map_of (jobs_of i (apply_pack_outcome cr now p v)) q = map_of (jobs_of i v) q"
proof -
  have f: "v_suppressions (outcome_audit cr now a pid st rs w) = v_suppressions w" "v_jobs (outcome_audit cr now a pid st rs w) = v_jobs w"
    for a pid st rs w by (simp_all add: outcome_audit_def audit_def)
  have u: "v_suppressions (apply_unknown_outcome cr now pid reason v) = v_suppressions v"
    "v_jobs (apply_unknown_outcome cr now pid reason v) = v_jobs v" for pid reason
    by (simp_all add: apply_unknown_outcome_def f split: option.splits)
  show "v_suppressions (apply_pack_outcome cr now p v) = v_suppressions v"
    by (simp add: apply_pack_outcome_def Let_def u f split: option.splits)
  have k: "dj_job_id (outcome_job now st r j) = dj_job_id j" "dj_campaign_id (outcome_job now st r j) = dj_campaign_id j" for st r j
    by (simp_all add: outcome_job_def)
  have "v_jobs (apply_pack_outcome cr now p v) = v_jobs v \<or>
     (\<exists>st r. v_jobs (apply_pack_outcome cr now p v) = update_where (\<lambda>k. dj_job_id k = hd_id p) (outcome_job now st r) (v_jobs v))"
    by (auto simp: apply_pack_outcome_def Let_def u f split: option.splits)
  moreover have "map fst (jobs_of i (v\<lparr>v_jobs := update_where (\<lambda>k. dj_job_id k = hd_id p) (outcome_job now st r) rows\<rparr>)) =
      map fst (jobs_of i (v\<lparr>v_jobs := rows\<rparr>)) \<and>
    (q \<noteq> hd_id p \<longrightarrow> map_of (jobs_of i (v\<lparr>v_jobs := update_where (\<lambda>k. dj_job_id k = hd_id p) (outcome_job now st r) rows\<rparr>)) q =
      map_of (jobs_of i (v\<lparr>v_jobs := rows\<rparr>)) q)" for st r rows q
    by (induction rows) (auto simp: jobs_of_def update_where_def k)
  from this [of _ _ "v_jobs v"] have "map fst (jobs_of i (v\<lparr>v_jobs := update_where (\<lambda>k. dj_job_id k = hd_id p) (outcome_job now st r) (v_jobs v)\<rparr>)) =
      map fst (jobs_of i v)"
    "q \<noteq> hd_id p \<Longrightarrow> map_of (jobs_of i (v\<lparr>v_jobs := update_where (\<lambda>k. dj_job_id k = hd_id p) (outcome_job now st r) (v_jobs v)\<rparr>)) q =
      map_of (jobs_of i v) q" for st r q by simp_all
  ultimately show "map fst (jobs_of i (apply_pack_outcome cr now p v)) = map fst (jobs_of i v)"
    "q \<noteq> hd_id p \<Longrightarrow> map_of (jobs_of i (apply_pack_outcome cr now p v)) q = map_of (jobs_of i v) q"
    by (auto simp: jobs_of_def)
qed

lemma held_frame:
  "v_suppressions (apply_held_outcomes cr now held v) = v_suppressions v"
  "map fst (jobs_of i (apply_held_outcomes cr now held v)) = map fst (jobs_of i v)"
  "q \<notin> hd_id ` set held \<Longrightarrow> map_of (jobs_of i (apply_held_outcomes cr now held v)) q = map_of (jobs_of i v) q"
proof -
  have "v_suppressions (fold (apply_pack_outcome cr now) ps v) = v_suppressions v \<and>
      map fst (jobs_of i (fold (apply_pack_outcome cr now) ps v)) = map fst (jobs_of i v) \<and>
      (q \<notin> hd_id ` set ps \<longrightarrow> map_of (jobs_of i (fold (apply_pack_outcome cr now) ps v)) q = map_of (jobs_of i v) q)" for ps q
    by (induction ps arbitrary: v) (simp_all add: outcome_frame)
  from this [of "filter (\<lambda>p. hd_status p \<in> set resolved_pack) held"]
  show "v_suppressions (apply_held_outcomes cr now held v) = v_suppressions v"
    "map fst (jobs_of i (apply_held_outcomes cr now held v)) = map fst (jobs_of i v)"
    "q \<notin> hd_id ` set held \<Longrightarrow> map_of (jobs_of i (apply_held_outcomes cr now held v)) q = map_of (jobs_of i v) q"
    by (auto simp: apply_held_outcomes_def)
qed

section \<open>One push\<close>

lemma contact_notes_ids: "jn_pack_id ` set (contact_notes js) \<subseteq> jn_pack_id ` set js"
  by (auto simp: contact_notes_def)

lemma map_of_dispatched: "map_of (jobs @ map (\<lambda>j. (jn_pack_id j, ''dispatched'')) js) q = map_of jobs q" if "q \<notin> jn_pack_id ` set js"
proof -
  have "map_of (map (\<lambda>j. (jn_pack_id j, ''dispatched'')) js) q = None" using that by (auto simp: map_of_eq_None_iff)
  then show ?thesis by (simp add: map_add_def split: option.split)
qed

text \<open>What \<open>record_outcome\<close> leaves when \<open>n\<close> packs were recorded and the reports are about them.\<close>

definition recorded :: "int \<Rightarrow> nat \<Rightarrow> job_note list \<Rightarrow> vault \<Rightarrow> vault \<Rightarrow> bool" where
  "recorded i n jobs v v1 \<longleftrightarrow>
     map fst (jobs_of i v1) = map fst (jobs_of i v) @ map jn_pack_id (contact_notes (take n jobs)) \<and>
     v_suppressions v1 = v_suppressions v \<and>
     (\<forall>q. q \<notin> jn_pack_id ` set (take n jobs) \<longrightarrow> map_of (jobs_of i v1) q = map_of (jobs_of i v) q)"

lemma recorded_zero [simp]: "recorded i 0 jobs v v"
  by (simp add: recorded_def contact_notes_def)

lemma recorded_held:
  assumes r: "record_dispatch now i (take n jobs) v = (v1, Inr u)" and h: "hd_id ` set held \<subseteq> jn_pack_id ` set (take n jobs)"
  shows "recorded i n jobs v (apply_held_outcomes cr now held v1)"
proof -
  have "record_all now i (take n jobs) v = Some v1" using r by (auto simp: record_dispatch_def split: option.splits)
  from record_all_jobs [OF this]
  have j: "jobs_of i v1 = jobs_of i v @ map (\<lambda>j. (jn_pack_id j, ''dispatched'')) (contact_notes (take n jobs))"
    "v_suppressions v1 = v_suppressions v" by simp_all
  have "map_of (jobs_of i (apply_held_outcomes cr now held v1)) q = map_of (jobs_of i v) q" if q: "q \<notin> jn_pack_id ` set (take n jobs)" for q
  proof -
    have "q \<notin> hd_id ` set held" "q \<notin> jn_pack_id ` set (contact_notes (take n jobs))" using q h contact_notes_ids by blast+
    from trans [OF held_frame(3) [OF this(1)] map_of_dispatched [OF this(2), of "jobs_of i v", folded j(1)]] show ?thesis .
  qed
  then show ?thesis by (simp add: recorded_def held_frame j o_def)
qed

context pack_cloud
begin

lemma push_and_record_sound:
  assumes s: "ok s" and n: "map jn_pack_id jobs = map pi_id packs"
    and p: "push_and_record cr post meanwhile chunk now i packs jobs (m, v, s) = ((m', v', s'), res)"
  shows "ok s' \<and> stored s \<subseteq> stored s' \<and>
    (\<exists>n\<le>length packs. pi_id ` set (take n packs) \<subseteq> stored s' \<and> recorded i n jobs (meanwhile v) v' \<and> (\<forall>a. res = Inr a \<longrightarrow> n = length packs))"
proof -
  obtain r where r: "push_all post chunk packs s = (s', r)" "record_outcome cr now i jobs r (meanwhile v) = (v', res)"
    using p by (auto simp: push_and_record_def Let_def split: prod.splits)
  note c = push_all_came [OF s r(1)]
  have ids: "jn_pack_id ` set (take n jobs) = pi_id ` set (take n packs)" for n
    using arg_cong [OF n, of "\<lambda>xs. set (take n xs)"] by (simp add: take_map)
  have "\<exists>n\<le>length packs. pi_id ` set (take n packs) \<subseteq> stored s' \<and> recorded i n jobs (meanwhile v) v' \<and> (\<forall>a. res = Inr a \<longrightarrow> n = length packs)"
  proof (cases r)
    case (Pushed a)
    have l: "length jobs = length packs" using arg_cong [OF n, of length] by simp
    obtain v1 x where v1: "record_dispatch now i jobs (meanwhile v) = (v1, x)" by fastforce
    show ?thesis
    proof (cases x)
      case (Inl e)
      then have "v1 = meanwhile v" using v1 by (auto simp: record_dispatch_def split: option.splits)
      then show ?thesis using Pushed r(2) v1 Inl by (intro exI [of _ 0]) (auto simp: record_outcome_def)
    next
      case (Inr u)
      have "recorded i (length packs) jobs (meanwhile v) (apply_held_outcomes cr now (pa_held a) v1)"
        using v1 Inr c Pushed ids [of "length packs"] l by (intro recorded_held) (simp_all add: came_def)
      then show ?thesis using Pushed r(2) v1 Inr c by (intro exI [of _ "length packs"]) (auto simp: record_outcome_def came_def)
    qed
  next
    case (Interrupted e n held)
    obtain v1 x where v1: "record_dispatch now i (take n jobs) (meanwhile v) = (v1, x)" by fastforce
    show ?thesis
    proof (cases x)
      case (Inl e)
      then have "v1 = meanwhile v" using v1 by (auto simp: record_dispatch_def split: option.splits)
      then show ?thesis using Interrupted r(2) v1 Inl by (intro exI [of _ 0]) (auto simp: record_outcome_def)
    next
      case (Inr u)
      have "recorded i n jobs (meanwhile v) (apply_held_outcomes cr now held v1)"
        using v1 Inr c Interrupted ids [of n] by (intro recorded_held) (simp_all add: came_def)
      then show ?thesis using Interrupted r(2) v1 Inr c by (intro exI [of _ n]) (auto simp: record_outcome_def came_def)
    qed
  next
    case (Failed e)
    with r(2) show ?thesis by (intro exI [of _ 0]) (auto simp: record_outcome_def)
  qed
  with c show ?thesis by blast
qed

end

section \<open>The cloud keeps the contract\<close>

text \<open>A request that reaches the cloud is carried out there; it, or its answer, may be lost on the way, and it may be
  turned away before the handler runs.\<close>

datatype delivery = Delivered | Lost_request | Lost_answer | Turned_away nat

definition post_packs ::
  "(table \<Rightarrow> table) \<Rightarrow> (string \<Rightarrow> bool) \<Rightarrow> (nat \<Rightarrow> int) \<Rightarrow> string \<Rightarrow> (nat \<Rightarrow> delivery) \<Rightarrow> push_state poster" where
  "post_packs other queue_ok now actor net k part s =
     (case net k of
        Lost_request \<Rightarrow> (s, Broken ''ConnectError'')
      | Turned_away n \<Rightarrow> (s, Refused n [])
      | d \<Rightarrow>
          (case packs_push other queue_ok (now k) actor part s of
             (s1, Inl e) \<Rightarrow> (s1, if d = Lost_answer then Broken ''ReadTimeout'' else Refused 500 ''Internal Server Error'')
           | (s1, Inr b) \<Rightarrow> (s1, if d = Lost_answer then Broken ''ReadTimeout'' else Ack b)))"

definition cloud_ids :: "push_state \<Rightarrow> string set" where
  "cloud_ids s = {q. pstate_of (pst_table s) q \<noteq> Absent}"

definition cloud_ok :: "push_state \<Rightarrow> bool" where
  "cloud_ok s \<longleftrightarrow> pack_inv (pst_table s)"

lemma push_packs_held:
  "pack_inv (pst_table s) \<Longrightarrow> fair other \<Longrightarrow> push_packs other qok now actor ps a s = (s', Inr b) \<Longrightarrow>
   hd_id ` set (pa_held b) \<subseteq> hd_id ` set (pa_held a) \<union> pi_id ` set ps"
proof (induction ps arbitrary: a s)
  case (Cons p ps)
  obtain s1 r1 where one: "push_one_pack other qok now actor p s = (s1, r1)" by fastforce
  note e = push_one_effect [OF Cons.prems(1,2) one]
  from Cons.prems(3) one obtain g where g: "r1 = Inr g"
    "push_packs other qok now actor ps (g a) (s1\<lparr>pst_table := other (pst_table s1)\<rparr>) = (s', Inr b)"
    by (cases r1) auto
  have "map hd_id (pa_held (g a)) = map hd_id (pa_held a) \<or> map hd_id (pa_held (g a)) = map hd_id (pa_held a) @ [pi_id p]"
    using e g(1) by (auto split: if_splits)
  then have "set (map hd_id (pa_held (g a))) \<subseteq> insert (pi_id p) (set (map hd_id (pa_held a)))" by (elim disjE) (simp_all, blast?)
  moreover have "pack_inv (pst_table (s1\<lparr>pst_table := other (pst_table s1)\<rparr>))" using e Cons.prems(2) by (simp add: fair_def)
  from Cons.IH [OF this Cons.prems(2) g(2)] have "hd_id ` set (pa_held b) \<subseteq> hd_id ` set (pa_held (g a)) \<union> pi_id ` set ps" .
  ultimately show ?case unfolding set_map list.set(2) image_insert by blast
qed simp

lemma post_packs_effect:
  assumes f: "fair other" and s: "cloud_ok s" and p: "post_packs other qok now actor net k part s = (s1, r)"
  shows "cloud_ok s1 \<and> cloud_ids s \<subseteq> cloud_ids s1 \<and>
    (\<forall>a. r = Ack a \<longrightarrow> pi_id ` set part \<subseteq> cloud_ids s1 \<and> hd_id ` set (pa_held a) \<subseteq> pi_id ` set part)"
proof (cases "net k = Lost_request \<or> (\<exists>n. net k = Turned_away n)")
  case True
  with p s show ?thesis by (auto simp: post_packs_def)
next
  case False
  obtain t x where t: "packs_push other qok (now k) actor part s = (t, x)" by fastforce
  then have "s1 = t" "r = Ack a \<Longrightarrow> x = Inr a" for a using p False by (auto simp: post_packs_def split: delivery.splits sum.splits if_splits)
  moreover note e = push_packs_effect [OF s [unfolded cloud_ok_def] f t [unfolded packs_push_def]]
  have "cloud_ok t" "cloud_ids s \<subseteq> cloud_ids t" using e not_absent_stays unfolding cloud_ok_def cloud_ids_def by blast+
  moreover have "pi_id ` set part \<subseteq> cloud_ids t \<and> hd_id ` set (pa_held a) \<subseteq> pi_id ` set part" if "x = Inr a" for a
    using e that push_packs_held [OF s [unfolded cloud_ok_def] f t [unfolded packs_push_def that]] by (auto simp: cloud_ids_def)
  ultimately show ?thesis by blast
qed

locale fair_cloud =
  fixes other :: "table \<Rightarrow> table" and qok :: "string \<Rightarrow> bool" and now :: "nat \<Rightarrow> int" and actor :: string and net :: "nat \<Rightarrow> delivery"
  assumes others: "fair other"

sublocale fair_cloud \<subseteq> pack_cloud "post_packs other qok now actor net" cloud_ids cloud_ok
proof unfold_locales
  fix s k part s1 r a
  assume "cloud_ok s"
  note e = post_packs_effect [OF others this, of qok now actor net k part s1]
  show "cloud_ok s1" "cloud_ids s \<subseteq> cloud_ids s1" if "post_packs other qok now actor net k part s = (s1, r)" using e that by blast+
  show "pi_id ` set part \<subseteq> cloud_ids s1" "hd_id ` set (pa_held a) \<subseteq> pi_id ` set part"
    if "post_packs other qok now actor net k part s = (s1, Ack a)" using e that by blast+
qed

context fair_cloud
begin

lemmas cloud_push_sound = push_and_record_sound

end

interpretation quiet_cloud: fair_cloud "\<lambda>t. t" qok now actor net for qok now actor net
  by unfold_locales (rule fair_id)

section \<open>Properties\<close>

text \<open>C25: nothing is recorded as handed over that the cloud does not hold. However a push ends (every chunk
  acknowledged, some refused, requests or answers lost, the record itself failing), with other processes writing to the
  cloud and other tasks of the terminal running meanwhile, the jobs recorded are those of the packs of a prefix of the
  push, all of which the cloud stores, and all packs are in the prefix when the push reports success.\<close>

theorem push_records_only_stored:
  assumes "fair other" "pack_inv (pst_table s)" "map jn_pack_id jobs = map pi_id packs"
    and "push_and_record cr (post_packs other qok now actor net) meanwhile chunk t i packs jobs (m, v, s) = ((m', v', s'), res)"
  shows "\<exists>n\<le>length packs. (\<forall>p\<in>set (take n packs). pstate_of (pst_table s') (pi_id p) \<noteq> Absent) \<and>
      map fst (jobs_of i v') = map fst (jobs_of i (meanwhile v)) @ map jn_pack_id (contact_notes (take n jobs)) \<and>
      (\<forall>a. res = Inr a \<longrightarrow> n = length packs)"
proof -
  have "cloud_ok s" using assms(2) by (simp add: cloud_ok_def)
  have "\<exists>n\<le>length packs. pi_id ` set (take n packs) \<subseteq> cloud_ids s' \<and> recorded i n jobs (meanwhile v) v' \<and> (\<forall>a. res = Inr a \<longrightarrow> n = length packs)"
    using fair_cloud.cloud_push_sound [OF fair_cloud.intro [OF assms(1)] \<open>cloud_ok s\<close> assms(3,4)] by blast
  then show ?thesis unfolding recorded_def cloud_ids_def by blast
qed

section \<open>An interrupted send\<close>

lemma decide_cong_jobs:
  assumes "\<And>a. map_of jobs' (pid (cd_contact_id r) a) = map_of jobs (pid (cd_contact_id r) a)"
  shows "decide cr blocked jobs' pid r = decide cr blocked jobs pid r"
proof -
  let ?p = "pid (cd_contact_id r)"
  have "?p a \<in> fst ` set jobs' \<longleftrightarrow> ?p a \<in> fst ` set jobs" for a
    using assms [of a] by (metis map_of_eq_None_iff)
  then have f: "first_free ?p jobs' = first_free ?p jobs" by (rule first_free_same)
  show ?thesis unfolding decide_def Let_def f assms ..
qed

lemma mails_cong: "(\<And>r. r \<in> set rs \<Longrightarrow> d r = d' r) \<Longrightarrow> mails d rs = mails d' rs"
  by (induction rs) auto

lemma mails_filter: "mails d (filter P rs) = filter (\<lambda>x. P (fst x)) (mails d rs)"
  by (induction rs) (auto split: decision.splits)

text \<open>Planning again when some of the first sends have got jobs, of whatever status since.\<close>

lemma replan_rest:
  assumes u: "inj uuid5" and d: "distinct (map cd_contact_id rs)"
    and s: "sends = mails (decide cr bl jobs (pack_id uuid5 i c key)) rs"
    and j: "\<And>q. q \<notin> snd ` set (take k sends) \<Longrightarrow> map_of jobs' q = map_of jobs q"
    and g: "gone = cd_contact_id ` fst ` set (take k sends)"
  shows "mails (decide cr bl jobs' (pack_id uuid5 i c key)) (filter (\<lambda>r. cd_contact_id r \<notin> gone) rs) = drop k sends"
proof -
  let ?pid = "pack_id uuid5 i c key"
  let ?d = "decide cr bl jobs ?pid"
  have free: "?pid (cd_contact_id r) a \<notin> snd ` set (take k sends)" if "cd_contact_id r \<notin> gone" for r a
  proof
    assume "?pid (cd_contact_id r) a \<in> snd ` set (take k sends)"
    then obtain q where q: "(q, ?pid (cd_contact_id r) a) \<in> set (take k sends)" by force
    from in_set_takeD [OF q] have "?d q = Mail (?pid (cd_contact_id r) a)" by (simp only: s mails_iff)
    from decide_MailD(2) [OF this] have "cd_contact_id r = cd_contact_id q" unfolding pack_id_eq [OF u] by (elim conjE)
    with that q show False unfolding g by force
  qed
  have "decide cr bl jobs' ?pid r = ?d r" if "cd_contact_id r \<notin> gone" for r
    by (rule decide_cong_jobs) (rule j, rule free [OF that])
  then have "mails (decide cr bl jobs' ?pid) (filter (\<lambda>r. cd_contact_id r \<notin> gone) rs) =
      mails ?d (filter (\<lambda>r. cd_contact_id r \<notin> gone) rs)" by (intro mails_cong) simp
  also have "\<dots> = filter (\<lambda>x. cd_contact_id (fst x) \<notin> gone) sends" by (simp add: mails_filter s)
  also have "\<dots> = drop k sends"
  proof -
    have "distinct (map (\<lambda>x. cd_contact_id (fst x)) sends)"
      using distinct_map_filter [OF d, of "\<lambda>r. \<exists>p. ?d r = Mail p"] by (simp flip: mails_mem add: o_def s)
    from filter_drop [OF this, of k] show ?thesis unfolding g by (simp add: image_image)
  qed
  finally show ?thesis .
qed

text \<open>The packs and notes built for the sends of a plan.\<close>

definition built_for :: "(candidate \<times> string) list \<Rightarrow> pack_in list \<Rightarrow> job_note list \<Rightarrow> bool" where
  "built_for sends packs jobs \<longleftrightarrow>
     map pi_id packs = map snd sends \<and>
     map (\<lambda>j. (jn_pack_id j, jn_contact_id j, jn_is_seed j)) jobs = map (\<lambda>(r, p). (p, Some (cd_contact_id r), False)) sends"

lemma built_forD:
  assumes "built_for sends packs jobs"
  shows "map jn_pack_id jobs = map pi_id packs" "map jn_pack_id jobs = map snd sends" "contact_notes (take n jobs) = take n jobs"
proof -
  let ?f = "\<lambda>j. (jn_pack_id j, jn_contact_id j, jn_is_seed j)"
  have "map fst (map ?f jobs) = map fst (map (\<lambda>(r, p). (p, Some (cd_contact_id r), False)) sends)" using assms by (simp only: built_for_def)
  then show i: "map jn_pack_id jobs = map snd sends" by (simp add: o_def case_prod_beta)
  with assms show "map jn_pack_id jobs = map pi_id packs" by (simp add: built_for_def)
  have "\<not> jn_is_seed j \<and> jn_contact_id j \<noteq> None" if "j \<in> set jobs" for j
  proof -
    have "?f j \<in> set (map ?f jobs)" using that by simp
    then have "?f j \<in> set (map (\<lambda>(r, p). (p, Some (cd_contact_id r), False)) sends)" using assms by (simp only: built_for_def)
    then show ?thesis by auto
  qed
  then show "contact_notes (take n jobs) = take n jobs" by (auto simp: contact_notes_def filter_id_conv dest: in_set_takeD)
qed

text \<open>C24: an interrupted send is completed by one more press, each pack once. Whatever part of a plan a first push
  got through, planning the contacts that were not recorded gives the rest of the plan under the same ids, and when
  the push of that rest succeeds, every pack of the plan is stored at the cloud and is recorded exactly once.\<close>

theorem interrupted_send_completes:
  assumes u: "inj uuid5" and d: "distinct (map cd_contact_id rs)" and inv: "pack_inv (pst_table s)"
    and f: "fair other" "fair other2" "fair between"
    and p: "plan_sends cr uuid5 i c kind key rs v = Inr plan" "built_for (sp_sends plan) packs jobs"
    and first: "push_and_record cr (post_packs other qok now actor net) (\<lambda>v. v) chunk t i packs jobs (m, v, s) = ((m1, v1, s1), res)"
  shows "\<exists>k again. plan_sends cr uuid5 i c kind key
        (filter (\<lambda>r. cd_contact_id r \<notin> cd_contact_id ` fst ` set (take k (sp_sends plan))) rs) v1 = Inr again \<and>
      sp_sends again = drop k (sp_sends plan) \<and>
      map fst (jobs_of i v1) = map fst (jobs_of i v) @ map snd (take k (sp_sends plan)) \<and>
      (\<forall>packs2 jobs2 m2 v2 s2 ack. built_for (sp_sends again) packs2 jobs2 \<longrightarrow>
         push_and_record cr (post_packs other2 qok now2 actor net2) (\<lambda>v. v) chunk t2 i packs2 jobs2
           (m1, v1, s1\<lparr>pst_table := between (pst_table s1)\<rparr>) = ((m2, v2, s2), Inr ack) \<longrightarrow>
         (\<forall>(r, q)\<in>set (sp_sends plan). pstate_of (pst_table s2) q \<noteq> Absent) \<and>
         map fst (jobs_of i v2) = map fst (jobs_of i v) @ map snd (sp_sends plan))"
proof -
  let ?sends = "sp_sends plan" and ?s = "s1\<lparr>pst_table := between (pst_table s1)\<rparr>"
  note b = built_forD [OF p(2)]
  have s: "?sends = mails (decide cr (suppressed_map kind v) (jobs_of i v) (pack_id uuid5 i c key)) rs"
    using p(1) by (auto simp: plan_sends_eq [OF u] Let_def)
  have "cloud_ok s" using inv by (simp add: cloud_ok_def)
  from fair_cloud.cloud_push_sound [OF fair_cloud.intro [OF f(1)] this b(1) first] obtain k
    where k: "cloud_ok s1" "k \<le> length packs" "pi_id ` set (take k packs) \<subseteq> cloud_ids s1" "recorded i k jobs v v1" by blast
  let ?rs = "filter (\<lambda>r. cd_contact_id r \<notin> cd_contact_id ` fst ` set (take k ?sends)) rs"
  have ids: "map jn_pack_id (take k jobs) = map snd (take k ?sends)" "map pi_id (take k packs) = map snd (take k ?sends)"
    using b(1,2) by (simp_all flip: take_map)
  have j: "map fst (jobs_of i v1) = map fst (jobs_of i v) @ map snd (take k ?sends)" "suppressed_map kind v1 = suppressed_map kind v"
    using k(4) ids(1) b(3) by (simp_all add: recorded_def suppressed_map_def)
  have "map_of (jobs_of i v1) q = map_of (jobs_of i v) q" if "q \<notin> snd ` set (take k ?sends)" for q
    using k(4) that arg_cong [OF ids(1), of set] by (simp add: recorded_def)
  from replan_rest [OF u d s this refl]
  have "\<exists>again. plan_sends cr uuid5 i c kind key ?rs v1 = Inr again \<and> sp_sends again = drop k ?sends"
    by (simp add: plan_sends_eq [OF u] Let_def j(2))
  then obtain again where again: "plan_sends cr uuid5 i c kind key ?rs v1 = Inr again" "sp_sends again = drop k ?sends" by blast
  have "(\<forall>(r, q)\<in>set ?sends. pstate_of (pst_table s2) q \<noteq> Absent) \<and> map fst (jobs_of i v2) = map fst (jobs_of i v) @ map snd ?sends"
    if b2: "built_for (sp_sends again) packs2 jobs2" and second: "push_and_record cr (post_packs other2 qok now2 actor net2) (\<lambda>v. v) chunk t2 i
        packs2 jobs2 (m1, v1, ?s) = ((m2, v2, s2), Inr ack)" for packs2 jobs2 m2 v2 s2 ack
  proof -
    note b2 = built_forD [OF b2]
    have ok: "cloud_ok ?s" "cloud_ids s1 \<subseteq> cloud_ids ?s"
      using k(1) f(3) fair_present [OF f(3)] by (auto simp: cloud_ok_def cloud_ids_def fair_def)
    from fair_cloud.cloud_push_sound [OF fair_cloud.intro [OF f(2)] ok(1) b2(1) second]
    have e: "cloud_ids ?s \<subseteq> cloud_ids s2" "pi_id ` set packs2 \<subseteq> cloud_ids s2" "recorded i (length packs2) jobs2 v1 v2" by auto
    have l: "length jobs2 = length packs2" using arg_cong [OF b2(1), of length] by simp
    have "snd ` set ?sends = snd ` set (take k ?sends) \<union> snd ` set (drop k ?sends)"
      unfolding image_Un [symmetric] set_append [symmetric] append_take_drop_id ..
    also have "\<dots> = pi_id ` set (take k packs) \<union> pi_id ` set packs2"
      using arg_cong [OF ids(2), of set] arg_cong [OF trans [OF b2(1) [symmetric] b2(2)], of set] again(2) by simp
    also have "\<dots> \<subseteq> cloud_ids s2" using k(3) ok(2) e(1,2) by blast
    finally have "\<forall>(r, q)\<in>set ?sends. pstate_of (pst_table s2) q \<noteq> Absent" by (auto simp: cloud_ids_def)
    moreover have "map fst (jobs_of i v2) = map fst (jobs_of i v) @ map snd ?sends"
      using e(3) l b2(2) b2(3) [of "length jobs2"] again(2) unfolding recorded_def j(1) by (simp flip: map_append)
    ultimately show ?thesis by blast
  qed
  with again j(1) show ?thesis by blast
qed

section \<open>Concrete inputs\<close>

definition demo_note_of :: "string \<Rightarrow> int \<Rightarrow> job_note" where
  "demo_note_of q n = \<lparr>jn_pack_id = q, jn_contact_id = Some n, jn_recipient_hash = ''00'', jn_content_hash = ''00'', jn_is_seed = False\<rparr>"

theorem push_records_only_stored_witness:
  "\<exists>st ack. push_and_record (plain_crypto JNull) (post_packs (\<lambda>t. t) (\<lambda>_. True) (\<lambda>_. 5) ''client'' (\<lambda>_. Delivered)) (\<lambda>v. v) 100 5 7
       [demo_pack_in] [demo_note_of ''p9'' 1] ([], empty_vault, empty_push) = (st, Inr ack) \<and>
     pstate_of (pst_table (snd (snd st))) ''p9'' \<noteq> Absent \<and> map fst (jobs_of 7 (fst (snd st))) = [''p9'']"
proof -
  let ?post = "post_packs (\<lambda>t. t) (\<lambda>_. True) (\<lambda>_. 5) ''client'' (\<lambda>_. Delivered)"
  obtain s b where s: "packs_push (\<lambda>t. t) (\<lambda>_. True) 5 ''client'' [demo_pack_in] empty_push = (s, Inr b)" using push_first by blast
  have "chunks 100 [demo_pack_in] = [[demo_pack_in]]" by (simp add: chunks.simps)
  then have "push_all ?post 100 [demo_pack_in] empty_push = (s, Pushed (add_answer no_answer b))"
    using s by (simp add: push_all_def post_packs_def)
  moreover obtain v where "record_dispatch 5 7 [demo_note_of ''p9'' 1] empty_vault = (v, Inr ())"
    by (simp add: record_dispatch_def record_one_def demo_note_of_def empty_vault_def)
  ultimately obtain m v s ack where p: "push_and_record (plain_crypto JNull) ?post (\<lambda>v. v) 100 5 7
       [demo_pack_in] [demo_note_of ''p9'' 1] ([], empty_vault, empty_push) = ((m, v, s), Inr ack)"
    by (simp add: push_and_record_def record_outcome_def Let_def)
  have "pack_inv (pst_table empty_push)" "map jn_pack_id [demo_note_of ''p9'' 1] = map pi_id [demo_pack_in]"
    using pack_inv_empty(1) by (simp_all add: empty_push_def demo_note_of_def demo_pack_in_def)
  from push_records_only_stored [OF fair_id this p] p show ?thesis
    by (auto simp: jobs_of_def empty_vault_def contact_notes_def demo_note_of_def demo_pack_in_def)
qed

theorem interrupted_send_completes_witness:
  "\<exists>st e k again. push_and_record (plain_crypto JNull) (post_packs (\<lambda>t. t) (\<lambda>_. True) (\<lambda>_. 5) ''client'' (\<lambda>_. Lost_answer)) (\<lambda>v. v) 100 5 1
       [demo_pack_in\<lparr>pi_id := pack_id (\<lambda>s. s) 1 ''c'' ''main'' 1 0\<rparr>, demo_pack_in\<lparr>pi_id := pack_id (\<lambda>s. s) 1 ''c'' ''main'' 2 0\<rparr>]
       [demo_note_of (pack_id (\<lambda>s. s) 1 ''c'' ''main'' 1 0) 1, demo_note_of (pack_id (\<lambda>s. s) 1 ''c'' ''main'' 2 0) 2]
       ([], empty_vault, empty_push) = (st, Inl e) \<and>
     plan_sends (plain_crypto JNull) (\<lambda>s. s) 1 ''c'' ''promotional'' ''main''
       (filter (\<lambda>r. cd_contact_id r \<notin> cd_contact_id ` set (take k [demo_contact 1, demo_contact 2])) [demo_contact 1, demo_contact 2])
       (fst (snd st)) = Inr again \<and>
     map snd (sp_sends again) = drop k [pack_id (\<lambda>s. s) 1 ''c'' ''main'' 1 0, pack_id (\<lambda>s. s) 1 ''c'' ''main'' 2 0]"
proof -
  let ?post = "post_packs (\<lambda>t. t) (\<lambda>_. True) (\<lambda>_. 5) ''client'' (\<lambda>_. Lost_answer)"
  let ?id = "pack_id (\<lambda>s. s) 1 ''c'' ''main''"
  let ?packs = "[demo_pack_in\<lparr>pi_id := ?id 1 0\<rparr>, demo_pack_in\<lparr>pi_id := ?id 2 0\<rparr>]" and ?jobs = "[demo_note_of (?id 1 0) 1, demo_note_of (?id 2 0) 2]"
  have c: "chunks 100 ?packs = [?packs]" by (simp add: chunks.simps)
  obtain s r where s: "packs_push (\<lambda>t. t) (\<lambda>_. True) 5 ''client'' ?packs empty_push = (s, r)" by fastforce
  then have "?post 0 ?packs empty_push = (s, Broken ''ReadTimeout'')" by (cases r) (simp_all add: post_packs_def)
  then have "push_all ?post 100 ?packs empty_push = (s, Failed (OtherError ''ReadTimeout''))"
    using c by (simp add: push_all_def push_failure_def)
  then obtain m v s e where p: "push_and_record (plain_crypto JNull) ?post (\<lambda>v. v) 100 5 1 ?packs ?jobs ([], empty_vault, empty_push) = ((m, v, s), Inl e)"
    by (simp add: push_and_record_def record_outcome_def Let_def)
  have h: "inj (\<lambda>s::string. s)" "distinct (map cd_contact_id [demo_contact 1, demo_contact 2])" "pack_inv (pst_table empty_push)"
    using pack_inv_empty(1) by (simp_all add: empty_push_def demo_contact_def inj_on_def)
  have "built_for [(demo_contact 1, ?id 1 0), (demo_contact 2, ?id 2 0)] ?packs ?jobs"
    by (simp add: built_for_def demo_note_of_def demo_contact_def)
  then have b: "built_for (sp_sends \<lparr>sp_sends = [(demo_contact 1, ?id 1 0), (demo_contact 2, ?id 2 0)], sp_recorded = 0, sp_suppressed = []\<rparr>) ?packs ?jobs"
    by simp
  from interrupted_send_completes [OF h fair_id fair_id fair_id demo_plan b p] obtain k again where
    "plan_sends (plain_crypto JNull) (\<lambda>s. s) 1 ''c'' ''promotional'' ''main''
       (filter (\<lambda>r. cd_contact_id r \<notin> cd_contact_id ` fst ` set (take k [(demo_contact 1, ?id 1 0), (demo_contact 2, ?id 2 0)]))
         [demo_contact 1, demo_contact 2]) v = Inr again"
    "sp_sends again = drop k [(demo_contact 1, ?id 1 0), (demo_contact 2, ?id 2 0)]" by (simp only: send_plan.simps) blast
  note a = this
  have q: "cd_contact_id ` fst ` set (take k [(demo_contact 1, ?id 1 0), (demo_contact 2, ?id 2 0)]) =
      cd_contact_id ` set (take k [demo_contact 1, demo_contact 2])"
    unfolding set_map [symmetric] take_map [symmetric] by simp
  have "map snd (sp_sends again) = drop k [?id 1 0, ?id 2 0]" unfolding a(2) by (simp flip: drop_map)
  with a(1) [unfolded q] p show ?thesis by (intro exI conjI) (assumption | simp only: fst_conv snd_conv)+
qed

end
