(* ===== verification/Launch_Properties.thy ===== *)
theory Launch_Properties
  imports Launch_Campaign Push_Properties
begin

text \<open>
  What the handlers of a launch promise: the batches partition the recipients, an archived
  campaign sends nothing, a dispatch that stops half-way is marked and finished by Re-launch, and a
  Re-launch that fails keeps its generation open.
\<close>

section \<open>Batches\<close>

lemma chunks_Cons: "xs \<noteq> [] \<Longrightarrow> 0 < n \<Longrightarrow> chunks n xs = take n xs # chunks n (drop n xs)"
  by (subst chunks.simps) simp

lemma chunks_sizes: "0 < n \<Longrightarrow> b \<in> set (chunks n xs) \<Longrightarrow> 0 < length b \<and> length b \<le> n"
proof (induction n xs rule: chunks.induct)
  case (1 n xs)
  then show ?case by (cases "xs = []") (auto simp: chunks_Cons chunks.simps [of n "[]"])
qed

lemma nth_chunks: "0 < n \<Longrightarrow> k < length xs \<Longrightarrow> k div n < length (chunks n xs) \<and> xs ! k \<in> set (chunks n xs ! (k div n))"
proof (induction n xs arbitrary: k rule: chunks.induct)
  case (1 n xs)
  have e: "xs \<noteq> []" using 1(3) by auto
  have c: "chunks n xs = take n xs # chunks n (drop n xs)" by (rule chunks_Cons [OF e 1(2)])
  show ?case
  proof (cases "k < n")
    case True
    then have "xs ! k \<in> set (take n xs)" using 1(3) nth_mem [of k "take n xs"] by simp
    with True show ?thesis unfolding c by simp
  next
    case False
    then have k: "k div n = Suc ((k - n) div n)" using 1(2) by (simp add: le_div_geq)
    from 1(1) [of "k - n"] e 1(2,3) False have "(k - n) div n < length (chunks n (drop n xs)) \<and>
        drop n xs ! (k - n) \<in> set (chunks n (drop n xs) ! ((k - n) div n))" by simp
    then show ?thesis unfolding c k using False 1(3) by simp
  qed
qed

lemma set_batch_no_map:
  "set_batch_no i no rs rows =
   map (\<lambda>x. if cr_campaign_id x = i \<and> cr_contact_id x \<in> cd_contact_id ` set rs then x\<lparr>cr_batch_no := Some no\<rparr> else x) rows"
proof (induction rs arbitrary: rows)
  case (Cons r rs)
  have "set_batch_no i no (r # rs) rows =
      set_batch_no i no rs (update_where (\<lambda>x. cr_campaign_id x = i \<and> cr_contact_id x = cd_contact_id r) (\<lambda>x. x\<lparr>cr_batch_no := Some no\<rparr>) rows)"
    by (simp add: set_batch_no_def)
  then show ?case unfolding Cons.IH update_where_def map_map by (simp only:) (rule map_cong, simp, auto)
qed (simp add: set_batch_no_def)

text \<open>The batch number a row gets from the batches counted from \<open>k\<close>.\<close>

fun numbered :: "int \<Rightarrow> int \<Rightarrow> candidate list list \<Rightarrow> recipient \<Rightarrow> recipient" where
  "numbered i k [] x = x"
| "numbered i k (rs # rest) x =
     numbered i (k + 1) rest
       (if cr_campaign_id x = i \<and> cr_contact_id x \<in> cd_contact_id ` set rs then x\<lparr>cr_batch_no := Some k\<rparr> else x)"

lemma insert_batches_recipients: "v_recipients (insert_batches now i k bs v) = map (numbered i k bs) (v_recipients v)"
  by (induction now i k bs v rule: insert_batches.induct) (simp_all add: set_batch_no_map o_def)

lemma numbered_other:
  "cr_campaign_id x \<noteq> i \<or> cr_contact_id x \<notin> cd_contact_id ` set (concat bs) \<Longrightarrow> numbered i k bs x = x"
  by (induction bs arbitrary: k) (simp_all add: image_Un, blast)

lemma numbered_in:
  "distinct (map cd_contact_id (concat bs)) \<Longrightarrow> j < length bs \<Longrightarrow> cr_campaign_id x = i \<Longrightarrow> cr_contact_id x \<in> cd_contact_id ` set (bs ! j) \<Longrightarrow>
   numbered i k bs x = x\<lparr>cr_batch_no := Some (k + int j)\<rparr>"
proof (induction bs arbitrary: k j)
  case (Cons rs rest)
  show ?case
  proof (cases j)
    case 0
    then have "cr_contact_id x \<in> cd_contact_id ` set rs" using Cons.prems by simp
    moreover from this Cons.prems(1) have "cr_contact_id x \<notin> cd_contact_id ` set (concat rest)" by auto
    ultimately show ?thesis using Cons.prems(3) 0 numbered_other [of "x\<lparr>cr_batch_no := Some k\<rparr>" i rest "k + 1"] by simp
  next
    case (Suc m)
    then have m: "m < length rest" "cr_contact_id x \<in> cd_contact_id ` set (rest ! m)" using Cons.prems by auto
    then have "cr_contact_id x \<in> cd_contact_id ` set (concat rest)" unfolding set_concat using nth_mem [OF m(1)] by blast
    with Cons.prems(1) have "cr_contact_id x \<notin> cd_contact_id ` set rs" by auto
    with Cons.IH [of m "k + 1"] Cons.prems(1,3) m Suc show ?thesis by simp
  qed
qed simp

lemma insert_batches_rows:
  "(\<forall>j<length bs. \<exists>b\<in>set (v_batches (insert_batches now i k bs v)). cb_campaign_id b = i \<and> cb_batch_no b = k + int j) \<and>
   set (v_batches v) \<subseteq> set (v_batches (insert_batches now i k bs v))"
proof (induction now i k bs v rule: insert_batches.induct)
  case (2 now i k rs rest v)
  let ?v = "v\<lparr>v_batches := insert_or_ignore (\<lambda>b. (cb_campaign_id b, cb_batch_no b)) (new_batch now i k (length rs) (next_row_id cb_id (v_batches v)))
             (v_batches v), v_recipients := set_batch_no i k rs (v_recipients v)\<rparr>"
  have first: "\<exists>b\<in>set (v_batches ?v). cb_campaign_id b = i \<and> cb_batch_no b = k" "set (v_batches v) \<subseteq> set (v_batches ?v)"
    by (auto simp: set_insert_or_ignore new_batch_def)
  show ?case
  proof (intro conjI allI impI)
    fix j assume j: "j < length (rs # rest)"
    show "\<exists>b\<in>set (v_batches (insert_batches now i k (rs # rest) v)). cb_campaign_id b = i \<and> cb_batch_no b = k + int j"
    proof (cases j)
      case 0
      then show ?thesis using first(1) 2 by auto
    next
      case (Suc m)
      with j have "m < length rest" by simp
      with 2 Suc show ?thesis by (auto simp: algebra_simps)
    qed
  qed (use first(2) 2 in auto)
qed simp

text \<open>A launch partitions its recipients. The batches together are the deliverable recipients in order, none is empty
  or longer than the batch size; the row of the \<open>k\<close>-th recipient gets the number \<open>k div n + 1\<close> and no other row of
  the recipients changes (suppressed recipients get no batch); each number has its row in the batches table and
  no earlier row is lost.\<close>

theorem launch_partitions_recipients:
  assumes b: "batches_of n rs = Inr batches" and n: "0 < n" and d: "distinct (map cd_contact_id rs)"
    and v': "v' = start_campaign now i (insert_batches now i 1 batches v)"
  shows "concat batches = rs \<and> (\<forall>b\<in>set batches. 0 < length b \<and> int (length b) \<le> n) \<and>
    (\<forall>j<length batches. \<exists>b\<in>set (v_batches v'). cb_campaign_id b = i \<and> cb_batch_no b = 1 + int j) \<and>
    set (v_batches v) \<subseteq> set (v_batches v') \<and>
    length (v_recipients v') = length (v_recipients v) \<and>
    (\<forall>x y. (x, y) \<in> set (zip (v_recipients v) (v_recipients v')) \<longrightarrow>
       (if cr_campaign_id x = i \<and> cr_contact_id x \<in> cd_contact_id ` set rs
        then \<exists>k<length rs. cr_contact_id x = cd_contact_id (rs ! k) \<and> y = x\<lparr>cr_batch_no := Some (1 + int k div n)\<rparr>
        else y = x))"
proof -
  have c: "batches = chunks (nat n) rs" using b n by (auto simp: batches_of_def)
  have rs: "concat batches = rs" using concat_chunks [of "nat n" rs] n by (simp add: c)
  have sizes: "\<forall>b\<in>set batches. 0 < length b \<and> int (length b) \<le> n" using chunks_sizes [of "nat n" _ rs] n unfolding c by force
  have r: "v_recipients v' = map (numbered i 1 batches) (v_recipients v)" "v_batches v' = v_batches (insert_batches now i 1 batches v)"
    by (simp_all add: v' start_campaign_def insert_batches_recipients)
  have row: "if cr_campaign_id x = i \<and> cr_contact_id x \<in> cd_contact_id ` set rs
        then \<exists>k<length rs. cr_contact_id x = cd_contact_id (rs ! k) \<and> numbered i 1 batches x = x\<lparr>cr_batch_no := Some (1 + int k div n)\<rparr>
        else numbered i 1 batches x = x" for x
  proof (cases "cr_campaign_id x = i \<and> cr_contact_id x \<in> cd_contact_id ` set rs")
    case True
    then obtain k where k: "k < length rs" "cr_contact_id x = cd_contact_id (rs ! k)" by (auto simp: in_set_conv_nth)
    have j: "k div nat n < length batches" "rs ! k \<in> set (batches ! (k div nat n))"
      using nth_chunks [of "nat n" k rs] n k(1) by (simp_all add: c)
    have "numbered i 1 batches x = x\<lparr>cr_batch_no := Some (1 + int (k div nat n))\<rparr>"
      using numbered_in [of batches "k div nat n" x i 1] d j k True rs by simp
    moreover have "int (k div nat n) = int k div n" using n by (simp add: zdiv_int)
    ultimately show ?thesis using True k by auto
  next
    case False
    then show ?thesis using numbered_other [of x i batches 1] rs by auto
  qed
  have "\<forall>x y. (x, y) \<in> set (zip (v_recipients v) (v_recipients v')) \<longrightarrow> y = numbered i 1 batches x"
    by (auto simp: r zip_map2 zip_same_conv_map)
  with row have "\<forall>x y. (x, y) \<in> set (zip (v_recipients v) (v_recipients v')) \<longrightarrow>
       (if cr_campaign_id x = i \<and> cr_contact_id x \<in> cd_contact_id ` set rs
        then \<exists>k<length rs. cr_contact_id x = cd_contact_id (rs ! k) \<and> y = x\<lparr>cr_batch_no := Some (1 + int k div n)\<rparr>
        else y = x)" by metis
  moreover have "length (v_recipients v') = length (v_recipients v)" by (simp add: r)
  ultimately show ?thesis using rs sizes insert_batches_rows [of batches now i 1 v] unfolding r(2) by blast
qed

section \<open>Closed campaigns\<close>

lemma refuse_archived:
  "campaign_of v i = Some c \<Longrightarrow> ca_status c = ''archived'' \<Longrightarrow> ''archived'' \<in> set shut \<Longrightarrow>
   refuse_closed i shut v = Inl (CampaignClosed (closed_reason ''archived'' i))"
  by (simp add: refuse_closed_def)


section \<open>What a push leaves alone\<close>

lemma record_all_frame:
  "record_all now i js v = Some v1 \<Longrightarrow> v_batches v1 = v_batches v \<and> v_campaigns v1 = v_campaigns v"
proof (induction js arbitrary: v)
  case (Cons j js)
  then obtain v2 where v2: "record_one now i j v = Some v2" "record_all now i js v2 = Some v1" by (auto split: option.splits)
  have "v_batches v2 = v_batches v \<and> v_campaigns v2 = v_campaigns v"
    using v2(1) by (auto simp: record_one_def split: bool.splits option.splits if_splits)
  with Cons.IH [OF v2(2)] show ?case by simp
qed simp

lemma outcome_batches:
  "v_batches (apply_pack_outcome cr now p v) = v_batches v \<and> v_campaigns (apply_pack_outcome cr now p v) = v_campaigns v"
  by (simp add: apply_pack_outcome_def apply_unknown_outcome_def outcome_audit_def audit_def Let_def split: option.splits)

lemma held_batches:
  "v_batches (apply_held_outcomes cr now held v) = v_batches v \<and> v_campaigns (apply_held_outcomes cr now held v) = v_campaigns v"
proof -
  have "v_batches (fold (apply_pack_outcome cr now) ps v) = v_batches v \<and> v_campaigns (fold (apply_pack_outcome cr now) ps v) = v_campaigns v" for ps
    by (induction ps arbitrary: v) (simp_all add: outcome_batches)
  then show ?thesis by (simp add: apply_held_outcomes_def)
qed

lemma record_outcome_frame:
  "record_outcome cr now i jobs o1 v = (v1, r) \<Longrightarrow> v_batches v1 = v_batches v \<and> v_campaigns v1 = v_campaigns v"
  using record_all_frame held_batches
  by (auto simp: record_outcome_def record_dispatch_def split: push_outcome.splits option.splits prod.splits sum.splits)

lemma push_step_frame:
  assumes "push_step ev i packs jobs st = (st', r)"
  shows "v_batches (ls_vault st') = v_batches (le_meanwhile ev (ls_vault st))" "v_campaigns (ls_vault st') = v_campaigns (le_meanwhile ev (ls_vault st))"
proof -
  obtain o1 v1 where "record_outcome (ll_crypto (le_lib ev)) (le_now ev) i jobs o1 (le_meanwhile ev (ls_vault st)) = (v1, r)" "ls_vault st' = v1"
    using assms by (auto simp: push_step_def push_and_record_def Let_def split: prod.splits)
  with record_outcome_frame show "v_batches (ls_vault st') = v_batches (le_meanwhile ev (ls_vault st))"
    "v_campaigns (ls_vault st') = v_campaigns (le_meanwhile ev (ls_vault st))" by metis+
qed

lemma make_ctx_frame: "make_ctx ev missing bearer camp tmpl st = (st', r) \<Longrightarrow> ls_vault st' = ls_vault st \<and> ls_cloud st' = ls_cloud st"
  by (auto simp: make_ctx_def Let_def split: sum.splits prod.splits if_splits)

lemma load_send_ctx_frame: "load_send_ctx ev i st = (st', r) \<Longrightarrow> ls_vault st' = ls_vault st \<and> ls_cloud st' = ls_cloud st"
  by (auto simp: load_send_ctx_def split: option.splits dest: make_ctx_frame)

section \<open>The marker of a dispatch\<close>

lemma batch_of_cong: "v_batches v = v_batches w \<Longrightarrow> batch_of i no v = batch_of i no w"
  by (simp add: batch_of_def)

lemma batch_of_set:
  assumes "\<And>b. cb_campaign_id (f b) = cb_campaign_id b \<and> cb_batch_no (f b) = cb_batch_no b"
  shows "batch_of i no (set_batch k f v) = map_option (\<lambda>b. if cb_id b = k then f b else b) (batch_of i no v)"
proof -
  have "find (\<lambda>b. cb_campaign_id b = i \<and> cb_batch_no b = no) (update_where (\<lambda>b. cb_id b = k) f rows) =
      map_option (\<lambda>b. if cb_id b = k then f b else b) (find (\<lambda>b. cb_campaign_id b = i \<and> cb_batch_no b = no) rows)" for rows
    by (induction rows) (auto simp: update_where_def assms)
  then show ?thesis by (simp add: batch_of_def set_batch_def)
qed

definition marked :: "int \<Rightarrow> int \<Rightarrow> vault \<Rightarrow> bool" where
  "marked i no v \<longleftrightarrow> (\<exists>b. batch_of i no v = Some b \<and> cb_dispatch_started_at b \<noteq> None)"

definition settled :: "int \<Rightarrow> int \<Rightarrow> vault \<Rightarrow> bool" where
  "settled i no v \<longleftrightarrow> (\<exists>b. batch_of i no v = Some b \<and> cb_dispatch_started_at b = None \<and> cb_status b \<in> {''sending'', ''drained''})"

lemma marked_interrupted: "marked i no v \<Longrightarrow> interrupted_batch i v \<noteq> None"
  by (auto simp: marked_def interrupted_batch_def batch_of_def find_Some_iff filter_empty_conv split: list.split)

lemma load_batch_marks:
  assumes m: "\<And>v. v_batches (le_meanwhile ev v) = v_batches v" and row: "batch_of i no (ls_vault st) = row"
    and l: "load_batch ev i no row ctx plan seeds st = (st', r)"
  shows "(\<forall>e. r = Inl e \<longrightarrow> ls_cloud st' \<noteq> ls_cloud st \<longrightarrow> marked i no (ls_vault st')) \<and> (\<forall>x. r = Inr x \<longrightarrow> settled i no (ls_vault st'))"
proof -
  let ?mark = "\<lambda>b. set_batch (cb_id b) (\<lambda>b. b\<lparr>cb_dispatch_started_at := Some (sql_time (le_now ev))\<rparr>)"
  have push: "marked i no (ls_vault st2) \<and> settled i no (mark_batch_loaded (le_now ev) (cb_id b) s t (ls_vault st2))"
    if b: "row = Some b" and p: "push_step ev i packs jobs (on_vault (?mark b) st) = (st2, ans)" for b packs jobs st2 ans s t
  proof -
    have "batch_of i no (ls_vault st2) = batch_of i no (?mark b (ls_vault st))"
      using push_step_frame(1) [OF p] m by (intro batch_of_cong) (simp add: on_vault_def)
    also have "\<dots> = Some (b\<lparr>cb_dispatch_started_at := Some (sql_time (le_now ev))\<rparr>)"
      using row b by (subst batch_of_set) simp_all
    finally have st2: "batch_of i no (ls_vault st2) = Some (b\<lparr>cb_dispatch_started_at := Some (sql_time (le_now ev))\<rparr>)" .
    then have "settled i no (mark_batch_loaded (le_now ev) (cb_id b) s t (ls_vault st2))"
      unfolding settled_def mark_batch_loaded_def by (subst batch_of_set) simp_all
    with st2 show ?thesis by (simp add: marked_def)
  qed
  show ?thesis
  proof (cases "compile_batch ev ctx plan seeds")
    case (Inl e)
    with l show ?thesis by (auto simp: load_batch_def)
  next
    case (Inr c)
    obtain ats packs jobs where c: "c = (ats, packs, jobs)" by (cases c) simp
    show ?thesis
    proof (cases row)
      case None
      with l Inr c show ?thesis by (auto simp: load_batch_def)
    next
      case (Some b)
      obtain st2 ans where p: "push_step ev i packs jobs (on_vault (?mark b) st) = (st2, ans)" by fastforce
      note q = push [OF Some p]
      show ?thesis using l Inr c Some p q by (cases ans) (auto simp: load_batch_def on_vault_def Let_def split: if_splits)
    qed
  qed
qed

lemma close_empty_settles:
  assumes "batch_of i no v = Some b"
  shows "settled i no (fst (close_empty_batch now (cb_id b) no h n v))"
proof -
  have "batch_of i no (fst (close_empty_batch now (cb_id b) no h n v)) = map_option (\<lambda>q. if cb_id q = cb_id b then
      (if h then q\<lparr>cb_status := ''sending'', cb_window_start := Some (iso now), cb_window_end := Some (iso now), cb_loaded_at := Some (sql_time now)\<rparr>
       else q\<lparr>cb_status := ''drained'', cb_drained_at := Some (iso now), cb_approve_unlock_at := None, cb_window_start := Some [], cb_window_end := Some []\<rparr>)
      \<lparr>cb_dispatch_started_at := None\<rparr> else q) (batch_of i no v)"
    unfolding close_empty_batch_def Let_def fst_conv by (rule batch_of_set) simp
  with assms show ?thesis by (simp add: settled_def)
qed

lemma dispatch_with_marks:
  assumes m: "\<And>v. v_batches (le_meanwhile ev v) = v_batches v" and l: "dispatch_with ev i no ctx st = (st', r)"
  shows "(\<forall>e. r = Inl e \<longrightarrow> ls_cloud st' \<noteq> ls_cloud st \<longrightarrow> marked i no (ls_vault st')) \<and> (\<forall>x. r = Inr x \<longrightarrow> settled i no (ls_vault st'))"
proof (cases "plan_batch ev i no ctx (ls_vault st)")
  case (Inl e)
  with l show ?thesis by (auto simp: dispatch_with_def Let_def)
next
  case (Inr ps)
  obtain plan seeds where ps: "ps = (plan, seeds)" by fastforce
  define st1 where "st1 = (if sp_suppressed plan = [] then st else on_vault (mark_suppressed i (sp_suppressed plan)) st)"
  have st1: "ls_cloud st1 = ls_cloud st" "batch_of i no (ls_vault st1) = batch_of i no (ls_vault st)"
    by (simp_all add: st1_def on_vault_def mark_suppressed_def batch_of_def)
  show ?thesis
  proof (cases "sp_sends plan = []")
    case True
    then have eq: "dispatch_with ev i no ctx st = (case batch_of i no (ls_vault st) of
        None \<Rightarrow> (st1, Inl (OtherError ''TypeError''))
      | Some b \<Rightarrow>
          (case close_empty_batch (le_now ev) (cb_id b) no (sp_recorded plan \<noteq> 0 \<or> truthy (cb_dispatch_started_at b))
                  (length (sp_suppressed plan)) (ls_vault st1) of
             (v2, out) \<Rightarrow> (st1\<lparr>ls_vault := v2\<rparr>, Inr (out\<lparr>br_recorded := Some (sp_recorded plan)\<rparr>))))"
      using Inr ps by (simp only: dispatch_with_def Let_def st1_def sum.case prod.case if_True simp_thms)
    show ?thesis
    proof (cases "batch_of i no (ls_vault st)")
      case None
      with l eq st1(1) show ?thesis by auto
    next
      case (Some b)
      from close_empty_settles [of i no "ls_vault st1" b] st1(2) Some l eq show ?thesis by (auto simp: case_prod_beta)
    qed
  next
    case False
    then have "load_batch ev i no (batch_of i no (ls_vault st)) ctx plan seeds st1 = (st', r)"
      using l Inr ps by (simp add: dispatch_with_def Let_def st1_def)
    from load_batch_marks [OF m st1(2) this] st1(1) show ?thesis by simp
  qed
qed

text \<open>C26: a dispatch that stops half-way is marked. When the dispatch of a batch fails after anything at the cloud has
  changed, the batch keeps its marker, so the next Re-launch finds an interrupted batch and finishes it instead of
  sending the campaign again; when the dispatch succeeds the marker is gone and the batch is sending or drained. (Other
  tasks of the terminal leave the batches alone meanwhile.)\<close>

theorem interrupted_dispatch_is_marked:
  assumes m: "\<And>v. v_batches (le_meanwhile ev v) = v_batches v" and l: "dispatch_batch ev i no ctx st = (st', r)"
  shows "(\<forall>e. r = Inl e \<longrightarrow> ls_cloud st' \<noteq> ls_cloud st \<longrightarrow> marked i no (ls_vault st') \<and> interrupted_batch i (ls_vault st') \<noteq> None) \<and>
    (\<forall>x. r = Inr x \<longrightarrow> settled i no (ls_vault st'))"
proof -
  have "(\<forall>e. r = Inl e \<longrightarrow> ls_cloud st' \<noteq> ls_cloud st \<longrightarrow> marked i no (ls_vault st')) \<and> (\<forall>x. r = Inr x \<longrightarrow> settled i no (ls_vault st'))"
  proof (cases "\<exists>st1 c. ls_vault st1 = ls_vault st \<and> ls_cloud st1 = ls_cloud st \<and> dispatch_with ev i no c st1 = (st', r)")
    case True
    then obtain st1 c where s: "ls_cloud st1 = ls_cloud st" "dispatch_with ev i no c st1 = (st', r)" by blast
    from dispatch_with_marks [OF m s(2)] s(1) show ?thesis by simp
  next
    case False
    with l have "ls_cloud st' = ls_cloud st \<and> (\<exists>e. r = Inl e)"
      by (auto simp: dispatch_batch_def split: sum.splits option.splits prod.splits dest: load_send_ctx_frame)
    then show ?thesis by auto
  qed
  then show ?thesis using marked_interrupted by blast
qed

section \<open>A Re-launch that fails\<close>

lemma campaign_of_cong: "v_campaigns v = v_campaigns w \<Longrightarrow> campaign_of v i = campaign_of w i"
  by (simp add: campaign_of_def)

lemma open_relaunch_opens:
  assumes "distinct (map ca_id (v_campaigns v))" "campaign_of v i = Some c"
  shows "\<exists>v1 fin c1. open_relaunch i v = (v1, Inr (ca_relaunch_gen c1, fin)) \<and> campaign_of v1 i = Some c1 \<and> ca_relaunch_open c1 \<noteq> 0"
proof (cases "ca_relaunch_open c = 0")
  case True
  then have "ca_relaunch_open (c\<lparr>ca_relaunch_gen := ca_relaunch_gen c + 1, ca_relaunch_open := 1\<rparr>) \<noteq> 0"
    "ca_relaunch_gen (c\<lparr>ca_relaunch_gen := ca_relaunch_gen c + 1, ca_relaunch_open := 1\<rparr>) = ca_relaunch_gen c + 1" by simp_all
  with True open_relaunch_eq [OF assms] show ?thesis by metis
next
  case False
  with open_relaunch_eq [OF assms] show ?thesis by metis
qed

text \<open>A Re-launch that fails stays open. When the push of a Re-launch fails, for whatever reason, after its
  generation was opened, the generation is still open, so the next press finishes it under the same pack ids; when it
  was refused before, nothing has changed; and when it succeeds the generation is closed. (Other tasks of the
  terminal leave the campaigns alone meanwhile.)\<close>

theorem failed_relaunch_stays_open:
  assumes m: "\<And>v. v_campaigns (le_meanwhile ev v) = v_campaigns v" and d: "distinct (map ca_id (v_campaigns (ls_vault st)))"
    and c: "campaign_of (ls_vault st) i = Some c" and r: "la_stage args = None"
    and l: "launch_all ev i args ctx recipients deliver st = (st', res)"
  shows "(\<forall>e. res = Inl e \<longrightarrow> st' = st \<or> (\<exists>c'. campaign_of (ls_vault st') i = Some c' \<and> ca_relaunch_open c' \<noteq> 0)) \<and>
    (\<forall>sm. res = Inr sm \<longrightarrow> (\<exists>c'. campaign_of (ls_vault st') i = Some c' \<and> ca_relaunch_open c' = 0))"
proof (cases "assert_recipients_sendable (le_conf ev) ctx (map target_of deliver)")
  case (Inl e)
  with l show ?thesis by (auto simp: launch_all_def Let_def)
next
  case (Inr u)
  obtain v1 gen fin c1 where o: "open_relaunch i (ls_vault st) = (v1, Inr (gen, fin))"
    and c1: "campaign_of v1 i = Some c1" "ca_relaunch_open c1 \<noteq> 0" "ca_relaunch_gen c1 = gen"
    using open_relaunch_opens [OF d c] by blast
  define st1 where "st1 = st\<lparr>ls_vault := v1\<rparr>"
  define mode where "mode = (if fin then ''finish-relaunch'' else ''relaunch'')"
  have claim: "claim_generation i (la_stage args) st = (st1, Inr (gen_key_for gen, mode, Some gen))"
    using o r by (simp add: claim_generation_def st1_def mode_def)
  have st1: "campaign_of (ls_vault st1) i = Some c1" using c1(1) by (simp add: st1_def)
  let ?plan = "plan_sends (ll_crypto (le_lib ev)) (ll_uuid5 (le_lib ev)) i (ca_created_at (cx_camp ctx)) (ca_kind (cx_camp ctx)) (gen_key_for gen) recipients (ls_vault st1)"
  show ?thesis
  proof (cases ?plan)
    case (Inl e)
    with l Inr claim st1 c1(2) show ?thesis using \<open>assert_recipients_sendable _ _ _ = Inr u\<close> by (auto simp: launch_all_def Let_def)
  next
    case plan: (Inr plan)
    let ?build = "build_all ev ctx (ca_human_send (cx_camp ctx) \<noteq> 0) 0 (map (\<lambda>(r, p). ((target_of r, False, Some p), pack_send_at (le_lib ev) (ca_scheduled_for (cx_camp ctx)))) (sp_sends plan))"
    show ?thesis
    proof (cases ?build)
      case (Inl e)
      with l \<open>assert_recipients_sendable _ _ _ = Inr u\<close> claim st1 c1(2) plan show ?thesis by (auto simp: launch_all_def Let_def)
    next
      case build: (Inr pj)
      obtain packs jobs where pj: "pj = (packs, jobs)" by fastforce
      obtain st2 ans where p: "push_step ev i packs jobs st1 = (st2, ans)" by fastforce
      have st2: "campaign_of (ls_vault st2) i = Some c1"
        using campaign_of_cong [of "ls_vault st2" "ls_vault st1"] push_step_frame(2) [OF p] m st1 by simp
      have closed: "campaign_of (close_relaunch i gen (ls_vault st2)) i = Some (c1\<lparr>ca_relaunch_open := 0\<rparr>)"
        using close_relaunch_eq(1) [OF st2, of gen] c1(3) by simp
      have au: "campaign_of (audit cr now actor action t j v) i = campaign_of v i" for cr now actor action t j v
        by (simp add: audit_def campaign_of_def)
      show ?thesis
        using l \<open>assert_recipients_sendable _ _ _ = Inr u\<close> claim plan build pj p st2 c1(2) r closed
        by (cases ans) (auto simp: launch_all_def Let_def launched_def on_vault_def au next_action_def split: if_splits)
    qed
  qed
qed

section \<open>Concrete inputs\<close>

definition demo_launch_env :: "push_state launch_env" where
  "demo_launch_env =
     \<lparr>le_lib = \<lparr>ll_crypto = plain_crypto JNull, ll_token = demo_lib JNull, ll_encoded = (\<lambda>s. s), ll_uuid5 = (\<lambda>s. s), ll_parse_utc = (\<lambda>_. None)\<rparr>,
      le_conf = (\<lambda>_. None), le_decrypt = Inr, le_bearer = Some ''bearer'', le_now = 100, le_key_status = Key_http 404, le_fresh_key = replicate 32 CHR ''k'',
      le_key_post = Post_http 200, le_post = post_packs (\<lambda>t. t) (\<lambda>_. True) (\<lambda>_. 5) ''client'' (\<lambda>_. Delivered), le_meanwhile = (\<lambda>v. v), le_chunk = 100,
      le_rand = (\<lambda>_. \<lparr>pr_unsub_nonce = ''n'', pr_erasure_nonce = ''m'', pr_aes_nonce = ''a'', pr_uuid = ''u''\<rparr>),
      le_zone = (\<lambda>_. None), le_jitter = (\<lambda>_. 0)\<rparr>"

definition demo_template :: template where
  "demo_template = \<lparr>tp_id = 1, tp_name = ''t'', tp_subject = ''hi'', tp_from_name = ''f'', tp_html_body = ''hello'', tp_text_body = None,
     tp_template_hash = ''h'', tp_tracking_enabled = 0, tp_created_at = ''c'', tp_updated_at = ''u''\<rparr>"

definition demo_ctx :: send_ctx where
  "demo_ctx = \<lparr>cx_camp = demo_campaign 1, cx_tmpl = demo_template, cx_public_host = ''h'', cx_resend_key = ''k'', cx_email_from = ''a@b'',
     cx_email_from_name = ''n'', cx_k_temp = replicate 32 CHR ''k'', cx_key_id = ''id'', cx_bearer = ''b'', cx_company_name = None\<rparr>"

definition demo_launch_state :: "push_state launch_state" where
  "demo_launch_state =
     \<lparr>ls_vault = empty_vault\<lparr>v_campaigns := [demo_campaign 1],
        v_batches := [(new_batch 50 1 1 3 7)\<lparr>cb_dispatch_started_at := Some ''then''\<rparr>]\<rparr>,
      ls_pushing = [], ls_cloud = empty_push, ls_key_file = None, ls_keys_posted = []\<rparr>"

definition demo_relaunch_args :: launch_args where
  "demo_relaunch_args = \<lparr>la_actor = ''op'', la_template = None, la_stage = None, la_relaunch = True, la_seq = Some 0\<rparr>"

theorem launch_partitions_recipients_witness:
  "\<exists>batches. batches_of 2 [demo_contact 1, demo_contact 2, demo_contact 3] = Inr batches \<and> map length batches = [2, 1] \<and>
     (\<exists>b\<in>set (v_batches (start_campaign 5 1 (insert_batches 5 1 1 batches empty_vault))). cb_campaign_id b = 1 \<and> cb_batch_no b = 2)"
proof -
  let ?rs = "[demo_contact 1, demo_contact 2, demo_contact 3]"
  have b: "batches_of 2 ?rs = Inr [take 2 ?rs, drop 2 ?rs]" by (simp add: batches_of_def chunks.simps)
  have d: "distinct (map cd_contact_id ?rs)" by (simp add: demo_contact_def)
  have "\<forall>j<length [take 2 ?rs, drop 2 ?rs]. \<exists>b\<in>set (v_batches (start_campaign 5 1 (insert_batches 5 1 1 [take 2 ?rs, drop 2 ?rs] empty_vault))).
      cb_campaign_id b = 1 \<and> cb_batch_no b = 1 + int j"
    using launch_partitions_recipients [OF b _ d refl, of 5 1 empty_vault] by simp
  then have "\<exists>b\<in>set (v_batches (start_campaign 5 1 (insert_batches 5 1 1 [take 2 ?rs, drop 2 ?rs] empty_vault))).
      cb_campaign_id b = 1 \<and> cb_batch_no b = 1 + int 1" by (elim allE [of _ 1] impE) simp
  with b show ?thesis by (intro exI [of _ "[take 2 ?rs, drop 2 ?rs]"]) simp
qed


lemma demo_no_sends: "plan_sends cr u i c kind key [] v = Inr empty_plan"
  by (simp add: plan_sends_def)

theorem interrupted_dispatch_is_marked_witness:
  "\<exists>st' x. dispatch_batch demo_launch_env 1 1 (Some demo_ctx) demo_launch_state = (st', Inr x) \<and> settled 1 1 (ls_vault st')"
proof -
  let ?v = "ls_vault demo_launch_state"
  have v: "campaign_of ?v 1 = Some (demo_campaign 1)" "v_recipients ?v = []" "v_seeds ?v = []"
    "batch_of 1 1 ?v = Some ((new_batch 50 1 1 3 7)\<lparr>cb_dispatch_started_at := Some ''then''\<rparr>)"
    by (simp_all add: demo_launch_state_def campaign_of_def demo_campaign_def batch_of_def new_batch_def empty_vault_def)
  have "refuse_closed 1 closed_to_all ?v = Inr ()" using v(1) by (simp add: refuse_closed_def closed_to_all_def demo_campaign_def)
  moreover have "plan_batch demo_launch_env 1 1 demo_ctx ?v = Inr (empty_plan, [])"
    using v by (simp add: plan_batch_def Let_def candidates_of_def gen_key_def demo_no_sends active_seed_emails_def empty_plan_def
        assert_recipients_sendable_def List.map_filter_simps)
  ultimately obtain st' x where d: "dispatch_batch demo_launch_env 1 1 (Some demo_ctx) demo_launch_state = (st', Inr x)"
    using v(4) by (auto simp: dispatch_batch_def dispatch_with_def Let_def empty_plan_def case_prod_beta)
  have "v_batches (le_meanwhile demo_launch_env w) = v_batches w" for w by (simp add: demo_launch_env_def)
  from interrupted_dispatch_is_marked [OF this d] d show ?thesis by blast
qed

theorem failed_relaunch_stays_open_witness:
  "\<exists>st' sm c. launch_all demo_launch_env 1 demo_relaunch_args demo_ctx [] [] demo_launch_state = (st', Inr sm) \<and>
     campaign_of (ls_vault st') 1 = Some c \<and> ca_relaunch_open c = 0"
proof -
  let ?v = "ls_vault demo_launch_state"
  have c: "distinct (map ca_id (v_campaigns ?v))" "campaign_of ?v 1 = Some (demo_campaign 1)"
    by (simp_all add: demo_launch_state_def campaign_of_def demo_campaign_def)
  obtain v1 where o: "open_relaunch 1 ?v = (v1, Inr (1, False))" using open_relaunch_eq [OF c] by (auto simp: demo_campaign_def)
  have "assert_recipients_sendable conf ctx (map target_of []) = Inr ()" for conf ctx by (simp add: assert_recipients_sendable_def)
  then obtain st' sm where l: "launch_all demo_launch_env 1 demo_relaunch_args demo_ctx [] [] demo_launch_state = (st', Inr sm)"
    using o by (simp add: launch_all_def Let_def claim_generation_def demo_relaunch_args_def demo_no_sends empty_plan_def push_step_def
        push_and_record_def push_all_def record_outcome_def record_dispatch_def launched_def case_prod_beta)
  have m: "v_campaigns (le_meanwhile demo_launch_env w) = v_campaigns w" for w by (simp add: demo_launch_env_def)
  from failed_relaunch_stays_open [OF m c _ l] l show ?thesis by (auto simp: demo_relaunch_args_def)
qed

end
