(* ===== verification/Terminal_Scheduler.thy ===== *)
theory Terminal_Scheduler
  imports Launch_Properties
begin

text \<open>
  The scheduler of the terminal (terminal/sync_client.py): one pass releases elapsed locks, drains
  sent batches, launches the campaigns and stages that are due, and records every refusal. The
  clock is read once per step of a pass; \<open>datetime(x)\<close> of SQLite and \<open>strptime\<close> are arguments.
\<close>

record sched_lib =
  sl_datetime :: "string \<Rightarrow> string option"
  sl_strptime :: "string \<Rightarrow> int option"

text \<open>The classes of the exceptions and their text.\<close>

definition is_retryable :: "launch_error \<Rightarrow> bool" where
  "is_retryable e = (case e of LaunchRetryable _ \<Rightarrow> True | CampaignClosed _ \<Rightarrow> True | _ \<Rightarrow> False)"

definition is_launch_error :: "launch_error \<Rightarrow> bool" where
  "is_launch_error e = (case e of OtherError _ \<Rightarrow> False | _ \<Rightarrow> True)"

fun error_text :: "launch_error \<Rightarrow> string" where
  "error_text (LaunchError m) = m"
| "error_text (RelaunchConflict m) = m"
| "error_text (LaunchRetryable m) = m"
| "error_text (CampaignClosed m) = m"
| "error_text (LaunchPushError m) = m"
| "error_text (OtherError m) = m"

section \<open>Batches\<close>

definition drainable :: "int \<Rightarrow> batch \<Rightarrow> bool" where
  "drainable now b \<longleftrightarrow> cb_status b = ''sending'' \<and> (case cb_window_end b of None \<Rightarrow> False | Some w \<Rightarrow> w < iso now)"

definition drain_batches :: "'s launch_env \<Rightarrow> vault \<Rightarrow> launch_error + vault" where
  "drain_batches ev v =
     (let now = le_now ev; rows = filter (drainable now) (v_batches v) in
      if rows = [] then Inr v
      else
        (case le_zone ev (conf_or (le_conf ev) ''send_window_tz'' ''America/Los_Angeles'') of
           None \<Rightarrow> Inl (OtherError ''ZoneInfoNotFoundError'')
         | Some zone \<Rightarrow>
             (case next_window_open_after (schedule_of (le_conf ev) zone (le_jitter ev)) (of_int now) of
                Inl e \<Rightarrow> Inl (OtherError ''schedule'')
              | Inr unlock \<Rightarrow>
                  Inr (v\<lparr>v_batches := update_where (\<lambda>b. cb_id b \<in> set (map cb_id rows))
                        (\<lambda>b. b\<lparr>cb_status := ''drained'', cb_drained_at := Some (iso now), cb_approve_unlock_at := Some unlock\<rparr>) (v_batches v)\<rparr>))))"

section \<open>Records of a refusal\<close>

definition target_text :: "int \<Rightarrow> string" where
  "target_text i = ''campaign:'' @ dec_int i"

definition sched_audit :: "crypto \<Rightarrow> int \<Rightarrow> string \<Rightarrow> int \<Rightarrow> json \<Rightarrow> vault \<Rightarrow> vault" where
  "sched_audit cr now action i details v = audit cr (sql_time now) ''system:scheduler'' action (Some (target_text i)) details v"

definition add_drift :: "crypto \<Rightarrow> int \<Rightarrow> string \<Rightarrow> json \<Rightarrow> vault \<Rightarrow> vault" where
  "add_drift cr now job details v =
     v\<lparr>v_drift := v_drift v @ [\<lparr>dr_id = next_row_id dr_id (v_drift v), dr_detected_at = sql_time now, dr_category = ''status_mismatch'',
        dr_severity = ''WARN'', dr_job_id = Some job, dr_details_json = json_dumps cr details, dr_acknowledged_at = None,
        dr_acknowledged_by = None\<rparr>]\<rparr>"

definition still_scheduled :: "int \<Rightarrow> vault \<Rightarrow> bool" where
  "still_scheduled i v \<longleftrightarrow> (case campaign_of v i of None \<Rightarrow> False | Some c \<Rightarrow> ca_status c = ''scheduled'')"

definition noted :: "crypto \<Rightarrow> int \<Rightarrow> string \<Rightarrow> int \<Rightarrow> json \<Rightarrow> vault \<Rightarrow> bool" where
  "noted cr now action i details v \<longleftrightarrow>
     (\<exists>a\<in>set (v_audit v). au_action a = action \<and> au_target a = Some (target_text i) \<and>
        au_details_json a = Some (json_dumps cr details) \<and> sql_time (now - 86400) \<le> au_occurred_at a)"

definition note_retry :: "crypto \<Rightarrow> int \<Rightarrow> string \<Rightarrow> int \<Rightarrow> json \<Rightarrow> vault \<Rightarrow> vault" where
  "note_retry cr now action i details v = (if noted cr now action i details v then v else sched_audit cr now action i details v)"

section \<open>Streaks of unexpected errors\<close>

definition retrying :: string where "retrying = ''campaign.scheduled_launch_retrying''"

definition streak_entry :: "crypto \<Rightarrow> sched_lib \<Rightarrow> string option \<Rightarrow> (int \<times> json) option" where
  "streak_entry cr lib raw =
     (case Option.bind raw (json_loads cr) of
        None \<Rightarrow> None
      | Some d \<Rightarrow>
          (case jitem ''streak_start'' d of
             Some (JStr t) \<Rightarrow> (case sl_strptime lib t of None \<Rightarrow> None | Some begun \<Rightarrow> Some (begun, the (jget ''updated_at'' d)))
           | _ \<Rightarrow> None))"

definition opt_text :: "string option \<Rightarrow> json" where
  "opt_text s = (case s of None \<Rightarrow> JNull | Some t \<Rightarrow> JStr t)"

definition streak :: "crypto \<Rightarrow> sched_lib \<Rightarrow> int \<Rightarrow> int \<Rightarrow> vault \<Rightarrow> int \<times> string option" where
  "streak cr lib i now v =
     (let since = map_option ca_updated_at (campaign_of v i);
          raws = map au_details_json (rev (sort_key au_id (filter (\<lambda>a. au_action a = retrying \<and> au_target a = Some (target_text i)) (v_audit v))))
      in case List.map_filter (streak_entry cr lib) raws of
           [] \<Rightarrow> (now, since)
         | (begun, upd) # _ \<Rightarrow> (if upd = opt_text since then begun else now, since))"

section \<open>Refusals\<close>

definition come_due :: "sched_lib \<Rightarrow> int \<Rightarrow> string option \<Rightarrow> bool" where
  "come_due lib now scheduled_for =
     (case scheduled_for of None \<Rightarrow> False | Some s \<Rightarrow> (case sl_datetime lib s of None \<Rightarrow> False | Some t \<Rightarrow> t \<le> sql_time now))"

definition refusable :: "sched_lib \<Rightarrow> int \<Rightarrow> int \<Rightarrow> string option \<Rightarrow> string option \<Rightarrow> campaign \<Rightarrow> bool" where
  "refusable lib now i since unparseable c \<longleftrightarrow>
     ca_id c = i \<and> ca_status c = ''scheduled'' \<and>
     (case unparseable of Some s \<Rightarrow> ca_scheduled_for c = Some s | None \<Rightarrow> come_due lib now (ca_scheduled_for c)) \<and>
     (case since of None \<Rightarrow> True | Some u \<Rightarrow> ca_updated_at c = u)"

definition refuse_campaign ::
  "crypto \<Rightarrow> sched_lib \<Rightarrow> int \<Rightarrow> int \<Rightarrow> string \<Rightarrow> string option \<Rightarrow> string option \<Rightarrow> vault \<Rightarrow> vault" where
  "refuse_campaign cr lib now i error since unparseable v =
     (let p = refusable lib now i since unparseable; moved = (rowcount p (v_campaigns v) = 1);
          v1 = v\<lparr>v_campaigns := update_where p (\<lambda>c. c\<lparr>ca_status := ''failed'', ca_updated_at := sql_time now\<rparr>) (v_campaigns v)\<rparr>
      in add_drift cr now (''sched:'' @ dec_int i)
           (JObj [(''campaign_id'', JInt i), (''error'', JStr error), (''marked_failed'', JBool moved)])
           (sched_audit cr now ''campaign.scheduled_launch_failed'' i (JObj [(''error'', JStr error), (''marked_failed'', JBool moved)]) v1))"

definition fail_stage :: "crypto \<Rightarrow> int \<Rightarrow> int \<Rightarrow> int \<Rightarrow> string \<Rightarrow> bool \<Rightarrow> vault \<Rightarrow> vault" where
  "fail_stage cr now i stage_id error possibly_sent v =
     add_drift cr now (''stage:'' @ dec_int stage_id)
       (JObj [(''campaign_id'', JInt i), (''stage_id'', JInt stage_id), (''error'', JStr error), (''possibly_sent'', JBool possibly_sent)])
       (sched_audit cr now ''campaign.stage_failed'' i
          (JObj [(''stage_id'', JInt stage_id), (''error'', JStr error), (''possibly_sent'', JBool possibly_sent)])
          (v\<lparr>v_stages := update_where (\<lambda>s. sg_id s = stage_id \<and> sg_status s = ''pending'') (\<lambda>s. s\<lparr>sg_status := ''failed''\<rparr>) (v_stages v)\<rparr>))"

definition held_back :: "string list" where
  "held_back = [''paused'', ''draft'', ''archived'', ''cancelled'']"

text \<open>A pending stage whose campaign, read together with it, still sends stages.\<close>

definition live_stage :: "vault \<Rightarrow> stage \<Rightarrow> bool" where
  "live_stage v s \<longleftrightarrow> sg_status s = ''pending'' \<and>
     (case campaign_of v (sg_campaign_id s) of None \<Rightarrow> False | Some c \<Rightarrow> ca_status c \<notin> set held_back)"

definition stage_still_due :: "int \<Rightarrow> vault \<Rightarrow> bool" where
  "stage_still_due stage_id v \<longleftrightarrow> (\<exists>s\<in>set (v_stages v). sg_id s = stage_id \<and> live_stage v s)"

definition stage_cancel_reason :: "string \<Rightarrow> string" where
  "stage_cancel_reason status =
     (if status = ''archived'' then ''the campaign was archived before this stage went out''
      else ''the campaign was cancelled before this stage went out'')"

definition cancel_archived_stage :: "crypto \<Rightarrow> int \<Rightarrow> int \<Rightarrow> int \<Rightarrow> string \<Rightarrow> vault \<Rightarrow> vault" where
  "cancel_archived_stage cr now i stage_id status v =
     (let p = (\<lambda>s. sg_id s = stage_id \<and> sg_status s = ''pending'' \<and> (\<exists>c\<in>set (v_campaigns v). ca_id c = i \<and> ca_status c = status));
          v1 = v\<lparr>v_stages := update_where p (\<lambda>s. s\<lparr>sg_status := ''cancelled''\<rparr>) (v_stages v)\<rparr>
      in if rowcount p (v_stages v) = 1
         then sched_audit cr now ''campaign.stage_cancelled'' i
                (JObj [(''stage_id'', JInt stage_id), (''reason'', JStr (stage_cancel_reason status))]) v1
         else v1)"

section \<open>One pass\<close>

definition sched_args :: "int option \<Rightarrow> int option \<Rightarrow> launch_args" where
  "sched_args template stage =
     \<lparr>la_actor = ''system:scheduler'', la_template = template, la_stage = stage, la_relaunch = False, la_seq = None\<rparr>"

text \<open>What becomes of a campaign whose launch failed with \<open>e\<close>.\<close>

definition after_failure :: "crypto \<Rightarrow> sched_lib \<Rightarrow> int \<Rightarrow> int \<Rightarrow> launch_error \<Rightarrow> vault \<Rightarrow> vault" where
  "after_failure cr lib now i e v =
     (if (is_retryable e \<or> \<not> is_launch_error e) \<and> still_scheduled i v then
        (case streak cr lib i now v of (begun, since) \<Rightarrow>
           if is_launch_error e then
             note_retry cr now retrying i (JObj [(''error'', JStr (error_text e)), (''updated_at'', opt_text since)]) v
           else if 86400 \<le> now - begun then refuse_campaign cr lib now i (error_text e) since None v
           else
             note_retry cr now retrying i
               (JObj [(''error'', JStr (error_text e)), (''streak_start'', JStr (sql_time begun)), (''updated_at'', opt_text since)]) v)
      else refuse_campaign cr lib now i (error_text e) None None v)"

definition tick_campaign :: "'s launch_env \<Rightarrow> sched_lib \<Rightarrow> int \<Rightarrow> 's launch_state \<Rightarrow> 's launch_state" where
  "tick_campaign ev lib i st =
     (case launch_campaign ev i (sched_args None None) st of
        (st1, Inr _) \<Rightarrow> st1
      | (st1, Inl e) \<Rightarrow> on_vault (after_failure (ll_crypto (le_lib ev)) lib (le_now ev) i e) st1)"

definition tick_stage :: "'s launch_env \<Rightarrow> stage \<Rightarrow> 's launch_state \<Rightarrow> 's launch_state" where
  "tick_stage ev s st =
     (let cr = ll_crypto (le_lib ev); now = le_now ev; i = sg_campaign_id s in
      if \<not> stage_still_due (sg_id s) (ls_vault st) then st
      else
        (case launch_campaign ev i (sched_args (Some (sg_template_id s)) (Some (sg_id s))) st of
           (st1, Inr _) \<Rightarrow> st1
         | (st1, Inl e) \<Rightarrow>
             if is_retryable e then
               on_vault (note_retry cr now ''campaign.stage_retrying'' i (JObj [(''stage_id'', JInt (sg_id s)), (''error'', JStr (error_text e))])) st1
             else
               on_vault (fail_stage cr now i (sg_id s) (error_text e)
                 ((case e of LaunchPushError _ \<Rightarrow> True | _ \<Rightarrow> False) \<or> \<not> is_launch_error e)) st1))"

text \<open>The selections of a pass.\<close>

definition due_campaigns :: "sched_lib \<Rightarrow> int \<Rightarrow> vault \<Rightarrow> int list" where
  "due_campaigns lib now v = sort (map ca_id (filter (\<lambda>c. ca_status c = ''scheduled'' \<and> come_due lib now (ca_scheduled_for c)) (v_campaigns v)))"

definition closed_stages :: "vault \<Rightarrow> (int \<times> int \<times> string) list" where
  "closed_stages v =
     List.map_filter (\<lambda>s. case campaign_of v (sg_campaign_id s) of
         Some c \<Rightarrow> if sg_status s = ''pending'' \<and> ca_status c \<in> {''archived'', ''cancelled''} then Some (sg_campaign_id s, sg_id s, ca_status c) else None
       | None \<Rightarrow> None) (v_stages v)"

definition tested_stage :: "vault \<Rightarrow> stage \<Rightarrow> bool" where
  "tested_stage v s \<longleftrightarrow> live_stage v s \<and> (case campaign_of v (sg_campaign_id s) of None \<Rightarrow> False | Some c \<Rightarrow> ca_test_sent_at c \<noteq> None)"

definition due_stages :: "sched_lib \<Rightarrow> int \<Rightarrow> vault \<Rightarrow> stage list" where
  "due_stages lib now v = filter (\<lambda>s. tested_stage v s \<and> come_due lib now (Some (sg_scheduled_for s))) (v_stages v)"

definition bad_campaigns :: "sched_lib \<Rightarrow> vault \<Rightarrow> (int \<times> string) list" where
  "bad_campaigns lib v =
     List.map_filter (\<lambda>c. case ca_scheduled_for c of
         Some s \<Rightarrow> if ca_status c = ''scheduled'' \<and> sl_datetime lib s = None then Some (ca_id c, s) else None
       | None \<Rightarrow> None) (v_campaigns v)"

definition bad_stages :: "sched_lib \<Rightarrow> vault \<Rightarrow> stage list" where
  "bad_stages lib v = filter (\<lambda>s. tested_stage v s \<and> sl_datetime lib (sg_scheduled_for s) = None) (v_stages v)"

definition unparseable_time :: string where
  "unparseable_time = ''its scheduled time is not a valid date and time''"

text \<open>The environment of the \<open>k\<close>-th campaign launch is \<open>ev k\<close>, that of the \<open>k\<close>-th stage \<open>ev (n + k)\<close>, with \<open>n\<close> campaigns due.\<close>

fun tick_campaigns :: "(nat \<Rightarrow> 's launch_env) \<Rightarrow> sched_lib \<Rightarrow> int list \<Rightarrow> 's launch_state \<Rightarrow> 's launch_state" where
  "tick_campaigns ev lib [] st = st"
| "tick_campaigns ev lib (i # is) st = tick_campaigns (\<lambda>k. ev (Suc k)) lib is (tick_campaign (ev 0) lib i st)"

fun tick_stages :: "(nat \<Rightarrow> 's launch_env) \<Rightarrow> stage list \<Rightarrow> 's launch_state \<Rightarrow> 's launch_state" where
  "tick_stages ev [] st = st"
| "tick_stages ev (s # ss) st = tick_stages (\<lambda>k. ev (Suc k)) ss (tick_stage (ev 0) s st)"

definition release_and_drain :: "'s launch_env \<Rightarrow> vault \<Rightarrow> vault" where
  "release_and_drain ev v =
     (let v1 = fst (confirm_elapsed_locks (sql_time (le_now ev)) v)
      in (case drain_batches ev v1 of Inl e \<Rightarrow> v1 | Inr v2 \<Rightarrow> v2))"

definition refuse_unreadable :: "crypto \<Rightarrow> sched_lib \<Rightarrow> int \<Rightarrow> vault \<Rightarrow> vault" where
  "refuse_unreadable cr lib now v =
     fold (\<lambda>s. fail_stage cr now (sg_campaign_id s) (sg_id s) unparseable_time False) (bad_stages lib v)
       (fold (\<lambda>(i, t). refuse_campaign cr lib now i unparseable_time None (Some t)) (bad_campaigns lib v) v)"

definition scheduler_tick :: "(nat \<Rightarrow> 's launch_env) \<Rightarrow> sched_lib \<Rightarrow> 's launch_state \<Rightarrow> 's launch_state" where
  "scheduler_tick ev lib st =
     (let cr = ll_crypto (le_lib (ev 0)); now = le_now (ev 0);
          st1 = on_vault (release_and_drain (ev 0)) st;
          due = due_campaigns lib now (ls_vault st1);
          st2 = tick_campaigns (\<lambda>k. ev (Suc k)) lib due st1;
          after = le_now (ev (length due));
          st3 = on_vault (\<lambda>v. fold (\<lambda>(i, s, status). cancel_archived_stage cr after i s status) (closed_stages v) v) st2;
          stages = due_stages lib after (ls_vault st3);
          st4 = tick_stages (\<lambda>k. ev (Suc (length due + k))) stages st3;
          last = le_now (ev (length due + length stages))
      in on_vault (refuse_unreadable cr lib last) st4)"

end
