(* ===== verification/Scheduler_Properties.thy ===== *)
theory Scheduler_Properties
  imports Terminal_Scheduler
begin

text \<open>
  What a pass of the scheduler promises: a due campaign is launched, refused or noted for a retry,
  unexpected errors end after a day, and a stage goes out or says why not.
\<close>

section \<open>The audit log\<close>

lemma fold_max_ge: "(m::int) \<le> fold (\<lambda>r m. max (rid r) m) rows m"
  by (induction rows arbitrary: m) (auto intro: order_trans [OF max.cobounded2])

lemma next_row_id_greater: "r \<in> set rows \<Longrightarrow> rid r < next_row_id rid rows"
proof -
  have "r \<in> set rows \<Longrightarrow> rid r \<le> fold (\<lambda>r m. max (rid r) m) rows m" for m
  proof (induction rows arbitrary: m)
    case (Cons q rows)
    then show ?case using fold_max_ge [of "max (rid r) m" rid rows] by auto
  qed simp
  then show "r \<in> set rows \<Longrightarrow> rid r < next_row_id rid rows" by (simp add: next_row_id_def)
qed

text \<open>The retry rows of a campaign, newest first.\<close>

definition retry_rows :: "int \<Rightarrow> vault \<Rightarrow> audit_event list" where
  "retry_rows i v = rev (sort_key au_id (filter (\<lambda>a. au_action a = retrying \<and> au_target a = Some (target_text i)) (v_audit v)))"

lemma retry_rows_new:
  "retry_rows i (sched_audit cr now retrying i details v) =
     \<lparr>au_id = next_row_id au_id (v_audit v), au_occurred_at = sql_time now, au_actor = ''system:scheduler'', au_action = retrying,
      au_target = Some (target_text i), au_details_json = Some (json_dumps cr details)\<rparr> # retry_rows i v"
proof -
  have "\<forall>y\<in>set (filter (\<lambda>a. au_action a = retrying \<and> au_target a = Some (target_text i)) (v_audit v)). au_id y < next_row_id au_id (v_audit v)"
    using next_row_id_greater [of _ "v_audit v" au_id] by auto
  then show ?thesis by (simp add: retry_rows_def sched_audit_def audit_def sort_key_snoc)
qed

definition streak_entries :: "crypto \<Rightarrow> sched_lib \<Rightarrow> int \<Rightarrow> vault \<Rightarrow> (int \<times> json) list" where
  "streak_entries cr lib i v = List.map_filter (streak_entry cr lib) (map au_details_json (retry_rows i v))"

lemma streak_eq:
  "campaign_of v i = Some c \<Longrightarrow>
   streak cr lib i now v =
     (case streak_entries cr lib i v of [] \<Rightarrow> now | (begun, upd) # _ \<Rightarrow> if upd = JStr (ca_updated_at c) then begun else now, Some (ca_updated_at c))"
  by (simp add: streak_def streak_entries_def retry_rows_def opt_text_def Let_def split: list.split)

lemma audit_frame: "v_campaigns (sched_audit cr now a i d v) = v_campaigns v" "v_campaigns (note_retry cr now a i d v) = v_campaigns v"
  by (simp_all add: sched_audit_def audit_def note_retry_def)

section \<open>A day of unexpected errors\<close>

text \<open>The two notes of a failed launch, and that the JSON codec reads them back.\<close>

definition retry_note :: "string \<Rightarrow> string \<Rightarrow> json" where
  "retry_note m u = JObj [(''error'', JStr m), (''updated_at'', JStr u)]"

definition streak_note :: "string \<Rightarrow> int \<Rightarrow> string \<Rightarrow> json" where
  "streak_note m t0 u = JObj [(''error'', JStr m), (''streak_start'', JStr (sql_time t0)), (''updated_at'', JStr u)]"

definition notes_round :: "crypto \<Rightarrow> bool" where
  "notes_round cr \<longleftrightarrow> (\<forall>m u. json_round cr (retry_note m u)) \<and> (\<forall>m t u. json_round cr (streak_note m t u))"

lemma streak_note_entry:
  "notes_round cr \<Longrightarrow> sl_strptime lib (sql_time t0) = Some t0 \<Longrightarrow>
   streak_entry cr lib (Some (json_dumps cr (streak_note m t0 u))) = Some (t0, JStr u)"
  by (simp add: notes_round_def json_round_def streak_entry_def) (simp add: streak_note_def jitem_def jget_def)

lemma retry_note_entry: "notes_round cr \<Longrightarrow> streak_entry cr lib (Some (json_dumps cr (retry_note m u))) = None"
  by (simp add: notes_round_def json_round_def streak_entry_def) (simp add: retry_note_def jitem_def)

lemma map_filter_Nil: "List.map_filter f xs = [] \<longleftrightarrow> (\<forall>x\<in>set xs. f x = None)"
  by (induction xs) (simp_all add: List.map_filter_simps split: option.split)

lemma unnoted_streak:
  assumes "notes_round cr" "sl_strptime lib (sql_time t0) = Some t0" "streak_entries cr lib i v = []"
  shows "\<not> noted cr now retrying i (streak_note m t0 u) v"
proof
  assume "noted cr now retrying i (streak_note m t0 u) v"
  then obtain a where a: "a \<in> set (retry_rows i v)" "au_details_json a = Some (json_dumps cr (streak_note m t0 u))"
    by (auto simp: noted_def retry_rows_def)
  then have "streak_entry cr lib (au_details_json a) = None" using assms(3) by (auto simp: streak_entries_def map_filter_Nil)
  then show False using a(2) streak_note_entry [OF assms(1,2)] by simp
qed

text \<open>A campaign in a streak that began at \<open>t0\<close>.\<close>

definition in_streak :: "crypto \<Rightarrow> sched_lib \<Rightarrow> int \<Rightarrow> int \<Rightarrow> campaign \<Rightarrow> vault \<Rightarrow> bool" where
  "in_streak cr lib i t0 c v \<longleftrightarrow>
     campaign_of v i = Some c \<and> (\<exists>rest. streak_entries cr lib i v = (t0, JStr (ca_updated_at c)) # rest)"

lemma in_streak_new:
  assumes "notes_round cr" "sl_strptime lib (sql_time t0) = Some t0" "campaign_of v i = Some c"
  shows "in_streak cr lib i t0 c (sched_audit cr now retrying i (streak_note m t0 (ca_updated_at c)) v)"
  using assms by (simp add: in_streak_def streak_entries_def retry_rows_new List.map_filter_simps streak_note_entry campaign_of_cong [OF audit_frame(1)])

lemma in_streak_skip:
  "notes_round cr \<Longrightarrow> in_streak cr lib i t0 c v \<Longrightarrow> in_streak cr lib i t0 c (sched_audit cr now retrying i (retry_note m u) v)"
  by (simp add: in_streak_def streak_entries_def retry_rows_new List.map_filter_simps retry_note_entry campaign_of_cong [OF audit_frame(1)])

lemma failure_in_streak:
  assumes j: "notes_round cr" and p: "sl_strptime lib (sql_time t0) = Some t0"
    and s: "in_streak cr lib i t0 c v" "ca_status c = ''scheduled''"
    and e: "is_retryable e \<or> \<not> is_launch_error e" "t - t0 < 86400"
  shows "in_streak cr lib i t0 c (after_failure cr lib t i e v)"
proof -
  have c: "campaign_of v i = Some c" "still_scheduled i v" using s by (simp_all add: in_streak_def still_scheduled_def)
  have st: "streak cr lib i t v = (t0, Some (ca_updated_at c))" using s(1) by (auto simp: in_streak_def streak_eq)
  show ?thesis
  proof (cases "is_launch_error e")
    case True
    then show ?thesis using e c st in_streak_skip [OF j s(1)] s(1)
      by (simp add: after_failure_def note_retry_def opt_text_def flip: retry_note_def streak_note_def)
  next
    case False
    then show ?thesis using e c st in_streak_new [OF j p c(1)] s(1)
      by (simp add: after_failure_def note_retry_def opt_text_def flip: retry_note_def streak_note_def)
  qed
qed

lemma refuse_campaigns:
  "v_campaigns (refuse_campaign cr lib now i m since un v) =
     update_where (refusable lib now i since un) (\<lambda>c. c\<lparr>ca_status := ''failed'', ca_updated_at := sql_time now\<rparr>) (v_campaigns v)"
  by (simp add: refuse_campaign_def add_drift_def sched_audit_def audit_def Let_def)

lemma refused_campaign:
  assumes c: "campaign_of v i = Some c"
  shows "campaign_of (refuse_campaign cr lib now i m since un v) i =
     Some (if refusable lib now i since un c then c\<lparr>ca_status := ''failed'', ca_updated_at := sql_time now\<rparr> else c)"
  using c unfolding campaign_of_def refuse_campaigns by (simp add: find_same_id)

text \<open>Unexpected errors end after a day. From the first unexpected error of a due campaign on, launches that fail with
  an unexpected error or one that is worth a retry leave the campaign scheduled for a day, whatever
  the errors say; the first unexpected error after that day marks it failed, provided nobody edited it meanwhile.\<close>

theorem gives_up_after_a_day:
  assumes j: "notes_round cr" and p: "sl_strptime lib (sql_time t0) = Some t0"
    and c: "campaign_of v i = Some c" "ca_status c = ''scheduled''" "streak_entries cr lib i v = []"
    and first: "v1 = after_failure cr lib t0 i (OtherError m) v"
    and fs: "\<forall>(t, e)\<in>set fs. (is_retryable e \<or> \<not> is_launch_error e) \<and> t - t0 < 86400"
    and v2: "v2 = fold (\<lambda>(t, e). after_failure cr lib t i e) fs v1"
    and t1: "86400 \<le> t1 - t0" "come_due lib t1 (ca_scheduled_for c)"
  shows "campaign_of v2 i = Some c \<and>
    campaign_of (after_failure cr lib t1 i (OtherError m1) v2) i = Some (c\<lparr>ca_status := ''failed'', ca_updated_at := sql_time t1\<rparr>)"
proof -
  have "streak cr lib i t0 v = (t0, Some (ca_updated_at c))" using c(1,3) by (simp add: streak_eq)
  then have "in_streak cr lib i t0 c v1"
    using in_streak_new [OF j p c(1)] unnoted_streak [OF j p c(3)] c(1,2) unfolding first
    by (simp add: after_failure_def is_retryable_def is_launch_error_def still_scheduled_def note_retry_def opt_text_def
        flip: streak_note_def)
  then have "in_streak cr lib i t0 c v2" using fs unfolding v2
  proof (induction fs arbitrary: v1)
    case (Cons f fs)
    obtain t e where f: "f = (t, e)" by fastforce
    with Cons.prems failure_in_streak [OF j p Cons.prems(1) c(2), of e t] have "in_streak cr lib i t0 c (after_failure cr lib t i e v1)" by simp
    from Cons.IH [OF this] Cons.prems(2) f show ?case by simp
  qed simp
  then have s: "campaign_of v2 i = Some c" "streak cr lib i t1 v2 = (t0, Some (ca_updated_at c))"
    by (auto simp: in_streak_def streak_eq)
  have "refusable lib t1 i (Some (ca_updated_at c)) None c" using campaign_of_id [OF c(1)] c(2) t1(2) by (simp add: refusable_def)
  with s t1(1) c(2) show ?thesis
    by (simp add: after_failure_def is_retryable_def is_launch_error_def still_scheduled_def refused_campaign)
qed

section \<open>No failure is silent\<close>

text \<open>A row of the audit log that names the error of the campaign, at most a day old.\<close>

definition reported :: "crypto \<Rightarrow> int \<Rightarrow> string list \<Rightarrow> int \<Rightarrow> (json \<Rightarrow> bool) \<Rightarrow> vault \<Rightarrow> bool" where
  "reported cr now actions i p v \<longleftrightarrow>
     (\<exists>a\<in>set (v_audit v). \<exists>d. au_action a \<in> set actions \<and> au_target a = Some (target_text i) \<and> p d \<and>
        au_details_json a = Some (json_dumps cr d) \<and> (au_occurred_at a = sql_time now \<or> sql_time (now - 86400) \<le> au_occurred_at a))"

definition names_error :: "launch_error \<Rightarrow> json \<Rightarrow> bool" where
  "names_error e d \<longleftrightarrow> jitem ''error'' d = Some (JStr (error_text e))"

lemma note_reports: "action \<in> set actions \<Longrightarrow> p d \<Longrightarrow> reported cr now actions i p (note_retry cr now action i d v)"
  by (auto simp: note_retry_def reported_def noted_def sched_audit_def audit_def)

lemma refusal_reports:
  "(\<And>b. p (JObj [(''error'', JStr m), (''marked_failed'', JBool b)])) \<Longrightarrow>
   reported cr now [''campaign.scheduled_launch_failed'', retrying] i p (refuse_campaign cr lib now i m since un v)"
  by (auto simp: reported_def refuse_campaign_def add_drift_def sched_audit_def audit_def Let_def)

lemma failure_reported: "reported cr now [''campaign.scheduled_launch_failed'', retrying] i (names_error e) (after_failure cr lib now i e v)"
  unfolding after_failure_def
  by (auto intro!: note_reports refusal_reports simp: names_error_def jitem_def split: prod.split)

lemma note_campaigns: "campaign_of (note_retry cr now a i d v) j = campaign_of v j"
  by (simp add: campaign_of_cong [OF audit_frame(2)])

text \<open>What is left scheduled and due after a failure has a retry on record; a refusal leaves nothing that it may mark.\<close>

lemma refused_not_due:
  assumes "campaign_of (refuse_campaign cr lib now i m since None v) i = Some c" "ca_status c = ''scheduled''"
    and "since = None \<or> since = map_option ca_updated_at (campaign_of v i)"
  shows "\<not> come_due lib now (ca_scheduled_for c)"
proof -
  obtain c0 where c0: "campaign_of v i = Some c0"
    using assms(1) unfolding campaign_of_def refuse_campaigns by (auto simp: find_same_id find_None_iff split: option.splits)
  from assms refused_campaign [OF c0] campaign_of_id [OF c0] c0 show ?thesis by (auto simp: refusable_def split: if_splits)
qed

lemma failure_settles:
  assumes c: "campaign_of (after_failure cr lib now i e v) i = Some c" "ca_status c = ''scheduled''" "come_due lib now (ca_scheduled_for c)"
  shows "reported cr now [retrying] i (names_error e) (after_failure cr lib now i e v)"
proof -
  have r: "since = None \<or> since = map_option ca_updated_at (campaign_of v i) \<Longrightarrow>
      after_failure cr lib now i e v \<noteq> refuse_campaign cr lib now i (error_text e) since None v" for since
    using refused_not_due [of cr lib now i "error_text e" since v c] c by auto
  have "snd (streak cr lib i now v) = map_option ca_updated_at (campaign_of v i)"
    by (auto simp: streak_def Let_def split: list.split)
  then show ?thesis using r [of None] r [of "snd (streak cr lib i now v)"]
    by (auto simp: after_failure_def names_error_def jitem_def intro!: note_reports split: prod.splits if_splits)
qed

text \<open>C28: no scheduled launch fails silently. When the launch of a due campaign fails, an audit row of the campaign names
  the error, and a campaign that is still scheduled and due has a retry on record (so it stands for
  the next pass); every other one is no longer scheduled for the passed time.\<close>

theorem failed_launch_is_reported:
  assumes "launch_campaign ev i (sched_args None None) st = (st1, Inl e)" "cr = ll_crypto (le_lib ev)" "now = le_now ev"
    and "st' = tick_campaign ev lib i st"
  shows "reported cr now [''campaign.scheduled_launch_failed'', retrying] i (names_error e) (ls_vault st') \<and>
    (\<forall>c. campaign_of (ls_vault st') i = Some c \<longrightarrow> ca_status c = ''scheduled'' \<longrightarrow> come_due lib now (ca_scheduled_for c) \<longrightarrow>
       reported cr now [retrying] i (names_error e) (ls_vault st'))"
  using assms failure_reported failure_settles by (simp add: tick_campaign_def on_vault_def)

section \<open>Stages of closed campaigns\<close>

lemma cancel_frame: "v_campaigns (cancel_archived_stage cr now i k status v) = v_campaigns v"
  by (simp add: cancel_archived_stage_def Let_def sched_audit_def audit_def)

lemma cancel_stages:
  "v_stages (cancel_archived_stage cr now i k status v) =
     update_where (\<lambda>s. sg_id s = k \<and> sg_status s = ''pending'' \<and> (\<exists>c\<in>set (v_campaigns v). ca_id c = i \<and> ca_status c = status))
       (\<lambda>s. s\<lparr>sg_status := ''cancelled''\<rparr>) (v_stages v)"
  by (simp add: cancel_archived_stage_def Let_def sched_audit_def audit_def)

definition cancelled_by :: "campaign list \<Rightarrow> (int \<times> int \<times> string) list \<Rightarrow> stage \<Rightarrow> stage" where
  "cancelled_by cs ks s =
     (if sg_status s = ''pending'' \<and> (\<exists>(i, k, status)\<in>set ks. sg_id s = k \<and> (\<exists>c\<in>set cs. ca_id c = i \<and> ca_status c = status))
      then s\<lparr>sg_status := ''cancelled''\<rparr> else s)"

lemma cancel_fold:
  "v_stages (fold (\<lambda>(i, k, status). cancel_archived_stage cr now i k status) ks v) = map (cancelled_by (v_campaigns v) ks) (v_stages v) \<and>
   v_campaigns (fold (\<lambda>(i, k, status). cancel_archived_stage cr now i k status) ks v) = v_campaigns v"
proof (induction ks arbitrary: v)
  case Nil
  then show ?case by (simp add: cancelled_by_def map_idI)
next
  case (Cons t ks)
  obtain i k status where t: "t = (i, k, status)" by (metis prod.collapse)
  show ?case using Cons.IH [of "cancel_archived_stage cr now i k status v"]
    by (auto simp: t cancel_frame cancel_stages update_where_def cancelled_by_def)
qed

text \<open>After the cancellations of a pass no pending stage of an archived or cancelled campaign is left, and no
  other stage changed.\<close>

theorem closed_campaign_keeps_no_stage:
  assumes "v' = fold (\<lambda>(i, k, status). cancel_archived_stage cr now i k status) (closed_stages v) v"
  shows "closed_stages v' = [] \<and> length (v_stages v') = length (v_stages v) \<and>
    (\<forall>k < length (v_stages v). v_stages v' ! k \<noteq> v_stages v ! k \<longrightarrow>
       (\<exists>x\<in>set (closed_stages v). fst (snd x) = sg_id (v_stages v ! k)) \<and> v_stages v' ! k = (v_stages v ! k)\<lparr>sg_status := ''cancelled''\<rparr>)"
proof -
  let ?f = "cancelled_by (v_campaigns v) (closed_stages v)"
  have v': "v_stages v' = map ?f (v_stages v)" "v_campaigns v' = v_campaigns v"
    using cancel_fold [of cr now "closed_stages v" v] by (simp_all add: assms)
  have "\<not> (sg_status (?f s) = ''pending'' \<and> campaign_of v (sg_campaign_id (?f s)) = Some c \<and> ca_status c \<in> {''archived'', ''cancelled''})"
    if s: "s \<in> set (v_stages v)" for s c
  proof
    assume a: "sg_status (?f s) = ''pending'' \<and> campaign_of v (sg_campaign_id (?f s)) = Some c \<and> ca_status c \<in> {''archived'', ''cancelled''}"
    then have f: "?f s = s" by (auto simp: cancelled_by_def split: if_splits)
    have "(sg_campaign_id s, sg_id s, ca_status c) \<in> set (closed_stages v)"
      using a s unfolding f by (force simp: closed_stages_def map_filter_def)
    moreover have "c \<in> set (v_campaigns v)" "ca_id c = sg_campaign_id s"
      using a unfolding f campaign_of_def by (auto simp: find_Some_iff)
    ultimately have "\<exists>(i, k, status)\<in>set (closed_stages v). sg_id s = k \<and> (\<exists>c\<in>set (v_campaigns v). ca_id c = i \<and> ca_status c = status)"
      by (intro bexI [of _ "(sg_campaign_id s, sg_id s, ca_status c)"]) auto
    moreover have "sg_status s = ''pending''" using a unfolding f by blast
    ultimately have "?f s = s\<lparr>sg_status := ''cancelled''\<rparr>" by (simp add: cancelled_by_def)
    then have "sg_status (?f s) = ''cancelled''" by simp
    with a show False by simp
  qed
  then have "closed_stages v' = []"
    by (auto simp: closed_stages_def map_filter_Nil v' campaign_of_cong [OF v'(2)] split: option.split)
  then show ?thesis by (simp add: v' cancelled_by_def) force
qed

section \<open>Witnesses\<close>

text \<open>A codec for objects of strings.\<close>

definition escape :: "string \<Rightarrow> string" where
  "escape s = concat (map (\<lambda>c. [CHR ''x'', c]) s) @ ''.''"

fun texts :: "string \<Rightarrow> string \<Rightarrow> string list" where
  "texts acc [] = []"
| "texts acc [c] = [acc]"
| "texts acc (c # d # s) = (if c = CHR ''.'' then acc # texts [] (d # s) else texts (acc @ [d]) s)"

fun text_fields :: "string list \<Rightarrow> (string \<times> json) list" where
  "text_fields (k # t # ts) = (k, JStr t) # text_fields ts"
| "text_fields _ = []"

lemma texts_escape: "texts acc (escape s @ r) = (acc @ s) # texts [] r"
proof (induction s arbitrary: acc)
  case Nil
  then show ?case by (cases r) (simp_all add: escape_def)
next
  case (Cons c s)
  then show ?case by (simp add: escape_def)
qed

definition demo_codec :: crypto where
  "demo_codec = (plain_crypto JNull)
     \<lparr>json_dumps := (\<lambda>j. case j of JObj kvs \<Rightarrow> concat (map (\<lambda>(k, x). case x of JStr t \<Rightarrow> escape k @ escape t | _ \<Rightarrow> []) kvs) | _ \<Rightarrow> []),
      json_loads := (\<lambda>b. Some (JObj (text_fields (texts [] b))))\<rparr>"

lemma demo_codec_round: "notes_round demo_codec"
  using texts_escape [of "[]" _ "[]"]
  by (simp add: notes_round_def json_round_def demo_codec_def plain_crypto_def retry_note_def streak_note_def texts_escape)

definition demo_sched_lib :: sched_lib where
  "demo_sched_lib = \<lparr>sl_datetime = Some, sl_strptime = (\<lambda>s. if s = sql_time 0 then Some 0 else None)\<rparr>"


definition demo_due :: campaign where
  "demo_due = (demo_campaign 1)\<lparr>ca_status := ''scheduled'', ca_scheduled_for := Some (sql_time 0), ca_updated_at := ''then''\<rparr>"

theorem gives_up_after_a_day_witness:
  "\<exists>v2. v2 = fold (\<lambda>(t, e). after_failure demo_codec demo_sched_lib t 1 e) [(60, OtherError ''boom''), (120, LaunchRetryable ''busy'')]
       (after_failure demo_codec demo_sched_lib 0 1 (OtherError ''bang'') (empty_vault\<lparr>v_campaigns := [demo_due]\<rparr>)) \<and>
     campaign_of v2 1 = Some demo_due \<and>
     campaign_of (after_failure demo_codec demo_sched_lib 86400 1 (OtherError ''boom'') v2) 1 =
       Some (demo_due\<lparr>ca_status := ''failed'', ca_updated_at := sql_time 86400\<rparr>)"
proof -
  have p: "sl_strptime demo_sched_lib (sql_time 0) = Some 0" by (simp add: demo_sched_lib_def)
  let ?v = "empty_vault\<lparr>v_campaigns := [demo_due]\<rparr>"
  have c: "campaign_of ?v 1 = Some demo_due" "ca_status demo_due = ''scheduled''" "streak_entries demo_codec demo_sched_lib 1 ?v = []"
    by (simp_all add: campaign_of_def demo_due_def demo_campaign_def streak_entries_def retry_rows_def empty_vault_def List.map_filter_simps)
  have "(86400::int) \<le> 86400 - 0" "come_due demo_sched_lib 86400 (ca_scheduled_for demo_due)"
    by (simp, simp add: come_due_def demo_sched_lib_def demo_due_def, code_simp)
  from gives_up_after_a_day [OF demo_codec_round p c refl _ refl this, of "[(60, OtherError ''boom''), (120, LaunchRetryable ''busy'')]" "''bang''" "''boom''"]
  show ?thesis by (simp add: is_retryable_def is_launch_error_def)
qed

theorem failed_launch_is_reported_witness:
  "\<exists>st1 e st'. launch_campaign demo_launch_env 9 (sched_args None None) demo_launch_state = (st1, Inl e) \<and>
     st' = tick_campaign demo_launch_env demo_sched_lib 9 demo_launch_state \<and>
     reported (ll_crypto (le_lib demo_launch_env)) (le_now demo_launch_env) [''campaign.scheduled_launch_failed'', retrying] 9
       (names_error e) (ls_vault st')"
proof -
  obtain st1 e where l: "launch_campaign demo_launch_env 9 (sched_args None None) demo_launch_state = (st1, Inl e)"
    by (cases "le_bearer demo_launch_env") (simp_all add: launch_campaign_def launch_checks_def launch_gate_def Let_def sched_args_def
        demo_launch_state_def campaign_of_def demo_campaign_def)
  from l failed_launch_is_reported [OF l refl refl refl] show ?thesis by blast
qed

definition demo_stages_vault :: vault where
  "demo_stages_vault = empty_vault\<lparr>v_campaigns := [(demo_campaign 1)\<lparr>ca_status := ''archived''\<rparr>],
     v_stages := [\<lparr>sg_id = 4, sg_campaign_id = 1, sg_stage_number = 1, sg_template_id = 1, sg_scheduled_for = sql_time 0,
        sg_status = ''pending'', sg_dispatched_at = None, sg_note = None, sg_created_at = sql_time 0\<rparr>]\<rparr>"

theorem closed_campaign_keeps_no_stage_witness:
  "\<exists>v'. v' = fold (\<lambda>(i, k, status). cancel_archived_stage demo_codec 5 i k status) (closed_stages demo_stages_vault) demo_stages_vault \<and>
      closed_stages demo_stages_vault = [(1, 4, ''archived'')] \<and> closed_stages v' = [] \<and> length (v_stages v') = 1"
proof -
  have "closed_stages demo_stages_vault = [(1, 4, ''archived'')]" "length (v_stages demo_stages_vault) = 1"
    by (simp_all add: closed_stages_def demo_stages_vault_def campaign_of_def demo_campaign_def empty_vault_def List.map_filter_simps)
  with closed_campaign_keeps_no_stage [OF refl, of demo_codec 5 demo_stages_vault] show ?thesis by simp
qed

end
