(* ===== verification/Admin_Base.thy ===== *)
theory Admin_Base
  imports Terminal_Outcomes Email_Clean
begin

text \<open>
  What the operations of the admin pages (terminal/routes_admin.py) share: their errors, the ids of
  AUTOINCREMENT tables, ordered and paged selections, \<open>LIKE\<close> and the two hashes. A handler that
  fails leaves the tables as they were unless its definition returns them.
\<close>

text \<open>An answer of the framework with a status, and any other exception (answered 500).\<close>

datatype admin_error = HttpError int string | Unhandled string

text \<open>\<open>ae_seq t\<close> is the id that table \<open>t\<close> gave last (\<open>sqlite_sequence\<close>), \<open>ae_repr\<close> is \<open>repr\<close> of a string.\<close>

record admin_env =
  ae_crypto :: crypto
  ae_now :: int
  ae_seq :: "string \<Rightarrow> int"
  ae_repr :: "string \<Rightarrow> string"

type_synonym 'a admin_result = "admin_error + vault \<times> 'a"

definition auto_id :: "admin_env \<Rightarrow> string \<Rightarrow> ('r \<Rightarrow> int) \<Rightarrow> 'r list \<Rightarrow> int" where
  "auto_id ev table rid rows = fold (\<lambda>r m. max (rid r) m) rows (max 0 (ae_seq ev table)) + 1"

definition by_operator :: "admin_env \<Rightarrow> string \<Rightarrow> string option \<Rightarrow> (string \<times> json) list \<Rightarrow> vault \<Rightarrow> vault" where
  "by_operator ev action target details v = audit (ae_crypto ev) (sql_time (ae_now ev)) ''operator'' action target (JObj details) v"

definition named :: "string \<Rightarrow> int \<Rightarrow> string option" where
  "named table i = Some (table @ '':'' @ dec_int i)"

definition template_hash_of :: "crypto \<Rightarrow> string \<Rightarrow> string \<Rightarrow> string \<Rightarrow> string" where
  "template_hash_of cr subject from_name html_body = sha256_hex cr (subject @ [CHR 0x0A] @ from_name @ [CHR 0x0A] @ html_body)"

section \<open>Selections\<close>

text \<open>\<open>ORDER BY f DESC\<close> (equal keys in row order) and \<open>LIMIT\<close> with \<open>OFFSET\<close>; a negative limit is none.\<close>

definition order_desc :: "('r \<Rightarrow> 'k::linorder) \<Rightarrow> 'r list \<Rightarrow> 'r list" where
  "order_desc f rows = rev (sort_key f (rev rows))"

definition page :: "int \<Rightarrow> int \<Rightarrow> 'r list \<Rightarrow> 'r list" where
  "page limit offset rows = (let rest = drop (nat offset) rows in if limit < 0 then rest else take (nat limit) rest)"

text \<open>\<open>text LIKE pattern\<close>: \<open>%\<close> any text, \<open>_\<close> one character, ASCII letters of either case.\<close>

fun like :: "string \<Rightarrow> string \<Rightarrow> bool" where
  "like [] s = (s = [])"
| "like (p # ps) [] = (p = CHR ''%'' \<and> like ps [])"
| "like (p # ps) (c # s) =
     (if p = CHR ''%'' then like ps (c # s) \<or> like (p # ps) s
      else (p = CHR ''_'' \<or> lower_char p = lower_char c) \<and> like ps s)"

definition like_part :: "string \<Rightarrow> string option \<Rightarrow> bool" where
  "like_part t s = (case s of None \<Rightarrow> False | Some s \<Rightarrow> like (''%'' @ t @ ''%'') s)"

text \<open>\<open>s.isdigit()\<close> of ASCII text, and the ids of a comma-separated parameter.\<close>

definition isdigit :: "string \<Rightarrow> bool" where
  "isdigit s \<longleftrightarrow> s \<noteq> [] \<and> (\<forall>c\<in>set s. 48 \<le> (of_char c :: nat) \<and> (of_char c :: nat) \<le> 57)"

definition id_list :: "string \<Rightarrow> int list" where
  "id_list ids = List.map_filter int_of_str (filter (\<lambda>i. isdigit (strip i)) (split_on CHR '','' ids))"

section \<open>Lemmas\<close>

lemma like_skip: "like ps s \<Longrightarrow> like (CHR ''%'' # ps) (a @ s)"
proof (induction a)
  case Nil
  then show ?case by (cases s) auto
qed auto

lemma like_same: "like q s \<Longrightarrow> like (t @ q) (t @ s)"
proof (induction t)
  case (Cons c t)
  then show ?case using like_skip [of "t @ q" "t @ s" "[]"] by auto
qed simp

lemma like_all: "like ''%'' s"
  by (induction s) auto

lemma like_part_contains: "like_part t (Some (a @ t @ b))"
  using like_skip [OF like_same [OF like_all [of b], of t], of a] by (simp add: like_part_def)

lemma fold_max_row: "m \<le> fold (\<lambda>r m. max (rid r) m) rows (m::int) \<and> (\<forall>r\<in>set rows. rid r \<le> fold (\<lambda>r m. max (rid r) m) rows m)"
proof (induction rows arbitrary: m)
  case (Cons r rows)
  show ?case using Cons.IH [of "max (rid r) m"] by auto
qed simp

lemma auto_id_fresh: "r \<in> set rows \<Longrightarrow> rid r < auto_id ev t rid rows"
  using fold_max_row [of "max 0 (ae_seq ev t)" rid rows] by (auto simp: auto_id_def)

lemma auto_id_not_in: "auto_id ev t rid rows \<notin> rid ` set rows"
  using auto_id_fresh [of _ rows rid ev t] by force

lemma v_audit_frame [simp]:
  "v_contacts (by_operator ev a t d v) = v_contacts v" "v_templates (by_operator ev a t d v) = v_templates v"
  "v_campaigns (by_operator ev a t d v) = v_campaigns v" "v_recipients (by_operator ev a t d v) = v_recipients v"
  "v_suppressions (by_operator ev a t d v) = v_suppressions v" "v_jobs (by_operator ev a t d v) = v_jobs v"
  "v_batches (by_operator ev a t d v) = v_batches v" "v_stages (by_operator ev a t d v) = v_stages v"
  "v_seeds (by_operator ev a t d v) = v_seeds v" "v_entities (by_operator ev a t d v) = v_entities v"
  "v_operators (by_operator ev a t d v) = v_operators v" "v_settings (by_operator ev a t d v) = v_settings v"
  by (simp_all add: by_operator_def audit_def)

end
