(* ===== verification/Admin_Catalog.thy ===== *)
theory Admin_Catalog
  imports Admin_Base
begin

text \<open>
  Templates, companies, operators and seed addresses of the admin pages (routes_admin.py): the UNIQUE
  names, the hash a template carries, the rows that refer to a deleted one, and the JSON files of
  templates and companies.
\<close>

section \<open>Templates\<close>

record template_in =
  ti_name :: string
  ti_subject :: string
  ti_from_name :: string
  ti_html_body :: string
  ti_text_body :: "string option"
  ti_tracking_enabled :: bool

definition list_templates :: "vault \<Rightarrow> template list" where
  "list_templates v = order_desc tp_updated_at (v_templates v)"

definition hash_of_template :: "admin_env \<Rightarrow> template_in \<Rightarrow> string" where
  "hash_of_template ev t = template_hash_of (ae_crypto ev) (ti_subject t) (ti_from_name t) (ti_html_body t)"

definition new_template :: "admin_env \<Rightarrow> template_in \<Rightarrow> vault \<Rightarrow> template" where
  "new_template ev t v =
     \<lparr>tp_id = auto_id ev ''templates'' tp_id (v_templates v), tp_name = ti_name t, tp_subject = ti_subject t, tp_from_name = ti_from_name t,
      tp_html_body = ti_html_body t, tp_text_body = ti_text_body t, tp_template_hash = hash_of_template ev t,
      tp_tracking_enabled = (if ti_tracking_enabled t then 1 else 0), tp_created_at = sql_time (ae_now ev), tp_updated_at = sql_time (ae_now ev)\<rparr>"

definition create_template :: "admin_env \<Rightarrow> template_in \<Rightarrow> vault \<Rightarrow> (int \<times> string) admin_result" where
  "create_template ev t v =
     (let row = new_template ev t v in
      if ti_name t \<in> tp_name ` set (v_templates v) then Inl (HttpError 409 ''template name already exists'')
      else Inr (by_operator ev ''template.created'' (named ''template'' (tp_id row)) [] (v\<lparr>v_templates := v_templates v @ [row]\<rparr>),
                (tp_id row, tp_template_hash row)))"

definition write_template :: "admin_env \<Rightarrow> template_in \<Rightarrow> template \<Rightarrow> template" where
  "write_template ev t row =
     row\<lparr>tp_name := ti_name t, tp_subject := ti_subject t, tp_from_name := ti_from_name t, tp_html_body := ti_html_body t,
         tp_text_body := ti_text_body t, tp_template_hash := hash_of_template ev t,
         tp_tracking_enabled := (if ti_tracking_enabled t then 1 else 0), tp_updated_at := sql_time (ae_now ev)\<rparr>"

definition update_template :: "admin_env \<Rightarrow> int \<Rightarrow> template_in \<Rightarrow> vault \<Rightarrow> string admin_result" where
  "update_template ev i t v =
     (let h = hash_of_template ev t in
      if i \<notin> tp_id ` set (v_templates v) then Inl (HttpError 404 ''no such template'')
      else if \<exists>q\<in>set (v_templates v). tp_id q \<noteq> i \<and> tp_name q = ti_name t then Inl (Unhandled ''UNIQUE constraint failed: templates.name'')
      else Inr (by_operator ev ''template.updated'' (named ''template'' i) [(''new_hash'', JStr h)]
                  (v\<lparr>v_templates := update_where (\<lambda>r. tp_id r = i) (write_template ev t) (v_templates v)\<rparr>), h))"

text \<open>A campaign keeps its template by the check, a stage by the foreign key.\<close>

definition delete_template :: "admin_env \<Rightarrow> int \<Rightarrow> vault \<Rightarrow> unit admin_result" where
  "delete_template ev i v =
     (if i \<notin> tp_id ` set (v_templates v) then Inl (HttpError 404 ''no such template'')
      else if i \<in> ca_template_id ` set (v_campaigns v) then Inl (HttpError 409 ''template is referenced by one or more campaigns'')
      else if i \<in> sg_template_id ` set (v_stages v) then Inl (Unhandled ''FOREIGN KEY constraint failed'')
      else Inr (by_operator ev ''template.deleted'' (named ''template'' i) []
                  (v\<lparr>v_templates := filter (\<lambda>r. tp_id r \<noteq> i) (v_templates v)\<rparr>), ()))"

definition selected :: "('r \<Rightarrow> int) \<Rightarrow> string option \<Rightarrow> 'r list \<Rightarrow> 'r list" where
  "selected rid ids rows =
     sort_key rid (case ids of None \<Rightarrow> rows | Some [] \<Rightarrow> rows | Some s \<Rightarrow> filter (\<lambda>r. rid r \<in> set (id_list s)) rows)"

definition text_json :: "string option \<Rightarrow> json" where
  "text_json s = (case s of None \<Rightarrow> JNull | Some t \<Rightarrow> JStr t)"

definition template_json :: "template \<Rightarrow> json" where
  "template_json t =
     JObj [(''name'', JStr (tp_name t)), (''subject'', JStr (tp_subject t)), (''from_name'', JStr (tp_from_name t)),
           (''html_body'', JStr (tp_html_body t)), (''text_body'', text_json (tp_text_body t)),
           (''tracking_enabled'', JInt (tp_tracking_enabled t))]"

text \<open>The JSON value of the file; its text is that of \<open>json.dumps\<close>.\<close>

definition export_templates :: "string option \<Rightarrow> vault \<Rightarrow> json \<times> string" where
  "export_templates ids v =
     (JArr (map template_json (selected tp_id ids (v_templates v))), if truthy ids then ''templates-selected.json'' else ''templates.json'')"

record bulk_result =
  bi_imported :: nat
  bi_skipped :: nat
  bi_errors :: "string list"

text \<open>The fields of an item as the request model reads them: a missing field has its default; \<open>flag\<close> is the
  coercion of the request model to a bool.\<close>

definition json_text :: "string \<Rightarrow> string \<Rightarrow> json \<Rightarrow> string option" where
  "json_text k d j = (case jitem k j of None \<Rightarrow> Some d | Some (JStr s) \<Rightarrow> Some s | _ \<Rightarrow> None)"

definition json_opt_text :: "string \<Rightarrow> json \<Rightarrow> string option option" where
  "json_opt_text k j = (case jitem k j of None \<Rightarrow> Some None | Some JNull \<Rightarrow> Some None | Some (JStr s) \<Rightarrow> Some (Some s) | _ \<Rightarrow> None)"

definition json_flag :: "(json \<Rightarrow> bool option) \<Rightarrow> string \<Rightarrow> json \<Rightarrow> bool option" where
  "json_flag flag k j = (case jitem k j of None \<Rightarrow> Some True | Some x \<Rightarrow> flag x)"

definition read_template :: "(json \<Rightarrow> bool option) \<Rightarrow> json \<Rightarrow> template_in option" where
  "read_template flag j =
     (case (jitem ''name'' j, jitem ''subject'' j, json_text ''from_name'' [] j, json_text ''html_body'' [] j, json_opt_text ''text_body'' j,
            json_flag flag ''tracking_enabled'' j) of
        (Some (JStr n), Some (JStr s), Some f, Some h, Some t, Some k) \<Rightarrow>
          Some \<lparr>ti_name = n, ti_subject = s, ti_from_name = f, ti_html_body = h, ti_text_body = t, ti_tracking_enabled = k\<rparr>
      | _ \<Rightarrow> None)"

text \<open>One item: a name that exists is skipped, every other failure is an error of the item. \<open>why\<close> is the text of the error.\<close>

fun bulk_items ::
  "(json \<Rightarrow> 'x option) \<Rightarrow> ('x \<Rightarrow> vault \<Rightarrow> 'b admin_result) \<Rightarrow> (json \<Rightarrow> string) \<Rightarrow> nat \<Rightarrow> json list \<Rightarrow> vault \<Rightarrow> bulk_result \<Rightarrow> vault \<times> bulk_result" where
  "bulk_items rd mk why i [] v b = (v, b)"
| "bulk_items rd mk why i (j # js) v b =
     (let failed = (\<lambda>e. b\<lparr>bi_errors := bi_errors b @ [''item '' @ dec i @ '': '' @ e]\<rparr>) in
      case rd j of
        None \<Rightarrow> bulk_items rd mk why (Suc i) js v (failed (why j))
      | Some x \<Rightarrow>
          (case mk x v of
             Inr (v1, _) \<Rightarrow> bulk_items rd mk why (Suc i) js v1 (b\<lparr>bi_imported := bi_imported b + 1\<rparr>)
           | Inl (HttpError st m) \<Rightarrow>
               bulk_items rd mk why (Suc i) js v (if st = 409 then b\<lparr>bi_skipped := bi_skipped b + 1\<rparr> else failed m)
           | Inl (Unhandled m) \<Rightarrow> bulk_items rd mk why (Suc i) js v (failed m)))"

definition items_of :: "json \<Rightarrow> json list" where
  "items_of j = (case j of JArr js \<Rightarrow> js | _ \<Rightarrow> [j])"

definition bulk_import ::
  "(json \<Rightarrow> 'x option) \<Rightarrow> ('x \<Rightarrow> vault \<Rightarrow> 'b admin_result) \<Rightarrow> (json \<Rightarrow> string) \<Rightarrow> string + json \<Rightarrow> vault \<Rightarrow> bulk_result admin_result" where
  "bulk_import rd mk why body v =
     (case body of
        Inl e \<Rightarrow> Inl (HttpError 400 (''JSON parse error: '' @ e))
      | Inr j \<Rightarrow> Inr (bulk_items rd mk why 0 (items_of j) v \<lparr>bi_imported = 0, bi_skipped = 0, bi_errors = []\<rparr>))"

definition bulk_import_templates :: "admin_env \<Rightarrow> (json \<Rightarrow> bool option) \<Rightarrow> (json \<Rightarrow> string) \<Rightarrow> string + json \<Rightarrow> vault \<Rightarrow> bulk_result admin_result" where
  "bulk_import_templates ev flag why body v = bulk_import (read_template flag) (create_template ev) why body v"

section \<open>Companies\<close>

record entity_in =
  ei_name :: string
  ei_domain :: string
  ei_from_name :: string
  ei_from_email :: string
  ei_footer_address :: "string option"
  ei_support_email :: "string option"
  ei_public_host :: "string option"

text \<open>The request model refuses a blank name (422 of the framework).\<close>

definition entity_in_ok :: "entity_in \<Rightarrow> bool" where
  "entity_in_ok b \<longleftrightarrow> strip (ei_name b) \<noteq> []"

definition new_entity :: "admin_env \<Rightarrow> entity_in \<Rightarrow> vault \<Rightarrow> entity" where
  "new_entity ev b v =
     \<lparr>en_id = auto_id ev ''entities'' en_id (v_entities v), en_name = ei_name b, en_domain = ei_domain b, en_from_name = ei_from_name b,
      en_from_email = ei_from_email b, en_resend_key_enc = None, en_created_at = sql_time (ae_now ev), en_updated_at = sql_time (ae_now ev),
      en_footer_address = ei_footer_address b, en_support_email = ei_support_email b, en_public_host = ei_public_host b\<rparr>"

text \<open>What a listing shows of a company: that a key is set, never the key.\<close>

definition entity_row :: "entity \<Rightarrow> json" where
  "entity_row e =
     JObj [(''id'', JInt (en_id e)), (''name'', JStr (en_name e)), (''domain'', JStr (en_domain e)), (''from_name'', JStr (en_from_name e)),
           (''from_email'', JStr (en_from_email e)), (''key_set'', JBool (truthy (en_resend_key_enc e))),
           (''created_at'', JStr (en_created_at e)), (''updated_at'', JStr (en_updated_at e))]"

definition entity_of :: "int \<Rightarrow> vault \<Rightarrow> entity option" where
  "entity_of i v = find (\<lambda>e. en_id e = i) (v_entities v)"

definition list_entities :: "vault \<Rightarrow> json list" where
  "list_entities v = map entity_row (sort_key en_name (v_entities v))"

definition get_entity :: "int \<Rightarrow> vault \<Rightarrow> admin_error + json" where
  "get_entity i v = (case entity_of i v of None \<Rightarrow> Inl (HttpError 404 ''no such company'') | Some e \<Rightarrow> Inr (entity_row e))"

definition create_entity :: "admin_env \<Rightarrow> entity_in \<Rightarrow> vault \<Rightarrow> int admin_result" where
  "create_entity ev b v =
     (let row = new_entity ev b v in
      if ei_name b \<in> en_name ` set (v_entities v) then Inl (HttpError 409 ''entity name already exists'')
      else Inr (by_operator ev ''entity.created'' (named ''entity'' (en_id row)) [] (v\<lparr>v_entities := v_entities v @ [row]\<rparr>), en_id row))"

definition write_entity :: "admin_env \<Rightarrow> entity_in \<Rightarrow> entity \<Rightarrow> entity" where
  "write_entity ev b e =
     e\<lparr>en_name := ei_name b, en_domain := ei_domain b, en_from_name := ei_from_name b, en_from_email := ei_from_email b,
       en_footer_address := ei_footer_address b, en_support_email := ei_support_email b, en_public_host := ei_public_host b,
       en_updated_at := sql_time (ae_now ev)\<rparr>"

definition update_entity :: "admin_env \<Rightarrow> int \<Rightarrow> entity_in \<Rightarrow> vault \<Rightarrow> unit admin_result" where
  "update_entity ev i b v =
     (if i \<notin> en_id ` set (v_entities v) then Inl (HttpError 404 ''no such entity'')
      else if \<exists>e\<in>set (v_entities v). en_id e \<noteq> i \<and> en_name e = ei_name b then Inl (Unhandled ''UNIQUE constraint failed: entities.name'')
      else Inr (by_operator ev ''entity.updated'' (named ''entity'' i) []
                  (v\<lparr>v_entities := update_where (\<lambda>e. en_id e = i) (write_entity ev b) (v_entities v)\<rparr>), ()))"

text \<open>\<open>enc\<close> is the encryption of settings.py at rest.\<close>

definition write_key :: "admin_env \<Rightarrow> int \<Rightarrow> string option \<Rightarrow> vault \<Rightarrow> vault" where
  "write_key ev i key v =
     v\<lparr>v_entities := update_where (\<lambda>e. en_id e = i) (\<lambda>e. e\<lparr>en_resend_key_enc := key, en_updated_at := sql_time (ae_now ev)\<rparr>) (v_entities v)\<rparr>"

definition set_entity_key :: "admin_env \<Rightarrow> (string \<Rightarrow> exc + string) \<Rightarrow> int \<Rightarrow> string \<Rightarrow> vault \<Rightarrow> unit admin_result" where
  "set_entity_key ev enc i key v =
     (if i \<notin> en_id ` set (v_entities v) then Inl (HttpError 404 ''no such company'')
      else
        (case enc key of
           Inl e \<Rightarrow> Inl (Unhandled ''encrypt'')
         | Inr c \<Rightarrow> Inr (by_operator ev ''entity.key_set'' (named ''company'' i) [] (write_key ev i (Some c) v), ())))"

definition clear_entity_key :: "admin_env \<Rightarrow> int \<Rightarrow> vault \<Rightarrow> unit admin_result" where
  "clear_entity_key ev i v =
     (if i \<notin> en_id ` set (v_entities v) then Inl (HttpError 404 ''no such company'')
      else Inr (by_operator ev ''company.key_cleared'' (named ''company'' i) [] (write_key ev i None v), ()))"

definition delete_company :: "admin_env \<Rightarrow> int \<Rightarrow> vault \<Rightarrow> unit admin_result" where
  "delete_company ev i v =
     (if i \<notin> en_id ` set (v_entities v) then Inl (HttpError 404 ''no such company'')
      else Inr (by_operator ev ''entity.deleted'' (named ''company'' i) []
                  (v\<lparr>v_campaigns := update_where (\<lambda>c. ca_entity_id c = Some i) (\<lambda>c. c\<lparr>ca_entity_id := None\<rparr>) (v_campaigns v),
                     v_entities := filter (\<lambda>e. en_id e \<noteq> i) (v_entities v)\<rparr>), ()))"

definition entity_json :: "entity \<Rightarrow> json" where
  "entity_json e =
     JObj [(''name'', JStr (en_name e)), (''domain'', JStr (en_domain e)), (''from_name'', JStr (en_from_name e)),
           (''from_email'', JStr (en_from_email e)), (''footer_address'', text_json (en_footer_address e)),
           (''support_email'', text_json (en_support_email e)), (''public_host'', text_json (en_public_host e))]"

definition export_entities :: "string option \<Rightarrow> vault \<Rightarrow> json \<times> string" where
  "export_entities ids v =
     (JArr (map entity_json (selected en_id ids (v_entities v))), if truthy ids then ''entities-selected.json'' else ''entities.json'')"

definition read_entity :: "json \<Rightarrow> entity_in option" where
  "read_entity j =
     (case (jitem ''name'' j, jitem ''domain'' j, json_text ''from_name'' [] j, json_text ''from_email'' [] j, json_opt_text ''footer_address'' j,
            json_opt_text ''support_email'' j, json_opt_text ''public_host'' j) of
        (Some (JStr n), Some (JStr d), Some f, Some m, Some a, Some s, Some h) \<Rightarrow>
          (let b = \<lparr>ei_name = n, ei_domain = d, ei_from_name = f, ei_from_email = m, ei_footer_address = a, ei_support_email = s, ei_public_host = h\<rparr>
           in if entity_in_ok b then Some b else None)
      | _ \<Rightarrow> None)"

definition bulk_import_entities :: "admin_env \<Rightarrow> (json \<Rightarrow> string) \<Rightarrow> string + json \<Rightarrow> vault \<Rightarrow> bulk_result admin_result" where
  "bulk_import_entities ev why body v = bulk_import read_entity (create_entity ev) why body v"

section \<open>Operators\<close>

text \<open>The role of a session decides; a token without a role counts as an admin's.\<close>

definition require_admin_role :: "json \<Rightarrow> admin_error + unit" where
  "require_admin_role session =
     (if (case jitem ''role'' session of None \<Rightarrow> True | Some r \<Rightarrow> r = JStr ''admin'') then Inr () else Inl (HttpError 403 ''admin role required''))"

text \<open>A listing never shows the hash of a password.\<close>

definition list_operators :: "vault \<Rightarrow> (int \<times> string \<times> string \<times> int \<times> string \<times> string option) list" where
  "list_operators v =
     map (\<lambda>q. (op_id q, op_email q, op_role q, op_active q, op_created_at q, op_last_login_at q)) (sort_key op_id (v_operators v))"

text \<open>\<open>hashed\<close> is the bcrypt hash of the password.\<close>

definition create_operator :: "admin_env \<Rightarrow> string \<Rightarrow> string \<Rightarrow> string \<Rightarrow> vault \<Rightarrow> int admin_result" where
  "create_operator ev email hashed role v =
     (let e = lower (strip email); i = auto_id ev ''operators'' op_id (v_operators v) in
      if role \<notin> {''admin'', ''operator''} then Inl (HttpError 400 ''role must be admin or operator'')
      else if e \<in> op_email ` set (v_operators v) then Inl (HttpError 409 ''email already exists'')
      else Inr (by_operator ev ''operator.created'' (named ''operator'' i) []
                  (v\<lparr>v_operators := v_operators v @ [\<lparr>op_id = i, op_email = e, op_password_hash = hashed, op_role = role,
                     op_created_at = sql_time (ae_now ev), op_last_login_at = None, op_active = 1\<rparr>]\<rparr>), i))"

definition toggle_operator_active :: "admin_env \<Rightarrow> int \<Rightarrow> vault \<Rightarrow> int admin_result" where
  "toggle_operator_active ev i v =
     (case find (\<lambda>q. op_id q = i) (v_operators v) of
        None \<Rightarrow> Inl (HttpError 404 ''no such operator'')
      | Some row \<Rightarrow>
          (let new_state = (if op_active row \<noteq> 0 then 0 else 1) in
           Inr (by_operator ev ''operator.toggled'' (named ''operator'' i) [(''active'', JInt new_state)]
                  (v\<lparr>v_operators := update_where (\<lambda>q. op_id q = i) (\<lambda>q. q\<lparr>op_active := new_state\<rparr>) (v_operators v)\<rparr>), new_state)))"

definition delete_operator :: "admin_env \<Rightarrow> int \<Rightarrow> vault \<Rightarrow> unit admin_result" where
  "delete_operator ev i v =
     (if i \<notin> op_id ` set (v_operators v) then Inl (HttpError 404 ''no such operator'')
      else Inr (by_operator ev ''operator.deleted'' (named ''operator'' i) []
                  (v\<lparr>v_operators := filter (\<lambda>q. op_id q \<noteq> i) (v_operators v)\<rparr>), ()))"

section \<open>Seed addresses\<close>

definition list_seeds :: "vault \<Rightarrow> seed_address list" where
  "list_seeds v = sort_key sd_id (v_seeds v)"

definition add_seed :: "admin_env \<Rightarrow> string \<Rightarrow> string option \<Rightarrow> vault \<Rightarrow> (seed_address option) admin_result" where
  "add_seed ev given provider v =
     (let email = lower (strip given);
          v1 = v\<lparr>v_seeds := insert_or_ignore sd_email
             \<lparr>sd_id = auto_id ev ''seed_addresses'' sd_id (v_seeds v), sd_email = email, sd_provider = provider, sd_active = 1,
              sd_created_at = sql_time (ae_now ev)\<rparr> (v_seeds v)\<rparr>
      in if CHR ''@'' \<notin> set email then Inl (HttpError 400 ''invalid email'') else Inr (v1, find (\<lambda>s. sd_email s = email) (v_seeds v1)))"

definition toggle_seed :: "int \<Rightarrow> vault \<Rightarrow> seed_address admin_result" where
  "toggle_seed i v =
     (let v1 = v\<lparr>v_seeds := update_where (\<lambda>s. sd_id s = i) (\<lambda>s. s\<lparr>sd_active := 1 - sd_active s\<rparr>) (v_seeds v)\<rparr> in
      case find (\<lambda>s. sd_id s = i) (v_seeds v1) of None \<Rightarrow> Inl (HttpError 404 ''no such seed'') | Some s \<Rightarrow> Inr (v1, s))"

definition delete_seed :: "int \<Rightarrow> vault \<Rightarrow> vault" where
  "delete_seed i v = v\<lparr>v_seeds := filter (\<lambda>s. sd_id s \<noteq> i) (v_seeds v)\<rparr>"

record seed_placement =
  pl_id :: int
  pl_batch_id :: int
  pl_seed_email :: string
  pl_placement :: string
  pl_checked_at :: string
  pl_note :: "string option"

definition placements :: "string list" where
  "placements = [''inbox'', ''spam'', ''promotions'', ''missing'', ''unknown'']"

definition log_placement ::
  "admin_env \<Rightarrow> int \<Rightarrow> string \<Rightarrow> string \<Rightarrow> string option \<Rightarrow> seed_placement list \<Rightarrow> admin_error + seed_placement list" where
  "log_placement ev batch_id seed_email placement note rows =
     (if placement \<notin> set placements then Inl (HttpError 400 ''bad placement'')
      else Inr (rows @ [\<lparr>pl_id = auto_id ev ''seed_placements'' pl_id rows, pl_batch_id = batch_id, pl_seed_email = lower (strip seed_email),
                  pl_placement = placement, pl_checked_at = sql_time (ae_now ev), pl_note = note\<rparr>]))"

end
