(* ===== verification/Admin_Campaigns.thy ===== *)
theory Admin_Campaigns
  imports Admin_Catalog Launch_Campaign
begin

text \<open>
  Campaigns, their recipients, schedule and stages on the admin pages (routes_admin.py): every
  operation that writes a campaign's status outside a launch. \<open>datetime.fromisoformat\<close> is an argument.
\<close>

section \<open>Times\<close>

text \<open>The local reading of a time in seconds of the epoch and its offset to UTC in seconds, if it has one.\<close>

type_synonym iso_reader = "string \<Rightarrow> (rat \<times> rat option) option"

definition year_one :: int where "year_one = - 62135596800"

definition parse_utc_naive :: "iso_reader \<Rightarrow> string \<Rightarrow> rat option" where
  "parse_utc_naive rd value =
     (case rd (strip value) of
        None \<Rightarrow> None
      | Some (t, None) \<Rightarrow> Some t
      | Some (t, Some off) \<Rightarrow> if of_int year_one \<le> t - off \<and> t - off < of_int max_time then Some (t - off) else None)"

definition utc_text :: "rat \<Rightarrow> string" where
  "utc_text t = sql_time \<lfloor>t\<rfloor>"

definition scheduled_for_invalid :: string where
  "scheduled_for_invalid = ''scheduled_for is not a valid date and time. Use ISO 8601, for example 2026-10-12T09:00:00Z; a time without a zone is read as UTC.''"

definition scheduled_for_or_400 :: "iso_reader \<Rightarrow> string option \<Rightarrow> admin_error + string" where
  "scheduled_for_or_400 rd value =
     (case parse_utc_naive rd (opt_or value []) of None \<Rightarrow> Inl (HttpError 400 scheduled_for_invalid) | Some t \<Rightarrow> Inr (utc_text t))"

section \<open>Campaigns\<close>

record campaign_in =
  pi_name :: string
  pi_template_id :: int
  pi_kind :: string
  pi_entity_id :: "int option"
  pi_scheduled_for :: "string option"
  pi_rate_limit_per_min :: "int option"
  pi_bounce_pause_pct :: rat
  pi_human_send :: bool
  pi_human_send_min_s :: int
  pi_human_send_max_s :: int
  pi_human_send_count :: int

definition list_campaigns :: "vault \<Rightarrow> campaign list" where
  "list_campaigns v = order_desc ca_created_at (v_campaigns v)"

definition get_campaign :: "int \<Rightarrow> vault \<Rightarrow> admin_error + campaign \<times> nat" where
  "get_campaign i v =
     (case campaign_of v i of
        None \<Rightarrow> Inl (HttpError 404 ''no such campaign'')
      | Some c \<Rightarrow> Inr (c, rowcount (\<lambda>r. cr_campaign_id r = i) (v_recipients v)))"

text \<open>A row with the defaults of the table.\<close>

definition blank_campaign :: "admin_env \<Rightarrow> vault \<Rightarrow> campaign" where
  "blank_campaign ev v =
     \<lparr>ca_id = auto_id ev ''campaigns'' ca_id (v_campaigns v), ca_name = [], ca_template_id = 0, ca_kind = [], ca_entity_id = None,
      ca_status = ''draft'', ca_test_sent_at = None, ca_template_hash_at_test = None, ca_scheduled_for = None, ca_dispatched_at = None,
      ca_sent_at = None, ca_recipient_count = 0, ca_created_at = sql_time (ae_now ev), ca_updated_at = sql_time (ae_now ev),
      ca_rate_limit_per_min = None, ca_bounce_pause_pct = Some (1/10), ca_human_send = 0, ca_human_send_min_s = 60,
      ca_human_send_max_s = 210, ca_human_send_count = 1, ca_lock_until = None, ca_unsubs_confirmed_at = None,
      ca_lock_duration_s = 86400, ca_relaunch_gen = 0, ca_relaunch_open = 0, ca_relaunch_seq = 0\<rparr>"

definition create_campaign :: "admin_env \<Rightarrow> iso_reader \<Rightarrow> campaign_in \<Rightarrow> vault \<Rightarrow> int admin_result" where
  "create_campaign ev rd b v =
     (if pi_kind b \<notin> {''promotional'', ''transactional''} then Inl (HttpError 400 (''kind must be '' @ quoted ''promotional'' @ '' or '' @ quoted ''transactional''))
      else
      bindE (case pi_scheduled_for b of None \<Rightarrow> Inr None | Some s \<Rightarrow> bindE (scheduled_for_or_400 rd (Some s)) (\<lambda>t. Inr (Some t))) (\<lambda>sf.
      if pi_template_id b \<notin> tp_id ` set (v_templates v) then Inl (HttpError 404 ''no such template'')
      else if (case pi_entity_id b of None \<Rightarrow> False | Some e \<Rightarrow> e \<notin> en_id ` set (v_entities v)) then Inl (HttpError 404 ''no such company'')
      else
        (let c = (blank_campaign ev v)\<lparr>ca_name := pi_name b, ca_template_id := pi_template_id b, ca_kind := pi_kind b, ca_entity_id := pi_entity_id b,
               ca_scheduled_for := sf, ca_status := (if truthy (pi_scheduled_for b) then ''scheduled'' else ''draft''),
               ca_rate_limit_per_min := pi_rate_limit_per_min b, ca_bounce_pause_pct := Some (pi_bounce_pause_pct b),
               ca_human_send := (if pi_human_send b then 1 else 0), ca_human_send_min_s := pi_human_send_min_s b,
               ca_human_send_max_s := pi_human_send_max_s b, ca_human_send_count := pi_human_send_count b\<rparr>
         in Inr (by_operator ev ''campaign.created'' (named ''campaign'' (ca_id c)) [] (v\<lparr>v_campaigns := v_campaigns v @ [c]\<rparr>), ca_id c))))"

definition set_campaign :: "admin_env \<Rightarrow> int \<Rightarrow> (campaign \<Rightarrow> campaign) \<Rightarrow> vault \<Rightarrow> vault" where
  "set_campaign ev i f v =
     v\<lparr>v_campaigns := update_where (\<lambda>c. ca_id c = i) (\<lambda>c. (f c)\<lparr>ca_updated_at := sql_time (ae_now ev)\<rparr>) (v_campaigns v)\<rparr>"

section \<open>Recipients\<close>

definition new_recipient :: "admin_env \<Rightarrow> int \<Rightarrow> int \<Rightarrow> vault \<Rightarrow> recipient" where
  "new_recipient ev i contact v =
     \<lparr>cr_id = auto_id ev ''campaign_recipients'' cr_id (v_recipients v), cr_campaign_id = i, cr_contact_id = contact, cr_message_id = None,
      cr_status = ''queued'', cr_sent_at = None, cr_delivered_at = None, cr_opened_at = None, cr_clicked_at = None, cr_bounced_at = None,
      cr_complained_at = None, cr_failure_reason = None, cr_batch_no = None, cr_is_seed = 0\<rparr>"

definition is_recipient :: "int \<Rightarrow> int \<Rightarrow> vault \<Rightarrow> bool" where
  "is_recipient i contact v \<longleftrightarrow> (\<exists>r\<in>set (v_recipients v). cr_campaign_id r = i \<and> cr_contact_id r = contact)"

text \<open>A pair that exists is passed over; a contact that does not exist stops the statement.\<close>

fun insert_recipients :: "admin_env \<Rightarrow> int \<Rightarrow> int list \<Rightarrow> vault \<Rightarrow> admin_error + vault \<times> nat" where
  "insert_recipients ev i [] v = Inr (v, 0)"
| "insert_recipients ev i (contact # contacts) v =
     (if is_recipient i contact v then insert_recipients ev i contacts v
      else if contact \<notin> ct_id ` set (v_contacts v) then Inl (Unhandled ''FOREIGN KEY constraint failed'')
      else bindE (insert_recipients ev i contacts (v\<lparr>v_recipients := v_recipients v @ [new_recipient ev i contact v]\<rparr>)) (\<lambda>(v1, n). Inr (v1, Suc n)))"

definition count_recipients :: "admin_env \<Rightarrow> int \<Rightarrow> vault \<Rightarrow> vault" where
  "count_recipients ev i v =
     set_campaign ev i (\<lambda>c. c\<lparr>ca_recipient_count := int (rowcount (\<lambda>r. cr_campaign_id r = i) (v_recipients v))\<rparr>) v"

text \<open>\<open>order\<close> is the order in which the set of ids is iterated.\<close>

definition recipient_ids :: "int list option \<Rightarrow> string option \<Rightarrow> vault \<Rightarrow> int set" where
  "recipient_ids contact_ids by_tag v =
     (case contact_ids of None \<Rightarrow> {} | Some ids \<Rightarrow> set ids) \<union>
     (if truthy by_tag
      then ct_id ` set (filter (\<lambda>c. ct_tags c \<noteq> None \<and> strip (the by_tag) \<in> set (split_on CHR ''|'' (the (ct_tags c)))) (v_contacts v))
      else {})"

definition add_recipients ::
  "admin_env \<Rightarrow> (int set \<Rightarrow> int list) \<Rightarrow> int \<Rightarrow> int list option \<Rightarrow> string option \<Rightarrow> vault \<Rightarrow> (nat \<times> nat) admin_result" where
  "add_recipients ev order i contact_ids by_tag v =
     (let ids = recipient_ids contact_ids by_tag v in
      if campaign_of v i = None then Inl (HttpError 404 ''no such campaign'')
      else bindE (insert_recipients ev i (order ids) v) (\<lambda>(v1, n).
        Inr (by_operator ev ''campaign.recipients_added'' (named ''campaign'' i) [(''added'', JInt (int n))] (count_recipients ev i v1), (n, card ids))))"

definition add_contacts_to_campaign :: "admin_env \<Rightarrow> int \<Rightarrow> int list \<Rightarrow> vault \<Rightarrow> (nat \<times> nat) admin_result" where
  "add_contacts_to_campaign ev i contact_ids v =
     (if campaign_of v i = None then Inl (HttpError 404 ''no such campaign'')
      else bindE (insert_recipients ev i contact_ids v) (\<lambda>(v1, n).
        Inr (by_operator ev ''campaign.recipients_added'' (named ''campaign'' i) [(''added'', JInt (int n))] (count_recipients ev i v1),
             (n, rowcount (\<lambda>r. cr_campaign_id r = i) (v_recipients v1)))))"

section \<open>Test, schedule, pause\<close>

definition mark_tested :: "admin_env \<Rightarrow> int \<Rightarrow> vault \<Rightarrow> string admin_result" where
  "mark_tested ev i v =
     (case campaign_of v i of
        None \<Rightarrow> Inl (HttpError 404 ''no such campaign'')
      | Some camp \<Rightarrow>
          (case template_of (ca_template_id camp) v of
             None \<Rightarrow> Inl (Unhandled ''TypeError'')
           | Some tmpl \<Rightarrow>
               Inr (by_operator ev ''campaign.tested'' (named ''campaign'' i) [(''template_hash'', JStr (tp_template_hash tmpl))]
                      (set_campaign ev i (\<lambda>c. c\<lparr>ca_status := (if ca_status c = ''scheduled'' then ''scheduled'' else ''tested''),
                         ca_test_sent_at := Some (sql_time (ae_now ev)), ca_template_hash_at_test := Some (tp_template_hash tmpl)\<rparr>) v),
                    tp_template_hash tmpl)))"

definition schedule_bad_time :: string where
  "schedule_bad_time = ''Enter a valid date and time to launch.''"

definition schedule_past :: string where
  "schedule_past = ''Pick a time in the future. To send now, press Launch.''"

definition schedule_not_tested :: "string \<Rightarrow> string" where
  "schedule_not_tested status = ''Only a tested campaign can be scheduled (this one is '' @ status @ ''). Send a test and mark it tested first.''"

definition schedule_edited :: string where
  "schedule_edited = ''The template was edited after the last test. Send a test and mark the campaign tested again, then schedule it.''"

definition schedule_unfinished :: string where
  "schedule_unfinished = ''This campaign has an unfinished send. Finish it with Re-launch before scheduling it.''"

definition schedule_race :: string where
  "schedule_race = ''The campaign changed while it was being scheduled. Reload the page and try again.''"

definition has_marker :: "int \<Rightarrow> vault \<Rightarrow> bool" where
  "has_marker i v \<longleftrightarrow> (\<exists>b\<in>set (v_batches v). cb_campaign_id b = i \<and> cb_dispatch_started_at b \<noteq> None)"

text \<open>\<open>clock\<close> is the reading the time is compared with.\<close>

definition schedule_campaign :: "admin_env \<Rightarrow> iso_reader \<Rightarrow> rat \<Rightarrow> int \<Rightarrow> string \<Rightarrow> vault \<Rightarrow> string admin_result" where
  "schedule_campaign ev rd clock i value v =
     (case parse_utc_naive rd value of
        None \<Rightarrow> Inl (HttpError 400 schedule_bad_time)
      | Some when \<Rightarrow>
          if when \<le> clock then Inl (HttpError 400 schedule_past)
          else
            (case campaign_of v i of
               None \<Rightarrow> Inl (HttpError 404 ''no such campaign'')
             | Some camp \<Rightarrow>
                 (let sf = utc_text when;
                      free = (\<lambda>c. ca_id c = i \<and> ca_status c = ''tested'' \<and> ca_template_hash_at_test c = ca_template_hash_at_test camp) in
                  if ca_status camp \<noteq> ''tested'' \<or> \<not> truthy (ca_test_sent_at camp) then Inl (HttpError 400 (schedule_not_tested (ca_status camp)))
                  else if map_option tp_template_hash (template_of (ca_template_id camp) v) \<noteq> ca_template_hash_at_test camp
                  then Inl (HttpError 400 schedule_edited)
                  else if ca_relaunch_open camp \<noteq> 0 \<or> has_marker i v then Inl (HttpError 400 schedule_unfinished)
                  else if rowcount free (v_campaigns v) \<noteq> 1 then Inl (HttpError 409 schedule_race)
                  else Inr (by_operator ev ''campaign.scheduled'' (named ''campaign'' i) [(''scheduled_for'', JStr sf)]
                              (v\<lparr>v_campaigns := update_where free (\<lambda>c. c\<lparr>ca_status := ''scheduled'', ca_scheduled_for := Some sf,
                                 ca_updated_at := sql_time (ae_now ev)\<rparr>) (v_campaigns v)\<rparr>), sf))))"

definition clone_campaign :: "admin_env \<Rightarrow> int \<Rightarrow> vault \<Rightarrow> int admin_result" where
  "clone_campaign ev i v =
     (case campaign_of v i of
        None \<Rightarrow> Inl (HttpError 404 ''no such campaign'')
      | Some src \<Rightarrow>
          (let pct = (case ca_bounce_pause_pct src of None \<Rightarrow> 1/10 | Some p \<Rightarrow> if p = 0 then 1/10 else p);
               c = (blank_campaign ev v)\<lparr>ca_name := ca_name src @ '' (copy)'', ca_template_id := ca_template_id src, ca_kind := ca_kind src,
                 ca_entity_id := ca_entity_id src, ca_rate_limit_per_min := ca_rate_limit_per_min src, ca_bounce_pause_pct := Some pct,
                 ca_human_send := ca_human_send src, ca_human_send_min_s := ca_human_send_min_s src,
                 ca_human_send_max_s := ca_human_send_max_s src, ca_human_send_count := ca_human_send_count src\<rparr>
           in Inr (by_operator ev ''campaign.cloned'' (named ''campaign'' (ca_id c)) [(''source'', JInt i)]
                     (v\<lparr>v_campaigns := v_campaigns v @ [c]\<rparr>), ca_id c)))"

definition pause_campaign :: "admin_env \<Rightarrow> int \<Rightarrow> vault \<Rightarrow> unit admin_result" where
  "pause_campaign ev i v =
     (case campaign_of v i of
        None \<Rightarrow> Inl (HttpError 404 ''no such campaign'')
      | Some c \<Rightarrow>
          if ca_status c \<notin> {''scheduled'', ''dispatched'', ''tested''}
          then Inl (HttpError 400 (''cannot pause campaign with status '' @ ae_repr ev (ca_status c)))
          else Inr (by_operator ev ''campaign.paused'' (named ''campaign'' i) [] (set_campaign ev i (\<lambda>c. c\<lparr>ca_status := ''paused''\<rparr>) v), ()))"

definition resume_campaign :: "admin_env \<Rightarrow> int \<Rightarrow> vault \<Rightarrow> string admin_result" where
  "resume_campaign ev i v =
     (case campaign_of v i of
        None \<Rightarrow> Inl (HttpError 404 ''no such campaign'')
      | Some c \<Rightarrow>
          if ca_status c \<noteq> ''paused'' then Inl (HttpError 400 ''campaign is not paused'')
          else
            (let status = (if truthy (ca_test_sent_at c) then ''tested'' else ''draft'') in
             Inr (by_operator ev ''campaign.resumed'' (named ''campaign'' i) [] (set_campaign ev i (\<lambda>c. c\<lparr>ca_status := status\<rparr>) v), status)))"

definition retry_failed :: "admin_env \<Rightarrow> int \<Rightarrow> vault \<Rightarrow> nat admin_result" where
  "retry_failed ev i v =
     (let failed = (\<lambda>r. cr_campaign_id r = i \<and> cr_status r = ''failed''); n = rowcount failed (v_recipients v);
          v1 = v\<lparr>v_recipients := update_where failed (\<lambda>r. r\<lparr>cr_status := ''queued'', cr_failure_reason := None\<rparr>) (v_recipients v)\<rparr>;
          v2 = (if n = 0 then v1 else set_campaign ev i (\<lambda>c. c\<lparr>ca_status := ''tested''\<rparr>) v1)
      in if campaign_of v i = None then Inl (HttpError 404 ''no such campaign'')
         else Inr (by_operator ev ''campaign.retry_failed'' (named ''campaign'' i) [(''reset'', JInt (int n))] v2, n))"

section \<open>Edits\<close>

record campaign_edit =
  ed_name :: "string option"
  ed_entity_id :: "int option"
  ed_rate_limit_per_min :: "int option"
  ed_bounce_pause_pct :: "rat option"
  ed_human_send :: "bool option"
  ed_human_send_min_s :: "int option"
  ed_human_send_max_s :: "int option"
  ed_human_send_count :: "int option"
  ed_scheduled_for :: "string option"

definition edited_columns :: "campaign_edit \<Rightarrow> string list" where
  "edited_columns e =
     map snd (filter fst
       [(ed_name e \<noteq> None, ''name''), (ed_entity_id e \<noteq> None, ''entity_id''), (ed_rate_limit_per_min e \<noteq> None, ''rate_limit_per_min''),
        (ed_bounce_pause_pct e \<noteq> None, ''bounce_pause_pct''), (ed_human_send e \<noteq> None, ''human_send''),
        (ed_human_send_min_s e \<noteq> None, ''human_send_min_s''), (ed_human_send_max_s e \<noteq> None, ''human_send_max_s''),
        (ed_human_send_count e \<noteq> None, ''human_send_count''), (ed_scheduled_for e \<noteq> None, ''scheduled_for'')])"

definition given :: "'a option \<Rightarrow> ('a \<Rightarrow> 'r \<Rightarrow> 'r) \<Rightarrow> 'r \<Rightarrow> 'r" where
  "given x f r = (case x of None \<Rightarrow> r | Some y \<Rightarrow> f y r)"

definition apply_edit :: "campaign_edit \<Rightarrow> string option \<Rightarrow> campaign \<Rightarrow> campaign" where
  "apply_edit e sf c =
     given (ed_name e) (\<lambda>x c. c\<lparr>ca_name := x\<rparr>) (given (ed_entity_id e) (\<lambda>x c. c\<lparr>ca_entity_id := Some x\<rparr>)
       (given (ed_rate_limit_per_min e) (\<lambda>x c. c\<lparr>ca_rate_limit_per_min := Some x\<rparr>)
         (given (ed_bounce_pause_pct e) (\<lambda>x c. c\<lparr>ca_bounce_pause_pct := Some x\<rparr>)
           (given (ed_human_send e) (\<lambda>x c. c\<lparr>ca_human_send := (if x then 1 else 0)\<rparr>)
             (given (ed_human_send_min_s e) (\<lambda>x c. c\<lparr>ca_human_send_min_s := x\<rparr>)
               (given (ed_human_send_max_s e) (\<lambda>x c. c\<lparr>ca_human_send_max_s := x\<rparr>)
                 (given (ed_human_send_count e) (\<lambda>x c. c\<lparr>ca_human_send_count := x\<rparr>)
                   (given sf (\<lambda>x c. c\<lparr>ca_scheduled_for := Some x\<rparr>) c))))))))"

definition edit_campaign :: "admin_env \<Rightarrow> iso_reader \<Rightarrow> int \<Rightarrow> campaign_edit \<Rightarrow> vault \<Rightarrow> bool admin_result" where
  "edit_campaign ev rd i e v =
     bindE (case ed_scheduled_for e of None \<Rightarrow> Inr None | Some s \<Rightarrow> bindE (scheduled_for_or_400 rd (Some s)) (\<lambda>t. Inr (Some t))) (\<lambda>sf.
     if campaign_of v i = None then Inl (HttpError 404 ''no such campaign'')
     else if (case ed_entity_id e of None \<Rightarrow> False | Some x \<Rightarrow> x \<notin> en_id ` set (v_entities v)) then Inl (HttpError 404 ''no such entity'')
     else if edited_columns e = [] then Inr (v, False)
     else Inr (by_operator ev ''campaign.edited'' (named ''campaign'' i) [(''fields'', JArr (map JStr (edited_columns e)))]
                 (set_campaign ev i (apply_edit e sf) v), True))"

section \<open>Stages\<close>

definition stages_of :: "int \<Rightarrow> vault \<Rightarrow> stage list" where
  "stages_of i v = sort_key sg_stage_number (filter (\<lambda>s. sg_campaign_id s = i) (v_stages v))"

definition list_stages :: "int \<Rightarrow> vault \<Rightarrow> admin_error + (stage \<times> string) list" where
  "list_stages i v =
     (if campaign_of v i = None then Inl (HttpError 404 ''no such campaign'')
      else Inr (List.map_filter (\<lambda>s. map_option (\<lambda>t. (s, tp_name t)) (template_of (sg_template_id s) v)) (stages_of i v)))"

definition next_stage_number :: "int \<Rightarrow> vault \<Rightarrow> int" where
  "next_stage_number i v =
     (case map sg_stage_number (filter (\<lambda>s. sg_campaign_id s = i) (v_stages v)) of [] \<Rightarrow> 1 | n # ns \<Rightarrow> fold max ns n + 1)"

definition add_stage :: "admin_env \<Rightarrow> iso_reader \<Rightarrow> int \<Rightarrow> int \<Rightarrow> string \<Rightarrow> string option \<Rightarrow> vault \<Rightarrow> (int \<times> int) admin_result" where
  "add_stage ev rd i template_id scheduled_for note v =
     bindE (scheduled_for_or_400 rd (Some scheduled_for)) (\<lambda>sf.
     if campaign_of v i = None then Inl (HttpError 404 ''no such campaign'')
     else if template_id \<notin> tp_id ` set (v_templates v) then Inl (HttpError 404 ''no such template'')
     else
       (let s = \<lparr>sg_id = auto_id ev ''campaign_stages'' sg_id (v_stages v), sg_campaign_id = i, sg_stage_number = next_stage_number i v,
              sg_template_id = template_id, sg_scheduled_for = sf, sg_status = ''pending'', sg_dispatched_at = None, sg_note = note,
              sg_created_at = sql_time (ae_now ev)\<rparr>
        in Inr (by_operator ev ''campaign.stage_added'' (named ''campaign'' i) [(''stage_id'', JInt (sg_id s))]
                  (v\<lparr>v_stages := v_stages v @ [s]\<rparr>), (sg_id s, sg_stage_number s))))"

definition is_stage :: "int \<Rightarrow> int \<Rightarrow> vault \<Rightarrow> bool" where
  "is_stage i k v \<longleftrightarrow> (\<exists>s\<in>set (v_stages v). sg_id s = k \<and> sg_campaign_id s = i)"

definition update_stage :: "iso_reader \<Rightarrow> int \<Rightarrow> int \<Rightarrow> int \<Rightarrow> string \<Rightarrow> string option \<Rightarrow> vault \<Rightarrow> unit admin_result" where
  "update_stage rd i k template_id scheduled_for note v =
     bindE (scheduled_for_or_400 rd (Some scheduled_for)) (\<lambda>sf.
     if \<not> is_stage i k v then Inl (HttpError 404 ''no such stage'')
     else if template_id \<notin> tp_id ` set (v_templates v) then Inl (Unhandled ''FOREIGN KEY constraint failed'')
     else Inr (v\<lparr>v_stages := update_where (\<lambda>s. sg_id s = k)
                 (\<lambda>s. s\<lparr>sg_template_id := template_id, sg_scheduled_for := sf, sg_note := note\<rparr>) (v_stages v)\<rparr>, ()))"

text \<open>The renumbering, one statement per stage; a number that another stage of the campaign has is refused.\<close>

fun renumber :: "int \<Rightarrow> int \<Rightarrow> int list \<Rightarrow> vault \<Rightarrow> admin_error + vault" where
  "renumber i n [] v = Inr v"
| "renumber i n (k # ks) v =
     (if \<exists>s\<in>set (v_stages v). sg_id s \<noteq> k \<and> sg_campaign_id s = i \<and> sg_stage_number s = n
      then Inl (Unhandled ''UNIQUE constraint failed: campaign_stages'')
      else renumber i (n + 1) ks (v\<lparr>v_stages := update_where (\<lambda>s. sg_id s = k) (\<lambda>s. s\<lparr>sg_stage_number := n\<rparr>) (v_stages v)\<rparr>))"

definition delete_stage :: "int \<Rightarrow> int \<Rightarrow> vault \<Rightarrow> unit admin_result" where
  "delete_stage i k v =
     (let v1 = v\<lparr>v_stages := filter (\<lambda>s. sg_id s \<noteq> k) (v_stages v)\<rparr> in
      if \<not> is_stage i k v then Inl (HttpError 404 ''no such stage'')
      else bindE (renumber i 1 (map sg_id (stages_of i v1)) v1) (\<lambda>v2. Inr (v2, ())))"

end
