(* ===== verification/Admin_Sending.thy ===== *)
theory Admin_Sending
  imports Admin_Campaigns Terminal_Scheduler
begin

text \<open>
  The operations of the admin pages that reach the cloud or the mail service (routes_admin.py): cancel and
  archive, the release of a batch, Re-launch, the test mail and the quick mail, and the read-only views
  of a campaign. What the cloud or the mail service answers is an argument.
\<close>

section \<open>Cancel and archive\<close>

definition live_batch :: "string list" where
  "live_batch = [''pending'', ''scheduled'', ''sending'']"

text \<open>The request to the cloud: \<open>None\<close> when it was not sent, failed or was not answered 200.\<close>

type_synonym 's canceller = "int \<Rightarrow> 's \<Rightarrow> 's \<times> int option"

definition ask_cancel :: "string \<Rightarrow> string option \<Rightarrow> 's canceller \<Rightarrow> int \<Rightarrow> 's \<Rightarrow> 's \<times> int option" where
  "ask_cancel cloud bearer post i s = (if cloud \<noteq> [] \<and> strip (opt_or bearer []) \<noteq> [] then post i s else (s, None))"

definition mark_cancelled :: "admin_env \<Rightarrow> int \<Rightarrow> bool \<Rightarrow> vault \<Rightarrow> vault" where
  "mark_cancelled ev i clear v =
     (let v1 = set_campaign ev i (\<lambda>c. if clear then c\<lparr>ca_status := ''cancelled'', ca_relaunch_open := 0\<rparr> else c\<lparr>ca_status := ''cancelled''\<rparr>) v;
          v2 = v1\<lparr>v_batches := update_where (\<lambda>b. cb_campaign_id b = i \<and> cb_status b \<in> set live_batch) (\<lambda>b. b\<lparr>cb_status := ''cancelled''\<rparr>) (v_batches v1)\<rparr>
      in if clear then v2\<lparr>v_batches := update_where (\<lambda>b. cb_campaign_id b = i) (\<lambda>b. b\<lparr>cb_dispatch_started_at := None\<rparr>) (v_batches v2)\<rparr> else v2)"

text \<open>\<open>meanwhile\<close> is what other tasks do while the request is awaited.\<close>

definition cancel_campaign ::
  "admin_env \<Rightarrow> string \<Rightarrow> string option \<Rightarrow> 's canceller \<Rightarrow> ('s launch_state \<Rightarrow> 's launch_state) \<Rightarrow> int \<Rightarrow> 's launch_state \<Rightarrow> 's launch_state \<times> int" where
  "cancel_campaign ev cloud bearer post meanwhile i st =
     (case ask_cancel cloud bearer post i (ls_cloud st) of
        (s1, reply) \<Rightarrow>
          (let st1 = meanwhile (st\<lparr>ls_cloud := s1\<rparr>); n = (case reply of None \<Rightarrow> 0 | Some n \<Rightarrow> n);
               clear = (reply \<noteq> None \<and> \<not> push_in_flight (ls_pushing st1) i)
           in (on_vault (\<lambda>v. by_operator ev ''campaign.cancelled'' (named ''campaign'' i) [(''packs_cancelled'', JInt n), (''markers_cleared'', JBool clear)]
                 (mark_cancelled ev i clear v)) st1, n)))"

definition campaign_live :: "int \<Rightarrow> campaign \<Rightarrow> vault \<Rightarrow> bool" where
  "campaign_live i c v \<longleftrightarrow>
     ca_relaunch_open c \<noteq> 0 \<or>
     (\<exists>b\<in>set (v_batches v). cb_campaign_id b = i \<and> (cb_status b \<in> set live_batch \<or> cb_dispatch_started_at b \<noteq> None))"

definition archive_campaign ::
  "admin_env \<Rightarrow> string \<Rightarrow> string option \<Rightarrow> 's canceller \<Rightarrow> ('s launch_state \<Rightarrow> 's launch_state) \<Rightarrow> int \<Rightarrow> 's launch_state \<Rightarrow>
     's launch_state \<times> (admin_error + unit)" where
  "archive_campaign ev cloud bearer post meanwhile i st =
     (case campaign_of (ls_vault st) i of
        None \<Rightarrow> (st, Inl (HttpError 404 ''no such campaign''))
      | Some c \<Rightarrow>
          (let st1 = (if campaign_live i c (ls_vault st) then fst (cancel_campaign ev cloud bearer post meanwhile i st) else st) in
           (on_vault (\<lambda>v. by_operator ev ''campaign.archived'' (named ''campaign'' i) [] (set_campaign ev i (\<lambda>c. c\<lparr>ca_status := ''archived''\<rparr>) v)) st1,
            Inr ())))"

section \<open>Re-launch\<close>

definition relaunch_args :: "int option \<Rightarrow> launch_args" where
  "relaunch_args seq = \<lparr>la_actor = ''operator:relaunch'', la_template = None, la_stage = None, la_relaunch = True, la_seq = seq\<rparr>"

definition relaunch_answer :: "launch_error \<Rightarrow> admin_error" where
  "relaunch_answer e =
     (case e of
        RelaunchConflict m \<Rightarrow> HttpError 409 m
      | OtherError m \<Rightarrow> HttpError 500 (''relaunch failed: '' @ m)
      | _ \<Rightarrow> HttpError 400 (error_text e))"

definition relaunch_campaign :: "'s launch_env \<Rightarrow> int \<Rightarrow> int option \<Rightarrow> 's launch_state \<Rightarrow> 's launch_state \<times> (admin_error + launch_summary)" where
  "relaunch_campaign lev i seq st =
     (case launch_campaign lev i (relaunch_args seq) st of
        (st1, Inl e) \<Rightarrow> (st1, Inl (relaunch_answer e))
      | (st1, Inr r) \<Rightarrow> (st1, Inr r))"

section \<open>Batches\<close>

definition list_batches :: "int \<Rightarrow> vault \<Rightarrow> batch list \<times> int option" where
  "list_batches i v =
     (let rows = sort_key cb_batch_no (filter (\<lambda>b. cb_campaign_id b = i) (v_batches v))
      in (rows, map_option cb_batch_no (find (\<lambda>b. cb_status b = ''pending'') rows)))"

definition drained_states :: "string list" where
  "drained_states = [''drained'', ''cooldown'', ''done'']"

text \<open>The gate: the batch is pending, the one before it has drained and its cooldown is over.\<close>

definition approve_gate :: "int \<Rightarrow> int \<Rightarrow> int \<Rightarrow> vault \<Rightarrow> admin_error + batch option" where
  "approve_gate now i no v =
     (case batch_of i no v of
        None \<Rightarrow> Inl (HttpError 404 ''no such batch'')
      | Some b \<Rightarrow>
          if cb_status b \<noteq> ''pending'' then Inl (HttpError 400 (''batch '' @ dec_int no @ '' is '' @ quoted (cb_status b) @ '', not pending''))
          else
            (case batch_of i (no - 1) v of
               None \<Rightarrow> Inr None
             | Some prev \<Rightarrow>
                 if cb_status prev \<notin> set drained_states
                 then Inl (HttpError 400 (''previous batch '' @ dec_int (no - 1) @ '' not drained yet (status '' @ quoted (cb_status prev) @ '')''))
                 else
                   (case cb_approve_unlock_at prev of
                      None \<Rightarrow> Inr (Some prev)
                    | Some unlock \<Rightarrow>
                        if unlock \<noteq> [] \<and> iso now < unlock
                        then Inl (HttpError 400 (''cooldown active - approve-next unlocks at '' @ unlock @ '' UTC''))
                        else Inr (Some prev))))"

definition approve_answer :: "launch_error \<Rightarrow> admin_error" where
  "approve_answer e = (case e of OtherError m \<Rightarrow> Unhandled m | _ \<Rightarrow> HttpError 400 (error_text e))"

definition mark_approved :: "int \<Rightarrow> int \<Rightarrow> int \<Rightarrow> batch option \<Rightarrow> vault \<Rightarrow> vault" where
  "mark_approved now i no prev v =
     (let v1 = v\<lparr>v_batches := update_where (\<lambda>b. cb_campaign_id b = i \<and> cb_batch_no b = no) (\<lambda>b. b\<lparr>cb_approved_at := Some (sql_time now)\<rparr>) (v_batches v)\<rparr>
      in if prev = None then v1
         else v1\<lparr>v_batches := update_where (\<lambda>b. cb_campaign_id b = i \<and> cb_batch_no b = no - 1) (\<lambda>b. b\<lparr>cb_status := ''done''\<rparr>) (v_batches v1)\<rparr>)"

definition approve_batch :: "'s launch_env \<Rightarrow> int \<Rightarrow> int \<Rightarrow> 's launch_state \<Rightarrow> 's launch_state \<times> (admin_error + batch_result)" where
  "approve_batch lev i no st =
     (let now = le_now lev; cr = ll_crypto (le_lib lev) in
      case approve_gate now i no (ls_vault st) of
        Inl e \<Rightarrow> (st, Inl e)
      | Inr prev \<Rightarrow>
          (case dispatch_batch lev i no None st of
             (st1, Inl e) \<Rightarrow> (st1, Inl (approve_answer e))
           | (st1, Inr r) \<Rightarrow>
               (on_vault (\<lambda>v. audit cr (sql_time now) ''operator'' ''batch.approved'' (Some (''campaign:'' @ dec_int i @ '':batch:'' @ dec_int no))
                  (batch_json r) (mark_approved now i no prev v)) st1, Inr r)))"

section \<open>Single mails\<close>

text \<open>What the mail service answers to one mail: a status with the text of the answer and the message id, or an exception.\<close>

datatype mail_answer = MailStatus int string "string option" | MailFailed string

definition send_answer :: "nat \<Rightarrow> mail_answer \<Rightarrow> admin_error + string option" where
  "send_answer shown r =
     (case r of
        MailStatus code text message_id \<Rightarrow> if 400 \<le> code then Inl (HttpError 400 (''Resend rejected: '' @ take shown text)) else Inr message_id
      | MailFailed e \<Rightarrow> Inl (HttpError 500 (''send failed: '' @ e)))"

definition campaign_test_send ::
  "admin_env \<Rightarrow> 's launch_env \<Rightarrow> bytes \<Rightarrow> (string \<times> json \<Rightarrow> mail_answer) \<Rightarrow> int \<Rightarrow> string \<Rightarrow> vault \<Rightarrow> (string option) admin_result" where
  "campaign_test_send ev lev k post i given_to v =
     (let to_email = strip given_to in
      if CHR ''@'' \<notin> set to_email then Inl (HttpError 400 ''invalid email'')
      else
        (case campaign_of v i of
           None \<Rightarrow> Inl (HttpError 404 ''no such campaign'')
         | Some camp \<Rightarrow>
             (case template_of (ca_template_id camp) v of
                None \<Rightarrow> Inl (HttpError 404 ''template not found'')
              | Some tmpl \<Rightarrow>
                  (case build_test_mail lev camp tmpl to_email k v of
                     Inl e \<Rightarrow> Inl (approve_answer e)
                   | Inr mail \<Rightarrow>
                       bindE (send_answer 300 (post mail)) (\<lambda>message_id.
                         Inr (by_operator ev ''campaign.test_sent'' (named ''campaign'' i)
                                [(''template_hash'', JStr (tp_template_hash tmpl)), (''message_id'', text_json message_id)] v, message_id))))))"

record quick_mail =
  qm_to :: string
  qm_subject :: string
  qm_html_body :: string
  qm_entity_id :: "int option"
  qm_from_name :: string
  qm_from_email :: string

text \<open>The key and the From of a quick mail.\<close>

definition quick_sender :: "(string \<Rightarrow> string option) \<Rightarrow> (string \<Rightarrow> exc + string) \<Rightarrow> quick_mail \<Rightarrow> vault \<Rightarrow> admin_error + string \<times> string" where
  "quick_sender conf decrypt m v =
     (let key0 = conf_or conf ''resend_api_key'' []; from0 = conf_or conf ''email_from'' ''noreply@example.com'' in
      case truthy_id (qm_entity_id m) of
        None \<Rightarrow> Inr (key0, from0)
      | Some i \<Rightarrow>
          (case entity_of i v of
             None \<Rightarrow> Inr (key0, from0)
           | Some row \<Rightarrow>
               (let name = py_or (qm_from_name m) (py_or (en_from_name row) (en_name row));
                    email = py_or (qm_from_email m) (py_or (en_from_email row) (''hello@'' @ en_domain row));
                    from = (if name \<noteq> [] then name @ '' <'' @ email @ ''>'' else email)
                in if truthy (en_resend_key_enc row)
                   then (case decrypt (opt_or (en_resend_key_enc row) []) of Inl e \<Rightarrow> Inl (Unhandled ''decrypt'') | Inr key \<Rightarrow> Inr (key, from))
                   else Inr (key0, from))))"

definition quicksend ::
  "(string \<Rightarrow> string option) \<Rightarrow> (string \<Rightarrow> exc + string) \<Rightarrow> (string \<times> json \<Rightarrow> mail_answer) \<Rightarrow> quick_mail \<Rightarrow> vault \<Rightarrow> admin_error + string option" where
  "quicksend conf decrypt post m v =
     (if CHR ''@'' \<notin> set (qm_to m) then Inl (HttpError 400 ''invalid to_email'')
      else if contains (qm_subject m) ''{{'' \<or> contains (qm_html_body m) ''{{''
      then Inl (HttpError 400 ''Quick send does not fill variables - remove every {{...}} from the subject and body'')
      else bindE (quick_sender conf decrypt m v) (\<lambda>(key, from).
        if key = [] then Inl (HttpError 400 ''No Resend API key configured. Set one in Settings or on an Entity.'')
        else send_answer 200 (post (key, JObj [(''from'', JStr from), (''to'', JArr [JStr (qm_to m)]), (''subject'', JStr (qm_subject m)),
               (''html'', JStr (qm_html_body m))]))))"

section \<open>Views\<close>

text \<open>The check of a campaign before a test: every flag with its reason.\<close>

record send_chain =
  tc_template :: "string option"
  tc_entity :: "string option"
  tc_k_temp :: bool
  tc_cloud :: bool
  tc_unsub :: "string option"

definition test_send_chain :: "(string \<Rightarrow> string option) \<Rightarrow> bool \<Rightarrow> bool \<Rightarrow> int \<Rightarrow> vault \<Rightarrow> admin_error + send_chain" where
  "test_send_chain conf k_file bearer_file i v =
     (case campaign_of v i of
        None \<Rightarrow> Inl (HttpError 404 ''no such campaign'')
      | Some camp \<Rightarrow>
          Inr \<lparr>tc_template =
                 (case template_of (ca_template_id camp) v of
                    None \<Rightarrow> Some ''template not found''
                  | Some t \<Rightarrow> if tp_html_body t = [] then Some ''template has no html_body'' else None),
               tc_entity =
                 (case ca_entity_id camp of
                    None \<Rightarrow> Some ''no entity_id set on campaign''
                  | Some e \<Rightarrow>
                      (case entity_of e v of
                         None \<Rightarrow> Some (''entity '' @ dec_int e @ '' not found'')
                       | Some row \<Rightarrow>
                           if truthy (en_resend_key_enc row) then None
                           else Some (''entity '' @ quoted (en_name row) @ '' has no Resend API key''))),
               tc_k_temp = k_file, tc_cloud = bearer_file,
               tc_unsub =
                 (let host = conf_or conf ''public_host'' [] in
                  if bearer_file \<and> host \<noteq> [] then None
                  else if host = [] then Some ''public_host not set in settings''
                  else Some (''cloud unreachable - unsub links won'' @ [CHR 0x27] @ ''t resolve''))\<rparr>)"

record schedule_entry =
  sv_campaign :: campaign
  sv_template_name :: "string option"
  sv_entity_name :: "string option"

definition schedule_entry_of :: "vault \<Rightarrow> campaign \<Rightarrow> schedule_entry" where
  "schedule_entry_of v c =
     \<lparr>sv_campaign = c, sv_template_name = map_option tp_name (template_of (ca_template_id c) v),
      sv_entity_name = Option.bind (ca_entity_id c) (\<lambda>e. map_option en_name (entity_of e v))\<rparr>"

definition dispatched_desc :: "vault \<Rightarrow> campaign list" where
  "dispatched_desc v = order_desc (\<lambda>c. case ca_dispatched_at c of None \<Rightarrow> [] | Some t \<Rightarrow> t) (filter (\<lambda>c. ca_status c = ''dispatched'') (v_campaigns v))"

text \<open>The four lists of the schedule page; \<open>parsed\<close> is \<open>datetime(x)\<close> of SQLite, NULL first.\<close>

definition get_schedule ::
  "(string \<Rightarrow> string option) \<Rightarrow> int \<Rightarrow> vault \<Rightarrow>
     schedule_entry list \<times> (schedule_entry \<times> nat \<times> nat) list \<times> schedule_entry list \<times> schedule_entry list" where
  "get_schedule parsed now v =
     (let e = schedule_entry_of v;
          having = (\<lambda>c sts. rowcount (\<lambda>r. cr_campaign_id r = ca_id c \<and> cr_status r \<in> set sts) (v_recipients v))
      in (map e (sort_key (\<lambda>c. case Option.bind (ca_scheduled_for c) parsed of None \<Rightarrow> [] | Some t \<Rightarrow> t)
                   (filter (\<lambda>c. ca_status c = ''scheduled'') (v_campaigns v))),
          map (\<lambda>c. (e c, having c [''queued''], having c [''sent'', ''opened'', ''clicked''])) (take 10 (dispatched_desc v)),
          map e (order_desc ca_updated_at (filter (\<lambda>c. ca_status c = ''paused'') (v_campaigns v))),
          map e (take 20 (filter (\<lambda>c. case ca_dispatched_at c of None \<Rightarrow> False | Some t \<Rightarrow> sql_time (now - 604800) \<le> t) (dispatched_desc v)))))"

record campaign_figures =
  cf_total :: nat
  cf_sent :: nat
  cf_failed :: nat
  cf_queued :: nat
  cf_opened :: nat
  cf_clicked :: nat
  cf_bounced :: nat
  cf_complained :: nat

definition handed_over :: "string list" where
  "handed_over = [''sent'', ''delivered'', ''opened'', ''clicked'']"

text \<open>\<open>pct n sent\<close> is the text of a share (rounded by the language's floats).\<close>

definition campaign_analytics_data ::
  "(nat \<Rightarrow> nat \<Rightarrow> string) \<Rightarrow> int \<Rightarrow> vault \<Rightarrow> admin_error + campaign \<times> campaign_figures \<times> string list \<times> (recipient \<times> contact option) list" where
  "campaign_analytics_data pct i v =
     (case campaign_of v i of
        None \<Rightarrow> Inl (HttpError 404 ''no such campaign'')
      | Some camp \<Rightarrow>
          (let rows = filter (\<lambda>r. cr_campaign_id r = i) (v_recipients v); n = (\<lambda>p. rowcount p rows);
               f = \<lparr>cf_total = length rows, cf_sent = n (\<lambda>r. cr_status r \<in> set handed_over), cf_failed = n (\<lambda>r. cr_status r = ''failed''),
                    cf_queued = n (\<lambda>r. cr_status r = ''queued''), cf_opened = n (\<lambda>r. cr_opened_at r \<noteq> None),
                    cf_clicked = n (\<lambda>r. cr_clicked_at r \<noteq> None), cf_bounced = n (\<lambda>r. cr_bounced_at r \<noteq> None),
                    cf_complained = n (\<lambda>r. cr_complained_at r \<noteq> None)\<rparr>;
               share = (\<lambda>k. if cf_sent f = 0 then ''-'' else pct k (cf_sent f))
           in Inr (camp, f, map share [cf_opened f, cf_clicked f, cf_bounced f, cf_complained f],
                   map (\<lambda>r. (r, find (\<lambda>c. ct_id c = cr_contact_id r) (v_contacts v))) (sort_key cr_id rows))))"

end
