(* ===== verification/Csv_Text.thy ===== *)
theory Csv_Text
  imports Py_Text
begin

text \<open>
  The text format of the contact export (routes_admin.py \<open>export_contacts\<close>) and the reader of the
  import (\<open>csv.reader\<close> with its default dialect over the lines of a text): every table the export
  writes is read back.
\<close>

section \<open>The reader\<close>

text \<open>The states of the parser between two characters, with the fields of the row and the field so far.\<close>

datatype csv_state = StartRecord | StartField | InField | InQuoted | QuoteInQuoted | EatNewline

record csv_parser =
  cp_state :: csv_state
  cp_fields :: "string list"
  cp_field :: string

definition csv_start :: csv_parser where
  "csv_start = \<lparr>cp_state = StartRecord, cp_fields = [], cp_field = []\<rparr>"

definition save_field :: "csv_state \<Rightarrow> csv_parser \<Rightarrow> csv_parser" where
  "save_field s p = \<lparr>cp_state = s, cp_fields = cp_fields p @ [cp_field p], cp_field = []\<rparr>"

definition add_char :: "csv_state \<Rightarrow> char \<Rightarrow> csv_parser \<Rightarrow> csv_parser" where
  "add_char s c p = p\<lparr>cp_state := s, cp_field := cp_field p @ [c]\<rparr>"

definition newline_char :: "char \<Rightarrow> bool" where
  "newline_char c \<longleftrightarrow> c = CHR 0x0A \<or> c = CHR 0x0D"

definition csv_dquote :: char where "csv_dquote = CHR 0x22"

text \<open>One character; \<open>None\<close> is \<open>csv.Error\<close> (a line break inside a line that is not quoted).\<close>

definition in_start_field :: "char \<Rightarrow> csv_parser \<Rightarrow> csv_parser" where
  "in_start_field c p =
     (if newline_char c then save_field EatNewline p
      else if c = csv_dquote then p\<lparr>cp_state := InQuoted\<rparr>
      else if c = CHR '','' then save_field StartField p
      else add_char InField c p)"

definition csv_char :: "char \<Rightarrow> csv_parser \<Rightarrow> csv_parser option" where
  "csv_char c p =
     (case cp_state p of
        StartRecord \<Rightarrow> Some (if newline_char c then p\<lparr>cp_state := EatNewline\<rparr> else in_start_field c p)
      | StartField \<Rightarrow> Some (in_start_field c p)
      | InField \<Rightarrow>
          Some (if newline_char c then save_field EatNewline p
                else if c = CHR '','' then save_field StartField p
                else add_char InField c p)
      | InQuoted \<Rightarrow> Some (if c = csv_dquote then p\<lparr>cp_state := QuoteInQuoted\<rparr> else add_char InQuoted c p)
      | QuoteInQuoted \<Rightarrow>
          Some (if c = csv_dquote then add_char InQuoted c p
                else if c = CHR '','' then save_field StartField p
                else if newline_char c then save_field EatNewline p
                else add_char InField c p)
      | EatNewline \<Rightarrow> if newline_char c then Some p else None)"

text \<open>The end of a line: the row is complete when the state is \<open>StartRecord\<close>.\<close>

definition csv_eol :: "csv_parser \<Rightarrow> csv_parser" where
  "csv_eol p =
     (case cp_state p of
        StartRecord \<Rightarrow> p
      | StartField \<Rightarrow> save_field StartRecord p
      | InField \<Rightarrow> save_field StartRecord p
      | InQuoted \<Rightarrow> p
      | QuoteInQuoted \<Rightarrow> save_field StartRecord p
      | EatNewline \<Rightarrow> p\<lparr>cp_state := StartRecord\<rparr>)"

fun csv_line :: "string \<Rightarrow> csv_parser \<Rightarrow> csv_parser option" where
  "csv_line [] p = Some (csv_eol p)"
| "csv_line (c # cs) p = Option.bind (csv_char c p) (csv_line cs)"

text \<open>The lines of a text with their line feeds.\<close>

fun text_lines :: "string \<Rightarrow> string list" where
  "text_lines [] = []"
| "text_lines (c # cs) =
     (if c = CHR 0x0A then [c] # text_lines cs
      else (case text_lines cs of [] \<Rightarrow> [[c]] | l # ls \<Rightarrow> (c # l) # ls))"

fun csv_rows :: "string list \<Rightarrow> csv_parser \<Rightarrow> string list list option" where
  "csv_rows [] p =
     Some (if cp_field p \<noteq> [] \<or> cp_state p = InQuoted then [cp_fields p @ [cp_field p]] else [])"
| "csv_rows (l # ls) p =
     (case csv_line l p of
        None \<Rightarrow> None
      | Some q \<Rightarrow>
          if cp_state q = StartRecord then map_option ((#) (cp_fields q)) (csv_rows ls csv_start) else csv_rows ls q)"

definition csv_reader :: "string \<Rightarrow> string list list option" where
  "csv_reader s = csv_rows (text_lines s) csv_start"

section \<open>The export\<close>

definition csv_quote :: "string \<Rightarrow> string" where
  "csv_quote v = csv_dquote # concat (map (\<lambda>c. if c = csv_dquote then [c, c] else [c]) v) @ [csv_dquote]"

definition csv_text :: "string list \<Rightarrow> string list list \<Rightarrow> string" where
  "csv_text header rows = join [CHR 0x0A] (join '','' header # map (\<lambda>r. join '','' (map csv_quote r)) rows)"

section \<open>The reader, character by character\<close>

definition csv_finish :: "csv_parser \<Rightarrow> (csv_parser \<Rightarrow> string list list option) \<Rightarrow> string list list option" where
  "csv_finish q rest = (if cp_state q = StartRecord then map_option ((#) (cp_fields q)) (rest csv_start) else rest q)"

fun csv_flat :: "bool \<Rightarrow> string \<Rightarrow> csv_parser \<Rightarrow> string list list option" where
  "csv_flat begun [] p = (if begun then csv_finish (csv_eol p) (csv_rows []) else csv_rows [] p)"
| "csv_flat begun (c # cs) p =
     Option.bind (csv_char c p)
       (\<lambda>q. if c = CHR 0x0A then csv_finish (csv_eol q) (csv_flat False cs) else csv_flat True cs q)"

lemma csv_rows_step: "csv_rows ((c # l) # ls) p = Option.bind (csv_char c p) (csv_rows (l # ls))"
  by (cases "csv_char c p") simp_all

lemma csv_rows_eol: "csv_rows ([] # ls) = (\<lambda>p. csv_finish (csv_eol p) (csv_rows ls))"
  by (rule ext) (simp add: csv_finish_def)

lemma csv_rows_flat:
  "csv_rows (text_lines s) p = csv_flat False s p \<and>
   csv_flat True s p = (case text_lines s of [] \<Rightarrow> csv_rows [[]] p | l # ls \<Rightarrow> csv_rows (l # ls) p)"
proof (induction s arbitrary: p)
  case Nil
  then show ?case by (simp add: csv_rows_eol del: csv_rows.simps)
next
  case (Cons c cs)
  have step: "csv_rows (text_lines (c # cs)) p = csv_flat b (c # cs) p" for b
  proof (cases "c = CHR 0x0A")
    case True
    have "csv_rows (text_lines cs) = csv_flat False cs" using Cons.IH by (intro ext) simp
    with True show ?thesis by (simp add: csv_rows_step csv_rows_eol del: csv_rows.simps)
  next
    case False
    show ?thesis
    proof (cases "text_lines cs")
      case Nil
      with False Cons.IH show ?thesis by (simp add: csv_rows_step del: csv_rows.simps)
    next
      case (Cons l ls)
      with Cons.IH have "csv_rows (l # ls) = csv_flat True cs" by (intro ext) (simp del: csv_rows.simps)
      with False Cons show ?thesis by (simp add: csv_rows_step del: csv_rows.simps)
    qed
  qed
  obtain l ls where "text_lines (c # cs) = l # ls" by (cases "text_lines (c # cs)") (auto split: if_splits list.splits)
  with step [of True] step [of False] show ?case by (simp only: list.case simp_thms)
qed

lemma csv_reader_flat: "csv_reader s = csv_flat False s csv_start"
  using csv_rows_flat by (simp add: csv_reader_def)

section \<open>Rows of the export\<close>

definition at_field :: "csv_state \<Rightarrow> string list \<Rightarrow> string \<Rightarrow> csv_parser" where
  "at_field s fs f = \<lparr>cp_state = s, cp_fields = fs, cp_field = f\<rparr>"

lemma csv_not_newline [simp]: "csv_dquote \<noteq> CHR 0x0A" "\<not> newline_char csv_dquote" "csv_dquote \<noteq> CHR '',''"
  by (simp_all add: csv_dquote_def newline_char_def)

lemma flat_quoted_text:
  "csv_flat b (concat (map (\<lambda>c. if c = csv_dquote then [c, c] else [c]) v) @ csv_dquote # rest) (at_field InQuoted fs f) =
   csv_flat True rest (at_field QuoteInQuoted fs (f @ v))"
proof (induction v arbitrary: b f)
  case Nil
  then show ?case by (simp add: csv_char_def at_field_def)
next
  case (Cons c v)
  then show ?case
    by (simp add: csv_char_def add_char_def at_field_def csv_finish_def csv_eol_def)
qed

lemma flat_quoted:
  "s \<in> {StartRecord, StartField} \<Longrightarrow>
   csv_flat b (csv_quote v @ rest) (at_field s fs []) = csv_flat True rest (at_field QuoteInQuoted fs v)"
  using flat_quoted_text [of True v rest fs "[]"]
  by (auto simp: csv_quote_def csv_char_def in_start_field_def at_field_def)

definition plain_field :: "string \<Rightarrow> bool" where
  "plain_field w \<longleftrightarrow> w \<noteq> [] \<and> (\<forall>c\<in>set w. c \<noteq> csv_dquote \<and> c \<noteq> CHR '','' \<and> \<not> newline_char c)"

lemma flat_plain_text:
  "\<forall>c\<in>set w. c \<noteq> csv_dquote \<and> c \<noteq> CHR '','' \<and> \<not> newline_char c \<Longrightarrow>
   csv_flat True (w @ rest) (at_field InField fs f) = csv_flat True rest (at_field InField fs (f @ w))"
proof (induction w arbitrary: f)
  case (Cons c w)
  then have "c \<noteq> CHR 0x0A" by (auto simp: newline_char_def)
  with Cons show ?case by (simp add: csv_char_def add_char_def at_field_def)
qed simp

lemma flat_plain:
  assumes "s \<in> {StartRecord, StartField}" "plain_field w"
  shows "csv_flat b (w @ rest) (at_field s fs []) = csv_flat True rest (at_field InField fs w)"
proof -
  obtain c v where w: "w = c # v" "c \<noteq> csv_dquote" "c \<noteq> CHR '',''" "\<not> newline_char c"
      "\<forall>c\<in>set v. c \<noteq> csv_dquote \<and> c \<noteq> CHR '','' \<and> \<not> newline_char c"
    using assms(2) by (cases w) (auto simp: plain_field_def)
  then have "c \<noteq> CHR 0x0A" by (auto simp: newline_char_def)
  have "csv_char c (at_field s fs []) = Some (at_field InField fs [c])"
    using assms(1) w(2-4) by (auto simp: csv_char_def in_start_field_def add_char_def at_field_def)
  then show ?thesis using flat_plain_text [OF w(5), of rest fs "[c]"] \<open>c \<noteq> CHR 0x0A\<close> by (simp add: w(1))
qed

text \<open>A writer of one field that the reader leaves in state \<open>after\<close>.\<close>

definition field_writer :: "(string \<Rightarrow> string) \<Rightarrow> (string \<Rightarrow> bool) \<Rightarrow> csv_state \<Rightarrow> bool" where
  "field_writer w ok after \<longleftrightarrow>
     after \<in> {InField, QuoteInQuoted} \<and>
     (\<forall>b v rest s fs. ok v \<longrightarrow> s \<in> {StartRecord, StartField} \<longrightarrow>
        csv_flat b (w v @ rest) (at_field s fs []) = csv_flat True rest (at_field after fs v))"

lemma field_writerD:
  "field_writer w ok after \<Longrightarrow> ok v \<Longrightarrow> s \<in> {StartRecord, StartField} \<Longrightarrow>
   csv_flat b (w v @ rest) (at_field s fs []) = csv_flat True rest (at_field after fs v)"
  unfolding field_writer_def by blast

lemma flat_comma: "after \<in> {InField, QuoteInQuoted} \<Longrightarrow>
  csv_flat True (CHR '','' # rest) (at_field after fs v) = csv_flat True rest (at_field StartField (fs @ [v]) [])"
  by (auto simp: csv_char_def save_field_def at_field_def csv_dquote_def newline_char_def)

lemma flat_row:
  assumes w: "field_writer w ok after"
  shows "r \<noteq> [] \<Longrightarrow> \<forall>v\<in>set r. ok v \<Longrightarrow> s \<in> {StartRecord, StartField} \<Longrightarrow>
    csv_flat b (join '','' (map w r) @ rest) (at_field s fs []) = csv_flat True rest (at_field after (fs @ butlast r) (last r))"
proof (induction r arbitrary: b s fs)
  case (Cons v r)
  show ?case
  proof (cases r)
    case Nil
    with Cons.prems field_writerD [OF w, of v s b rest fs] show ?thesis by simp
  next
    case (Cons u us)
    have "csv_flat b (join '','' (map w (v # r)) @ rest) (at_field s fs []) =
        csv_flat b (w v @ CHR '','' # join '','' (map w r) @ rest) (at_field s fs [])"
      by (simp add: Cons)
    also have "\<dots> = csv_flat True (CHR '','' # join '','' (map w r) @ rest) (at_field after fs v)"
      using Cons.prems by (intro field_writerD [OF w]) simp_all
    also have "\<dots> = csv_flat True (join '','' (map w r) @ rest) (at_field StartField (fs @ [v]) [])"
      using w flat_comma unfolding field_writer_def by blast
    also have "\<dots> = csv_flat True rest (at_field after ((fs @ [v]) @ butlast r) (last r))"
      using Cons.IH [of StartField True "fs @ [v]"] Cons.prems Cons by simp
    finally show ?thesis by (simp add: Cons)
  qed
qed simp

lemma flat_row_end:
  assumes "after \<in> {InField, QuoteInQuoted}" "r \<noteq> []"
  shows "csv_flat True [] (at_field after (butlast r) (last r)) = Some [r]"
    "csv_flat True (CHR 0x0A # rest) (at_field after (butlast r) (last r)) = map_option ((#) r) (csv_flat False rest csv_start)"
  using assms
  by (auto simp: csv_eol_def csv_char_def save_field_def csv_finish_def csv_start_def at_field_def newline_char_def csv_dquote_def)

lemma quoted_writer: "field_writer csv_quote (\<lambda>_. True) QuoteInQuoted"
  using flat_quoted by (simp add: field_writer_def)

lemma plain_writer: "field_writer (\<lambda>w. w) plain_field InField"
  using flat_plain by (simp add: field_writer_def)

lemma csv_start_at: "csv_start = at_field StartRecord [] []"
  by (simp add: csv_start_def at_field_def)

lemma flat_rows:
  "rows \<noteq> [] \<Longrightarrow> \<forall>r\<in>set rows. r \<noteq> [] \<Longrightarrow>
   csv_flat False (join [CHR 0x0A] (map (\<lambda>r. join '','' (map csv_quote r)) rows)) csv_start = Some rows"
proof (induction rows)
  case (Cons r rows)
  note row = flat_row [OF quoted_writer, of r StartRecord False _ "[]", simplified]
  show ?case
  proof (cases rows)
    case Nil
    with Cons.prems row [of "[]"] flat_row_end(1) [of QuoteInQuoted r] show ?thesis by (simp add: csv_start_at)
  next
    case (Cons u us)
    with Cons.prems row [of "CHR 0x0A # join [CHR 0x0A] (map (\<lambda>r. join '','' (map csv_quote r)) rows)"]
      flat_row_end(2) [of QuoteInQuoted r "join [CHR 0x0A] (map (\<lambda>r. join '','' (map csv_quote r)) rows)"] Cons.IH
    show ?thesis by (simp add: csv_start_at)
  qed
qed simp

lemma csv_reader_text:
  assumes "header \<noteq> []" "\<forall>w\<in>set header. plain_field w" "\<forall>r\<in>set rows. r \<noteq> []"
  shows "csv_reader (csv_text header rows) = Some (header # rows)"
proof -
  note head = flat_row [OF plain_writer, of header StartRecord False _ "[]", simplified, OF assms(1,2)]
  show ?thesis
  proof (cases rows)
    case Nil
    with head [of "[]"] flat_row_end(1) [of InField header] assms(1) show ?thesis
      by (simp add: csv_reader_flat csv_text_def csv_start_at)
  next
    case (Cons u us)
    with head [of "CHR 0x0A # join [CHR 0x0A] (map (\<lambda>r. join '','' (map csv_quote r)) rows)"]
      flat_row_end(2) [of InField header "join [CHR 0x0A] (map (\<lambda>r. join '','' (map csv_quote r)) rows)"] assms(1)
      flat_rows [of rows] assms(3)
    show ?thesis by (simp add: csv_reader_flat csv_text_def csv_start_at)
  qed
qed

end
