(* ===== verification/Admin_Contacts.thy ===== *)
theory Admin_Contacts
  imports Admin_Base Csv_Text
begin

text \<open>
  Contacts, tags and the manual suppression list of the admin pages (routes_admin.py): creation with
  its refusals, the import of a file, deletion under the foreign keys, the export, and the tags of a
  contact, which are one text with the separator \<open>|\<close>.
\<close>

section \<open>Contacts\<close>

record contact_in =
  ci_email :: string
  ci_name :: "string option"
  ci_tags :: "string option"
  ci_consent_source :: string
  ci_external_id :: "string option"

definition tag_filter :: "string option \<Rightarrow> contact \<Rightarrow> bool" where
  "tag_filter tag c = (case tag of None \<Rightarrow> True | Some [] \<Rightarrow> True | Some t \<Rightarrow> like_part t (ct_tags c))"

definition list_contacts :: "int \<Rightarrow> int \<Rightarrow> string option \<Rightarrow> vault \<Rightarrow> contact list \<times> nat" where
  "list_contacts limit offset tag v =
     (let rows = filter (tag_filter tag) (v_contacts v) in (page limit offset (order_desc ct_created_at rows), length rows))"

definition count_contacts :: "string option \<Rightarrow> vault \<Rightarrow> nat" where
  "count_contacts tag v = length (filter (tag_filter tag) (v_contacts v))"

text \<open>The UNIQUE columns of a contact.\<close>

definition contact_clash :: "contact \<Rightarrow> contact \<Rightarrow> bool" where
  "contact_clash c d \<longleftrightarrow> ct_email c = ct_email d \<or> (ct_external_id c \<noteq> None \<and> ct_external_id c = ct_external_id d)"

definition new_contact ::
  "admin_env \<Rightarrow> string \<Rightarrow> string option \<Rightarrow> string option \<Rightarrow> string \<Rightarrow> string option \<Rightarrow> vault \<Rightarrow> contact" where
  "new_contact ev email name tags source external_id v =
     \<lparr>ct_id = auto_id ev ''contacts'' ct_id (v_contacts v), ct_email = email, ct_name = name, ct_tags = tags,
      ct_consent_ts = iso (ae_now ev), ct_consent_source = source, ct_external_id = external_id,
      ct_created_at = sql_time (ae_now ev), ct_updated_at = sql_time (ae_now ev)\<rparr>"

definition suppressed_by :: "string \<Rightarrow> vault \<Rightarrow> string option" where
  "suppressed_by h v = map_option sh_reason (find (\<lambda>s. sh_email_hash s = h) (v_suppressions v))"

definition create_contact :: "admin_env \<Rightarrow> contact_in \<Rightarrow> vault \<Rightarrow> (int \<times> string) admin_result" where
  "create_contact ev c_in v =
     (let email = lower (strip (ci_email c_in)); h = hash_of_email (ae_crypto ev) email;
          c = new_contact ev email (ci_name c_in) (ci_tags c_in) (ci_consent_source c_in) (ci_external_id c_in) v in
      if CHR ''@'' \<notin> set email then Inl (HttpError 400 ''invalid email'')
      else
        (case suppressed_by h v of
           Some reason \<Rightarrow> Inl (HttpError 409 (''email is in suppression (reason='' @ reason @ '')''))
         | None \<Rightarrow>
             if \<exists>d\<in>set (v_contacts v). contact_clash c d then Inl (HttpError 409 ''email already exists'')
             else Inr (by_operator ev ''contact.created'' (named ''contact'' (ct_id c)) [(''email_hash'', JStr h)]
                         (v\<lparr>v_contacts := v_contacts v @ [c]\<rparr>), (ct_id c, email))))"

text \<open>Recipients and jobs refer to contacts; a contact they refer to cannot be deleted.\<close>

definition contact_in_use :: "int \<Rightarrow> vault \<Rightarrow> bool" where
  "contact_in_use i v \<longleftrightarrow> i \<in> cr_contact_id ` set (v_recipients v) \<or> i \<in> dj_recipient_id ` set (v_jobs v)"

definition drop_contact :: "int \<Rightarrow> vault \<Rightarrow> admin_error + vault \<times> nat" where
  "drop_contact i v =
     (let n = rowcount (\<lambda>c. ct_id c = i) (v_contacts v) in
      if n \<noteq> 0 \<and> contact_in_use i v then Inl (Unhandled ''FOREIGN KEY constraint failed'')
      else Inr (v\<lparr>v_contacts := filter (\<lambda>c. ct_id c \<noteq> i) (v_contacts v)\<rparr>, n))"

definition delete_contact :: "admin_env \<Rightarrow> int \<Rightarrow> vault \<Rightarrow> unit admin_result" where
  "delete_contact ev i v =
     (case find (\<lambda>c. ct_id c = i) (v_contacts v) of
        None \<Rightarrow> Inl (HttpError 404 ''no such contact'')
      | Some c \<Rightarrow>
          bindE (drop_contact i v) (\<lambda>(v1, n).
            Inr (by_operator ev ''contact.deleted'' (named ''contact'' i)
                   [(''email_hash'', JStr (hash_of_email (ae_crypto ev) (ct_email c)))] v1, ())))"

text \<open>The ids of a JSON body that are the digits of a number.\<close>

definition digit_id :: "json \<Rightarrow> int option" where
  "digit_id j = (case j of JInt n \<Rightarrow> if 0 \<le> n then Some n else None | JStr s \<Rightarrow> if isdigit s then int_of_str s else None | _ \<Rightarrow> None)"

fun drop_contacts :: "int list \<Rightarrow> vault \<Rightarrow> admin_error + vault \<times> nat" where
  "drop_contacts [] v = Inr (v, 0)"
| "drop_contacts (i # is) v =
     bindE (drop_contact i v) (\<lambda>(v1, n). bindE (drop_contacts is v1) (\<lambda>(v2, m). Inr (v2, n + m)))"

definition bulk_delete_contacts :: "admin_env \<Rightarrow> json list \<Rightarrow> vault \<Rightarrow> nat admin_result" where
  "bulk_delete_contacts ev given v =
     (let ids = List.map_filter digit_id given in
      if ids = [] then Inl (HttpError 400 ''no ids provided'')
      else bindE (drop_contacts ids v) (\<lambda>(v1, n).
        Inr (by_operator ev ''contacts.bulk_deleted'' None [(''count'', JInt (int n))] v1, n)))"

definition edit_contact :: "admin_env \<Rightarrow> int \<Rightarrow> string option \<Rightarrow> string option \<Rightarrow> vault \<Rightarrow> bool admin_result" where
  "edit_contact ev i name tags v =
     (if \<forall>c\<in>set (v_contacts v). ct_id c \<noteq> i then Inl (HttpError 404 ''no such contact'')
      else if name = None \<and> tags = None then Inr (v, False)
      else
        (let named_now = (\<lambda>c. case name of None \<Rightarrow> c | Some n \<Rightarrow> c\<lparr>ct_name := Some n\<rparr>);
             tagged_now = (\<lambda>c. case tags of None \<Rightarrow> c | Some t \<Rightarrow> c\<lparr>ct_tags := Some t\<rparr>);
             changed = (if name = None then [] else [JStr ''name'']) @ (if tags = None then [] else [JStr ''tags''])
         in Inr (by_operator ev ''contact.edited'' (named ''contact'' i) [(''fields'', JArr changed)]
                   (v\<lparr>v_contacts := update_where (\<lambda>c. ct_id c = i) (\<lambda>c. tagged_now (named_now c)) (v_contacts v)\<rparr>), True)))"

section \<open>Export\<close>

definition export_header :: "string list" where
  "export_header = [''email'', ''name'', ''tags'', ''consent_source'', ''external_id'', ''created_at'']"

definition export_row :: "contact \<Rightarrow> string list" where
  "export_row c = [ct_email c, opt_or (ct_name c) [], opt_or (ct_tags c) [], ct_consent_source c, opt_or (ct_external_id c) [], ct_created_at c]"

definition export_selection :: "string option \<Rightarrow> vault \<Rightarrow> contact list" where
  "export_selection ids v =
     sort_key ct_id (case ids of
        None \<Rightarrow> v_contacts v
      | Some [] \<Rightarrow> v_contacts v
      | Some s \<Rightarrow> filter (\<lambda>c. ct_id c \<in> set (id_list s)) (v_contacts v))"

definition export_contacts :: "string option \<Rightarrow> vault \<Rightarrow> string \<times> string" where
  "export_contacts ids v =
     (csv_text export_header (map export_row (export_selection ids v)), if truthy ids then ''contacts-selected.csv'' else ''contacts.csv'')"

section \<open>Import\<close>

definition max_csv_rows :: nat where "max_csv_rows = 10000"

definition default_columns :: "string list" where
  "default_columns = [''email'', ''name'', ''tags'', ''consent_source'', ''external_id'']"

text \<open>A first row whose first cell has no \<open>@\<close> is the header.\<close>

definition csv_header :: "string list list \<Rightarrow> string list \<times> string list list" where
  "csv_header rows =
     (case rows of
        [] \<Rightarrow> (default_columns, [])
      | row # rest \<Rightarrow>
          if CHR ''@'' \<notin> set (case row of [] \<Rightarrow> [] | cell # _ \<Rightarrow> cell) then (map (\<lambda>h. lower (strip h)) row, rest)
          else (default_columns, rows))"

fun column_index :: "string \<Rightarrow> string list \<Rightarrow> nat option" where
  "column_index name [] = None"
| "column_index name (h # hs) = (if h = name then Some 0 else map_option Suc (column_index name hs))"

definition csv_col :: "string list \<Rightarrow> string list \<Rightarrow> string \<Rightarrow> string \<Rightarrow> string" where
  "csv_col header row name missing =
     (case column_index name header of
        None \<Rightarrow> missing
      | Some k \<Rightarrow> if k < length row then strip (row ! k) else missing)"

definition merge_tags :: "string \<Rightarrow> string \<Rightarrow> string" where
  "merge_tags csv_tags batch_tag =
     (if batch_tag = [] then csv_tags
      else
        (let existing = filter (\<lambda>t. t \<noteq> []) (map strip (split_on CHR ''|'' csv_tags)); bt = strip batch_tag in
         join ''|'' (if bt \<noteq> [] \<and> bt \<notin> set existing then existing @ [bt] else existing)))"

record import_state =
  im_vault :: vault
  im_imported :: nat
  im_suppressed :: nat
  im_invalid :: nat
  im_dropped :: "(string \<times> nat) list"
  im_errors :: "string list"

definition count_reason :: "string \<Rightarrow> (string \<times> nat) list \<Rightarrow> (string \<times> nat) list" where
  "count_reason r d = AList.update r (case map_of d r of None \<Rightarrow> 1 | Some n \<Rightarrow> n + 1) d"

definition blank_none :: "string \<Rightarrow> string option" where
  "blank_none s = (if s = [] then None else Some s)"

definition import_row :: "admin_env \<Rightarrow> string list \<Rightarrow> string \<Rightarrow> nat \<Rightarrow> string list \<Rightarrow> import_state \<Rightarrow> import_state" where
  "import_row ev header batch_tag i row st =
     (let col = csv_col header row; v = im_vault st in
      if row = [] then st
      else
        (case clean_email (col ''email'' []) of
           Inl reason \<Rightarrow>
             st\<lparr>im_invalid := im_invalid st + 1, im_dropped := count_reason reason (im_dropped st),
                im_errors := (if length (im_errors st) < 20
                  then im_errors st @ [''row '' @ dec (i + 2) @ '': '' @ reason @ '' - '' @ ae_repr ev (col ''email'' [])] else im_errors st)\<rparr>
         | Inr email \<Rightarrow>
             if suppressed_by (hash_of_email (ae_crypto ev) email) v \<noteq> None then st\<lparr>im_suppressed := im_suppressed st + 1\<rparr>
             else
               (let c = new_contact ev email (blank_none (col ''name'' [])) (blank_none (merge_tags (col ''tags'' []) batch_tag))
                      (col ''consent_source'' ''csv_import'') (blank_none (col ''external_id'' [])) v in
                if \<exists>d\<in>set (v_contacts v). contact_clash c d then st
                else st\<lparr>im_vault := v\<lparr>v_contacts := v_contacts v @ [c]\<rparr>, im_imported := im_imported st + 1\<rparr>)))"

fun import_rows :: "admin_env \<Rightarrow> string list \<Rightarrow> string \<Rightarrow> nat \<Rightarrow> string list list \<Rightarrow> import_state \<Rightarrow> import_state" where
  "import_rows ev header batch_tag i [] st = st"
| "import_rows ev header batch_tag i (row # rows) st =
     import_rows ev header batch_tag (Suc i) rows (import_row ev header batch_tag i row st)"

text \<open>\<open>rows\<close> is what the reader of the file gave, or the text of its error.\<close>

definition csv_import :: "admin_env \<Rightarrow> string + string list list \<Rightarrow> string \<Rightarrow> vault \<Rightarrow> import_state admin_result" where
  "csv_import ev rows batch_tag v =
     (case rows of
        Inl e \<Rightarrow> Inl (HttpError 400 (''could not read xlsx: '' @ e))
      | Inr rows \<Rightarrow>
          if max_csv_rows + 1 < length rows then Inl (HttpError 413 (''chunk exceeds '' @ dec max_csv_rows @ '' rows''))
          else
            (case csv_header rows of (header, data_rows) \<Rightarrow>
               (let st = import_rows ev header batch_tag 0 data_rows
                      \<lparr>im_vault = v, im_imported = 0, im_suppressed = 0, im_invalid = 0, im_dropped = [], im_errors = []\<rparr> in
                Inr (by_operator ev ''contacts.csv_import'' None
                       [(''imported'', JInt (int (im_imported st))), (''skipped_suppressed'', JInt (int (im_suppressed st))),
                        (''skipped_invalid'', JInt (int (im_invalid st))),
                        (''dropped_reasons'', JObj (map (\<lambda>(r, n). (r, JInt (int n))) (im_dropped st)))] (im_vault st), st))))"

section \<open>Tags\<close>

definition contact_tags :: "contact \<Rightarrow> string list" where
  "contact_tags c = split_on CHR ''|'' (opt_or (ct_tags c) [])"

definition list_tags_data :: "vault \<Rightarrow> (string \<times> nat) list" where
  "list_tags_data v =
     (let found = concat (map (\<lambda>c. if ct_tags c = None then [] else filter (\<lambda>t. t \<noteq> []) (map strip (contact_tags c))) (v_contacts v))
      in order_desc snd (fold count_reason found []))"

definition rename_in :: "string \<Rightarrow> string \<Rightarrow> contact \<Rightarrow> string list" where
  "rename_in old new c = map (\<lambda>t. if strip t = old then new else t) (contact_tags c)"

definition rename_tag :: "admin_env \<Rightarrow> string \<Rightarrow> string \<Rightarrow> vault \<Rightarrow> nat admin_result" where
  "rename_tag ev old_tag new_tag v =
     (let old = strip old_tag; new = strip new_tag;
          hit = (\<lambda>c. like_part old (ct_tags c) \<and> rename_in old new c \<noteq> contact_tags c)
      in if old = [] \<or> new = [] then Inl (HttpError 400 ''old_tag and new_tag must not be empty'')
         else Inr (by_operator ev ''tags.renamed'' None
                     [(''old_tag'', JStr old), (''new_tag'', JStr new), (''updated'', JInt (int (rowcount hit (v_contacts v))))]
                     (v\<lparr>v_contacts := update_where hit (\<lambda>c. c\<lparr>ct_tags := Some (join ''|'' (rename_in old new c))\<rparr>) (v_contacts v)\<rparr>),
                   rowcount hit (v_contacts v)))"

definition delete_in :: "string \<Rightarrow> contact \<Rightarrow> string list" where
  "delete_in tag c = filter (\<lambda>t. strip t \<noteq> tag) (contact_tags c)"

definition delete_tag :: "admin_env \<Rightarrow> string \<Rightarrow> vault \<Rightarrow> nat admin_result" where
  "delete_tag ev tag_given v =
     (let tag = strip tag_given; hit = (\<lambda>c. like_part tag (ct_tags c));
          rest = (\<lambda>c. if delete_in tag c = [] then None else Some (join ''|'' (delete_in tag c)))
      in if tag = [] then Inl (HttpError 400 ''tag must not be empty'')
         else Inr (by_operator ev ''tags.deleted'' None [(''tag'', JStr tag), (''updated'', JInt (int (rowcount hit (v_contacts v))))]
                     (v\<lparr>v_contacts := update_where hit (\<lambda>c. c\<lparr>ct_tags := rest c\<rparr>) (v_contacts v)\<rparr>),
                   rowcount hit (v_contacts v)))"

section \<open>Manual suppressions\<close>

definition suppression_reasons :: "string list" where
  "suppression_reasons = [''unsubscribe'', ''complaint'', ''bounce_hard'', ''manual'', ''erasure_request'']"

definition admin_add_suppression :: "admin_env \<Rightarrow> string \<Rightarrow> string \<Rightarrow> vault \<Rightarrow> string admin_result" where
  "admin_add_suppression ev email reason v =
     (let h = hash_of_email (ae_crypto ev) email in
      if reason \<notin> set suppression_reasons then Inl (HttpError 400 ''bad reason'')
      else Inr (by_operator ev ''suppression.added'' (Some (''hash:'' @ h)) [(''reason'', JStr reason)]
                  (add_suppression h reason (Some ''manual:admin'') (sql_time (ae_now ev)) v), h))"

definition list_suppression :: "int \<Rightarrow> vault \<Rightarrow> suppression list \<times> nat" where
  "list_suppression limit v = (page limit 0 (order_desc sh_added_at (v_suppressions v)), length (v_suppressions v))"

end
