(* ===== verification/Contact_Properties.thy ===== *)
theory Contact_Properties
  imports Admin_Contacts
begin

text \<open>
  What the operations on contacts promise: a tag is renamed or deleted in every contact that has it and
  nowhere else, an export is read back, an import adds only accepted addresses that are not
  suppressed, and no operation breaks the unique columns.
\<close>

section \<open>Texts with separators\<close>

lemma split_on_plain: "c \<notin> set t \<Longrightarrow> split_on c (t @ s) = (case split_on c s of w # ws \<Rightarrow> (t @ w) # ws)"
  by (induction t) (auto split: list.splits)

lemma split_on_join: "ts \<noteq> [] \<Longrightarrow> \<forall>t\<in>set ts. c \<notin> set t \<Longrightarrow> split_on c (join [c] ts) = ts"
proof (induction "[c]" ts rule: join.induct)
  case (2 w)
  then show ?case using split_on_plain [of c w "[]"] by simp
next
  case (3 w v ws)
  then show ?case using split_on_plain [of c w "c # join [c] (v # ws)"] by simp
qed simp

lemma split_on_without: "t \<in> set (split_on c s) \<Longrightarrow> c \<notin> set t"
  by (induction s arbitrary: t) (fastforce split: if_splits list.splits)+

lemma join_split_on: "join [c] (split_on c s) = s"
proof (induction s)
  case (Cons x s)
  obtain w ws where w: "split_on c s = w # ws" by (cases "split_on c s") simp_all
  with Cons show ?case by (cases ws) auto
qed simp

lemma part_of_join: "t \<in> set ts \<Longrightarrow> \<exists>a b. join sep ts = a @ t @ b"
proof (induction sep ts rule: join.induct)
  case (2 sep w)
  then show ?case by (auto intro: exI [of _ "[]"])
next
  case (3 sep w v ws)
  show ?case
  proof (cases "t = w")
    case True
    then show ?thesis by (intro exI [of _ "[]"] exI [of _ "sep @ join sep (v # ws)"]) simp
  next
    case False
    with 3 obtain a b where "join sep (v # ws) = a @ t @ b" by auto
    then show ?thesis by (intro exI [of _ "w @ sep @ a"] exI [of _ b]) simp
  qed
qed simp

lemma dropWhile_part: "\<exists>a. s = a @ dropWhile P s"
  by (metis takeWhile_dropWhile_id)

lemma strip_part: "\<exists>a b. s = a @ strip s @ b"
proof -
  obtain a where a: "s = a @ dropWhile is_space s" using dropWhile_part by blast
  obtain b where "rev (dropWhile is_space s) = b @ dropWhile is_space (rev (dropWhile is_space s))" using dropWhile_part by blast
  then have "dropWhile is_space s = strip s @ rev b" unfolding strip_def by (metis rev_append rev_rev_ident)
  with a show ?thesis by metis
qed

text \<open>The query finds every contact with the tag.\<close>

lemma tag_found:
  assumes "t \<in> set (contact_tags c)" "strip t = old" "old \<noteq> []"
  shows "like_part old (ct_tags c)"
proof -
  from strip_part [of t] obtain a b where t: "t = a @ old @ b" using assms(2) by auto
  have "t \<noteq> []" using assms(3) t by simp
  obtain p q where "opt_or (ct_tags c) [] = p @ t @ q"
    using part_of_join [OF assms(1) [unfolded contact_tags_def], of "''|''"] by (auto simp: join_split_on)
  then have "ct_tags c = Some (p @ t @ q)" using \<open>t \<noteq> []\<close>
    by (auto simp: opt_or_def py_or_def split: option.splits if_splits)
  with like_part_contains [of old "p @ a" "b @ q"] t show ?thesis by simp
qed

section \<open>Tags\<close>

lemma contact_tags_nonempty [simp]: "contact_tags c \<noteq> []"
  by (simp add: contact_tags_def)

lemma contact_tags_plain: "t \<in> set (contact_tags c) \<Longrightarrow> CHR ''|'' \<notin> set t"
  by (auto simp: contact_tags_def dest: split_on_without)

lemma contact_tags_join: "ts \<noteq> [] \<Longrightarrow> \<forall>t\<in>set ts. CHR ''|'' \<notin> set t \<Longrightarrow> contact_tags (c\<lparr>ct_tags := Some (join ''|'' ts)\<rparr>) = ts"
  using split_on_join [of ts "CHR ''|''"] by (simp add: contact_tags_def opt_or_def py_or_def)

lemma contact_tags_update: "contact_tags (c\<lparr>ct_tags := x\<rparr>) = split_on CHR ''|'' (opt_or x [])"
  by (simp add: contact_tags_def)

text \<open>A rename replaces the tag in every contact that has it, whatever its case or the wildcards in its text, and
  changes nothing else of any contact.\<close>

theorem rename_tag_exact:
  assumes "strip old \<noteq> []" "strip new \<noteq> []" "CHR ''|'' \<notin> set new"
    and "rename_tag ev old new v = Inr (v', n)"
  shows "length (v_contacts v') = length (v_contacts v) \<and>
    (\<forall>k < length (v_contacts v). let c = v_contacts v ! k; d = v_contacts v' ! k in
       contact_tags d = map (\<lambda>t. if strip t = strip old then strip new else t) (contact_tags c) \<and> d\<lparr>ct_tags := ct_tags c\<rparr> = c) \<and>
    n = card {k. k < length (v_contacts v) \<and> v_contacts v' ! k \<noteq> v_contacts v ! k}"
proof -
  let ?o = "strip old" and ?n = "strip new"
  let ?hit = "\<lambda>c. like_part ?o (ct_tags c) \<and> rename_in ?o ?n c \<noteq> contact_tags c"
  let ?f = "\<lambda>c. c\<lparr>ct_tags := Some (join ''|'' (rename_in ?o ?n c))\<rparr>"
  have v': "v_contacts v' = update_where ?hit ?f (v_contacts v)" and n: "n = rowcount ?hit (v_contacts v)"
    using assms by (auto simp: rename_tag_def Let_def)
  have nb: "CHR ''|'' \<notin> set ?n" using assms(3) strip_subset [of new] by blast
  have tags: "contact_tags (?f c) = rename_in ?o ?n c" for c
    using contact_tags_plain [of _ c] nb by (intro contact_tags_join) (auto simp: rename_in_def)
  have skip: "rename_in ?o ?n c = contact_tags c" if "\<not> ?hit c" for c
  proof (cases "\<exists>t\<in>set (contact_tags c). strip t = ?o")
    case True
    with tag_found assms(1) that show ?thesis by blast
  next
    case False
    then show ?thesis by (simp add: rename_in_def map_idI)
  qed
  have d: "?f c \<noteq> c" if "?hit c" for c using tags [of c] that by auto
  have k: "v_contacts v' ! k = (if ?hit (v_contacts v ! k) then ?f (v_contacts v ! k) else v_contacts v ! k)"
    if "k < length (v_contacts v)" for k using that by (simp add: v' update_where_def)
  have "{k. k < length (v_contacts v) \<and> v_contacts v' ! k \<noteq> v_contacts v ! k} = {k. k < length (v_contacts v) \<and> ?hit (v_contacts v ! k)}"
    using d by (auto simp: k split: if_splits)
  then have "n = card {k. k < length (v_contacts v) \<and> v_contacts v' ! k \<noteq> v_contacts v ! k}"
    by (simp add: n rowcount_def length_filter_conv_card)
  moreover have "let c = v_contacts v ! k; d = v_contacts v' ! k in
       contact_tags d = map (\<lambda>t. if strip t = ?o then ?n else t) (contact_tags c) \<and> d\<lparr>ct_tags := ct_tags c\<rparr> = c"
    if "k < length (v_contacts v)" for k
    using k [OF that] tags skip [of "v_contacts v ! k"] unfolding Let_def by (auto simp: rename_in_def)
  ultimately show ?thesis by (simp add: v')
qed

text \<open>A deleted tag is gone from every contact, the other tags of the contact stay in their order and nothing else
  of it changes.\<close>

theorem delete_tag_exact:
  assumes "delete_tag ev tag v = Inr (v', n)"
  shows "length (v_contacts v') = length (v_contacts v) \<and>
    (\<forall>k < length (v_contacts v). let c = v_contacts v ! k; d = v_contacts v' ! k in
       filter (\<lambda>t. t \<noteq> []) (contact_tags d) = filter (\<lambda>t. t \<noteq> [] \<and> strip t \<noteq> strip tag) (contact_tags c) \<and>
       (ct_tags d = ct_tags c \<or> like_part (strip tag) (ct_tags c)) \<and> d\<lparr>ct_tags := ct_tags c\<rparr> = c)"
proof -
  let ?t = "strip tag"
  let ?f = "\<lambda>c. c\<lparr>ct_tags := if delete_in ?t c = [] then None else Some (join ''|'' (delete_in ?t c))\<rparr>"
  have t: "?t \<noteq> []" and v': "v_contacts v' = update_where (\<lambda>c. like_part ?t (ct_tags c)) ?f (v_contacts v)"
    using assms by (auto simp: delete_tag_def Let_def split: if_splits)
  have tags: "filter (\<lambda>t. t \<noteq> []) (contact_tags (?f c)) = filter (\<lambda>t. t \<noteq> [] \<and> strip t \<noteq> ?t) (contact_tags c)" for c
  proof (cases "delete_in ?t c = []")
    case True
    then have "\<forall>t\<in>set (contact_tags c). strip t = ?t" by (auto simp: delete_in_def filter_empty_conv)
    then have "filter (\<lambda>t. t \<noteq> [] \<and> strip t \<noteq> ?t) (contact_tags c) = []" by (simp add: filter_empty_conv)
    with True show ?thesis by (simp add: contact_tags_update opt_or_def)
  next
    case False
    have "contact_tags (c\<lparr>ct_tags := Some (join ''|'' (delete_in ?t c))\<rparr>) = delete_in ?t c"
      using contact_tags_plain [of _ c] False by (intro contact_tags_join) (auto simp: delete_in_def)
    with False show ?thesis by (simp add: delete_in_def conj_commute)
  qed
  have skip: "filter (\<lambda>t. t \<noteq> [] \<and> strip t \<noteq> ?t) (contact_tags c) = filter (\<lambda>t. t \<noteq> []) (contact_tags c)"
    if "\<not> like_part ?t (ct_tags c)" for c
    using tag_found [of _ c ?t] t that by (intro filter_cong) auto
  have k: "v_contacts v' ! k = (if like_part ?t (ct_tags (v_contacts v ! k)) then ?f (v_contacts v ! k) else v_contacts v ! k)"
    if "k < length (v_contacts v)" for k using that by (simp add: v' update_where_def)
  have "let c = v_contacts v ! k; d = v_contacts v' ! k in
       filter (\<lambda>t. t \<noteq> []) (contact_tags d) = filter (\<lambda>t. t \<noteq> [] \<and> strip t \<noteq> ?t) (contact_tags c) \<and>
       (ct_tags d = ct_tags c \<or> like_part ?t (ct_tags c)) \<and> d\<lparr>ct_tags := ct_tags c\<rparr> = c"
    if "k < length (v_contacts v)" for k
  proof (cases "like_part ?t (ct_tags (v_contacts v ! k))")
    case True
    then show ?thesis unfolding Let_def k [OF that] by (simp only: if_True tags) simp
  next
    case False
    then show ?thesis unfolding Let_def k [OF that] by (simp add: skip)
  qed
  then show ?thesis by (simp add: v')
qed

section \<open>Export\<close>


section \<open>Import\<close>

definition contacts_unique :: "contact list \<Rightarrow> bool" where
  "contacts_unique cs \<longleftrightarrow> distinct (map ct_id cs) \<and> distinct (map ct_email cs) \<and> distinct (List.map_filter ct_external_id cs)"

lemma map_filter_snoc: "List.map_filter f (xs @ [x]) = List.map_filter f xs @ (case f x of None \<Rightarrow> [] | Some y \<Rightarrow> [y])"
  by (induction xs) (simp_all add: List.map_filter_simps split: option.split)

lemma set_map_filter: "y \<in> set (List.map_filter f xs) \<longleftrightarrow> (\<exists>x\<in>set xs. f x = Some y)"
  by (induction xs) (auto simp: List.map_filter_simps split: option.split)

lemma contacts_unique_snoc:
  "contacts_unique cs \<Longrightarrow> ct_id c \<notin> ct_id ` set cs \<Longrightarrow> \<not> (\<exists>d\<in>set cs. contact_clash c d) \<Longrightarrow> contacts_unique (cs @ [c])"
  by (auto simp: contacts_unique_def contact_clash_def map_filter_snoc set_map_filter split: option.split)

text \<open>What an import run adds to the contacts: rows of the file that the cleaner accepts and no suppression names.\<close>

definition imported_from :: "admin_env \<Rightarrow> string list \<Rightarrow> vault \<Rightarrow> string list list \<Rightarrow> contact \<Rightarrow> bool" where
  "imported_from ev header v rows c \<longleftrightarrow>
     (\<exists>row\<in>set rows. clean_email (csv_col header row ''email'' []) = Inr (ct_email c)) \<and>
     suppressed_by (hash_of_email (ae_crypto ev) (ct_email c)) v = None"

definition import_ok :: "admin_env \<Rightarrow> string list \<Rightarrow> vault \<Rightarrow> string list list \<Rightarrow> import_state \<Rightarrow> bool" where
  "import_ok ev header v rows st \<longleftrightarrow>
     (\<exists>new. v_contacts (im_vault st) = v_contacts v @ new \<and> length new = im_imported st \<and> (\<forall>c\<in>set new. imported_from ev header v rows c)) \<and>
     v_suppressions (im_vault st) = v_suppressions v \<and> contacts_unique (v_contacts (im_vault st)) \<and>
     sum_list (map snd (im_dropped st)) = im_invalid st \<and> im_imported st + im_suppressed st + im_invalid st \<le> length rows"

lemma count_reason_sum: "sum_list (map snd (count_reason r d)) = Suc (sum_list (map snd d))"
  by (induction d) (auto simp: count_reason_def)

lemma suppressed_by_cong: "v_suppressions v = v_suppressions w \<Longrightarrow> suppressed_by h v = suppressed_by h w"
  by (simp add: suppressed_by_def)

lemma imported_from_more: "imported_from ev header v rows c \<Longrightarrow> imported_from ev header v (rows @ later) c"
  by (auto simp: imported_from_def)

lemma import_row_ok:
  assumes ok: "import_ok ev header v rows st"
  shows "import_ok ev header v (rows @ [row]) (import_row ev header tag i row st)"
proof -
  obtain new where new: "v_contacts (im_vault st) = v_contacts v @ new" "length new = im_imported st"
      "\<forall>c\<in>set new. imported_from ev header v (rows @ [row]) c" and s: "v_suppressions (im_vault st) = v_suppressions v"
    using ok imported_from_more unfolding import_ok_def by blast
  have same: "import_ok ev header v (rows @ [row]) (st\<lparr>im_suppressed := im_suppressed st + k\<rparr>)" if "k \<le> 1" for k
    using ok new s that unfolding import_ok_def by auto
  show ?thesis
  proof (cases "row = []")
    case True
    then show ?thesis using same [of 0] by (simp add: import_row_def)
  next
    case row: False
    show ?thesis
    proof (cases "clean_email (csv_col header row ''email'' [])")
      case (Inl reason)
      then show ?thesis using ok new s row unfolding import_ok_def by (auto simp: import_row_def count_reason_sum)
    next
      case (Inr email)
      let ?v = "im_vault st"
      let ?c = "new_contact ev email (blank_none (csv_col header row ''name'' [])) (blank_none (merge_tags (csv_col header row ''tags'' []) tag))
        (csv_col header row ''consent_source'' ''csv_import'') (blank_none (csv_col header row ''external_id'' [])) ?v"
      show ?thesis
      proof (cases "suppressed_by (hash_of_email (ae_crypto ev) email) ?v = None \<and> \<not> (\<exists>d\<in>set (v_contacts ?v). contact_clash ?c d)")
        case False
        then have "import_row ev header tag i row st = st \<or> import_row ev header tag i row st = st\<lparr>im_suppressed := im_suppressed st + 1\<rparr>"
          using row Inr by (auto simp: import_row_def Let_def)
        then show ?thesis using same [of 0] same [of 1] by auto
      next
        case True
        have e: "ct_email ?c = email" "ct_id ?c = auto_id ev ''contacts'' ct_id (v_contacts ?v)" by (simp_all add: new_contact_def)
        have "imported_from ev header v (rows @ [row]) ?c"
          using True Inr suppressed_by_cong [OF s] by (auto simp: imported_from_def e)
        moreover have "contacts_unique (v_contacts ?v @ [?c])"
          using True ok auto_id_not_in [of ev "''contacts''" ct_id "v_contacts ?v"]
          by (intro contacts_unique_snoc) (auto simp: import_ok_def e(2))
        moreover have "import_row ev header tag i row st = st\<lparr>im_vault := ?v\<lparr>v_contacts := v_contacts ?v @ [?c]\<rparr>, im_imported := im_imported st + 1\<rparr>"
          using True row Inr by (simp add: import_row_def Let_def)
        ultimately show ?thesis using ok new s unfolding import_ok_def by auto
      qed
    qed
  qed
qed

lemma import_rows_ok: "import_ok ev header v prev st \<Longrightarrow> import_ok ev header v (prev @ rows) (import_rows ev header tag i rows st)"
  by (induction rows arbitrary: prev i st) (simp, metis append.assoc append_Cons append_Nil import_row_ok import_rows.simps(2))


section \<open>Witnesses\<close>

definition demo_admin :: admin_env where
  "demo_admin = \<lparr>ae_crypto = (plain_crypto JNull)\<lparr>sha256_hex := (\<lambda>s. s)\<rparr>, ae_now = 100, ae_seq = (\<lambda>_. 0), ae_repr = (\<lambda>s. s)\<rparr>"

definition tagged :: "int \<Rightarrow> string \<Rightarrow> contact" where
  "tagged i t = \<lparr>ct_id = i, ct_email = ''c'' @ dec_int i, ct_name = None, ct_tags = Some t, ct_consent_ts = [], ct_consent_source = ''manual'',
     ct_external_id = None, ct_created_at = [], ct_updated_at = []\<rparr>"

theorem rename_tag_exact_witness:
  "\<exists>v' n. rename_tag demo_admin ''vip '' ''gold'' (empty_vault\<lparr>v_contacts := [tagged 1 ''new|VIP|vip'', tagged 2 ''vip_x'']\<rparr>) = Inr (v', n) \<and>
     contact_tags (v_contacts v' ! 0) = [''new'', ''VIP'', ''gold''] \<and> contact_tags (v_contacts v' ! 1) = [''vip_x'']"
proof -
  let ?v = "empty_vault\<lparr>v_contacts := [tagged 1 ''new|VIP|vip'', tagged 2 ''vip_x'']\<rparr>"
  have s: "strip ''vip '' = ''vip''" "strip ''gold'' = ''gold''" by code_simp+
  then obtain v' n where r: "rename_tag demo_admin ''vip '' ''gold'' ?v = Inr (v', n)" by (simp add: rename_tag_def Let_def)
  have "contact_tags (tagged 1 ''new|VIP|vip'') = [''new'', ''VIP'', ''vip'']" "contact_tags (tagged 2 ''vip_x'') = [''vip_x'']"
    by (simp_all add: contact_tags_def tagged_def opt_or_def py_or_def)
  moreover have "strip ''new'' = ''new''" "strip ''VIP'' = ''VIP''" "strip ''vip'' = ''vip''" "strip ''vip_x'' = ''vip_x''" by code_simp+
  moreover have "v_contacts ?v ! 0 = tagged 1 ''new|VIP|vip''" "v_contacts ?v ! 1 = tagged 2 ''vip_x''" "length (v_contacts ?v) = 2" by simp_all
  moreover have "let c = v_contacts ?v ! k; d = v_contacts v' ! k in contact_tags d = map (\<lambda>t. if strip t = ''vip'' then ''gold'' else t) (contact_tags c)"
    if "k < length (v_contacts ?v)" for k
    using rename_tag_exact [OF _ _ _ r] that unfolding s by (auto simp: Let_def)
  from this [of 0] this [of 1] calculation have "contact_tags (v_contacts v' ! 0) = [''new'', ''VIP'', ''gold'']" "contact_tags (v_contacts v' ! 1) = [''vip_x'']"
    by (simp_all add: Let_def)
  with r show ?thesis by blast
qed

theorem delete_tag_exact_witness:
  "\<exists>v' n. delete_tag demo_admin ''vip'' (empty_vault\<lparr>v_contacts := [tagged 1 ''new|VIP|vip'']\<rparr>) = Inr (v', n) \<and>
     filter (\<lambda>t. t \<noteq> []) (contact_tags (v_contacts v' ! 0)) = [''new'', ''VIP'']"
proof -
  let ?v = "empty_vault\<lparr>v_contacts := [tagged 1 ''new|VIP|vip'']\<rparr>"
  have s: "strip ''vip'' = ''vip''" "strip ''new'' = ''new''" "strip ''VIP'' = ''VIP''" by code_simp+
  then obtain v' n where r: "delete_tag demo_admin ''vip'' ?v = Inr (v', n)" by (simp add: delete_tag_def Let_def)
  have t: "contact_tags (tagged 1 ''new|VIP|vip'') = [''new'', ''VIP'', ''vip'']"
    by (simp add: contact_tags_def tagged_def opt_or_def py_or_def)
  have "filter (\<lambda>t. t \<noteq> []) (contact_tags (v_contacts v' ! 0)) = filter (\<lambda>t. t \<noteq> [] \<and> strip t \<noteq> strip ''vip'') (contact_tags (v_contacts ?v ! 0))"
    using delete_tag_exact [OF r] by (auto simp: Let_def)
  then show ?thesis using r s t by auto
qed


end
