(* ===== verification/Admin_Auth.thy ===== *)
theory Admin_Auth
  imports Admin_Catalog Mail_Render
begin

text \<open>
  The sign-in of the terminal (terminal/auth.py): the signed session token, the check of the operators table with
  the fallback to the administrator of the settings, and the guards of the admin routes. \<open>bcrypt.checkpw\<close> is an
  argument (\<open>None\<close> when it raises), settings are read through a function as in the launch.
\<close>

record auth_env =
  au_lib :: token_lib
  au_conf :: "string \<Rightarrow> string option"
  au_checkpw :: "string \<Rightarrow> string \<Rightarrow> bool option"

section \<open>Session tokens\<close>

definition jwt_secret :: "auth_env \<Rightarrow> string" where
  "jwt_secret ev = conf_or (au_conf ev) ''jwt_secret'' []"

definition session_ttl_s :: "auth_env \<Rightarrow> int" where
  "session_ttl_s ev = conf_int (au_conf ev) ''session_ttl_s'' 86400"

text \<open>The keys of a dict, in the order in which they are written.\<close>

definition session_payload :: "string \<Rightarrow> string \<Rightarrow> int \<Rightarrow> int \<Rightarrow> json" where
  "session_payload sub role iat ends = JObj [(''exp'', JInt ends), (''iat'', JInt iat), (''role'', JStr role), (''sub'', JStr sub)]"

definition auth_sign :: "auth_env \<Rightarrow> json \<Rightarrow> exc + string" where
  "auth_sign ev payload =
     (let secret = jwt_secret ev in
      if secret = [] then Inl (RuntimeError ''JWT_SECRET not set in settings - set via admin UI'')
      else Inr (sign_payload (au_lib ev) secret payload))"

text \<open>The check of the decoded payload; \<open>payload.get\<close> of a value that is no dict raises.\<close>

definition session_alive :: "int \<Rightarrow> json \<Rightarrow> exc + json option" where
  "session_alive now payload =
     (case payload of
        JObj kvs \<Rightarrow>
          bindE (py_int (case map_of kvs ''exp'' of None \<Rightarrow> JInt 0 | Some x \<Rightarrow> x)) (\<lambda>ends.
          Inr (if ends < now then None else Some payload))
      | _ \<Rightarrow> Inl (TypeError ''get''))"

definition auth_verify :: "auth_env \<Rightarrow> int \<Rightarrow> string \<Rightarrow> exc + json option" where
  "auth_verify ev now tok =
     (case partition_at CHR ''.'' tok of
        (payload_b64, dot, sig_b64) \<Rightarrow>
          let secret = jwt_secret ev in
          if \<not> dot \<or> secret = [] then Inr None
          else
            bindE (b64u_decode_str sig_b64) (\<lambda>sig.
            if sig \<noteq> hmac_sha256 (au_lib ev) secret payload_b64 then Inr None
            else
              (case b64u_decode_str payload_b64 of
                 Inl _ \<Rightarrow> Inr None
               | Inr b \<Rightarrow> (case text_loads (au_lib ev) b of None \<Rightarrow> Inr None | Some payload \<Rightarrow> session_alive now payload))))"

text \<open>The guards of the routes: without a session the browser is sent to the login page.\<close>

definition auth_required :: admin_error where
  "auth_required = HttpError 307 ''auth required''"

definition require_session :: "auth_env \<Rightarrow> int \<Rightarrow> string option \<Rightarrow> admin_error + json" where
  "require_session ev now session =
     (case (if truthy session then auth_verify ev now (opt_or session []) else Inr None) of
        Inl e \<Rightarrow> Inl (Unhandled ''verify'')
      | Inr None \<Rightarrow> Inl auth_required
      | Inr (Some payload) \<Rightarrow> if payload = JObj [] then Inl auth_required else Inr payload)"

definition require_admin :: "auth_env \<Rightarrow> int \<Rightarrow> string option \<Rightarrow> admin_error + json" where
  "require_admin ev now session =
     bindE (require_session ev now session) (\<lambda>payload. bindE (require_admin_role payload) (\<lambda>_. Inr payload))"

section \<open>Login\<close>

definition check_operator :: "auth_env \<Rightarrow> string \<Rightarrow> string \<Rightarrow> vault \<Rightarrow> operator option" where
  "check_operator ev email password v =
     (case find (\<lambda>q. op_email q = lower (strip email)) (v_operators v) of
        None \<Rightarrow> None
      | Some row \<Rightarrow>
          if op_active row = 0 then None
          else if au_checkpw ev password (op_password_hash row) = Some True then Some row else None)"

definition update_last_login :: "int \<Rightarrow> int \<Rightarrow> vault \<Rightarrow> vault" where
  "update_last_login now i v =
     v\<lparr>v_operators := update_where (\<lambda>q. op_id q = i) (\<lambda>q. q\<lparr>op_last_login_at := Some (sql_time now)\<rparr>) (v_operators v)\<rparr>"

text \<open>A redirect with the session cookie and its age, or back to the page with an error.\<close>

datatype login_answer = Opened string int | Invalid_credentials

definition open_session :: "auth_env \<Rightarrow> int \<Rightarrow> string \<Rightarrow> string \<Rightarrow> admin_error + login_answer" where
  "open_session ev now sub role =
     (let ttl = session_ttl_s ev in
      case auth_sign ev (session_payload sub role now (now + ttl)) of
        Inl e \<Rightarrow> Inl (Unhandled ''sign'')
      | Inr tok \<Rightarrow> Inr (Opened tok ttl))"

definition legacy_admin :: "auth_env \<Rightarrow> string \<Rightarrow> string \<Rightarrow> bool" where
  "legacy_admin ev email password \<longleftrightarrow>
     (let admin_email = conf_or (au_conf ev) ''admin_email'' []; admin_hash = conf_or (au_conf ev) ''admin_password_hash'' [] in
      admin_email \<noteq> [] \<and> admin_hash \<noteq> [] \<and> lower (strip email) = lower (strip admin_email) \<and>
      au_checkpw ev password admin_hash = Some True)"

definition login :: "auth_env \<Rightarrow> int \<Rightarrow> string \<Rightarrow> string \<Rightarrow> vault \<Rightarrow> vault \<times> (admin_error + login_answer)" where
  "login ev now email password v =
     (if jwt_secret ev = [] then (v, Inl (HttpError 503 ''jwt_secret not set - configure via admin UI''))
      else
        (case check_operator ev email password v of
           Some row \<Rightarrow> (update_last_login now (op_id row) v, open_session ev now (op_email row) (op_role row))
         | None \<Rightarrow>
             if legacy_admin ev email password then (v, open_session ev now email ''admin'')
             else (v, Inr Invalid_credentials)))"

section \<open>Properties\<close>

lemma auth_verify_signed:
  assumes "jwt_secret ev \<noteq> []" "text_loads (au_lib ev) (compact_dumps (au_lib ev) p) = Some p"
  shows "auth_verify ev now (sign_payload (au_lib ev) (jwt_secret ev) p) = session_alive now p"
  using assms by (simp add: auth_verify_def sign_payload_def Let_def)

lemma session_alive_own: "session_alive now (session_payload sub role iat ends) = Inr (if ends < now then None else Some (session_payload sub role iat ends))"
  by (simp add: session_alive_def session_payload_def py_int_def)

text \<open>An accepted session was signed with the secret of the terminal, and has not ended.\<close>

lemma require_session_signed:
  assumes "require_session ev now session = Inr p"
  obtains b64 sig b where "partition_at CHR ''.'' (opt_or session []) = (b64, True, sig)" "jwt_secret ev \<noteq> []"
    "b64u_decode_str sig = Inr (hmac_sha256 (au_lib ev) (jwt_secret ev) b64)" "b64u_decode_str b64 = Inr b"
    "text_loads (au_lib ev) b = Some p" "session_alive now p = Inr (Some p)"
proof -
  from assms have v: "auth_verify ev now (opt_or session []) = Inr (Some p)"
    by (auto simp: require_session_def split: sum.splits option.splits if_splits)
  obtain b64 dot sig where t: "partition_at CHR ''.'' (opt_or session []) = (b64, dot, sig)" by (cases "partition_at CHR ''.'' (opt_or session [])")
  from v t obtain b q where "dot" "jwt_secret ev \<noteq> []" "b64u_decode_str sig = Inr (hmac_sha256 (au_lib ev) (jwt_secret ev) b64)"
      "b64u_decode_str b64 = Inr b" "text_loads (au_lib ev) b = Some q" "session_alive now q = Inr (Some p)"
    by (auto simp: auth_verify_def Let_def bindE_def split: if_splits sum.splits option.splits)
  moreover have "q = p" using \<open>session_alive now q = _\<close> by (auto simp: session_alive_def bindE_def split: json.splits sum.splits if_splits)
  ultimately show thesis using t by (intro that [of b64 sig b]) auto
qed

definition may_sign_in :: "auth_env \<Rightarrow> string \<Rightarrow> string \<Rightarrow> vault \<Rightarrow> string \<Rightarrow> string \<Rightarrow> bool" where
  "may_sign_in ev email password v sub role \<longleftrightarrow>
     (\<exists>q\<in>set (v_operators v). op_email q = lower (strip email) \<and> op_active q \<noteq> 0 \<and>
        au_checkpw ev password (op_password_hash q) = Some True \<and> sub = op_email q \<and> role = op_role q) \<or>
     legacy_admin ev email password \<and> sub = email \<and> role = ''admin''"

lemma login_opened:
  assumes "login ev now email password v = (v', Inr (Opened tok ttl))"
  obtains sub role where "may_sign_in ev email password v sub role" "jwt_secret ev \<noteq> []"
    "tok = sign_payload (au_lib ev) (jwt_secret ev) (session_payload sub role now (now + ttl))"
proof -
  from assms have j: "jwt_secret ev \<noteq> []" by (auto simp: login_def)
  have o: "tok = sign_payload (au_lib ev) (jwt_secret ev) (session_payload sub role now (now + ttl))"
    if "open_session ev now sub role = Inr (Opened tok ttl)" for sub role
    using that j by (auto simp: open_session_def auth_sign_def Let_def)
  show thesis
  proof (cases "check_operator ev email password v")
    case None
    with assms j have "legacy_admin ev email password" "open_session ev now email ''admin'' = Inr (Opened tok ttl)"
      by (auto simp: login_def split: if_splits)
    with o j show thesis by (intro that [of email "''admin''"]) (simp_all add: may_sign_in_def)
  next
    case (Some row)
    then have "find (\<lambda>q. op_email q = lower (strip email)) (v_operators v) = Some row" "op_active row \<noteq> 0"
        "au_checkpw ev password (op_password_hash row) = Some True"
      by (auto simp: check_operator_def split: option.splits if_splits)
    then have "may_sign_in ev email password v (op_email row) (op_role row)"
      unfolding may_sign_in_def by (auto simp: find_Some_iff)
    moreover have "open_session ev now (op_email row) (op_role row) = Inr (Opened tok ttl)" using assms j Some by (simp add: login_def)
    ultimately show thesis using o j by (intro that)
  qed
qed


section \<open>Witness\<close>

definition demo_operator :: operator where
  "demo_operator = \<lparr>op_id = 1, op_email = ''a@b'', op_password_hash = ''pw'', op_role = ''operator'', op_created_at = [], op_last_login_at = None, op_active = 1\<rparr>"

definition demo_auth :: auth_env where
  "demo_auth = \<lparr>au_lib = demo_lib (session_payload ''a@b'' ''operator'' 5 15),
     au_conf = (\<lambda>k. if k = ''jwt_secret'' then Some ''s'' else if k = ''session_ttl_s'' then Some ''10'' else None), au_checkpw = (\<lambda>p h. Some (p = h))\<rparr>"


end
