(* ===== verification/Admin_Schema.thy ===== *)
theory Admin_Schema
  imports Admin_Sending Contact_Properties Admin_Auth
begin

text \<open>
  The schema of the terminal database (terminal/models.py) as a type of the tables: primary keys and unique
  columns, foreign keys and \<open>CHECK\<close> lists. SQLite enforces it on every statement; the model of a statement
  writes rows directly, so the schema is an invariant to prove: every operation of the admin pages keeps it,
  because each one checks, or refuses, what the constraint would.
\<close>

section \<open>The tables\<close>

definition contact_table :: "contact list \<Rightarrow> bool" where
  "contact_table rows \<longleftrightarrow> contacts_unique rows"

definition template_table :: "template list \<Rightarrow> bool" where
  "template_table rows \<longleftrightarrow> distinct (map tp_id rows) \<and> distinct (map tp_name rows)"

definition entity_table :: "entity list \<Rightarrow> bool" where
  "entity_table rows \<longleftrightarrow> distinct (map en_id rows) \<and> distinct (map en_name rows)"

definition operator_table :: "operator list \<Rightarrow> bool" where
  "operator_table rows \<longleftrightarrow> distinct (map op_id rows) \<and> distinct (map op_email rows) \<and> (\<forall>q\<in>set rows. op_role q \<in> {''admin'', ''operator''})"

definition seed_table :: "seed_address list \<Rightarrow> bool" where
  "seed_table rows \<longleftrightarrow> distinct (map sd_id rows) \<and> distinct (map sd_email rows)"

definition suppression_table :: "suppression list \<Rightarrow> bool" where
  "suppression_table rows \<longleftrightarrow> distinct (map sh_email_hash rows) \<and> (\<forall>s\<in>set rows. sh_reason s \<in> set suppress_reasons)"

definition campaign_kinds :: "string list" where
  "campaign_kinds = [''transactional'', ''promotional'']"

definition campaign_statuses :: "string list" where
  "campaign_statuses = [''draft'', ''tested'', ''scheduled'', ''dispatched'', ''sending'', ''sent'', ''cancelled'', ''paused'', ''failed'', ''archived'']"

definition campaign_table :: "campaign list \<Rightarrow> bool" where
  "campaign_table rows \<longleftrightarrow> distinct (map ca_id rows) \<and>
     (\<forall>c\<in>set rows. ca_kind c \<in> set campaign_kinds \<and> ca_status c \<in> set campaign_statuses)"

definition recipient_statuses :: "string list" where
  "recipient_statuses = [''queued'', ''sent'', ''delivered'', ''opened'', ''clicked'', ''bounced'', ''complained'', ''failed'', ''cancelled'']"

definition recipient_table :: "recipient list \<Rightarrow> bool" where
  "recipient_table rows \<longleftrightarrow> distinct (map cr_id rows) \<and> distinct (map (\<lambda>r. (cr_campaign_id r, cr_contact_id r)) rows) \<and>
     (\<forall>r\<in>set rows. cr_status r \<in> set recipient_statuses)"

definition stage_table :: "stage list \<Rightarrow> bool" where
  "stage_table rows \<longleftrightarrow> distinct (map sg_id rows) \<and> distinct (map (\<lambda>s. (sg_campaign_id s, sg_stage_number s)) rows)"

definition batch_statuses :: "string list" where
  "batch_statuses = [''pending'', ''scheduled'', ''sending'', ''drained'', ''cooldown'', ''approved'', ''done'', ''cancelled'']"

definition batch_table :: "batch list \<Rightarrow> bool" where
  "batch_table rows \<longleftrightarrow> distinct (map cb_id rows) \<and> distinct (map (\<lambda>b. (cb_campaign_id b, cb_batch_no b)) rows) \<and>
     (\<forall>b\<in>set rows. cb_status b \<in> set batch_statuses)"

section \<open>The references\<close>

definition references :: "vault \<Rightarrow> bool" where
  "references v \<longleftrightarrow>
     (let campaigns = ca_id ` set (v_campaigns v); contacts = ct_id ` set (v_contacts v);
          templates = tp_id ` set (v_templates v); entities = en_id ` set (v_entities v)
      in (\<forall>c\<in>set (v_campaigns v). ca_template_id c \<in> templates \<and> (\<forall>e. ca_entity_id c = Some e \<longrightarrow> e \<in> entities)) \<and>
         (\<forall>r\<in>set (v_recipients v). cr_campaign_id r \<in> campaigns \<and> cr_contact_id r \<in> contacts) \<and>
         (\<forall>j\<in>set (v_jobs v). dj_campaign_id j \<in> campaigns \<and> dj_recipient_id j \<in> contacts) \<and>
         (\<forall>s\<in>set (v_stages v). sg_campaign_id s \<in> campaigns \<and> sg_template_id s \<in> templates))"

definition schema_ok :: "vault \<Rightarrow> bool" where
  "schema_ok v \<longleftrightarrow>
     contact_table (v_contacts v) \<and> template_table (v_templates v) \<and> entity_table (v_entities v) \<and> operator_table (v_operators v) \<and>
     seed_table (v_seeds v) \<and> suppression_table (v_suppressions v) \<and> campaign_table (v_campaigns v) \<and> recipient_table (v_recipients v) \<and>
     stage_table (v_stages v) \<and> batch_table (v_batches v) \<and> references v"

lemma schemaD:
  assumes "schema_ok v"
  shows "contact_table (v_contacts v)" "template_table (v_templates v)" "entity_table (v_entities v)" "operator_table (v_operators v)"
    "seed_table (v_seeds v)" "suppression_table (v_suppressions v)" "campaign_table (v_campaigns v)" "recipient_table (v_recipients v)"
    "stage_table (v_stages v)" "batch_table (v_batches v)"
  using assms by (simp_all add: schema_ok_def)

section \<open>One table written\<close>

lemma schema_by_operator [simp]: "schema_ok (by_operator ev a t d v) = schema_ok v"
  by (simp add: schema_ok_def references_def by_operator_def audit_def)

lemma schema_audit [simp]: "schema_ok (audit cr now ac a t d v) = schema_ok v"
  by (simp add: schema_ok_def references_def audit_def)

named_theorems schema_write

lemma schema_contacts [schema_write]:
  assumes "schema_ok v" "contact_table rows" "\<And>i. i \<in> ct_id ` set (v_contacts v) \<Longrightarrow> contact_in_use i v \<Longrightarrow> i \<in> ct_id ` set rows"
  shows "schema_ok (v\<lparr>v_contacts := rows\<rparr>)"
proof -
  have "cr_contact_id r \<in> ct_id ` set rows" if "r \<in> set (v_recipients v)" for r
    using assms(1) that by (intro assms(3)) (simp_all add: schema_ok_def references_def Let_def contact_in_use_def)
  moreover have "dj_recipient_id j \<in> ct_id ` set rows" if "j \<in> set (v_jobs v)" for j
    using assms(1) that by (intro assms(3)) (simp_all add: schema_ok_def references_def Let_def contact_in_use_def)
  ultimately show ?thesis using assms(1,2) by (simp add: schema_ok_def references_def Let_def)
qed

lemma schema_templates [schema_write]:
  assumes "schema_ok v" "template_table rows"
    and "\<And>i. i \<in> tp_id ` set (v_templates v) \<Longrightarrow> i \<in> ca_template_id ` set (v_campaigns v) \<or> i \<in> sg_template_id ` set (v_stages v) \<Longrightarrow> i \<in> tp_id ` set rows"
  shows "schema_ok (v\<lparr>v_templates := rows\<rparr>)"
proof -
  have "ca_template_id c \<in> tp_id ` set rows" if "c \<in> set (v_campaigns v)" for c
    using assms(1) that by (intro assms(3)) (simp_all add: schema_ok_def references_def Let_def)
  moreover have "sg_template_id s \<in> tp_id ` set rows" if "s \<in> set (v_stages v)" for s
    using assms(1) that by (intro assms(3)) (simp_all add: schema_ok_def references_def Let_def)
  ultimately show ?thesis using assms(1,2) by (simp add: schema_ok_def references_def Let_def)
qed

lemma schema_entities [schema_write]:
  "schema_ok v \<Longrightarrow> entity_table rows \<Longrightarrow> en_id ` set (v_entities v) \<subseteq> en_id ` set rows \<Longrightarrow> schema_ok (v\<lparr>v_entities := rows\<rparr>)"
  unfolding schema_ok_def references_def Let_def by (simp add: subset_iff)

lemma schema_operators [schema_write]: "schema_ok v \<Longrightarrow> operator_table rows \<Longrightarrow> schema_ok (v\<lparr>v_operators := rows\<rparr>)"
  by (simp add: schema_ok_def references_def)

lemma schema_seeds [schema_write]: "schema_ok v \<Longrightarrow> seed_table rows \<Longrightarrow> schema_ok (v\<lparr>v_seeds := rows\<rparr>)"
  by (simp add: schema_ok_def references_def)

lemma schema_suppressions [schema_write]: "schema_ok v \<Longrightarrow> suppression_table rows \<Longrightarrow> schema_ok (v\<lparr>v_suppressions := rows\<rparr>)"
  by (simp add: schema_ok_def references_def)

lemma schema_batches [schema_write]: "schema_ok v \<Longrightarrow> batch_table rows \<Longrightarrow> schema_ok (v\<lparr>v_batches := rows\<rparr>)"
  by (simp add: schema_ok_def references_def)

lemma schema_recipients [schema_write]:
  "schema_ok v \<Longrightarrow> recipient_table rows \<Longrightarrow>
   (\<forall>r\<in>set rows. cr_campaign_id r \<in> ca_id ` set (v_campaigns v) \<and> cr_contact_id r \<in> ct_id ` set (v_contacts v)) \<Longrightarrow>
   schema_ok (v\<lparr>v_recipients := rows\<rparr>)"
  by (simp add: schema_ok_def references_def)

lemma schema_stages [schema_write]:
  "schema_ok v \<Longrightarrow> stage_table rows \<Longrightarrow>
   (\<forall>s\<in>set rows. sg_campaign_id s \<in> ca_id ` set (v_campaigns v) \<and> sg_template_id s \<in> tp_id ` set (v_templates v)) \<Longrightarrow>
   schema_ok (v\<lparr>v_stages := rows\<rparr>)"
  by (simp add: schema_ok_def references_def)

lemma schema_campaigns [schema_write]:
  "schema_ok v \<Longrightarrow> campaign_table rows \<Longrightarrow> ca_id ` set (v_campaigns v) \<subseteq> ca_id ` set rows \<Longrightarrow>
   (\<forall>c\<in>set rows. ca_template_id c \<in> tp_id ` set (v_templates v) \<and> (\<forall>e. ca_entity_id c = Some e \<longrightarrow> e \<in> en_id ` set (v_entities v))) \<Longrightarrow>
   schema_ok (v\<lparr>v_campaigns := rows\<rparr>)"
  unfolding schema_ok_def references_def Let_def by (simp add: subset_iff)

section \<open>Columns\<close>

lemma distinct_snoc_key: "distinct (map f (rows @ [r])) = (f r \<notin> f ` set rows \<and> distinct (map f rows))"
  by auto

lemma distinct_keep: "(\<And>r. f (g r) = f r) \<Longrightarrow> distinct (map f (update_where p g rows)) = distinct (map f rows)"
  by (simp add: map_update_where)

lemma distinct_rekey:
  "distinct (map rid rows) \<Longrightarrow> distinct (map f rows) \<Longrightarrow> \<forall>q\<in>set rows. rid q \<noteq> i \<longrightarrow> f q \<noteq> n \<Longrightarrow>
   \<forall>q\<in>set rows. rid q = i \<longrightarrow> f (g q) = n \<Longrightarrow> distinct (map f (update_where (\<lambda>r. rid r = i) g rows))"
proof (induction rows)
  case (Cons r rows)
  have u: "rid r = i \<Longrightarrow> update_where (\<lambda>r. rid r = i) g rows = rows"
    using Cons.prems(1) by (intro update_where_nothing) (force simp: image_iff)
  show ?case
  proof (cases "rid r = i")
    case True
    then have "\<forall>q\<in>set rows. f q \<noteq> n" using Cons.prems(1,3) by (force simp: image_iff)
    then show ?thesis using True u Cons.prems(2,4) by (auto simp: update_where_def)
  next
    case False
    then have "f r \<notin> f ` set (update_where (\<lambda>r. rid r = i) g rows)"
      using Cons.prems(2,3,4) by (auto simp: set_update_where split: if_splits)
    moreover have "distinct (map f (update_where (\<lambda>r. rid r = i) g rows))" using Cons by simp
    moreover have "update_where (\<lambda>r. rid r = i) g (r # rows) = r # update_where (\<lambda>r. rid r = i) g rows"
      using False by (simp add: update_where_def)
    ultimately show ?thesis by simp
  qed
qed (simp add: update_where_def)

lemma ball_update_where: "\<forall>r\<in>set rows. P r \<Longrightarrow> (\<And>r. r \<in> set rows \<Longrightarrow> p r \<Longrightarrow> P (g r)) \<Longrightarrow> \<forall>r\<in>set (update_where p g rows). P r"
  by (auto simp: update_where_def)

lemma ids_update_where: "(\<And>r. f (g r) = f r) \<Longrightarrow> f ` set (update_where p g rows) = f ` set rows"
  by (metis list.set_map map_update_where)

section \<open>Contacts\<close>

lemma contact_table_snoc:
  "contact_table rows \<Longrightarrow> \<forall>d\<in>set rows. \<not> contact_clash c d \<Longrightarrow> ct_id c \<notin> ct_id ` set rows \<Longrightarrow> contact_table (rows @ [c])"
  by (auto simp: contact_table_def contacts_unique_def contact_clash_def map_filter_snoc map_filter_def split: option.split)

lemma contact_table_keep:
  "(\<And>c. ct_id (g c) = ct_id c \<and> ct_email (g c) = ct_email c \<and> ct_external_id (g c) = ct_external_id c) \<Longrightarrow>
   contact_table (update_where p g rows) = contact_table rows"
  by (simp add: contact_table_def contacts_unique_def map_update_where map_filter_def filter_map update_where_def comp_def if_distrib cong: if_cong)

lemma contact_table_filter: "contact_table rows \<Longrightarrow> contact_table (filter p rows)"
  by (auto simp: contact_table_def contacts_unique_def map_filter_def distinct_map_filter filter_map distinct_map inj_on_def)

lemma new_contact_id: "ct_id (new_contact ev e n t s x v) \<notin> ct_id ` set (v_contacts v)"
  by (simp add: new_contact_def auto_id_not_in)

lemma schema_new_contact:
  "schema_ok v \<Longrightarrow> c = new_contact ev e n t s x v \<Longrightarrow> \<not> (\<exists>d\<in>set (v_contacts v). contact_clash c d) \<Longrightarrow>
   schema_ok (v\<lparr>v_contacts := v_contacts v @ [c]\<rparr>)"
  by (rule schema_contacts) (auto simp: schema_ok_def intro!: contact_table_snoc new_contact_id)

lemma schema_change_contacts:
  "schema_ok v \<Longrightarrow> (\<And>c. ct_id (g c) = ct_id c \<and> ct_email (g c) = ct_email c \<and> ct_external_id (g c) = ct_external_id c) \<Longrightarrow>
   schema_ok (v\<lparr>v_contacts := update_where p g (v_contacts v)\<rparr>)"
  by (rule schema_contacts) (simp_all add: schema_ok_def contact_table_keep ids_update_where)

lemma schema_drop_contact:
  assumes "schema_ok v" "drop_contact i v = Inr (v', n)"
  shows "schema_ok v'"
proof -
  have "contact_table (filter (\<lambda>c. ct_id c \<noteq> i) (v_contacts v))"
    using assms(1) by (simp add: schema_ok_def contact_table_filter)
  moreover have "v' = v\<lparr>v_contacts := filter (\<lambda>c. ct_id c \<noteq> i) (v_contacts v)\<rparr>" "i \<in> ct_id ` set (v_contacts v) \<longrightarrow> \<not> contact_in_use i v"
    using assms(2) by (auto simp: drop_contact_def Let_def rowcount_def filter_empty_conv split: if_splits)
  ultimately show ?thesis unfolding \<open>v' = _\<close> by (intro schema_contacts [OF assms(1)]) (auto simp: image_iff)
qed

lemma schema_drop_contacts: "schema_ok v \<Longrightarrow> drop_contacts is v = Inr (v', n) \<Longrightarrow> schema_ok v'"
proof (induction "is" arbitrary: v n)
  case (Cons i "is")
  from Cons.prems(2) obtain v1 n1 m where "drop_contact i v = Inr (v1, n1)" "drop_contacts is v1 = Inr (v', m)"
    by (auto simp: bindE_def split: sum.splits)
  with Cons.IH schema_drop_contact [OF Cons.prems(1)] show ?case by blast
qed simp

lemma schema_import_row: "schema_ok (im_vault st) \<Longrightarrow> schema_ok (im_vault (import_row ev header tag i row st))"
  by (auto simp: import_row_def Let_def split: sum.splits intro!: schema_new_contact [OF _ refl])

lemma schema_import_rows: "schema_ok (im_vault st) \<Longrightarrow> schema_ok (im_vault (import_rows ev header tag i rows st))"
  by (induction rows arbitrary: i st) (simp_all add: schema_import_row)

lemma schema_add_suppression: "schema_ok v \<Longrightarrow> schema_ok (add_suppression h reason source t v)"
  by (auto simp: add_suppression_def insert_or_ignore_def schema_ok_def suppression_table_def references_def)

section \<open>Catalogue\<close>

lemma schema_update_campaigns:
  "schema_ok v \<Longrightarrow>
   (\<And>c. c \<in> set (v_campaigns v) \<Longrightarrow> p c \<Longrightarrow> ca_id (g c) = ca_id c \<and> ca_kind (g c) \<in> set campaign_kinds \<and> ca_status (g c) \<in> set campaign_statuses \<and>
      ca_template_id (g c) = ca_template_id c \<and> (\<forall>e. ca_entity_id (g c) = Some e \<longrightarrow> e \<in> en_id ` set (v_entities v))) \<Longrightarrow>
   schema_ok (v\<lparr>v_campaigns := update_where p g (v_campaigns v)\<rparr>)"
proof -
  assume s: "schema_ok v" and g: "\<And>c. c \<in> set (v_campaigns v) \<Longrightarrow> p c \<Longrightarrow> ca_id (g c) = ca_id c \<and> ca_kind (g c) \<in> set campaign_kinds \<and>
      ca_status (g c) \<in> set campaign_statuses \<and> ca_template_id (g c) = ca_template_id c \<and> (\<forall>e. ca_entity_id (g c) = Some e \<longrightarrow> e \<in> en_id ` set (v_entities v))"
  have ids: "map ca_id (update_where p g (v_campaigns v)) = map ca_id (v_campaigns v)"
    using g by (simp add: update_where_def)
  have "campaign_table (update_where p g (v_campaigns v))"
    using s g unfolding campaign_table_def ids schema_ok_def by (auto simp: set_update_where)
  moreover have "ca_id ` set (update_where p g (v_campaigns v)) = ca_id ` set (v_campaigns v)" using ids by (metis list.set_map)
  moreover have "ca_template_id c \<in> tp_id ` set (v_templates v) \<and> (\<forall>e. ca_entity_id c = Some e \<longrightarrow> e \<in> en_id ` set (v_entities v))"
    if "c \<in> set (update_where p g (v_campaigns v))" for c
  proof -
    from that obtain d where "d \<in> set (v_campaigns v)" "c = (if p d then g d else d)" by (auto simp: set_update_where)
    moreover have "ca_template_id d \<in> tp_id ` set (v_templates v)" "\<forall>e. ca_entity_id d = Some e \<longrightarrow> e \<in> en_id ` set (v_entities v)"
      using s \<open>d \<in> _\<close> by (simp_all add: schema_ok_def references_def Let_def)
    ultimately show ?thesis using g [of d] by (cases "p d") simp_all
  qed
  ultimately show ?thesis using s by (intro schema_campaigns) simp_all
qed

lemma schema_set_campaign:
  "schema_ok v \<Longrightarrow>
   (\<And>c. c \<in> set (v_campaigns v) \<Longrightarrow> ca_id (f c) = ca_id c \<and> ca_kind (f c) = ca_kind c \<and> ca_status (f c) \<in> set campaign_statuses \<and>
      ca_template_id (f c) = ca_template_id c \<and> (\<forall>e. ca_entity_id (f c) = Some e \<longrightarrow> e \<in> en_id ` set (v_entities v))) \<Longrightarrow>
   schema_ok (set_campaign ev i f v)"
  unfolding set_campaign_def by (rule schema_update_campaigns) (auto simp: schema_ok_def campaign_table_def)

lemma schema_row_refs: "schema_ok v \<Longrightarrow> c \<in> set (v_campaigns v) \<Longrightarrow> ca_entity_id c = Some e \<Longrightarrow> e \<in> en_id ` set (v_entities v)"
  by (simp add: schema_ok_def references_def Let_def)

lemma schema_row_status: "schema_ok v \<Longrightarrow> c \<in> set (v_campaigns v) \<Longrightarrow> ca_status c \<in> set campaign_statuses"
  by (simp add: schema_ok_def campaign_table_def)

lemma schema_new_campaign:
  assumes "schema_ok v" "ca_id c = auto_id ev ''campaigns'' ca_id (v_campaigns v)" "ca_kind c \<in> set campaign_kinds" "ca_status c \<in> set campaign_statuses"
    and "ca_template_id c \<in> tp_id ` set (v_templates v)" "\<forall>e. ca_entity_id c = Some e \<longrightarrow> e \<in> en_id ` set (v_entities v)"
  shows "schema_ok (v\<lparr>v_campaigns := v_campaigns v @ [c]\<rparr>)"
proof (rule schema_campaigns [OF assms(1)])
  show "campaign_table (v_campaigns v @ [c])"
    using assms(1-4) auto_id_not_in [of ev "''campaigns''" ca_id "v_campaigns v"] by (auto simp: schema_ok_def campaign_table_def)
qed (use assms(1,5,6) in \<open>auto simp: schema_ok_def references_def Let_def\<close>)

lemma schema_template_row:
  "schema_ok v \<Longrightarrow> ti_name t \<notin> tp_name ` set (v_templates v) \<Longrightarrow> schema_ok (v\<lparr>v_templates := v_templates v @ [new_template ev t v]\<rparr>)"
  using auto_id_not_in [of ev "''templates''" tp_id "v_templates v"]
  by (intro schema_templates) (auto simp: schema_ok_def template_table_def new_template_def)

lemma schema_create_template: "schema_ok v \<Longrightarrow> create_template ev t v = Inr (v', r) \<Longrightarrow> schema_ok v'"
  by (auto simp: create_template_def Let_def schema_template_row split: if_splits)

lemma schema_update_template:
  assumes "schema_ok v" "update_template ev i t v = Inr (v', r)"
  shows "schema_ok v'"
proof -
  have "template_table (update_where (\<lambda>r. tp_id r = i) (write_template ev t) (v_templates v))"
    using assms unfolding template_table_def
    by (intro conjI distinct_rekey [where n = "ti_name t"]) (auto simp: update_template_def Let_def schema_ok_def template_table_def write_template_def
        map_update_where split: if_splits)
  moreover have "tp_id ` set (update_where (\<lambda>r. tp_id r = i) (write_template ev t) (v_templates v)) = tp_id ` set (v_templates v)"
    by (rule ids_update_where) (simp add: write_template_def)
  ultimately have "schema_ok (v\<lparr>v_templates := update_where (\<lambda>r. tp_id r = i) (write_template ev t) (v_templates v)\<rparr>)"
    using assms(1) by (intro schema_templates) simp_all
  then show ?thesis using assms(2) by (auto simp: update_template_def Let_def split: if_splits)
qed

lemma schema_delete_template:
  assumes "schema_ok v" "delete_template ev i v = Inr (v', r)"
  shows "schema_ok v'"
proof -
  have "schema_ok (v\<lparr>v_templates := filter (\<lambda>r. tp_id r \<noteq> i) (v_templates v)\<rparr>)"
    using schemaD(2) [OF assms(1)] assms(2)
    by (intro schema_templates [OF assms(1)]) (auto simp: template_table_def distinct_map_filter delete_template_def split: if_splits)
  then show ?thesis using assms(2) by (auto simp: delete_template_def split: if_splits)
qed

lemma schema_entity_row:
  "schema_ok v \<Longrightarrow> ei_name b \<notin> en_name ` set (v_entities v) \<Longrightarrow> schema_ok (v\<lparr>v_entities := v_entities v @ [new_entity ev b v]\<rparr>)"
  using auto_id_not_in [of ev "''entities''" en_id "v_entities v"]
  by (intro schema_entities) (auto simp: schema_ok_def entity_table_def new_entity_def)

lemma schema_create_entity: "schema_ok v \<Longrightarrow> create_entity ev b v = Inr (v', r) \<Longrightarrow> schema_ok v'"
  by (auto simp: create_entity_def Let_def schema_entity_row split: if_splits)

lemma schema_update_entity:
  assumes "schema_ok v" "update_entity ev i b v = Inr (v', r)"
  shows "schema_ok v'"
proof -
  have "entity_table (update_where (\<lambda>r. en_id r = i) (write_entity ev b) (v_entities v))"
    using assms unfolding entity_table_def
    by (intro conjI distinct_rekey [where n = "ei_name b"]) (auto simp: update_entity_def schema_ok_def entity_table_def write_entity_def
        map_update_where split: if_splits)
  moreover have "en_id ` set (update_where (\<lambda>r. en_id r = i) (write_entity ev b) (v_entities v)) = en_id ` set (v_entities v)"
    by (rule ids_update_where) (simp add: write_entity_def)
  ultimately have "schema_ok (v\<lparr>v_entities := update_where (\<lambda>r. en_id r = i) (write_entity ev b) (v_entities v)\<rparr>)"
    using assms(1) by (intro schema_entities) simp_all
  then show ?thesis using assms(2) by (auto simp: update_entity_def split: if_splits)
qed

lemma schema_write_key: "schema_ok v \<Longrightarrow> schema_ok (write_key ev i key v)"
  unfolding write_key_def
  by (rule schema_entities) (simp_all add: schema_ok_def entity_table_def map_update_where ids_update_where)

lemma schema_delete_company:
  assumes "schema_ok v"
  shows "schema_ok (v\<lparr>v_campaigns := update_where (\<lambda>c. ca_entity_id c = Some i) (\<lambda>c. c\<lparr>ca_entity_id := None\<rparr>) (v_campaigns v),
    v_entities := filter (\<lambda>e. en_id e \<noteq> i) (v_entities v)\<rparr>)"
proof -
  let ?v1 = "v\<lparr>v_campaigns := update_where (\<lambda>c. ca_entity_id c = Some i) (\<lambda>c. c\<lparr>ca_entity_id := None\<rparr>) (v_campaigns v)\<rparr>"
  have v1: "schema_ok ?v1" using schemaD(7) [OF assms] by (intro schema_update_campaigns [OF assms]) (auto simp: campaign_table_def)
  have "entity_table (filter (\<lambda>e. en_id e \<noteq> i) (v_entities v))"
    using schemaD(3) [OF assms] by (simp add: entity_table_def distinct_map_filter)
  moreover have "ca_entity_id c \<noteq> Some i" if "c \<in> set (v_campaigns ?v1)" for c
  proof -
    from that obtain q where "c = (if ca_entity_id q = Some i then q\<lparr>ca_entity_id := None\<rparr> else q)" by (auto simp: set_update_where)
    then show ?thesis by simp
  qed
  ultimately show ?thesis using v1 by (auto simp: schema_ok_def references_def Let_def image_iff) metis
qed

lemma schema_bulk:
  assumes mk: "\<And>x v v' r. schema_ok v \<Longrightarrow> mk x v = Inr (v', r) \<Longrightarrow> schema_ok v'"
  shows "schema_ok v \<Longrightarrow> schema_ok (fst (bulk_items rd mk why i js v b))"
proof (induction js arbitrary: i v b)
  case (Cons j js)
  then show ?case
    by (auto simp: Let_def split: option.split sum.split admin_error.split dest: mk)
qed simp

lemma schema_bulk_import:
  assumes "\<And>x v v' r. schema_ok v \<Longrightarrow> mk x v = Inr (v', r) \<Longrightarrow> schema_ok v'" "schema_ok v" "bulk_import rd mk why body v = Inr (v', r)"
  shows "schema_ok v'"
proof (cases body)
  case (Inr j)
  have "schema_ok (fst (bulk_items rd mk why 0 (items_of j) v b))" for b
    by (rule schema_bulk) (erule (1) assms(1), rule assms(2))
  with Inr assms(3) show ?thesis by (auto simp: bulk_import_def) (metis fst_conv)
qed (use assms(3) in \<open>simp add: bulk_import_def\<close>)

lemma schema_create_operator: "schema_ok v \<Longrightarrow> create_operator ev email h role v = Inr (v', r) \<Longrightarrow> schema_ok v'"
  using auto_id_not_in [of ev "''operators''" op_id "v_operators v"] schemaD(4) [of v]
  by (auto simp: create_operator_def Let_def operator_table_def split: if_splits intro!: schema_operators)

lemma schema_update_operators:
  assumes "schema_ok v" "\<And>q. op_id (g q) = op_id q" "\<And>q. op_email (g q) = op_email q" "\<And>q. op_role (g q) = op_role q"
  shows "schema_ok (v\<lparr>v_operators := update_where p g (v_operators v)\<rparr>)"
proof -
  have "\<forall>q\<in>set (update_where p g (v_operators v)). op_role q \<in> {''admin'', ''operator''}"
    using schemaD(4) [OF assms(1)] unfolding operator_table_def by (intro ball_update_where) (simp_all add: assms(4))
  with assms show ?thesis using schemaD(4) [OF assms(1)] by (intro schema_operators) (simp_all add: operator_table_def map_update_where)
qed

lemma schema_add_seed: "schema_ok v \<Longrightarrow> add_seed ev e p v = Inr (v', r) \<Longrightarrow> schema_ok v'"
  using auto_id_not_in [of ev "''seed_addresses''" sd_id "v_seeds v"] schemaD(5) [of v]
  by (auto simp: add_seed_def Let_def insert_or_ignore_def seed_table_def split: if_splits intro!: schema_seeds)

section \<open>Recipients, stages, batches\<close>

lemma schema_insert_recipients:
  "schema_ok v \<Longrightarrow> i \<in> ca_id ` set (v_campaigns v) \<Longrightarrow> insert_recipients ev i contacts v = Inr (v', n) \<Longrightarrow>
   schema_ok v' \<and> v_campaigns v' = v_campaigns v"
proof (induction contacts arbitrary: v n)
  case (Cons contact contacts)
  show ?case
  proof (cases "is_recipient i contact v")
    case True
    with Cons show ?thesis by simp
  next
    case False
    let ?r = "new_recipient ev i contact v" and ?v1 = "v\<lparr>v_recipients := v_recipients v @ [new_recipient ev i contact v]\<rparr>"
    from False Cons.prems(3) obtain m where c: "contact \<in> ct_id ` set (v_contacts v)" "insert_recipients ev i contacts ?v1 = Inr (v', m)"
      by (auto simp: bindE_def split: if_splits sum.splits)
    have "recipient_table (v_recipients v @ [?r])"
      using schemaD(8) [OF Cons.prems(1)] False auto_id_not_in [of ev "''campaign_recipients''" cr_id "v_recipients v"]
      by (auto simp: recipient_table_def new_recipient_def is_recipient_def recipient_statuses_def)
    moreover have "\<forall>r\<in>set (v_recipients v @ [?r]). cr_campaign_id r \<in> ca_id ` set (v_campaigns v) \<and> cr_contact_id r \<in> ct_id ` set (v_contacts v)"
      using Cons.prems(1,2) c(1) by (simp add: schema_ok_def references_def Let_def new_recipient_def)
    ultimately have "schema_ok ?v1" by (intro schema_recipients [OF Cons.prems(1)])
    from Cons.IH [OF this _ c(2)] Cons.prems(2) show ?thesis by simp
  qed
qed simp

lemma schema_count_recipients: "schema_ok v \<Longrightarrow> schema_ok (count_recipients ev i v)"
  unfolding count_recipients_def by (rule schema_set_campaign) (auto simp: schema_row_status schema_row_refs)

lemma schema_retry:
  assumes "schema_ok v"
  shows "schema_ok (v\<lparr>v_recipients := update_where p (\<lambda>r. r\<lparr>cr_status := ''queued'', cr_failure_reason := None\<rparr>) (v_recipients v)\<rparr>)"
proof (rule schema_recipients [OF assms])
  show "recipient_table (update_where p (\<lambda>r. r\<lparr>cr_status := ''queued'', cr_failure_reason := None\<rparr>) (v_recipients v))"
    using schemaD(8) [OF assms] unfolding recipient_table_def
    by (intro conjI ball_update_where) (simp_all add: map_update_where recipient_statuses_def)
  show "\<forall>r\<in>set (update_where p (\<lambda>r. r\<lparr>cr_status := ''queued'', cr_failure_reason := None\<rparr>) (v_recipients v)).
      cr_campaign_id r \<in> ca_id ` set (v_campaigns v) \<and> cr_contact_id r \<in> ct_id ` set (v_contacts v)"
    using assms by (intro ball_update_where) (simp_all add: schema_ok_def references_def Let_def)
qed

lemma fold_max_bounds: "(m::int) \<le> fold max ns m \<and> (\<forall>n\<in>set ns. n \<le> fold max ns m)"
proof (induction ns arbitrary: m)
  case (Cons n ns)
  from Cons.IH [of "max n m"] show ?case by (auto simp: max.commute)
qed simp

lemma next_stage_number_fresh: "s \<in> set (v_stages v) \<Longrightarrow> sg_campaign_id s = i \<Longrightarrow> sg_stage_number s < next_stage_number i v"
proof -
  assume "s \<in> set (v_stages v)" "sg_campaign_id s = i"
  then have "sg_stage_number s \<in> set (map sg_stage_number (filter (\<lambda>s. sg_campaign_id s = i) (v_stages v)))" by simp
  then show ?thesis
    by (cases "map sg_stage_number (filter (\<lambda>s. sg_campaign_id s = i) (v_stages v))")
      (auto simp: next_stage_number_def zle_add1_eq_le simp del: map_eq_Cons_conv list.set_map dest!: bspec [OF conjunct2 [OF fold_max_bounds]]
        intro: fold_max_bounds [THEN conjunct1])
qed

lemma schema_add_stage:
  assumes "schema_ok v" "add_stage ev rd i k t note v = Inr (v', r)"
  shows "schema_ok v'"
proof -
  from assms(2) obtain s where s: "schema_ok v' = schema_ok (v\<lparr>v_stages := v_stages v @ [s]\<rparr>)" "sg_id s = auto_id ev ''campaign_stages'' sg_id (v_stages v)"
      "sg_campaign_id s = i" "sg_stage_number s = next_stage_number i v" "sg_template_id s = k" "campaign_of v i \<noteq> None" "k \<in> tp_id ` set (v_templates v)"
    by (auto simp: add_stage_def bindE_def Let_def split: if_splits sum.splits)
  have "i \<in> ca_id ` set (v_campaigns v)" using s(6) by (auto simp: campaign_of_def find_Some_iff)
  moreover have "stage_table (v_stages v @ [s])"
    using schemaD(9) [OF assms(1)] s(2-4) auto_id_not_in [of ev "''campaign_stages''" sg_id "v_stages v"] next_stage_number_fresh [of _ v i]
    by (force simp: stage_table_def)
  ultimately show ?thesis unfolding s(1) using assms(1) s(3,5,7)
    by (intro schema_stages) (auto simp: schema_ok_def references_def Let_def)
qed

lemma schema_update_stage:
  assumes "schema_ok v" "update_stage rd i k tm t note v = Inr (v', r)"
  shows "schema_ok v'"
proof -
  from assms(2) obtain sf where v': "v' = v\<lparr>v_stages := update_where (\<lambda>s. sg_id s = k) (\<lambda>s. s\<lparr>sg_template_id := tm, sg_scheduled_for := sf, sg_note := note\<rparr>) (v_stages v)\<rparr>"
      and tm: "tm \<in> tp_id ` set (v_templates v)"
    by (auto simp: update_stage_def bindE_def split: if_splits sum.splits)
  have "\<forall>s\<in>set (v_stages v). sg_campaign_id s \<in> ca_id ` set (v_campaigns v) \<and> sg_template_id s \<in> tp_id ` set (v_templates v)"
    using assms(1) by (simp add: schema_ok_def references_def Let_def)
  with tm show ?thesis unfolding v' using schemaD(9) [OF assms(1)]
    by (intro schema_stages [OF assms(1)] ball_update_where) (simp_all add: stage_table_def map_update_where)
qed

lemma schema_renumber:
  "schema_ok v \<Longrightarrow> \<forall>s\<in>set (v_stages v). sg_id s \<in> set ks \<longrightarrow> sg_campaign_id s = i \<Longrightarrow> renumber i n ks v = Inr v' \<Longrightarrow> schema_ok v'"
proof (induction ks arbitrary: n v)
  case (Cons k ks)
  let ?rows = "update_where (\<lambda>s. sg_id s = k) (\<lambda>s. s\<lparr>sg_stage_number := n\<rparr>) (v_stages v)"
  from Cons.prems(3) have free: "\<forall>s\<in>set (v_stages v). sg_id s \<noteq> k \<longrightarrow> (sg_campaign_id s, sg_stage_number s) \<noteq> (i, n)"
      and next_step: "renumber i (n + 1) ks (v\<lparr>v_stages := ?rows\<rparr>) = Inr v'" by (auto split: if_splits)
  have "stage_table ?rows"
    using schemaD(9) [OF Cons.prems(1)] free Cons.prems(2) unfolding stage_table_def
    by (intro conjI distinct_rekey [where n = "(i, n)"]) (simp_all add: map_update_where)
  moreover have "\<forall>s\<in>set ?rows. sg_campaign_id s \<in> ca_id ` set (v_campaigns v) \<and> sg_template_id s \<in> tp_id ` set (v_templates v)"
    using Cons.prems(1) by (intro ball_update_where) (simp_all add: schema_ok_def references_def Let_def)
  ultimately have "schema_ok (v\<lparr>v_stages := ?rows\<rparr>)" by (intro schema_stages [OF Cons.prems(1)])
  moreover have "\<forall>s\<in>set ?rows. sg_id s \<in> set ks \<longrightarrow> sg_campaign_id s = i"
    using Cons.prems(2) by (intro ball_update_where) auto
  ultimately show ?case using Cons.IH [OF _ _ next_step] by simp
qed simp

lemma schema_delete_stage:
  assumes "schema_ok v" "delete_stage i k v = Inr (v', r)"
  shows "schema_ok v'"
proof -
  let ?v1 = "v\<lparr>v_stages := filter (\<lambda>s. sg_id s \<noteq> k) (v_stages v)\<rparr>"
  have r: "renumber i 1 (map sg_id (stages_of i ?v1)) ?v1 = Inr v'"
    using assms(2) by (auto simp: delete_stage_def Let_def bindE_def split: if_splits sum.splits)
  have t: "stage_table (v_stages ?v1)" using schemaD(9) [OF assms(1)] by (simp add: stage_table_def distinct_map_filter)
  have v1: "schema_ok ?v1"
    using assms(1) t by (intro schema_stages) (auto simp: schema_ok_def references_def Let_def)
  have "sg_campaign_id s = i" if "s \<in> set (v_stages ?v1)" "sg_id s \<in> sg_id ` set (stages_of i ?v1)" for s
  proof -
    from that(2) obtain q where q: "sg_id s = sg_id q" "q \<in> set (stages_of i ?v1)" by (rule imageE)
    then have m: "q \<in> set (v_stages ?v1)" "sg_campaign_id q = i" by (simp_all add: stages_of_def)
    have "inj_on sg_id (set (v_stages ?v1))" using t unfolding stage_table_def by (simp only: distinct_map)
    from inj_onD [OF this q(1) that(1) m(1)] m(2) show ?thesis by simp
  qed
  with schema_renumber [OF v1 _ r] show ?thesis by auto
qed

lemma schema_update_batches:
  assumes "schema_ok v" "\<And>b. cb_id (g b) = cb_id b" "\<And>b. cb_campaign_id (g b) = cb_campaign_id b" "\<And>b. cb_batch_no (g b) = cb_batch_no b"
    "\<And>b. b \<in> set (v_batches v) \<Longrightarrow> cb_status (g b) \<in> set batch_statuses"
  shows "schema_ok (v\<lparr>v_batches := update_where p g (v_batches v)\<rparr>)"
proof (rule schema_batches [OF assms(1)])
  have "map cb_id (update_where p g (v_batches v)) = map cb_id (v_batches v)" by (rule map_update_where) (rule assms(2))
  moreover have "map (\<lambda>b. (cb_campaign_id b, cb_batch_no b)) (update_where p g (v_batches v)) = map (\<lambda>b. (cb_campaign_id b, cb_batch_no b)) (v_batches v)"
    by (rule map_update_where) (simp only: assms(3,4))
  moreover have "\<forall>b\<in>set (update_where p g (v_batches v)). cb_status b \<in> set batch_statuses"
    using schemaD(10) [OF assms(1)] unfolding batch_table_def by (intro ball_update_where) (blast intro: assms(5))+
  ultimately show "batch_table (update_where p g (v_batches v))"
    using schemaD(10) [OF assms(1)] unfolding batch_table_def by presburger
qed

end
