(* ===== verification/Admin_Properties.thy ===== *)
theory Admin_Properties
  imports Admin_Sending Contact_Properties Dispatch_Properties Cloud_Packs_Api
begin

text \<open>
  What the operations on campaigns promise: an edited template is not launched without a new test, a
  confirmed cancel reaches every pending pack of the cloud, batches are released in order, and the
  stages of a campaign stay numbered without gaps.
\<close>

section \<open>The test gate\<close>

definition plain_launch :: "launch_args \<Rightarrow> bool" where
  "plain_launch args \<longleftrightarrow> la_stage args = None \<and> \<not> la_relaunch args \<and> la_template args = None"

lemma campaign_of_set:
  "(\<And>c. ca_id (f c) = ca_id c) \<Longrightarrow> campaign_of v i = Some c \<Longrightarrow>
   campaign_of (set_campaign ev i f v) i = Some ((f c)\<lparr>ca_updated_at := sql_time (ae_now ev)\<rparr>)"
  using find_same_id [of "\<lambda>c. (f c)\<lparr>ca_updated_at := sql_time (ae_now ev)\<rparr>" i "\<lambda>c. ca_id c = i" "v_campaigns v"] campaign_of_id [of v i c]
  by (simp add: set_campaign_def campaign_of_def)

lemma campaign_of_by_operator [simp]: "campaign_of (by_operator ev a t d v) i = campaign_of v i"
  by (simp add: campaign_of_def)

lemma template_of_by_operator [simp]: "template_of i (by_operator ev a t d v) = template_of i v"
  by (simp add: template_of_def)

lemma template_of_set_campaign [simp]: "template_of k (set_campaign ev i f v) = template_of k v"
  by (simp add: template_of_def set_campaign_def)

lemma mark_tested_state:
  assumes "mark_tested ev i v = Inr (v1, h)"
  shows "\<exists>c t. campaign_of v i = Some c \<and> template_of (ca_template_id c) v = Some t \<and> h = tp_template_hash t \<and>
    campaign_of v1 i = Some (c\<lparr>ca_status := (if ca_status c = ''scheduled'' then ''scheduled'' else ''tested''),
      ca_test_sent_at := Some (sql_time (ae_now ev)), ca_template_hash_at_test := Some h, ca_updated_at := sql_time (ae_now ev)\<rparr>) \<and>
    v_templates v1 = v_templates v"
proof -
  obtain c where c: "campaign_of v i = Some c" using assms by (auto simp: mark_tested_def split: option.splits)
  obtain t where t: "template_of (ca_template_id c) v = Some t" using assms c by (auto simp: mark_tested_def split: option.splits)
  have h: "h = tp_template_hash t" using assms c t by (simp add: mark_tested_def)
  have "campaign_of v1 i = Some (c\<lparr>ca_status := (if ca_status c = ''scheduled'' then ''scheduled'' else ''tested''),
      ca_test_sent_at := Some (sql_time (ae_now ev)), ca_template_hash_at_test := Some h, ca_updated_at := sql_time (ae_now ev)\<rparr>)"
    using assms c t campaign_of_set [OF _ c, where ev = ev and f = "\<lambda>c. c\<lparr>ca_status := (if ca_status c = ''scheduled'' then ''scheduled'' else ''tested''),
        ca_test_sent_at := Some (sql_time (ae_now ev)), ca_template_hash_at_test := Some (tp_template_hash t)\<rparr>"]
    by (auto simp: mark_tested_def)
  moreover have "v_templates v1 = v_templates v" using assms c t by (auto simp: mark_tested_def set_campaign_def)
  ultimately show ?thesis using c t h by blast
qed

lemma update_template_state:
  assumes "update_template ev k b v = Inr (v1, h)" "template_of k v = Some t"
  shows "h = hash_of_template ev b \<and> template_of k v1 = Some (write_template ev b t) \<and> v_campaigns v1 = v_campaigns v"
proof -
  have "tp_id t = k" using assms(2) unfolding template_of_def by (auto simp: find_Some_iff)
  have v1: "v_templates v1 = update_where (\<lambda>r. tp_id r = k) (write_template ev b) (v_templates v)" "h = hash_of_template ev b"
      "v_campaigns v1 = v_campaigns v"
    using assms(1) unfolding update_template_def Let_def by (auto split: if_splits)
  have "tp_id (write_template ev b r) = tp_id r" for r by (simp add: write_template_def)
  note find_update_where [where key = tp_id and f = "write_template ev b" and p = "\<lambda>r. tp_id r = k" and rows = "v_templates v" and k = k, OF this]
  then have "template_of k v1 = Some (write_template ev b t)"
    using assms(2) \<open>tp_id t = k\<close> unfolding template_of_def v1(1) by simp
  with v1 show ?thesis by blast
qed


section \<open>Cancel\<close>

lemma in_query_status:
  assumes "(k, it) \<in> set t" "str_attr ''status'' it = Some st" "str_attr ''send_at'' it \<noteq> None"
  shows "it \<in> set (query_status st (\<lambda>_. True) t)"
proof -
  have "it \<in># mset (query_status st (\<lambda>_. True) t)" using assms unfolding mset_query_status by force
  then show ?thesis by simp
qed

lemma get_pack_item_in: "wf_table t \<Longrightarrow> get_pack_item t pid = Some it \<Longrightarrow> \<exists>k. (k, it) \<in> set t"
  unfolding get_pack_item_def get_item_def by (auto dest: map_of_SomeD)

text \<open>The request of a terminal to a cloud whose index is current.\<close>

definition cloud_cancel :: "int \<Rightarrow> table canceller" where
  "cloud_cancel now i t = (case packs_cancel_campaign now (Some i) t t of (t', Inr (n, _)) \<Rightarrow> (t', Some (int n)) | (t', Inl _) \<Rightarrow> (t', None))"

lemma cloud_cancel_all:
  assumes inv: "pack_inv t" and c: "cloud_cancel now i t = (t', Some n)"
    and p: "get_pack_item t pid = Some it" "map_of it ''campaign_id'' = Some (AInt i)"
  shows "pstate_of t' pid \<noteq> Pending"
proof -
  let ?its = "filter (\<lambda>it. map_of it ''campaign_id'' = Some (AInt i)) (query_status ''pending'' (\<lambda>_. True) t)"
  obtain r where e: "cancel_each now ?its t 0 = (t', r)" "r \<noteq> None"
    using c by (auto simp: cloud_cancel_def packs_cancel_campaign_def cancel_pending_for_campaign_def split: prod.splits sum.splits option.splits)
  note s = cancel_each_step [OF inv e(1)]
  have ok: "pack_ok pid it" using inv p(1) by (simp add: pack_inv_def)
  show ?thesis
  proof
    assume pend: "pstate_of t' pid = Pending"
    then have "pstate_of t pid = Pending" using s by (metis pstate.distinct(9))
    then have "str_attr ''status'' it = Some ''pending''" using pstate_pending [OF inv, of pid] p(1) by (auto simp: attr_eq_def attr_of_def str_attr_def)
    moreover have "str_attr ''send_at'' it \<noteq> None" "str_attr ''pack_id'' it = Some pid"
      using ok by (auto simp: pack_ok_def dest: coerce_pack_Some)
    moreover obtain k where "(k, it) \<in> set t" using get_pack_item_in [OF _ p(1)] inv unfolding pack_inv_def by blast
    ultimately have "it \<in> set ?its" using in_query_status p(2) by auto
    with s e(2) \<open>str_attr ''pack_id'' it = Some pid\<close> pend show False by blast
  qed
qed

lemma mark_cancelled_rows:
  "v_batches (mark_cancelled ev i clear v) =
     (let rows = update_where (\<lambda>b. cb_campaign_id b = i \<and> cb_status b \<in> set live_batch) (\<lambda>b. b\<lparr>cb_status := ''cancelled''\<rparr>) (v_batches v)
      in if clear then update_where (\<lambda>b. cb_campaign_id b = i) (\<lambda>b. b\<lparr>cb_dispatch_started_at := None\<rparr>) rows else rows)"
  by (simp add: mark_cancelled_def set_campaign_def Let_def)

lemma mark_cancelled_batches:
  assumes "b \<in> set (v_batches (mark_cancelled ev i clear v))" "cb_campaign_id b = i"
  shows "cb_status b \<notin> set live_batch \<and> (clear \<longrightarrow> cb_dispatch_started_at b = None)"
proof -
  let ?rows = "update_where (\<lambda>b. cb_campaign_id b = i \<and> cb_status b \<in> set live_batch) (\<lambda>b. b\<lparr>cb_status := ''cancelled''\<rparr>) (v_batches v)"
  have dead: "cb_status q \<notin> set live_batch" if "q \<in> set ?rows" "cb_campaign_id q = i" for q
  proof -
    have "q \<in> set ?rows" by fact
    then obtain p where p: "q = (if cb_campaign_id p = i \<and> cb_status p \<in> set live_batch then p\<lparr>cb_status := ''cancelled''\<rparr> else p)"
      unfolding set_update_where by blast
    show ?thesis
    proof (cases "cb_campaign_id p = i \<and> cb_status p \<in> set live_batch")
      case True
      then show ?thesis by (simp add: p) (simp add: live_batch_def)
    next
      case False
      with that(2) show ?thesis unfolding p by simp
    qed
  qed
  show ?thesis
  proof (cases clear)
    case True
    then obtain q where q: "q \<in> set ?rows" "b = (if cb_campaign_id q = i then q\<lparr>cb_dispatch_started_at := None\<rparr> else q)"
      using assms(1) unfolding mark_cancelled_rows Let_def by (auto simp only: if_True set_update_where)
    with assms(2) have "cb_campaign_id q = i" by (cases "cb_campaign_id q = i") simp_all
    with q dead show ?thesis by simp
  next
    case False
    with assms dead show ?thesis unfolding mark_cancelled_rows Let_def by simp
  qed
qed

lemma mark_cancelled_campaign:
  "campaign_of v i = Some c \<Longrightarrow>
   \<exists>d. campaign_of (mark_cancelled ev i clear v) i = Some d \<and> ca_status d = ''cancelled'' \<and> (clear \<longrightarrow> ca_relaunch_open d = 0)"
  using campaign_of_set [of "\<lambda>c. if clear then c\<lparr>ca_status := ''cancelled'', ca_relaunch_open := 0\<rparr> else c\<lparr>ca_status := ''cancelled''\<rparr>" v i c ev]
  by (auto simp: mark_cancelled_def Let_def campaign_of_def)


section \<open>Batches in order\<close>

lemma mark_approved_done:
  assumes "q \<in> set (v_batches (mark_approved now i no prev v))" "cb_campaign_id q = i" "cb_batch_no q = no - 1" "prev \<noteq> None"
  shows "cb_status q = ''done''"
proof -
  obtain p where "q = (if cb_campaign_id p = i \<and> cb_batch_no p = no - 1 then p\<lparr>cb_status := ''done''\<rparr> else p)"
    using assms(1,4) unfolding mark_approved_def Let_def by (auto simp: set_update_where)
  with assms(2,3) show ?thesis by (cases "cb_campaign_id p = i \<and> cb_batch_no p = no - 1") simp_all
qed

text \<open>C31: Batches are released in order. A press that sends anything found its batch pending, the batch before it drained
  and its cooldown over; a press that succeeds also marks that batch done, and a refused press changes nothing.\<close>

theorem batches_in_order:
  assumes "approve_batch lev i no st = (st', r)"
  shows "(case r of
      Inr x \<Rightarrow> \<exists>b. batch_of i no (ls_vault st) = Some b \<and> cb_status b = ''pending'' \<and>
        (\<forall>p. batch_of i (no - 1) (ls_vault st) = Some p \<longrightarrow>
           cb_status p \<in> set drained_states \<and> (\<forall>u. cb_approve_unlock_at p = Some u \<longrightarrow> u \<noteq> [] \<longrightarrow> u \<le> iso (le_now lev)) \<and>
           (\<forall>q\<in>set (v_batches (ls_vault st')). cb_campaign_id q = i \<longrightarrow> cb_batch_no q = no - 1 \<longrightarrow> cb_status q = ''done''))
    | Inl e \<Rightarrow> (\<exists>prev. approve_gate (le_now lev) i no (ls_vault st) = Inr prev) \<or> st' = st)"
proof (cases "approve_gate (le_now lev) i no (ls_vault st)")
  case (Inl e)
  with assms show ?thesis by (auto simp: approve_batch_def Let_def)
next
  case (Inr prev)
  obtain b where b: "batch_of i no (ls_vault st) = Some b" "cb_status b = ''pending''"
    using Inr by (auto simp: approve_gate_def split: option.splits if_splits)
  have prev: "prev = batch_of i (no - 1) (ls_vault st)"
    "\<forall>p. prev = Some p \<longrightarrow> cb_status p \<in> set drained_states \<and> (\<forall>u. cb_approve_unlock_at p = Some u \<longrightarrow> u \<noteq> [] \<longrightarrow> u \<le> iso (le_now lev))"
    using Inr by (auto simp: approve_gate_def split: option.splits if_splits)
  show ?thesis
  proof (cases r)
    case (Inl e)
    then show ?thesis using Inr by (simp only: sum.case) blast
  next
    case r: (Inr x)
    obtain st1 y where d: "dispatch_batch lev i no None st = (st1, y)" by fastforce
    have y: "y = Inr x" using assms Inr r d unfolding approve_batch_def Let_def by (cases y) simp_all
    have v': "v_batches (ls_vault st') = v_batches (mark_approved (le_now lev) i no prev (ls_vault st1))"
      using assms Inr d y unfolding approve_batch_def Let_def by (auto simp: on_vault_def audit_def)
    have "cb_status q = ''done''" if "prev = Some p" "q \<in> set (v_batches (ls_vault st'))" "cb_campaign_id q = i" "cb_batch_no q = no - 1" for q p
      using mark_approved_done [of q "le_now lev" i no prev "ls_vault st1"] that by (simp add: v')
    with b prev r show ?thesis by (simp only: sum.case) blast
  qed
qed

section \<open>Stage numbers\<close>

fun number_of :: "int \<Rightarrow> int list \<Rightarrow> int \<Rightarrow> int" where
  "number_of n [] k = 0"
| "number_of n (x # xs) k = (if x = k then n else number_of (n + 1) xs k)"

definition renumbered :: "int \<Rightarrow> int list \<Rightarrow> stage \<Rightarrow> stage" where
  "renumbered n ks s = (if sg_id s \<in> set ks then s\<lparr>sg_stage_number := number_of n ks (sg_id s)\<rparr> else s)"

lemma renumber_ok:
  assumes "distinct (map sg_id (v_stages v))" "set T \<subseteq> set (v_stages v)" "\<forall>s\<in>set T. sg_campaign_id s = i \<and> n \<le> sg_stage_number s"
    and "sorted_wrt (<) (map sg_stage_number T)"
    and "\<forall>s\<in>set (v_stages v). sg_campaign_id s = i \<longrightarrow> s \<notin> set T \<longrightarrow> sg_stage_number s < n"
  shows "renumber i n (map sg_id T) v = Inr (v\<lparr>v_stages := map (renumbered n (map sg_id T)) (v_stages v)\<rparr>)"
  using assms
proof (induction T arbitrary: n v)
  case Nil
  have "map (renumbered n []) (v_stages v) = v_stages v" by (simp add: renumbered_def map_idI)
  then show ?case by simp
next
  case (Cons s T)
  let ?f = "\<lambda>r. r\<lparr>sg_stage_number := n\<rparr>"
  let ?v = "v\<lparr>v_stages := update_where (\<lambda>r. sg_id r = sg_id s) ?f (v_stages v)\<rparr>"
  have inj: "r = q" if "r \<in> set (v_stages v)" "q \<in> set (v_stages v)" "sg_id r = sg_id q" for r q
    using Cons.prems(1) that by (metis distinct_map inj_onD)
  have later: "sg_stage_number s < sg_stage_number r \<and> sg_id r \<noteq> sg_id s" if "r \<in> set T" for r
  proof -
    have "sg_stage_number s < sg_stage_number r" using Cons.prems(4) that by simp
    moreover have "r \<in> set (v_stages v)" "s \<in> set (v_stages v)" using Cons.prems(2) that by auto
    ultimately show ?thesis using inj [of r s] by auto
  qed
  have free: "\<not> (\<exists>r\<in>set (v_stages v). sg_id r \<noteq> sg_id s \<and> sg_campaign_id r = i \<and> sg_stage_number r = n)"
  proof
    assume "\<exists>r\<in>set (v_stages v). sg_id r \<noteq> sg_id s \<and> sg_campaign_id r = i \<and> sg_stage_number r = n"
    then obtain r where r: "r \<in> set (v_stages v)" "sg_id r \<noteq> sg_id s" "sg_campaign_id r = i" "sg_stage_number r = n" by blast
    with Cons.prems(5) have "r \<in> set T" by fastforce
    with later [OF this] Cons.prems(3) r(4) show False by auto
  qed
  have rows: "set (v_stages ?v) = {r \<in> set (v_stages v). sg_id r \<noteq> sg_id s} \<union> {?f s}"
  proof -
    have s: "{r \<in> set (v_stages v). sg_id r = sg_id s} = {s}" using Cons.prems(2) inj [of _ s] by auto
    have "set (v_stages ?v) = ?f ` {r \<in> set (v_stages v). sg_id r = sg_id s} \<union> {r \<in> set (v_stages v). sg_id r \<noteq> sg_id s}"
      by (auto simp: update_where_def)
    then show ?thesis unfolding s by auto
  qed
  have "distinct (map sg_id (v_stages ?v))" using Cons.prems(1) by (simp add: map_update_where)
  moreover have "set T \<subseteq> set (v_stages ?v)" unfolding rows using Cons.prems(2) later by auto
  moreover have "\<forall>r\<in>set T. sg_campaign_id r = i \<and> n + 1 \<le> sg_stage_number r" using Cons.prems(3) later by force
  moreover have "sorted_wrt (<) (map sg_stage_number T)" using Cons.prems(4) by simp
  moreover have "\<forall>r\<in>set (v_stages ?v). sg_campaign_id r = i \<longrightarrow> r \<notin> set T \<longrightarrow> sg_stage_number r < n + 1"
    unfolding rows using Cons.prems(5) by force
  ultimately have IH: "renumber i (n + 1) (map sg_id T) ?v = Inr (?v\<lparr>v_stages := map (renumbered (n + 1) (map sg_id T)) (v_stages ?v)\<rparr>)"
    by (rule Cons.IH)
  have "sg_id s \<notin> sg_id ` set T" using later by fastforce
  then have "map (renumbered (n + 1) (map sg_id T)) (v_stages ?v) = map (renumbered n (map sg_id (s # T))) (v_stages v)"
    by (auto simp: update_where_def renumbered_def)
  with IH free show ?case by simp
qed

lemma number_of_positions: "distinct ks \<Longrightarrow> map (number_of n ks) ks = [n..n + int (length ks) - 1]"
proof (induction ks arbitrary: n)
  case (Cons k ks)
  have "map (number_of n (k # ks)) ks = map (number_of (n + 1) ks) ks" using Cons.prems by auto
  also have "\<dots> = [n + 1..n + int (length ks)]" using Cons.IH [of "n + 1"] Cons.prems by simp
  finally have m: "map (number_of n (k # ks)) ks = [n + 1..n + int (length ks)]" .
  have h: "number_of n (k # ks) k = n" by simp
  show ?case unfolding list.map m h by (simp add: upto_rec1 [of n])
qed simp

lemma sorted_strict: "sorted (map f xs) \<Longrightarrow> distinct (map f xs) \<Longrightarrow> sorted_wrt (<) (map f (xs::'a list))" for f :: "'a \<Rightarrow> int"
  by (simp add: strict_sorted_iff)

lemma set_stages_of [simp]: "set (stages_of i v) = {s \<in> set (v_stages v). sg_campaign_id s = i}"
  by (auto simp: stages_of_def)

text \<open>After the deletion of a stage the others keep their order and are numbered from one without gaps; the renumbering
  never meets the unique index, and no other campaign's stages change.\<close>

theorem delete_stage_renumbers:
  assumes ids: "distinct (map sg_id (v_stages v))" and nums: "distinct (map sg_stage_number (stages_of i v))"
    and pos: "\<forall>s\<in>set (stages_of i v). 1 \<le> sg_stage_number s" and k: "is_stage i k v"
  shows "\<exists>v'. delete_stage i k v = Inr (v', ()) \<and>
    map sg_id (stages_of i v') = filter (\<lambda>j. j \<noteq> k) (map sg_id (stages_of i v)) \<and>
    map sg_stage_number (stages_of i v') = [1..int (length (stages_of i v'))] \<and>
    filter (\<lambda>s. sg_campaign_id s \<noteq> i) (v_stages v') = filter (\<lambda>s. sg_campaign_id s \<noteq> i) (v_stages v)"
proof -
  let ?v1 = "v\<lparr>v_stages := filter (\<lambda>s. sg_id s \<noteq> k) (v_stages v)\<rparr>"
  let ?T = "stages_of i ?v1"
  have T: "?T = filter (\<lambda>s. sg_id s \<noteq> k) (stages_of i v)"
    by (simp add: stages_of_def filter_sort conj_commute)
  have d1: "distinct (map sg_id (v_stages ?v1))" using ids by (simp add: distinct_map_filter)
  have "distinct (map sg_stage_number ?T)" unfolding T using nums by (rule distinct_map_filter)
  moreover have "sorted (map sg_stage_number ?T)" by (simp add: stages_of_def)
  ultimately have strict: "sorted_wrt (<) (map sg_stage_number ?T)" by (intro sorted_strict)
  let ?r = "renumbered 1 (map sg_id ?T)"
  let ?v' = "?v1\<lparr>v_stages := map ?r (v_stages ?v1)\<rparr>"
  have run: "renumber i 1 (map sg_id ?T) ?v1 = Inr ?v'"
    using d1 strict pos by (intro renumber_ok) (auto simp: T)
  have keep: "sg_campaign_id (?r s) = sg_campaign_id s" "sg_id (?r s) = sg_id s" for s by (simp_all add: renumbered_def)
  have dT: "distinct (map sg_id ?T)"
    unfolding T using ids by (intro distinct_map_filter) (auto simp: stages_of_def distinct_map inj_on_def)
  have num: "map sg_stage_number (map ?r ?T) = [1..int (length ?T)]"
  proof -
    have "map sg_stage_number (map ?r ?T) = map (number_of 1 (map sg_id ?T)) (map sg_id ?T)" by (simp add: renumbered_def)
    then show ?thesis unfolding number_of_positions [OF dT] by simp
  qed
  let ?c = "filter (\<lambda>s. sg_campaign_id s = i)"
  have c': "?c (v_stages ?v') = map ?r (?c (v_stages ?v1))" by (simp add: filter_map o_def keep)
  have "sort_key sg_stage_number (?c (v_stages ?v')) = map ?r ?T"
  proof (rule sort_key_inj_key_eq)
    show m: "mset (?c (v_stages ?v')) = mset (map ?r ?T)" unfolding c' by (simp add: stages_of_def)
    have "inj_on sg_stage_number (set (map ?r ?T))" using num by (metis distinct_map distinct_upto)
    then show "inj_on sg_stage_number (set (?c (v_stages ?v')))" using m by (metis set_mset_mset)
    show "sorted (map sg_stage_number (map ?r ?T))" unfolding num by simp
  qed
  then have "stages_of i ?v' = map ?r ?T" unfolding stages_of_def [of i ?v'] .
  then have S: "map sg_id (stages_of i ?v') = map sg_id ?T" "map sg_stage_number (stages_of i ?v') = [1..int (length (stages_of i ?v'))]"
    using num by (simp_all add: keep)
  have "map sg_id ?T = filter (\<lambda>j. j \<noteq> k) (map sg_id (stages_of i v))" unfolding T by (simp add: filter_map o_def)
  moreover have "filter (\<lambda>s. sg_campaign_id s \<noteq> i) (v_stages ?v') = filter (\<lambda>s. sg_campaign_id s \<noteq> i) (v_stages v)"
  proof -
    have "sg_id s \<notin> sg_id ` set ?T \<and> sg_id s \<noteq> k" if "s \<in> set (v_stages v)" "sg_campaign_id s \<noteq> i" for s
      using that ids k unfolding is_stage_def by (auto simp: distinct_map inj_on_def)
    then show ?thesis by (auto simp: filter_map o_def keep renumbered_def map_idI intro!: filter_cong trans [OF map_idI])
  qed
  moreover have "delete_stage i k v = Inr (?v', ())" using k run by (simp add: delete_stage_def Let_def)
  ultimately show ?thesis using S by metis
qed

section \<open>Witnesses\<close>

definition demo_body :: template_in where
  "demo_body = \<lparr>ti_name = ''t'', ti_subject = ''hi'', ti_from_name = ''f'', ti_html_body = ''bye'', ti_text_body = Some ''plain'', ti_tracking_enabled = True\<rparr>"

definition demo_test_vault :: vault where
  "demo_test_vault = empty_vault\<lparr>v_campaigns := [(demo_campaign 1)\<lparr>ca_status := ''draft''\<rparr>], v_templates := [demo_template]\<rparr>"


definition demo_cancel_state :: "table launch_state" where
  "demo_cancel_state = \<lparr>ls_vault = empty_vault\<lparr>v_campaigns := [demo_campaign 7]\<rparr>, ls_pushing = [], ls_cloud = demo_table, ls_key_file = None, ls_keys_posted = []\<rparr>"


definition demo_stage :: "int \<Rightarrow> int \<Rightarrow> stage" where
  "demo_stage i n = \<lparr>sg_id = i, sg_campaign_id = 1, sg_stage_number = n, sg_template_id = 1, sg_scheduled_for = [], sg_status = ''pending'',
     sg_dispatched_at = None, sg_note = None, sg_created_at = []\<rparr>"

theorem delete_stage_renumbers_witness:
  "\<exists>v'. delete_stage 1 5 (empty_vault\<lparr>v_stages := [demo_stage 4 2, demo_stage 5 1, demo_stage 6 3]\<rparr>) = Inr (v', ()) \<and>
     map sg_id (stages_of 1 v') = [4, 6] \<and> map sg_stage_number (stages_of 1 v') = [1, 2]"
proof -
  let ?v = "empty_vault\<lparr>v_stages := [demo_stage 4 2, demo_stage 5 1, demo_stage 6 3]\<rparr>"
  have s: "stages_of 1 ?v = [demo_stage 5 1, demo_stage 4 2, demo_stage 6 3]" by (simp add: stages_of_def demo_stage_def)
  obtain v' where d: "delete_stage 1 5 ?v = Inr (v', ())" "map sg_id (stages_of 1 v') = [4, 6]"
      "map sg_stage_number (stages_of 1 v') = [1..int (length (stages_of 1 v'))]"
    using delete_stage_renumbers [of ?v 1 5] unfolding s by (auto simp: is_stage_def demo_stage_def)
  then have "length (stages_of 1 v') = 2" by (metis length_Cons length_map list.size(3) numeral_2_eq_2)
  with d show ?thesis by (auto simp: upto_rec1)
qed

definition demo_approve_env :: "push_state launch_env" where
  "demo_approve_env = demo_launch_env\<lparr>le_conf := (\<lambda>k. if k = ''resend_api_key'' then Some ''key'' else None)\<rparr>"

text \<open>Batch 1 has drained, the send of batch 2 was interrupted after its last pack.\<close>

definition demo_approve_state :: "push_state launch_state" where
  "demo_approve_state =
     demo_launch_state\<lparr>ls_vault := empty_vault\<lparr>v_campaigns := [demo_campaign 1], v_templates := [demo_template],
        v_batches := [(new_batch 50 1 1 3 7)\<lparr>cb_status := ''drained''\<rparr>,
                      (new_batch 50 1 2 3 8)\<lparr>cb_dispatch_started_at := Some ''then''\<rparr>]\<rparr>\<rparr>"

lemma demo_sample:
  "(case sample_mail (\<lambda>k. if k = ''resend_api_key'' then Some ''key'' else None) demo_template ''promotional'' None
      ''preflight@example.com'' (Some ''Preflight Person'') of Inl _ \<Rightarrow> False | Inr m \<Rightarrow> assert_sendable m = Inr ())"
  by code_simp

lemma demo_company: "resolve_company_name v None demo_template = Inr None"
proof -
  have "truthy_id None = None" "\<not> company_placeholder demo_template" by code_simp+
  then show ?thesis by (simp add: resolve_company_name_def)
qed

lemma demo_preflight: "preflight (le_conf demo_approve_env) v demo_template (demo_campaign 1) None = Inr None"
  using demo_sample by (auto simp: preflight_def demo_company demo_approve_env_def demo_campaign_def bindE_def split: sum.splits)

lemma demo_approve_loads: "\<exists>st1 c. load_send_ctx demo_approve_env 1 demo_approve_state = (st1, Inr c) \<and> ls_vault st1 = ls_vault demo_approve_state"
proof -
  let ?v = "ls_vault demo_approve_state"
  have "campaign_of ?v 1 = Some (demo_campaign 1)" "ca_template_id (demo_campaign 1) = 1" "template_of 1 ?v = Some demo_template"
    by (simp_all add: demo_approve_state_def campaign_of_def template_of_def demo_campaign_def demo_template_def)
  moreover have "sender_of (le_conf demo_approve_env) (le_decrypt demo_approve_env) (demo_campaign 1) ?v = Inr (''key'', [], ''noreply@mail.example.com'')"
    by (simp add: sender_of_def demo_campaign_def truthy_id_def demo_approve_env_def conf_or_def opt_or_def py_or_def public_host_def)
  moreover have "ca_entity_id (demo_campaign 1) = None" by (simp add: demo_campaign_def)
  moreover have "le_bearer demo_approve_env = Some ''bearer''" by (simp add: demo_approve_env_def demo_launch_env_def)
  moreover have "ls_key_file demo_approve_state = None" "le_key_post demo_approve_env = Post_http 200"
    by (simp_all add: demo_approve_state_def demo_launch_state_def demo_approve_env_def demo_launch_env_def)
  ultimately show ?thesis
    by (simp add: load_send_ctx_def make_ctx_def Let_def demo_preflight ensure_k_temp_def mint_and_push_def)
qed

theorem batches_in_order_witness:
  "\<exists>st' x. approve_batch demo_approve_env 1 2 demo_approve_state = (st', Inr x) \<and>
     (\<forall>q\<in>set (v_batches (ls_vault st')). cb_campaign_id q = 1 \<longrightarrow> cb_batch_no q = 1 \<longrightarrow> cb_status q = ''done'')"
proof -
  let ?v = "ls_vault demo_approve_state"
  have v: "campaign_of ?v 1 = Some (demo_campaign 1)" "v_recipients ?v = []" "v_seeds ?v = []"
    "batch_of 1 2 ?v = Some ((new_batch 50 1 2 3 8)\<lparr>cb_dispatch_started_at := Some ''then''\<rparr>)"
    "batch_of 1 1 ?v = Some ((new_batch 50 1 1 3 7)\<lparr>cb_status := ''drained''\<rparr>)"
    by (simp_all add: demo_approve_state_def campaign_of_def demo_campaign_def batch_of_def new_batch_def empty_vault_def)
  obtain st1 c where l: "load_send_ctx demo_approve_env 1 demo_approve_state = (st1, Inr c)" "ls_vault st1 = ?v"
    using demo_approve_loads by blast
  have "refuse_closed 1 closed_to_all ?v = Inr ()" using v(1) by (simp add: refuse_closed_def closed_to_all_def demo_campaign_def)
  moreover have "plan_batch demo_approve_env 1 2 c ?v = Inr (empty_plan, [])"
    using v by (simp add: plan_batch_def Let_def candidates_of_def gen_key_def demo_no_sends active_seed_emails_def empty_plan_def
        assert_recipients_sendable_def List.map_filter_simps)
  ultimately obtain st2 x where d: "dispatch_batch demo_approve_env 1 2 None demo_approve_state = (st2, Inr x)"
    using v(4) l by (auto simp: dispatch_batch_def dispatch_with_def Let_def empty_plan_def case_prod_beta)
  have "approve_gate (le_now demo_approve_env) 1 2 ?v = Inr (Some ((new_batch 50 1 1 3 7)\<lparr>cb_status := ''drained''\<rparr>))"
    using v(4,5) by (simp add: approve_gate_def new_batch_def drained_states_def)
  then obtain st' where a: "approve_batch demo_approve_env 1 2 demo_approve_state = (st', Inr x)"
    using d by (auto simp: approve_batch_def Let_def)
  with batches_in_order [OF a] v(5) show ?thesis by auto
qed

end
