(* ===== verification/Schema_Properties.thy ===== *)
theory Schema_Properties
  imports Admin_Schema Admin_Properties
begin

text \<open>
  The operations of the admin pages as one step relation on the tables, and the schema of models.py as its
  invariant: a database that satisfies every constraint keeps doing so, in whatever order the operators work.
\<close>

section \<open>Campaigns\<close>

lemma campaign_of_in: "campaign_of v i = Some c \<Longrightarrow> c \<in> set (v_campaigns v) \<and> ca_id c = i"
  by (auto simp: campaign_of_def find_Some_iff)

lemma schema_campaign_row:
  "schema_ok v \<Longrightarrow> c \<in> set (v_campaigns v) \<Longrightarrow>
   ca_kind c \<in> set campaign_kinds \<and> ca_template_id c \<in> tp_id ` set (v_templates v) \<and> (\<forall>e. ca_entity_id c = Some e \<longrightarrow> e \<in> en_id ` set (v_entities v))"
  by (simp add: schema_ok_def campaign_table_def references_def Let_def)

lemma schema_create_campaign:
  assumes "schema_ok v" "create_campaign ev rd b v = Inr (v', r)"
  shows "schema_ok v'"
proof -
  from assms(2) obtain c where c: "schema_ok v' = schema_ok (v\<lparr>v_campaigns := v_campaigns v @ [c]\<rparr>)"
      "ca_id c = auto_id ev ''campaigns'' ca_id (v_campaigns v)" "ca_kind c = pi_kind b" "pi_kind b \<in> {''promotional'', ''transactional''}"
      "ca_status c \<in> {''scheduled'', ''draft''}" "ca_template_id c = pi_template_id b" "pi_template_id b \<in> tp_id ` set (v_templates v)"
      "ca_entity_id c = pi_entity_id b" "\<forall>e. pi_entity_id b = Some e \<longrightarrow> e \<in> en_id ` set (v_entities v)"
    by (auto simp: create_campaign_def bindE_def Let_def blank_campaign_def simp del: bex_simps split: if_splits sum.splits option.splits)
  show ?thesis unfolding c(1)
    by (rule schema_new_campaign [OF assms(1) c(2)]) (use c in \<open>auto simp: campaign_kinds_def campaign_statuses_def\<close>)
qed

lemma schema_clone_campaign:
  assumes "schema_ok v" "clone_campaign ev i v = Inr (v', r)"
  shows "schema_ok v'"
proof -
  from assms(2) obtain d c where d: "campaign_of v i = Some d" and c: "schema_ok v' = schema_ok (v\<lparr>v_campaigns := v_campaigns v @ [c]\<rparr>)"
      "ca_id c = auto_id ev ''campaigns'' ca_id (v_campaigns v)" "ca_kind c = ca_kind d" "ca_status c = ''draft''"
      "ca_template_id c = ca_template_id d" "ca_entity_id c = ca_entity_id d"
    by (auto simp: clone_campaign_def Let_def blank_campaign_def split: option.splits)
  from schema_campaign_row [OF assms(1), of d] campaign_of_in [OF d] c(3-6) show ?thesis unfolding c(1)
    by (intro schema_new_campaign [OF assms(1) c(2)]) (simp_all add: campaign_statuses_def)
qed

lemma schema_set_status:
  assumes "schema_ok v" "st \<in> set campaign_statuses"
    "\<And>c. ca_id (f c) = ca_id c \<and> ca_kind (f c) = ca_kind c \<and> ca_template_id (f c) = ca_template_id c \<and> ca_entity_id (f c) = ca_entity_id c"
    "\<And>c. ca_status (f c) = st \<or> ca_status (f c) = ca_status c"
  shows "schema_ok (set_campaign ev i f v)"
proof (rule schema_set_campaign [OF assms(1)])
  fix c assume "c \<in> set (v_campaigns v)"
  moreover have "ca_status (f c) \<in> set campaign_statuses"
    using assms(2) assms(4) [of c] schema_row_status [OF assms(1) \<open>c \<in> _\<close>] by (elim disjE) simp_all
  ultimately show "ca_id (f c) = ca_id c \<and> ca_kind (f c) = ca_kind c \<and> ca_status (f c) \<in> set campaign_statuses \<and>
      ca_template_id (f c) = ca_template_id c \<and> (\<forall>e. ca_entity_id (f c) = Some e \<longrightarrow> e \<in> en_id ` set (v_entities v))"
    using assms(3) [of c] schema_row_refs [OF assms(1)] by auto
qed

lemma schema_edit:
  assumes "schema_ok v" "\<forall>x. ed_entity_id e = Some x \<longrightarrow> x \<in> en_id ` set (v_entities v)"
  shows "schema_ok (set_campaign ev i (apply_edit e sf) v)"
proof (rule schema_set_campaign [OF assms(1)])
  fix c assume c: "c \<in> set (v_campaigns v)"
  have "ca_id (apply_edit e sf c) = ca_id c \<and> ca_kind (apply_edit e sf c) = ca_kind c \<and> ca_status (apply_edit e sf c) = ca_status c \<and>
      ca_template_id (apply_edit e sf c) = ca_template_id c \<and>
      ca_entity_id (apply_edit e sf c) = (case ed_entity_id e of None \<Rightarrow> ca_entity_id c | Some x \<Rightarrow> Some x)"
    by (simp add: apply_edit_def given_def split: option.split)
  with assms(2) schema_row_status [OF assms(1) c] schema_row_refs [OF assms(1) c]
  show "ca_id (apply_edit e sf c) = ca_id c \<and> ca_kind (apply_edit e sf c) = ca_kind c \<and> ca_status (apply_edit e sf c) \<in> set campaign_statuses \<and>
      ca_template_id (apply_edit e sf c) = ca_template_id c \<and> (\<forall>x. ca_entity_id (apply_edit e sf c) = Some x \<longrightarrow> x \<in> en_id ` set (v_entities v))"
    by (auto split: option.splits)
qed

lemma schema_edit_campaign: "schema_ok v \<Longrightarrow> edit_campaign ev rd i e v = Inr (v', r) \<Longrightarrow> schema_ok v'"
  by (auto simp: edit_campaign_def bindE_def split: if_splits sum.splits option.splits intro!: schema_edit)

lemma schema_mark_cancelled:
  assumes "schema_ok v"
  shows "schema_ok (mark_cancelled ev i clear v)"
proof -
  let ?v1 = "set_campaign ev i (\<lambda>c. if clear then c\<lparr>ca_status := ''cancelled'', ca_relaunch_open := 0\<rparr> else c\<lparr>ca_status := ''cancelled''\<rparr>) v"
  let ?v2 = "?v1\<lparr>v_batches := update_where (\<lambda>b. cb_campaign_id b = i \<and> cb_status b \<in> set live_batch) (\<lambda>b. b\<lparr>cb_status := ''cancelled''\<rparr>) (v_batches ?v1)\<rparr>"
  have "schema_ok ?v1" by (rule schema_set_status [OF assms, where st = "''cancelled''"]) (simp_all add: campaign_statuses_def)
  then have v2: "schema_ok ?v2" by (rule schema_update_batches) (simp_all add: batch_statuses_def)
  have "schema_ok (?v2\<lparr>v_batches := update_where p (\<lambda>b. b\<lparr>cb_dispatch_started_at := None\<rparr>) (v_batches ?v2)\<rparr>)" for p
    using schemaD(10) [OF v2] by (intro schema_update_batches [OF v2]) (simp_all add: batch_table_def)
  with v2 show ?thesis unfolding mark_cancelled_def Let_def by (simp only: split: if_split) simp
qed

section \<open>One operation\<close>

text \<open>\<open>schema_kept\<close> collects what every operation keeps.\<close>

named_theorems schema_kept

lemmas [schema_kept] =
  schema_create_template schema_update_template schema_delete_template schema_create_entity schema_update_entity
  schema_create_operator schema_add_seed schema_create_campaign schema_clone_campaign schema_edit_campaign schema_add_stage
  schema_update_stage schema_delete_stage

lemma schema_create_contact [schema_kept]: "schema_ok v \<Longrightarrow> create_contact ev c v = Inr (v', r) \<Longrightarrow> schema_ok v'"
  by (auto simp: create_contact_def Let_def split: if_splits option.splits intro!: schema_new_contact [OF _ refl])

lemma schema_delete_contact [schema_kept]: "schema_ok v \<Longrightarrow> delete_contact ev i v = Inr (v', r) \<Longrightarrow> schema_ok v'"
  by (auto simp: delete_contact_def bindE_def split: option.splits sum.splits dest: schema_drop_contact)

lemma schema_bulk_delete [schema_kept]: "schema_ok v \<Longrightarrow> bulk_delete_contacts ev ids v = Inr (v', r) \<Longrightarrow> schema_ok v'"
  by (auto simp: bulk_delete_contacts_def bindE_def Let_def split: if_splits sum.splits dest: schema_drop_contacts)

lemma schema_edit_contact [schema_kept]: "schema_ok v \<Longrightarrow> edit_contact ev i name tags v = Inr (v', r) \<Longrightarrow> schema_ok v'"
  by (auto simp: edit_contact_def Let_def split: if_splits option.split intro!: schema_change_contacts)

lemma schema_csv_import [schema_kept]: "schema_ok v \<Longrightarrow> csv_import ev rows tag v = Inr (v', st) \<Longrightarrow> schema_ok v'"
  by (auto simp: csv_import_def Let_def split: sum.splits if_splits prod.splits intro!: schema_import_rows)

lemma schema_rename_tag [schema_kept]: "schema_ok v \<Longrightarrow> rename_tag ev old new v = Inr (v', r) \<Longrightarrow> schema_ok v'"
  by (auto simp: rename_tag_def Let_def split: if_splits intro!: schema_change_contacts)

lemma schema_delete_tag [schema_kept]: "schema_ok v \<Longrightarrow> delete_tag ev tag v = Inr (v', r) \<Longrightarrow> schema_ok v'"
  by (auto simp: delete_tag_def Let_def split: if_splits intro!: schema_change_contacts)

lemma schema_admin_suppression [schema_kept]: "schema_ok v \<Longrightarrow> admin_add_suppression ev e reason v = Inr (v', h) \<Longrightarrow> schema_ok v'"
  by (auto simp: admin_add_suppression_def Let_def split: if_splits intro!: schema_add_suppression)

lemma schema_bulk_templates [schema_kept]: "schema_ok v \<Longrightarrow> bulk_import_templates ev flag why body v = Inr (v', b) \<Longrightarrow> schema_ok v'"
  unfolding bulk_import_templates_def by (erule schema_bulk_import [rotated]) (auto dest: schema_create_template)

lemma schema_bulk_entities [schema_kept]: "schema_ok v \<Longrightarrow> bulk_import_entities ev why body v = Inr (v', b) \<Longrightarrow> schema_ok v'"
  unfolding bulk_import_entities_def by (erule schema_bulk_import [rotated]) (auto dest: schema_create_entity)

lemma schema_set_entity_key [schema_kept]: "schema_ok v \<Longrightarrow> set_entity_key ev enc i key v = Inr (v', r) \<Longrightarrow> schema_ok v'"
  by (auto simp: set_entity_key_def split: if_splits sum.splits intro!: schema_write_key)

lemma schema_clear_entity_key [schema_kept]: "schema_ok v \<Longrightarrow> clear_entity_key ev i v = Inr (v', r) \<Longrightarrow> schema_ok v'"
  by (auto simp: clear_entity_key_def split: if_splits intro!: schema_write_key)

lemma schema_delete_entity [schema_kept]: "schema_ok v \<Longrightarrow> delete_company ev i v = Inr (v', r) \<Longrightarrow> schema_ok v'"
  by (auto simp: delete_company_def split: if_splits intro!: schema_delete_company)

lemma schema_toggle_operator [schema_kept]: "schema_ok v \<Longrightarrow> toggle_operator_active ev i v = Inr (v', r) \<Longrightarrow> schema_ok v'"
  by (auto simp: toggle_operator_active_def Let_def split: option.splits intro!: schema_update_operators)

lemma schema_delete_operator [schema_kept]: "schema_ok v \<Longrightarrow> delete_operator ev i v = Inr (v', r) \<Longrightarrow> schema_ok v'"
  using schemaD(4) [of v]
  by (auto simp: delete_operator_def operator_table_def distinct_map_filter split: if_splits intro!: schema_operators)

lemma schema_login [schema_kept]: "schema_ok v \<Longrightarrow> login ev now email password v = (v', r) \<Longrightarrow> schema_ok v'"
  by (auto simp: login_def update_last_login_def split: if_splits option.splits intro!: schema_update_operators)

lemma schema_toggle_seed [schema_kept]: "schema_ok v \<Longrightarrow> toggle_seed i v = Inr (v', s) \<Longrightarrow> schema_ok v'"
  using schemaD(5) [of v]
  by (auto simp: toggle_seed_def Let_def seed_table_def map_update_where split: option.splits intro!: schema_seeds)

lemma schema_delete_seed [schema_kept]: "schema_ok v \<Longrightarrow> schema_ok (delete_seed i v)"
  using schemaD(5) [of v] by (auto simp: delete_seed_def seed_table_def distinct_map_filter intro!: schema_seeds)

lemma schema_add_recipients [schema_kept]: "schema_ok v \<Longrightarrow> add_recipients ev order i cs tag v = Inr (v', r) \<Longrightarrow> schema_ok v'"
  by (auto simp: add_recipients_def Let_def bindE_def split: if_splits sum.splits dest!: campaign_of_in
      intro!: schema_count_recipients dest: schema_insert_recipients [THEN conjunct1])

lemma schema_add_contacts [schema_kept]: "schema_ok v \<Longrightarrow> add_contacts_to_campaign ev i cs v = Inr (v', r) \<Longrightarrow> schema_ok v'"
  by (auto simp: add_contacts_to_campaign_def Let_def bindE_def split: if_splits sum.splits dest!: campaign_of_in
      intro!: schema_count_recipients dest: schema_insert_recipients [THEN conjunct1])

lemma schema_mark_tested [schema_kept]: "schema_ok v \<Longrightarrow> mark_tested ev i v = Inr (v', h) \<Longrightarrow> schema_ok v'"
  by (auto simp: mark_tested_def campaign_statuses_def split: option.splits intro!: schema_set_status [where st = "''tested''"])

lemma schema_schedule [schema_kept]: "schema_ok v \<Longrightarrow> schedule_campaign ev rd clock i t v = Inr (v', h) \<Longrightarrow> schema_ok v'"
  by (auto simp: schedule_campaign_def Let_def split: option.splits if_splits intro!: schema_update_campaigns)
    (auto simp: campaign_statuses_def dest: schema_campaign_row)

lemma schema_pause [schema_kept]: "schema_ok v \<Longrightarrow> pause_campaign ev i v = Inr (v', r) \<Longrightarrow> schema_ok v'"
  by (auto simp: pause_campaign_def campaign_statuses_def split: option.splits if_splits intro!: schema_set_status [where st = "''paused''"])

lemma schema_resume [schema_kept]:
  assumes "schema_ok v" "resume_campaign ev i v = Inr (v', h)"
  shows "schema_ok v'"
proof -
  have "schema_ok (set_campaign ev i (\<lambda>c. c\<lparr>ca_status := st\<rparr>) v)" if "st = ''tested'' \<or> st = ''draft''" for st
    using that by (intro schema_set_status [OF assms(1), where st = st]) (auto simp: campaign_statuses_def)
  with assms(2) show ?thesis by (auto simp: resume_campaign_def Let_def split: option.splits if_splits)
qed

lemma schema_retry_failed [schema_kept]: "schema_ok v \<Longrightarrow> retry_failed ev i v = Inr (v', n) \<Longrightarrow> schema_ok v'"
  by (auto simp: retry_failed_def Let_def campaign_statuses_def split: if_splits
      intro!: schema_set_status [where st = "''tested''"] schema_retry)

lemma schema_test_send [schema_kept]: "schema_ok v \<Longrightarrow> campaign_test_send ev lev key post i t v = Inr (v', m) \<Longrightarrow> schema_ok v'"
  by (auto simp: campaign_test_send_def Let_def bindE_def split: if_splits option.splits sum.splits)

lemma schema_archive: "schema_ok v \<Longrightarrow> schema_ok (set_campaign ev i (\<lambda>c. c\<lparr>ca_status := ''archived''\<rparr>) v)"
  by (rule schema_set_status [where st = "''archived''"]) (simp_all add: campaign_statuses_def)

section \<open>The steps\<close>

text \<open>One successful operation of an operator. \<open>csv_import\<close> and the bulk imports commit what they accepted, all
  others commit as a whole or, answering an error, not at all. \<open>Cancelled\<close> is the commit of Cancel and of Archive.\<close>

inductive admin_step :: "vault \<Rightarrow> vault \<Rightarrow> bool" where
  "create_contact ev c v = Inr (v', r1) \<Longrightarrow> admin_step v v'"
| "delete_contact ev i v = Inr (v', r2) \<Longrightarrow> admin_step v v'"
| "bulk_delete_contacts ev given_ids v = Inr (v', n) \<Longrightarrow> admin_step v v'"
| "edit_contact ev i name tags v = Inr (v', b) \<Longrightarrow> admin_step v v'"
| "csv_import ev rows tag v = Inr (v', st) \<Longrightarrow> admin_step v v'"
| "rename_tag ev old new v = Inr (v', n) \<Longrightarrow> admin_step v v'"
| "delete_tag ev tag v = Inr (v', n) \<Longrightarrow> admin_step v v'"
| "admin_add_suppression ev email reason v = Inr (v', h) \<Longrightarrow> admin_step v v'"
| "create_template ev t v = Inr (v', r3) \<Longrightarrow> admin_step v v'"
| "update_template ev i t v = Inr (v', h) \<Longrightarrow> admin_step v v'"
| "delete_template ev i v = Inr (v', r2) \<Longrightarrow> admin_step v v'"
| "bulk_import_templates ev flag why body v = Inr (v', br) \<Longrightarrow> admin_step v v'"
| "create_entity ev e v = Inr (v', k) \<Longrightarrow> admin_step v v'"
| "update_entity ev i e v = Inr (v', r2) \<Longrightarrow> admin_step v v'"
| "set_entity_key ev enc i key v = Inr (v', r2) \<Longrightarrow> admin_step v v'"
| "clear_entity_key ev i v = Inr (v', r2) \<Longrightarrow> admin_step v v'"
| "delete_company ev i v = Inr (v', r2) \<Longrightarrow> admin_step v v'"
| "bulk_import_entities ev why body v = Inr (v', br) \<Longrightarrow> admin_step v v'"
| "create_operator ev email hashed role v = Inr (v', k) \<Longrightarrow> admin_step v v'"
| "toggle_operator_active ev i v = Inr (v', k) \<Longrightarrow> admin_step v v'"
| "delete_operator ev i v = Inr (v', r2) \<Longrightarrow> admin_step v v'"
| "login aev now email password v = (v', r4) \<Longrightarrow> admin_step v v'"
| "add_seed ev email provider v = Inr (v', r5) \<Longrightarrow> admin_step v v'"
| "toggle_seed i v = Inr (v', s) \<Longrightarrow> admin_step v v'"
| "admin_step v (delete_seed i v)"
| "create_campaign ev rd p v = Inr (v', k) \<Longrightarrow> admin_step v v'"
| "add_recipients ev order i contact_ids by_tag v = Inr (v', nn) \<Longrightarrow> admin_step v v'"
| "add_contacts_to_campaign ev i contacts v = Inr (v', nn) \<Longrightarrow> admin_step v v'"
| "mark_tested ev i v = Inr (v', h) \<Longrightarrow> admin_step v v'"
| "schedule_campaign ev rd clock i text v = Inr (v', h) \<Longrightarrow> admin_step v v'"
| "clone_campaign ev i v = Inr (v', k) \<Longrightarrow> admin_step v v'"
| "pause_campaign ev i v = Inr (v', r2) \<Longrightarrow> admin_step v v'"
| "resume_campaign ev i v = Inr (v', h) \<Longrightarrow> admin_step v v'"
| "retry_failed ev i v = Inr (v', n) \<Longrightarrow> admin_step v v'"
| "edit_campaign ev rd i ce v = Inr (v', b) \<Longrightarrow> admin_step v v'"
| "add_stage ev rd i k text note v = Inr (v', kk) \<Longrightarrow> admin_step v v'"
| "update_stage rd i k t2 text note v = Inr (v', r2) \<Longrightarrow> admin_step v v'"
| "delete_stage i k v = Inr (v', r2) \<Longrightarrow> admin_step v v'"
| Cancelled: "admin_step v (by_operator ev a tgt d (mark_cancelled ev i clear v))"
| Archived: "admin_step v (by_operator ev a tgt d (set_campaign ev i (\<lambda>c. c\<lparr>ca_status := ''archived''\<rparr>) v))"
| "campaign_test_send ev (lev :: push_state launch_env) key post i given_to v = Inr (v', mid) \<Longrightarrow> admin_step v v'"

lemma admin_step_keeps: "admin_step v v' \<Longrightarrow> schema_ok v \<Longrightarrow> schema_ok v'"
  by (induction rule: admin_step.induct) (erule (1) schema_kept | simp only: schema_by_operator schema_mark_cancelled schema_archive schema_delete_seed)+


definition demo_tables :: vault where
  "demo_tables = empty_vault\<lparr>v_campaigns := [(demo_campaign 1)\<lparr>ca_status := ''draft''\<rparr>], v_templates := [demo_template],
     v_contacts := [tagged 4 ''x''], v_stages := [demo_stage 7 1]\<rparr>"


end
