(* ===== verification/Admin_Forms.thy ===== *)
theory Admin_Forms
  imports Contact_Properties Admin_Properties Admin_Auth
begin

text \<open>
  The forms of the admin pages (terminal/admin_ui.py) behind the HTML: what each handler makes of the posted
  fields before it calls the operation of routes_admin.py, and what it does with a failure; and the figures the
  pages show. Redirects, layout and scripts are left out.
\<close>

section \<open>Forms that swallow a failure\<close>

text \<open>\<open>try: ... except Exception: pass\<close>, and a redirect in any case.\<close>

definition quietly :: "'a admin_result \<Rightarrow> vault \<Rightarrow> vault" where
  "quietly r v = (case r of Inl _ \<Rightarrow> v | Inr (v1, _) \<Rightarrow> v1)"

definition ui_contacts_create :: "admin_env \<Rightarrow> string \<Rightarrow> string \<Rightarrow> string \<Rightarrow> vault \<Rightarrow> vault" where
  "ui_contacts_create ev email name tags v =
     quietly (create_contact ev \<lparr>ci_email = email, ci_name = blank_none name, ci_tags = blank_none tags, ci_consent_source = ''manual'',
       ci_external_id = None\<rparr> v) v"

definition ui_contacts_delete :: "admin_env \<Rightarrow> int \<Rightarrow> vault \<Rightarrow> vault" where
  "ui_contacts_delete ev i v = quietly (delete_contact ev i v) v"

text \<open>The template forms post four fields; the others have the defaults of the request model.\<close>

definition form_template :: "string \<Rightarrow> string \<Rightarrow> string \<Rightarrow> string \<Rightarrow> template_in" where
  "form_template name subject from_name html_body =
     \<lparr>ti_name = name, ti_subject = subject, ti_from_name = from_name, ti_html_body = html_body, ti_text_body = None, ti_tracking_enabled = True\<rparr>"

definition ui_template_save :: "admin_env \<Rightarrow> int \<Rightarrow> string \<Rightarrow> string \<Rightarrow> string \<Rightarrow> string \<Rightarrow> vault \<Rightarrow> vault" where
  "ui_template_save ev i name subject from_name html_body v =
     quietly (update_template ev i (form_template name subject from_name html_body) v) v"

definition ui_templates_create :: "admin_env \<Rightarrow> string \<Rightarrow> string \<Rightarrow> string \<Rightarrow> string \<Rightarrow> vault \<Rightarrow> vault" where
  "ui_templates_create ev name subject from_name html_body v =
     quietly (create_template ev (form_template name subject from_name html_body) v) v"

definition ui_template_delete :: "admin_env \<Rightarrow> int \<Rightarrow> vault \<Rightarrow> vault" where
  "ui_template_delete ev i v = quietly (delete_template ev i v) v"

text \<open>The company forms post four fields of seven.\<close>

definition form_entity :: "string \<Rightarrow> string \<Rightarrow> string \<Rightarrow> string \<Rightarrow> entity_in" where
  "form_entity name domain from_name from_email =
     \<lparr>ei_name = name, ei_domain = domain, ei_from_name = from_name, ei_from_email = from_email, ei_footer_address = None,
      ei_support_email = None, ei_public_host = None\<rparr>"

definition ui_entities_create :: "admin_env \<Rightarrow> string \<Rightarrow> string \<Rightarrow> string \<Rightarrow> string \<Rightarrow> vault \<Rightarrow> vault" where
  "ui_entities_create ev name domain from_name from_email v =
     (let b = form_entity name domain from_name from_email in if entity_in_ok b then quietly (create_entity ev b v) v else v)"

definition ui_entities_update :: "admin_env \<Rightarrow> int \<Rightarrow> string \<Rightarrow> string \<Rightarrow> string \<Rightarrow> string \<Rightarrow> vault \<Rightarrow> vault" where
  "ui_entities_update ev i name domain from_name from_email v =
     (let b = form_entity name domain from_name from_email in if entity_in_ok b then quietly (update_entity ev i b v) v else v)"

definition ui_entities_delete :: "admin_env \<Rightarrow> int \<Rightarrow> vault \<Rightarrow> vault" where
  "ui_entities_delete ev i v = quietly (delete_company ev i v) v"

text \<open>The key is posted as JSON (\<open>None\<close>: the body is none) and is checked before the operation.\<close>

definition ui_entities_set_key :: "admin_env \<Rightarrow> (string \<Rightarrow> exc + string) \<Rightarrow> int \<Rightarrow> json option \<Rightarrow> vault \<Rightarrow> unit admin_result" where
  "ui_entities_set_key ev enc i body v =
     (case Option.bind body (jitem ''resend_api_key'') of
        Some (JStr value) \<Rightarrow>
          if strip value = [] then Inl (HttpError 422 ''key must not be empty'') else set_entity_key ev enc i value v
      | _ \<Rightarrow> Inl (HttpError 422 ''request body must be JSON with resend_api_key''))"

text \<open>The operator forms send an operator who is no administrator back to the overview.\<close>

definition for_admins :: "json \<Rightarrow> vault \<Rightarrow> vault \<Rightarrow> vault" where
  "for_admins session v v1 = (case require_admin_role session of Inl _ \<Rightarrow> v | Inr _ \<Rightarrow> v1)"

definition ui_operators_create :: "admin_env \<Rightarrow> json \<Rightarrow> string \<Rightarrow> string \<Rightarrow> string \<Rightarrow> vault \<Rightarrow> vault" where
  "ui_operators_create ev session email hashed role v = for_admins session v (quietly (create_operator ev email hashed role v) v)"

definition ui_operators_toggle :: "admin_env \<Rightarrow> json \<Rightarrow> int \<Rightarrow> vault \<Rightarrow> vault" where
  "ui_operators_toggle ev session i v = for_admins session v (quietly (toggle_operator_active ev i v) v)"

definition ui_operators_delete :: "admin_env \<Rightarrow> json \<Rightarrow> int \<Rightarrow> vault \<Rightarrow> vault" where
  "ui_operators_delete ev session i v = for_admins session v (quietly (delete_operator ev i v) v)"

text \<open>\<open>int(x or default)\<close> of a posted number, and one left blank.\<close>

definition form_int :: "string \<Rightarrow> string \<Rightarrow> int option" where
  "form_int s default_text = int_of_str (py_or s default_text)"

definition blank_or :: "(string \<Rightarrow> 'a option) \<Rightarrow> 'a option \<Rightarrow> string \<Rightarrow> 'a option option" where
  "blank_or rd missing s = (if strip s = [] then Some missing else map_option Some (rd s))"

record campaign_form =
  fm_name :: string
  fm_template_id :: int
  fm_kind :: string
  fm_entity_id :: string
  fm_scheduled_for :: string
  fm_rate_limit_per_min :: string
  fm_bounce_pause_pct :: string
  fm_human_send :: string
  fm_human_send_min_s :: string
  fm_human_send_max_s :: string
  fm_human_send_count :: string

text \<open>The posted campaign, or nothing when a field does not read; \<open>flt\<close> is \<open>float\<close> of a text.\<close>

definition form_campaign :: "iso_reader \<Rightarrow> (string \<Rightarrow> rat option) \<Rightarrow> campaign_form \<Rightarrow> campaign_in option" where
  "form_campaign rd flt f =
     (case (if fm_entity_id f = [] then Some None else map_option Some (int_of_str (fm_entity_id f)),
            blank_or (\<lambda>s. map_option utc_text (parse_utc_naive rd s)) None (fm_scheduled_for f),
            blank_or int_of_str None (fm_rate_limit_per_min f),
            blank_or flt (Some (1/10)) (fm_bounce_pause_pct f),
            form_int (fm_human_send_min_s f) ''60'', form_int (fm_human_send_max_s f) ''210'', form_int (fm_human_send_count f) ''1'') of
        (Some e, Some sf, Some rl, Some (Some bp), Some mn, Some mx, Some n) \<Rightarrow>
          Some \<lparr>pi_name = fm_name f, pi_template_id = fm_template_id f, pi_kind = fm_kind f, pi_entity_id = e, pi_scheduled_for = sf,
            pi_rate_limit_per_min = rl, pi_bounce_pause_pct = bp, pi_human_send = (fm_human_send f \<noteq> []), pi_human_send_min_s = mn,
            pi_human_send_max_s = mx, pi_human_send_count = n\<rparr>
      | _ \<Rightarrow> None)"

definition ui_campaigns_create :: "admin_env \<Rightarrow> iso_reader \<Rightarrow> (string \<Rightarrow> rat option) \<Rightarrow> campaign_form \<Rightarrow> vault \<Rightarrow> vault" where
  "ui_campaigns_create ev rd flt f v =
     (case form_campaign rd flt f of None \<Rightarrow> v | Some b \<Rightarrow> quietly (create_campaign ev rd b v) v)"

definition ui_add_stage :: "admin_env \<Rightarrow> iso_reader \<Rightarrow> int \<Rightarrow> int \<Rightarrow> string \<Rightarrow> string \<Rightarrow> vault \<Rightarrow> vault" where
  "ui_add_stage ev rd i template_id scheduled_for note v =
     (case parse_utc_naive rd scheduled_for of
        None \<Rightarrow> v
      | Some t \<Rightarrow> quietly (add_stage ev rd i template_id (utc_text t) (blank_none note) v) v)"

definition ui_delete_stage :: "int \<Rightarrow> int \<Rightarrow> vault \<Rightarrow> vault" where
  "ui_delete_stage i k v = quietly (delete_stage i k v) v"

definition ui_add_by_tag :: "admin_env \<Rightarrow> (int set \<Rightarrow> int list) \<Rightarrow> int \<Rightarrow> string \<Rightarrow> vault \<Rightarrow> vault \<times> nat" where
  "ui_add_by_tag ev order i tag v =
     (case add_recipients ev order i None (Some tag) v of Inl _ \<Rightarrow> (v, 0) | Inr (v1, (added, _)) \<Rightarrow> (v1, added))"

section \<open>Tags of a selection\<close>

text \<open>\<open>(data.get(k) or "").strip()\<close>: a value that is neither false nor a text has no \<open>strip\<close>.\<close>

definition posted_text :: "string \<Rightarrow> json \<Rightarrow> admin_error + string" where
  "posted_text k data =
     (case jget k data of
        None \<Rightarrow> Inl (Unhandled ''get'')
      | Some (JStr s) \<Rightarrow> Inr (strip s)
      | Some j \<Rightarrow> if jtrue j then Inl (Unhandled ''strip'') else Inr [])"

definition own_tags :: "contact \<Rightarrow> string list" where
  "own_tags c = filter (\<lambda>t. t \<noteq> []) (map strip (contact_tags c))"

definition lacks_tag :: "string \<Rightarrow> string \<Rightarrow> contact \<Rightarrow> bool" where
  "lacks_tag new_tag filter_tag c \<longleftrightarrow> (filter_tag = [] \<or> like_part filter_tag (ct_tags c)) \<and> new_tag \<notin> set (own_tags c)"

definition give_tag :: "string \<Rightarrow> contact \<Rightarrow> contact" where
  "give_tag new_tag c = c\<lparr>ct_tags := Some (join ''|'' (own_tags c @ [new_tag]))\<rparr>"

definition tags_add_to_filtered :: "json \<Rightarrow> vault \<Rightarrow> nat admin_result" where
  "tags_add_to_filtered data v =
     bindE (posted_text ''new_tag'' data) (\<lambda>new_tag.
     bindE (posted_text ''filter_tag'' data) (\<lambda>filter_tag.
       if new_tag = [] then Inl (HttpError 400 ''new_tag required'')
       else Inr (v\<lparr>v_contacts := update_where (lacks_tag new_tag filter_tag) (give_tag new_tag) (v_contacts v)\<rparr>,
                 rowcount (lacks_tag new_tag filter_tag) (v_contacts v))))"

section \<open>Files\<close>

text \<open>\<open><title[^>]*>([^<]+)</title>\<close> at one position (ASCII letters of either case), and its first match.\<close>

definition match_title :: "string \<Rightarrow> string option" where
  "match_title s =
     (if starts_with (lower s) ''<title'' then
        (case dropWhile (\<lambda>c. c \<noteq> CHR ''>'') (drop 6 s) of
           [] \<Rightarrow> None
         | _ # r \<Rightarrow>
             let body = takeWhile (\<lambda>c. c \<noteq> CHR ''<'') r; rest = dropWhile (\<lambda>c. c \<noteq> CHR ''<'') r
             in if body \<noteq> [] \<and> starts_with (lower rest) ''</title>'' then Some body else None)
      else None)"

fun find_title :: "string \<Rightarrow> string option" where
  "find_title [] = None"
| "find_title (c # cs) = (case match_title (c # cs) of Some t \<Rightarrow> Some t | None \<Rightarrow> find_title cs)"

text \<open>\<open>s.rsplit(".", 1)\<close>: the text before the last dot, and the text after it when there is one.\<close>

definition split_extension :: "string \<Rightarrow> string \<times> string option" where
  "split_extension s =
     (case partition_at CHR ''.'' (rev s) of (a, dot, b) \<Rightarrow> if dot then (rev b, Some (rev a)) else (s, None))"

definition looks_like_object :: "bytes \<Rightarrow> bool" where
  "looks_like_object raw \<longleftrightarrow>
     take 1 (dropWhile (\<lambda>c. c = CHR '' '' \<or> 9 \<le> (of_char c :: nat) \<and> (of_char c :: nat) \<le> 13) raw) = ''{''"

definition json_str :: "json option \<Rightarrow> string option" where
  "json_str j = (case j of Some (JStr s) \<Rightarrow> Some s | _ \<Rightarrow> None)"

text \<open>The template a JSON file holds; no value when the request model refuses a field.\<close>

definition template_of_json :: "(json \<Rightarrow> bool option) \<Rightarrow> string \<Rightarrow> string \<Rightarrow> json \<Rightarrow> template_in option" where
  "template_of_json flag fallback from_name data =
     (case (json_str (map_option (\<lambda>n. jor n (JStr fallback)) (jget ''name'' data)), json_str (jget_or ''subject'' (JStr []) data),
            json_str (map_option (\<lambda>f. jor f (JStr from_name)) (jget ''from_name'' data)), json_str (jget_or ''html_body'' (JStr []) data),
            json_opt_text ''text_body'' data, json_flag flag ''tracking_enabled'' data) of
        (Some n, Some s, Some f, Some h, Some t, Some k) \<Rightarrow>
          Some \<lparr>ti_name = n, ti_subject = s, ti_from_name = f, ti_html_body = h, ti_text_body = t, ti_tracking_enabled = k\<rparr>
      | _ \<Rightarrow> None)"

datatype import_answer = Imported | Import_error string

text \<open>\<open>decode\<close> is UTF-8 with replacement, \<open>flag\<close> the coercion of the request model to a bool.\<close>

definition templates_import ::
  "admin_env \<Rightarrow> (json \<Rightarrow> bool option) \<Rightarrow> (bytes \<Rightarrow> string) \<Rightarrow> string option \<Rightarrow> bytes \<Rightarrow> string \<Rightarrow> string \<Rightarrow> vault \<Rightarrow> import_answer admin_result" where
  "templates_import ev flag decode filename raw from_name name v =
     (case split_extension (opt_or filename ''imported'') of
        (stem, ext) \<Rightarrow>
          let add = (\<lambda>t. if ti_from_name t = [] then Inr (v, Import_error ''missing_from_name'')
                else if ti_subject t = [] then Inr (v, Import_error ''missing_subject'')
                else (case create_template ev t v of
                        Inr (v1, _) \<Rightarrow> Inr (v1, Imported)
                      | Inl (HttpError st m) \<Rightarrow> Inr (v, Import_error m)
                      | Inl (Unhandled m) \<Rightarrow> Inl (Unhandled m)))
          in if map_option lower ext = Some ''json'' \<or> looks_like_object raw then
               (case json_loads (ae_crypto ev) raw of
                  None \<Rightarrow> Inr (v, Import_error ''json_parse'')
                | Some data \<Rightarrow>
                    (case template_of_json flag (py_or name stem) from_name data of
                       None \<Rightarrow> Inl (Unhandled ''TemplateIn'')
                     | Some t \<Rightarrow> add t))
             else
               (let html = decode raw in
                add (form_template (py_or name stem) (case find_title html of None \<Rightarrow> stem | Some s \<Rightarrow> strip s) from_name html)))"

text \<open>The file of suppressions: the address of a hash when a contact has it (the last one).\<close>

definition email_behind :: "admin_env \<Rightarrow> vault \<Rightarrow> string \<Rightarrow> string" where
  "email_behind ev v h =
     opt_or (map_option ct_email (find (\<lambda>c. hash_of_email (ae_crypto ev) (ct_email c) = h) (rev (v_contacts v)))) []"

definition suppression_line :: "admin_env \<Rightarrow> vault \<Rightarrow> suppression \<Rightarrow> string" where
  "suppression_line ev v r =
     join '','' [email_behind ev v (sh_email_hash r), sh_email_hash r, sh_reason r,
                 (case sh_source r of None \<Rightarrow> ''None'' | Some s \<Rightarrow> s), sh_added_at r]"

definition suppression_csv :: "admin_env \<Rightarrow> vault \<Rightarrow> string" where
  "suppression_csv ev v =
     join [CHR 0x0A] (''email,email_hash,reason,source,added_at'' # map (suppression_line ev v) (order_desc sh_added_at (v_suppressions v)))"

section \<open>What the pages show\<close>

text \<open>The rows of the contact panel, newest first, and their number before the limit.\<close>

definition contact_matches :: "string \<Rightarrow> contact \<Rightarrow> bool" where
  "contact_matches s c \<longleftrightarrow> s = [] \<or> like_part s (Some (ct_email c)) \<or> like_part s (ct_name c) \<or> like_part s (ct_tags c)"

definition contacts_json :: "string \<Rightarrow> string \<Rightarrow> int \<Rightarrow> vault \<Rightarrow> contact list \<times> nat" where
  "contacts_json tag q limit v =
     (let rows = filter (contact_matches (py_or q tag)) (v_contacts v) in (page limit 0 (order_desc ct_created_at rows), length rows))"

definition html_escape :: "string \<Rightarrow> string" where
  "html_escape s =
     replace_all [CHR 0x27] ''&#x27;'' (replace_all [CHR 0x22] ''&quot;''
       (replace_all ''>'' ''&gt;'' (replace_all ''<'' ''&lt;'' (replace_all ''&'' ''&amp;'' s))))"

definition local_time :: "iso_reader \<Rightarrow> string option \<Rightarrow> string" where
  "local_time rd stored =
     (if \<not> truthy stored then ''-''
      else
        (case parse_utc_naive rd (opt_or stored []) of
           None \<Rightarrow> html_escape (take 16 (opt_or stored []))
         | Some t \<Rightarrow> ''<time datetime='' @ [CHR 0x22] @ iso \<lfloor>t\<rfloor> @ [CHR 0x22] @ '' data-local>'' @ take 16 (sql_time \<lfloor>t\<rfloor>) @ ''</time>''))"

text \<open>The details of an audit row; a text that is no object counts as an empty one.\<close>

definition audit_details :: "crypto \<Rightarrow> string option \<Rightarrow> json" where
  "audit_details cr raw = (case json_loads cr (opt_or raw ''{}'') of Some (JObj kvs) \<Rightarrow> JObj kvs | _ \<Rightarrow> JObj [])"

definition detail :: "string \<Rightarrow> json \<Rightarrow> json" where
  "detail k d = (case jitem k d of None \<Rightarrow> JNull | Some x \<Rightarrow> x)"

text \<open>The last row of a selection by id, the details of the rows about a campaign.\<close>

definition audit_rows :: "int \<Rightarrow> string list \<Rightarrow> vault \<Rightarrow> audit_event list" where
  "audit_rows cid actions v = sort_key au_id (filter (\<lambda>e. au_target e = named ''campaign'' cid \<and> au_action e \<in> set actions) (v_audit v))"

definition last_error :: "crypto \<Rightarrow> audit_event list \<Rightarrow> json option" where
  "last_error cr rows =
     (let e = detail ''error'' (audit_details cr (if rows = [] then None else au_details_json (last rows))) in if jtrue e then Some e else None)"

fun stage_errors :: "crypto \<Rightarrow> audit_event list \<Rightarrow> (int \<times> json \<times> bool) list \<Rightarrow> exc + (int \<times> json \<times> bool) list" where
  "stage_errors cr [] found = Inr found"
| "stage_errors cr (e # es) found =
     (let d = audit_details cr (au_details_json e); err = detail ''error'' d in
      if detail ''stage_id'' d \<noteq> JNull \<and> (jtrue err \<or> jtrue (detail ''reason'' d)) then
        bindE (Signed_Tokens.py_int (detail ''stage_id'' d)) (\<lambda>k.
          stage_errors cr es (AList.update k (jor err (detail ''reason'' d), jtrue err \<and> detail ''possibly_sent'' d \<noteq> JBool False) found))
      else stage_errors cr es found)"

definition scheduler_errors :: "crypto \<Rightarrow> int \<Rightarrow> vault \<Rightarrow> exc + json option \<times> (int \<times> json \<times> bool) list" where
  "scheduler_errors cr cid v =
     bindE (stage_errors cr (audit_rows cid [''campaign.stage_failed'', ''campaign.stage_cancelled''] v) []) (\<lambda>stage_err.
       Inr (last_error cr (audit_rows cid [''campaign.scheduled_launch_failed''] v), stage_err))"

definition scheduler_retry :: "crypto \<Rightarrow> int \<Rightarrow> string \<Rightarrow> vault \<Rightarrow> json option" where
  "scheduler_retry cr cid since v =
     last_error cr (filter (\<lambda>e. since \<le> au_occurred_at e) (audit_rows cid [''campaign.scheduled_launch_retrying''] v))"

text \<open>The card of the overview: how the connection stands, the two last times and the rows that wait. \<open>bearer\<close> is the
  content of the bearer file; a time with a zone cannot be subtracted from one without.\<close>

definition sync_stale_after_s :: int where "sync_stale_after_s = 300"

definition sync_pill :: "iso_reader \<Rightarrow> rat \<Rightarrow> string option \<Rightarrow> string option \<Rightarrow> string \<times> string" where
  "sync_pill rd now bearer last_pull =
     (if strip (opt_or bearer []) = [] then (''crit'', ''handshake pending'')
      else if \<not> truthy last_pull then (''warn'', ''no pull yet'')
      else
        (case rd (opt_or last_pull []) of
           Some (t, None) \<Rightarrow> if now - t \<le> of_int sync_stale_after_s then (''ok'', ''pulling'') else (''warn'', ''pull stale'')
         | _ \<Rightarrow> (''warn'', ''pull stale'')))"

definition last_push :: "vault \<Rightarrow> string option" where
  "last_push v = (case List.map_filter ob_pushed_at (v_outbox v) of [] \<Rightarrow> None | t # ts \<Rightarrow> Some (fold max ts t))"

definition sync_card :: "iso_reader \<Rightarrow> rat \<Rightarrow> string option \<Rightarrow> vault \<Rightarrow> (string \<times> string) \<times> string \<times> string \<times> nat" where
  "sync_card rd now bearer v =
     (let last_pull = state_value v ''last_pull_ok_at'';
          shown = (\<lambda>t. if truthy t then opt_or t [] @ '' UTC'' else ''never'')
      in (sync_pill rd now bearer last_pull, shown last_pull, shown (last_push v), rowcount (\<lambda>r. ob_pushed_at r = None) (v_outbox v)))"

text \<open>The estimate of a campaign that sends like people do: hours, minutes, queued recipients, senders, the gap and the
  mails a minute; a gap of zero on average divides by zero.\<close>

definition int_or_else :: "int \<Rightarrow> int \<Rightarrow> int" where
  "int_or_else i d = (if i = 0 then d else i)"

definition truncated :: "rat \<Rightarrow> int" where
  "truncated r = (if r < 0 then - \<lfloor>- r\<rfloor> else \<lfloor>r\<rfloor>)"

definition human_send_estimate :: "campaign \<Rightarrow> nat \<Rightarrow> admin_error + (int \<times> int \<times> nat \<times> int \<times> (int \<times> int) \<times> rat) option" where
  "human_send_estimate c queued =
     (if ca_human_send c = 0 \<or> queued = 0 then Inr None
      else
        (let n = max (int_or_else (ca_human_send_count c) 1) 1;
             mn = int_or_else (ca_human_send_min_s c) 60; mx = int_or_else (ca_human_send_max_s c) 210;
             avg = of_int (mn + mx) / 2;
             groups = (int queued + n - 1) div n;
             secs = truncated (of_int groups * avg)
         in if avg = 0 then Inl (Unhandled ''division by zero'')
            else Inr (Some (secs div 3600, secs mod 3600 div 60, queued, n, (mn, mx), of_int n / avg * 60))))"

text \<open>A preview fills the template (or the posted body) for a sample contact and company.\<close>

definition template_preview_raw ::
  "(string \<Rightarrow> string option) \<Rightarrow> int \<Rightarrow> string \<Rightarrow> string \<Rightarrow> string option \<Rightarrow> vault \<Rightarrow> admin_error + string" where
  "template_preview_raw conf i name email html_body v =
     (case find (\<lambda>t. tp_id t = i) (v_templates v) of
        None \<Rightarrow> Inl (HttpError 404 ''not found'')
      | Some t \<Rightarrow>
          (case render (case html_body of None \<Rightarrow> t | Some h \<Rightarrow> t\<lparr>tp_html_body := h\<rparr>) email (Some name) (Some ''MailMan'') of
             Inl e \<Rightarrow> Inl (Unhandled ''render'')
           | Inr (_, html, text) \<Rightarrow>
               Inr (fst (inject_compliance conf html text ''https://example.com/unsub'' ''https://example.com/erasure'' ''promotional''))))"

section \<open>Properties\<close>

lemma dropWhile_id: "(case s of [] \<Rightarrow> True | c # r \<Rightarrow> \<not> P c) \<Longrightarrow> dropWhile P s = s"
  by (cases s) auto

lemma dropWhile_front: "case dropWhile P s of [] \<Rightarrow> True | c # r \<Rightarrow> \<not> P c"
  by (induction s) auto

lemma dropWhile_end_front:
  assumes "case s of [] \<Rightarrow> True | c # r \<Rightarrow> \<not> P c"
  shows "case rev (dropWhile P (rev s)) of [] \<Rightarrow> True | c # r \<Rightarrow> \<not> P c"
proof (cases "rev (dropWhile P (rev s))")
  case (Cons c r)
  obtain a where "rev s = a @ dropWhile P (rev s)" using dropWhile_part by blast
  then have "s = rev (dropWhile P (rev s)) @ rev a" by (metis rev_append rev_rev_ident)
  with Cons assms show ?thesis by (cases s) auto
next
  case Nil
  then show ?thesis by (simp only: list.case)
qed

lemma strip_idem [simp]: "strip (strip s) = strip s"
proof -
  let ?f = "dropWhile is_space s"
  have "dropWhile is_space (strip s) = strip s"
    unfolding strip_def by (rule dropWhile_id [OF dropWhile_end_front [OF dropWhile_front]])
  then show ?thesis by (simp add: strip_def)
qed

lemma strip_nil: "strip [] = []"
  by (simp add: strip_def)

lemma own_tags_plain: "t \<in> set (own_tags c) \<Longrightarrow> CHR ''|'' \<notin> set t"
  using strip_subset contact_tags_plain by (fastforce simp: own_tags_def)

lemma own_tags_give:
  assumes "CHR ''|'' \<notin> set n" "strip n = n" "n \<noteq> []"
  shows "own_tags (give_tag n c) = own_tags c @ [n]"
proof -
  have "contact_tags (give_tag n c) = own_tags c @ [n]"
    unfolding give_tag_def using assms own_tags_plain by (intro contact_tags_join) auto
  moreover have "filter (\<lambda>t. t \<noteq> []) (map strip (own_tags c)) = own_tags c"
    by (simp add: own_tags_def filter_map comp_def)
  ultimately show ?thesis using assms by (simp add: own_tags_def)
qed

lemma posted_text_strip: "posted_text k data = Inr s \<Longrightarrow> strip s = s"
  using strip_idem [of "[]"] by (auto simp: posted_text_def strip_nil split: option.splits json.splits if_splits)

text \<open>The tag reaches every contact of the selection that lacks it, after its other tags; nothing else of any contact
  changes, the answer counts the contacts that changed, and the same request again changes nothing.\<close>

theorem add_tag_exact:
  assumes "tags_add_to_filtered data v = Inr (v', n)" "posted_text ''new_tag'' data = Inr new_tag" "CHR ''|'' \<notin> set new_tag"
    and "posted_text ''filter_tag'' data = Inr filter_tag"
  shows "length (v_contacts v') = length (v_contacts v) \<and>
    (\<forall>k < length (v_contacts v). let c = v_contacts v ! k; d = v_contacts v' ! k in
       own_tags d = own_tags c @
         (if (filter_tag = [] \<or> like_part filter_tag (ct_tags c)) \<and> new_tag \<notin> set (own_tags c) then [new_tag] else []) \<and>
       d\<lparr>ct_tags := ct_tags c\<rparr> = c \<and> (own_tags d = own_tags c \<longrightarrow> d = c)) \<and>
    n = card {k. k < length (v_contacts v) \<and> v_contacts v' ! k \<noteq> v_contacts v ! k} \<and>
    tags_add_to_filtered data v' = Inr (v', 0)"
proof -
  let ?hit = "lacks_tag new_tag filter_tag" and ?f = "give_tag new_tag"
  have ne: "new_tag \<noteq> []" and v': "v' = v\<lparr>v_contacts := update_where ?hit ?f (v_contacts v)\<rparr>" and n: "n = rowcount ?hit (v_contacts v)"
    using assms(1,2,4) by (auto simp: tags_add_to_filtered_def split: if_splits)
  note tags = own_tags_give [OF assms(3) posted_text_strip [OF assms(2)] ne]
  have k: "v_contacts v' ! k = (if ?hit (v_contacts v ! k) then ?f (v_contacts v ! k) else v_contacts v ! k)"
    if "k < length (v_contacts v)" for k using that by (simp add: v' update_where_def)
  have d: "?f c \<noteq> c" for c using tags [of c] by auto
  have "{k. k < length (v_contacts v) \<and> v_contacts v' ! k \<noteq> v_contacts v ! k} = {k. k < length (v_contacts v) \<and> ?hit (v_contacts v ! k)}"
    using d by (auto simp: k split: if_splits)
  then have "n = card {k. k < length (v_contacts v) \<and> v_contacts v' ! k \<noteq> v_contacts v ! k}"
    by (simp add: n rowcount_def length_filter_conv_card)
  moreover have "\<forall>c\<in>set (v_contacts v'). \<not> ?hit c"
  proof (intro ballI)
    fix d
    assume "d \<in> set (v_contacts v')"
    then obtain c where "d = (if ?hit c then ?f c else c)" by (auto simp: v' set_update_where)
    then show "\<not> ?hit d" using tags [of c] by (cases "?hit c") (auto simp: lacks_tag_def)
  qed
  then have "tags_add_to_filtered data v' = Inr (v', 0)"
    using assms(2,4) ne by (simp add: tags_add_to_filtered_def update_where_nothing rowcount_def)
  moreover have "(?f c)\<lparr>ct_tags := ct_tags c\<rparr> = c" for c by (simp add: give_tag_def)
  ultimately show ?thesis using k tags by (simp add: v' lacks_tag_def Let_def)
qed

lemma found_row: "find P rows = Some r \<Longrightarrow> r \<in> set rows \<and> P r"
  by (induction rows) (auto split: if_splits)

text \<open>The page saves a tested template unchanged in subject, sender and HTML: the plain text of the template is gone, its
  tracking is on, and the launch gate does not ask for a new test.\<close>

theorem saved_page_drops_text:
  assumes "mark_tested ev i v = Inr (v1, h)" "campaign_of v1 i = Some c" "template_of (ca_template_id c) v1 = Some t"
    and "h = template_hash_of (ae_crypto ev') (tp_subject t) (tp_from_name t) (tp_html_body t)"
    and "\<forall>q\<in>set (v_templates v1). tp_id q \<noteq> ca_template_id c \<longrightarrow> tp_name q \<noteq> n"
    and "plain_launch args" "\<not> (ca_kind c = ''promotional'' \<and> conf_or conf ''email_footer_address'' [] = [])"
  shows "\<exists>t'. launch_gate conf i args (ui_template_save ev' (ca_template_id c) n (tp_subject t) (tp_from_name t) (tp_html_body t) v1) = Inr (c, t') \<and>
    tp_text_body t' = None \<and> tp_tracking_enabled t' = 1"
proof -
  let ?b = "form_template n (tp_subject t) (tp_from_name t) (tp_html_body t)"
  have hb: "hash_of_template ev' ?b = h" using assms(4) by (simp add: hash_of_template_def form_template_def)
  have "ca_template_id c \<in> tp_id ` set (v_templates v1)"
    using found_row [OF assms(3) [unfolded template_of_def]] by (auto intro: rev_image_eqI)
  moreover have "\<not> (\<exists>q\<in>set (v_templates v1). tp_id q \<noteq> ca_template_id c \<and> tp_name q = ti_name ?b)"
    using assms(5) by (auto simp: form_template_def)
  ultimately obtain v2 where u: "update_template ev' (ca_template_id c) ?b v1 = Inr (v2, h)"
    unfolding update_template_def Let_def hb by auto
  note s = update_template_state [OF u assms(3)]
  have c2: "campaign_of v2 i = Some c" using assms(2) s campaign_of_cong by metis
  obtain c0 where "campaign_of v1 i = Some (c0\<lparr>ca_status := (if ca_status c0 = ''scheduled'' then ''scheduled'' else ''tested''),
      ca_test_sent_at := Some (sql_time (ae_now ev)), ca_template_hash_at_test := Some h, ca_updated_at := sql_time (ae_now ev)\<rparr>)"
    using mark_tested_state [OF assms(1)] by blast
  then have "ca_status c \<in> {''tested'', ''scheduled''}" "opt_or (ca_test_sent_at c) [] \<noteq> []" "ca_template_hash_at_test c = Some h"
    using assms(2) by (auto simp: opt_or_def py_or_def)
  moreover have "tp_template_hash (write_template ev' ?b t) = h" using hb by (simp add: write_template_def)
  ultimately have "launch_gate conf i args v2 = Inr (c, write_template ev' ?b t)"
    using s c2 assms(6,7) by (auto simp: launch_gate_def Let_def plain_launch_def truthy_id_def)
  moreover have "ui_template_save ev' (ca_template_id c) n (tp_subject t) (tp_from_name t) (tp_html_body t) v1 = v2"
    using u by (simp add: ui_template_save_def quietly_def)
  ultimately show ?thesis by (auto simp: write_template_def form_template_def)
qed

text \<open>A company saved on its page loses the address of its footer, its support address and its public host.\<close>

theorem saved_company_loses_footer:
  assumes "entity_of i v = Some e" "strip n \<noteq> []" "\<forall>q\<in>set (v_entities v). en_id q \<noteq> i \<longrightarrow> en_name q \<noteq> n"
  shows "\<exists>e'. entity_of i (ui_entities_update ev i n dm fn fe v) = Some e' \<and> en_footer_address e' = None \<and> en_support_email e' = None \<and>
    en_public_host e' = None \<and> en_resend_key_enc e' = en_resend_key_enc e"
proof -
  let ?b = "form_entity n dm fn fe"
  have "i \<in> en_id ` set (v_entities v)"
    using found_row [OF assms(1) [unfolded entity_of_def]] by (auto intro: rev_image_eqI)
  moreover have "\<not> (\<exists>q\<in>set (v_entities v). en_id q \<noteq> i \<and> en_name q = ei_name ?b)" using assms(3) by (auto simp: form_entity_def)
  moreover have "entity_in_ok ?b" using assms(2) by (simp add: entity_in_ok_def form_entity_def)
  ultimately have u: "v_entities (ui_entities_update ev i n dm fn fe v) = update_where (\<lambda>e. en_id e = i) (write_entity ev ?b) (v_entities v)"
    unfolding ui_entities_update_def Let_def update_entity_def by (auto simp: quietly_def)
  have "en_id (write_entity ev ?b q) = en_id q" for q by (simp add: write_entity_def)
  note find_update_where [where key = en_id and f = "write_entity ev ?b" and k = i and rows = "v_entities v", OF this]
  then have "entity_of i (ui_entities_update ev i n dm fn fe v) = Some (write_entity ev ?b e)"
    using assms(1) found_row [OF assms(1) [unfolded entity_of_def]] by (simp add: entity_of_def u)
  then show ?thesis by (auto simp: write_entity_def form_entity_def)
qed

end
