(* ===== verification/Admin_Views.thy ===== *)
theory Admin_Views
  imports Admin_Forms
begin

text \<open>
  What pages of the admin interface (terminal/admin_ui.py) read before they draw: the overview with its metrics, the campaign
  list with the buttons of each row, the recipients page, the drift and suppression lists. HTML is left out.
\<close>

section \<open>Overview\<close>

record metrics_row =
  ms_id :: int
  ms_ts :: string
  ms_contacts :: nat
  ms_campaigns :: nat
  ms_dispatched :: nat
  ms_suppression :: nat

record overview_counts =
  ov_contacts :: nat
  ov_templates :: nat
  ov_campaigns :: nat
  ov_dispatched :: nat
  ov_suppression :: nat
  ov_drift_crit :: nat
  ov_drift_warn :: nat

definition open_drift :: "string \<Rightarrow> vault \<Rightarrow> nat" where
  "open_drift severity v = rowcount (\<lambda>d. dr_severity d = severity \<and> dr_acknowledged_at d = None) (v_drift v)"

definition overview_figures :: "vault \<Rightarrow> overview_counts" where
  "overview_figures v =
     \<lparr>ov_contacts = length (v_contacts v), ov_templates = length (v_templates v), ov_campaigns = length (v_campaigns v),
      ov_dispatched = rowcount (\<lambda>j. dj_status j = ''dispatched'') (v_jobs v), ov_suppression = length (v_suppressions v),
      ov_drift_crit = open_drift ''CRITICAL'' v, ov_drift_warn = open_drift ''WARN'' v\<rparr>"

text \<open>A snapshot is due unless the last one is younger than 300 seconds; a time that does not read, or has a zone, counts as old.\<close>

definition snapshot_due :: "iso_reader \<Rightarrow> rat \<Rightarrow> metrics_row list \<Rightarrow> bool" where
  "snapshot_due rd now ms =
     (case rev (sort_key ms_id ms) of
        [] \<Rightarrow> True
      | m # _ \<Rightarrow> (case rd (ms_ts m) of Some (t, None) \<Rightarrow> \<not> now - t < 300 | _ \<Rightarrow> True))"

text \<open>A session of the database keeps what it wrote only when it was committed.\<close>

definition in_session :: "('db \<Rightarrow> 'db \<times> bool \<times> 'a) \<Rightarrow> 'db \<Rightarrow> 'db \<times> 'a" where
  "in_session body db = (case body db of (db1, committed, x) \<Rightarrow> (if committed then db1 else db, x))"

text \<open>The session of the overview inserts the snapshot and reads the last 48; it ends without \<open>commit\<close>.\<close>

definition overview_session :: "iso_reader \<Rightarrow> int \<Rightarrow> vault \<Rightarrow> metrics_row list \<Rightarrow> metrics_row list \<times> bool \<times> metrics_row list" where
  "overview_session rd now v ms =
     (let f = overview_figures v;
          ms1 = (if snapshot_due rd (of_int now) ms
                 then ms @ [\<lparr>ms_id = next_row_id ms_id ms, ms_ts = sql_time now, ms_contacts = ov_contacts f, ms_campaigns = ov_campaigns f,
                             ms_dispatched = ov_dispatched f, ms_suppression = ov_suppression f\<rparr>]
                 else ms)
      in (ms1, False, rev (take 48 (rev (sort_key ms_id ms1)))))"

definition overview :: "iso_reader \<Rightarrow> int \<Rightarrow> vault \<Rightarrow> metrics_row list \<Rightarrow> metrics_row list \<times> overview_counts \<times> metrics_row list" where
  "overview rd now v ms = (case in_session (overview_session rd now v) ms of (ms1, shown) \<Rightarrow> (ms1, overview_figures v, shown))"

section \<open>Campaigns\<close>

datatype send_button = Launch_button | Relaunch_button int

record campaign_buttons =
  bt_send :: send_button
  bt_schedule :: bool
  bt_pause :: bool
  bt_resume :: bool
  bt_archive :: bool

definition open_batches :: "int \<Rightarrow> vault \<Rightarrow> nat" where
  "open_batches i v = rowcount (\<lambda>b. cb_campaign_id b = i \<and> cb_dispatch_started_at b \<noteq> None) (v_batches v)"

text \<open>The buttons of a row; an archived campaign has no row.\<close>

definition campaign_row :: "vault \<Rightarrow> campaign \<Rightarrow> campaign_buttons option" where
  "campaign_row v c =
     (let st = ca_status c;
          is_sent = (st \<in> {''dispatched'', ''sent'', ''sending'', ''cancelled''} \<or>
                     st \<noteq> ''paused'' \<and> (ca_relaunch_open c \<noteq> 0 \<or> open_batches (ca_id c) v \<noteq> 0))
      in if st = ''archived'' then None
         else Some \<lparr>bt_send = (if is_sent then Relaunch_button (ca_relaunch_seq c) else Launch_button),
                bt_schedule = (st = ''tested'' \<and> \<not> is_sent), bt_pause = (st \<in> {''dispatched'', ''scheduled'', ''tested''}),
                bt_resume = (st = ''paused''), bt_archive = (st \<in> {''dispatched'', ''failed'', ''cancelled''})\<rparr>)"

definition campaigns_view :: "vault \<Rightarrow> (campaign \<times> campaign_buttons) list" where
  "campaigns_view v = List.map_filter (\<lambda>c. map_option (Pair c) (campaign_row v c)) (order_desc ca_created_at (v_campaigns v))"

text \<open>The recipients page: the number of recipients, the tags to choose from, the stages with their templates; a campaign that does not exist has none.\<close>

definition campaign_recipients_view :: "int \<Rightarrow> vault \<Rightarrow> (nat \<times> string list \<times> (stage \<times> string) list) option" where
  "campaign_recipients_view i v =
     (if i \<notin> ca_id ` set (v_campaigns v) then None
      else Some (rowcount (\<lambda>r. cr_campaign_id r = i) (v_recipients v),
                 sort (remdups (concat (map own_tags (filter (\<lambda>c. ct_tags c \<noteq> None) (v_contacts v))))),
                 List.map_filter (\<lambda>s. map_option (\<lambda>t. (s, tp_name t)) (template_of (sg_template_id s) v))
                   (sort_key sg_stage_number (filter (\<lambda>s. sg_campaign_id s = i) (v_stages v)))))"

section \<open>Lists\<close>

text \<open>The drift list: critical entries first, then the newest; the counts are those of the rows shown.\<close>

definition drift_rows :: "vault \<Rightarrow> drift list" where
  "drift_rows v =
     take 200 (let newest = order_desc dr_detected_at (v_drift v)
               in filter (\<lambda>d. dr_severity d = ''CRITICAL'') newest @ filter (\<lambda>d. dr_severity d \<noteq> ''CRITICAL'') newest)"

definition drift_view :: "vault \<Rightarrow> drift list \<times> nat \<times> nat" where
  "drift_view v =
     (let rows = drift_rows v; pending = (\<lambda>sev. rowcount (\<lambda>d. dr_severity d = sev \<and> \<not> truthy (dr_acknowledged_at d)) rows)
      in (rows, pending ''CRITICAL'', pending ''WARN''))"

definition suppression_view :: "admin_env \<Rightarrow> string \<Rightarrow> vault \<Rightarrow> (suppression \<times> string) list" where
  "suppression_view ev reason v =
     map (\<lambda>r. (r, email_behind ev v (sh_email_hash r)))
       (take 500 (order_desc sh_added_at (filter (\<lambda>r. reason = [] \<or> sh_reason r = reason) (v_suppressions v))))"

section \<open>Properties\<close>

text \<open>The page never records a snapshot: whatever the clock and the tables, the metrics are as they were before.\<close>

theorem overview_keeps_no_snapshot: "fst (overview rd now v ms) = ms"
  by (simp add: overview_def in_session_def overview_session_def Let_def)

text \<open>The send button of a row fits what the launch accepts. A campaign whose launch gate passes is offered the Launch button
  unless a Re-launch or a batch of it was interrupted; with an interrupted one it is offered Re-launch, except
  while it is paused, where the Launch button it has is refused. A Re-launch button of the page is not
  turned away as stale as long as the campaign is as the page showed it.\<close>

theorem buttons_fit_the_launch:
  assumes "campaign_of v i = Some c" "campaign_row v c = Some b" "plain_launch args"
  shows "((\<exists>t. launch_gate conf i args v = Inr (c, t)) \<longrightarrow>
      bt_send b = (if ca_relaunch_open c = 0 \<and> open_batches i v = 0 then Launch_button else Relaunch_button (ca_relaunch_seq c))) \<and>
    (bt_send b = Launch_button \<and> (ca_relaunch_open c \<noteq> 0 \<or> open_batches i v \<noteq> 0) \<longrightarrow>
      ca_status c = ''paused'' \<and> (\<exists>e. launch_gate conf i args v = Inl (LaunchError e))) \<and>
    (\<forall>s. bt_send b = Relaunch_button s \<longrightarrow> snd (claim_relaunch i (Some s) v) = Inr ())"
proof (intro conjI impI allI)
  have ci: "ca_id c = i" "c \<in> set (v_campaigns v)" using found_row [OF assms(1) [unfolded campaign_of_def]] by auto
  note row = assms(2) [unfolded campaign_row_def Let_def ci(1)]
  {
    assume "\<exists>t. launch_gate conf i args v = Inr (c, t)"
    then have "ca_status c \<in> {''tested'', ''scheduled''}"
      using assms(1,3) by (auto simp: launch_gate_def Let_def plain_launch_def split: if_splits option.splits)
    then show "bt_send b = (if ca_relaunch_open c = 0 \<and> open_batches i v = 0 then Launch_button else Relaunch_button (ca_relaunch_seq c))"
      using row by (auto split: if_splits)
  next
    assume a: "bt_send b = Launch_button \<and> (ca_relaunch_open c \<noteq> 0 \<or> open_batches i v \<noteq> 0)"
    then show p: "ca_status c = ''paused''" using row by (auto split: if_splits)
    then show "\<exists>e. launch_gate conf i args v = Inl (LaunchError e)"
      using assms(1,3) by (simp add: launch_gate_def Let_def plain_launch_def)
  next
    fix s
    assume "bt_send b = Relaunch_button s"
    then have "s = ca_relaunch_seq c" using row by (auto split: if_splits)
    then have "c \<in> set (filter (claims i (Some s)) (v_campaigns v))" using ci by (simp add: claims_def)
    then have "rowcount (claims i (Some s)) (v_campaigns v) \<noteq> 0" by (auto simp: rowcount_def filter_empty_conv)
    then show "snd (claim_relaunch i (Some s) v) = Inr ()" by (simp add: claim_relaunch_def Let_def)
  }
qed

section \<open>Witnesses\<close>

theorem buttons_fit_the_launch_witness:
  "let c = (demo_campaign 1)\<lparr>ca_status := ''paused'', ca_relaunch_open := 1\<rparr>; v = empty_vault\<lparr>v_campaigns := [c]\<rparr> in
   map_option bt_send (campaign_row v c) = Some Launch_button \<and> (\<exists>e. launch_gate conf 1 (sched_args None None) v = Inl (LaunchError e))"
proof -
  let ?c = "(demo_campaign 1)\<lparr>ca_status := ''paused'', ca_relaunch_open := 1\<rparr>"
  let ?v = "empty_vault\<lparr>v_campaigns := [?c]\<rparr>"
  have c: "campaign_of ?v 1 = Some ?c" by (simp add: campaign_of_def demo_campaign_def)
  obtain b where b: "campaign_row ?v ?c = Some b" "bt_send b = Launch_button" by (simp add: campaign_row_def)
  have "plain_launch (sched_args None None)" by (simp add: plain_launch_def sched_args_def)
  from buttons_fit_the_launch [OF c b(1) this, of conf] b show ?thesis by simp
qed

end
