(* ===== verification/Settings_Pages.thy ===== *)
theory Settings_Pages
  imports Admin_Auth Terminal_Settings Cloud_Settings Launch_Push
begin

text \<open>
  The settings forms of the admin pages (terminal/admin_settings_ui.py): saving one key with its copy to the cloud,
  the password and the secret of the sessions, and what a change of them does to the sign-in of auth.py. The service
  \<open>POST /settings\<close> of the cloud is an argument with a state of its own; \<open>bearer\<close> is the content of the bearer file.
\<close>

section \<open>Saving a key\<close>

definition cross_side_sync :: "string list" where
  "cross_side_sync = [''unsub_secret'', ''erasure_secret'']"

definition brand_keys :: "string list" where
  "brand_keys = [''entity_name'', ''support_email'', ''public_host'', ''email_footer_address'', ''email_from'']"

definition sending_keys :: "string list" where
  "sending_keys =
     [''send_window_start_hour'', ''send_window_hours'', ''send_window_tz'', ''send_sender_count'', ''send_rush_tail_minutes'',
      ''send_batch_size'', ''send_jitter_min_s'', ''send_jitter_max_s'', ''send_rush_jitter_s'']"

definition redirect_after_save :: "string \<Rightarrow> string option \<Rightarrow> string" where
  "redirect_after_save key cloud_status =
     (let suffix = ''?ok='' @ key @ (if truthy cloud_status then ''&cloud='' @ opt_or cloud_status [] else []) in
      if key \<in> set brand_keys \<or> key = ''resend_api_key'' then ''/admin/entities'' @ suffix
      else if key \<in> {''unsub_secret'', ''erasure_secret'', ''unsub_token_ttl_s'', ''erasure_token_ttl_s''} then ''/admin/suppression'' @ suffix
      else if key \<in> {''admin_email'', ''session_ttl_s''} then ''/admin/operators'' @ suffix
      else if key = ''default_k_temp_ttl_s'' then ''/admin'' @ suffix
      else if key \<in> set sending_keys then ''/admin/settings/sending'' @ suffix
      else ''/admin/entities'' @ suffix)"

type_synonym 's settings_poster = "string \<Rightarrow> string \<Rightarrow> string \<Rightarrow> 's \<Rightarrow> 's \<times> post_reply"

definition push_to_cloud :: "'s settings_poster \<Rightarrow> string option \<Rightarrow> string \<Rightarrow> string \<Rightarrow> 's \<Rightarrow> 's \<times> bool \<times> string" where
  "push_to_cloud post bearer key val c =
     (let b = strip (opt_or bearer []) in
      if b = [] then (c, False, ''no cloud bearer'')
      else
        (case post b key val c of
           (c1, Post_http st) \<Rightarrow> if 400 \<le> st then (c1, False, ''cloud rejected: HTTP '' @ dec st) else (c1, True, ''synced to cloud'')
         | (c1, Post_unreachable e) \<Rightarrow> (c1, False, ''network: '' @ e)))"

definition settings_save ::
  "settings_env \<Rightarrow> 's settings_poster \<Rightarrow> string option \<Rightarrow> string \<Rightarrow> string \<Rightarrow> string \<Rightarrow> string \<Rightarrow> t_state \<Rightarrow> 's \<Rightarrow> t_state \<times> 's \<times> (exc + string)" where
  "settings_save ev post bearer now sub key val st c =
     (case t_settings_set ev now key val (''operator:'' @ sub) st of
        (st1, Inl e) \<Rightarrow> (st1, c, Inl e)
      | (st1, Inr u) \<Rightarrow>
          if key \<in> set cross_side_sync then
            (case push_to_cloud post bearer key val c of
               (c1, ok, msg) \<Rightarrow> (st1, c1, Inr (redirect_after_save key (Some (if ok then ''synced'' else ''fail:'' @ msg)))))
          else (st1, c, Inr (redirect_after_save key None)))"

text \<open>A key of the cloud alone: \<open>raise_for_status\<close> refuses every status that is no success.\<close>

definition cloud_save :: "'s settings_poster \<Rightarrow> string option \<Rightarrow> string \<Rightarrow> string \<Rightarrow> 's \<Rightarrow> 's \<times> string option" where
  "cloud_save post bearer key val c =
     (let b = strip (opt_or bearer []) in
      if b = [] then (c, Some ''no_bearer'')
      else
        (case post b key val c of
           (c1, Post_http st) \<Rightarrow> (c1, if 200 \<le> st \<and> st < 300 then None else Some (''HTTP '' @ dec st))
         | (c1, Post_unreachable e) \<Rightarrow> (c1, Some e)))"

definition reveal_secret :: "settings_env \<Rightarrow> string \<Rightarrow> t_state \<Rightarrow> settings_mem \<times> (admin_error + string)" where
  "reveal_secret ev key st =
     (if \<not> t_is_secret key then (snd st, Inl (HttpError 400 (quoted key @ '' is not a secret'')))
      else (case t_settings_get ev (fst st) key None (snd st) of (m, r) \<Rightarrow> (m, Inr (opt_or r ''(empty)''))))"

section \<open>Password and session secret\<close>

datatype password_answer = Password_changed | Passwords_differ | Password_too_short

text \<open>\<open>hashpw\<close> is \<open>bcrypt.hashpw\<close> with a fresh salt, \<open>None\<close> when it raises.\<close>

definition change_password ::
  "settings_env \<Rightarrow> (string \<Rightarrow> string option) \<Rightarrow> string \<Rightarrow> string \<Rightarrow> string \<Rightarrow> string \<Rightarrow> t_state \<Rightarrow> t_state \<times> (exc + password_answer)" where
  "change_password ev hashpw now sub new_password confirm st =
     (if new_password \<noteq> confirm then (st, Inr Passwords_differ)
      else if length new_password < 12 then (st, Inr Password_too_short)
      else
        (case hashpw new_password of
           None \<Rightarrow> (st, Inl (ValueError ''hashpw''))
         | Some h \<Rightarrow>
             (case t_settings_set ev now ''admin_password_hash'' h (''operator:'' @ sub) st of
                (st1, Inl e) \<Rightarrow> (st1, Inl e)
              | (st1, Inr u) \<Rightarrow> (st1, Inr Password_changed))))"

text \<open>\<open>fresh\<close> is \<open>secrets.token_bytes(48)\<close>.\<close>

definition rotate_jwt :: "settings_env \<Rightarrow> bytes \<Rightarrow> string \<Rightarrow> string \<Rightarrow> t_state \<Rightarrow> t_state \<times> (exc + unit)" where
  "rotate_jwt ev fresh now sub st = t_settings_set ev now ''jwt_secret'' (b64encode fresh) (''operator:'' @ sub) st"

text \<open>The settings as the sign-in reads them.\<close>

definition conf_of :: "settings_env \<Rightarrow> t_state \<Rightarrow> string \<Rightarrow> string option" where
  "conf_of ev st key = snd (t_settings_get ev (fst st) key None (snd st))"

section \<open>Properties\<close>

lemma t_secret_row:
  assumes "t_is_secret key" "map_option (\<lambda>r. (st_value r, st_is_secret r)) (setting_row v key) = Some (c, s)"
    and "snd (settings_decrypt ev c m) = Inr p"
  shows "snd (t_settings_get ev v key d m) = Some p"
  using assms by (auto simp: t_settings_get_def split: option.splits prod.splits sum.splits)

text \<open>A setting that was stored is read back, by the process that stored it and by one that starts later.\<close>

lemma t_setting_read_back:
  assumes cr: "aead_ok (ev_crypto ev)" "length (ev_nonce ev) = 12" "length (ev_new_kek ev) = 32" "ev_crypto ev2 = ev_crypto ev"
    and m: "kek_ok m" and w: "t_settings_set ev now key x u (v, m) = ((v', m'), Inr ())"
  shows "conf_of ev2 (v', m') key = Some x \<and> conf_of ev2 (v', restart m') key = Some x"
proof (cases "t_is_secret key")
  case True
  from w True obtain c where e: "settings_encrypt ev x m = (m', Inr c)" and v': "v' = upsert_row now key c 1 u v"
    by (auto simp: t_settings_set_def split: prod.splits sum.splits)
  obtain m1 c1 where "settings_encrypt ev x m = (m1, Inr c1)" "kek_ok m1" using settings_encrypt_ok [OF m cr(3)] .
  with e have k: "kek_ok m'" by simp
  have "snd (settings_decrypt ev2 c m2) = Inr x" if "m2 = m' \<or> m2 = restart m'" for m2
    using settings_decrypt_encrypt [OF cr(1,2) m cr(3) e cr(4), of m2] that k kek_ok_restart [OF k] by (auto simp: restart_def)
  then show ?thesis
    using t_secret_row [OF True, of v' c 1 ev2] setting_row_upsert [of now key c 1 u v key] by (simp add: conf_of_def v')
next
  case False
  with w have v': "v' = upsert_row now key x 0 u v" by (auto simp: t_settings_set_def)
  have "map_option (\<lambda>r. (st_value r, st_is_secret r)) (setting_row v' key) = Some (x, 0)"
    using setting_row_upsert [of now key x 0 u v key] by (simp add: v')
  then show ?thesis using t_get_plain [OF False] by (auto simp: conf_of_def)
qed

text \<open>C37: Once the secret of the sessions was rotated, every session signed before is turned away, by this process and by a
  new one, and a session opened afterwards is accepted. The hypothesis on the signatures says that the two secrets sign
  the old session differently.\<close>

theorem rotation_ends_sessions:
  assumes cr: "aead_ok (ev_crypto ev)" "length (ev_nonce ev) = 12" "length (ev_new_kek ev) = 32" "ev_crypto ev2 = ev_crypto ev"
    and m: "kek_ok m" and r: "rotate_jwt ev fresh now sub (v, m) = ((v', m'), Inr ())" and f: "fresh \<noteq> []"
    and st: "st = (v', m') \<or> st = (v', restart m')" and a: "au_conf aev = conf_of ev2 st"
    and mac: "let b = b64u_encode (compact_dumps (au_lib aev) p) in hmac_sha256 (au_lib aev) (b64encode fresh) b \<noteq> hmac_sha256 (au_lib aev) old b"
  shows "require_session aev t (Some (sign_payload (au_lib aev) old p)) = Inl auth_required \<and>
    (text_loads (au_lib aev) (compact_dumps (au_lib aev) (session_payload s ro i e)) = Some (session_payload s ro i e) \<and> t \<le> e \<longrightarrow>
      require_session aev t (Some (sign_payload (au_lib aev) (jwt_secret aev) (session_payload s ro i e))) = Inr (session_payload s ro i e))"
proof -
  have "au_conf aev ''jwt_secret'' = Some (b64encode fresh)"
    using t_setting_read_back [OF cr m r [unfolded rotate_jwt_def]] st a by auto
  then have j: "jwt_secret aev = b64encode fresh" "b64encode fresh \<noteq> []"
    using f by (cases fresh rule: b64encode.cases; auto simp: jwt_secret_def conf_or_def opt_or_def py_or_def)+
  have tok: "sign_payload (au_lib aev) k q \<noteq> []" for k q by (simp add: sign_payload_def Let_def)
  have "auth_verify aev t (sign_payload (au_lib aev) old p) = Inr None"
    using j mac not_sym [OF mac [unfolded Let_def]] by (simp add: auth_verify_def sign_payload_def Let_def)
  moreover have "require_session aev t (Some (sign_payload (au_lib aev) (jwt_secret aev) (session_payload s ro i e))) = Inr (session_payload s ro i e)"
    if "text_loads (au_lib aev) (compact_dumps (au_lib aev) (session_payload s ro i e)) = Some (session_payload s ro i e)" "t \<le> e"
    using auth_verify_signed [of aev "session_payload s ro i e" t] that j tok
    by (simp add: require_session_def truthy_def opt_or_def py_or_def session_alive_own) (simp add: session_payload_def)
  ultimately show ?thesis using tok by (simp add: require_session_def truthy_def opt_or_def py_or_def)
qed

text \<open>The password page changes the password of the administrator of the settings only: an operator of the table signs
  in with the old password afterwards, whatever the new settings are.\<close>

theorem password_page_keeps_operators:
  assumes "change_password ev hashpw now sub new confirm (v, m) = ((v', m'), Inr Password_changed)"
    and "check_operator aev email old v = Some row" "au_checkpw aev' = au_checkpw aev" "jwt_secret aev' \<noteq> []"
  shows "snd (login aev' t email old v') = open_session aev' t (op_email row) (op_role row)"
proof -
  have "v_operators v' = v_operators v"
    using assms(1) by (auto simp: change_password_def t_settings_set_def upsert_row_def split: if_splits option.splits prod.splits sum.splits)
  then have "check_operator aev' email old v' = Some row" using assms(2) unfolding check_operator_def assms(3) by simp
  then show ?thesis using assms(4) by (simp add: login_def)
qed

text \<open>An operator who is deactivated still signs in, as an administrator, when his address and password are those of the
  administrator of the settings.\<close>

theorem deactivated_admin_signs_in:
  assumes "find (\<lambda>q. op_email q = lower (strip email)) (v_operators v) = Some row" "op_active row = 0"
    and "legacy_admin aev email password" "jwt_secret aev \<noteq> []"
  shows "login aev t email password v = (v, open_session aev t email ''admin'')"
  using assms by (simp add: login_def check_operator_def)


section \<open>Witnesses\<close>

definition rotating_auth :: "t_state \<Rightarrow> auth_env" where
  "rotating_auth st =
     \<lparr>au_lib = (demo_lib (session_payload ''a'' ''admin'' 5 15))\<lparr>hmac_sha256 := (\<lambda>k b. k @ b)\<rparr>, au_conf = conf_of demo_settings_env st,
      au_checkpw = (\<lambda>p h. Some (p = h))\<rparr>"

theorem rotation_ends_sessions_witness:
  "\<exists>v' m'. rotate_jwt demo_settings_env ''new'' ''t'' ''me'' (empty_vault, snd (no_settings None)) = ((v', m'), Inr ()) \<and>
     (let aev = rotating_auth (v', restart m'); pl = session_payload ''a'' ''admin'' 5 15 in
      require_session aev 6 (Some (sign_payload (au_lib aev) ''old'' pl)) = Inl auth_required \<and>
      require_session aev 6 (Some (sign_payload (au_lib aev) (jwt_secret aev) pl)) = Inr pl)"
proof -
  obtain m' c where e: "settings_encrypt demo_settings_env (b64encode ''new'') (snd (no_settings None)) = (m', Inr c)"
    using settings_encrypt_ok [OF demo_kek_ok demo_env_kek] by metis
  define v' where "v' = upsert_row ''t'' ''jwt_secret'' c 1 ''operator:me'' empty_vault"
  have r: "rotate_jwt demo_settings_env ''new'' ''t'' ''me'' (empty_vault, snd (no_settings None)) = ((v', m'), Inr ())"
    using e by (simp add: rotate_jwt_def t_settings_set_def t_is_secret_def t_secret_keys_def v'_def)
  let ?a = "rotating_auth (v', restart m')"
  have mac: "let b = b64u_encode (compact_dumps (au_lib ?a) (session_payload ''a'' ''admin'' 5 15))
      in hmac_sha256 (au_lib ?a) (b64encode ''new'') b \<noteq> hmac_sha256 (au_lib ?a) ''old'' b"
  proof -
    have "b64encode ''new'' \<noteq> ''old''" by code_simp
    then show ?thesis by (simp add: rotating_auth_def)
  qed
  have "text_loads (au_lib ?a) (compact_dumps (au_lib ?a) (session_payload ''a'' ''admin'' 5 15)) = Some (session_payload ''a'' ''admin'' 5 15)"
    by (simp add: rotating_auth_def demo_lib_def)
  then show ?thesis
    using r rotation_ends_sessions [OF _ _ demo_env_kek refl demo_kek_ok r _ disjI2 [OF refl] _ mac, of 6 "''a''" "''admin''" 5 15]
    by (simp add: rotating_auth_def demo_settings_env_def plain_crypto_ok)
qed

theorem password_page_keeps_operators_witness:
  "\<exists>v' m'. change_password demo_settings_env Some ''t'' ''me'' ''correct horse'' ''correct horse'' (empty_vault\<lparr>v_operators := [demo_operator]\<rparr>, snd (no_settings None))
       = ((v', m'), Inr Password_changed) \<and>
     snd (login demo_auth 5 ''a@b'' ''pw'' v') = open_session demo_auth 5 ''a@b'' ''operator''"
proof -
  let ?v = "empty_vault\<lparr>v_operators := [demo_operator]\<rparr>"
  obtain m' c where e: "settings_encrypt demo_settings_env ''correct horse'' (snd (no_settings None)) = (m', Inr c)"
    using settings_encrypt_ok [OF demo_kek_ok demo_env_kek] by metis
  then obtain v' where c: "change_password demo_settings_env Some ''t'' ''me'' ''correct horse'' ''correct horse'' (?v, snd (no_settings None))
       = ((v', m'), Inr Password_changed)"
    by (simp add: change_password_def t_settings_set_def t_is_secret_def t_secret_keys_def)
  have "lower (strip ''a@b'') = ''a@b''" by code_simp
  then have k: "check_operator demo_auth ''a@b'' ''pw'' ?v = Some demo_operator" by (simp add: check_operator_def demo_operator_def demo_auth_def)
  have "jwt_secret demo_auth \<noteq> []" by (simp add: jwt_secret_def conf_or_def opt_or_def py_or_def demo_auth_def)
  from password_page_keeps_operators [OF c k refl this, of 5] c show ?thesis by (auto simp: demo_operator_def)
qed

definition intruding_auth :: "t_state \<Rightarrow> auth_env" where
  "intruding_auth st =
     \<lparr>au_lib = demo_lib JNull, au_conf = conf_of (demo_settings_env\<lparr>ev_environ := [(''JWT_SECRET'', ''s'')]\<rparr>) st,
      au_checkpw = (\<lambda>p h. Some (p = h))\<rparr>"


end
