(* ===== verification/Terminal_Main.thy ===== *)
theory Terminal_Main
  imports Settings_Pages Launch_Campaign Terminal_Sync
begin

text \<open>
  The application of the terminal (terminal/main.py): its start with the move of the administrator of the settings to the
  operators table, the launch endpoint with its answers, and the figures of the health and status endpoints. Starting
  and stopping the loops of sync_client.py is not modelled; the loops are in Terminal_Sync and Terminal_Scheduler.
\<close>

section \<open>Start\<close>

text \<open>\<open>seq\<close> is the id the operators table gave last. The administrator is moved to a table without operators.\<close>

definition migrate_admin_to_operators :: "settings_env \<Rightarrow> int \<Rightarrow> int \<Rightarrow> t_state \<Rightarrow> t_state" where
  "migrate_admin_to_operators ev seq now st =
     (case st of (v, m) \<Rightarrow>
      if v_operators v \<noteq> [] then (v, m)
      else
        (case t_settings_get ev v ''admin_email'' (Some []) m of
           (m1, email) \<Rightarrow>
         (case t_settings_get ev v ''admin_password_hash'' (Some []) m1 of
           (m2, hashed) \<Rightarrow>
             if truthy email \<and> truthy hashed then
               (v\<lparr>v_operators := insert_or_ignore op_email
                   \<lparr>op_id = max 0 seq + 1, op_email = lower (strip (opt_or email [])), op_password_hash = opt_or hashed [], op_role = ''admin'',
                    op_created_at = sql_time now, op_last_login_at = None, op_active = 1\<rparr> (v_operators v)\<rparr>, m2)
             else (v, m2))))"

definition on_startup ::
  "settings_env \<Rightarrow> (string \<Rightarrow> bytes) \<Rightarrow> int \<Rightarrow> string \<Rightarrow> int \<Rightarrow> t_state \<Rightarrow> t_state \<times> (exc + (string \<times> string) list)" where
  "on_startup ev nonce_of seq actor now st =
     (case t_migrate_from_env ev nonce_of (sql_time now) (migrate_admin_to_operators ev seq now st) of
        (st1, Inl e) \<Rightarrow> (st1, Inl e)
      | ((v, m), Inr migrated) \<Rightarrow>
          ((audit (ev_crypto ev) (sql_time now) (''system:terminal-'' @ actor) ''terminal.started'' None (JObj []) v, m), Inr migrated))"

section \<open>Launch\<close>

text \<open>The endpoint takes the name of the operator from the query. Database errors are not among the errors of the launch
  model, so their answers (409 and 500) are left out.\<close>

definition launch_answer :: "launch_error + 'a \<Rightarrow> admin_error + 'a" where
  "launch_answer r =
     (case r of
        Inr x \<Rightarrow> Inr x
      | Inl (OtherError e) \<Rightarrow> Inl (HttpError 500 (''launch failed: '' @ e))
      | Inl (LaunchError e) \<Rightarrow> Inl (HttpError 400 e)
      | Inl (RelaunchConflict e) \<Rightarrow> Inl (HttpError 400 e)
      | Inl (LaunchRetryable e) \<Rightarrow> Inl (HttpError 400 e)
      | Inl (CampaignClosed e) \<Rightarrow> Inl (HttpError 400 e)
      | Inl (LaunchPushError e) \<Rightarrow> Inl (HttpError 400 e))"

definition admin_campaign_launch ::
  "'s launch_env \<Rightarrow> int \<Rightarrow> string \<Rightarrow> 's launch_state \<Rightarrow> 's launch_state \<times> (admin_error + launch_summary)" where
  "admin_campaign_launch ev i actor st =
     (case launch_campaign ev i \<lparr>la_actor = actor, la_template = None, la_stage = None, la_relaunch = False, la_seq = None\<rparr> st of
        (st1, r) \<Rightarrow> (st1, launch_answer r))"

section \<open>Health and status\<close>

definition inbox_pending :: "vault \<Rightarrow> nat" where
  "inbox_pending v = rowcount (\<lambda>r. ib_materialised_at r = None) (v_inbox v)"

definition outbox_pending :: "vault \<Rightarrow> nat" where
  "outbox_pending v = rowcount (\<lambda>r. ob_pushed_at r = None) (v_outbox v)"

text \<open>Contacts, campaigns, suppressions, waiting inbox and outbox rows and the cursor; a cursor that is no number raises.\<close>

definition healthz :: "vault \<Rightarrow> (nat \<times> nat \<times> nat \<times> nat \<times> nat \<times> int) option" where
  "healthz v =
     map_option (\<lambda>cursor. (length (v_contacts v), length (v_campaigns v), length (v_suppressions v), inbox_pending v, outbox_pending v, cursor))
       (get_cursor v)"

definition sync_status :: "vault \<Rightarrow> (int \<times> nat \<times> nat \<times> (int \<times> string \<times> string \<times> int \<times> string \<times> string) list) option" where
  "sync_status v =
     map_option (\<lambda>cursor. (cursor, inbox_pending v, outbox_pending v,
         map (\<lambda>r. (ib_event_id r, ib_table_name r, ib_row_id r, ib_revision r, ib_actor r, ib_received_at r))
           (take 20 (rev (sort_key ib_received_at (rev (v_inbox v)))))))
       (get_cursor v)"

record system_report =
  sy_handshake_done :: bool
  sy_bootstrap_ok :: bool
  sy_k_temp_age_s :: "int option"
  sy_k_temp_ttl_s :: int
  sy_k_temp_expiring :: bool
  sy_entity_count :: nat
  sy_entity_with_key :: nat
  sy_template_count :: nat
  sy_contact_count :: nat
  sy_webhook_24h :: nat
  sy_inbox_pending :: nat
  sy_unsub_secret_set :: bool
  sy_erasure_secret_set :: bool
  sy_using_dev_hmac :: bool

text \<open>\<open>key_age\<close> is the age of the key file in seconds, \<open>conf\<close> the settings as the status reads them; \<open>ttl * 0.8\<close> is exact.\<close>

definition system_status ::
  "(string \<Rightarrow> string option) \<Rightarrow> string \<Rightarrow> string option \<Rightarrow> int option \<Rightarrow> int \<Rightarrow> vault \<Rightarrow> system_report" where
  "system_status conf bootstrap bearer key_age now v =
     (let ttl = conf_int conf ''default_k_temp_ttl_s'' 86400; unsub = truthy (conf ''unsub_secret''); erasure = truthy (conf ''erasure_secret'')
      in \<lparr>sy_handshake_done = (strip (opt_or bearer []) \<noteq> []),
          sy_bootstrap_ok = (bootstrap \<noteq> [] \<and> bootstrap \<notin> {''changeme'', ''your-token-here'', ''CHANGEME''}),
          sy_k_temp_age_s = key_age, sy_k_temp_ttl_s = ttl,
          sy_k_temp_expiring = (case key_age of None \<Rightarrow> False | Some a \<Rightarrow> (of_int ttl * (4 / 5) :: rat) < of_int a),
          sy_entity_count = length (v_entities v), sy_entity_with_key = rowcount (\<lambda>e. en_resend_key_enc e \<noteq> None) (v_entities v),
          sy_template_count = length (v_templates v), sy_contact_count = length (v_contacts v),
          sy_webhook_24h = rowcount (\<lambda>r. ib_table_name r = ''webhook_event'' \<and> sql_time (now - 86400) \<le> ib_received_at r) (v_inbox v),
          sy_inbox_pending = rowcount (\<lambda>r. ib_materialised_at r = None \<and> ib_table_name r \<in> {''webhook_event'', ''suppression''}) (v_inbox v),
          sy_unsub_secret_set = unsub, sy_erasure_secret_set = erasure, sy_using_dev_hmac = (\<not> unsub \<or> \<not> erasure)\<rparr>)"

definition admin_audit_log :: "int \<Rightarrow> vault \<Rightarrow> audit_event list" where
  "admin_audit_log limit v =
     (let rows = rev (sort_key au_occurred_at (rev (v_audit v))) in if limit < 0 then rows else take (nat limit) rows)"

section \<open>Properties\<close>

lemma migrate_when_empty:
  assumes "v_operators v = []" "snd (t_settings_get ev v ''admin_email'' (Some []) m) = Some e" "e \<noteq> []"
    and "snd (t_settings_get ev v ''admin_password_hash'' (Some []) (fst (t_settings_get ev v ''admin_email'' (Some []) m))) = Some h" "h \<noteq> []"
  shows "v_operators (fst (migrate_admin_to_operators ev seq now (v, m))) =
    [\<lparr>op_id = max 0 seq + 1, op_email = lower (strip e), op_password_hash = h, op_role = ''admin'', op_created_at = sql_time now,
      op_last_login_at = None, op_active = 1\<rparr>]"
  using assms by (auto simp: migrate_admin_to_operators_def truthy_def opt_or_def py_or_def insert_or_ignore_def split: prod.splits)

text \<open>The administrator of the settings signs in after the start as an operator of the table, with the address as it is
  stored there; a second start changes no operator.\<close>

theorem start_keeps_admin:
  assumes "v_operators v = []" "snd (t_settings_get ev v ''admin_email'' (Some []) m) = Some e"
    and "snd (t_settings_get ev v ''admin_password_hash'' (Some []) (fst (t_settings_get ev v ''admin_email'' (Some []) m))) = Some h"
    and "au_conf aev ''admin_email'' = Some e" "au_conf aev ''admin_password_hash'' = Some h"
    and "legacy_admin aev email password" "jwt_secret aev \<noteq> []"
    and "migrate_admin_to_operators ev seq now (v, m) = (v', m')"
  shows "snd (login aev t email password v') = open_session aev t (lower (strip email)) ''admin'' \<and>
    fst (migrate_admin_to_operators ev seq2 now2 (v', m2)) = v'"
proof -
  have l: "e \<noteq> []" "h \<noteq> []" "lower (strip email) = lower (strip e)" "au_checkpw aev password h = Some True"
    using assms(4,5,6) by (auto simp: legacy_admin_def Let_def conf_or_def opt_or_def py_or_def split: if_splits)
  note ops = migrate_when_empty [OF assms(1,2) l(1) assms(3) l(2), of seq now]
  then have "v_operators v' \<noteq> []" by (simp add: assms(8))
  then have "fst (migrate_admin_to_operators ev seq2 now2 (v', m2)) = v'" by (simp add: migrate_admin_to_operators_def)
  moreover have "check_operator aev email password v' = Some \<lparr>op_id = max 0 seq + 1, op_email = lower (strip e), op_password_hash = h,
      op_role = ''admin'', op_created_at = sql_time now, op_last_login_at = None, op_active = 1\<rparr>"
    using ops l by (simp add: check_operator_def assms(8))
  ultimately show ?thesis using l(3) assms(7) by (simp add: login_def)
qed

end
