(* ===== verification/Legacy_Sync.thy ===== *)
theory Legacy_Sync
  imports Terminal_Outcomes
begin

text \<open>
  The synchronisation with the former front edge (terminal/legacy_wg_sync.py): the ingest of its caches of events,
  unsubscribes and erasures, the comparison of its queue with the dispatched jobs, and one whole pass. The front edge is
  an argument: what its two reads answer, and what it does with an acknowledgement.
\<close>

section \<open>State\<close>

record event_row =
  ev_id :: int
  ev_event_type :: string
  ev_message_id :: "string option"
  ev_recipient :: "string option"
  ev_payload_json :: string
  ev_received_at :: string
  ev_synced_from_edge_at :: "string option"

record edge_event =
  ee_id :: int
  ee_event_type :: string
  ee_message_id :: "string option"
  ee_recipient :: "string option"
  ee_payload_json :: string

record edge_request =
  er_id :: int
  er_email_hash :: string
  er_source_token :: string

record edge_job =
  ej_job_id :: string
  ej_status :: string
  ej_content_hash :: string

text \<open>The vault with its table of events.\<close>

record legacy_state =
  lg_vault :: vault
  lg_events :: "event_row list"

section \<open>Ingest\<close>

definition event_status_map :: "(string \<times> string) list" where
  "event_status_map =
     [(''email.sent'', ''sent''), (''email.delivered'', ''delivered''), (''email.opened'', ''opened''),
      (''email.clicked'', ''clicked''), (''email.bounced'', ''bounced''), (''email.complained'', ''complained'')]"

text \<open>The column of a status.\<close>

definition stamp_status :: "string \<Rightarrow> string \<Rightarrow> recipient \<Rightarrow> recipient" where
  "stamp_status st now r =
     (let r = r\<lparr>cr_status := st\<rparr> in
      if st = ''sent'' then r\<lparr>cr_sent_at := Some now\<rparr>
      else if st = ''delivered'' then r\<lparr>cr_delivered_at := Some now\<rparr>
      else if st = ''opened'' then r\<lparr>cr_opened_at := Some now\<rparr>
      else if st = ''clicked'' then r\<lparr>cr_clicked_at := Some now\<rparr>
      else if st = ''bounced'' then r\<lparr>cr_bounced_at := Some now\<rparr>
      else r\<lparr>cr_complained_at := Some now\<rparr>)"

definition apply_event_to_recipient :: "int \<Rightarrow> string \<Rightarrow> string option \<Rightarrow> vault \<Rightarrow> vault" where
  "apply_event_to_recipient now event_type message_id v =
     (case map_of event_status_map event_type of
        Some st \<Rightarrow>
          if truthy message_id then
            v\<lparr>v_recipients := update_where (\<lambda>r. cr_message_id r = message_id \<and> cr_status r \<notin> {''bounced'', ''complained'', ''failed''})
                (stamp_status st (sql_time now)) (v_recipients v)\<rparr>
          else v
      | None \<Rightarrow> v)"

definition ingest_event :: "int \<Rightarrow> edge_event \<Rightarrow> legacy_state \<Rightarrow> legacy_state" where
  "ingest_event now e s =
     s\<lparr>lg_events := lg_events s @ [\<lparr>ev_id = next_row_id ev_id (lg_events s), ev_event_type = ee_event_type e, ev_message_id = ee_message_id e,
          ev_recipient = ee_recipient e, ev_payload_json = ee_payload_json e, ev_received_at = sql_time now,
          ev_synced_from_edge_at = Some (sql_time now)\<rparr>],
       lg_vault := apply_event_to_recipient now (ee_event_type e) (ee_message_id e) (lg_vault s)\<rparr>"

definition ingest_events :: "int \<Rightarrow> edge_event list \<Rightarrow> legacy_state \<Rightarrow> legacy_state \<times> nat" where
  "ingest_events now es s = (fold (ingest_event now) es s, length es)"

definition ingest_unsub :: "int \<Rightarrow> edge_request \<Rightarrow> vault \<Rightarrow> vault" where
  "ingest_unsub now u v =
     v\<lparr>v_suppressions := insert_or_ignore sh_email_hash
         \<lparr>sh_email_hash = er_email_hash u, sh_reason = ''unsubscribe'', sh_added_at = sql_time now, sh_source = Some (er_source_token u),
          sh_scope = ''all''\<rparr> (v_suppressions v)\<rparr>"

definition ingest_unsubs :: "int \<Rightarrow> edge_request list \<Rightarrow> legacy_state \<Rightarrow> legacy_state \<times> nat" where
  "ingest_unsubs now us s = (s\<lparr>lg_vault := fold (ingest_unsub now) us (lg_vault s)\<rparr>, length us)"

text \<open>Two sessions on the database file: what is committed, which session holds the write lock, and what that session has
  written. A session takes the lock with its first write and keeps it until it commits or is closed; a write of
  another session waits in vain and raises.\<close>

record db_file =
  df_committed :: vault
  df_writer :: "nat option"
  df_written :: vault

definition db_write :: "nat \<Rightarrow> (vault \<Rightarrow> vault) \<Rightarrow> db_file \<Rightarrow> db_file \<times> (exc + unit)" where
  "db_write sid f d =
     (case df_writer d of
        None \<Rightarrow> (d\<lparr>df_writer := Some sid, df_written := f (df_committed d)\<rparr>, Inr ())
      | Some w \<Rightarrow>
          if w = sid then (d\<lparr>df_written := f (df_written d)\<rparr>, Inr ())
          else (d, Inl (RuntimeError ''database is locked'')))"

definition db_commit :: "nat \<Rightarrow> db_file \<Rightarrow> db_file" where
  "db_commit sid d = (if df_writer d = Some sid then d\<lparr>df_committed := df_written d, df_writer := None\<rparr> else d)"

definition db_close :: "nat \<Rightarrow> db_file \<Rightarrow> db_file" where
  "db_close sid d = (if df_writer d = Some sid then d\<lparr>df_writer := None\<rparr> else d)"

text \<open>\<open>db.audit\<close> opens a session of its own (1), writes, commits and closes it.\<close>

definition audit_in_session :: "(vault \<Rightarrow> vault) \<Rightarrow> db_file \<Rightarrow> db_file \<times> (exc + unit)" where
  "audit_in_session f d =
     (case db_write 1 f d of
        (d1, Inl e) \<Rightarrow> (db_close 1 d1, Inl e)
      | (d1, Inr u) \<Rightarrow> (db_close 1 (db_commit 1 d1), Inr ()))"

text \<open>The loop of the session (0) over the erasures, with the ids to acknowledge.\<close>

fun ingest_each :: "crypto \<Rightarrow> int \<Rightarrow> edge_request list \<Rightarrow> db_file \<Rightarrow> int list \<Rightarrow> db_file \<times> (exc + int list)" where
  "ingest_each cr now [] d ack_ids = (d, Inr ack_ids)"
| "ingest_each cr now (e # es) d ack_ids =
     (case db_write 0 (\<lambda>v. v\<lparr>v_suppressions := insert_or_ignore sh_email_hash
             \<lparr>sh_email_hash = er_email_hash e, sh_reason = ''erasure_request'', sh_added_at = sql_time now, sh_source = Some (er_source_token e),
              sh_scope = ''all''\<rparr> (v_suppressions v)\<rparr>) d of
        (d1, Inl x) \<Rightarrow> (d1, Inl x)
      | (d1, Inr u) \<Rightarrow>
          (case audit_in_session (audit cr (sql_time now) ''system:front-edge-sync'' ''erasure.requested'' (Some (''hash:'' @ er_email_hash e))
                   (JObj [(''source'', JStr (er_source_token e))])) d1 of
             (d2, Inl x) \<Rightarrow> (d2, Inl x)
           | (d2, Inr u) \<Rightarrow> ingest_each cr now es d2 (ack_ids @ [er_id e])))"

definition ingest_erasures :: "crypto \<Rightarrow> int \<Rightarrow> edge_request list \<Rightarrow> vault \<Rightarrow> vault \<times> (exc + nat \<times> int list)" where
  "ingest_erasures cr now es v =
     (if es = [] then (v, Inr (0, []))
      else
        (case ingest_each cr now es \<lparr>df_committed = v, df_writer = None, df_written = v\<rparr> [] of
           (d, Inl e) \<Rightarrow> (df_committed (db_close 0 d), Inl e)
         | (d, Inr ack_ids) \<Rightarrow> (df_committed (db_close 0 (db_commit 0 d)), Inr (length es, ack_ids))))"

text \<open>The insert holds the lock that the audit row of the same erasure needs: nothing of the loop is committed.\<close>

lemma ingest_erasures_locked:
  "ingest_erasures cr now es v = (v, if es = [] then Inr (0, []) else Inl (RuntimeError ''database is locked''))"
  by (cases es) (simp_all add: ingest_erasures_def db_write_def audit_in_session_def db_close_def)

section \<open>Drift\<close>

text \<open>Dictionaries by job id: a repeated id keeps its place and takes the later row.\<close>

definition edge_by_id :: "edge_job list \<Rightarrow> (string \<times> edge_job) list" where
  "edge_by_id q = fold (\<lambda>j. AList.update (ej_job_id j) j) q []"

definition open_jobs :: "vault \<Rightarrow> (string \<times> job) list" where
  "open_jobs v = map (\<lambda>j. (dj_job_id j, j)) (filter (\<lambda>j. dj_status j \<notin> {''completed'', ''cancelled'', ''failed''}) (v_jobs v))"

type_synonym drift_entry = "string \<times> string \<times> string \<times> json"

definition detect_drift :: "edge_job list \<Rightarrow> vault \<Rightarrow> drift_entry list" where
  "detect_drift q v =
     (let E = edge_by_id q; V = open_jobs v in
      concat (map (\<lambda>(i, e). if map_of V i = None then [(''missing_on_vault'', ''CRITICAL'', i,
                 JObj [(''edge_status'', JStr (ej_status e)), (''edge_content_hash'', JStr (ej_content_hash e))])] else []) E) @
      concat (map (\<lambda>(i, j). if map_of E i = None then [(''missing_on_edge'', ''WARN'', i, JObj [(''vault_status'', JStr (dj_status j))])] else []) V) @
      concat (map (\<lambda>(i, j). case map_of E i of
                 Some e \<Rightarrow> if ej_content_hash e \<noteq> dj_content_hash j then [(''content_mismatch'', ''CRITICAL'', i,
                   JObj [(''vault_hash'', JStr (dj_content_hash j)), (''edge_hash'', JStr (ej_content_hash e))])] else []
               | None \<Rightarrow> []) V) @
      concat (map (\<lambda>(i, j). case map_of E i of
                 Some e \<Rightarrow> if ej_status e \<in> {''failed'', ''suppressed''} \<and> dj_status j = ''dispatched'' then [(''status_mismatch'', ''WARN'', i,
                   JObj [(''edge'', JStr (ej_status e)), (''vault'', JStr (dj_status j))])] else []
               | None \<Rightarrow> []) V))"

definition persist_one :: "crypto \<Rightarrow> int \<Rightarrow> drift_entry \<Rightarrow> vault \<Rightarrow> vault" where
  "persist_one cr now d v =
     (case d of (category, severity, job_id, details) \<Rightarrow>
        v\<lparr>v_drift := v_drift v @ [\<lparr>dr_id = next_row_id dr_id (v_drift v), dr_detected_at = sql_time now, dr_category = category,
           dr_severity = severity, dr_job_id = Some job_id, dr_details_json = json_dumps cr details, dr_acknowledged_at = None,
           dr_acknowledged_by = None\<rparr>]\<rparr>)"

definition persist_drift :: "crypto \<Rightarrow> int \<Rightarrow> drift_entry list \<Rightarrow> legacy_state \<Rightarrow> legacy_state \<times> nat" where
  "persist_drift cr now ds s = (s\<lparr>lg_vault := fold (persist_one cr now) ds (lg_vault s)\<rparr>, length ds)"

section \<open>One pass\<close>

text \<open>The answers of the front edge: its caches (\<open>None\<close> when the read fails), its queue, and the acknowledgement of the
  last event and the erasures, whose own failure is only logged.\<close>

record 's front_edge =
  fe_cache :: "'s \<Rightarrow> (edge_event list \<times> edge_request list \<times> edge_request list) option"
  fe_queue :: "'s \<Rightarrow> edge_job list option"
  fe_ack :: "int \<Rightarrow> int list \<Rightarrow> 's \<Rightarrow> 's"

record sync_summary =
  su_events :: nat
  su_unsubs :: nat
  su_erasures :: nat
  su_drift :: nat
  su_drift_critical :: nat

definition sync_summary_json :: "sync_summary \<Rightarrow> json" where
  "sync_summary_json u =
     JObj [(''events'', JInt (int (su_events u))), (''unsubs'', JInt (int (su_unsubs u))), (''erasures'', JInt (int (su_erasures u))),
           (''drift'', JInt (int (su_drift u))), (''drift_critical'', JInt (int (su_drift_critical u)))]"

definition run_sync :: "'s front_edge \<Rightarrow> crypto \<Rightarrow> int \<Rightarrow> legacy_state \<times> 's \<Rightarrow> (legacy_state \<times> 's) \<times> (exc + sync_summary option)" where
  "run_sync fe cr now st =
     (case st of (s, edge) \<Rightarrow>
      (case fe_cache fe edge of
         None \<Rightarrow> ((s, edge), Inr None)
       | Some (evs, unsubs, erasures) \<Rightarrow>
           (case ingest_events now evs s of (s1, n_events) \<Rightarrow>
            case ingest_unsubs now unsubs s1 of (s2, n_unsubs) \<Rightarrow>
            case ingest_erasures cr now erasures (lg_vault s2) of
              (v3, Inl e) \<Rightarrow> ((s2\<lparr>lg_vault := v3\<rparr>, edge), Inl e)
            | (v3, Inr (n_erasures, ack_ids)) \<Rightarrow>
                (let s2 = s2\<lparr>lg_vault := v3\<rparr>; edge1 = fe_ack fe (fold max (map ee_id evs) (if evs = [] then 0 else ee_id (hd evs))) ack_ids edge;
                     drift = detect_drift (case fe_queue fe edge1 of None \<Rightarrow> [] | Some q \<Rightarrow> q) (lg_vault s2)
                 in case persist_drift cr now drift s2 of (s3, n_drift) \<Rightarrow>
                   let u = \<lparr>su_events = n_events, su_unsubs = n_unsubs, su_erasures = n_erasures, su_drift = n_drift,
                         su_drift_critical = length (filter (\<lambda>d. fst (snd d) = ''CRITICAL'') drift)\<rparr>
                   in ((s3\<lparr>lg_vault := audit cr (sql_time now) ''system:vault-sync'' ''sync.completed'' None (sync_summary_json u) (lg_vault s3)\<rparr>, edge1),
                       Inr (Some u))))))"

section \<open>Lemmas\<close>

lemma distinct_edge_by_id: "distinct (map fst (edge_by_id q))"
proof -
  have "distinct (map fst al) \<Longrightarrow> distinct (map fst (fold (\<lambda>j. AList.update (ej_job_id j) j) q al))" for al
    by (induction q arbitrary: al) (auto simp: distinct_update)
  from this [of "[]"] show ?thesis by (simp add: edge_by_id_def)
qed

lemma edge_lookup: "map_of (edge_by_id q) i = find (\<lambda>j. ej_job_id j = i) (rev q)"
proof -
  have "map_of (fold (\<lambda>j. AList.update (ej_job_id j) j) q al) i =
      (case find (\<lambda>j. ej_job_id j = i) (rev q) of None \<Rightarrow> map_of al i | Some j \<Rightarrow> Some j)" for al
    by (induction q arbitrary: al) (auto simp: update_conv' find_append split: option.splits)
  from this [of "[]"] show ?thesis by (simp add: edge_by_id_def split: option.splits)
qed

lemma in_alist: "distinct (map fst al) \<Longrightarrow> (i, x) \<in> set al \<longleftrightarrow> map_of al i = Some x"
  by simp

lemma distinct_open_jobs: "distinct (map dj_job_id (v_jobs v)) \<Longrightarrow> distinct (map fst (open_jobs v))"
  by (simp add: open_jobs_def comp_def distinct_map_filter)

lemma in_selection:
  "x \<in> set (concat (map (\<lambda>(i, e). if P i e then [f i e] else []) al)) \<longleftrightarrow> (\<exists>i e. (i, e) \<in> set al \<and> P i e \<and> x = f i e)"
  by (induction al) auto

lemma in_joined_selection:
  "x \<in> set (concat (map (\<lambda>(i, j). case m i of Some e \<Rightarrow> if P e j then [f i e j] else [] | None \<Rightarrow> []) al)) \<longleftrightarrow>
     (\<exists>i j e. (i, j) \<in> set al \<and> m i = Some e \<and> P e j \<and> x = f i e j)"
proof (induction al)
  case (Cons p al)
  obtain a b where p: "p = (a, b)" by (cases p)
  show ?case
  proof (cases "m a")
    case None
    then show ?thesis unfolding p list.map concat.simps set_append Un_iff Cons.IH by auto
  next
    case (Some e)
    then show ?thesis unfolding p list.map concat.simps set_append Un_iff Cons.IH by auto
  qed
qed simp

lemma or_cong4: "a = a' \<Longrightarrow> b = b' \<Longrightarrow> c = c' \<Longrightarrow> d = d' \<Longrightarrow> (a \<or> b \<or> c \<or> d) = (a' \<or> b' \<or> c' \<or> d')"
  by simp

section \<open>Properties\<close>

text \<open>The comparison reports exactly what differs: a job the vault does not know as open, an open job the front edge does
  not have, another content, and a failure of which the vault knows nothing; nothing is reported of jobs that agree.\<close>

theorem drift_is_exact:
  assumes "distinct (map dj_job_id (v_jobs v))"
  shows "(cat, sev, i, d) \<in> set (detect_drift q v) \<longleftrightarrow>
    (case (find (\<lambda>e. ej_job_id e = i) (rev q), map_of (open_jobs v) i) of
       (None, None) \<Rightarrow> False
     | (Some e, None) \<Rightarrow> cat = ''missing_on_vault'' \<and> sev = ''CRITICAL'' \<and>
         d = JObj [(''edge_status'', JStr (ej_status e)), (''edge_content_hash'', JStr (ej_content_hash e))]
     | (None, Some j) \<Rightarrow> cat = ''missing_on_edge'' \<and> sev = ''WARN'' \<and> d = JObj [(''vault_status'', JStr (dj_status j))]
     | (Some e, Some j) \<Rightarrow>
         cat = ''content_mismatch'' \<and> sev = ''CRITICAL'' \<and> ej_content_hash e \<noteq> dj_content_hash j \<and>
           d = JObj [(''vault_hash'', JStr (dj_content_hash j)), (''edge_hash'', JStr (ej_content_hash e))] \<or>
         cat = ''status_mismatch'' \<and> sev = ''WARN'' \<and> ej_status e \<in> {''failed'', ''suppressed''} \<and> dj_status j = ''dispatched'' \<and>
           d = JObj [(''edge'', JStr (ej_status e)), (''vault'', JStr (dj_status j))])"
proof -
  have e: "(i, x) \<in> set (edge_by_id q) \<longleftrightarrow> find (\<lambda>e. ej_job_id e = i) (rev q) = Some x" for x
    using in_alist [OF distinct_edge_by_id] edge_lookup by metis
  have j: "(i, x) \<in> set (open_jobs v) \<longleftrightarrow> map_of (open_jobs v) i = Some x" for x
    using in_alist [OF distinct_open_jobs [OF assms]] by metis
  have split: "(cat, sev, i, d) \<in> set (detect_drift q v) \<longleftrightarrow>
      (\<exists>x. find (\<lambda>e. ej_job_id e = i) (rev q) = Some x \<and> map_of (open_jobs v) i = None \<and> cat = ''missing_on_vault'' \<and> sev = ''CRITICAL'' \<and>
         d = JObj [(''edge_status'', JStr (ej_status x)), (''edge_content_hash'', JStr (ej_content_hash x))]) \<or>
      (\<exists>x. map_of (open_jobs v) i = Some x \<and> find (\<lambda>e. ej_job_id e = i) (rev q) = None \<and> cat = ''missing_on_edge'' \<and> sev = ''WARN'' \<and>
         d = JObj [(''vault_status'', JStr (dj_status x))]) \<or>
      (\<exists>x y. map_of (open_jobs v) i = Some x \<and> find (\<lambda>e. ej_job_id e = i) (rev q) = Some y \<and> ej_content_hash y \<noteq> dj_content_hash x \<and>
         cat = ''content_mismatch'' \<and> sev = ''CRITICAL'' \<and>
         d = JObj [(''vault_hash'', JStr (dj_content_hash x)), (''edge_hash'', JStr (ej_content_hash y))]) \<or>
      (\<exists>x y. map_of (open_jobs v) i = Some x \<and> find (\<lambda>e. ej_job_id e = i) (rev q) = Some y \<and> (ej_status y \<in> {''failed'', ''suppressed''} \<and>
         dj_status x = ''dispatched'') \<and> cat = ''status_mismatch'' \<and> sev = ''WARN'' \<and>
         d = JObj [(''edge'', JStr (ej_status y)), (''vault'', JStr (dj_status x))])"
    unfolding detect_drift_def Let_def set_append Un_iff in_selection in_joined_selection
    by (rule or_cong4) (use e j in \<open>auto simp: edge_lookup\<close>)
  show ?thesis
    unfolding split by (cases "find (\<lambda>e. ej_job_id e = i) (rev q)"; cases "map_of (open_jobs v) i") auto
qed

text \<open>What one pass does while an erasure waits.\<close>

lemma length_ingested: "length (lg_events (fold (ingest_event now) es s)) = length (lg_events s) + length es"
  by (induction es arbitrary: s) (auto simp: ingest_event_def)

lemma ingested_vault:
  "v_audit (lg_vault (fold (ingest_event now) es s)) = v_audit (lg_vault s)"
  "v_suppressions (lg_vault (fold (ingest_event now) es s)) = v_suppressions (lg_vault s)"
  by (induction es arbitrary: s) (auto simp: ingest_event_def apply_event_to_recipient_def split: option.splits)

lemma ingested_unsubs:
  "v_audit (fold (ingest_unsub now) us v) = v_audit v"
  "sh_email_hash ` set (v_suppressions (fold (ingest_unsub now) us v)) = sh_email_hash ` set (v_suppressions v) \<union> er_email_hash ` set us"
  by (induction us arbitrary: v) (auto simp: ingest_unsub_def set_insert_or_ignore)

lemma blocked_pass:
  assumes "fe_cache fe edge = Some (evs, unsubs, erasures)" "erasures \<noteq> []"
  obtains s1 where "run_sync fe cr now (s, edge) = ((s1, edge), Inl (RuntimeError ''database is locked''))"
    "length (lg_events s1) = length (lg_events s) + length evs" "v_audit (lg_vault s1) = v_audit (lg_vault s)"
    "sh_email_hash ` set (v_suppressions (lg_vault s1)) = sh_email_hash ` set (v_suppressions (lg_vault s)) \<union> er_email_hash ` set unsubs"
  using assms that
  by (simp add: run_sync_def ingest_events_def ingest_unsubs_def ingest_erasures_locked ingested_vault ingested_unsubs length_ingested)

text \<open>C40: A waiting erasure stops every pass before the acknowledgement: whatever the number of passes, the front edge keeps it
  and all its events, each pass stores those events once more, no pass is recorded, and no address of an
  erasure is suppressed unless an unsubscribe or an earlier suppression names it.\<close>

theorem erasure_blocks_sync:
  assumes "fe_cache fe edge = Some (evs, unsubs, erasures)" "erasures \<noteq> []" "nows \<noteq> []"
    and "fold (\<lambda>now st. fst (run_sync fe cr now st)) nows (s, edge) = (s', edge')"
  shows "edge' = edge \<and> length (lg_events s') = length (lg_events s) + length nows * length evs \<and>
    v_audit (lg_vault s') = v_audit (lg_vault s) \<and>
    sh_email_hash ` set (v_suppressions (lg_vault s')) = sh_email_hash ` set (v_suppressions (lg_vault s)) \<union> er_email_hash ` set unsubs"
  using assms(3,4)
proof (induction nows arbitrary: s)
  case (Cons now nows)
  obtain s1 where r: "run_sync fe cr now (s, edge) = ((s1, edge), Inl (RuntimeError ''database is locked''))"
      and l: "length (lg_events s1) = length (lg_events s) + length evs" and a: "v_audit (lg_vault s1) = v_audit (lg_vault s)"
      and h: "sh_email_hash ` set (v_suppressions (lg_vault s1)) = sh_email_hash ` set (v_suppressions (lg_vault s)) \<union> er_email_hash ` set unsubs"
    by (rule blocked_pass [OF assms(1,2)])
  show ?case
  proof (cases "nows = []")
    case True
    then show ?thesis using Cons.prems(2) r l a h by simp
  next
    case False
    have "fold (\<lambda>now st. fst (run_sync fe cr now st)) nows (s1, edge) = (s', edge')" using Cons.prems(2) r by simp
    from Cons.IH [OF False this] l a h show ?thesis by auto
  qed
qed simp

section \<open>Witnesses\<close>

definition demo_edge :: "unit front_edge" where
  "demo_edge =
     \<lparr>fe_cache = (\<lambda>_. Some ([\<lparr>ee_id = 1, ee_event_type = ''email.opened'', ee_message_id = Some ''m'', ee_recipient = None, ee_payload_json = ''{}''\<rparr>],
         [], [\<lparr>er_id = 4, er_email_hash = ''h'', er_source_token = ''t''\<rparr>])),
      fe_queue = (\<lambda>_. Some []), fe_ack = (\<lambda>_ _ e. e)\<rparr>"

theorem erasure_blocks_sync_witness:
  "\<exists>s'. fold (\<lambda>now st. fst (run_sync demo_edge (plain_crypto JNull) now st)) [1, 2, 3] (\<lparr>lg_vault = empty_vault, lg_events = []\<rparr>, ()) = (s', ()) \<and>
     length (lg_events s') = 3 \<and> v_audit (lg_vault s') = [] \<and> v_suppressions (lg_vault s') = []"
proof -
  let ?r = "fold (\<lambda>now st. fst (run_sync demo_edge (plain_crypto JNull) now st)) [1, 2, 3] (\<lparr>lg_vault = empty_vault, lg_events = []\<rparr>, ())"
  obtain s' where r: "?r = (s', ())" by (cases ?r) simp
  have "fe_cache demo_edge () = Some ([\<lparr>ee_id = 1, ee_event_type = ''email.opened'', ee_message_id = Some ''m'', ee_recipient = None, ee_payload_json = ''{}''\<rparr>],
         [], [\<lparr>er_id = 4, er_email_hash = ''h'', er_source_token = ''t''\<rparr>])"
    by (simp add: demo_edge_def)
  from erasure_blocks_sync [OF this _ _ r] r show ?thesis by (simp add: empty_vault_def)
qed

definition demo_legacy_job :: job where
  "demo_legacy_job = \<lparr>dj_job_id = ''j'', dj_campaign_id = 1, dj_recipient_id = 1, dj_recipient_hash = ''r'', dj_status = ''dispatched'',
     dj_dispatched_at = [], dj_acked_at = None, dj_completed_at = None, dj_content_hash = ''c'', dj_resend_message_id = None\<rparr>"

theorem drift_is_exact_witness:
  "(''missing_on_edge'', ''WARN'', ''j'', JObj [(''vault_status'', JStr ''dispatched'')]) \<in> set (detect_drift [] (empty_vault\<lparr>v_jobs := [demo_legacy_job]\<rparr>)) \<and>
   (''content_mismatch'', ''CRITICAL'', ''j'', JObj [(''vault_hash'', JStr ''c''), (''edge_hash'', JStr ''d'')])
     \<in> set (detect_drift [\<lparr>ej_job_id = ''j'', ej_status = ''completed'', ej_content_hash = ''d''\<rparr>] (empty_vault\<lparr>v_jobs := [demo_legacy_job]\<rparr>))"
  by (subst drift_is_exact; simp add: open_jobs_def demo_legacy_job_def)+

end
