(* ===== verification/Legacy_Snapshot.thy ===== *)
theory Legacy_Snapshot
  imports Terminal_Outcomes
begin

text \<open>
  The snapshot of the vault for the former backup host (terminal/legacy_wg_snapshot.py): the key of the environment, the
  encrypted body with its line of metadata, and the copy of the suppression list. The dump of the database (an
  online copy, compressed) and the host are arguments.
\<close>

section \<open>Snapshot\<close>

text \<open>The key of \<open>DB_ENCRYPTION_KEY\<close>: Base64, or the text itself when it is none.\<close>

definition snapshot_key :: "string \<Rightarrow> exc + bytes" where
  "snapshot_key raw =
     (if raw = [] then Inl (RuntimeError ''DB_ENCRYPTION_KEY not set; refusing to snapshot'')
      else
        (let k = (case b64decode raw of Some b \<Rightarrow> b | None \<Rightarrow> raw) in
         if length k \<notin> {16, 24, 32} then Inl (RuntimeError (''DB_ENCRYPTION_KEY must be 16/24/32 raw bytes (base64-decoded); got '' @ dec (length k)))
         else Inr k))"

definition snapshot_encrypt :: "crypto \<Rightarrow> bytes \<Rightarrow> string \<Rightarrow> bytes \<Rightarrow> exc + bytes \<times> bytes" where
  "snapshot_encrypt cr nonce raw plain = bindE (snapshot_key raw) (\<lambda>k. Inr (nonce, aes_enc cr k nonce plain))"

definition snapshot_meta :: "crypto \<Rightarrow> string \<Rightarrow> string \<Rightarrow> bytes \<Rightarrow> bytes \<Rightarrow> json" where
  "snapshot_meta cr sid timestamp plain blob =
     JObj [(''snapshot_id'', JStr sid), (''timestamp'', JStr timestamp), (''encryption'', JStr ''aes-256-gcm''),
           (''plain_sha256'', JStr (sha256_hex cr plain)), (''plain_size'', JInt (int (length plain))),
           (''cipher_size'', JInt (int (length blob)))]"

definition snapshot_body :: "crypto \<Rightarrow> bytes \<Rightarrow> string \<Rightarrow> string \<Rightarrow> string \<Rightarrow> bytes \<Rightarrow> exc + bytes \<times> nat" where
  "snapshot_body cr nonce raw sid timestamp plain =
     bindE (snapshot_encrypt cr nonce raw plain) (\<lambda>(n, ct).
       let blob = n @ ct in Inr (json_dumps cr (snapshot_meta cr sid timestamp plain blob) @ CHR 0x0A # blob, length blob))"

text \<open>The backup host answers a request with a JSON value, or fails (an error status or none at all); only what it
  acknowledged is recorded.\<close>

definition create_and_push ::
  "crypto \<Rightarrow> ('s \<Rightarrow> bytes \<Rightarrow> 's \<times> (exc + json)) \<Rightarrow> int \<Rightarrow> bytes \<Rightarrow> string \<Rightarrow> string \<Rightarrow> string \<Rightarrow> bytes \<Rightarrow> vault \<times> 's \<Rightarrow> (vault \<times> 's) \<times> (exc + string \<times> nat \<times> json)" where
  "create_and_push cr post now nonce raw sid timestamp plain st =
     (case st of (v, host) \<Rightarrow>
      (case snapshot_body cr nonce raw sid timestamp plain of
         Inl e \<Rightarrow> ((v, host), Inl e)
       | Inr (body, n) \<Rightarrow>
           (case post host body of
              (host1, Inl e) \<Rightarrow> ((v, host1), Inl e)
            | (host1, Inr ack) \<Rightarrow>
                ((audit cr (sql_time now) ''system:vault-snapshot'' ''snapshot.shipped'' (Some (''snapshot:'' @ sid))
                    (JObj [(''cipher_size'', JInt (int n)), (''ack'', ack)]) v, host1), Inr (sid, n, ack)))))"

definition propagate_erasure ::
  "crypto \<Rightarrow> ('s \<Rightarrow> json \<Rightarrow> 's \<times> (exc + json)) \<Rightarrow> int \<Rightarrow> string \<Rightarrow> string \<Rightarrow> vault \<times> 's \<Rightarrow> (vault \<times> 's) \<times> (exc + json)" where
  "propagate_erasure cr post now user_hash request_id st =
     (case st of (v, host) \<Rightarrow>
      (case post host (JObj [(''user_hash'', JStr user_hash), (''request_id'', JStr request_id)]) of
         (host1, Inl e) \<Rightarrow> ((v, host1), Inl e)
       | (host1, Inr ack) \<Rightarrow>
           ((audit cr (sql_time now) ''system:vault-erasure-propagation'' ''erasure.propagated'' (Some (''hash:'' @ user_hash))
               (JObj [(''ack'', ack)]) v, host1), Inr ack)))"

definition sync_suppression_mirror ::
  "('s \<Rightarrow> json \<Rightarrow> 's \<times> (exc + json)) \<Rightarrow> vault \<times> 's \<Rightarrow> 's \<times> (exc + nat \<times> json option)" where
  "sync_suppression_mirror post st =
     (case st of (v, host) \<Rightarrow>
      if v_suppressions v = [] then (host, Inr (0, None))
      else
        (case post host (JArr (map (\<lambda>r. JObj [(''email_hash'', JStr (sh_email_hash r)), (''reason'', JStr (sh_reason r)),
              (''added_at'', JStr (sh_added_at r))]) (v_suppressions v))) of
           (host1, Inl e) \<Rightarrow> (host1, Inl e)
         | (host1, Inr ack) \<Rightarrow> (host1, Inr (length (v_suppressions v), Some ack))))"

section \<open>Properties\<close>

text \<open>The receiver splits a body at its first line break; with the key the rest decrypts to the dump, whose checksum and
  sizes the line states. The text of the metadata is one line.\<close>

theorem snapshot_opens:
  assumes "aead_ok cr" "snapshot_body cr nonce raw sid ts plain = Inr (body, n)" "snapshot_key raw = Inr k" "length k = 32" "length nonce = 12"
    and "\<And>m. CHR 0x0A \<notin> set (json_dumps cr m)"
  shows "case partition_at (CHR 0x0A) body of (line, found, blob) \<Rightarrow>
    found \<and> n = length blob \<and> line = json_dumps cr (snapshot_meta cr sid ts plain blob) \<and>
    aes_dec cr k (take 12 blob) (drop 12 blob) = Some plain"
proof -
  let ?blob = "nonce @ aes_enc cr k nonce plain"
  have b: "body = json_dumps cr (snapshot_meta cr sid ts plain ?blob) @ CHR 0x0A # ?blob" "n = length ?blob"
    using assms(2,3) by (simp_all add: snapshot_body_def snapshot_encrypt_def Let_def)
  then have "partition_at (CHR 0x0A) body = (json_dumps cr (snapshot_meta cr sid ts plain ?blob), True, ?blob)"
    using partition_at_append [OF assms(6)] by simp
  then show ?thesis using assms(1,4,5) b(2) by (simp add: aead_ok_def)
qed

end
