(* ===== verification/Stack_Backup.thy ===== *)
theory Stack_Backup
  imports Admin_Contacts
begin

text \<open>
  The backup of the whole stack (scripts/_backup.py): the checks of the inbox and of the secrets, the scan of the cloud
  table, the encrypted entries, the manifest with its HMAC, the written archive and its verification. An archive is the
  list of its entries; the copy of the SQLite file, the tarball of the keys, scrypt, HMAC and \<open>json.dumps(..., indent=2)\<close>
  are fields of an environment.
\<close>

record backup_env =
  bk_crypto :: crypto
  bk_kdf :: "bytes \<Rightarrow> bytes \<Rightarrow> bytes"
  bk_hmac :: "bytes \<Rightarrow> bytes \<Rightarrow> string"
  bk_dumps :: "json \<Rightarrow> bytes"
  bk_tar :: "(string \<times> bytes) list \<Rightarrow> bytes"
  bk_salt :: bytes
  bk_nonce :: "nat \<Rightarrow> bytes"
  bk_actor :: string
  bk_ts :: string

type_synonym archive = "(string \<times> bytes) list"

section \<open>Entries\<close>

definition derive_key :: "backup_env \<Rightarrow> string \<Rightarrow> bytes \<Rightarrow> bytes" where
  "derive_key ev passphrase salt = bk_kdf ev salt passphrase"

text \<open>\<open>encrypt\<close> with the nonce it draws, \<open>decrypt\<close> (\<open>None\<close> when it raises).\<close>

definition backup_encrypt :: "backup_env \<Rightarrow> bytes \<Rightarrow> bytes \<Rightarrow> bytes \<Rightarrow> bytes" where
  "backup_encrypt ev nonce plain key = aes_enc (bk_crypto ev) key nonce plain"

definition backup_decrypt :: "backup_env \<Rightarrow> bytes \<Rightarrow> bytes \<Rightarrow> bytes \<Rightarrow> bytes option" where
  "backup_decrypt ev ct nonce key = aes_dec (bk_crypto ev) key nonce ct"

definition enc_entry :: "backup_env \<Rightarrow> bytes \<Rightarrow> bytes \<Rightarrow> json" where
  "enc_entry ev nonce plain =
     JObj [(''nonce_b64'', JStr (b64encode nonce)), (''plain_size'', JInt (int (length plain))),
           (''sha256'', JStr (sha256_hex (bk_crypto ev) plain))]"

definition hmac_manifest :: "backup_env \<Rightarrow> bytes \<Rightarrow> bytes \<Rightarrow> string" where
  "hmac_manifest ev manifest_bytes key = bk_hmac ev key manifest_bytes"

section \<open>Verification\<close>

text \<open>One listed file; an entry without a readable nonce raises, which ends the loop.\<close>

definition verify_file :: "backup_env \<Rightarrow> bytes \<Rightarrow> archive \<Rightarrow> string \<Rightarrow> json \<Rightarrow> string + string option" where
  "verify_file ev key z fname entry =
     (if entry = JNull then Inr None
      else
        (case map_of z fname of
           None \<Rightarrow> Inr (Some (fname @ '' missing from zip''))
         | Some ct \<Rightarrow>
             (case jb64 (jitem ''nonce_b64'' entry) of
                None \<Rightarrow> Inl ''zip open failed: nonce_b64''
              | Some nonce \<Rightarrow>
                  (case backup_decrypt ev ct nonce key of
                     None \<Rightarrow> Inr (Some (fname @ '': decryption failed: InvalidTag''))
                   | Some plain \<Rightarrow>
                       Inr (if jget ''sha256'' entry \<noteq> Some (JStr (sha256_hex (bk_crypto ev) plain))
                            then Some (fname @ '': SHA-256 mismatch (corrupt)'') else None)))))"

fun verify_files :: "backup_env \<Rightarrow> bytes \<Rightarrow> archive \<Rightarrow> (string \<times> json) list \<Rightarrow> string list" where
  "verify_files ev key z [] = []"
| "verify_files ev key z ((fname, entry) # fs) =
     (case verify_file ev key z fname entry of
        Inl e \<Rightarrow> [e]
      | Inr None \<Rightarrow> verify_files ev key z fs
      | Inr (Some e) \<Rightarrow> e # verify_files ev key z fs)"

definition manifest_files :: "json \<Rightarrow> (string \<times> json) list" where
  "manifest_files m = (case jitem ''files'' m of Some (JObj fs) \<Rightarrow> fs | _ \<Rightarrow> [])"

text \<open>\<open>z\<close> is the archive as it is read back, \<open>None\<close> when the file does not open.\<close>

definition verify_zip :: "backup_env \<Rightarrow> archive option \<Rightarrow> bytes \<Rightarrow> json \<Rightarrow> string list" where
  "verify_zip ev z key m =
     (case z of
        None \<Rightarrow> [''zip open failed: open'']
      | Some a \<Rightarrow>
          if ''manifest.json'' \<notin> fst ` set a then [''manifest.json missing from zip'']
          else verify_files ev key a (manifest_files m))"

section \<open>Checks\<close>

text \<open>\<open>None\<close>: there is no database file.\<close>

definition check_inbox :: "vault option \<Rightarrow> json" where
  "check_inbox v =
     (case v of
        None \<Rightarrow> JObj [(''error'', JStr ''DB not found'')]
      | Some v \<Rightarrow>
          (let waiting = (\<lambda>names r. ib_materialised_at r = None \<and> ib_table_name r \<in> set names);
               pending = rowcount (waiting [''webhook_event'', ''suppression'']) (v_inbox v)
           in JObj [(''total_inbox'', JInt (int (length (v_inbox v)))), (''unmaterialised'', JInt (int pending)),
                    (''pack_pending_outcomes_loop'', JInt (int (rowcount (waiting [''pack'']) (v_inbox v)))),
                    (''warning'', if pending = 0 then JNull else JStr (dec pending @
                       '' webhook/suppression inbox rows not yet materialised - wait for materialiser loop before backup for full fidelity''))]))"

definition secret_prefix :: "crypto \<Rightarrow> vault \<Rightarrow> string \<Rightarrow> (string \<times> json) list" where
  "secret_prefix cr v skey =
     (case map_option st_value (find (\<lambda>r. st_key r = skey) (v_settings v)) of
        Some (c # cs) \<Rightarrow> [(skey @ ''_sha256_prefix'', JStr (take 16 (sha256_hex cr (c # cs))))]
      | _ \<Rightarrow> [(skey @ ''_sha256_prefix'', JNull),
              (skey @ ''_warning'', JStr (skey @ '' not configured in terminal settings - unsubscribe links will not work''))])"

definition check_secret_sync :: "crypto \<Rightarrow> vault option \<Rightarrow> json" where
  "check_secret_sync cr v =
     (case v of
        None \<Rightarrow> JObj [(''error'', JStr ''DB not found'')]
      | Some v \<Rightarrow>
          JObj (secret_prefix cr v ''unsub_secret'' @ secret_prefix cr v ''erasure_secret'' @
            [(''note'', JStr (''After restore: verify DynamoDB SETTING#unsub_secret and SETTING#erasure_secret '' @
                ''match terminal settings. Mismatch breaks all existing unsubscribe/erasure links.''))]))"

section \<open>The cloud\<close>

definition safe :: "attr \<Rightarrow> json" where
  "safe a = (case a of
      ABytes b \<Rightarrow> JObj [(''__bytes_b64'', JStr (b64encode b))]
    | AInt i \<Rightarrow> JInt i
    | AStr s \<Rightarrow> JStr s
    | ABool b \<Rightarrow> JBool b
    | ANull \<Rightarrow> JNull)"

definition safe_item :: "key \<times> item \<Rightarrow> json" where
  "safe_item e = (case e of ((pk, sk), it) \<Rightarrow> JObj ((''pk'', JStr pk) # (''sk'', JStr sk) # map (\<lambda>(k, a). (k, safe a)) it))"

definition tally :: "table \<Rightarrow> (string \<times> nat) list" where
  "tally t = fold (\<lambda>((pk, sk), it). count_reason (hd (split_on CHR ''#'' pk))) t []"

text \<open>A scan that is skipped, that fails, or the items of the table.\<close>

datatype scan = Skipped | Failed string | Scanned string string table

definition snapshot_dynamo :: "backup_env \<Rightarrow> scan \<Rightarrow> bytes \<times> json" where
  "snapshot_dynamo ev s =
     (case s of
        Skipped \<Rightarrow> ([], JObj [(''skipped'', JBool True)])
      | Failed e \<Rightarrow> ([], JObj [(''error'', JStr e)])
      | Scanned table_name endpoint t \<Rightarrow>
          (json_dumps (bk_crypto ev) (JArr (map safe_item t)),
           JObj [(''table'', JStr table_name), (''item_count'', JInt (int (length t))),
                 (''by_type'', JObj (map (\<lambda>(k, n). (k, JInt (int n))) (tally t))), (''endpoint'', JStr (py_or endpoint ''real AWS''))]))"

text \<open>The queue counts (url, visible, in flight), or an error.\<close>

definition snapshot_sqs :: "string + string \<times> nat \<times> nat \<Rightarrow> json" where
  "snapshot_sqs q =
     (case q of
        Inl e \<Rightarrow> JObj [(''error'', JStr e)]
      | Inr (url, visible, in_flight) \<Rightarrow>
          JObj [(''queue_url'', JStr url), (''visible'', JInt (int visible)), (''in_flight'', JInt (int in_flight)),
                (''warning'', if visible + in_flight = 0 then JNull else JStr (dec (visible + in_flight) @
                   '' packs still in SQS - dispatcher may not have finished. Packs are recoverable by re-launching the campaign after restore.''))])"

definition snapshot_keys :: "backup_env \<Rightarrow> (string \<times> bytes) list option \<Rightarrow> bytes" where
  "snapshot_keys ev dir = (case dir of None \<Rightarrow> [] | Some files \<Rightarrow> bk_tar ev (sort_key fst files))"

section \<open>The archive\<close>

definition architecture :: json where
  "architecture =
     JObj [(''cloud_database'', JStr ''AWS DynamoDB (single-table design) - NOT Postgres/Neon/MySQL''),
           (''cloud_queue'', JStr ''AWS SQS (email pack dispatch queue)''),
           (''cloud_compute'', JStr ''AWS Lambda (ep-api + ep-dispatcher) or local dispatcher''),
           (''terminal_db'', JStr ''SQLite at /var/lib/terminal/state.sqlite''),
           (''terminal_keys'', JStr ''File-based at /var/lib/terminal/keys/''),
           (''email_provider'', JStr ''Resend (API key stored per-entity, encrypted in SQLite)''),
           (''restore_order'', JArr (map JStr
              [''1. Automated restore is not provided; derive the key with the passphrase and manifest scrypt parameters, verify the manifest HMAC, decrypt .enc entries and verify SHA-256 checksums'',
               ''2. Restore SQLite to terminal volume'',
               ''3. Restore keys/ to terminal volume'',
               ''4. If included, re-import the decrypted DynamoDB JSON items by hand, decoding __bytes_b64 and converting numbers and sets for DynamoDB'',
               ''5. Verify unsub_secret + erasure_secret match between terminal settings and DynamoDB SETTING#* items'',
               ''6. Restart terminal - sync will resume from last cursor'',
               ''7. Re-queue any SQS messages if in-flight count was > 0 (re-launch affected campaigns)'']))]"

text \<open>The three encrypted parts: the name of the entry, its nonce and its plain bytes (none when there is nothing).\<close>

definition backup_parts :: "backup_env \<Rightarrow> bytes \<Rightarrow> bytes \<Rightarrow> bytes \<Rightarrow> (string \<times> bytes \<times> bytes) list" where
  "backup_parts ev db_bytes keys_bytes dynamo_bytes =
     [(''state.sqlite.enc'', bk_nonce ev 0, db_bytes), (''keys.tar.enc'', bk_nonce ev 1, keys_bytes),
      (''dynamo_snapshot.enc'', bk_nonce ev 2, dynamo_bytes)]"

definition has_key :: "string \<Rightarrow> json \<Rightarrow> bool" where
  "has_key k j \<longleftrightarrow> jitem k j \<noteq> None"

definition gaps_covered :: "bytes \<Rightarrow> bytes \<Rightarrow> bytes \<Rightarrow> json \<Rightarrow> json \<Rightarrow> json \<Rightarrow> (string \<times> bool) list" where
  "gaps_covered db_bytes keys_bytes dynamo_bytes sqs_info secret_sync inbox_info =
     [(''terminal_sqlite'', db_bytes \<noteq> []), (''terminal_keys'', keys_bytes \<noteq> []), (''dynamo_full_scan'', dynamo_bytes \<noteq> []),
      (''sqs_state_recorded'', \<not> has_key ''error'' sqs_info), (''secret_sync_checked'', \<not> has_key ''error'' secret_sync),
      (''inbox_unmaterialised_warn'', jget_or ''unmaterialised'' (JInt 0) inbox_info = Some (JInt 0))]"

text \<open>What the backup finds: the database with its copy, the key directory, the scan and the queue.\<close>

record backup_input =
  bi_db :: "(vault \<times> bytes) option"
  bi_keys_dir :: "(string \<times> bytes) list option"
  bi_scan :: scan
  bi_sqs :: "string + string \<times> nat \<times> nat"

definition manifest_body :: "backup_env \<Rightarrow> backup_input \<Rightarrow> (string \<times> json) list" where
  "manifest_body ev b =
     (let inbox_info = check_inbox (map_option fst (bi_db b));
          secret_sync = check_secret_sync (bk_crypto ev) (map_option fst (bi_db b));
          db_bytes = (case bi_db b of None \<Rightarrow> [] | Some (v, copy) \<Rightarrow> copy);
          keys_bytes = snapshot_keys ev (bi_keys_dir b);
          sqs_info = snapshot_sqs (bi_sqs b)
      in case snapshot_dynamo ev (bi_scan b) of (dynamo_bytes, dynamo_stats) \<Rightarrow>
         [(''version'', JInt 3), (''actor'', JStr (bk_actor ev)), (''created_at'', JStr (bk_ts ev)), (''architecture'', architecture),
          (''kdf'', JObj [(''algo'', JStr ''scrypt''), (''n'', JInt (2 ^ 14)), (''r'', JInt 8), (''p'', JInt 1), (''length'', JInt 32),
                          (''salt_b64'', JStr (b64encode (bk_salt ev)))]),
          (''cipher'', JStr ''AES-256-GCM''),
          (''files'', JObj (map (\<lambda>(name, nonce, plain). (name, if plain = [] then JNull else enc_entry ev nonce plain))
              (backup_parts ev db_bytes keys_bytes dynamo_bytes))),
          (''key_files'', JArr (map (JStr \<circ> fst) (case bi_keys_dir b of None \<Rightarrow> [] | Some files \<Rightarrow> sort_key fst files))),
          (''dynamo'', dynamo_stats), (''sqs'', sqs_info), (''secret_sync'', secret_sync), (''inbox'', inbox_info),
          (''gaps_covered'', JObj (map (\<lambda>(k, ok). (k, JBool ok))
              (gaps_covered db_bytes keys_bytes dynamo_bytes sqs_info secret_sync inbox_info)))])"

definition signed_manifest :: "backup_env \<Rightarrow> bytes \<Rightarrow> (string \<times> json) list \<Rightarrow> json" where
  "signed_manifest ev key body = JObj (body @ [(''manifest_hmac'', JStr (hmac_manifest ev (bk_dumps ev (JObj body)) key))])"

definition backup_archive :: "backup_env \<Rightarrow> bytes \<Rightarrow> backup_input \<Rightarrow> archive" where
  "backup_archive ev key b =
     (let db_bytes = (case bi_db b of None \<Rightarrow> [] | Some (v, copy) \<Rightarrow> copy);
          parts = backup_parts ev db_bytes (snapshot_keys ev (bi_keys_dir b)) (fst (snapshot_dynamo ev (bi_scan b)))
      in (''manifest.json'', bk_dumps ev (signed_manifest ev key (manifest_body ev b))) #
         List.map_filter (\<lambda>(name, nonce, plain). if plain = [] then None else Some (name, backup_encrypt ev nonce plain key)) parts @
         [(''sqs_state.json'', bk_dumps ev (snapshot_sqs (bi_sqs b)))])"

text \<open>The passphrase comes from a variable or is entered twice. The length is checked only when it is entered.\<close>

datatype passphrase = From_env string | Entered string string

datatype backup_exit =
    Env_empty
  | No_match
  | Too_short
  | Write_failed string
  | Integrity_failure "string list"
  | Backed_up bool

definition choose_passphrase :: "passphrase \<Rightarrow> backup_exit + string" where
  "choose_passphrase p =
     (case p of
        From_env pw \<Rightarrow> if pw = [] then Inl Env_empty else Inr pw
      | Entered pw pw2 \<Rightarrow> if pw \<noteq> pw2 then Inl No_match else if length pw < 12 then Inl Too_short else Inr pw)"

text \<open>\<open>write\<close> stores the archive, or is the error of a write; \<open>reread\<close> is the archive as it is read back. The answer is how
  the program ends (\<open>Backed_up True\<close>: complete) and the file it leaves.\<close>

definition backup_main ::
  "backup_env \<Rightarrow> (archive \<Rightarrow> string option) \<Rightarrow> (archive \<Rightarrow> archive option) \<Rightarrow> passphrase \<Rightarrow> backup_input \<Rightarrow> backup_exit \<times> archive option" where
  "backup_main ev write reread p b =
     (case choose_passphrase p of
        Inl e \<Rightarrow> (e, None)
      | Inr pw \<Rightarrow>
          (let key = derive_key ev pw (bk_salt ev); z = backup_archive ev key b; body = manifest_body ev b in
           case write z of
             Some e \<Rightarrow> (Write_failed e, None)
           | None \<Rightarrow>
               (let errs = verify_zip ev (reread z) key (signed_manifest ev key body) in
                if errs \<noteq> [] then (Integrity_failure errs, Some z)
                else (Backed_up (list_all (\<lambda>(k, j). j = JBool True) (case jitem ''gaps_covered'' (JObj body) of Some (JObj gs) \<Rightarrow> gs | _ \<Rightarrow> [])), Some z))))"

section \<open>Restoring\<close>

text \<open>The restore by hand that the module describes: decrypt an entry with its recorded nonce and verify its checksum; decode
  the items of the table. It is the reference the archive is measured against.\<close>

definition restore_part :: "backup_env \<Rightarrow> bytes \<Rightarrow> archive \<Rightarrow> string \<Rightarrow> json \<Rightarrow> bytes option" where
  "restore_part ev key z name entry =
     (if entry = JNull then Some []
      else Option.bind (map_of z name) (\<lambda>ct. Option.bind (jb64 (jitem ''nonce_b64'' entry)) (\<lambda>nonce.
           Option.bind (backup_decrypt ev ct nonce key) (\<lambda>p.
             if jget ''sha256'' entry = Some (JStr (sha256_hex (bk_crypto ev) p)) then Some p else None))))"

definition restore_attr :: "json \<Rightarrow> attr" where
  "restore_attr j =
     (case j of
        JStr s \<Rightarrow> AStr s
      | JInt i \<Rightarrow> AInt i
      | JBool b \<Rightarrow> ABool b
      | JObj [(k, JStr s)] \<Rightarrow> (case b64decode s of Some b \<Rightarrow> ABytes b | None \<Rightarrow> ANull)
      | _ \<Rightarrow> ANull)"

definition restore_item :: "json \<Rightarrow> (key \<times> item) option" where
  "restore_item j =
     (case j of JObj ((a, JStr pk) # (b, JStr sk) # kvs) \<Rightarrow> Some ((pk, sk), map (\<lambda>(k, x). (k, restore_attr x)) kvs) | _ \<Rightarrow> None)"

section \<open>Properties\<close>

lemma restore_safe: "restore_attr (safe a) = a"
  by (cases a) (simp_all add: safe_def restore_attr_def b64decode_encode)

lemma restore_safe_item: "restore_item (safe_item e) = Some e"
  by (cases e rule: prod.exhaust [case_product prod.exhaust])
     (auto simp: safe_item_def restore_item_def restore_safe comp_def split_def)

lemma verify_file_restore: "verify_file ev key z n e = Inr None \<longleftrightarrow> restore_part ev key z n e \<noteq> None"
  by (auto simp: verify_file_def restore_part_def split: option.splits)

lemma verify_files_restore: "verify_files ev key z fs = [] \<longleftrightarrow> (\<forall>(n, e)\<in>set fs. restore_part ev key z n e \<noteq> None)"
proof (induction fs)
  case (Cons f fs)
  obtain n e where f: "f = (n, e)" by (cases f)
  consider x where "verify_file ev key z n e = Inl x" | "verify_file ev key z n e = Inr None"
    | x where "verify_file ev key z n e = Inr (Some x)"
    by (metis option.exhaust sum.exhaust)
  then show ?case using verify_file_restore [of ev key z n e] Cons.IH by cases (simp_all add: f)
qed simp

lemma passphrase_ends: "choose_passphrase p \<noteq> Inl (Backed_up ok)"
  by (cases p) (simp_all add: choose_passphrase_def)

lemma files_of_manifest:
  "manifest_files (signed_manifest ev key (manifest_body ev b)) =
     map (\<lambda>(name, nonce, plain). (name, if plain = [] then JNull else enc_entry ev nonce plain))
       (backup_parts ev (case bi_db b of None \<Rightarrow> [] | Some (v, copy) \<Rightarrow> copy) (snapshot_keys ev (bi_keys_dir b)) (fst (snapshot_dynamo ev (bi_scan b))))"
  by (simp add: manifest_files_def signed_manifest_def manifest_body_def jitem_def Let_def split_def)

text \<open>What a restored part is: the bytes with the recorded checksum.\<close>

lemma restored_checksum:
  "restore_part ev key z n (enc_entry ev nonce plain) = Some p \<Longrightarrow> sha256_hex (bk_crypto ev) p = sha256_hex (bk_crypto ev) plain"
  by (auto simp: restore_part_def enc_entry_def jget_def bind_eq_Some_conv split: if_splits)

text \<open>The program reports a backup only when every part it listed can be restored from the archive as it is read back,
  to bytes with the checksum of the part: a disk that damages the archive makes it fail.\<close>

theorem backup_is_verified:
  assumes "backup_main ev write reread p b = (Backed_up ok, f)"
  shows "\<exists>pw z. choose_passphrase p = Inr pw \<and> f = Some (backup_archive ev (derive_key ev pw (bk_salt ev)) b) \<and>
    reread (backup_archive ev (derive_key ev pw (bk_salt ev)) b) = Some z \<and>
    (\<forall>(name, nonce, plain) \<in> set (backup_parts ev (case bi_db b of None \<Rightarrow> [] | Some (v, copy) \<Rightarrow> copy) (snapshot_keys ev (bi_keys_dir b))
        (fst (snapshot_dynamo ev (bi_scan b)))).
      plain \<noteq> [] \<longrightarrow> (\<exists>q. restore_part ev (derive_key ev pw (bk_salt ev)) z name (enc_entry ev nonce plain) = Some q \<and>
        sha256_hex (bk_crypto ev) q = sha256_hex (bk_crypto ev) plain))"
proof -
  obtain pw where pw: "choose_passphrase p = Inr pw" using assms passphrase_ends [of p ok] by (auto simp: backup_main_def split: sum.splits)
  let ?k = "derive_key ev pw (bk_salt ev)"
  let ?z = "backup_archive ev ?k b"
  have v: "verify_zip ev (reread ?z) ?k (signed_manifest ev ?k (manifest_body ev b)) = []" and f: "f = Some ?z"
    using assms pw by (auto simp: backup_main_def Let_def split: option.splits if_splits)
  then obtain z where z: "reread ?z = Some z" by (cases "reread ?z") (auto simp: verify_zip_def)
  have r: "\<forall>(n, e)\<in>set (manifest_files (signed_manifest ev ?k (manifest_body ev b))). restore_part ev ?k z n e \<noteq> None"
    using v by (simp add: verify_zip_def z verify_files_restore split: if_splits)
  have "\<exists>q. restore_part ev ?k z name (enc_entry ev nonce plain) = Some q \<and> sha256_hex (bk_crypto ev) q = sha256_hex (bk_crypto ev) plain"
    if "(name, nonce, plain) \<in> set (backup_parts ev (case bi_db b of None \<Rightarrow> [] | Some (v, copy) \<Rightarrow> copy) (snapshot_keys ev (bi_keys_dir b))
        (fst (snapshot_dynamo ev (bi_scan b))))" "plain \<noteq> []" for name nonce plain
  proof -
    have "(name, enc_entry ev nonce plain) \<in> set (manifest_files (signed_manifest ev ?k (manifest_body ev b)))"
      unfolding files_of_manifest using that by force
    with r obtain q where "restore_part ev ?k z name (enc_entry ev nonce plain) = Some q" by fastforce
    then show ?thesis using restored_checksum by blast
  qed
  then show ?thesis using pw f z by blast
qed

lemma part_restores:
  assumes "aead_ok (bk_crypto ev)" "length key = 32" "map_of z n = Some (backup_encrypt ev nonce plain key)"
  shows "restore_part ev key z n (enc_entry ev nonce plain) = Some plain"
  using assms by (simp add: restore_part_def enc_entry_def jitem_def jb64_def jget_def b64decode_encode backup_decrypt_def backup_encrypt_def aead_ok_def)

lemma archive_entry:
  assumes "(n, nonce, plain) \<in> set (backup_parts ev (case bi_db b of None \<Rightarrow> [] | Some (v, copy) \<Rightarrow> copy) (snapshot_keys ev (bi_keys_dir b))
        (fst (snapshot_dynamo ev (bi_scan b))))" "plain \<noteq> []"
  shows "map_of (backup_archive ev key b) n = Some (backup_encrypt ev nonce plain key)"
  using assms by (auto simp: backup_archive_def Let_def backup_parts_def List.map_filter_def)

lemma secret_check_runs: "\<not> has_key ''error'' (check_secret_sync cr (Some v))"
proof -
  have "map_of (secret_prefix cr v k) ''error'' = None" if "k \<in> {''unsub_secret'', ''erasure_secret''}" for k
    using that by (auto simp: secret_prefix_def split: option.splits list.splits)
  then show ?thesis by (simp add: has_key_def check_secret_sync_def jitem_def map_add_def)
qed

lemma queue_check_runs: "\<not> has_key ''error'' (snapshot_sqs q) \<longleftrightarrow> (\<exists>counts. q = Inr counts)"
  by (auto simp: has_key_def snapshot_sqs_def jitem_def split: sum.splits)


section \<open>Witnesses\<close>

definition demo_cloud :: table where
  "demo_cloud = [((''PACK#1'', ''META''), [(''body'', ABytes ''x''), (''n'', AInt 2)])]"

definition demo_backup_env :: backup_env where
  "demo_backup_env =
     \<lparr>bk_crypto = plain_crypto (JArr (map safe_item demo_cloud)), bk_kdf = (\<lambda>_ _. replicate 32 CHR ''k''), bk_hmac = (\<lambda>k m. m @ k),
      bk_dumps = (\<lambda>_. ''{}''), bk_tar = (\<lambda>_. ''tar''), bk_salt = ''salt'', bk_nonce = (\<lambda>_. ''nonce''), bk_actor = ''me'', bk_ts = ''now''\<rparr>"

definition demo_input :: backup_input where
  "demo_input = \<lparr>bi_db = Some (empty_vault, ''db''), bi_keys_dir = Some [(''k_temp.bin'', ''k'')], bi_scan = Scanned ''t'' [] demo_cloud, bi_sqs = Inr (''q'', 0, 0)\<rparr>"

lemma demo_backed_up:
  "fst (backup_main demo_backup_env (\<lambda>_. None) Some (From_env ''pw'') demo_input) = Backed_up True"
  by code_simp

theorem backup_is_verified_witness:
  "\<exists>z. restore_part demo_backup_env (derive_key demo_backup_env ''pw'' ''salt'') z ''state.sqlite.enc'' (enc_entry demo_backup_env ''nonce'' ''db'') \<noteq> None"
proof -
  obtain f where f: "backup_main demo_backup_env (\<lambda>_. None) Some (From_env ''pw'') demo_input = (Backed_up True, f)"
    using demo_backed_up by (cases "backup_main demo_backup_env (\<lambda>_. None) Some (From_env ''pw'') demo_input") simp
  have "choose_passphrase (From_env ''pw'') = Inr pw \<Longrightarrow> pw = ''pw''" for pw by (simp add: choose_passphrase_def)
  with backup_is_verified [OF f] show ?thesis
    by (auto simp: backup_parts_def demo_input_def demo_backup_env_def)
qed


end
