(* ===== verification/Admin_Analytics.thy ===== *)
theory Admin_Analytics
  imports Admin_Views Settings_Pages Stack_Backup
begin

text \<open>
  What the analytics page of a campaign offers, what the audit, contact and backup pages read (terminal/admin_ui.py), and the
  check of a company's key at the mail service (routes_admin.py). HTML is left out; shares are exact fractions.
\<close>

section \<open>Analytics\<close>

definition is_unknown :: "recipient \<Rightarrow> bool" where
  "is_unknown r \<longleftrightarrow> cr_status r = ''sent'' \<and> starts_with (opt_or (cr_failure_reason r) []) unknown_prefix"

definition retry_offered :: "campaign \<Rightarrow> campaign_figures \<Rightarrow> bool" where
  "retry_offered c f \<longleftrightarrow> 0 < cf_failed f \<and> ca_status c \<in> {''dispatched'', ''tested''}"

text \<open>The bars of the funnel: the number and its share of the sent mails in percent.\<close>

definition funnel :: "campaign_figures \<Rightarrow> (string \<times> nat \<times> rat) list" where
  "funnel f =
     map (\<lambda>(name, n). (name, n, of_nat n / of_nat (max (cf_sent f) 1) * 100))
       [(''Sent'', cf_sent f), (''Clicked'', cf_clicked f), (''Bounced'', cf_bounced f), (''Failed'', cf_failed f)]"

text \<open>What the row of a batch offers; \<open>rows\<close> are the batches of the campaign.\<close>

datatype batch_action = No_action | Approve_button | Unlocks_at string | Waits_for_previous

definition batch_action :: "int \<Rightarrow> batch list \<Rightarrow> batch \<Rightarrow> batch_action" where
  "batch_action now rows b =
     (if cb_status b \<noteq> ''pending'' then No_action
      else
        (case find (\<lambda>x. cb_batch_no x = cb_batch_no b - 1) rows of
           None \<Rightarrow> Approve_button
         | Some prev \<Rightarrow>
             if cb_status prev \<in> set drained_states \<and> (\<not> truthy (cb_approve_unlock_at prev) \<or> opt_or (cb_approve_unlock_at prev) [] \<le> iso now)
             then Approve_button
             else if truthy (cb_approve_unlock_at prev) then Unlocks_at (take 16 (opt_or (cb_approve_unlock_at prev) []))
             else Waits_for_previous))"

text \<open>The batch whose seed placements can be logged.\<close>

definition placement_batch :: "batch list \<Rightarrow> batch option" where
  "placement_batch rows = find (\<lambda>b. cb_status b \<in> {''sending'', ''drained'', ''cooldown''}) rows"

record analytics_page =
  an_campaign :: campaign
  an_figures :: campaign_figures
  an_unknown :: nat
  an_retry :: bool
  an_batches :: "(batch \<times> batch_action) list"
  an_placement :: "(batch \<times> string list) option"
  an_refusal :: "json option"
  an_retrying :: "json option"

text \<open>The page, or the redirect to the list (\<open>None\<close>) when its data cannot be read.\<close>

definition campaign_analytics_view ::
  "(nat \<Rightarrow> nat \<Rightarrow> string) \<Rightarrow> crypto \<Rightarrow> int \<Rightarrow> int \<Rightarrow> vault \<Rightarrow> exc + analytics_page option" where
  "campaign_analytics_view pct cr now i v =
     (case campaign_analytics_data pct i v of
        Inl e \<Rightarrow> Inr None
      | Inr (camp, f, shares, rows) \<Rightarrow>
          (let batches = fst (list_batches i v);
               seeds = map sd_email (sort_key sd_id (filter (\<lambda>s. sd_active s = 1) (v_seeds v)));
               page = (\<lambda>refusal. \<lparr>an_campaign = camp, an_figures = f, an_unknown = rowcount (\<lambda>(r, c). is_unknown r) rows,
                  an_retry = retry_offered camp f, an_batches = map (\<lambda>b. (b, batch_action now batches b)) batches,
                  an_placement = (if seeds = [] then None else map_option (\<lambda>b. (b, seeds)) (placement_batch batches)),
                  an_refusal = refusal,
                  an_retrying = (if ca_status camp = ''scheduled'' then scheduler_retry cr i (ca_updated_at camp) v else None)\<rparr>)
           in if ca_status camp = ''failed'' then bindE (scheduler_errors cr i v) (\<lambda>(e, stages). Inr (Some (page e)))
              else Inr (Some (page None))))"

section \<open>Other pages\<close>

definition audit_view :: "int \<Rightarrow> vault \<Rightarrow> audit_event list" where
  "audit_view limit v = page limit 0 (order_desc au_occurred_at (v_audit v))"

text \<open>The contacts of the page and the campaigns they can be added to.\<close>

definition contacts_view :: "string \<Rightarrow> string \<Rightarrow> vault \<Rightarrow> contact list \<times> (int \<times> string) list" where
  "contacts_view tag q v =
     (let search = py_or q tag;
          found = (\<lambda>c. like_part search (Some (ct_email c)) \<or> like_part search (ct_name c) \<or> like_part search (ct_tags c))
      in (take 300 (order_desc ct_created_at (if search = [] then v_contacts v else filter found (v_contacts v))),
          map (\<lambda>c. (ca_id c, ca_name c)) (take 50 (order_desc ca_created_at (filter (\<lambda>c. ca_status c \<noteq> ''archived'') (v_campaigns v))))))"

text \<open>The verdict of the backup page: the passphrase of the environment, or the exit code of the backup.\<close>

datatype backup_verdict = Passphrase_not_set | Backup_complete | Backup_failed

definition backup_exit_code :: "backup_exit \<Rightarrow> int" where
  "backup_exit_code e = (case e of Backed_up ok \<Rightarrow> 0 | _ \<Rightarrow> 1)"

definition backup_run ::
  "backup_env \<Rightarrow> (archive \<Rightarrow> string option) \<Rightarrow> (archive \<Rightarrow> archive option) \<Rightarrow> string \<Rightarrow> backup_input \<Rightarrow> backup_verdict \<times> archive option" where
  "backup_run ev write reread pw b =
     (if pw = [] then (Passphrase_not_set, None)
      else
        (case backup_main ev write reread (From_env pw) b of
           (e, f) \<Rightarrow> (if backup_exit_code e = 0 then Backup_complete else Backup_failed, f)))"

section \<open>The key of a company\<close>

text \<open>The answer of the mail service: none, or a status with its JSON.\<close>

datatype resend_answer = No_connection string | Answered int "json option"

definition domain_names :: "json option \<Rightarrow> json list option" where
  "domain_names j =
     Option.bind j (\<lambda>d. Option.bind (jget_or ''data'' (JArr []) d) (\<lambda>a.
       case a of JArr ds \<Rightarrow> those (map (jget ''name'') ds) | _ \<Rightarrow> None))"

datatype key_check =
    Key_missing
  | Key_rejected
  | Service_error int
  | Connection_error
  | Key_valid bool nat

definition test_entity_connection ::
  "settings_env \<Rightarrow> (string \<Rightarrow> resend_answer) \<Rightarrow> int \<Rightarrow> t_state \<Rightarrow> settings_mem \<times> (admin_error + key_check)" where
  "test_entity_connection ev get i st =
     (case st of (v, m) \<Rightarrow>
        (case entity_of i v of
           None \<Rightarrow> (m, Inl (HttpError 404 ''no such entity''))
         | Some row \<Rightarrow>
             if \<not> truthy (en_resend_key_enc row) then (m, Inr Key_missing)
             else
               (case settings_decrypt ev (opt_or (en_resend_key_enc row) []) m of
                  (m1, Inl e) \<Rightarrow> (m1, Inr Connection_error)
                | (m1, Inr key) \<Rightarrow>
                    (m1, Inr (case get key of
                       No_connection e \<Rightarrow> Connection_error
                     | Answered code j \<Rightarrow>
                         if code = 401 then Key_rejected
                         else if 400 \<le> code then Service_error code
                         else (case domain_names j of
                                 None \<Rightarrow> Connection_error
                               | Some ds \<Rightarrow> Key_valid (JStr (en_domain row) \<in> set ds) (length ds)))))))"

section \<open>Properties\<close>

lemma find_sorted:
  assumes "distinct (map f xs)"
  shows "find (\<lambda>x. f x = k) (sort_key g xs) = find (\<lambda>x. f x = k) xs"
proof -
  have "distinct (map f (sort_key g xs))"
    using assms by (simp add: distinct_map)
  moreover have "find (\<lambda>x. f x = k) ys = Some y \<longleftrightarrow> y \<in> set ys \<and> f y = k" if "distinct (map f ys)" for ys y
    using that by (induction ys) auto
  ultimately have "find (\<lambda>x. f x = k) (sort_key g xs) = Some y \<longleftrightarrow> find (\<lambda>x. f x = k) xs = Some y" for y
    using assms by simp
  then show ?thesis by (metis not_Some_eq)
qed

lemma find_filtered: "find P (filter Q xs) = find (\<lambda>x. Q x \<and> P x) xs"
  by (induction xs) auto

text \<open>The page offers the release of a batch exactly when the release would not be refused.\<close>

theorem approve_button_is_accepted:
  assumes "distinct (map cb_batch_no (filter (\<lambda>b. cb_campaign_id b = i) (v_batches v)))" "b \<in> set (fst (list_batches i v))"
  shows "batch_action now (fst (list_batches i v)) b = Approve_button \<longleftrightarrow> (\<exists>prev. approve_gate now i (cb_batch_no b) v = Inr prev)"
proof -
  have found: "find (\<lambda>x. cb_batch_no x = k) (fst (list_batches i v)) = batch_of i k v" for k
    by (simp add: list_batches_def Let_def find_sorted [OF assms(1)] find_filtered batch_of_def)
  have "b \<in> set (v_batches v)" "cb_campaign_id b = i" using assms(2) by (auto simp: list_batches_def Let_def)
  then obtain b' where b': "batch_of i (cb_batch_no b) v = Some b'" unfolding batch_of_def by (cases "find (\<lambda>x. cb_campaign_id x = i \<and> cb_batch_no x = cb_batch_no b) (v_batches v)") (auto simp: find_None_iff)
  then have "b' \<in> set (filter (\<lambda>b. cb_campaign_id b = i) (v_batches v))" "cb_batch_no b' = cb_batch_no b"
    unfolding batch_of_def by (auto simp: find_Some_iff)
  then have "b' = b" using assms(1) \<open>b \<in> set (v_batches v)\<close> \<open>cb_campaign_id b = i\<close> by (auto simp: distinct_map dest: inj_onD)
  then show ?thesis
    using b' by (auto simp: batch_action_def approve_gate_def found truthy_def opt_or_def py_or_def not_less split: option.splits)
qed

text \<open>The button for the failed recipients resets as many as it says, and leaves the recipients whose delivery is unknown.\<close>

theorem retry_button_counts:
  assumes "campaign_analytics_data pct i v = Inr (c, f, shares, rows)"
  shows "\<exists>v'. retry_failed ev i v = Inr (v', cf_failed f) \<and> (\<forall>r\<in>set (v_recipients v). is_unknown r \<longrightarrow> r \<in> set (v_recipients v'))"
proof -
  have c: "campaign_of v i \<noteq> None" and n: "cf_failed f = rowcount (\<lambda>r. cr_campaign_id r = i \<and> cr_status r = ''failed'') (v_recipients v)"
    using assms by (auto simp: campaign_analytics_data_def Let_def rowcount_def conj_commute split: option.splits)
  let ?q = "\<lambda>r. cr_campaign_id r = i \<and> cr_status r = ''failed''"
  have k: "r \<in> set (update_where ?q g (v_recipients v))" if "r \<in> set (v_recipients v)" "is_unknown r" for r g
    using that by (auto simp: update_where_def is_unknown_def image_iff intro!: bexI [of _ r])
  have "\<exists>v'. retry_failed ev i v = Inr (v', rowcount ?q (v_recipients v)) \<and>
      v_recipients v' = update_where ?q (\<lambda>r. r\<lparr>cr_status := ''queued'', cr_failure_reason := None\<rparr>) (v_recipients v)"
    using c by (auto simp: retry_failed_def Let_def by_operator_def audit_def set_campaign_def)
  then show ?thesis using k n by auto
qed

text \<open>The page reports a complete backup also when nothing was there to back up.\<close>

theorem empty_backup_is_complete:
  assumes "pw \<noteq> []" "bi_db b = None" "bi_keys_dir b = None" "bi_scan b = Skipped" "write (backup_archive ev (derive_key ev pw (bk_salt ev)) b) = None"
  shows "fst (backup_run ev write Some pw b) = Backup_complete"
proof -
  let ?k = "derive_key ev pw (bk_salt ev)"
  have "restore_part ev ?k z n e \<noteq> None" if "(n, e) \<in> set (manifest_files (signed_manifest ev ?k (manifest_body ev b)))" for z n e
    using that unfolding files_of_manifest
    by (auto simp: backup_parts_def assms(2-4) snapshot_keys_def snapshot_dynamo_def restore_part_def)
  moreover have "''manifest.json'' \<in> fst ` set (backup_archive ev ?k b)" by (simp add: backup_archive_def Let_def)
  ultimately have "verify_zip ev (Some (backup_archive ev ?k b)) ?k (signed_manifest ev ?k (manifest_body ev b)) = []"
    unfolding verify_zip_def by (auto simp: verify_files_restore)
  then show ?thesis using assms(1,5) by (simp add: backup_run_def backup_main_def choose_passphrase_def Let_def backup_exit_code_def)
qed

end
