(* ===== verification/Restore_Check.thy ===== *)
theory Restore_Check
  imports Stack_Backup
begin

text \<open>
  The trial restore of a backup (deploy/test_restore.py): the key from the manifest, the database and the keys. Unpacking
  the tarball and counting the rows of a table of the decrypted file are arguments; a count that raises is \<open>None\<close>.
\<close>

datatype restore_exit =
    Password_missing
  | Restore_failed string
  | Restore_passed "(string \<times> nat) list option" "(string list \<times> nat) option"

definition restore_tables :: "string list" where
  "restore_tables = [''contacts'', ''campaigns'', ''templates'', ''entities'', ''dispatched_job'', ''settings'']"

text \<open>One listed part (\<open>None\<close>: not in the backup); a file that is missing, an unreadable nonce and a wrong key raise.\<close>

definition open_part :: "backup_env \<Rightarrow> bytes \<Rightarrow> archive \<Rightarrow> json \<Rightarrow> string \<Rightarrow> string + bytes option" where
  "open_part ev key z files name =
     (case jget name files of
        None \<Rightarrow> Inl ''AttributeError''
      | Some entry \<Rightarrow>
          if \<not> jtrue entry then Inr None
          else
            (case jb64 (jitem ''nonce_b64'' entry) of
               None \<Rightarrow> Inl ''KeyError''
             | Some nonce \<Rightarrow>
                 (case map_of z name of
                    None \<Rightarrow> Inl ''FileNotFoundError''
                  | Some ct \<Rightarrow> (case backup_decrypt ev ct nonce key of None \<Rightarrow> Inl ''InvalidTag'' | Some p \<Rightarrow> Inr (Some p)))))"

definition row_counts :: "(bytes \<Rightarrow> string \<Rightarrow> nat option) \<Rightarrow> bytes \<Rightarrow> (string \<times> nat) list" where
  "row_counts cnt db = List.map_filter (\<lambda>t. map_option (Pair t) (cnt db t)) restore_tables"

definition listed_keys :: "(string \<times> bytes) list \<Rightarrow> string list \<times> nat" where
  "listed_keys files = (map fst files, case map_of files ''cloud_bearer.txt'' of Some b \<Rightarrow> length (strip b) | None \<Rightarrow> 0)"

definition restore_from ::
  "backup_env \<Rightarrow> (bytes \<Rightarrow> string \<Rightarrow> nat option) \<Rightarrow> (bytes \<Rightarrow> (string \<times> bytes) list option) \<Rightarrow> bytes \<Rightarrow> archive \<Rightarrow> json \<Rightarrow> restore_exit" where
  "restore_from ev cnt untar key z files =
     (case open_part ev key z files ''state.sqlite.enc'' of
        Inl e \<Rightarrow> Restore_failed e
      | Inr db \<Rightarrow>
          (case open_part ev key z files ''keys.tar.enc'' of
             Inl e \<Rightarrow> Restore_failed e
           | Inr None \<Rightarrow> Restore_passed (map_option (row_counts cnt) db) None
           | Inr (Some tar) \<Rightarrow>
               (case untar tar of
                  None \<Rightarrow> Restore_failed ''ReadError''
                | Some fs \<Rightarrow> Restore_passed (map_option (row_counts cnt) db) (Some (listed_keys fs)))))"

definition test_restore ::
  "backup_env \<Rightarrow> (bytes \<Rightarrow> string \<Rightarrow> nat option) \<Rightarrow> (bytes \<Rightarrow> (string \<times> bytes) list option) \<Rightarrow> string \<Rightarrow> archive \<Rightarrow> restore_exit" where
  "test_restore ev cnt untar passphrase z =
     (if passphrase = [] then Password_missing
      else
        (case Option.bind (map_of z ''manifest.json'') (json_loads (bk_crypto ev)) of
           None \<Rightarrow> Restore_failed ''manifest''
         | Some m \<Rightarrow>
             (case Option.bind (jitem ''kdf'' m) (\<lambda>kdf. jb64 (jitem ''salt_b64'' kdf)) of
                None \<Rightarrow> Restore_failed ''KeyError''
              | Some salt \<Rightarrow>
                  if \<not> list_all (\<lambda>k. has_key k m) [''version'', ''actor'', ''created_at''] then Restore_failed ''KeyError''
                  else
                    (case jitem ''files'' m of
                       None \<Rightarrow> Restore_failed ''KeyError''
                     | Some files \<Rightarrow> restore_from ev cnt untar (derive_key ev passphrase salt) z files))))"

section \<open>Properties\<close>

lemma part_opens:
  assumes "aead_ok (bk_crypto ev)" "length key = 32" "map_of z n = Some (backup_encrypt ev nonce plain key)"
    and "jget n files = Some (enc_entry ev nonce plain)"
  shows "open_part ev key z files n = Inr (Some plain)"
  using assms
  by (simp add: open_part_def enc_entry_def jitem_def jb64_def b64decode_encode backup_decrypt_def backup_encrypt_def aead_ok_def)

lemma files_item:
  "jitem ''files'' (signed_manifest ev key (manifest_body ev b)) = Some (JObj (manifest_files (signed_manifest ev key (manifest_body ev b))))"
  by (simp add: manifest_files_def signed_manifest_def manifest_body_def jitem_def Let_def split_def)

lemma salt_item:
  "Option.bind (jitem ''kdf'' (signed_manifest ev key (manifest_body ev b))) (\<lambda>kdf. jb64 (jitem ''salt_b64'' kdf)) = Some (bk_salt ev)"
  by (simp add: signed_manifest_def manifest_body_def jitem_def Let_def split_def jb64_def b64decode_encode)

lemma named_items: "list_all (\<lambda>k. has_key k (signed_manifest ev key (manifest_body ev b))) [''version'', ''actor'', ''created_at'']"
  by (simp add: has_key_def signed_manifest_def manifest_body_def jitem_def Let_def split_def)

text \<open>A backup of a database and of keys passes its trial with the passphrase it was made with, and the trial counts the rows
  of the copied database and lists the saved key files.\<close>

theorem backup_passes_its_trial:
  assumes "aead_ok (bk_crypto ev)" "\<And>pw. length (bk_kdf ev (bk_salt ev) pw) = 32" "key = derive_key ev pw (bk_salt ev)" "pw \<noteq> []"
    and "bi_db b = Some (v, copy)" "copy \<noteq> []" "bi_keys_dir b = Some fs"
    and "bk_tar ev (sort_key fst fs) \<noteq> []" "untar (bk_tar ev (sort_key fst fs)) = Some (sort_key fst fs)"
    and "json_loads (bk_crypto ev) (bk_dumps ev (signed_manifest ev key (manifest_body ev b))) = Some (signed_manifest ev key (manifest_body ev b))"
  shows "test_restore ev cnt untar pw (backup_archive ev key b) =
    Restore_passed (Some (row_counts cnt copy)) (Some (listed_keys (sort_key fst fs)))"
proof -
  let ?z = "backup_archive ev key b" and ?m = "signed_manifest ev key (manifest_body ev b)"
  have k: "length key = 32" by (simp add: assms(2,3) derive_key_def)
  have man: "map_of ?z ''manifest.json'' = Some (bk_dumps ev ?m)" by (simp add: backup_archive_def Let_def)
  let ?parts = "backup_parts ev (case bi_db b of None \<Rightarrow> [] | Some (v, copy) \<Rightarrow> copy) (snapshot_keys ev (bi_keys_dir b)) (fst (snapshot_dynamo ev (bi_scan b)))"
  have part: "(''state.sqlite.enc'', bk_nonce ev 0, copy) \<in> set ?parts" "(''keys.tar.enc'', bk_nonce ev 1, bk_tar ev (sort_key fst fs)) \<in> set ?parts"
    by (simp_all add: backup_parts_def assms(5,7) snapshot_keys_def)
  have entry: "jget ''state.sqlite.enc'' (JObj (manifest_files ?m)) = Some (enc_entry ev (bk_nonce ev 0) copy)"
    "jget ''keys.tar.enc'' (JObj (manifest_files ?m)) = Some (enc_entry ev (bk_nonce ev 1) (bk_tar ev (sort_key fst fs)))"
    using assms(5-8) by (simp_all add: files_of_manifest backup_parts_def jget_def snapshot_keys_def)
  have "restore_from ev cnt untar key ?z (JObj (manifest_files ?m)) =
      Restore_passed (Some (row_counts cnt copy)) (Some (listed_keys (sort_key fst fs)))"
    unfolding restore_from_def
      part_opens [OF assms(1) k archive_entry [OF part(1) assms(6)] entry(1)] part_opens [OF assms(1) k archive_entry [OF part(2) assms(8)] entry(2)]
    by (simp add: assms(9))
  then show ?thesis
    using assms(3,4,10) man salt_item [of ev key b] named_items [of ev key b] files_item [of ev key b]
    by (simp add: test_restore_def)
qed

text \<open>The verdict is blind for the rest: neither the rows that can be counted in the database nor any other entry of the
  archive, the cloud table among them, has a part in it.\<close>

theorem trial_is_blind:
  assumes "\<And>n. n \<in> {''manifest.json'', ''state.sqlite.enc'', ''keys.tar.enc''} \<Longrightarrow> map_of z n = map_of z' n"
  shows "(\<exists>c k. test_restore ev cnt untar pw z = Restore_passed c k) \<longleftrightarrow> (\<exists>c k. test_restore ev cnt' untar pw z' = Restore_passed c k)"
proof -
  have p: "open_part ev key z files n = open_part ev key z' files n" if "n \<in> {''state.sqlite.enc'', ''keys.tar.enc''}" for key files n
    unfolding open_part_def using that assms [of n] by (subst assms) auto
  have "(\<exists>c k. restore_from ev cnt untar key z files = Restore_passed c k) \<longleftrightarrow> (\<exists>c k. restore_from ev cnt' untar key z' files = Restore_passed c k)"
    for key files
    using p [of "''state.sqlite.enc''"] p [of "''keys.tar.enc''"] by (simp add: restore_from_def split: sum.split option.split)
  then show ?thesis using assms [of "''manifest.json''"] by (simp add: test_restore_def split: option.split)
qed

end
