(* ===== verification/Handshake_Script.thy ===== *)
theory Handshake_Script
  imports Cloud_Handshake
begin

text \<open>
  The program a party runs once (scripts/_init_handshake.py), the files it leaves, and what the terminal makes of them:
  \<open>KeyBundle.load\<close> (terminal/encryption.py) and \<open>_load_bearer\<close> (terminal/sync_client.py). The requests are arguments; the
  properties instantiate them with the endpoints of the cloud. Printing and file modes are left out.
\<close>

section \<open>The key directory\<close>

record key_dir =
  kd_own_priv :: "bytes option"
  kd_own_pub :: "bytes option"
  kd_peer_pub :: "bytes option"
  kd_bearer :: "string option"
  kd_k_temp :: "bytes option"

text \<open>The keys of a terminal; a key of another length than 32 is refused by the library, another role by the assertion.\<close>

definition load_bundle :: "string \<Rightarrow> key_dir \<Rightarrow> exc + key_bundle" where
  "load_bundle role kd =
     (case (kd_own_priv kd, kd_peer_pub kd) of
        (Some own_priv, Some peer_pub) \<Rightarrow>
          if length own_priv \<noteq> 32 then Inl (ValueError ''The private key must be exactly 32 bytes long'')
          else if length peer_pub \<noteq> 32 then Inl (ValueError ''The public key must be exactly 32 bytes long'')
          else if role \<noteq> ''operator'' \<and> role \<noteq> ''client'' then Inl (RuntimeError ''AssertionError'')
          else Inr \<lparr>kb_role = role, kb_own_priv = own_priv, kb_peer_pub = peer_pub, kb_k_temp = kd_k_temp kd\<rparr>
      | _ \<Rightarrow> Inl (RuntimeError ''keys missing - handshake helper''))"

definition load_bearer :: "string \<Rightarrow> key_dir \<Rightarrow> string" where
  "load_bearer env_bearer kd =
     (if strip env_bearer \<noteq> [] then strip env_bearer
      else (case kd_bearer kd of Some s \<Rightarrow> strip s | None \<Rightarrow> []))"

section \<open>The program\<close>

text \<open>The answer to the registration: no answer raises, a status from 400 on, or the bearer with the fingerprint.\<close>

datatype hello_answer =
    No_answer
  | Refused int
  | Registered string string

datatype script_exit = Exit int | Raised string

text \<open>The key pair: the stored private key, or a fresh one whose two files are written.\<close>

definition own_keypair :: "crypto \<Rightarrow> bytes \<Rightarrow> key_dir \<Rightarrow> key_dir \<times> (script_exit + bytes)" where
  "own_keypair cr fresh kd =
     (case kd_own_priv kd of
        Some b \<Rightarrow> (kd, if length b \<noteq> 32 then Inl (Raised ''ValueError'') else Inr b)
      | None \<Rightarrow> (kd\<lparr>kd_own_priv := Some fresh, kd_own_pub := Some (pub_of cr fresh)\<rparr>, Inr fresh))"

definition peer_of :: "string \<Rightarrow> string" where
  "peer_of role = (if role = ''operator'' then ''client'' else ''operator'')"

text \<open>What was entered at the prompt (\<open>None\<close>: the end of the input) as a key.\<close>

definition pasted_key :: "string \<Rightarrow> bytes option" where
  "pasted_key peer_b64 = (case b64decode peer_b64 of Some b \<Rightarrow> if length b \<noteq> 32 then None else Some b | None \<Rightarrow> None)"

text \<open>The check against the keys of the cloud; it is skipped when they cannot be read.\<close>

definition check_peer :: "string \<Rightarrow> string \<Rightarrow> (string \<times> string) list option \<Rightarrow> script_exit" where
  "check_peer role peer_b64 keys =
     (case keys of
        None \<Rightarrow> Exit 0
      | Some ks \<Rightarrow>
          (case map_of ks (peer_of role) of
             Some k \<Rightarrow> if k = peer_b64 then Exit 0 else Exit 3
           | None \<Rightarrow> Exit 0))"

text \<open>The whole run: \<open>post\<close> is the registration, \<open>meanwhile\<close> what happens at the cloud until something is pasted, \<open>keys\<close> the
  answer of GET /pubkeys.\<close>

definition handshake_main ::
  "crypto \<Rightarrow> string \<Rightarrow> bytes \<Rightarrow> (handshake_in \<Rightarrow> 'c \<Rightarrow> 'c \<times> hello_answer) \<Rightarrow> ('c \<Rightarrow> 'c) \<Rightarrow> string option \<Rightarrow>
    ('c \<Rightarrow> (string \<times> string) list option) \<Rightarrow> key_dir \<times> 'c \<Rightarrow> (key_dir \<times> 'c) \<times> script_exit" where
  "handshake_main cr role fresh post meanwhile paste keys st =
     (case st of (kd, c) \<Rightarrow>
        (case own_keypair cr fresh kd of
           (kd1, Inl e) \<Rightarrow> ((kd1, c), e)
         | (kd1, Inr priv) \<Rightarrow>
             (case post \<lparr>hi_role = role, hi_kem_pub = b64encode (pub_of cr priv)\<rparr> c of
                (c1, No_answer) \<Rightarrow> ((kd1, c1), Raised ''httpx'')
              | (c1, Refused n) \<Rightarrow> ((kd1, c1), Exit 1)
              | (c1, Registered bearer fingerprint) \<Rightarrow>
                  (let kd2 = kd1\<lparr>kd_bearer := Some bearer\<rparr>; c2 = meanwhile c1 in
                   case paste of
                     None \<Rightarrow> ((kd2, c2), Raised ''EOFError'')
                   | Some line \<Rightarrow>
                       (case pasted_key (strip line) of
                          None \<Rightarrow> ((kd2, c2), Exit 2)
                        | Some peer \<Rightarrow> ((kd2\<lparr>kd_peer_pub := Some peer\<rparr>, c2), check_peer role (strip line) (keys c2)))))))"

section \<open>Against the endpoints of the cloud\<close>

definition cloud_hello :: "crypto \<Rightarrow> int \<Rightarrow> string \<Rightarrow> string \<Rightarrow> string option \<Rightarrow> handshake_in \<Rightarrow> table \<Rightarrow> table \<times> hello_answer" where
  "cloud_hello cr now boot bearer x_token body t =
     (case init_handshake cr now boot bearer body x_token t of
        (t', Inr out) \<Rightarrow> (t', Registered (ho_bearer out) (ho_fingerprint out))
      | (t', Inl (HTTPException n detail)) \<Rightarrow> (t', Refused n)
      | (t', Inl e) \<Rightarrow> (t', Refused 500))"

definition cloud_keys :: "table \<Rightarrow> (string \<times> string) list option" where
  "cloud_keys t = (case get_pubkeys t of Inr ks \<Rightarrow> Some ks | Inl e \<Rightarrow> None)"

lemma hello_registered:
  assumes "cloud_hello cr now boot bearer tok body t = (t', Registered b f)"
  obtains out where "init_handshake cr now boot bearer body tok t = (t', Inr out)" "b = bearer"
  using assms init_handshake_ok(3) [of cr now boot bearer body tok t t']
  by (auto simp: cloud_hello_def split: prod.splits sum.splits exc.splits)

lemma hello_key:
  assumes "cloud_hello cr now boot bearer tok \<lparr>hi_role = r, hi_kem_pub = b64encode k\<rparr> t = (t', Registered b f)"
  shows "length k = 32" "get_pubkey t' r = Some (Some k)" "party r" "b = bearer"
    "t' = put_session now (sha256_hex cr bearer) r (put_pubkey now r k t)"
proof -
  obtain out where i: "init_handshake cr now boot bearer \<lparr>hi_role = r, hi_kem_pub = b64encode k\<rparr> tok t = (t', Inr out)" "b = bearer"
    using hello_registered [OF assms] by blast
  show "length k = 32" "b = bearer" "party r" using i by (auto simp: init_handshake_def b64decode_encode split: if_splits)
  show t': "t' = put_session now (sha256_hex cr bearer) r (put_pubkey now r k t)"
    using i by (auto simp: init_handshake_def b64decode_encode split: if_splits option.splits)
  show "get_pubkey t' r = Some (Some k)"
    by (simp add: t' get_pubkey_def put_session_def put_pubkey_def get_put bytes_attr_def)
qed

lemma key_is_listed:
  assumes "get_pubkeys t = Inr ks" "party r" "get_pubkey t r = Some (Some k)"
  shows "map_of ks r = Some (b64encode k)"
  using assms by (auto simp: get_pubkeys_def get_all_pubkeys_def party_def split: Option.bind_splits option.splits)

text \<open>A run that went through: what it wrote.\<close>

lemma own_keypair_ok:
  "own_keypair cr fresh kd = (kd1, Inr priv) \<Longrightarrow> length fresh = 32 \<Longrightarrow>
    kd_own_priv kd1 = Some priv \<and> length priv = 32 \<and> kd_k_temp kd1 = kd_k_temp kd"
  by (auto simp: own_keypair_def split: option.splits if_splits)

lemma run_ended:
  assumes run: "handshake_main cr role fresh (cloud_hello cr now boot bearer tok) meanwhile paste cloud_keys (kd, t) = ((kd', t'), Exit n)"
    and "n \<noteq> 1" "n \<noteq> 2" "length fresh = 32"
  obtains priv peer line t1 where "kd_own_priv kd' = Some priv" "length priv = 32" "kd_bearer kd' = Some bearer" "kd_peer_pub kd' = Some peer"
    "paste = Some line" "b64decode (strip line) = Some peer" "length peer = 32" "party role"
    "t1 = put_session now (sha256_hex cr bearer) role (put_pubkey now role (pub_of cr priv) t)" "t' = meanwhile t1"
    "kd_k_temp kd' = kd_k_temp kd" "check_peer role (strip line) (cloud_keys t') = Exit n"
proof -
  obtain kd1 k where k: "own_keypair cr fresh kd = (kd1, k)" by (cases "own_keypair cr fresh kd")
  then obtain priv where priv: "k = Inr priv"
    using run by (cases k) (auto simp: handshake_main_def own_keypair_def split: option.splits if_splits)
  note own = own_keypair_ok [OF k [unfolded priv] assms(4)]
  obtain t1 a where p: "cloud_hello cr now boot bearer tok \<lparr>hi_role = role, hi_kem_pub = b64encode (pub_of cr priv)\<rparr> t = (t1, a)"
    by (cases "cloud_hello cr now boot bearer tok \<lparr>hi_role = role, hi_kem_pub = b64encode (pub_of cr priv)\<rparr> t")
  note step = run [unfolded handshake_main_def, simplified, unfolded k priv, simplified, unfolded p]
  obtain b f where a: "a = Registered b f" using step assms(2) by (cases a) simp_all
  note h = hello_key [OF p [unfolded a]]
  obtain line where line: "paste = Some line" using step by (cases paste) (simp_all add: a)
  obtain peer where peer: "pasted_key (strip line) = Some peer"
    using step assms(3) by (cases "pasted_key (strip line)") (simp_all add: a line)
  have st: "kd' = kd1\<lparr>kd_bearer := Some b, kd_peer_pub := Some peer\<rparr>" "t' = meanwhile t1" "check_peer role (strip line) (cloud_keys t') = Exit n"
    using step by (simp_all add: a line peer Let_def) metis
  show thesis
    using that [of priv peer line t1] own h st line peer by (simp add: pasted_key_def split: option.splits if_splits)
qed

section \<open>Properties\<close>

text \<open>After a run that ended well the terminal has its keys, the cloud has the public key of its private key under its role,
  the stored bearer is accepted as that role, and the pasted key is the one the cloud has of the other party, if it
  has one by then: the party that comes first gets no check of what it pasted.\<close>

theorem handshake_leaves_a_terminal:
  assumes "handshake_main cr role fresh (cloud_hello cr now boot bearer tok) meanwhile paste cloud_keys (kd, t) = ((kd', t'), Exit 0)"
    and "length fresh = 32" "\<forall>c\<in>set bearer. \<not> is_space c"
  shows "\<exists>priv peer t1. load_bundle role kd' = Inr \<lparr>kb_role = role, kb_own_priv = priv, kb_peer_pub = peer, kb_k_temp = kd_k_temp kd\<rparr> \<and>
    t' = meanwhile t1 \<and> get_pubkey t1 role = Some (Some (pub_of cr priv)) \<and>
    snd (require_bearer cr later (Some (''Bearer '' @ load_bearer [] kd')) t1) = Inr role \<and>
    (\<forall>k ks. get_pubkey t' (peer_of role) = Some (Some k) \<and> get_pubkeys t' = Inr ks \<longrightarrow> peer = k)"
proof -
  obtain priv peer line t1 where f: "kd_own_priv kd' = Some priv" "length priv = 32" "kd_bearer kd' = Some bearer" "kd_peer_pub kd' = Some peer"
    "paste = Some line" "b64decode (strip line) = Some peer" "length peer = 32" "party role"
    "t1 = put_session now (sha256_hex cr bearer) role (put_pubkey now role (pub_of cr priv) t)" "t' = meanwhile t1"
    "kd_k_temp kd' = kd_k_temp kd" "check_peer role (strip line) (cloud_keys t') = Exit 0"
    by (rule run_ended [OF assms(1) _ _ assms(2)]) simp_all
  have b: "load_bearer [] kd' = bearer" using assms(3) f(3) by (simp add: load_bearer_def strip_no_space)
  have "snd (require_bearer cr later (Some (''Bearer '' @ bearer)) t1) = Inr role"
    unfolding require_bearer_def bearer_of_header [OF assms(3)] f(9) by (simp add: get_new_session truthy_def)
  moreover have "get_pubkey t1 role = Some (Some (pub_of cr priv))"
    by (simp add: f(9) get_pubkey_def put_session_def put_pubkey_def get_put bytes_attr_def)
  moreover have "peer = k" if "get_pubkey t' (peer_of role) = Some (Some k)" "get_pubkeys t' = Inr ks" for k ks
  proof -
    have "party (peer_of role)" by (simp add: peer_of_def party_def)
    from key_is_listed [OF that(2) this that(1)] f(12) have "b64encode k = strip line"
      by (auto simp: check_peer_def cloud_keys_def that(2) split: if_splits)
    with f(6) show ?thesis by (metis b64decode_encode option.inject)
  qed
  ultimately show ?thesis
    using f(1,2,4,7,8,10,11) b by (intro exI [of _ priv] exI [of _ peer] exI [of _ t1]) (simp add: load_bundle_def party_def)
qed

text \<open>C38: Two parties that both ended well, each with the key of the other registered when its paste was checked, read what
  the other one encrypts.\<close>

theorem handshake_joins_parties:
  assumes lib: "aead_ok cr" "sealed_ok cr" "length (br_key r) = 32" "length fo = 32" "length fc = 32"
    and op: "handshake_main cr ''operator'' fo (cloud_hello cr no boot bo to) mo pso cloud_keys (kdo, to1) = ((kdo', t1), Exit 0)"
    and cl: "handshake_main cr ''client'' fc (cloud_hello cr nc boot bc tc) mc psc cloud_keys (kdc, tc1) = ((kdc', t2), Exit 0)"
    and keys: "kd_own_priv kdo' = Some privo" "kd_own_priv kdc' = Some privc"
      "get_pubkey t1 ''client'' = Some (Some (pub_of cr privc))" "get_pubkey t2 ''operator'' = Some (Some (pub_of cr privo))"
      "get_pubkeys t1 = Inr ks1" "get_pubkeys t2 = Inr ks2"
    and json: "json_round cr (both_envelope cr r p (pub_of cr privo) (pub_of cr privc))"
  shows "\<exists>ko kc. load_bundle ''operator'' kdo' = Inr ko \<and> load_bundle ''client'' kdc' = Inr kc \<and>
    decrypt_for_both cr (terminal_encrypt_for_both cr r p ko) kc = Inr p \<and>
    decrypt_for_both cr (terminal_encrypt_for_both cr r p kc) ko = Inr p"
proof -
  obtain po lo where o: "kd_own_priv kdo' = Some privo" "length privo = 32" "kd_peer_pub kdo' = Some po" "length po = 32"
      "b64decode (strip lo) = Some po" "check_peer ''operator'' (strip lo) (cloud_keys t1) = Exit 0" "kd_k_temp kdo' = kd_k_temp kdo"
    by (rule run_ended [OF op _ _ lib(4)]) (use keys(1) in auto)
  obtain pc lc where c: "kd_own_priv kdc' = Some privc" "length privc = 32" "kd_peer_pub kdc' = Some pc" "length pc = 32"
      "b64decode (strip lc) = Some pc" "check_peer ''client'' (strip lc) (cloud_keys t2) = Exit 0" "kd_k_temp kdc' = kd_k_temp kdc"
    by (rule run_ended [OF cl _ _ lib(5)]) (use keys(2) in auto)
  have p: "party ''client''" "party ''operator''" by (simp_all add: party_def)
  have "b64encode (pub_of cr privc) = strip lo" "b64encode (pub_of cr privo) = strip lc"
    using o(6) c(6) key_is_listed [OF keys(5) p(1) keys(3)] key_is_listed [OF keys(6) p(2) keys(4)]
    by (auto simp: check_peer_def cloud_keys_def keys(5,6) peer_of_def split: if_splits)
  with o(5) c(5) have peers: "po = pub_of cr privc" "pc = pub_of cr privo" by (metis b64decode_encode option.inject)+
  let ?ko = "\<lparr>kb_role = ''operator'', kb_own_priv = privo, kb_peer_pub = po, kb_k_temp = kd_k_temp kdo'\<rparr>"
  let ?kc = "\<lparr>kb_role = ''client'', kb_own_priv = privc, kb_peer_pub = pc, kb_k_temp = kd_k_temp kdc'\<rparr>"
  note both = both_parties_decrypt [OF lib(1,2,3) refl [of "(pub_of cr privo, pub_of cr privc)"], of p]
  have "decrypt_for_both cr (terminal_encrypt_for_both cr r p ?ko) ?kc = Inr p" "decrypt_for_both cr (terminal_encrypt_for_both cr r p ?kc) ?ko = Inr p"
    using both [of ?ko] both [of ?kc] json peers by simp_all
  then show ?thesis using o c by (intro exI [of _ ?ko] exI [of _ ?kc]) (simp add: load_bundle_def)
qed

text \<open>The program cannot be repeated after a slip: once the role is registered, a further run ends with code 1 before the
  prompt, whatever was pasted the first time, and leaves directory and cloud as they are.\<close>

theorem handshake_runs_once:
  assumes "handshake_main cr role fresh (cloud_hello cr now boot bearer tok) meanwhile paste cloud_keys (kd, t) = ((kd', t'), Exit n)"
    and "n \<noteq> 1" "length fresh = 32" "get_pubkey t2 role = Some (Some k)" "\<And>b. length b = 32 \<Longrightarrow> length (pub_of cr b) = 32"
  shows "handshake_main cr role fresh2 (cloud_hello cr now2 boot bearer2 tok2) meanwhile2 paste2 cloud_keys (kd', t2) = ((kd', t2), Exit 1)"
proof -
  obtain kd1 x where x: "own_keypair cr fresh kd = (kd1, x)" by (cases "own_keypair cr fresh kd")
  then obtain priv where priv: "x = Inr priv"
    using assms(1) by (cases x) (auto simp: handshake_main_def own_keypair_def split: option.splits if_splits)
  note own = own_keypair_ok [OF x [unfolded priv] assms(3)]
  have "kd_own_priv kd' = kd_own_priv kd1"
    using assms(1,2) by (auto simp: handshake_main_def x priv Let_def split: prod.splits hello_answer.splits option.splits)
  with own have "own_keypair cr fresh2 kd' = (kd', Inr priv)" by (simp add: own_keypair_def)
  moreover have "\<exists>m. cloud_hello cr now2 boot bearer2 tok2 \<lparr>hi_role = role, hi_kem_pub = b64encode (pub_of cr priv)\<rparr> t2 = (t2, Refused m)"
    using assms(4,5) own by (auto simp: cloud_hello_def init_handshake_def b64decode_encode)
  ultimately show ?thesis by (auto simp: handshake_main_def)
qed

text \<open>The key that failed the comparison is used all the same: after code 3 the terminal has the pasted key as the key of
  the other party, not the one of the cloud.\<close>

theorem mismatched_key_is_kept:
  assumes "handshake_main cr role fresh (cloud_hello cr now boot bearer tok) meanwhile paste cloud_keys (kd, t) = ((kd', t'), Exit 3)"
    and "length fresh = 32"
  shows "\<exists>kb k line ks. load_bundle role kd' = Inr kb \<and> paste = Some line \<and> b64decode (strip line) = Some (kb_peer_pub kb) \<and>
    cloud_keys t' = Some ks \<and> map_of ks (peer_of role) = Some k \<and> k \<noteq> strip line"
proof -
  obtain priv peer line where f: "kd_own_priv kd' = Some priv" "length priv = 32" "kd_peer_pub kd' = Some peer"
    "paste = Some line" "b64decode (strip line) = Some peer" "length peer = 32" "party role"
    "check_peer role (strip line) (cloud_keys t') = Exit 3"
    by (rule run_ended [OF assms(1) _ _ assms(2)]) simp_all
  moreover from f(8) obtain ks k where "cloud_keys t' = Some ks" "map_of ks (peer_of role) = Some k" "k \<noteq> strip line"
    by (auto simp: check_peer_def split: option.splits if_splits)
  ultimately show ?thesis
    by (intro exI [of _ "\<lparr>kb_role = role, kb_own_priv = priv, kb_peer_pub = peer, kb_k_temp = kd_k_temp kd'\<rparr>"] exI [of _ k] exI [of _ line] exI [of _ ks])
       (auto simp: load_bundle_def party_def)
qed

section \<open>Witnesses\<close>

definition demo_rand :: both_rand where
  "demo_rand = \<lparr>br_key = replicate 32 CHR ''k'', br_nonce = ''n'', br_op = ''1'', br_cl = ''2''\<rparr>"

abbreviation op_key :: bytes where "op_key \<equiv> replicate 32 CHR ''o''"
abbreviation cl_key :: bytes where "cl_key \<equiv> replicate 32 CHR ''c''"

definition script_crypto :: crypto where
  "script_crypto = plain_crypto (both_envelope (plain_crypto JNull) demo_rand ''note'' op_key cl_key)"

definition no_keys :: key_dir where
  "no_keys = \<lparr>kd_own_priv = None, kd_own_pub = None, kd_peer_pub = None, kd_bearer = None, kd_k_temp = None\<rparr>"

definition op_registered :: table where
  "op_registered = put_session 5 ''00'' ''operator'' (put_pubkey 5 ''operator'' op_key [])"

definition both_registered :: table where
  "both_registered = put_session 6 ''00'' ''client'' (put_pubkey 6 ''client'' cl_key op_registered)"

lemma registered_keys:
  "get_pubkey both_registered ''client'' = Some (Some cl_key)" "get_pubkey both_registered ''operator'' = Some (Some op_key)"
  by (simp_all add: both_registered_def op_registered_def get_pubkey_def put_session_def put_pubkey_def get_put bytes_attr_def)

lemma registered_list: "get_pubkeys both_registered = Inr [(''operator'', b64encode op_key), (''client'', b64encode cl_key)]"
  by (simp add: get_pubkeys_def get_all_pubkeys_def registered_keys)

lemma not_registered: "get_pubkey [] ''operator'' = Some None" "get_pubkey op_registered ''client'' = Some None"
  by (simp_all add: op_registered_def get_pubkey_def put_session_def put_pubkey_def get_put) (simp_all add: get_item_def)

lemma demo_digest: "sha256_hex script_crypto b = ''00''"
  by (simp add: script_crypto_def plain_crypto_def)

lemma op_hello: "cloud_hello script_crypto 5 ''boot'' ''tok'' (Some ''boot'') \<lparr>hi_role = ''operator'', hi_kem_pub = b64encode op_key\<rparr> [] =
    (op_registered, Registered ''tok'' ''00'')"
  by (simp add: cloud_hello_def init_handshake_def b64decode_encode verify_bootstrap_def opt_or_def py_or_def party_def
      not_registered demo_digest op_registered_def [symmetric])

lemma cl_hello: "cloud_hello script_crypto 6 ''boot'' ''kot'' (Some ''boot'') \<lparr>hi_role = ''client'', hi_kem_pub = b64encode cl_key\<rparr> op_registered =
    (both_registered, Registered ''kot'' ''00'')"
  by (simp add: cloud_hello_def init_handshake_def b64decode_encode verify_bootstrap_def opt_or_def py_or_def party_def
      not_registered demo_digest both_registered_def [symmetric])

lemma key_texts: "strip (b64encode op_key) = b64encode op_key" "strip (b64encode cl_key) = b64encode cl_key"
  by code_simp+

lemma pub_plain: "pub_of script_crypto k = k"
  by (simp add: script_crypto_def plain_crypto_def)

lemma op_run:
  "\<exists>kd. handshake_main script_crypto ''operator'' op_key (cloud_hello script_crypto 5 ''boot'' ''tok'' (Some ''boot''))
     (fst \<circ> cloud_hello script_crypto 6 ''boot'' ''kot'' (Some ''boot'') \<lparr>hi_role = ''client'', hi_kem_pub = b64encode cl_key\<rparr>)
     (Some (b64encode cl_key)) cloud_keys (no_keys, []) = ((kd, both_registered), Exit 0) \<and> kd_own_priv kd = Some op_key"
  by (simp add: handshake_main_def own_keypair_def no_keys_def pub_plain op_hello cl_hello key_texts pasted_key_def b64decode_encode
      check_peer_def cloud_keys_def registered_list peer_of_def)

lemma cl_run:
  "\<exists>kd. handshake_main script_crypto ''client'' cl_key (cloud_hello script_crypto 6 ''boot'' ''kot'' (Some ''boot'')) id
     (Some (b64encode op_key)) cloud_keys (no_keys, op_registered) = ((kd, both_registered), Exit 0) \<and> kd_own_priv kd = Some cl_key"
  by (simp add: handshake_main_def own_keypair_def no_keys_def pub_plain cl_hello key_texts pasted_key_def b64decode_encode
      check_peer_def cloud_keys_def registered_list peer_of_def)

theorem handshake_joins_parties_witness:
  "\<exists>kdo kdc ko kc. fst (fst (handshake_main script_crypto ''client'' cl_key (cloud_hello script_crypto 6 ''boot'' ''kot'' (Some ''boot'')) id
       (Some (b64encode op_key)) cloud_keys (no_keys, op_registered))) = kdc \<and>
     load_bundle ''operator'' kdo = Inr ko \<and> load_bundle ''client'' kdc = Inr kc \<and>
     decrypt_for_both script_crypto (terminal_encrypt_for_both script_crypto demo_rand ''note'' ko) kc = Inr ''note'' \<and>
     decrypt_for_both script_crypto (terminal_encrypt_for_both script_crypto demo_rand ''note'' kc) ko = Inr ''note''"
proof -
  obtain kdo where o: "handshake_main script_crypto ''operator'' op_key (cloud_hello script_crypto 5 ''boot'' ''tok'' (Some ''boot''))
     (fst \<circ> cloud_hello script_crypto 6 ''boot'' ''kot'' (Some ''boot'') \<lparr>hi_role = ''client'', hi_kem_pub = b64encode cl_key\<rparr>)
     (Some (b64encode cl_key)) cloud_keys (no_keys, []) = ((kdo, both_registered), Exit 0)" "kd_own_priv kdo = Some op_key"
    using op_run by blast
  obtain kdc where c: "handshake_main script_crypto ''client'' cl_key (cloud_hello script_crypto 6 ''boot'' ''kot'' (Some ''boot'')) id
     (Some (b64encode op_key)) cloud_keys (no_keys, op_registered) = ((kdc, both_registered), Exit 0)" "kd_own_priv kdc = Some cl_key"
    using cl_run by blast
  have ok: "aead_ok script_crypto" "sealed_ok script_crypto" by (simp_all add: script_crypto_def plain_crypto_ok)
  have j: "json_round script_crypto (both_envelope script_crypto demo_rand ''note'' (pub_of script_crypto op_key) (pub_of script_crypto cl_key))"
    unfolding pub_plain by (simp add: json_round_def script_crypto_def) (simp add: plain_crypto_def both_envelope_def)
  have "length (br_key demo_rand) = 32" by (simp add: demo_rand_def)
  from handshake_joins_parties [OF ok this _ _ o(1) c(1) o(2) c(2) _ _ registered_list registered_list j] c(1)
  show ?thesis by (auto simp: pub_plain registered_keys)
qed

end
