(* ===== verification/Sync_Loops.thy ===== *)
theory Sync_Loops
  imports Terminal_Outcomes Handshake_Script
begin

text \<open>
  The loops around the rounds of terminal/sync_client.py: when a loop ends, how long it sleeps before the next round, and
  which keys it works with. A run is the list of what its rounds meet; the list ends when the loop is told to stop.
  Times are seconds.
\<close>

section \<open>Pauses\<close>

text \<open>How a round went. A round that is over before its \<open>try\<close> is entered ends the loop.\<close>

datatype attempt = Loop_over | Refused_401 | Attempt_failed | Attempt_done

text \<open>The pause after a round and the next backoff.\<close>

definition pull_pause :: "nat \<Rightarrow> nat \<Rightarrow> attempt \<Rightarrow> nat \<times> nat" where
  "pull_pause poll backoff a =
     (case a of
        Loop_over \<Rightarrow> (0, backoff)
      | Refused_401 \<Rightarrow> (30, backoff)
      | Attempt_failed \<Rightarrow> (backoff + poll, min (backoff * 2) 60)
      | Attempt_done \<Rightarrow> (poll, 1))"

definition push_pause :: "nat \<Rightarrow> attempt \<Rightarrow> nat" where
  "push_pause interval a = (if a = Attempt_failed then 5 + interval else interval)"

text \<open>The two other loops share their figures.\<close>

definition slow_pause :: "nat \<Rightarrow> nat \<Rightarrow> attempt \<Rightarrow> nat \<times> nat" where
  "slow_pause interval backoff a =
     (case a of
        Loop_over \<Rightarrow> (0, backoff)
      | Refused_401 \<Rightarrow> (interval, backoff)
      | Attempt_failed \<Rightarrow> (backoff + interval, min (backoff * 2) 120)
      | Attempt_done \<Rightarrow> (interval, 5))"

section \<open>The pull loop\<close>

definition not_ready :: "exc \<Rightarrow> bool" where
  "not_ready e \<longleftrightarrow> e = RuntimeError ''keys missing - handshake helper''"

text \<open>The loop starts with keys or without, but not with keys that cannot be loaded.\<close>

definition pull_starts :: "string \<Rightarrow> key_dir \<Rightarrow> bool" where
  "pull_starts role kd = (case load_bundle role kd of Inr kb \<Rightarrow> True | Inl e \<Rightarrow> not_ready e)"

text \<open>The cursors are read before the \<open>try\<close>.\<close>

definition pull_attempt :: "int \<Rightarrow> (int \<Rightarrow> string \<Rightarrow> exc + pulled) \<Rightarrow> vault \<Rightarrow> vault \<times> attempt" where
  "pull_attempt now cloud v =
     (case get_cursor v of
        None \<Rightarrow> (v, Loop_over)
      | Some since \<Rightarrow>
          (case cloud since (get_unsub_cursor v) of
             Inl e \<Rightarrow> (v, if is_401 e then Refused_401 else Attempt_failed)
           | Inr p \<Rightarrow>
               (case pull_apply now p v of
                  (v1, Inl e) \<Rightarrow> (v1, Attempt_failed)
                | (v1, Inr _) \<Rightarrow> (v1, Attempt_done))))"

text \<open>The pauses of a run and whether the loop is still running at its end.\<close>

fun pull_run :: "nat \<Rightarrow> (int \<times> (int \<Rightarrow> string \<Rightarrow> exc + pulled)) list \<Rightarrow> nat \<Rightarrow> vault \<Rightarrow> vault \<times> nat list \<times> bool" where
  "pull_run poll [] backoff v = (v, [], True)"
| "pull_run poll ((now, cloud) # trace) backoff v =
     (case pull_attempt now cloud v of
        (v1, a) \<Rightarrow>
          if a = Loop_over then (v1, [], False)
          else
            (case pull_pause poll backoff a of
               (p, backoff1) \<Rightarrow>
                 (case pull_run poll trace backoff1 v1 of (v2, ps, alive) \<Rightarrow> (v2, p # ps, alive))))"

definition pull_loop ::
  "nat \<Rightarrow> string \<Rightarrow> key_dir \<Rightarrow> (int \<times> (int \<Rightarrow> string \<Rightarrow> exc + pulled)) list \<Rightarrow> vault \<Rightarrow> vault \<times> nat list \<times> bool" where
  "pull_loop poll role kd trace v = (if pull_starts role kd then pull_run poll trace 1 v else (v, [], False))"

section \<open>The materialiser loop\<close>

text \<open>One round: the keys are loaded once and kept. Any error of the load but missing keys is a failed round.\<close>

definition materialiser_step :: "crypto \<Rightarrow> string \<Rightarrow> int \<Rightarrow> key_dir \<Rightarrow> vault \<times> key_bundle option \<Rightarrow> (vault \<times> key_bundle option) \<times> attempt" where
  "materialiser_step cr role now kd st =
     (case st of (v, kb) \<Rightarrow>
        (case (case kb of Some k \<Rightarrow> Inr k | None \<Rightarrow> load_bundle role kd) of
           Inr k \<Rightarrow> ((materialiser_round cr (Some k) now v, Some k), Attempt_done)
         | Inl e \<Rightarrow> ((materialiser_round cr None now v, None), if not_ready e then Refused_401 else Attempt_failed)))"

fun materialiser_run ::
  "crypto \<Rightarrow> string \<Rightarrow> nat \<Rightarrow> (int \<times> key_dir) list \<Rightarrow> nat \<Rightarrow> vault \<times> key_bundle option \<Rightarrow> (vault \<times> key_bundle option) \<times> nat list" where
  "materialiser_run cr role interval [] backoff st = (st, [])"
| "materialiser_run cr role interval ((now, kd) # trace) backoff st =
     (case materialiser_step cr role now kd st of
        (st1, a) \<Rightarrow>
          (case slow_pause interval backoff a of
             (p, backoff1) \<Rightarrow> (case materialiser_run cr role interval trace backoff1 st1 of (st2, ps) \<Rightarrow> (st2, p # ps))))"

section \<open>Properties\<close>

lemma pull_attempt_round: "fst (pull_attempt now cloud v) = fst (pull_round now cloud v)"
  by (simp add: pull_attempt_def pull_round_def split: option.split sum.split prod.split)

lemma apply_events_cursor: "get_cursor (fst (apply_events now es v)) = get_cursor v"
  by (induction now es v rule: apply_events.induct)
     (auto simp: apply_event_def get_cursor_def state_value_def split: prod.split sum.split option.splits if_splits)

lemma pull_apply_cursor:
  assumes "get_cursor v \<noteq> None" "0 \<le> pu_max_event_id p"
  shows "get_cursor (fst (pull_apply now p v)) \<noteq> None"
proof -
  obtain v1 r where a: "apply_events now (pu_events p) v = (v1, r)" by (cases "apply_events now (pu_events p) v")
  then have "get_cursor v1 \<noteq> None" using apply_events_cursor [of now "pu_events p" v] assms(1) by simp
  then show ?thesis using assms by (cases r) (simp_all add: pull_apply_def a Let_def)
qed

lemma cursor_kept:
  assumes "get_cursor v \<noteq> None" "\<And>s u p. cloud s u = Inr p \<Longrightarrow> 0 \<le> pu_max_event_id p"
  shows "get_cursor (fst (pull_attempt now cloud v)) \<noteq> None" "snd (pull_attempt now cloud v) \<noteq> Loop_over"
proof -
  obtain c where c: "get_cursor v = Some c" using assms(1) by blast
  show "snd (pull_attempt now cloud v) \<noteq> Loop_over"
    by (auto simp: pull_attempt_def c split: sum.split prod.split)
  show "get_cursor (fst (pull_attempt now cloud v)) \<noteq> None"
    unfolding pull_attempt_round pull_round_def using c assms(2) pull_apply_cursor [OF assms(1)]
    by (auto split: sum.split)
qed

text \<open>A loop with a readable cursor never ends by itself, whatever the cloud answers, and no pause is longer than the larger of
  half a minute and the cap of the backoff plus the interval.\<close>

theorem pull_loop_goes_on:
  assumes "get_cursor v \<noteq> None" "pull_starts role kd" "\<forall>(now, cloud) \<in> set trace. \<forall>s u p. cloud s u = Inr p \<longrightarrow> 0 \<le> pu_max_event_id p"
  shows "\<exists>v' ps. pull_loop poll role kd trace v = (v', ps, True) \<and> length ps = length trace \<and> (\<forall>p\<in>set ps. p \<le> max 30 (60 + poll))"
proof -
  have "\<exists>v' ps. pull_run poll trace b v = (v', ps, True) \<and> length ps = length trace \<and> (\<forall>p\<in>set ps. p \<le> max 30 (60 + poll))"
    if "b \<le> 60" for b
    using assms(1,3) that
  proof (induction trace arbitrary: b v)
    case (Cons r trace)
    obtain now cloud where r: "r = (now, cloud)" by (cases r)
    obtain v1 a where a: "pull_attempt now cloud v = (v1, a)" by (cases "pull_attempt now cloud v")
    have k: "get_cursor v1 \<noteq> None" "a \<noteq> Loop_over"
      using cursor_kept [of v cloud now] Cons.prems(1,2) a by (auto simp: r)
    obtain p b1 where p: "pull_pause poll b a = (p, b1)" by (cases "pull_pause poll b a")
    have "p \<le> max 30 (60 + poll)" "b1 \<le> 60" using p k(2) Cons.prems(3) by (auto simp: pull_pause_def split: attempt.splits)
    then show ?case using Cons.IH [OF k(1), of b1] Cons.prems(2) k(2) by (auto simp: r a p)
  qed simp
  then show ?thesis using assms(2) by (simp add: pull_loop_def)
qed

text \<open>While requests fail the pauses double up to a minute, and a round that succeeds starts over.\<close>

theorem backoff_doubles:
  assumes "\<forall>(now, cloud) \<in> set trace. \<forall>s u. \<exists>e. cloud s u = Inl e \<and> \<not> is_401 e" "get_cursor v \<noteq> None"
  shows "pull_run poll trace 1 v = (v, map (\<lambda>k. min (2 ^ k) 60 + poll) [0..<length trace], True) \<and> snd (pull_pause poll b Attempt_done) = 1"
proof -
  have "pull_run poll trace (min (2 ^ n) 60) v = (v, map (\<lambda>k. min (2 ^ k) 60 + poll) [n..<n + length trace], True)" for n
    using assms(1)
  proof (induction trace arbitrary: n)
    case (Cons r trace)
    obtain now cloud where r: "r = (now, cloud)" by (cases r)
    obtain c where c: "get_cursor v = Some c" using assms(2) by blast
    then obtain e where "cloud c (get_unsub_cursor v) = Inl e" "\<not> is_401 e" using Cons.prems by (auto simp: r) metis
    then have a: "pull_attempt now cloud v = (v, Attempt_failed)" by (simp add: pull_attempt_def c)
    have "pull_pause poll (min (2 ^ n) 60) Attempt_failed = (min (2 ^ n) 60 + poll, min (2 ^ Suc n) 60)"
      by (simp add: pull_pause_def min_def)
    moreover have "[n..<n + length (r # trace)] = n # [Suc n..<Suc n + length trace]" by (subst upt_conv_Cons) simp_all
    ultimately show ?case using Cons.IH [of "Suc n"] Cons.prems by (simp add: r a)
  qed simp
  from this [of 0] show ?thesis by (simp add: pull_pause_def)
qed

definition bad_keys :: "key_dir \<Rightarrow> bool" where
  "bad_keys kd \<longleftrightarrow> (\<exists>k p. kd_own_priv kd = Some k \<and> kd_peer_pub kd = Some p \<and> (length k \<noteq> 32 \<or> length p \<noteq> 32))"

text \<open>An unreadable cursor, and a key file of a wrong length, end the loop before its first request, at every start again;
  the materialiser with such a key file goes on trying.\<close>

theorem pull_loop_ends_early:
  assumes "get_cursor v = None \<and> trace \<noteq> [] \<or> bad_keys kd"
  shows "pull_loop poll role kd trace v = (v, [], False)"
proof (cases "bad_keys kd")
  case True
  then have "\<not> pull_starts role kd" by (auto simp: bad_keys_def pull_starts_def load_bundle_def not_ready_def split: if_splits)
  then show ?thesis by (simp add: pull_loop_def)
next
  case False
  then obtain now cloud rest where "trace = (now, cloud) # rest" "get_cursor v = None" using assms by (cases trace) auto
  then show ?thesis by (simp add: pull_loop_def pull_attempt_def)
qed

theorem materialiser_retries_bad_keys: "bad_keys kd \<Longrightarrow> snd (materialiser_step cr role now kd (v, None)) = Attempt_failed"
  by (auto simp: bad_keys_def materialiser_step_def load_bundle_def not_ready_def)

text \<open>The materialiser keeps the keys of its first success: a key that is exchanged on disk is not used before a restart.\<close>

theorem materialiser_keeps_its_keys:
  "fst (materialiser_run cr role interval trace b (v, Some k)) = (fold (\<lambda>(now, kd). materialiser_round cr (Some k) now) trace v, Some k)"
proof (induction trace arbitrary: b v)
  case (Cons r trace)
  obtain now kd where r: "r = (now, kd)" by (cases r)
  obtain p b1 where p: "slow_pause interval b Attempt_done = (p, b1)" by (cases "slow_pause interval b Attempt_done")
  show ?case using Cons.IH [of b1 "materialiser_round cr (Some k) now v"] by (auto simp: r p materialiser_step_def split: prod.split)
qed simp

end
