(* ===== verification/Unsub_Backfill.thy ===== *)
theory Unsub_Backfill
  imports Dynamo_Registry
begin

text \<open>
  The one-time program that fills the time-ordered log of unsubscribes from the older cache items
  (deploy/backfill_unsub_log.py). The pages of its query and of its scan are read to the end and the scan sees only cache
  items, so that both are taken from the table as it is at the start; requests of other processes in between are left out.
\<close>

definition log_cursors :: "table \<Rightarrow> string set" where
  "log_cursors t = set (map fst (query ''UNSUB_LOG'' (\<lambda>_. True) t))"

definition unsub_items :: "table \<Rightarrow> item list" where
  "unsub_items t = map snd (filter (\<lambda>e. starts_with (fst (fst e)) ''UNSUB#'') t)"

definition log_cursor_of :: "string \<Rightarrow> item \<Rightarrow> string" where
  "log_cursor_of h it = str_attr_or ''added_at'' ''1970-01-01T00:00:00Z'' it @ ''#'' @ h"

definition log_row_of :: "string \<Rightarrow> item \<Rightarrow> item" where
  "log_row_of h it =
     [(''email_hash'', AStr h), (''scope'', AStr (str_attr_or ''scope'' ''all'' it)),
      (''added_at'', AStr (str_attr_or ''added_at'' ''1970-01-01T00:00:00Z'' it))]"

text \<open>The counts of added and skipped rows; an item without its hash raises and leaves what was written before.\<close>

fun backfill_items :: "string set \<Rightarrow> item list \<Rightarrow> table \<Rightarrow> nat \<Rightarrow> nat \<Rightarrow> table \<times> (exc + nat \<times> nat)" where
  "backfill_items existing [] t added skipped = (t, Inr (added, skipped))"
| "backfill_items existing (it # its) t added skipped =
     (case str_attr ''email_hash'' it of
        None \<Rightarrow> (t, Inl (KeyError ''email_hash''))
      | Some h \<Rightarrow>
          if log_cursor_of h it \<in> existing then backfill_items existing its t added (Suc skipped)
          else backfill_items existing its (put_item ''UNSUB_LOG'' (log_cursor_of h it) (log_row_of h it) t) (Suc added) skipped)"

definition backfill_unsub_log :: "table \<Rightarrow> table \<times> (exc + nat \<times> nat)" where
  "backfill_unsub_log t = backfill_items (log_cursors t) (unsub_items t) t 0 0"

section \<open>Lemmas\<close>

lemma backfill_other:
  "backfill_items ex its t a s = (t', r) \<Longrightarrow> pk \<noteq> ''UNSUB_LOG'' \<or> sk \<in> ex \<Longrightarrow> get_item t' pk sk = get_item t pk sk"
  by (induction ex its t a s rule: backfill_items.induct) (auto simp: get_put split: option.splits if_splits)

lemma backfill_wf: "backfill_items ex its t a s = (t', r) \<Longrightarrow> wf_table t \<Longrightarrow> wf_table t'"
  by (induction ex its t a s rule: backfill_items.induct) (auto split: option.splits if_splits)

lemma backfill_counts: "backfill_items ex its t a s = (t', Inr (a', s')) \<Longrightarrow> a' + s' = a + s + length its"
  by (induction ex its t a s rule: backfill_items.induct) (auto split: option.splits if_splits)

lemma put_not_unsub: "unsub_items (put_item ''UNSUB_LOG'' sk it t) = unsub_items t"
  by (induction t) (auto simp: put_item_def unsub_items_def)

lemma backfill_same_items: "backfill_items ex its t a s = (t', r) \<Longrightarrow> unsub_items t' = unsub_items t"
  by (induction ex its t a s rule: backfill_items.induct) (auto simp: put_not_unsub split: option.splits if_splits)

lemma log_cursors_iff: "wf_table t \<Longrightarrow> sk \<in> log_cursors t \<longleftrightarrow> (\<exists>it. get_item t ''UNSUB_LOG'' sk = Some it)"
  unfolding log_cursors_def by (auto simp: set_query image_iff Bex_def)

lemma backfill_ends:
  "\<forall>it\<in>set its. str_attr ''email_hash'' it \<noteq> None \<Longrightarrow> \<exists>t' a' s'. backfill_items ex its t a s = (t', Inr (a', s'))"
  by (induction ex its t a s rule: backfill_items.induct) (auto split: option.splits)

lemma backfill_old_row:
  "backfill_items ex its t a s = (t', r) \<Longrightarrow> \<exists>it. get_item t ''UNSUB_LOG'' sk = Some it \<Longrightarrow> \<exists>it. get_item t' ''UNSUB_LOG'' sk = Some it"
  by (induction ex its t a s rule: backfill_items.induct) (auto simp: get_put split: option.splits if_splits)

lemma backfill_has_row:
  "backfill_items ex its t a s = (t', Inr c) \<Longrightarrow> \<forall>sk\<in>ex. \<exists>x. get_item t ''UNSUB_LOG'' sk = Some x \<Longrightarrow> it \<in> set its \<Longrightarrow>
    str_attr ''email_hash'' it = Some h \<Longrightarrow> \<exists>x. get_item t' ''UNSUB_LOG'' (log_cursor_of h it) = Some x"
proof (induction ex its t a s rule: backfill_items.induct)
  case (2 ex i its t a s)
  then obtain g where g: "str_attr ''email_hash'' i = Some g" by (cases "str_attr ''email_hash'' i") auto
  let ?t = "if log_cursor_of g i \<in> ex then t else put_item ''UNSUB_LOG'' (log_cursor_of g i) (log_row_of g i) t"
  obtain a1 s1 where r: "backfill_items ex its ?t a1 s1 = (t', Inr c)"
    using 2(3) g by (cases "log_cursor_of g i \<in> ex") auto
  have k: "\<forall>sk\<in>ex. \<exists>x. get_item ?t ''UNSUB_LOG'' sk = Some x" using 2(4) by (auto simp: get_put)
  show ?case
  proof (cases "it \<in> set its")
    case True
    then show ?thesis using 2(1,2) [OF g] 2(3-) g k by (cases "log_cursor_of g i \<in> ex") auto
  next
    case False
    then have "\<exists>x. get_item ?t ''UNSUB_LOG'' (log_cursor_of h it) = Some x" using 2(4-) g by (auto simp: get_put)
    then show ?thesis by (rule backfill_old_row [OF r])
  qed
qed simp

lemma backfill_nothing_new:
  "\<forall>it\<in>set its. \<exists>h. str_attr ''email_hash'' it = Some h \<and> log_cursor_of h it \<in> ex \<Longrightarrow>
    backfill_items ex its t a s = (t, Inr (a, s + length its))"
  by (induction ex its t a s rule: backfill_items.induct) auto

section \<open>Properties\<close>

text \<open>Where every cache item has its hash, the program ends with every item in the log and counts each once; it writes only
  rows of the log that were not there, and a second run writes nothing.\<close>

theorem backfill_is_complete:
  assumes "wf_table t" "\<forall>it\<in>set (unsub_items t). str_attr ''email_hash'' it \<noteq> None"
  shows "\<exists>t' a s. backfill_unsub_log t = (t', Inr (a, s)) \<and> a + s = length (unsub_items t) \<and>
    (\<forall>it h. it \<in> set (unsub_items t) \<and> str_attr ''email_hash'' it = Some h \<longrightarrow> log_cursor_of h it \<in> log_cursors t') \<and>
    (\<forall>pk sk. pk \<noteq> ''UNSUB_LOG'' \<or> sk \<in> log_cursors t \<longrightarrow> get_item t' pk sk = get_item t pk sk) \<and>
    backfill_unsub_log t' = (t', Inr (0, length (unsub_items t)))"
proof -
  obtain t' a s where r: "backfill_items (log_cursors t) (unsub_items t) t 0 0 = (t', Inr (a, s))"
    using backfill_ends [OF assms(2)] by blast
  have wf: "wf_table t'" by (rule backfill_wf [OF r assms(1)])
  have rows: "log_cursor_of h it \<in> log_cursors t'" if "it \<in> set (unsub_items t)" "str_attr ''email_hash'' it = Some h" for it h
    using backfill_has_row [OF r _ that] log_cursors_iff [OF assms(1)] log_cursors_iff [OF wf] by blast
  have same: "unsub_items t' = unsub_items t" by (rule backfill_same_items [OF r])
  have "\<forall>it\<in>set (unsub_items t). \<exists>h. str_attr ''email_hash'' it = Some h \<and> log_cursor_of h it \<in> log_cursors t'"
    using assms(2) rows by auto
  from backfill_nothing_new [OF this, of t' 0 0] have "backfill_unsub_log t' = (t', Inr (0, length (unsub_items t)))"
    by (simp add: backfill_unsub_log_def same)
  moreover have "a + s = length (unsub_items t)" using backfill_counts [OF r] by simp
  ultimately show ?thesis
    using r rows backfill_other [OF r] by (intro exI [of _ t'] exI [of _ a] exI [of _ s]) (auto simp: backfill_unsub_log_def)
qed

text \<open>The rows carry the time of the old unsubscribe: a terminal whose cursor is past it by then is never sent them.\<close>

theorem backfilled_row_is_behind:
  assumes "backfill_unsub_log t = (t', r)" "unsub_inv t'" "log_cursor_of h it \<le> since"
  shows "\<exists>us. list_unsubs since n t' = Some us \<and> log_cursor_of h it \<notin> un_cursor ` set us"
  using assms(3) by (auto simp: list_unsubs_eq [OF assms(2)] dest!: in_set_takeD)

end
