(* ===== verification/Db_Migrations.thy ===== *)
theory Db_Migrations
  imports Terminal_Db
begin

text \<open>
  The migrations of the two SQLite databases (terminal/db.py and cloud/db.py, which have the same lines) and the check of
  a copied file. The effect of a migration script is an argument: what it leaves, and whether it ended without
  an error; a script commits as it goes. A start may be interrupted between any two steps.
\<close>

record 'd database =
  db_content :: 'd
  db_applied :: "string list"

datatype start_result = Started | Interrupted | Migration_failed string

text \<open>The loop over the files with at most \<open>n\<close> steps: running a script is one step, its marker another.\<close>

fun apply_files ::
  "(string \<Rightarrow> 'd \<Rightarrow> 'd \<times> bool) \<Rightarrow> string set \<Rightarrow> string list \<Rightarrow> nat \<Rightarrow> 'd database \<Rightarrow> 'd database \<times> start_result" where
  "apply_files run applied [] n db = (db, Started)"
| "apply_files run applied (f # fs) n db =
     (if f \<in> applied then apply_files run applied fs n db
      else
        (case n of
           0 \<Rightarrow> (db, Interrupted)
         | Suc m \<Rightarrow>
             (case run f (db_content db) of
                (d, False) \<Rightarrow> (db\<lparr>db_content := d\<rparr>, Migration_failed f)
              | (d, True) \<Rightarrow>
                  (case m of
                     0 \<Rightarrow> (db\<lparr>db_content := d\<rparr>, Interrupted)
                   | Suc k \<Rightarrow> apply_files run applied fs k (db\<lparr>db_content := d, db_applied := db_applied db @ [f]\<rparr>)))))"

text \<open>The names of the directory that end in \<open>.sql\<close>, sorted.\<close>

definition migration_files :: "string list \<Rightarrow> string list" where
  "migration_files dir = sort (filter (\<lambda>f. starts_with (rev f) (rev ''.sql'')) dir)"

definition apply_migrations :: "(string \<Rightarrow> 'd \<Rightarrow> 'd \<times> bool) \<Rightarrow> string list \<Rightarrow> nat \<Rightarrow> 'd database \<Rightarrow> 'd database \<times> start_result" where
  "apply_migrations run dir n db = apply_files run (set (db_applied db)) (migration_files dir) n db"

text \<open>The bytes of a file (\<open>None\<close>: there is none) and what SQLite makes of them: the answer of the integrity check and the
  names in the migration table, \<open>None\<close> when one of them raises.\<close>

definition integrity_ok :: "(bytes \<Rightarrow> (string \<times> string list) option) \<Rightarrow> bytes option \<Rightarrow> bool" where
  "integrity_ok sqlite file =
     (case file of
        None \<Rightarrow> False
      | Some b \<Rightarrow>
          if length b \<le> 0 then False
          else (case sqlite b of None \<Rightarrow> False | Some (answer, names) \<Rightarrow> if answer \<noteq> ''ok'' then False else 1 \<le> length names))"

section \<open>Properties\<close>

definition pending_files :: "string list \<Rightarrow> 'd database \<Rightarrow> string list" where
  "pending_files dir db = filter (\<lambda>f. f \<notin> set (db_applied db)) (migration_files dir)"

lemma apply_pending:
  "apply_files run applied fs n db = apply_files run applied (filter (\<lambda>f. f \<notin> applied) fs) n db"
  by (induction run applied fs n db rule: apply_files.induct) (auto split: nat.split prod.split bool.split)

lemma complete_run:
  assumes "\<And>f d. snd (run f d)" "2 * length fs \<le> n" "set fs \<inter> applied = {}"
  shows "apply_files run applied fs n db =
    (db\<lparr>db_content := fold (\<lambda>f d. fst (run f d)) fs (db_content db), db_applied := db_applied db @ fs\<rparr>, Started)"
  using assms(2,3)
proof (induction fs arbitrary: n db)
  case (Cons f fs)
  then obtain k where k: "n = Suc (Suc k)" by (cases n; cases "n - 1") auto
  obtain d where r: "run f (db_content db) = (d, True)" using assms(1) [of f "db_content db"] by (cases "run f (db_content db)") auto
  show ?case using Cons.IH [of k] Cons.prems by (simp add: k r)
qed simp

text \<open>A start that is not interrupted, with scripts that do not fail, runs the scripts that are not marked yet, each once and in
  the order of their names, and marks them; the next start runs nothing.\<close>

theorem migrations_run_once:
  assumes "\<And>f d. snd (run f d)" "2 * length dir \<le> n" "distinct dir"
  shows "\<exists>db'. apply_migrations run dir n db = (db', Started) \<and> sorted (pending_files dir db) \<and> distinct (pending_files dir db) \<and>
    db_content db' = fold (\<lambda>f d. fst (run f d)) (pending_files dir db) (db_content db) \<and>
    db_applied db' = db_applied db @ pending_files dir db \<and> apply_migrations run dir k db' = (db', Started)"
proof -
  have "length (pending_files dir db) \<le> length dir"
    unfolding pending_files_def migration_files_def by (metis le_trans length_filter_le length_sort)
  then have n: "2 * length (pending_files dir db) \<le> n" using assms(2) by linarith
  have r: "apply_migrations run dir n db = (db\<lparr>db_content := fold (\<lambda>f d. fst (run f d)) (pending_files dir db) (db_content db),
      db_applied := db_applied db @ pending_files dir db\<rparr>, Started)"
    unfolding apply_migrations_def by (subst apply_pending) (use complete_run [where run = run, OF assms(1) n, of "set (db_applied db)" db] in \<open>auto simp: pending_files_def\<close>)
  have none: "apply_files run A fs k db' = (db', Started)" if "set fs \<subseteq> A" for A fs db'
    using that by (induction fs) auto
  have "apply_migrations run dir k db' = (db', Started)" if "db_applied db' = db_applied db @ pending_files dir db" for db'
    unfolding apply_migrations_def by (rule none) (auto simp: that pending_files_def)
  moreover have "sorted (pending_files dir db)" "distinct (pending_files dir db)"
    using assms(3) by (simp_all add: pending_files_def migration_files_def sorted_filter [where f = id, simplified])
  ultimately show ?thesis using r by (intro exI) auto
qed

text \<open>With scripts that may be run twice, starts that are interrupted anywhere do no harm: the next complete one ends as if
  nothing had happened.\<close>

lemma interrupted_run:
  assumes "\<And>f d. snd (run f d) \<and> fst (run f (fst (run f d))) = fst (run f d)"
    and "apply_files run applied fs n db = (db', Interrupted)" "distinct fs" "set fs \<inter> applied = {}"
  shows "\<exists>done rest. fs = done @ rest \<and> db_applied db' = db_applied db @ done \<and>
    fold (\<lambda>f d. fst (run f d)) rest (db_content db') = fold (\<lambda>f d. fst (run f d)) fs (db_content db)"
  using assms(2-)
proof (induction fs arbitrary: n db)
  case (Cons f fs)
  obtain d where r: "run f (db_content db) = (d, True)" using assms(1) [of f "db_content db"] by (cases "run f (db_content db)") auto
  have again: "fst (run f d) = d" using assms(1) [of f "db_content db"] r by simp
  consider "n = 0" | "n = Suc 0" | k where "n = Suc (Suc k)" by (metis not0_implies_Suc)
  then show ?case
  proof cases
    case 3
    from Cons.IH [of k "db\<lparr>db_content := d, db_applied := db_applied db @ [f]\<rparr>"] Cons.prems obtain dn rest where
      "fs = dn @ rest" "db_applied db' = (db_applied db @ [f]) @ dn"
      "fold (\<lambda>f d. fst (run f d)) rest (db_content db') = fold (\<lambda>f d. fst (run f d)) fs d"
      by (auto simp: 3 r)
    then show ?thesis using r by (intro exI [of _ "f # dn"] exI [of _ rest]) simp
  next
    case 1
    then show ?thesis using Cons.prems by (intro exI [of _ "[]"] exI [of _ "f # fs"]) simp
  next
    case 2
    then show ?thesis using Cons.prems r again by (intro exI [of _ "[]"] exI [of _ "f # fs"]) auto
  qed
qed simp

theorem interrupted_start_is_repeatable:
  assumes rep: "\<And>f d. snd (run f d) \<and> fst (run f (fst (run f d))) = fst (run f d)" and dir: "distinct dir" "2 * length dir \<le> k"
    and int: "apply_migrations run dir n db = (db', Interrupted)"
  shows "apply_migrations run dir k db' = apply_migrations run dir k db"
proof -
  have "apply_files run (set (db_applied db)) (pending_files dir db) n db = (db', Interrupted)"
    using int by (simp add: apply_migrations_def pending_files_def flip: apply_pending)
  moreover have d: "distinct (pending_files dir db)" "set (pending_files dir db) \<inter> set (db_applied db) = {}"
    using dir(1) by (auto simp: pending_files_def migration_files_def)
  ultimately obtain dn rest where r: "pending_files dir db = dn @ rest" "db_applied db' = db_applied db @ dn"
      "fold (\<lambda>f d. fst (run f d)) rest (db_content db') = fold (\<lambda>f d. fst (run f d)) (pending_files dir db) (db_content db)"
    using interrupted_run [where run = run, OF rep] by metis
  have "pending_files dir db' = filter (\<lambda>f. f \<notin> set dn) (pending_files dir db)"
    by (auto simp: pending_files_def r(2) intro: filter_cong)
  then have p: "pending_files dir db' = rest"
    using d(1) unfolding r(1) by (auto simp: filter_id_conv intro!: filter_False)
  have s: "\<And>f d. snd (run f d)" using rep by blast
  obtain e1 where 1: "apply_migrations run dir k db = (e1, Started)" "db_content e1 = fold (\<lambda>f d. fst (run f d)) (pending_files dir db) (db_content db)"
      "db_applied e1 = db_applied db @ pending_files dir db"
    using migrations_run_once [where run = run, OF s dir(2,1)] by blast
  obtain e2 where 2: "apply_migrations run dir k db' = (e2, Started)" "db_content e2 = fold (\<lambda>f d. fst (run f d)) rest (db_content db')"
      "db_applied e2 = db_applied db' @ rest"
    using migrations_run_once [where run = run, OF s dir(2,1)] p by metis
  have "e1 = e2" using 1(2,3) 2(2,3) r by (intro database.equality) auto
  then show ?thesis using 1(1) 2(1) by simp
qed

text \<open>A script that fails when it is run again (one that adds a column) makes an interruption before its marker final: no
  later start gets past it.\<close>

theorem interrupted_migration_blocks:
  assumes "pending_files dir db = f # fs" "run f (db_content db) = (d, True)" "run f d = (d, False)"
  shows "\<exists>db'. apply_migrations run dir 1 db = (db', Interrupted) \<and> (\<forall>n>0. apply_migrations run dir n db' = (db', Migration_failed f))"
proof -
  let ?db = "db\<lparr>db_content := d\<rparr>"
  have a: "apply_migrations run dir n x = apply_files run (set (db_applied x)) (pending_files dir x) n x" for n x
    unfolding apply_migrations_def pending_files_def by (rule apply_pending)
  have f: "f \<notin> set (db_applied db)" using assms(1) by (auto simp: pending_files_def filter_eq_Cons_iff)
  have p: "pending_files dir ?db = f # fs" using assms(1) by (simp add: pending_files_def)
  have "apply_migrations run dir 1 db = (?db, Interrupted)" using f assms(2) by (simp add: a assms(1))
  moreover have "apply_migrations run dir n ?db = (?db, Migration_failed f)" if "n > 0" for n
    using f assms(3) that by (cases n) (simp_all add: a p)
  ultimately show ?thesis by blast
qed

end
