(* ===== verification/Cloud_Main.thy ===== *)
theory Cloud_Main
  imports Cloud_Keys Dynamo_Packs
begin

text \<open>
  The application of the cloud (cloud/main.py): the figures of its health endpoint. Its start creates the table
  and calls \<open>migrate_from_env\<close> (Cloud_Settings); creating the table and wiring the routers is left to the libraries.
\<close>

record cloud_health =
  ch_packs_pending :: nat
  ch_near_conflicts_unack :: nat
  ch_k_temp :: "key_status option"

definition cloud_healthz :: "int \<Rightarrow> table \<Rightarrow> exc + cloud_health" where
  "cloud_healthz now t =
     (case query_events_since 0 1 t of
        None \<Rightarrow> Inl (KeyError ''event'')
      | Some es \<Rightarrow>
          (case list_pending_packs now 500 t of
             None \<Rightarrow> Inl (KeyError ''pack'')
           | Some pending \<Rightarrow>
               (case list_near_conflicts True 200 t of
                  None \<Rightarrow> Inl (KeyError ''conflict'')
                | Some conflicts \<Rightarrow>
                    (case k_temp_status now t of
                       None \<Rightarrow> Inl (KeyError ''k_temp'')
                     | Some status \<Rightarrow>
                         Inr \<lparr>ch_packs_pending = length pending, ch_near_conflicts_unack = length conflicts, ch_k_temp = status\<rparr>))))"

section \<open>Properties\<close>

lemma those_length: "those xs = Some ys \<Longrightarrow> length ys = length xs"
  by (induction xs arbitrary: ys) (auto split: option.splits)

text \<open>The health figures are bounded: pending packs are those that are due, at most 500 of them.\<close>

theorem health_counts_due_packs:
  "cloud_healthz now t = Inr h \<Longrightarrow>
    ch_packs_pending h = min 500 (length (query_status ''pending'' (\<lambda>s. s \<le> iso now) t)) \<and> ch_near_conflicts_unack h \<le> 200"
  by (auto simp: cloud_healthz_def list_pending_packs_def list_near_conflicts_def min.commute
      dest!: those_length split: option.splits intro!: order_trans [OF length_filter_le])

text \<open>The list of open near conflicts is cut before it is filtered: when the newest ones are acknowledged, an older one that is
  still open is neither listed nor counted.\<close>

theorem open_conflict_is_hidden:
  assumes "those (map (coerce_conflict \<circ> snd) (take n (rev (query ''CONFLICT'' (\<lambda>_. True) t)))) = Some cs" "\<forall>c\<in>set cs. truthy (cf_acked_at c)"
  shows "list_near_conflicts True n t = Some []"
    and "n = 200 \<Longrightarrow> cloud_healthz now t = Inr h \<Longrightarrow> ch_near_conflicts_unack h = 0"
  using assms by (auto simp: list_near_conflicts_def cloud_healthz_def filter_empty_conv split: option.splits)

end
